(* ===== verification/Prelude.thy ===== *)
theory Prelude
  imports Main "HOL-Library.Word"
begin

text \<open>
  Shared vocabulary of the development: the C integer types of the firmware, the byte
  level encodings it uses (big and little endian fields, BCD), the exclusive-or checksum
  that protects every stored record and every frame, and the list facts the component
  theories rely on.

  Bytes are \<^typ>\<open>8 word\<close>. The 16 and 32 bit unsigned counters, page numbers and lengths
  are natural numbers with the wrap-around written out by \<open>u16\<close> and \<open>u32\<close>, at the
  places where the C code stores a value in a variable of that width.
\<close>

unbundle bit_operations_syntax

section \<open>Integers of the firmware\<close>

type_synonym u8 = "8 word"
type_synonym bytes = "8 word list"

named_theorems width_simps \<open>removal of the explicit wrap-around\<close>
named_theorems flash_simps \<open>reading the flash array after an operation\<close>

definition u8n :: "nat \<Rightarrow> nat" where
  "u8n n = n mod 256"

definition u16 :: "nat \<Rightarrow> nat" where
  "u16 n = n mod 65536"

definition u32 :: "nat \<Rightarrow> nat" where
  "u32 n = n mod 4294967296"

abbreviation byte :: "nat \<Rightarrow> u8" where
  "byte n \<equiv> of_nat n"

lemma u8n_small [width_simps]: "n < 256 \<Longrightarrow> u8n n = n"
  by (simp add: u8n_def)

lemma u16_small [width_simps]: "n < 65536 \<Longrightarrow> u16 n = n"
  by (simp add: u16_def)

lemma u32_small [width_simps]: "n < 4294967296 \<Longrightarrow> u32 n = n"
  by (simp add: u32_def)

lemma u8n_less: "u8n n < 256"
  by (simp add: u8n_def)

lemma u16_less: "u16 n < 65536"
  by (simp add: u16_def)

lemma u32_less: "u32 n < 4294967296"
  by (simp add: u32_def)

lemma u16_u16 [simp]: "u16 (u16 n) = u16 n"
  by (simp add: u16_def)

lemma unat_byte: "unat (byte n) = n mod 256"
  by (simp add: unat_of_nat)

lemma unat_u8_less: "unat (b :: u8) < 256"
proof -
  have "unat b < 2 ^ LENGTH(8)" by (rule unsigned_less)
  then show ?thesis by simp
qed

lemma byte_unat [simp]: "byte (unat (b :: u8)) = b"
  by simp

lemma byte_u8n [simp]: "byte (u8n n) = byte n"
  by (simp add: u8n_def word_unat_eq_iff unat_of_nat)

lemma word_and_full [simp]: "(0xFF :: u8) AND b = b"
proof -
  have "(0xFF :: u8) = mask 8" by (simp add: mask_eq_exp_minus_1)
  also have "\<dots> = - 1" by (rule bit_word_eqI) (simp add: bit_mask_iff)
  finally have "(0xFF :: u8) AND b = - 1 AND b" by (rule arg_cong)
  then show ?thesis by (simp only: and.left_neutral)
qed

text \<open>Increment of a slot pointer that restarts at zero when it reaches the limit.\<close>

definition ring_inc :: "nat \<Rightarrow> nat \<Rightarrow> nat" where
  "ring_inc limit n = (let m = u32 (n + 1) in if m \<ge> limit then 0 else m)"

lemma ring_inc_less: "0 < limit \<Longrightarrow> ring_inc limit n < limit"
  by (simp add: ring_inc_def Let_def)

lemma ring_inc_mod:
  assumes "n < limit" and "limit \<le> 4294967295"
  shows "ring_inc limit n = (n + 1) mod limit"
proof (cases "n + 1 = limit")
  case True
  with assms show ?thesis by (simp add: ring_inc_def u32_small)
next
  case False
  with assms have "n + 1 < limit" by simp
  with assms show ?thesis by (simp add: ring_inc_def u32_small)
qed

section \<open>Exclusive-or checksum\<close>

text \<open>
  The loop \<^verbatim>\<open>FCS = 0; for (i = 0; i < n; i++) FCS ^= buf[i];\<close> that every record and
  every frame of the firmware uses.
\<close>

definition xor_sum :: "bytes \<Rightarrow> u8" where
  "xor_sum bs = foldl (XOR) 0 bs"

lemma foldl_xor: "foldl (XOR) a bs = a XOR foldl (XOR) (0 :: u8) bs"
proof (induction bs arbitrary: a)
  case Nil
  show ?case by simp
next
  case (Cons b bs)
  have "foldl (XOR) a (b # bs) = (a XOR b) XOR foldl (XOR) 0 bs"
    using Cons.IH [of "a XOR b"] by simp
  also have "\<dots> = a XOR foldl (XOR) (0 XOR b) bs"
    using Cons.IH [of "0 XOR b"] by (simp add: xor.assoc)
  finally show ?case by simp
qed

lemma xor_sum_Nil [simp]: "xor_sum [] = 0"
  by (simp add: xor_sum_def)

lemma xor_sum_Cons [simp]: "xor_sum (b # bs) = b XOR xor_sum bs"
  by (simp add: xor_sum_def foldl_xor [of b])

lemma xor_sum_append [simp]: "xor_sum (xs @ ys) = xor_sum xs XOR xor_sum ys"
  by (induction xs) (simp_all add: xor.assoc)

lemma xor_self [simp]: "(a :: u8) XOR a = 0"
  by simp

lemma xor_sum_closed: "xor_sum (xs @ [xor_sum xs]) = 0"
  by simp

lemma xor_cancel_left: "((a :: u8) XOR b = a XOR c) = (b = c)"
proof
  assume "a XOR b = a XOR c"
  then have "a XOR (a XOR b) = a XOR (a XOR c)" by simp
  then show "b = c" by (simp flip: xor.assoc)
qed simp

lemma xor_eq_0_iff: "(a XOR b = 0) = ((a :: u8) = b)"
  by (metis xor_cancel_left xor_self)

text \<open>One changed byte always changes the checksum: single byte errors are detected.\<close>

lemma xor_sum_update:
  assumes "i < length xs"
  shows "(xor_sum (xs[i := b]) = xor_sum xs) = (b = xs ! i)"
proof -
  have split: "xs = take i xs @ xs ! i # drop (Suc i) xs"
    using assms by (simp add: id_take_nth_drop)
  have upd: "xs[i := b] = take i xs @ b # drop (Suc i) xs"
    using assms by (simp add: upd_conv_take_nth_drop)
  have "(xor_sum (xs[i := b]) = xor_sum xs) =
      (b XOR xor_sum (drop (Suc i) xs) = xs ! i XOR xor_sum (drop (Suc i) xs))"
    by (subst upd, subst (2) split) (simp add: xor_cancel_left)
  also have "\<dots> = (b = xs ! i)"
    by (metis xor.commute xor_cancel_left)
  finally show ?thesis .
qed

section \<open>Byte encodings of numbers\<close>

text \<open>\<open>be16\<close>: a two byte field, high byte first. \<open>be32\<close>: four bytes, high byte first.\<close>

definition be16 :: "nat \<Rightarrow> bytes" where
  "be16 n = [byte (n div 256), byte n]"

definition be32 :: "nat \<Rightarrow> bytes" where
  "be32 n = [byte (n div 16777216), byte (n div 65536), byte (n div 256), byte n]"

definition of_be16 :: "u8 \<Rightarrow> u8 \<Rightarrow> nat" where
  "of_be16 hi lo = unat hi * 256 + unat lo"

lemma length_be16 [simp]: "length (be16 n) = 2"
  by (simp add: be16_def)

lemma length_be32 [simp]: "length (be32 n) = 4"
  by (simp add: be32_def)

lemma of_be16_be16: "n < 65536 \<Longrightarrow> of_be16 (byte (n div 256)) (byte n) = n"
  by (simp add: of_be16_def unat_of_nat)

lemma u16_of_be16 [simp]: "u16 (of_be16 a b) = of_be16 a b"
proof (rule u16_small)
  have "unat a < 256" "unat b < 256" by (rule unat_u8_less)+
  then show "of_be16 a b < 65536" by (simp add: of_be16_def)
qed

text \<open>
  \<open>le32\<close> is the memory image of a 32 bit unsigned integer on the little endian core, as
  \<^verbatim>\<open>memcpy(buf, &x, 4)\<close> copies it; \<open>of_le32\<close> reads it back.
\<close>

definition le32 :: "nat \<Rightarrow> bytes" where
  "le32 n = [byte n, byte (n div 256), byte (n div 65536), byte (n div 16777216)]"

definition of_le32 :: "bytes \<Rightarrow> nat" where
  "of_le32 bs = unat (bs ! 0) + unat (bs ! 1) * 256 + unat (bs ! 2) * 65536
     + unat (bs ! 3) * 16777216"

lemma length_le32 [simp]: "length (le32 n) = 4"
  by (simp add: le32_def)

lemma of_le32_le32: "of_le32 (le32 n) = u32 n"
proof -
  have "n mod 4294967296 = n mod 256 + 256 * (n div 256 mod 16777216)"
    using mod_mult2_eq [of n 256 16777216] by simp
  moreover have "n div 256 mod 16777216 = n div 256 mod 256 + 256 * (n div 65536 mod 65536)"
    using mod_mult2_eq [of "n div 256" 256 65536] by (simp add: div_mult2_eq [symmetric])
  moreover have "n div 65536 mod 65536 = n div 65536 mod 256 + 256 * (n div 16777216 mod 256)"
    using mod_mult2_eq [of "n div 65536" 256 256] by (simp add: div_mult2_eq [symmetric])
  ultimately show ?thesis
    by (simp add: of_le32_def le32_def unat_of_nat u32_def)
qed

text \<open>Two decimal digits packed in a byte, as the firmware writes dates and times.\<close>

definition bcd8 :: "nat \<Rightarrow> u8" where
  "bcd8 n = byte ((n div 10) * 16 + n mod 10)"

definition of_bcd8 :: "u8 \<Rightarrow> nat" where
  "of_bcd8 b = (unat b div 16) * 10 + unat b mod 16"

lemma of_bcd8_bcd8: "n < 100 \<Longrightarrow> of_bcd8 (bcd8 n) = n"
proof -
  assume n: "n < 100"
  have r: "n mod 10 < 10" by simp
  from n have "n div 10 < 10" by (simp add: less_mult_imp_div_less)
  with r have lt: "(n div 10) * 16 + n mod 10 < 256" by linarith
  have "((n div 10) * 16 + n mod 10) div 16 = n div 10"
    using r by (simp add: div_add1_eq)
  moreover have "((n div 10) * 16 + n mod 10) mod 16 = n mod 10"
    using r by simp
  moreover have "unat (bcd8 n) = (n div 10) * 16 + n mod 10"
    unfolding bcd8_def using lt by (simp only: unat_byte) simp
  ultimately show ?thesis
    by (simp add: of_bcd8_def)
qed

section \<open>Lists\<close>

lemma map_nth_upt: "n \<le> length xs \<Longrightarrow> map ((!) xs) [0..<n] = take n xs"
  by (rule nth_equalityI) simp_all

lemma map_upt_eq_list:
  assumes "\<And>i. i < length xs \<Longrightarrow> f i = xs ! i" and "n = length xs"
  shows "map f [0..<n] = xs"
  using assms by (intro nth_equalityI) simp_all

text \<open>Rows of equal length laid out one after the other.\<close>

lemma length_concat_rows:
  "(\<And>j. length (g j) = k) \<Longrightarrow> length (concat (map g [0..<n])) = n * k"
  by (induction n) simp_all

lemma nth_concat_rows:
  assumes "\<And>j. length (g j) = k" and "j < n" and "i < k"
  shows "concat (map g [0..<n]) ! (j * k + i) = g j ! i"
  using assms(2)
proof (induction n)
  case 0
  then show ?case by simp
next
  case (Suc n)
  have len: "length (concat (map g [0..<n])) = n * k"
    using assms(1) by (rule length_concat_rows)
  show ?case
  proof (cases "j < n")
    case True
    then have "(j + 1) * k \<le> n * k" by (intro mult_le_mono1) simp
    with assms(3) have "j * k + i < n * k" by simp
    with True Suc.IH len show ?thesis by (simp add: nth_append)
  next
    case False
    with Suc.prems have "j = n" by simp
    with len assms(3) show ?thesis by (simp add: nth_append)
  qed
qed

text \<open>Index of the first element with a property, or the length of the list.\<close>

definition first_index :: "('a \<Rightarrow> bool) \<Rightarrow> 'a list \<Rightarrow> nat" where
  "first_index p xs = length (takeWhile (\<lambda>x. \<not> p x) xs)"

lemma first_index_le: "first_index p xs \<le> length xs"
  by (simp add: first_index_def length_takeWhile_le)

lemma first_index_before: "i < first_index p xs \<Longrightarrow> \<not> p (xs ! i)"
  unfolding first_index_def
  by (metis nth_mem set_takeWhileD takeWhile_nth)

lemma first_index_eqI:
  assumes "n \<le> length xs" and "\<And>i. i < n \<Longrightarrow> \<not> p (xs ! i)"
    and "n < length xs \<Longrightarrow> p (xs ! n)"
  shows "first_index p xs = n"
proof -
  have "takeWhile (\<lambda>x. \<not> p x) xs = take n xs"
    using assms by (intro takeWhile_eq_take_P_nth) auto
  with assms(1) show ?thesis by (simp add: first_index_def)
qed

end
