(* ===== verification/Nor_Flash.thy ===== *)
theory Nor_Flash
  imports Prelude
begin

text \<open>
  The serial NOR flash as the data-flash layer uses it, at the level of completed
  commands: read a byte, program a byte, erase an aligned block. Programming can only
  clear bits, erasing sets a whole block to \<open>0xFF\<close>.

  \<open>nor_device\<close> is the interface that the storage code relies on; its lemmas about the
  byte-by-byte write and read loops are proved once, from the laws. The array
  \<open>nor_read\<close>, \<open>nor_program\<close>, \<open>nor_erase\<close> of the 4 MByte part is one provider.
\<close>

section \<open>The interface\<close>

text \<open>Programming a buffer byte by byte, at increasing addresses.\<close>

definition prog_all :: "(u8 \<Rightarrow> nat \<Rightarrow> 's \<Rightarrow> 's) \<Rightarrow> nat \<Rightarrow> bytes \<Rightarrow> 's \<Rightarrow> 's" where
  "prog_all prog a bs s = fold (\<lambda>(i, b). prog b (a + i)) (enumerate 0 bs) s"

definition read_all :: "('s \<Rightarrow> nat \<Rightarrow> u8) \<Rightarrow> nat \<Rightarrow> nat \<Rightarrow> 's \<Rightarrow> bytes" where
  "read_all rd a n s = map (\<lambda>i. rd s (a + i)) [0..<n]"

lemma length_read_all [simp]: "length (read_all rd a n s) = n"
  by (simp add: read_all_def)

lemma nth_read_all [simp]: "i < n \<Longrightarrow> read_all rd a n s ! i = rd s (a + i)"
  by (simp add: read_all_def)

lemma read_all_cong:
  "(\<And>i. i < n \<Longrightarrow> rd s (a + i) = rd t (a + i)) \<Longrightarrow> read_all rd a n s = read_all rd a n t"
  by (simp add: read_all_def)

locale nor_device =
  fixes rd :: "'s \<Rightarrow> nat \<Rightarrow> u8"
    and prog :: "u8 \<Rightarrow> nat \<Rightarrow> 's \<Rightarrow> 's"
    and erase :: "nat \<Rightarrow> nat \<Rightarrow> 's \<Rightarrow> 's"
    and capacity :: nat
  assumes rd_prog: "x < capacity \<Longrightarrow> a < capacity \<Longrightarrow>
      rd (prog b a s) x = (if x = a then rd s x AND b else rd s x)"
    and rd_erase: "x < capacity \<Longrightarrow> a < capacity \<Longrightarrow>
      rd (erase n a s) x = (if x div n = a div n then 0xFF else rd s x)"
begin

lemma rd_fold_enumerate:
  assumes "x < capacity" and "a + n + length bs \<le> capacity"
  shows "rd (fold (\<lambda>(i, b). prog b (a + i)) (enumerate n bs) s) x =
    (if a + n \<le> x \<and> x < a + n + length bs then rd s x AND bs ! (x - (a + n)) else rd s x)"
  using assms(2)
proof (induction bs arbitrary: n s)
  case Nil
  then show ?case by auto
next
  case (Cons b bs)
  from Cons.prems have an: "a + n < capacity" by simp
  have step: "rd (fold (\<lambda>(i, b). prog b (a + i)) (enumerate n (b # bs)) s) x =
      (if a + Suc n \<le> x \<and> x < a + Suc n + length bs
       then rd (prog b (a + n) s) x AND bs ! (x - (a + Suc n)) else rd (prog b (a + n) s) x)"
    using Cons.IH [of "Suc n" "prog b (a + n) s"] Cons.prems by simp
  show ?case
  proof (cases "x = a + n")
    case True
    then show ?thesis using step an assms(1) by (simp add: rd_prog)
  next
    case False
    have "bs ! (x - (a + Suc n)) = (b # bs) ! (x - (a + n))" if "a + Suc n \<le> x"
      using that by (simp add: Suc_diff_le [symmetric] nth_Cons')
    with False show ?thesis using step an assms(1) by (auto simp: rd_prog)
  qed
qed

lemma rd_prog_all:
  assumes "x < capacity" and "a + length bs \<le> capacity"
  shows "rd (prog_all prog a bs s) x =
    (if a \<le> x \<and> x < a + length bs then rd s x AND bs ! (x - a) else rd s x)"
  using rd_fold_enumerate [OF assms(1), of a 0 bs s] assms(2) by (simp add: prog_all_def)

lemma read_all_prog_all_blank:
  assumes "a + length bs \<le> capacity" and "\<And>i. i < length bs \<Longrightarrow> rd s (a + i) = 0xFF"
  shows "read_all rd a (length bs) (prog_all prog a bs s) = bs"
  unfolding read_all_def using assms by (intro map_upt_eq_list) (simp_all add: rd_prog_all)

lemma read_all_prog_all_disjoint:
  assumes "a + length bs \<le> capacity" and "c + n \<le> capacity"
    and "c + n \<le> a \<or> a + length bs \<le> c"
  shows "read_all rd c n (prog_all prog a bs s) = read_all rd c n s"
  using assms by (intro read_all_cong) (auto simp: rd_prog_all)

lemma read_all_erase_other:
  assumes "c + n \<le> capacity" and "a < capacity" and "\<And>i. i < n \<Longrightarrow> (c + i) div k \<noteq> a div k"
  shows "read_all rd c n (erase k a s) = read_all rd c n s"
  using assms by (intro read_all_cong) (simp add: rd_erase)

lemma rd_erase_same:
  assumes "x < capacity" and "a < capacity" and "x div k = a div k"
  shows "rd (erase k a s) x = 0xFF"
  using assms by (simp add: rd_erase)

end

section \<open>The 4 MByte array\<close>

type_synonym flash = "nat \<Rightarrow> u8"

definition chip_size :: nat where
  "chip_size = 4194304"

definition nor_read :: "flash \<Rightarrow> nat \<Rightarrow> u8" where
  "nor_read f a = f (a mod chip_size)"

definition nor_program :: "u8 \<Rightarrow> nat \<Rightarrow> flash \<Rightarrow> flash" where
  "nor_program b a f = f(a mod chip_size := f (a mod chip_size) AND b)"

definition nor_erase :: "nat \<Rightarrow> nat \<Rightarrow> flash \<Rightarrow> flash" where
  "nor_erase n a f = (\<lambda>x. if x div n = (a mod chip_size) div n then 0xFF else f x)"

interpretation nor: nor_device nor_read nor_program nor_erase chip_size
  by unfold_locales (simp_all add: nor_read_def nor_program_def nor_erase_def)

abbreviation (input) PageSIZE :: nat where
  "PageSIZE \<equiv> 512"

abbreviation (input) sector_size :: nat where
  "sector_size \<equiv> 4096"

abbreviation blank :: "flash \<Rightarrow> nat \<Rightarrow> nat \<Rightarrow> bool" where
  "blank f a n \<equiv> (\<forall>i < n. nor_read f (a + i) = 0xFF)"

lemma nor_read_erase_sector [flash_simps]:
  "x < chip_size \<Longrightarrow> a < chip_size \<Longrightarrow> x div sector_size = a div sector_size \<Longrightarrow>
    nor_read (nor_erase sector_size a f) x = 0xFF"
  by (rule nor.rd_erase_same)

lemma nor_read_erase_other [flash_simps]:
  "x < chip_size \<Longrightarrow> a < chip_size \<Longrightarrow> x div n \<noteq> a div n \<Longrightarrow>
    nor_read (nor_erase n a f) x = nor_read f x"
  by (simp add: nor.rd_erase)

end
