(* ===== verification/DF_Oper.thy ===== *)
theory DF_Oper
  imports Nor_Flash
begin

text \<open>
  \<^verbatim>\<open>dataflash/DF_Oper.c\<close>: the flash seen as 8192 pages of 512 bytes, eight pages to an
  erasable sector. Page number, offset and length are \<^verbatim>\<open>u16\<close> parameters, truncated on
  entry; the product with the page size and the sums are 32 bit and cannot overflow.
  A buffer argument is the list of its bytes; \<open>take\<close> selects the first \<open>length\<close> of them.
  The busy-wait delays have no effect on the modelled state.
\<close>

section \<open>Operations\<close>

definition DF_Read_zk :: "nat \<Rightarrow> nat \<Rightarrow> flash \<Rightarrow> bytes" where
  "DF_Read_zk address len f = read_all nor_read (u32 address) (u16 len) f"

definition DF_ReadFlash :: "nat \<Rightarrow> nat \<Rightarrow> nat \<Rightarrow> flash \<Rightarrow> bytes" where
  "DF_ReadFlash page_counter page_offset len f =
     read_all nor_read (u16 page_counter * PageSIZE + u16 page_offset) (u16 len) f"

definition DF_WriteFlashDirect :: "nat \<Rightarrow> nat \<Rightarrow> bytes \<Rightarrow> nat \<Rightarrow> flash \<Rightarrow> flash" where
  "DF_WriteFlashDirect page_counter page_offset p len f =
     prog_all nor_program (u16 page_counter * PageSIZE + u16 page_offset) (take (u16 len) p) f"

definition DF_WriteFlashSector :: "nat \<Rightarrow> nat \<Rightarrow> bytes \<Rightarrow> nat \<Rightarrow> flash \<Rightarrow> flash" where
  "DF_WriteFlashSector page_counter page_offset p len f =
     (let f1 = nor_erase sector_size ((8 * (u16 page_counter div 8)) * PageSIZE) f
      in prog_all nor_program (u16 page_counter * 512 + u16 page_offset) (take (u16 len) p) f1)"

text \<open>
  \<open>DF_WriteFlash\<close> rewrites part of a page: it saves the first \<open>DFBakSize\<close> bytes of
  each of the eight pages of the sector in \<^verbatim>\<open>SectorBuf_save[8][DFBakSize]\<close>, erases the
  sector, and programs the saved bytes back, with the new bytes patched into the row of
  the addressed page just before that row is written. The two dimensional buffer is one
  contiguous list, so an index past the end of a row falls into the next row.
\<close>

abbreviation (input) DFBakSize :: nat where
  "DFBakSize \<equiv> 150"

definition patch :: "nat \<Rightarrow> bytes \<Rightarrow> bytes \<Rightarrow> bytes" where
  "patch k p buf = fold (\<lambda>(i, b) l. l[k + i := b]) (enumerate 0 p) buf"

definition DF_WriteFlash_row ::
  "nat \<Rightarrow> nat \<Rightarrow> bytes \<Rightarrow> bytes \<times> flash \<Rightarrow> nat \<Rightarrow> bytes \<times> flash" where
  "DF_WriteFlash_row page_counter page_offset p st j =
     (let SectorBuf_save = fst st; f = snd st;
          SectorBuf_save = (if j = page_counter mod 8
            then patch (j * DFBakSize + page_offset) p SectorBuf_save else SectorBuf_save)
      in (SectorBuf_save,
          prog_all nor_program ((8 * (page_counter div 8) + j) * PageSIZE)
            (take DFBakSize (drop (j * DFBakSize) SectorBuf_save)) f))"

definition DF_WriteFlash :: "nat \<Rightarrow> nat \<Rightarrow> bytes \<Rightarrow> nat \<Rightarrow> flash \<Rightarrow> flash" where
  "DF_WriteFlash page_counter page_offset p len f =
     (let pc = u16 page_counter;
          SectorBuf_save =
            concat (map (\<lambda>i. DF_ReadFlash (8 * (pc div 8) + i) 0 DFBakSize f) [0..<8]);
          f1 = nor_erase sector_size ((8 * (pc div 8)) * PageSIZE) f
      in snd (foldl (DF_WriteFlash_row pc (u16 page_offset) (take (u16 len) p))
                (SectorBuf_save, f1) [0..<8]))"

definition DF_EraseAppFile_Area :: "flash \<Rightarrow> flash" where
  "DF_EraseAppFile_Area f =
     (let f1 = nor_erase sector_size 0 f;
          f2 = DF_WriteFlashDirect 0 0 (DF_ReadFlash 48 0 PageSIZE f1) PageSIZE f1;
          f3 = DF_WriteFlashDirect 1 0 (DF_ReadFlash 49 0 PageSIZE f2) PageSIZE f2;
          f4 = fold (\<lambda>i g. nor_erase sector_size (i * 4096) g) [6..<134] f3;
          f5 = DF_WriteFlashDirect 48 0 (DF_ReadFlash 0 0 PageSIZE f4) PageSIZE f4
      in DF_WriteFlashDirect 49 0 (DF_ReadFlash 1 0 PageSIZE f5) PageSIZE f5)"

definition DF_WriteFlashRemote :: "nat \<Rightarrow> nat \<Rightarrow> bytes \<Rightarrow> nat \<Rightarrow> flash \<Rightarrow> flash" where
  "DF_WriteFlashRemote page_counter page_offset p len f =
     (let f1 = (if 51 = u16 page_counter then DF_EraseAppFile_Area f else f)
      in prog_all nor_program (u16 page_counter * PageSIZE + u16 page_offset)
           (take (u16 len) p) f1)"

definition DF_ClearUpdate_Area :: "flash \<Rightarrow> flash" where
  "DF_ClearUpdate_Area f = DF_EraseAppFile_Area (DF_WriteFlash 50 0 [0] 1 f)"

section \<open>Reading and direct writing\<close>

lemma length_DF_ReadFlash [simp]: "length (DF_ReadFlash pc po n f) = u16 n"
  by (simp add: DF_ReadFlash_def)

text \<open>In the address range of the chip the truncations are the identity.\<close>

lemma DF_ReadFlash_in_range:
  assumes "pc < 8192" and "po < 512" and "n < 65536"
  shows "DF_ReadFlash pc po n f = read_all nor_read (pc * PageSIZE + po) n f"
  using assms by (simp add: DF_ReadFlash_def u16_small)

lemma DF_WriteFlashDirect_in_range:
  assumes "pc < 8192" and "po < 512" and "n < 65536"
  shows "DF_WriteFlashDirect pc po p n f = prog_all nor_program (pc * PageSIZE + po) (take n p) f"
  using assms by (simp add: DF_WriteFlashDirect_def u16_small)

lemma DF_WriteFlashSector_in_range:
  assumes "pc < 8192" and "po < 512" and "n < 65536"
  shows "DF_WriteFlashSector pc po p n f =
    prog_all nor_program (pc * PageSIZE + po) (take n p)
      (nor_erase sector_size (8 * (pc div 8) * PageSIZE) f)"
  using assms by (simp add: DF_WriteFlashSector_def u16_small)

lemmas DF_in_range = DF_ReadFlash_in_range DF_WriteFlashDirect_in_range DF_WriteFlashSector_in_range

text \<open>Addresses split into page and offset.\<close>

lemma page_cond:
  fixes x q k :: nat
  assumes "k \<le> 512"
  shows "(q * 512 \<le> x \<and> x < q * 512 + k) = (x div 512 = q \<and> x mod 512 < k)"
proof -
  have x: "x = x div 512 * 512 + x mod 512" by simp
  have m: "x mod 512 < 512" by simp
  show ?thesis
  proof (cases "x div 512" q rule: linorder_cases)
    case less
    then have "(x div 512 + 1) * 512 \<le> q * 512" by (intro mult_le_mono1) simp
    with less x m show ?thesis by linarith
  next
    case equal
    have "(q * 512 \<le> x \<and> x < q * 512 + k) = (x mod 512 < k)"
      using x equal by linarith
    with equal show ?thesis by simp
  next
    case greater
    then have "(q + 1) * 512 \<le> x div 512 * 512" by (intro mult_le_mono1) simp
    with greater x m assms show ?thesis by linarith
  qed
qed

lemma sector_of_addr: "x div 4096 = (x div 512) div (8 :: nat)"
  by (simp flip: div_mult2_eq)

lemma page_of_addr: "off < 512 \<Longrightarrow> (pc * 512 + off) div 512 = (pc :: nat)"
  by simp

lemma sector_of_page: "off < 512 \<Longrightarrow> (pc * 512 + off) div 4096 = pc div (8 :: nat)"
  by (simp only: sector_of_addr page_of_addr)

lemma page_range: "pc < 8192 \<Longrightarrow> off + n \<le> 512 \<Longrightarrow> pc * 512 + off + n \<le> chip_size"
  by (simp add: chip_size_def)

lemma page_div_range: "x < chip_size \<Longrightarrow> x div 512 < 8192"
  by (simp add: chip_size_def less_mult_imp_div_less)

section \<open>Rewriting part of a page\<close>

lemma length_fold_update:
  "length (fold (\<lambda>(i, b) l. l[k + i := b]) (enumerate n p) buf) = length buf"
  by (induction p arbitrary: n buf) simp_all

lemma length_patch [simp]: "length (patch k p buf) = length buf"
  by (simp add: patch_def length_fold_update)

lemma nth_fold_update:
  assumes "k + n + length p \<le> length buf" and "x < length buf"
  shows "fold (\<lambda>(i, b) l. l[k + i := b]) (enumerate n p) buf ! x =
    (if k + n \<le> x \<and> x < k + n + length p then p ! (x - (k + n)) else buf ! x)"
  using assms
proof (induction p arbitrary: n buf)
  case Nil
  then show ?case by auto
next
  case (Cons b p)
  have step: "fold (\<lambda>(i, b) l. l[k + i := b]) (enumerate n (b # p)) buf ! x =
      (if k + Suc n \<le> x \<and> x < k + Suc n + length p then p ! (x - (k + Suc n))
       else buf[k + n := b] ! x)"
    using Cons.IH [of "Suc n" "buf[k + n := b]"] Cons.prems by simp
  show ?case
  proof (cases "x = k + n")
    case True
    then show ?thesis using step Cons.prems by simp
  next
    case False
    have "p ! (x - (k + Suc n)) = (b # p) ! (x - (k + n))" if "k + Suc n \<le> x"
      using that by (simp add: Suc_diff_le [symmetric] nth_Cons')
    with False show ?thesis using step by auto
  qed
qed

lemma nth_patch:
  assumes "k + length p \<le> length buf" and "x < length buf"
  shows "patch k p buf ! x = (if k \<le> x \<and> x < k + length p then p ! (x - k) else buf ! x)"
  using nth_fold_update [of k 0 p buf x] assms by (simp add: patch_def)

definition sector_row :: "nat \<Rightarrow> nat \<Rightarrow> bytes \<Rightarrow> bytes \<Rightarrow> nat \<Rightarrow> bytes" where
  "sector_row pc po p buf j =
     take DFBakSize (drop (j * DFBakSize) (patch (pc mod 8 * DFBakSize + po) p buf))"

lemma length_sector_row [simp]:
  "length buf = 1200 \<Longrightarrow> j < 8 \<Longrightarrow> length (sector_row pc po p buf j) = DFBakSize"
  by (simp add: sector_row_def)

lemma row_index_bound: "j < 8 \<Longrightarrow> i < 150 \<Longrightarrow> j * 150 + i < (1200 :: nat)"
  by linarith

lemma nth_sector_row:
  assumes "length buf = 1200" and "po + length p \<le> DFBakSize" and "j < 8" and "i < DFBakSize"
  shows "sector_row pc po p buf j ! i =
    (if j = pc mod 8 \<and> po \<le> i \<and> i < po + length p then p ! (i - po)
     else buf ! (j * DFBakSize + i))"
proof -
  let ?k = "pc mod 8 * 150 + po"
  have pm: "pc mod 8 < 8" by simp
  have k: "?k + length p \<le> length buf" using assms(1,2) pm by linarith
  have idx: "j * 150 + i < length buf" using assms by (simp add: row_index_bound)
  have cond: "(?k \<le> j * 150 + i \<and> j * 150 + i < ?k + length p) =
      (j = pc mod 8 \<and> po \<le> i \<and> i < po + length p)"
    using assms(2,4) by (cases j "pc mod 8" rule: linorder_cases) auto
  have "sector_row pc po p buf j ! i = patch ?k p buf ! (j * 150 + i)"
    using assms idx by (simp add: sector_row_def add.commute)
  also have "\<dots> = (if j = pc mod 8 \<and> po \<le> i \<and> i < po + length p
      then p ! (j * 150 + i - ?k) else buf ! (j * 150 + i))"
    by (simp only: nth_patch [OF k idx] cond)
  finally show ?thesis by simp
qed

lemma DF_WriteFlash_rows:
  assumes "length buf = 1200" and "po + length p \<le> DFBakSize" and "n \<le> 8"
  shows "foldl (DF_WriteFlash_row pc po p) (buf, f) [0..<n] =
    (if pc mod 8 < n then patch (pc mod 8 * DFBakSize + po) p buf else buf,
     fold (\<lambda>j. prog_all nor_program ((8 * (pc div 8) + j) * PageSIZE) (sector_row pc po p buf j))
       [0..<n] f)"
  using assms(3)
proof (induction n)
  case 0
  then show ?case by simp
next
  case (Suc n)
  have row: "take 150 (drop (n * 150) buf) = sector_row pc po p buf n" if "n < pc mod 8"
    using that Suc.prems assms(1,2) by (intro nth_equalityI) (simp_all add: nth_sector_row)
  have "n < 8" using Suc.prems by simp
  with Suc row show ?case
    by (auto simp: DF_WriteFlash_row_def Let_def sector_row_def less_Suc_eq)
qed

lemma nor_read_rows:
  assumes "x < chip_size" and "\<And>j. j < 8 \<Longrightarrow> length (r j) = DFBakSize" and "n \<le> 8"
    and "b + 8 \<le> 8192"
  shows "nor_read (fold (\<lambda>j. prog_all nor_program ((b + j) * PageSIZE) (r j)) [0..<n] f) x =
    (if b \<le> x div 512 \<and> x div 512 < b + n \<and> x mod 512 < DFBakSize
     then nor_read f x AND r (x div 512 - b) ! (x mod 512) else nor_read f x)"
  using assms(3)
proof (induction n)
  case 0
  then show ?case by auto
next
  case (Suc n)
  let ?F = "fold (\<lambda>j. prog_all nor_program ((b + j) * PageSIZE) (r j)) [0..<n] f"
  have len: "length (r n) = 150" using Suc.prems assms(2) by simp
  have rng: "(b + n) * 512 + length (r n) \<le> chip_size"
    using Suc.prems assms(4) len by (simp add: chip_size_def)
  have "nor_read (prog_all nor_program ((b + n) * PageSIZE) (r n) ?F) x =
      (if x div 512 = b + n \<and> x mod 512 < 150
       then nor_read ?F x AND r n ! (x - (b + n) * 512) else nor_read ?F x)"
    using nor.rd_prog_all [OF assms(1) rng] len page_cond [of 150 "b + n" x] by simp
  moreover have "x - (b + n) * 512 = x mod 512" if "x div 512 = b + n"
    using that by (metis minus_div_mult_eq_mod)
  ultimately show ?case using Suc by auto
qed

text \<open>
  What \<open>DF_WriteFlash\<close> does to every byte of the chip, when the patch fits in the saved
  prefix of a page: other sectors are kept; in the sector of the page the new bytes are
  stored, the first \<open>DFBakSize\<close> bytes of every page are kept, and everything behind them
  is lost.
\<close>

lemma nor_read_DF_WriteFlash:
  assumes pc: "pc < 8192" and fits: "po + len \<le> DFBakSize" and len: "len \<le> length p"
    and x: "x < chip_size"
  shows "nor_read (DF_WriteFlash pc po p len f) x =
    (if x div 4096 \<noteq> pc div 8 then nor_read f x
     else if DFBakSize \<le> x mod 512 then 0xFF
     else if x div 512 = pc \<and> po \<le> x mod 512 \<and> x mod 512 < po + len
       then p ! (x mod 512 - po)
     else nor_read f x)"
proof -
  let ?b = "8 * (pc div 8)"
  let ?p = "take len p"
  let ?buf = "concat (map (\<lambda>i. DF_ReadFlash (?b + i) 0 DFBakSize f) [0..<8])"
  let ?f1 = "nor_erase sector_size (?b * PageSIZE) f"
  have b: "?b + 8 \<le> 8192" using pc less_mult_imp_div_less [of pc 1024 8] by simp
  have row: "length (DF_ReadFlash (?b + i) 0 150 f) = 150" for i by (simp add: u16_small)
  have lenbuf: "length ?buf = 1200" using length_concat_rows [OF row, where n = 8] by simp
  have bufnth: "?buf ! (j * 150 + i) = nor_read f ((?b + j) * 512 + i)" if "j < 8" "i < 150" for i j
    using nth_concat_rows [OF row that] that b by (simp add: DF_ReadFlash_def u16_small)
  have lp: "length ?p = len" using len by simp
  have eq: "DF_WriteFlash pc po p len f =
      fold (\<lambda>j. prog_all nor_program ((?b + j) * PageSIZE) (sector_row pc po ?p ?buf j)) [0..<8] ?f1"
    using DF_WriteFlash_rows [OF lenbuf, of po ?p 8 pc ?f1] pc fits len lp
    by (simp add: DF_WriteFlash_def u16_small Let_def)
  have rd: "nor_read (DF_WriteFlash pc po p len f) x =
      (if ?b \<le> x div 512 \<and> x div 512 < ?b + 8 \<and> x mod 512 < 150
       then nor_read ?f1 x AND sector_row pc po ?p ?buf (x div 512 - ?b) ! (x mod 512)
       else nor_read ?f1 x)"
    unfolding eq using lenbuf b x by (intro nor_read_rows) simp_all
  have sec: "(?b \<le> x div 512 \<and> x div 512 < ?b + 8) = (x div 4096 = pc div 8)"
    by (simp only: sector_of_addr) linarith
  have "(?b * 512) div 4096 = pc div 8" by simp
  moreover have "?b * 512 < chip_size" using b by (simp add: chip_size_def)
  ultimately have er: "nor_read ?f1 x = (if x div 4096 = pc div 8 then 0xFF else nor_read f x)"
    using x by (simp add: nor.rd_erase)
  show ?thesis
  proof (cases "x div 4096 = pc div 8 \<and> x mod 512 < 150")
    case False
    then show ?thesis using rd er sec by auto
  next
    case True
    with sec have r: "?b \<le> x div 512" "x div 512 < ?b + 8" by auto
    let ?j = "x div 512 - ?b"
    have j: "?j < 8" using r by linarith
    have whole: "(?b + ?j) * 512 + x mod 512 = x" using r by simp
    have "pc = ?b + pc mod 8" by simp
    then have "(?j = pc mod 8) = (x div 512 = pc)"
      using r(1) by (intro iffI; linarith)
    then have "sector_row pc po ?p ?buf ?j ! (x mod 512) =
        (if x div 512 = pc \<and> po \<le> x mod 512 \<and> x mod 512 < po + len
         then ?p ! (x mod 512 - po) else nor_read f x)"
      using nth_sector_row [OF lenbuf _ j, of po ?p "x mod 512" pc] bufnth [OF j, of "x mod 512"]
        True fits lp whole by simp
    with True r rd er show ?thesis by (simp add: less_diff_conv2)
  qed
qed

text \<open>Writing a page after erasing its sector.\<close>

lemma in_sector:
  assumes "pc < 8192" and "pc mod 8 * 512 + len \<le> 4096"
  shows "pc * 512 + len \<le> chip_size"
    and "pc * 512 \<le> x \<Longrightarrow> x < pc * 512 + len \<Longrightarrow> x div 4096 = pc div 8"
proof -
  define q r where "q = pc div 8" and "r = pc mod 8"
  have pc: "pc = 8 * q + r" by (simp add: q_def r_def)
  have q: "q < 1024" using assms(1) pc by linarith
  have r: "r * 512 + len \<le> 4096" using assms(2) by (simp add: r_def)
  show "pc * 512 + len \<le> chip_size" using pc q r by (simp add: chip_size_def)
  assume "pc * 512 \<le> x" "x < pc * 512 + len"
  with pc r have "q * 4096 \<le> x" "x < (q + 1) * 4096" by simp_all
  then have "x div 4096 = q" by (intro div_nat_eqI) simp_all
  then show "x div 4096 = pc div 8" by (simp add: q_def)
qed

lemma nor_read_DF_WriteFlashSector:
  assumes "pc < 8192" and "pc mod 8 * 512 + len \<le> 4096" and "len \<le> length p" and "x < chip_size"
  shows "nor_read (DF_WriteFlashSector pc 0 p len f) x =
    (if pc * 512 \<le> x \<and> x < pc * 512 + len then p ! (x - pc * 512)
     else if x div 4096 = pc div 8 then 0xFF else nor_read f x)"
proof -
  have b: "8 * (pc div 8) * 512 < chip_size" "8 * (pc div 8) * 512 div 4096 = pc div 8"
    using assms(1) by (simp_all add: chip_size_def)
  have rng: "pc * 512 + length (take len p) \<le> chip_size"
    using in_sector(1) [OF assms(1,2)] assms(3) by simp
  have "len < 65536" using assms(2) by linarith
  with assms b rng in_sector(2) [OF assms(1,2), of x] show ?thesis
    by (auto simp: DF_WriteFlashSector_in_range nor.rd_prog_all nor.rd_erase)
qed

lemma DF_WriteFlashSector_read:
  assumes "pc < 8192" and "pc mod 8 * 512 + len \<le> 4096" and "len \<le> length p"
  shows "DF_ReadFlash pc 0 len (DF_WriteFlashSector pc 0 p len f) = take len p"
proof -
  have "len < 65536" "pc * 512 + len \<le> chip_size"
    using assms(2) in_sector(1) [OF assms(1,2)] by simp_all
  then show ?thesis
    using assms
    by (intro nth_equalityI) (simp_all add: DF_ReadFlash_in_range nor_read_DF_WriteFlashSector u16_small)
qed

lemma DF_WriteFlashSector_read_other:
  assumes "pc < 8192" and "pc mod 8 * 512 + len \<le> 4096" and "len \<le> length p"
    and "pc' < 8192" and "pc' mod 8 * 512 + n \<le> 4096" and "pc' div 8 \<noteq> pc div 8"
  shows "DF_ReadFlash pc' 0 n (DF_WriteFlashSector pc 0 p len f) = DF_ReadFlash pc' 0 n f"
proof -
  have n: "n < 65536" using assms(5) by linarith
  have "nor_read (DF_WriteFlashSector pc 0 p len f) (pc' * 512 + i) = nor_read f (pc' * 512 + i)"
    if i: "i < n" for i
  proof -
    have "(pc' * 512 + i) div 4096 = pc' div 8"
      using i by (intro in_sector(2) [OF assms(4,5)]) simp_all
    moreover have "pc' * 512 + i < chip_size" using in_sector(1) [OF assms(4,5)] i by linarith
    ultimately show ?thesis
      using assms in_sector(2) [OF assms(1,2), of "pc' * 512 + i"]
      by (auto simp: nor_read_DF_WriteFlashSector)
  qed
  then show ?thesis
    using assms(4) n by (simp add: DF_ReadFlash_in_range) (intro read_all_cong, simp)
qed

text \<open>Reading the prefix of a page after part of a page has been rewritten.\<close>

lemma DF_WriteFlash_read:
  assumes "pc < 8192" and "len \<le> 150" and "len \<le> length p"
  shows "DF_ReadFlash pc 0 len (DF_WriteFlash pc 0 p len f) = take len p"
proof -
  have "pc * 512 + i < chip_size" if "i < len" for i using that assms by (simp add: chip_size_def)
  then show ?thesis
    using assms
    by (intro nth_equalityI)
       (simp_all add: DF_ReadFlash_in_range nor_read_DF_WriteFlash u16_small sector_of_page)
qed

lemma DF_WriteFlash_read_other:
  assumes "pc < 8192" and "len \<le> 150" and "len \<le> length p" and "pc' < 8192" and "pc' \<noteq> pc"
    and "n \<le> 150"
  shows "DF_ReadFlash pc' 0 n (DF_WriteFlash pc 0 p len f) = DF_ReadFlash pc' 0 n f"
proof -
  have "nor_read (DF_WriteFlash pc 0 p len f) (pc' * 512 + i) = nor_read f (pc' * 512 + i)"
    if "i < n" for i
  proof -
    have "pc' * 512 + i < chip_size" using that assms by (simp add: chip_size_def)
    then show ?thesis using that assms by (simp add: nor_read_DF_WriteFlash)
  qed
  then show ?thesis
    using assms by (simp add: DF_ReadFlash_in_range) (intro read_all_cong, simp)
qed

end
