(* ===== verification/Flash_State.thy ===== *)
theory Flash_State
  imports DF_Oper
begin

text \<open>
  The global variables of the storage subsystem: the contents of the flash, and the read
  and write slot numbers of every record area (\<^verbatim>\<open>dataflash/Flash_Oper.c\<close>), with the
  flags of other modules that storage operations set. All counters are unsigned.
  The page layout and the limits are the constants of \<^verbatim>\<open>DF_Oper.h\<close>,
  \<^verbatim>\<open>Flash_Oper.h\<close> and \<^verbatim>\<open>Sys_config.h\<close>.
\<close>

record store =
  flash :: flash
  ReadCycle_status :: nat
  ReadCycle_timer :: nat
  cycle_write :: nat
  cycle_read :: nat
  cycle_writeAbnormal_counter :: nat
  AvrgSpdPerMin_write :: nat
  AvrgSpdPerMin_Read :: nat
  AvrgSpdPerSec_write :: nat
  AvrgSpdPerSec_Read :: nat
  AvrgMintPosit_write :: nat
  AvrgMintPosit_Read :: nat
  ErrorLog_write :: nat
  ErrorLog_Read :: nat
  Recorder_write :: nat
  Recorder_Read :: nat
  Login_write :: nat
  Login_Read :: nat
  Powercut_write :: nat
  Powercut_read :: nat
  Settingchg_write :: nat
  Settingchg_read :: nat
  TiredDrv_write :: nat
  TiredDrv_read :: nat
  ExpSpdRec_write :: nat
  ExpSpdRec_read :: nat
  OnFireRec_write :: nat
  OnFireRec_read :: nat
  pic_write :: nat
  pic_read :: nat
  pic_current_page :: nat
  pic_PageIn_offset :: nat
  pic_size :: nat
  Distance_m_u32 :: nat
  DayStartDistance_32 :: nat
  Current_State :: nat
  PositionInfo_sdFlag :: nat
  Current_UDP_sd :: nat
  ReadFail_sd_current :: nat
  SrcFileSize :: nat
  PicFileSize :: nat
  PictureName :: bytes
  DF_LOCK :: nat

section \<open>Constants\<close>

abbreviation (input) TYPE_CycleAdd :: nat where "TYPE_CycleAdd \<equiv> 1"
abbreviation (input) TYPE_PhotoAdd :: nat where "TYPE_PhotoAdd \<equiv> 2"
abbreviation (input) TYPE_TiredDrvAdd :: nat where "TYPE_TiredDrvAdd \<equiv> 3"
abbreviation (input) TYPE_ExpSpdAdd :: nat where "TYPE_ExpSpdAdd \<equiv> 4"
abbreviation (input) TYPE_AccFireAdd :: nat where "TYPE_AccFireAdd \<equiv> 5"
abbreviation (input) TYPE_AvrgSpdAdd :: nat where "TYPE_AvrgSpdAdd \<equiv> 6"
abbreviation (input) TYPE_ErrorLogAdd :: nat where "TYPE_ErrorLogAdd \<equiv> 7"
abbreviation (input) TYPE_VechRecordAdd :: nat where "TYPE_VechRecordAdd \<equiv> 8"
abbreviation (input) TYPE_DoubtAdd :: nat where "TYPE_DoubtAdd \<equiv> 9"
abbreviation (input) TYPE_AvrgSpdSecAdd :: nat where "TYPE_AvrgSpdSecAdd \<equiv> 10"
abbreviation (input) TYPE_LogInAdd :: nat where "TYPE_LogInAdd \<equiv> 11"
abbreviation (input) TYPE_PowerCutAdd :: nat where "TYPE_PowerCutAdd \<equiv> 12"
abbreviation (input) TYPE_SettingChgAdd :: nat where "TYPE_SettingChgAdd \<equiv> 13"
abbreviation (input) TYPE_MintPosAdd :: nat where "TYPE_MintPosAdd \<equiv> 14"
abbreviation (input) TYPE_DayDistancAdd :: nat where "TYPE_DayDistancAdd \<equiv> 15"
abbreviation (input) TYPE_ACCONFFcounterAdd :: nat where "TYPE_ACCONFFcounterAdd \<equiv> 16"

abbreviation (input) CycleStart_offset :: nat where "CycleStart_offset \<equiv> 1768"
abbreviation (input) VehicleRecStart_offset :: nat where "VehicleRecStart_offset \<equiv> 2792"
abbreviation (input) AverageSpdStart_offset :: nat where "AverageSpdStart_offset \<equiv> 2992"
abbreviation (input) TiredDrvStart_offset :: nat where "TiredDrvStart_offset \<equiv> 3392"
abbreviation (input) ExpSpdStart_offset :: nat where "ExpSpdStart_offset \<equiv> 3400"
abbreviation (input) AvrgMintPosit_offset :: nat where "AvrgMintPosit_offset \<equiv> 3408"
abbreviation (input) AvrgSpdSec_offset :: nat where "AvrgSpdSec_offset \<equiv> 3432"
abbreviation (input) AccWorkOnStart_offset :: nat where "AccWorkOnStart_offset \<equiv> 3512"
abbreviation (input) AbNormalStart_offset :: nat where "AbNormalStart_offset \<equiv> 3420"
abbreviation (input) LogIn_offset :: nat where "LogIn_offset \<equiv> 3528"
abbreviation (input) PowerCut_offset :: nat where "PowerCut_offset \<equiv> 3536"
abbreviation (input) SettingChg_offset :: nat where "SettingChg_offset \<equiv> 3544"

abbreviation (input) Max_CycleNum :: nat where "Max_CycleNum \<equiv> 16384"
abbreviation (input) Max_PicNum :: nat where "Max_PicNum \<equiv> 400"
abbreviation (input) Max_RecoderNum :: nat where "Max_RecoderNum \<equiv> 400"
abbreviation (input) Max_CommonNum :: nat where "Max_CommonNum \<equiv> 128"
abbreviation (input) Max_SPDSperMin :: nat where "Max_SPDSperMin \<equiv> 2800"
abbreviation (input) Max_SPDerSec :: nat where "Max_SPDerSec \<equiv> 560"
abbreviation (input) Max_MintPos :: nat where "Max_MintPos \<equiv> 48"

abbreviation (input) RdCycle_Idle :: nat where "RdCycle_Idle \<equiv> 0"
abbreviation (input) RdCycle_RdytoSD :: nat where "RdCycle_RdytoSD \<equiv> 1"
abbreviation (input) RdCycle_SdOver :: nat where "RdCycle_SdOver \<equiv> 2"

text \<open>A store with an erased flash and all counters at their initial value zero.\<close>

definition blank_store :: store where
  "blank_store =
     \<lparr>flash = (\<lambda>_. 0xFF), ReadCycle_status = RdCycle_Idle, ReadCycle_timer = 0,
      cycle_write = 0, cycle_read = 0, cycle_writeAbnormal_counter = 0,
      AvrgSpdPerMin_write = 0, AvrgSpdPerMin_Read = 0, AvrgSpdPerSec_write = 0,
      AvrgSpdPerSec_Read = 0, AvrgMintPosit_write = 0, AvrgMintPosit_Read = 0,
      ErrorLog_write = 0, ErrorLog_Read = 0, Recorder_write = 0, Recorder_Read = 0,
      Login_write = 0, Login_Read = 0, Powercut_write = 0, Powercut_read = 0,
      Settingchg_write = 0, Settingchg_read = 0, TiredDrv_write = 0, TiredDrv_read = 0,
      ExpSpdRec_write = 0, ExpSpdRec_read = 0, OnFireRec_write = 0, OnFireRec_read = 0,
      pic_write = 0, pic_read = 0, pic_current_page = 0, pic_PageIn_offset = 0,
      pic_size = 0, Distance_m_u32 = 0, DayStartDistance_32 = 0, Current_State = 0,
      PositionInfo_sdFlag = 0, Current_UDP_sd = 0, ReadFail_sd_current = 0,
      SrcFileSize = 0, PicFileSize = 0, PictureName = replicate 40 0, DF_LOCK = 0\<rparr>"

lemma blank_store_flash [simp]: "flash blank_store = (\<lambda>_. 0xFF)"
  by (simp add: blank_store_def)

end
