(* ===== verification/DF_Function.thy ===== *)
theory DF_Function
  imports Flash_State
begin

text \<open>
  \<^verbatim>\<open>dataflash/DF_Function.c\<close>: the network addresses of the centre, and the wear-levelled
  logs that keep the read and write slot numbers of the record areas across a power cut.

  Each log owns one sector. The first 448 bytes of its first page are flags, one for each
  of the 448 eight byte entries in the seven pages behind it: \<open>0xFF\<close> for a free entry. An
  update takes the first free entry, and erases the sector when there is none.
\<close>

section \<open>Network addresses\<close>

record net_addr =
  RemoteIP_main :: bytes
  RemotePort_main :: nat
  RemoteIP_aux :: bytes
  RemotePort_aux :: nat

abbreviation (input) DF_socket_all :: nat where "DF_socket_all \<equiv> 1080"

definition Write_IPandPort_Setting :: "net_addr \<Rightarrow> flash \<Rightarrow> flash" where
  "Write_IPandPort_Setting n f =
     (let reg = [RemoteIP_main n ! 0, RemoteIP_main n ! 1, RemoteIP_main n ! 2,
                 RemoteIP_main n ! 3] @ be16 (RemotePort_main n) @
                [RemoteIP_aux n ! 0, RemoteIP_aux n ! 1, RemoteIP_aux n ! 2,
                 RemoteIP_aux n ! 3] @ be16 (RemotePort_aux n) @ replicate 8 0
      in DF_WriteFlashSector DF_socket_all 0 reg 12 f)"

definition Read_IPandPort_Setting :: "flash \<Rightarrow> net_addr" where
  "Read_IPandPort_Setting f =
     (let reg = DF_ReadFlash DF_socket_all 0 20 f
      in \<lparr>RemoteIP_main = [reg ! 0, reg ! 1, reg ! 2, reg ! 3],
          RemotePort_main = u16 (of_be16 (reg ! 4) (reg ! 5)),
          RemoteIP_aux = [reg ! 6, reg ! 7, reg ! 8, reg ! 9],
          RemotePort_aux = u16 (of_be16 (reg ! 10) (reg ! 11))\<rparr>)"

section \<open>The slot number logs\<close>

text \<open>The \<^verbatim>\<open>switch\<close> that both operations start with: the first page of the log's sector.\<close>

definition RecordAdd_Page :: "nat \<Rightarrow> nat option" where
  "RecordAdd_Page Type =
     (if Type = TYPE_CycleAdd then Some 1096
      else if Type = TYPE_PhotoAdd then Some 1104
      else if Type = TYPE_TiredDrvAdd then Some 1224
      else if Type = TYPE_ExpSpdAdd then Some 1232
      else if Type = TYPE_AccFireAdd then Some 1240
      else if Type = TYPE_AvrgSpdAdd then Some 1248
      else if Type = TYPE_ErrorLogAdd then Some 1256
      else if Type = TYPE_VechRecordAdd then Some 1264
      else if Type = TYPE_DoubtAdd then Some 1288
      else if Type = TYPE_AvrgSpdSecAdd then Some 1296
      else if Type = TYPE_LogInAdd then Some 1304
      else if Type = TYPE_PowerCutAdd then Some 1312
      else if Type = TYPE_SettingChgAdd then Some 1320
      else if Type = TYPE_MintPosAdd then Some 1328
      else if Type = TYPE_DayDistancAdd then Some 1280
      else if Type = TYPE_ACCONFFcounterAdd then Some 1152
      else None)"

definition first_free :: "bytes \<Rightarrow> nat" where
  "first_free head = first_index (\<lambda>b. b = 0xFF) head"

text \<open>\<open>RecordAdd_put\<close> and \<open>RecordAdd_get\<close>: the parts that work on the sector.\<close>

definition RecordAdd_put :: "nat \<Rightarrow> nat \<Rightarrow> nat \<Rightarrow> flash \<Rightarrow> flash" where
  "RecordAdd_put Add_offset Wr_Address Rd_Address f =
     (let head = DF_ReadFlash Add_offset 0 448 f;
          offset = first_free head;
          f1 = (if offset = 448
                then nor_erase sector_size ((8 * (Add_offset div 8)) * PageSIZE) f else f);
          offset = (if offset = 448 then 0 else offset);
          Savepage = u16 (Add_offset + 1 + offset div 64);
          InpageOffset = u16 ((offset mod 64) * 8);
          reg = le32 Wr_Address @ le32 Rd_Address;
          f2 = DF_WriteFlashDirect Add_offset offset [0x01] 1 f1
      in DF_WriteFlashDirect Savepage InpageOffset reg 8 f2)"

definition RecordAdd_get :: "nat \<Rightarrow> flash \<Rightarrow> nat \<times> nat" where
  "RecordAdd_get Add_offset f =
     (let head = DF_ReadFlash Add_offset 0 448 f;
          offset = u16 (first_free head + 65535);
          Savepage = u16 (Add_offset + 1 + offset div 64);
          InpageOffset = u16 ((offset mod 64) * 8)
      in (of_le32 (DF_ReadFlash Savepage InpageOffset 4 f),
          of_le32 (DF_ReadFlash Savepage (InpageOffset + 4) 4 f)))"

definition DF_Write_RecordAdd :: "nat \<Rightarrow> nat \<Rightarrow> nat \<Rightarrow> store \<Rightarrow> bool \<times> store" where
  "DF_Write_RecordAdd Wr_Address Rd_Address Type s =
     (case RecordAdd_Page Type of
        None \<Rightarrow> (False, s)
      | Some Add_offset \<Rightarrow>
          (True, s\<lparr>flash := RecordAdd_put Add_offset Wr_Address Rd_Address (flash s)\<rparr>))"

text \<open>The final \<^verbatim>\<open>switch\<close> of \<^verbatim>\<open>DF_Read_RecordAdd\<close>: where the two numbers go.\<close>

definition RecordAdd_result :: "nat \<Rightarrow> nat \<Rightarrow> nat \<Rightarrow> store \<Rightarrow> bool \<times> store" where
  "RecordAdd_result Type w r s =
     (if Type = TYPE_CycleAdd then (True, s\<lparr>cycle_write := w, cycle_read := r\<rparr>)
      else if Type = TYPE_PhotoAdd then (True, s\<lparr>pic_write := w, pic_read := r\<rparr>)
      else if Type = TYPE_TiredDrvAdd then (True, s\<lparr>TiredDrv_write := w, TiredDrv_read := r\<rparr>)
      else if Type = TYPE_ExpSpdAdd then (True, s\<lparr>ExpSpdRec_write := w, ExpSpdRec_read := r\<rparr>)
      else if Type = TYPE_AccFireAdd then (True, s\<lparr>OnFireRec_write := w, OnFireRec_read := r\<rparr>)
      else if Type = TYPE_AvrgSpdAdd
        then (True, s\<lparr>AvrgSpdPerMin_write := w, AvrgSpdPerMin_Read := r\<rparr>)
      else if Type = TYPE_ErrorLogAdd then (True, s\<lparr>ErrorLog_write := w, ErrorLog_Read := r\<rparr>)
      else if Type = TYPE_VechRecordAdd then (True, s\<lparr>Recorder_write := w, Recorder_Read := r\<rparr>)
      else if Type = TYPE_AvrgSpdSecAdd
        then (True, s\<lparr>AvrgSpdPerSec_write := w, AvrgSpdPerSec_Read := r\<rparr>)
      else if Type = TYPE_LogInAdd then (True, s\<lparr>Login_write := w, Login_Read := r\<rparr>)
      else if Type = TYPE_PowerCutAdd then (True, s\<lparr>Powercut_write := w, Powercut_read := r\<rparr>)
      else if Type = TYPE_SettingChgAdd
        then (True, s\<lparr>Settingchg_write := w, Settingchg_read := r\<rparr>)
      else if Type = TYPE_MintPosAdd
        then (True, s\<lparr>AvrgMintPosit_write := w, AvrgMintPosit_Read := r\<rparr>)
      else if Type = TYPE_DayDistancAdd
        then (True, s\<lparr>Distance_m_u32 := w, DayStartDistance_32 := r\<rparr>)
      else if Type = TYPE_ACCONFFcounterAdd then (True, s)
      else (False, s))"

definition DF_Read_RecordAdd :: "nat \<Rightarrow> nat \<Rightarrow> nat \<Rightarrow> store \<Rightarrow> bool \<times> store" where
  "DF_Read_RecordAdd Wr_Address Rd_Address Type s =
     (case RecordAdd_Page Type of
        None \<Rightarrow> (False, s)
      | Some Add_offset \<Rightarrow>
          (case RecordAdd_get Add_offset (flash s) of
             (Reg_wrAdd, Reg_rdAdd) \<Rightarrow> RecordAdd_result Type Reg_wrAdd Reg_rdAdd s))"

section \<open>The log as a list of entries\<close>

text \<open>
  \<open>log_abs\<close> reads the sector as the list of entries written since the last erase;
  \<open>append_log\<close> is the abstract update. \<open>log_ok\<close> is the invariant: behind the first free
  flag every flag and every entry is erased.
\<close>

definition log_page :: "nat \<Rightarrow> bool" where
  "log_page pg = (pg mod 8 = 0 \<and> pg + 8 \<le> 8192)"

definition entry_addr :: "nat \<Rightarrow> nat \<Rightarrow> nat" where
  "entry_addr pg i = (pg + 1) * 512 + i * 8"

definition log_head :: "nat \<Rightarrow> flash \<Rightarrow> bytes" where
  "log_head pg f = read_all nor_read (pg * 512) 448 f"

definition log_len :: "nat \<Rightarrow> flash \<Rightarrow> nat" where
  "log_len pg f = first_free (log_head pg f)"

definition log_entry :: "nat \<Rightarrow> flash \<Rightarrow> nat \<Rightarrow> nat \<times> nat" where
  "log_entry pg f i =
     (of_le32 (read_all nor_read (entry_addr pg i) 4 f),
      of_le32 (read_all nor_read (entry_addr pg i + 4) 4 f))"

definition log_abs :: "nat \<Rightarrow> flash \<Rightarrow> (nat \<times> nat) list" where
  "log_abs pg f = map (log_entry pg f) [0..<log_len pg f]"

definition append_log :: "nat \<times> nat \<Rightarrow> (nat \<times> nat) list \<Rightarrow> (nat \<times> nat) list" where
  "append_log e es = (if length es = 448 then [e] else es @ [e])"

definition log_ok :: "nat \<Rightarrow> flash \<Rightarrow> bool" where
  "log_ok pg f =
     (\<forall>i < 448. log_len pg f \<le> i \<longrightarrow>
        nor_read f (pg * 512 + i) = 0xFF \<and> blank f (entry_addr pg i) 8)"

lemma RecordAdd_Page_log_page: "RecordAdd_Page t = Some pg \<Longrightarrow> log_page pg"
  by (auto simp: RecordAdd_Page_def log_page_def split: if_splits)

text \<open>The record type a log sector belongs to: no two types share a sector.\<close>

definition sector_type :: "nat \<Rightarrow> nat" where
  "sector_type k =
     (if k = 137 then TYPE_CycleAdd else if k = 138 then TYPE_PhotoAdd
      else if k = 153 then TYPE_TiredDrvAdd else if k = 154 then TYPE_ExpSpdAdd
      else if k = 155 then TYPE_AccFireAdd else if k = 156 then TYPE_AvrgSpdAdd
      else if k = 157 then TYPE_ErrorLogAdd else if k = 158 then TYPE_VechRecordAdd
      else if k = 161 then TYPE_DoubtAdd else if k = 162 then TYPE_AvrgSpdSecAdd
      else if k = 163 then TYPE_LogInAdd else if k = 164 then TYPE_PowerCutAdd
      else if k = 165 then TYPE_SettingChgAdd else if k = 166 then TYPE_MintPosAdd
      else if k = 160 then TYPE_DayDistancAdd else TYPE_ACCONFFcounterAdd)"

lemma sector_type_page: "RecordAdd_Page t = Some pg \<Longrightarrow> sector_type (pg div 8) = t"
  by (auto simp: RecordAdd_Page_def sector_type_def split: if_splits)

lemma RecordAdd_Page_inj:
  "RecordAdd_Page t = Some pg \<Longrightarrow> RecordAdd_Page t' = Some pg' \<Longrightarrow> t \<noteq> t' \<Longrightarrow>
    pg div 8 \<noteq> pg' div 8"
  using sector_type_page by metis

lemma log_page_div [simp]: "log_page pg \<Longrightarrow> 8 * (pg div 8) = pg"
  by (auto simp: log_page_def)

lemma entry_addr_page: "(pg + 1 + i div 64) * 512 + (i mod 64) * 8 = entry_addr pg i"
proof -
  have "q * 512 + r * 8 = (q * 64 + r) * 8" for q r :: nat by simp
  then have "i div 64 * 512 + i mod 64 * 8 = (i div 64 * 64 + i mod 64) * 8" .
  also have "\<dots> = i * 8" by (simp only: div_mult_mod_eq)
  finally show ?thesis by (simp add: entry_addr_def algebra_simps)
qed

lemma entry_addr_range: "log_page pg \<Longrightarrow> i < 448 \<Longrightarrow> entry_addr pg i + 8 \<le> chip_size"
  by (simp add: entry_addr_def log_page_def chip_size_def)

lemma flag_addr_range: "log_page pg \<Longrightarrow> i < 448 \<Longrightarrow> pg * 512 + i + 1 \<le> chip_size"
  by (simp add: log_page_def chip_size_def)

lemma sector_cond:
  assumes "log_page pg" and "pg * 512 \<le> x" and "x < (pg + 8) * 512"
  shows "x div 4096 = pg div 8"
proof -
  obtain q where q: "pg = q * 8" using assms(1) by (auto simp: log_page_def)
  then have "x = q * 4096 + (x - q * 4096)" "x - q * 4096 < 4096" using assms(2,3) by auto
  then have "x div 4096 = q" by (metis div_less div_mult_self3 add.commute add.right_neutral zero_neq_numeral)
  with q show ?thesis by simp
qed

lemma entry_sector:
  "log_page pg \<Longrightarrow> i < 448 \<Longrightarrow> k < 8 \<Longrightarrow> (entry_addr pg i + k) div 4096 = pg div 8"
  by (rule sector_cond) (simp_all add: entry_addr_def)

lemma flag_sector: "log_page pg \<Longrightarrow> i < 448 \<Longrightarrow> (pg * 512 + i) div 4096 = pg div 8"
  by (rule sector_cond) simp_all

text \<open>The writes of \<open>RecordAdd_put\<close>, once the entry is chosen.\<close>

definition entry_write :: "nat \<Rightarrow> nat \<Rightarrow> nat \<Rightarrow> nat \<Rightarrow> flash \<Rightarrow> flash" where
  "entry_write pg n w r f =
     prog_all nor_program (entry_addr pg n) (le32 w @ le32 r)
       (prog_all nor_program (pg * 512 + n) [0x01] f)"

lemma log_head_read:
  "log_page pg \<Longrightarrow> DF_ReadFlash pg 0 448 f = log_head pg f"
  by (simp add: DF_ReadFlash_in_range log_head_def log_page_def)

lemma RecordAdd_put_eq:
  assumes "log_page pg" and "log_len pg f \<le> 448"
  shows "RecordAdd_put pg w r f =
    (if log_len pg f = 448 then entry_write pg 0 w r (nor_erase sector_size (pg * 512) f)
     else entry_write pg (log_len pg f) w r f)"
proof -
  have *: "DF_WriteFlashDirect (u16 (pg + 1 + n div 64)) (u16 (n mod 64 * 8)) (le32 w @ le32 r) 8
      (DF_WriteFlashDirect pg n [0x01] 1 g) = entry_write pg n w r g" if "n < 448" for n g
  proof -
    have "n div 64 < 7" using that by (simp add: less_mult_imp_div_less)
    then have pgs: "pg + 1 + n div 64 < 8192" "pg < 8192" using assms(1) by (auto simp: log_page_def)
    have "n mod 64 * 8 < 512" by simp
    with pgs that show ?thesis
      by (simp add: DF_WriteFlashDirect_in_range u16_small entry_write_def
          del: add_Suc_right mult_Suc flip: entry_addr_page)
  qed
  have "8 * (pg div 8) = pg" using assms(1) by simp
  with assms show ?thesis
    by (simp only: RecordAdd_put_def Let_def log_head_read log_len_def [symmetric])
       (use assms(2) * [of 0] * [of "log_len pg f"] in simp)
qed

lemma nor_read_entry_write:
  assumes "log_page pg" and "n < 448" and "x < chip_size"
  shows "nor_read (entry_write pg n w r f) x =
    (if entry_addr pg n \<le> x \<and> x < entry_addr pg n + 8
     then nor_read f x AND (le32 w @ le32 r) ! (x - entry_addr pg n)
     else if x = pg * 512 + n then nor_read f x AND 0x01 else nor_read f x)"
proof -
  have "pg * 512 + n < entry_addr pg n" using assms(2) by (simp add: entry_addr_def)
  then show ?thesis
    using assms entry_addr_range [OF assms(1,2)] flag_addr_range [OF assms(1,2)]
    by (auto simp: entry_write_def nor.rd_prog_all)
qed

text \<open>\<open>log_state pg f n\<close>: exactly the first \<open>n\<close> entries are in use.\<close>

definition log_state :: "nat \<Rightarrow> flash \<Rightarrow> nat \<Rightarrow> bool" where
  "log_state pg f n =
     (n \<le> 448 \<and> (\<forall>i < n. nor_read f (pg * 512 + i) \<noteq> 0xFF) \<and>
      (\<forall>i < 448. n \<le> i \<longrightarrow>
         nor_read f (pg * 512 + i) = 0xFF \<and> blank f (entry_addr pg i) 8))"

lemma log_len_le: "log_len pg f \<le> 448"
  using first_index_le [of _ "log_head pg f"] by (simp add: log_len_def first_free_def log_head_def)

lemma log_state_len: "log_state pg f n \<Longrightarrow> log_len pg f = n"
  unfolding log_len_def first_free_def
  by (rule first_index_eqI) (auto simp: log_state_def log_head_def)

lemma log_ok_state: "log_ok pg f \<Longrightarrow> log_state pg f (log_len pg f)"
  using log_len_le [of pg f] first_index_before [of _ "\<lambda>b. b = 0xFF" "log_head pg f"]
  by (auto simp: log_ok_def log_state_def log_len_def first_free_def log_head_def)

lemma log_state_ok: "log_state pg f n \<Longrightarrow> log_ok pg f"
  by (frule log_state_len) (simp add: log_ok_def log_state_def)

lemma log_state_erase:
  assumes pg: "log_page pg"
  shows "log_state pg (nor_erase sector_size (pg * 512) f) 0"
proof -
  have base: "pg * 512 < chip_size" "pg * 512 div 4096 = pg div 8"
    using flag_addr_range [OF pg, of 0] flag_sector [OF pg, of 0] by simp_all
  have "nor_read (nor_erase sector_size (pg * 512) f) (pg * 512 + i) = 0xFF" if "i < 448" for i
    using flag_addr_range [OF pg that] flag_sector [OF pg that] base
    by (simp add: nor.rd_erase)
  moreover have "nor_read (nor_erase sector_size (pg * 512) f) (entry_addr pg i + k) = 0xFF"
    if "i < 448" "k < 8" for i k
    using entry_addr_range [OF pg that(1)] entry_sector [OF pg that] base that(2)
    by (simp add: nor.rd_erase)
  ultimately show ?thesis by (simp add: log_state_def)
qed

lemma log_entry_cong:
  assumes "\<And>k. k < 8 \<Longrightarrow> nor_read f (entry_addr pg i + k) = nor_read g (entry_addr pg i + k)"
  shows "log_entry pg f i = log_entry pg g i"
proof -
  have "read_all nor_read (entry_addr pg i) 4 f = read_all nor_read (entry_addr pg i) 4 g"
    using assms by (intro read_all_cong) simp
  moreover have "read_all nor_read (entry_addr pg i + 4) 4 f = read_all nor_read (entry_addr pg i + 4) 4 g"
    using assms by (intro read_all_cong) (simp add: add.assoc)
  ultimately show ?thesis by (simp add: log_entry_def)
qed

lemma entry_addr_mono: "i < j \<Longrightarrow> entry_addr pg i + 8 \<le> entry_addr pg j"
  by (simp add: entry_addr_def)

lemma log_state_entry_write:
  assumes pg: "log_page pg" and st: "log_state pg f n" and n: "n < 448"
  shows "log_state pg (entry_write pg n w r f) (Suc n)"
proof -
  let ?g = "entry_write pg n w r f"
  have flags: "nor_read ?g (pg * 512 + i) =
      (if i = n then 0x01 else nor_read f (pg * 512 + i))" if "i < 448" for i
  proof -
    have "pg * 512 + i < entry_addr pg n" using that by (simp add: entry_addr_def)
    moreover have "nor_read f (pg * 512 + n) = 0xFF" using st n by (simp add: log_state_def)
    ultimately show ?thesis
      using nor_read_entry_write [OF pg n, of "pg * 512 + i" w r f] flag_addr_range [OF pg that]
      by auto
  qed
  have entries: "nor_read ?g (entry_addr pg i + k) = nor_read f (entry_addr pg i + k)"
    if "i < 448" "n < i" "k < 8" for i k
  proof -
    have "entry_addr pg n + 8 \<le> entry_addr pg i + k" "pg * 512 + n < entry_addr pg i"
      using entry_addr_mono [OF that(2), of pg] n by (simp_all add: entry_addr_def)
    then show ?thesis
      using nor_read_entry_write [OF pg n, of "entry_addr pg i + k" w r f]
        entry_addr_range [OF pg that(1)] that(3) by simp
  qed
  show ?thesis
    using st n by (auto simp: log_state_def flags entries)
qed

lemma log_entry_entry_write_same:
  assumes pg: "log_page pg" and st: "log_state pg f n" and n: "n < 448"
  shows "log_entry pg (entry_write pg n w r f) n = (u32 w, u32 r)"
proof -
  let ?g = "entry_write pg n w r f"
  have rd: "nor_read ?g (entry_addr pg n + k) = (le32 w @ le32 r) ! k" if "k < 8" for k
    using nor_read_entry_write [OF pg n, of "entry_addr pg n + k" w r f] that st n
      entry_addr_range [OF pg n] by (simp add: log_state_def)
  have "read_all nor_read (entry_addr pg n) 4 ?g = le32 w"
    using rd by (intro nth_equalityI) (simp_all add: nth_append)
  moreover have "read_all nor_read (entry_addr pg n + 4) 4 ?g = le32 r"
  proof (rule nth_equalityI)
    fix k assume "k < length (read_all nor_read (entry_addr pg n + 4) 4 ?g)"
    with rd [of "4 + k"] show "read_all nor_read (entry_addr pg n + 4) 4 ?g ! k = le32 r ! k"
      by (simp add: nth_append add.assoc)
  qed simp
  ultimately show ?thesis by (simp add: log_entry_def of_le32_le32)
qed

lemma log_entry_entry_write_before:
  assumes pg: "log_page pg" and n: "n < 448" and i: "i < n"
  shows "log_entry pg (entry_write pg n w r f) i = log_entry pg f i"
proof -
  have "nor_read (entry_write pg n w r f) (entry_addr pg i + k) = nor_read f (entry_addr pg i + k)"
    if "k < 8" for k
  proof -
    have "entry_addr pg i + k < entry_addr pg n" "pg * 512 + n < entry_addr pg i"
      using entry_addr_mono [OF i, of pg] n that by (simp_all add: entry_addr_def)
    then show ?thesis
      using nor_read_entry_write [OF pg n, of "entry_addr pg i + k" w r f]
        entry_addr_range [OF pg n] by simp
  qed
  then show ?thesis by (rule log_entry_cong)
qed

lemma log_abs_entry_write:
  assumes "log_page pg" and "log_state pg f n" and "n < 448"
  shows "log_abs pg (entry_write pg n w r f) = log_abs pg f @ [(u32 w, u32 r)]"
  using assms log_state_len [OF log_state_entry_write [OF assms, of w r]]
  by (simp add: log_abs_def log_state_len log_entry_entry_write_same log_entry_entry_write_before)

text \<open>The update of a log refines the abstract update, and keeps the invariant.\<close>

lemma log_abs_put:
  assumes pg: "log_page pg" and ok: "log_ok pg f"
  shows "log_abs pg (RecordAdd_put pg w r f) = append_log (u32 w, u32 r) (log_abs pg f)"
proof (cases "log_len pg f = 448")
  case True
  with log_abs_entry_write [OF pg log_state_erase [OF pg], of w r f]
    log_state_len [OF log_state_erase [OF pg, of f]] pg
  show ?thesis by (simp add: RecordAdd_put_eq append_log_def log_abs_def)
next
  case False
  with log_len_le [of pg f] have "log_len pg f < 448" by simp
  with log_abs_entry_write [OF pg log_ok_state [OF ok], of w r] pg False
  show ?thesis by (simp add: RecordAdd_put_eq append_log_def log_abs_def [of pg f])
qed

lemma log_ok_put:
  assumes pg: "log_page pg" and ok: "log_ok pg f"
  shows "log_ok pg (RecordAdd_put pg w r f)"
proof (cases "log_len pg f = 448")
  case True
  have "log_state pg (entry_write pg 0 w r (nor_erase sector_size (pg * 512) f)) (Suc 0)"
    using pg by (intro log_state_entry_write log_state_erase) simp_all
  with True pg show ?thesis
    by (simp add: RecordAdd_put_eq log_state_ok)
next
  case False
  with log_len_le [of pg f] have lt: "log_len pg f < 448" by simp
  from log_state_entry_write [OF pg log_ok_state [OF ok] lt, of w r] lt pg show ?thesis
    by (simp add: RecordAdd_put_eq log_state_ok)
qed

text \<open>An update changes nothing outside its sector.\<close>

lemma nor_read_put_other:
  assumes pg: "log_page pg" and x: "x < chip_size" and sec: "x div 4096 \<noteq> pg div 8"
  shows "nor_read (RecordAdd_put pg w r f) x = nor_read f x"
proof -
  have far: "\<not> (entry_addr pg n \<le> x \<and> x < entry_addr pg n + 8)" "x \<noteq> pg * 512 + n"
    if "n < 448" for n
    using sec sector_cond [OF pg, of x] that by (auto simp: entry_addr_def)
  have ew: "nor_read (entry_write pg n w r g) x = nor_read g x" if "n < 448" for n g
    using nor_read_entry_write [OF pg that x] far [OF that] by simp
  have er: "nor_read (nor_erase sector_size (pg * 512) f) x = nor_read f x"
    using x sec pg flag_sector [OF pg, of 0] flag_addr_range [OF pg, of 0]
    by (simp add: nor.rd_erase)
  show ?thesis
    using ew er log_len_le [of pg f] pg by (simp add: RecordAdd_put_eq)
qed

lemma log_cong:
  assumes pg: "log_page pg"
    and same: "\<And>x. x < chip_size \<Longrightarrow> x div 4096 = pg div 8 \<Longrightarrow> nor_read f x = nor_read g x"
  shows "log_abs pg f = log_abs pg g" and "log_ok pg f = log_ok pg g"
proof -
  have flag: "nor_read f (pg * 512 + i) = nor_read g (pg * 512 + i)" if "i < 448" for i
    using flag_addr_range [OF pg that] flag_sector [OF pg that] by (intro same) simp_all
  have entry: "nor_read f (entry_addr pg i + k) = nor_read g (entry_addr pg i + k)"
    if "i < 448" "k < 8" for i k
    using entry_addr_range [OF pg that(1)] entry_sector [OF pg that] that
    by (intro same) simp_all
  have head: "log_len pg f = log_len pg g"
    using flag by (simp add: log_len_def log_head_def cong: read_all_cong)
  have "log_entry pg f i = log_entry pg g i" if "i < 448" for i
    using entry [OF that] by (rule log_entry_cong)
  with head log_len_le [of pg g] show "log_abs pg f = log_abs pg g"
    by (simp add: log_abs_def)
  show "log_ok pg f = log_ok pg g"
    using head flag entry by (simp add: log_ok_def)
qed

lemma RecordAdd_get_last:
  assumes pg: "log_page pg" and ne: "log_abs pg f \<noteq> []"
  shows "RecordAdd_get pg f = last (log_abs pg f)"
proof -
  define n where "n = log_len pg f - 1"
  from ne have len: "log_len pg f = Suc n" by (cases "log_len pg f") (simp_all add: log_abs_def n_def)
  with log_len_le [of pg f] have n: "n < 448" by simp
  then have "n div 64 < 7" by (simp add: less_mult_imp_div_less)
  then have sp: "pg + 1 + n div 64 < 8192" using pg by (simp add: log_page_def)
  have io: "n mod 64 * 8 + 4 < 512"
  proof -
    have "n mod 64 < 64" by simp
    then show ?thesis by linarith
  qed
  have off: "u16 (first_free (DF_ReadFlash pg 0 448 f) + 65535) = n"
    using len n pg by (simp add: log_head_read log_len_def u16_def)
  have "RecordAdd_get pg f =
      (of_le32 (DF_ReadFlash (u16 (pg + 1 + n div 64)) (u16 (n mod 64 * 8)) 4 f),
       of_le32 (DF_ReadFlash (u16 (pg + 1 + n div 64)) (u16 (n mod 64 * 8) + 4) 4 f))"
    by (simp only: RecordAdd_get_def Let_def off)
  also have "\<dots> = log_entry pg f n"
    using sp io
    by (simp add: u16_small DF_ReadFlash_in_range log_entry_def
        entry_addr_page [of pg n, symmetric] add.assoc)
  finally have "RecordAdd_get pg f = log_entry pg f n" .
  with len show ?thesis by (simp add: log_abs_def)
qed

section \<open>The logs as a store of slot numbers\<close>

text \<open>
  What the rest of the firmware relies on: the number pair read back for a record type is
  the last one stored for it, whatever was stored for the other types. The lemma about a
  whole sequence of updates is proved once, from the two laws.
\<close>

locale pointer_store =
  fixes put :: "'t \<Rightarrow> nat \<Rightarrow> nat \<Rightarrow> 's \<Rightarrow> 's"
    and get :: "'t \<Rightarrow> 's \<Rightarrow> nat \<times> nat"
    and has :: "'t \<Rightarrow> 's \<Rightarrow> bool"
    and valid :: "'t \<Rightarrow> bool"
    and ok :: "'s \<Rightarrow> bool"
  assumes get_put: "ok s \<Longrightarrow> valid t \<Longrightarrow> get t (put t w r s) = (u32 w, u32 r)"
    and get_put_other: "ok s \<Longrightarrow> valid t \<Longrightarrow> valid t' \<Longrightarrow> t \<noteq> t' \<Longrightarrow> has t' s \<Longrightarrow>
      get t' (put t w r s) = get t' s"
    and has_put: "ok s \<Longrightarrow> valid t \<Longrightarrow> valid t' \<Longrightarrow> t = t' \<or> has t' s \<Longrightarrow> has t' (put t w r s)"
    and ok_put: "ok s \<Longrightarrow> valid t \<Longrightarrow> ok (put t w r s)"
begin

definition put_all :: "('t \<times> nat \<times> nat) list \<Rightarrow> 's \<Rightarrow> 's" where
  "put_all us s = foldl (\<lambda>s (t, w, r). put t w r s) s us"

lemma put_all_snoc: "put_all (us @ [(t, w, r)]) s = put t w r (put_all us s)"
  by (simp add: put_all_def)

lemma ok_put_all: "ok s \<Longrightarrow> list_all (\<lambda>(t, _). valid t) us \<Longrightarrow> ok (put_all us s)"
  by (induction us arbitrary: s) (auto simp: put_all_def ok_put)

lemma get_put_all:
  assumes "ok s" and "list_all (\<lambda>(t, _). valid t) (us @ (t, w, r) # vs)" and "t \<notin> fst ` set vs"
  shows "has t (put_all (us @ (t, w, r) # vs) s) \<and>
    get t (put_all (us @ (t, w, r) # vs) s) = (u32 w, u32 r)"
  using assms
proof (induction vs rule: rev_induct)
  case Nil
  then have "ok (put_all us s)" by (intro ok_put_all) simp_all
  with Nil show ?case by (simp add: put_all_snoc get_put has_put)
next
  case (snoc v vs)
  obtain t' w' r' where v: "v = (t', w', r')" by (cases v) auto
  let ?s = "put_all (us @ (t, w, r) # vs) s"
  have ok': "ok ?s" using snoc.prems by (intro ok_put_all) simp_all
  have step: "put_all (us @ (t, w, r) # vs @ [v]) s = put t' w' r' ?s"
    using put_all_snoc [of "us @ (t, w, r) # vs" t' w' r' s] by (simp add: v)
  show ?case
    unfolding step using snoc v ok' by (auto simp: get_put_other has_put)
qed

end

definition logs_ok :: "flash \<Rightarrow> bool" where
  "logs_ok f = (\<forall>t pg. RecordAdd_Page t = Some pg \<longrightarrow> log_ok pg f)"

definition type_put :: "nat \<Rightarrow> nat \<Rightarrow> nat \<Rightarrow> flash \<Rightarrow> flash" where
  "type_put t w r f = RecordAdd_put (the (RecordAdd_Page t)) w r f"

definition type_get :: "nat \<Rightarrow> flash \<Rightarrow> nat \<times> nat" where
  "type_get t f = RecordAdd_get (the (RecordAdd_Page t)) f"

definition type_has :: "nat \<Rightarrow> flash \<Rightarrow> bool" where
  "type_has t f = (log_abs (the (RecordAdd_Page t)) f \<noteq> [])"

lemma append_log_last: "append_log e es \<noteq> [] \<and> last (append_log e es) = e"
  by (simp add: append_log_def)

lemma log_other_put:
  assumes "RecordAdd_Page t = Some pg" and "RecordAdd_Page t' = Some pg'" and "t \<noteq> t'"
  shows "log_abs pg' (RecordAdd_put pg w r f) = log_abs pg' f"
    and "log_ok pg' (RecordAdd_put pg w r f) = log_ok pg' f"
  using log_cong [OF RecordAdd_Page_log_page [OF assms(2)], of "RecordAdd_put pg w r f" f]
    nor_read_put_other [OF RecordAdd_Page_log_page [OF assms(1)]] RecordAdd_Page_inj [OF assms]
  by auto

lemma logs_ok_put:
  assumes "logs_ok f" and "RecordAdd_Page t = Some pg"
  shows "logs_ok (RecordAdd_put pg w r f)"
  unfolding logs_ok_def
proof (intro allI impI)
  fix t' pg' assume t': "RecordAdd_Page t' = Some pg'"
  show "log_ok pg' (RecordAdd_put pg w r f)"
  proof (cases "t' = t")
    case True
    with assms t' log_ok_put [OF RecordAdd_Page_log_page [OF t'], of f] show ?thesis
      by (simp add: logs_ok_def)
  next
    case False
    with assms t' log_other_put(2) [OF assms(2) t'] show ?thesis by (simp add: logs_ok_def)
  qed
qed

interpretation slots: pointer_store type_put type_get type_has "\<lambda>t. RecordAdd_Page t \<noteq> None" logs_ok
proof (unfold_locales, goal_cases)
  case (1 f t w r)
  then obtain pg where pg: "RecordAdd_Page t = Some pg" by auto
  with 1 show ?case
    using RecordAdd_get_last [OF RecordAdd_Page_log_page [OF pg]]
      log_abs_put [OF RecordAdd_Page_log_page [OF pg], of f w r]
    by (simp add: type_get_def type_put_def logs_ok_def append_log_last)
next
  case (2 f t t' w r)
  then obtain pg pg' where pg: "RecordAdd_Page t = Some pg" "RecordAdd_Page t' = Some pg'" by auto
  with 2 show ?case
    using RecordAdd_get_last [OF RecordAdd_Page_log_page [OF pg(2)]]
      log_other_put(1) [OF pg 2(4), of w r f]
    by (simp add: type_get_def type_put_def type_has_def)
next
  case (3 f t t' w r)
  then obtain pg pg' where pg: "RecordAdd_Page t = Some pg" "RecordAdd_Page t' = Some pg'" by auto
  show ?case
  proof (cases "t = t'")
    case True
    with 3 pg log_abs_put [OF RecordAdd_Page_log_page [OF pg(1)], of f w r] show ?thesis
      by (simp add: type_has_def type_put_def logs_ok_def append_log_last)
  next
    case False
    with 3 pg log_other_put(1) [OF pg False] show ?thesis
      by (simp add: type_has_def type_put_def)
  qed
next
  case (4 f t w r)
  then show ?case by (auto simp: type_put_def logs_ok_put)
qed

section \<open>Properties\<close>

lemma log_ok_blank [simp]: "log_ok pg (\<lambda>_. 0xFF)"
  by (simp add: log_ok_def nor_read_def)

lemma logs_ok_blank [simp]: "logs_ok (\<lambda>_. 0xFF)"
  by (simp add: logs_ok_def)

text \<open>
  (C38) Refinement of the slot number log: \<^verbatim>\<open>DF_Write_RecordAdd\<close> on a well-formed sector is
  the abstract log update (append, or restart when all 448 entries are used), keeps the
  invariant of every log, and changes no byte outside the sector of its own log.
\<close>

theorem DF_Write_RecordAdd_refines_log:
  assumes "logs_ok (flash s)" and "RecordAdd_Page t = Some pg"
    and "w < 4294967296" and "r < 4294967296"
    and "DF_Write_RecordAdd w r t s = (ret, s')"
  shows "ret \<and> log_abs pg (flash s') = append_log (w, r) (log_abs pg (flash s)) \<and>
    logs_ok (flash s') \<and>
    (\<forall>x. x < chip_size \<longrightarrow> x div 4096 \<noteq> pg div 8 \<longrightarrow>
       nor_read (flash s') x = nor_read (flash s) x)"
proof -
  have lp: "log_page pg" using assms(2) by (rule RecordAdd_Page_log_page)
  have s': "ret" "flash s' = RecordAdd_put pg w r (flash s)"
    using assms(2,5) by (auto simp: DF_Write_RecordAdd_def)
  show ?thesis
    using log_abs_put [OF lp, of "flash s" w r] logs_ok_put [OF assms(1,2)]
      nor_read_put_other [OF lp] assms(1-4) s'
    by (simp add: logs_ok_def u32_small)
qed

theorem DF_Write_RecordAdd_refines_log_witness:
  "RecordAdd_Page TYPE_PhotoAdd = Some 1104 \<and>
   log_abs 1104 (flash (snd (DF_Write_RecordAdd 7 3 TYPE_PhotoAdd blank_store))) =
     append_log (7, 3) (log_abs 1104 (flash blank_store))"
  using DF_Write_RecordAdd_refines_log [of blank_store TYPE_PhotoAdd 1104 7 3 True
      "snd (DF_Write_RecordAdd 7 3 TYPE_PhotoAdd blank_store)"]
  by (simp add: RecordAdd_Page_def DF_Write_RecordAdd_def)

text \<open>A sequence of updates of the slot numbers, for any mixture of record types.\<close>

definition RecordAdd_updates :: "(nat \<times> nat \<times> nat) list \<Rightarrow> store \<Rightarrow> store" where
  "RecordAdd_updates us s = foldl (\<lambda>s (t, w, r). snd (DF_Write_RecordAdd w r t s)) s us"

lemma DF_Write_RecordAdd_type_put:
  "RecordAdd_Page t \<noteq> None \<Longrightarrow>
    DF_Write_RecordAdd w r t s = (True, s\<lparr>flash := type_put t w r (flash s)\<rparr>)"
  by (auto simp: DF_Write_RecordAdd_def type_put_def)

lemma RecordAdd_updates_put_all:
  "list_all (\<lambda>(t, _). RecordAdd_Page t \<noteq> None) us \<Longrightarrow>
    RecordAdd_updates us s = s\<lparr>flash := slots.put_all us (flash s)\<rparr>"
proof (induction us rule: rev_induct)
  case Nil
  then show ?case by (simp add: RecordAdd_updates_def slots.put_all_def)
next
  case (snoc u us)
  then show ?case
    by (cases u)
       (simp add: RecordAdd_updates_def slots.put_all_snoc DF_Write_RecordAdd_type_put split_def)
qed

text \<open>
  The slot numbers survive a power cut: after any sequence of
  \<^verbatim>\<open>DF_Write_RecordAdd\<close> calls for any mixture of record types,
  \<^verbatim>\<open>DF_Read_RecordAdd\<close> of a type restores exactly the pair of the last call for that
  type, however often the logs have been erased and restarted in between.
\<close>

theorem DF_Read_RecordAdd_last_update:
  assumes "logs_ok (flash s)"
    and "list_all (\<lambda>(t, _). RecordAdd_Page t \<noteq> None) (us @ (t, w, r) # vs)"
    and "t \<notin> fst ` set vs" and "w < 4294967296" and "r < 4294967296"
  shows "DF_Read_RecordAdd a b t (RecordAdd_updates (us @ (t, w, r) # vs) s) =
    RecordAdd_result t w r (RecordAdd_updates (us @ (t, w, r) # vs) s)"
proof -
  let ?us = "us @ (t, w, r) # vs"
  obtain pg where pg: "RecordAdd_Page t = Some pg" using assms(2) by auto
  have "type_get t (slots.put_all ?us (flash s)) = (u32 w, u32 r)"
    using slots.get_put_all [OF assms(1-3)] by simp
  then show ?thesis
    using pg assms(4,5) RecordAdd_updates_put_all [OF assms(2), of s]
    by (simp add: DF_Read_RecordAdd_def type_get_def u32_small)
qed

theorem DF_Read_RecordAdd_last_update_witness:
  "cycle_write (snd (DF_Read_RecordAdd 0 0 TYPE_CycleAdd
     (RecordAdd_updates [(TYPE_CycleAdd, 5, 2), (TYPE_PhotoAdd, 9, 9)] blank_store))) = 5"
  using DF_Read_RecordAdd_last_update [of blank_store "[]" TYPE_CycleAdd 5 2
      "[(TYPE_PhotoAdd, 9, 9)]" 0 0]
  by (simp add: RecordAdd_Page_def RecordAdd_result_def)

text \<open>
  An erased log: \<^verbatim>\<open>DF_Read_RecordAdd\<close> decrements the \<^verbatim>\<open>u16\<close> entry number of an empty
  log below zero, and takes the slot numbers from page \<open>pg + 1024\<close>, 1023 pages behind the
  log's own entries.
\<close>

theorem DF_Read_RecordAdd_empty_log:
  assumes "RecordAdd_Page t = Some pg" and "log_abs pg (flash s) = []"
  shows "DF_Read_RecordAdd a b t s =
    RecordAdd_result t (of_le32 (DF_ReadFlash (pg + 1024) 504 4 (flash s)))
      (of_le32 (DF_ReadFlash (pg + 1024) 508 4 (flash s))) s"
proof -
  have lp: "log_page pg" using assms(1) by (rule RecordAdd_Page_log_page)
  have "first_free (DF_ReadFlash pg 0 448 (flash s)) = 0"
    using assms(2) lp by (simp add: log_abs_def log_len_def log_head_read)
  then show ?thesis
    using assms(1) lp
    by (simp add: DF_Read_RecordAdd_def RecordAdd_get_def Let_def u16_def log_page_def add.commute [of 1024 pg])
qed

theorem DF_Read_RecordAdd_empty_log_witness:
  "RecordAdd_Page TYPE_CycleAdd = Some 1096 \<and> log_abs 1096 (flash blank_store) = [] \<and>
   DF_Read_RecordAdd 0 0 TYPE_CycleAdd blank_store =
     RecordAdd_result TYPE_CycleAdd (of_le32 (DF_ReadFlash 2120 504 4 (flash blank_store)))
       (of_le32 (DF_ReadFlash 2120 508 4 (flash blank_store))) blank_store"
proof -
  have pg: "RecordAdd_Page TYPE_CycleAdd = Some 1096" by (simp add: RecordAdd_Page_def)
  have "log_len 1096 (\<lambda>_. 0xFF) = 0"
    by (rule log_state_len) (simp add: log_state_def nor_read_def)
  then have e: "log_abs 1096 (flash blank_store) = []" by (simp add: log_abs_def)
  show ?thesis using DF_Read_RecordAdd_empty_log [OF pg e, of 0 0] pg e by simp
qed

text \<open>
  Round trip of the network settings: \<^verbatim>\<open>Read_IPandPort_Setting\<close> restores the
  addresses and ports that \<^verbatim>\<open>Write_IPandPort_Setting\<close> stored, on any flash contents.
\<close>

theorem IPandPort_Setting_roundtrip:
  assumes "length (RemoteIP_main n) = 4" and "length (RemoteIP_aux n) = 4"
    and "RemotePort_main n < 65536" and "RemotePort_aux n < 65536"
  shows "Read_IPandPort_Setting (Write_IPandPort_Setting n f) = n"
proof -
  obtain a b c d where ip: "RemoteIP_main n = [a, b, c, d]"
    using assms(1) by (auto simp: numeral_eq_Suc length_Suc_conv)
  obtain a' b' c' d' where ip': "RemoteIP_aux n = [a', b', c', d']"
    using assms(2) by (auto simp: numeral_eq_Suc length_Suc_conv)
  let ?p = "RemotePort_main n" and ?q = "RemotePort_aux n"
  let ?reg = "[a, b, c, d, byte (?p div 256), byte ?p, a', b', c', d', byte (?q div 256), byte ?q]"
  let ?e = "nor_erase sector_size (1080 * 512) f"
  have wr: "Write_IPandPort_Setting n f = prog_all nor_program (1080 * 512) ?reg ?e"
    by (simp add: Write_IPandPort_Setting_def DF_WriteFlashSector_in_range ip ip' be16_def)
  have "nor_read ?e (1080 * 512 + i) = 0xFF" if "i < length ?reg" for i
    using that sector_of_page [of i 1080] by (simp add: nor.rd_erase chip_size_def)
  then have "read_all nor_read (1080 * 512) (length ?reg) (Write_IPandPort_Setting n f) = ?reg"
    unfolding wr by (intro nor.read_all_prog_all_blank) (simp_all add: chip_size_def)
  moreover have "length ?reg = 12" by simp
  ultimately have all: "read_all nor_read (1080 * 512) 12 (Write_IPandPort_Setting n f) = ?reg"
    by (simp only:)
  have nth: "nor_read (Write_IPandPort_Setting n f) (1080 * 512 + i) = ?reg ! i" if "i < 12" for i
    using nth_read_all [OF that, of nor_read "1080 * 512" "Write_IPandPort_Setting n f"]
    by (simp only: all)
  have reg: "DF_ReadFlash 1080 0 20 (Write_IPandPort_Setting n f) ! i = ?reg ! i" if "i < 12" for i
    using that nth [OF that] by (simp add: DF_ReadFlash_in_range)
  show ?thesis
    using reg [of 0] reg [of 1] reg [of 2] reg [of 3] reg [of 4] reg [of 5] reg [of 6] reg [of 7]
      reg [of 8] reg [of 9] reg [of 10] reg [of 11] assms(3,4)
    by (simp add: Read_IPandPort_Setting_def Let_def of_be16_be16 u16_small ip [symmetric] ip' [symmetric])
qed

theorem IPandPort_Setting_roundtrip_witness:
  "Read_IPandPort_Setting (Write_IPandPort_Setting
     \<lparr>RemoteIP_main = [60, 28, 50, 210], RemotePort_main = 9131,
      RemoteIP_aux = [10, 0, 0, 1], RemotePort_aux = 8201\<rparr> (\<lambda>_. 0)) =
   \<lparr>RemoteIP_main = [60, 28, 50, 210], RemotePort_main = 9131,
    RemoteIP_aux = [10, 0, 0, 1], RemotePort_aux = 8201\<rparr>"
  by (rule IPandPort_Setting_roundtrip) simp_all

end
