(* ===== verification/Record_Area.thy ===== *)
theory Record_Area
  imports DF_Function
begin

text \<open>
  The geometry that the record areas of \<^verbatim>\<open>dataflash/Flash_Oper.c\<close> share: slots of a fixed
  size, a fixed number of them to a page, pages from a sector aligned start page, and a
  sector erase when the first slot of a sector is written. The two locales prove, once for
  all areas, that slots do not overlap, that a slot written in order reads back, and that
  a ring of slots is a first-in first-out queue as long as a sector is free.
\<close>

section \<open>Slots\<close>

definition slot_addr :: "nat \<Rightarrow> nat \<Rightarrow> nat \<Rightarrow> nat \<Rightarrow> nat" where
  "slot_addr start per sz n = (start + n div per) * PageSIZE + (n mod per) * sz"

definition slot_open :: "nat \<Rightarrow> nat \<Rightarrow> nat \<Rightarrow> nat \<Rightarrow> flash \<Rightarrow> flash" where
  "slot_open start per sz n f =
     (if n mod (8 * per) = 0 then nor_erase sector_size (slot_addr start per sz n) f else f)"

definition slot_write :: "nat \<Rightarrow> nat \<Rightarrow> nat \<Rightarrow> nat \<Rightarrow> bytes \<Rightarrow> flash \<Rightarrow> flash" where
  "slot_write start per sz n bs f =
     prog_all nor_program (slot_addr start per sz n) bs (slot_open start per sz n f)"

definition slot_read :: "nat \<Rightarrow> nat \<Rightarrow> nat \<Rightarrow> nat \<Rightarrow> nat \<Rightarrow> flash \<Rightarrow> bytes" where
  "slot_read start per sz len n f = read_all nor_read (slot_addr start per sz n) len f"

text \<open>
  A slot can be written when it is the first one of a sector, which is erased then, or
  when it and all the slots behind it in the sector are erased.
\<close>

definition slot_ready :: "nat \<Rightarrow> nat \<Rightarrow> nat \<Rightarrow> nat \<Rightarrow> nat \<Rightarrow> flash \<Rightarrow> bool" where
  "slot_ready start per sz cap n f =
     (n mod (8 * per) \<noteq> 0 \<longrightarrow>
       (\<forall>m < cap. n \<le> m \<and> m div (8 * per) = n div (8 * per) \<longrightarrow>
          blank f (slot_addr start per sz m) sz))"

lemma length_slot_read [simp]: "length (slot_read start per sz len n f) = len"
  by (simp add: slot_read_def)

lemma slot_ready_first: "n mod (8 * per) = 0 \<Longrightarrow> slot_ready start per sz cap n f"
  by (simp add: slot_ready_def)

lemma slot_first_iff:
  fixes n per :: nat
  assumes "0 < per"
  shows "(n div per mod 8 = 0 \<and> n - n div per * per = 0) = (n mod (8 * per) = 0)"
proof -
  have "n mod (8 * per) = n mod per + per * (n div per mod 8)"
    using mod_mult2_eq [of n per 8] by (simp add: mult.commute)
  then show ?thesis using assms by (auto simp: minus_div_mult_eq_mod)
qed

locale slot_area =
  fixes start per sz cap :: nat
  assumes aligned: "start mod 8 = 0"
    and per_pos: "0 < per" and size_pos: "0 < sz"
    and page_fits: "per * sz \<le> 512"
    and within: "n < cap \<Longrightarrow> start + n div per < 8192"
begin

lemma in_page: "n mod per * sz + sz \<le> 512"
proof -
  have "n mod per < per" using per_pos by simp
  then have "(n mod per + 1) * sz \<le> per * sz" by (intro mult_le_mono1) simp
  with page_fits show ?thesis by simp
qed

lemma slot_range: "n < cap \<Longrightarrow> slot_addr start per sz n + sz \<le> chip_size"
  using in_page [of n] within [of n] by (simp add: slot_addr_def chip_size_def)

lemma slot_page: "k < sz \<Longrightarrow> (slot_addr start per sz n + k) div 512 = start + n div per"
proof -
  assume "k < sz"
  with in_page [of n] have "n mod per * sz + k < 512" by simp
  then show ?thesis by (simp add: slot_addr_def add.assoc)
qed

lemma slot_sector:
  assumes "k < sz"
  shows "(slot_addr start per sz n + k) div 4096 = start div 8 + n div (8 * per)"
proof -
  have "start = 8 * (start div 8)" using aligned by (metis mult_div_mod_eq add.right_neutral)
  then have "start + n div per = n div per + 8 * (start div 8)" by linarith
  then have "(start + n div per) div 8 = n div per div 8 + start div 8" by simp
  then show ?thesis
    using slot_page [OF assms, of n]
    by (simp only: sector_of_addr div_mult2_eq [symmetric] mult.commute add.commute)
qed

lemma slot_sector0: "slot_addr start per sz n div 4096 = start div 8 + n div (8 * per)"
  using slot_sector [of 0 n] size_pos by simp

lemma slot_order:
  assumes "m < n"
  shows "slot_addr start per sz m + sz \<le> slot_addr start per sz n"
proof (cases "m div per = n div per")
  case True
  have "m div per * per + m mod per < n div per * per + n mod per"
    using assms by (simp only: div_mult_mod_eq)
  then have "m mod per + 1 \<le> n mod per" unfolding True by linarith
  then have "(m mod per + 1) * sz \<le> n mod per * sz" by (rule mult_le_mono1)
  with True show ?thesis by (simp add: slot_addr_def)
next
  case False
  with assms have "m div per + 1 \<le> n div per" using div_le_mono [of m n per] by simp
  then have "(start + m div per + 1) * 512 \<le> (start + n div per) * 512"
    by (intro mult_le_mono1) simp
  with in_page [of m] show ?thesis by (simp add: slot_addr_def)
qed

lemma slot_disjoint:
  "m \<noteq> n \<Longrightarrow> slot_addr start per sz m + sz \<le> slot_addr start per sz n \<or>
     slot_addr start per sz n + sz \<le> slot_addr start per sz m"
  using slot_order [of m n] slot_order [of n m] by (cases m n rule: linorder_cases) auto

text \<open>Every byte of the chip after a slot has been written.\<close>

lemma rd_slot_open:
  assumes "n < cap" and "x < chip_size"
  shows "nor_read (slot_open start per sz n f) x =
    (if n mod (8 * per) = 0 \<and> x div 4096 = start div 8 + n div (8 * per) then 0xFF
     else nor_read f x)"
proof -
  have "slot_addr start per sz n < chip_size" using slot_range [OF assms(1)] size_pos by simp
  with assms(2) show ?thesis by (simp add: slot_open_def nor.rd_erase slot_sector0)
qed

lemma rd_slot_write:
  assumes "n < cap" and "length bs \<le> sz" and "x < chip_size"
  shows "nor_read (slot_write start per sz n bs f) x =
    (if slot_addr start per sz n \<le> x \<and> x < slot_addr start per sz n + length bs
     then nor_read (slot_open start per sz n f) x AND bs ! (x - slot_addr start per sz n)
     else nor_read (slot_open start per sz n f) x)"
  using assms slot_range [OF assms(1)] by (simp add: slot_write_def nor.rd_prog_all)

lemma rd_slot_write_outside:
  assumes "n < cap" and "length bs \<le> sz" and "x < chip_size"
    and "x div 4096 \<noteq> start div 8 + n div (8 * per)"
  shows "nor_read (slot_write start per sz n bs f) x = nor_read f x"
proof -
  have "\<not> (slot_addr start per sz n \<le> x \<and> x < slot_addr start per sz n + length bs)"
  proof
    assume a: "slot_addr start per sz n \<le> x \<and> x < slot_addr start per sz n + length bs"
    then have "x - slot_addr start per sz n < sz" using assms(2) by linarith
    with slot_sector [OF this, of n] a assms(4) show False by simp
  qed
  with assms show ?thesis by (simp only: rd_slot_write rd_slot_open) simp
qed

lemma open_blank:
  assumes "n < cap" and "slot_ready start per sz cap n f" and "k < sz"
  shows "nor_read (slot_open start per sz n f) (slot_addr start per sz n + k) = 0xFF"
  using assms slot_range [OF assms(1)] slot_sector [OF assms(3), of n]
  by (simp add: rd_slot_open slot_ready_def)

lemma slot_read_open_blank:
  assumes "n < cap" and "slot_ready start per sz cap n f" and "0 < len"
  shows "slot_read start per sz len n (slot_open start per sz n f) ! 0 = 0xFF"
  using assms size_pos open_blank [OF assms(1,2), of 0] by (simp add: slot_read_def)

lemma slot_read_write_same:
  assumes "n < cap" and "slot_ready start per sz cap n f" and "length bs \<le> sz"
  shows "slot_read start per sz (length bs) n (slot_write start per sz n bs f) = bs"
  unfolding slot_read_def slot_write_def
  using assms slot_range [OF assms(1)] open_blank [OF assms(1,2)]
  by (intro nor.read_all_prog_all_blank) simp_all

lemma rd_slot_write_other_slot:
  assumes "n < cap" and "m < cap" and "m \<noteq> n" and "length bs \<le> sz" and "k < sz"
    and "n mod (8 * per) = 0 \<Longrightarrow> m div (8 * per) \<noteq> n div (8 * per)"
  shows "nor_read (slot_write start per sz n bs f) (slot_addr start per sz m + k) =
    nor_read f (slot_addr start per sz m + k)"
  using assms slot_disjoint [OF assms(3)] slot_range [OF assms(2)] slot_sector [OF assms(5), of m]
  by (auto simp: rd_slot_write rd_slot_open)

lemma slot_read_write_other:
  assumes "n < cap" and "m < cap" and "m \<noteq> n" and "length bs \<le> sz" and "len \<le> sz"
    and "n mod (8 * per) = 0 \<Longrightarrow> m div (8 * per) \<noteq> n div (8 * per)"
  shows "slot_read start per sz len m (slot_write start per sz n bs f) =
    slot_read start per sz len m f"
  unfolding slot_read_def using assms
  by (intro read_all_cong) (simp add: rd_slot_write_other_slot)

lemma slot_ready_next:
  assumes "n < cap" and "slot_ready start per sz cap n f" and "length bs \<le> sz"
  shows "slot_ready start per sz cap ((n + 1) mod cap) (slot_write start per sz n bs f)"
proof (cases "(n + 1) mod cap mod (8 * per) = 0")
  case True
  then show ?thesis by (rule slot_ready_first)
next
  case False
  then have "n + 1 \<noteq> cap" by (metis mod_self mod_0)
  with assms(1) have mod: "(n + 1) mod cap = n + 1" by simp
  with False have same: "(n + 1) div (8 * per) = n div (8 * per)"
    by (simp add: div_Suc)
  have "nor_read (slot_write start per sz n bs f) (slot_addr start per sz m + k) = 0xFF"
    if m: "m < cap" "n + 1 \<le> m" "m div (8 * per) = n div (8 * per)" and k: "k < sz" for m k
  proof -
    have "slot_addr start per sz n + sz \<le> slot_addr start per sz m"
      using m(2) by (intro slot_order) simp
    then have "nor_read (slot_write start per sz n bs f) (slot_addr start per sz m + k) =
        nor_read (slot_open start per sz n f) (slot_addr start per sz m + k)"
      using assms(1,3) slot_range [OF m(1)] k by (simp add: rd_slot_write)
    also have "\<dots> = 0xFF"
      using assms(1,2) m k slot_range [OF m(1)] slot_sector [OF k, of m]
      by (simp add: rd_slot_open slot_ready_def)
    finally show ?thesis .
  qed
  with mod same show ?thesis by (simp add: slot_ready_def)
qed

lemma slot_ready_cong:
  assumes "\<And>x. x < chip_size \<Longrightarrow> start div 8 \<le> x div 4096 \<Longrightarrow>
      x div 4096 \<le> start div 8 + (cap - 1) div (8 * per) \<Longrightarrow> nor_read f x = nor_read g x"
  shows "slot_ready start per sz cap n f = slot_ready start per sz cap n g"
proof -
  have "nor_read f (slot_addr start per sz m + k) = nor_read g (slot_addr start per sz m + k)"
    if "m < cap" "k < sz" for m k
    using slot_range [OF that(1)] that slot_sector [OF that(2), of m] div_le_mono [of m "cap - 1" "8 * per"]
    by (intro assms) simp_all
  then show ?thesis by (simp add: slot_ready_def)
qed

lemma slot_read_cong:
  assumes "\<And>x. x < chip_size \<Longrightarrow> start div 8 \<le> x div 4096 \<Longrightarrow>
      x div 4096 \<le> start div 8 + (cap - 1) div (8 * per) \<Longrightarrow> nor_read f x = nor_read g x"
    and "n < cap" and "len \<le> sz"
  shows "slot_read start per sz len n f = slot_read start per sz len n g"
  unfolding slot_read_def
proof (rule read_all_cong)
  fix k assume "k < len"
  with assms(3) have k: "k < sz" by simp
  then show "nor_read f (slot_addr start per sz n + k) = nor_read g (slot_addr start per sz n + k)"
    using slot_range [OF assms(2)] assms(2) slot_sector [OF k, of n]
      div_le_mono [of n "cap - 1" "8 * per"]
    by (intro assms(1)) simp_all
qed

text \<open>The page, offset and erase computations of the source, for a slot of the area.\<close>

lemma offset_eq: "u16 ((n - n div per * per) * sz) = n mod per * sz"
  using in_page [of n] size_pos by (simp add: u16_small minus_div_mult_eq_mod)

lemma DF_ReadFlash_slot:
  assumes "n < cap" and "len < 65536"
  shows "DF_ReadFlash (n div per + start) (u16 ((n - n div per * per) * sz)) len f =
    slot_read start per sz len n f"
  using assms within [OF assms(1)] in_page [of n] size_pos
  by (simp add: offset_eq DF_ReadFlash_in_range slot_read_def slot_addr_def add.commute)

lemma DF_WriteFlashDirect_slot:
  assumes "n < cap" and "len < 65536"
  shows "DF_WriteFlashDirect (n div per + start) (u16 ((n - n div per * per) * sz)) p len f =
    prog_all nor_program (slot_addr start per sz n) (take len p) f"
  using assms within [OF assms(1)] in_page [of n] size_pos
  by (simp add: offset_eq DF_WriteFlashDirect_in_range slot_addr_def add.commute)

lemma open_store:
  assumes "n < cap"
  shows "(if n div per mod 8 = 0 \<and> n - n div per * per = 0
      then s\<lparr>flash := nor_erase sector_size (u32 ((n div per + start) * PageSIZE)) (flash s)\<rparr> else s) =
    s\<lparr>flash := slot_open start per sz n (flash s)\<rparr>"
proof -
  have "(n div per + start) * 512 < 4294967296" using within [OF assms] by simp
  moreover have "slot_addr start per sz n = (n div per + start) * 512" if "n mod (8 * per) = 0"
    using that slot_first_iff [OF per_pos, of n]
    by (simp add: slot_addr_def minus_div_mult_eq_mod add.commute)
  ultimately show ?thesis
    unfolding slot_first_iff [OF per_pos] by (simp add: slot_open_def u32_small)
qed

end

section \<open>Rings of slots\<close>

text \<open>
  \<open>ring_queue\<close>: the slots from \<open>r\<close> up to, not including, \<open>w\<close> hold the records \<open>q\<close>, oldest
  first, and slot \<open>w\<close> can be written.
\<close>

definition ring_queue ::
  "nat \<Rightarrow> nat \<Rightarrow> nat \<Rightarrow> nat \<Rightarrow> nat \<Rightarrow> nat \<Rightarrow> nat \<Rightarrow> flash \<Rightarrow> bytes list \<Rightarrow> bool" where
  "ring_queue start per sz cap len r w f q =
     (r < cap \<and> length q < cap \<and> w = (r + length q) mod cap \<and>
      (\<forall>i < length q. slot_read start per sz len ((r + i) mod cap) f = q ! i) \<and>
      slot_ready start per sz cap w f)"

locale ring_area = slot_area +
  assumes whole_sectors: "cap mod (8 * per) = 0" and cap_pos: "0 < cap"
begin

lemma ring_distinct:
  assumes "r < cap" and "i < j" and "j < cap"
  shows "(r + i) mod cap \<noteq> (r + j) mod cap"
proof
  assume "(r + i) mod cap = (r + j) mod cap"
  then have "cap dvd (r + j) - (r + i)"
    using assms(2) by (intro mod_eq_dvd_iff_nat [THEN iffD1]) simp_all
  then have "cap dvd j - i" by simp
  with assms(2,3) show False by (auto dest: dvd_imp_le)
qed

text \<open>The slots of the sector that slot \<open>w\<close> opens come right behind the queue.\<close>

lemma sector_behind:
  assumes "w < cap" and "w mod (8 * per) = 0" and "m < cap" and "m div (8 * per) = w div (8 * per)"
  shows "\<exists>j < 8 * per. m = w + j"
proof (intro exI conjI)
  have "m = m div (8 * per) * (8 * per) + m mod (8 * per)" by (simp only: div_mult_mod_eq)
  then have "m = w div (8 * per) * (8 * per) + m mod (8 * per)" using assms(4) by simp
  moreover have "w = w div (8 * per) * (8 * per)" using assms(2) by (metis div_mult_mod_eq add.right_neutral)
  ultimately show "m = w + m mod (8 * per)" by simp
  show "m mod (8 * per) < 8 * per" using per_pos by simp
qed

lemma queue_slot_kept:
  assumes "r < cap" and "length q + 8 * per \<le> cap" and "w = (r + length q) mod cap" and "i < length q"
  shows "(r + i) mod cap \<noteq> w"
    and "w mod (8 * per) = 0 \<Longrightarrow> (r + i) mod cap div (8 * per) \<noteq> w div (8 * per)"
proof -
  show "(r + i) mod cap \<noteq> w"
    using ring_distinct [of r i "length q"] assms per_pos by simp
  assume first: "w mod (8 * per) = 0"
  show "(r + i) mod cap div (8 * per) \<noteq> w div (8 * per)"
  proof
    assume "(r + i) mod cap div (8 * per) = w div (8 * per)"
    with first obtain j where j: "j < 8 * per" "(r + i) mod cap = w + j"
      using sector_behind [of w "(r + i) mod cap"] assms(3) cap_pos by auto
    moreover have "(r + i) mod cap < cap" using cap_pos by simp
    ultimately have "(r + i) mod cap = (w + j) mod cap" by simp
    also have "\<dots> = (r + (length q + j)) mod cap"
      using assms(3) by (simp add: mod_add_left_eq add.assoc)
    finally show False
      using ring_distinct [of r i "length q + j"] assms j(1) by simp
  qed
qed

lemma ring_queue_push:
  assumes "ring_queue start per sz cap len r w f q" and "length b = len" and "len \<le> sz"
    and "length q + 8 * per \<le> cap" and "length q + 1 < cap"
  shows "ring_queue start per sz cap len r ((w + 1) mod cap)
    (slot_write start per sz w b f) (q @ [b])"
proof -
  have r: "r < cap" and w: "w = (r + length q) mod cap"
    and q: "\<And>i. i < length q \<Longrightarrow> slot_read start per sz len ((r + i) mod cap) f = q ! i"
    and rdy: "slot_ready start per sz cap w f"
    using assms(1) by (auto simp: ring_queue_def)
  have wc: "w < cap" using w cap_pos by simp
  have next_w: "(w + 1) mod cap = (r + length (q @ [b])) mod cap"
    using w by (simp add: mod_Suc_eq)
  have old: "slot_read start per sz len ((r + i) mod cap) (slot_write start per sz w b f) = q ! i"
    if "i < length q" for i
    using slot_read_write_other [OF wc, of "(r + i) mod cap" b len f] q [OF that]
      queue_slot_kept [OF r assms(4) w that] assms(2,3) cap_pos by simp
  have new: "slot_read start per sz len w (slot_write start per sz w b f) = b"
    using slot_read_write_same [OF wc rdy, of b] assms(2,3) by simp
  have all: "\<forall>i < length (q @ [b]). slot_read start per sz len ((r + i) mod cap)
      (slot_write start per sz w b f) = (q @ [b]) ! i"
    using old new w by (auto simp: less_Suc_eq nth_append)
  have "slot_ready start per sz cap ((w + 1) mod cap) (slot_write start per sz w b f)"
    using slot_ready_next [OF wc rdy] assms(2,3) by simp
  with r next_w all assms(5) show ?thesis by (simp add: ring_queue_def)
qed

lemma ring_queue_head:
  assumes "ring_queue start per sz cap len r w f (b # q)"
  shows "slot_read start per sz len r f = b"
  using assms by (auto simp: ring_queue_def)

lemma ring_queue_pop:
  assumes "ring_queue start per sz cap len r w f (b # q)"
  shows "ring_queue start per sz cap len ((r + 1) mod cap) w f q"
proof -
  have "((r + 1) mod cap + i) mod cap = (r + Suc i) mod cap" for i
    by (metis add.assoc mod_add_left_eq plus_1_eq_Suc)
  with assms show ?thesis by (auto simp: ring_queue_def)
qed

lemma ring_queue_empty:
  assumes "ring_queue start per sz cap len r w f q"
  shows "(r = w) = (q = [])"
proof
  assume "r = w"
  show "q = []"
  proof (rule ccontr)
    assume "q \<noteq> []"
    with ring_distinct [of r 0 "length q"] assms \<open>r = w\<close> show False by (auto simp: ring_queue_def)
  qed
qed (use assms in \<open>auto simp: ring_queue_def\<close>)

lemma ring_queue_cong:
  assumes "\<And>x. x < chip_size \<Longrightarrow> start div 8 \<le> x div 4096 \<Longrightarrow>
      x div 4096 \<le> start div 8 + (cap - 1) div (8 * per) \<Longrightarrow> nor_read f x = nor_read g x"
    and "len \<le> sz"
  shows "ring_queue start per sz cap len r w f q = ring_queue start per sz cap len r w g q"
proof -
  have "slot_read start per sz len ((r + i) mod cap) f = slot_read start per sz len ((r + i) mod cap) g" for i
    using assms cap_pos by (intro slot_read_cong) auto
  moreover have "slot_ready start per sz cap w f = slot_ready start per sz cap w g"
    using assms(1) by (rule slot_ready_cong)
  ultimately show ?thesis by (simp add: ring_queue_def)
qed

end

section \<open>Save and read operations on a ring\<close>

text \<open>
  A record is accepted by the read operations when it does not start with \<open>0xFF\<close> and its
  last byte is the exclusive-or of the bytes before it.
\<close>

definition rec_valid :: "bytes \<Rightarrow> bool" where
  "rec_valid c = (c \<noteq> [] \<and> c ! 0 \<noteq> 0xFF \<and> c ! (length c - 1) = xor_sum (take (length c - 1) c))"

lemma rec_valid_xor_sum: "rec_valid c \<Longrightarrow> xor_sum c = 0"
proof -
  assume "rec_valid c"
  then obtain bs b where c: "c = bs @ [b]" and "rec_valid (bs @ [b])"
    by (metis rec_valid_def rev_exhaust)
  then have "b = xor_sum bs" by (simp add: rec_valid_def)
  with c show ?thesis by simp
qed

text \<open>One damaged byte, the first byte not read as \<open>0xFF\<close> included, is always detected.\<close>

lemma rec_valid_damage:
  assumes "rec_valid c" and "i < length c" and "b \<noteq> c ! i"
  shows "\<not> rec_valid (c[i := b])"
  using assms rec_valid_xor_sum [of c] rec_valid_xor_sum [of "c[i := b]"] xor_sum_update [of i c b]
  by auto

locale record_ops = ring_area +
  fixes fl :: "'s \<Rightarrow> flash"
    and save :: "nat \<Rightarrow> bytes \<Rightarrow> nat \<Rightarrow> 's \<Rightarrow> bool \<times> 's"
    and read :: "nat \<Rightarrow> nat \<Rightarrow> 's \<Rightarrow> bool \<times> bytes \<times> 's"
  assumes save_flash: "n < cap \<Longrightarrow> len \<le> sz \<Longrightarrow> \<exists>s'.
      save n b len s = (nor_read (slot_open start per sz n (fl s)) (slot_addr start per sz n) = 0xFF, s') \<and>
      fl s' = (if fst (save n b len s) then slot_write start per sz n (take len b) (fl s)
               else slot_open start per sz n (fl s))"
    and read_flash: "n < cap \<Longrightarrow> 0 < len \<Longrightarrow> len \<le> sz \<Longrightarrow> \<exists>s'.
      read n len s = (rec_valid (slot_read start per sz len n (fl s)),
        slot_read start per sz len n (fl s), s') \<and> fl s' = fl s"
begin

lemma save_ready:
  assumes "n < cap" and "slot_ready start per sz cap n (fl s)" and "length b \<le> sz"
  shows "\<exists>s'. save n b (length b) s = (True, s') \<and> fl s' = slot_write start per sz n b (fl s)"
  using save_flash [OF assms(1,3), of b s] open_blank [OF assms(1,2), of 0] size_pos by auto

lemma save_dirty:
  assumes "n < cap" and "nor_read (fl s) (slot_addr start per sz n) \<noteq> 0xFF"
    and "n mod (8 * per) \<noteq> 0" and "len \<le> sz"
  shows "\<exists>s'. save n b len s = (False, s') \<and> fl s' = fl s"
  using save_flash [OF assms(1,4), of b s] assms by (auto simp: slot_open_def)

text \<open>
  The contract of an area: a record saved into a ready slot is read back, the slots that
  were in use keep their contents, and the next slot is ready.
\<close>

lemma roundtrip:
  assumes "n < cap" and "slot_ready start per sz cap n (fl s)" and "length b \<le> sz" and "rec_valid b"
  shows "\<exists>s'. save n b (length b) s = (True, s') \<and>
    (\<exists>s''. read n (length b) s' = (True, b, s'') \<and> fl s'' = fl s') \<and>
    slot_ready start per sz cap ((n + 1) mod cap) (fl s') \<and>
    (\<forall>m < cap. \<forall>len \<le> sz. m \<noteq> n \<and> (n mod (8 * per) = 0 \<longrightarrow> m div (8 * per) \<noteq> n div (8 * per)) \<longrightarrow>
       slot_read start per sz len m (fl s') = slot_read start per sz len m (fl s))"
proof -
  obtain s' where s': "save n b (length b) s = (True, s')" "fl s' = slot_write start per sz n b (fl s)"
    using save_ready [OF assms(1,2,3)] by blast
  have "slot_read start per sz (length b) n (fl s') = b"
    using slot_read_write_same [OF assms(1,2,3)] s' by simp
  moreover have "0 < length b" using assms(4) by (simp add: rec_valid_def)
  ultimately have "\<exists>s''. read n (length b) s' = (True, b, s'') \<and> fl s'' = fl s'"
    using read_flash [OF assms(1) _ assms(3), of s'] assms(4) by auto
  with s' slot_ready_next [OF assms(1,2,3)] show ?thesis
    using slot_read_write_other [OF assms(1) _ _ assms(3)] by auto
qed

lemma read_damaged:
  assumes "n < cap" and "rec_valid c" and "length c \<le> sz" and "i < length c" and "b \<noteq> c ! i"
    and "slot_read start per sz (length c) n (fl s) = c[i := b]"
  shows "fst (read n (length c) s) = False"
proof -
  have "0 < length c" using assms(2) by (simp add: rec_valid_def)
  with read_flash [OF assms(1) _ assms(3), of s] assms(6) rec_valid_damage [OF assms(2,4,5)]
  show ?thesis by auto
qed

end

end
