(* ===== verification/Flash_Oper.thy ===== *)
theory Flash_Oper
  imports Record_Area
begin

text \<open>
  \<^verbatim>\<open>dataflash/Flash_Oper.c\<close>: the record areas of the flash. Every area is a ring of
  fixed size slots; the first slot of a sector erases the sector before it is written.
  A slot whose first byte is \<open>0xFF\<close> is empty, and a stored record ends with the
  exclusive-or of its other bytes.

  An operation takes the global state of the storage subsystem and returns its result and
  the new state; a read also returns the buffer it filled. Record lengths are at least 1
  (the code reads the last byte of the record) and at most 256 where the checksum loop
  counts in a \<^verbatim>\<open>u8\<close>.
\<close>

section \<open>The cycle area: positions waiting to be sent\<close>

definition SaveCycleSub_1_RdSaveOperate ::
  "nat \<Rightarrow> nat \<Rightarrow> bytes \<Rightarrow> nat \<Rightarrow> store \<Rightarrow> bool \<times> store" where
  "SaveCycleSub_1_RdSaveOperate page_counter page_offset p len s =
     (True, s\<lparr>Current_State := 0,
              flash := DF_WriteFlashDirect page_counter page_offset p len (flash s)\<rparr>)"

definition SaveCycleSub_2_FCS_read_judge :: "nat \<Rightarrow> nat \<Rightarrow> store \<Rightarrow> bool" where
  "SaveCycleSub_2_FCS_read_judge page_counter page_offset s =
     (let reg = DF_ReadFlash page_counter page_offset 31 (flash s)
      in if reg ! 0 = 0xFF \<and> reg ! 1 = 0xFF then False
         else reg ! 30 = xor_sum (take 30 reg))"

text \<open>The failure block that both branches of \<open>SaveCycleGPS\<close> end with.\<close>

definition SaveCycle_abnormal :: "nat \<Rightarrow> store \<Rightarrow> store" where
  "SaveCycle_abnormal pageoffset s =
     (let s1 = s\<lparr>cycle_write := ring_inc Max_CycleNum (cycle_write s),
                 cycle_writeAbnormal_counter := u32 (cycle_writeAbnormal_counter s + 1)\<rparr>
      in if cycle_writeAbnormal_counter s1 > 3
         then s1\<lparr>flash := nor_erase sector_size
                   (u32 ((pageoffset + CycleStart_offset) * PageSIZE)) (flash s1),
                 cycle_writeAbnormal_counter := 0\<rparr>
         else s1)"

definition SaveCycleGPS :: "nat \<Rightarrow> bytes \<Rightarrow> nat \<Rightarrow> store \<Rightarrow> bool \<times> store" where
  "SaveCycleGPS cyclewr content saveLen s =
     (let pageoffset = cycle_write s div 16;
          InPageoffset = cycle_write s - pageoffset * 16;
          InPageAddr = u16 (InPageoffset * 32);
          s1 = (if pageoffset mod 8 = 0 \<and> InPageoffset = 0
                then s\<lparr>flash := nor_erase sector_size
                         (u32 ((pageoffset + CycleStart_offset) * PageSIZE)) (flash s)\<rparr>
                else s);
          page = pageoffset + CycleStart_offset
      in case SaveCycleSub_1_RdSaveOperate page InPageAddr content saveLen s1 of
           (True, s2) \<Rightarrow>
             if \<not> SaveCycleSub_2_FCS_read_judge page InPageAddr s2
             then (False, SaveCycle_abnormal pageoffset s2)
             else (True, s2\<lparr>cycle_writeAbnormal_counter := 0\<rparr>)
         | (False, s2) \<Rightarrow>
             (case SaveCycleSub_1_RdSaveOperate page InPageAddr content saveLen s2 of
                (True, s3) \<Rightarrow>
                  if SaveCycleSub_2_FCS_read_judge page InPageAddr s3 then (True, s3)
                  else (False, SaveCycle_abnormal pageoffset s3)
              | (False, s3) \<Rightarrow> (False, SaveCycle_abnormal pageoffset s3)))"

definition ReadCycle_skip :: "store \<Rightarrow> store" where
  "ReadCycle_skip s =
     s\<lparr>cycle_read := ring_inc Max_CycleNum (cycle_read s),
       ReadCycle_status := RdCycle_Idle, PositionInfo_sdFlag := 1,
       Current_UDP_sd := 1, ReadFail_sd_current := 1\<rparr>"

definition ReadCycleGPS :: "nat \<Rightarrow> nat \<Rightarrow> store \<Rightarrow> bool \<times> bytes \<times> store" where
  "ReadCycleGPS cycleread ReadLen s =
     (let pageoffset = cycle_read s div 16;
          InPageoffset = cycle_read s - pageoffset * 16;
          InPageAddr = u16 (InPageoffset * 32);
          content = DF_ReadFlash (pageoffset + CycleStart_offset) InPageAddr ReadLen (flash s);
          FCS = xor_sum (take (ReadLen - 1) content)
      in if (content ! (ReadLen - 1) \<noteq> FCS \<and> content ! 0 \<noteq> 0xFF \<and> content ! 1 \<noteq> 0xFF)
            \<or> content ! 0 = 0xFF
         then (False, content, ReadCycle_skip s)
         else if content ! 0 = 0 \<and> content ! 1 = 0xFF
         then (False, content, ReadCycle_skip s)
         else (True, content, s))"

definition CHK_ReadCycle_status :: "store \<Rightarrow> store" where
  "CHK_ReadCycle_status s =
     (if RdCycle_Idle = ReadCycle_status s
      then if cycle_write s \<noteq> cycle_read s
           then s\<lparr>ReadCycle_status := RdCycle_RdytoSD\<rparr>
           else s\<lparr>ReadCycle_status := RdCycle_Idle\<rparr>
      else s)"

section \<open>The accident recorder area\<close>

definition Save_DrvRecoder :: "nat \<Rightarrow> bytes \<Rightarrow> nat \<Rightarrow> store \<Rightarrow> bool \<times> store" where
  "Save_DrvRecoder In_write content saveLen s =
     (let pageoffset = In_write div 2;
          InPageoffset = In_write - pageoffset * 2;
          InPageAddr = u16 (InPageoffset * 256);
          s1 = (if pageoffset mod 8 = 0 \<and> InPageoffset = 0
                then s\<lparr>flash := nor_erase sector_size
                         (u32 ((pageoffset + VehicleRecStart_offset) * PageSIZE)) (flash s)\<rparr>
                else s);
          reg = DF_ReadFlash (pageoffset + VehicleRecStart_offset) InPageAddr 1 (flash s1)
      in if reg ! 0 \<noteq> 0xFF
         then (False, s1\<lparr>Recorder_write := ring_inc Max_RecoderNum (Recorder_write s1)\<rparr>)
         else (True, s1\<lparr>flash := DF_WriteFlashDirect (pageoffset + VehicleRecStart_offset)
                 InPageAddr content saveLen (flash s1)\<rparr>))"

definition Read_DrvRecoder :: "nat \<Rightarrow> nat \<Rightarrow> store \<Rightarrow> bool \<times> bytes \<times> store" where
  "Read_DrvRecoder In_read ReadLen s =
     (let pageoffset = In_read div 2;
          InPageoffset = In_read - pageoffset * 2;
          InPageAddr = u16 (InPageoffset * 256);
          content = DF_ReadFlash (pageoffset + VehicleRecStart_offset) InPageAddr ReadLen (flash s);
          FCS = xor_sum (take (ReadLen - 1) content)
      in if (content ! (ReadLen - 1) \<noteq> FCS \<and> content ! 0 \<noteq> 0xFF) \<or> content ! 0 = 0xFF
         then if content ! 0 = 0xFF
              then (False, content, s\<lparr>Recorder_Read := Recorder_write s\<rparr>)
              else (False, content,
                    s\<lparr>Recorder_Read := ring_inc Max_RecoderNum (Recorder_Read s)\<rparr>)
         else if content ! 0 = 0xFF
         then (False, content, s\<lparr>Recorder_Read := Recorder_write s\<rparr>)
         else (True, content, s))"

section \<open>The common areas\<close>

text \<open>The \<^verbatim>\<open>switch\<close> over the record type that both common operations start with.\<close>

definition Common_Start_offset :: "nat \<Rightarrow> nat option" where
  "Common_Start_offset Type =
     (if Type = TYPE_TiredDrvAdd then Some TiredDrvStart_offset
      else if Type = TYPE_ExpSpdAdd then Some ExpSpdStart_offset
      else if Type = TYPE_AccFireAdd then Some AccWorkOnStart_offset
      else if Type = TYPE_ErrorLogAdd then Some AbNormalStart_offset
      else if Type = TYPE_LogInAdd then Some LogIn_offset
      else if Type = TYPE_PowerCutAdd then Some PowerCut_offset
      else if Type = TYPE_SettingChgAdd then Some SettingChg_offset
      else None)"

definition Common_set_write :: "nat \<Rightarrow> nat \<Rightarrow> store \<Rightarrow> bool \<times> store" where
  "Common_set_write Type In_write s =
     (if Type = TYPE_TiredDrvAdd then (True, s\<lparr>TiredDrv_write := In_write\<rparr>)
      else if Type = TYPE_ExpSpdAdd then (True, s\<lparr>ExpSpdRec_write := In_write\<rparr>)
      else if Type = TYPE_AccFireAdd then (True, s\<lparr>OnFireRec_write := In_write\<rparr>)
      else if Type = TYPE_AvrgSpdAdd then (True, s\<lparr>AvrgSpdPerMin_write := In_write\<rparr>)
      else if Type = TYPE_ErrorLogAdd then (True, s\<lparr>ErrorLog_write := In_write\<rparr>)
      else if Type = TYPE_LogInAdd then (True, s\<lparr>Login_write := In_write\<rparr>)
      else if Type = TYPE_PowerCutAdd then (True, s\<lparr>Powercut_write := In_write\<rparr>)
      else if Type = TYPE_SettingChgAdd then (True, s\<lparr>Settingchg_write := In_write\<rparr>)
      else (False, s))"

definition Common_set_read :: "nat \<Rightarrow> nat \<Rightarrow> store \<Rightarrow> bool \<times> store" where
  "Common_set_read Type In_read s =
     (if Type = TYPE_TiredDrvAdd then (True, s\<lparr>TiredDrv_read := In_read\<rparr>)
      else if Type = TYPE_ExpSpdAdd then (True, s\<lparr>ExpSpdRec_read := In_read\<rparr>)
      else if Type = TYPE_AccFireAdd then (True, s\<lparr>OnFireRec_read := In_read\<rparr>)
      else if Type = TYPE_AvrgSpdAdd then (True, s\<lparr>AvrgSpdPerMin_Read := In_read\<rparr>)
      else if Type = TYPE_ErrorLogAdd then (True, s\<lparr>ErrorLog_Read := In_read\<rparr>)
      else if Type = TYPE_LogInAdd then (True, s\<lparr>Login_Read := In_read\<rparr>)
      else if Type = TYPE_PowerCutAdd then (True, s\<lparr>Powercut_read := In_read\<rparr>)
      else if Type = TYPE_SettingChgAdd then (True, s\<lparr>Settingchg_read := In_read\<rparr>)
      else (False, s))"

text \<open>An empty slot: the read slot number catches up with the write slot number.\<close>

definition Common_catch_up :: "nat \<Rightarrow> store \<Rightarrow> store" where
  "Common_catch_up Type s =
     (if Type = TYPE_TiredDrvAdd then s\<lparr>TiredDrv_read := TiredDrv_write s\<rparr>
      else if Type = TYPE_ExpSpdAdd then s\<lparr>ExpSpdRec_read := ExpSpdRec_write s\<rparr>
      else if Type = TYPE_AccFireAdd then s\<lparr>OnFireRec_read := OnFireRec_write s\<rparr>
      else if Type = TYPE_AvrgSpdAdd then s\<lparr>AvrgSpdPerMin_Read := AvrgSpdPerMin_write s\<rparr>
      else if Type = TYPE_ErrorLogAdd then s\<lparr>ErrorLog_Read := ErrorLog_write s\<rparr>
      else if Type = TYPE_LogInAdd then s\<lparr>Login_Read := Login_write s\<rparr>
      else if Type = TYPE_PowerCutAdd then s\<lparr>Powercut_read := Powercut_write s\<rparr>
      else if Type = TYPE_SettingChgAdd then s\<lparr>Settingchg_read := Settingchg_write s\<rparr>
      else s)"

definition Common_WriteContent :: "nat \<Rightarrow> bytes \<Rightarrow> nat \<Rightarrow> nat \<Rightarrow> store \<Rightarrow> bool \<times> store" where
  "Common_WriteContent In_write content saveLen Type s =
     (case Common_Start_offset Type of
        None \<Rightarrow> (False, s)
      | Some Start_offset \<Rightarrow>
          let pageoffset = In_write div 16;
              InPageoffset = In_write - pageoffset * 16;
              InPageAddr = u16 (InPageoffset * 32);
              s1 = (if pageoffset mod 8 = 0 \<and> InPageoffset = 0
                    then s\<lparr>flash := nor_erase sector_size
                             (u32 ((pageoffset + Start_offset) * PageSIZE)) (flash s)\<rparr>
                    else s);
              reg = DF_ReadFlash (pageoffset + Start_offset) InPageAddr 1 (flash s1)
          in if reg ! 0 \<noteq> 0xFF then (False, s1)
             else Common_set_write Type In_write
                    (s1\<lparr>flash := DF_WriteFlashDirect (pageoffset + Start_offset) InPageAddr
                           content saveLen (flash s1)\<rparr>))"

definition Common_ReadContent :: "nat \<Rightarrow> nat \<Rightarrow> nat \<Rightarrow> store \<Rightarrow> bool \<times> bytes \<times> store" where
  "Common_ReadContent In_read ReadLen Type s =
     (case Common_Start_offset Type of
        None \<Rightarrow> (False, [], s)
      | Some Start_offset \<Rightarrow>
          let pageoffset = In_read div 16;
              InPageoffset = In_read - pageoffset * 16;
              InPageAddr = u16 (InPageoffset * 32);
              content = DF_ReadFlash (pageoffset + Start_offset) InPageAddr ReadLen (flash s);
              FCS = xor_sum (take (ReadLen - 1) content)
          in if (content ! (ReadLen - 1) \<noteq> FCS \<and> content ! 0 \<noteq> 0xFF) \<or> content ! 0 = 0xFF
             then if content ! 0 = 0xFF then (False, content, Common_catch_up Type s)
                  else (False, content, s)
             else if content ! 0 = 0xFF then (False, content, Common_catch_up Type s)
             else (case Common_set_read Type In_read s of (ret, s') \<Rightarrow> (ret, content, s')))"

section \<open>Speed per minute, speed per second, position per hour\<close>

definition Save_PerMinContent :: "nat \<Rightarrow> bytes \<Rightarrow> nat \<Rightarrow> store \<Rightarrow> bool \<times> store" where
  "Save_PerMinContent In_wr content saveLen s =
     (let pageoffset = In_wr div 7;
          InPageoffset = In_wr - pageoffset * 7;
          InPageAddr = u16 (InPageoffset * 70);
          s1 = (if pageoffset mod 8 = 0 \<and> InPageoffset = 0
                then s\<lparr>flash := nor_erase sector_size
                         (u32 ((pageoffset + AverageSpdStart_offset) * PageSIZE)) (flash s)\<rparr>
                else s);
          reg = DF_ReadFlash (pageoffset + AverageSpdStart_offset) InPageAddr 1 (flash s1)
      in if reg ! 0 \<noteq> 0xFF
         then (False, s1\<lparr>AvrgSpdPerMin_write :=
                 ring_inc Max_SPDSperMin (AvrgSpdPerMin_write s1)\<rparr>)
         else (True, s1\<lparr>flash := DF_WriteFlashDirect (pageoffset + AverageSpdStart_offset)
                 InPageAddr content saveLen (flash s1)\<rparr>))"

definition Read_PerMinContent :: "nat \<Rightarrow> nat \<Rightarrow> store \<Rightarrow> bool \<times> bytes \<times> store" where
  "Read_PerMinContent In_read ReadLen s =
     (let pageoffset = In_read div 7;
          InPageoffset = In_read - pageoffset * 7;
          InPageAddr = u16 (InPageoffset * 70);
          content = DF_ReadFlash (pageoffset + AverageSpdStart_offset) InPageAddr ReadLen (flash s);
          FCS = xor_sum (take (ReadLen - 1) content)
      in if (content ! (ReadLen - 1) \<noteq> FCS \<and> content ! 0 \<noteq> 0xFF) \<or> content ! 0 = 0xFF
         then if content ! 0 = 0xFF
              then (False, content, s\<lparr>AvrgSpdPerMin_Read := AvrgSpdPerMin_write s\<rparr>)
              else (False, content,
                    s\<lparr>AvrgSpdPerMin_Read := ring_inc Max_SPDSperMin (AvrgSpdPerMin_Read s)\<rparr>)
         else if content ! 0 = 0xFF
         then (False, content, s\<lparr>AvrgSpdPerMin_Read := AvrgSpdPerMin_write s\<rparr>)
         else (True, content, s))"

definition Save_PerSecContent :: "nat \<Rightarrow> bytes \<Rightarrow> nat \<Rightarrow> store \<Rightarrow> bool \<times> store" where
  "Save_PerSecContent In_wr content saveLen s =
     (let pageoffset = In_wr div 7;
          InPageoffset = In_wr - pageoffset * 7;
          InPageAddr = u16 (InPageoffset * 70);
          s1 = (if pageoffset mod 8 = 0 \<and> InPageoffset = 0
                then s\<lparr>flash := nor_erase sector_size
                         (u32 ((pageoffset + AvrgSpdSec_offset) * PageSIZE)) (flash s)\<rparr>
                else s);
          reg = DF_ReadFlash (pageoffset + AvrgSpdSec_offset) InPageAddr 1 (flash s1)
      in if reg ! 0 \<noteq> 0xFF
         then (False, s1\<lparr>AvrgSpdPerSec_write :=
                 ring_inc Max_SPDerSec (AvrgSpdPerSec_write s1)\<rparr>)
         else (True, s1\<lparr>flash := DF_WriteFlashDirect (pageoffset + AvrgSpdSec_offset)
                 InPageAddr content saveLen (flash s1)\<rparr>))"

definition Read_PerSecContent :: "nat \<Rightarrow> nat \<Rightarrow> store \<Rightarrow> bool \<times> bytes \<times> store" where
  "Read_PerSecContent In_read ReadLen s =
     (let pageoffset = In_read div 7;
          InPageoffset = In_read - pageoffset * 7;
          InPageAddr = u16 (InPageoffset * 70);
          content = DF_ReadFlash (pageoffset + AvrgSpdSec_offset) InPageAddr ReadLen (flash s);
          FCS = xor_sum (take (ReadLen - 1) content)
      in if (content ! (ReadLen - 1) \<noteq> FCS \<and> content ! 0 \<noteq> 0xFF) \<or> content ! 0 = 0xFF
         then if content ! 0 = 0xFF
              then (False, content, s\<lparr>AvrgSpdPerSec_Read := AvrgSpdPerSec_write s\<rparr>)
              else (False, content,
                    s\<lparr>AvrgSpdPerSec_Read := ring_inc Max_SPDerSec (AvrgSpdPerSec_Read s)\<rparr>)
         else if content ! 0 = 0xFF
         then (False, content, s\<lparr>AvrgSpdPerSec_Read := AvrgSpdPerSec_write s\<rparr>)
         else (True, content, s))"

definition Save_MintPosition :: "nat \<Rightarrow> bytes \<Rightarrow> nat \<Rightarrow> store \<Rightarrow> bool \<times> store" where
  "Save_MintPosition In_write content saveLen s =
     (let pageoffset = In_write;
          s1 = (if pageoffset mod 8 = 0
                then s\<lparr>flash := nor_erase sector_size
                         (u32 ((pageoffset + AvrgMintPosit_offset) * PageSIZE)) (flash s)\<rparr>
                else s);
          reg = DF_ReadFlash (pageoffset + AvrgMintPosit_offset) 0 1 (flash s1)
      in if reg ! 0 \<noteq> 0xFF
         then (False, s1\<lparr>AvrgMintPosit_write := ring_inc Max_MintPos (AvrgMintPosit_write s1)\<rparr>)
         else (True, s1\<lparr>flash := DF_WriteFlashDirect (pageoffset + AvrgMintPosit_offset)
                 0 content saveLen (flash s1)\<rparr>))"

definition Read_MintPosition :: "nat \<Rightarrow> nat \<Rightarrow> store \<Rightarrow> bool \<times> bytes \<times> store" where
  "Read_MintPosition In_read ReadLen s =
     (let content = DF_ReadFlash (In_read + AvrgMintPosit_offset) 0 ReadLen (flash s);
          FCS = xor_sum (take (ReadLen - 1) content)
      in if (content ! (ReadLen - 1) \<noteq> FCS \<and> content ! 0 \<noteq> 0xFF) \<or> content ! 0 = 0xFF
         then if content ! 0 = 0xFF
              then (False, content, s\<lparr>AvrgMintPosit_Read := AvrgMintPosit_write s\<rparr>)
              else (False, content,
                    s\<lparr>AvrgMintPosit_Read := ring_inc Max_MintPos (AvrgMintPosit_Read s)\<rparr>)
         else if content ! 0 = 0xFF
         then (False, content, s\<lparr>AvrgMintPosit_Read := AvrgMintPosit_write s\<rparr>)
         else (True, content, s))"

section \<open>Login, power cut and setting change records\<close>

text \<open>The globals of other modules that \<open>Save_Common\<close> copies into a record.\<close>

record common_info =
  regDateTime :: bytes
  DriverCard_ID :: bytes
  Login_Status :: u8
  Powercut_Status :: u8
  Settingchg_Status :: u8

definition Save_Common :: "common_info \<Rightarrow> nat \<Rightarrow> nat \<Rightarrow> store \<Rightarrow> store" where
  "Save_Common e In_write Type s =
     (let head = (if Type = TYPE_ExpSpdAdd \<or> Type = TYPE_TiredDrvAdd \<or> Type = TYPE_AccFireAdd
                  then Some []
                  else if Type = TYPE_LogInAdd \<or> Type = TYPE_PowerCutAdd \<or> Type = TYPE_SettingChgAdd
                  then Some (take 6 (regDateTime e) @ take 18 (DriverCard_ID e) @
                     [if Type = TYPE_LogInAdd then Login_Status e
                      else if Type = TYPE_PowerCutAdd then Powercut_Status e
                      else Settingchg_Status e])
                  else None)
      in case head of
           None \<Rightarrow> s
         | Some c \<Rightarrow>
             let content = c @ replicate (32 - length c) 0;
                 FCS = xor_sum content;
                 wr_add = length c + 1
             in snd (Common_WriteContent In_write (content[length c := FCS]) wr_add Type s))"

section \<open>The areas as rings of slots\<close>

interpretation cyc: ring_area CycleStart_offset 16 32 Max_CycleNum
  by unfold_locales simp_all

interpretation drv_ring: ring_area VehicleRecStart_offset 2 256 Max_RecoderNum
  by unfold_locales simp_all

interpretation min_ring: ring_area AverageSpdStart_offset 7 70 Max_SPDSperMin
  by unfold_locales simp_all

interpretation sec_ring: ring_area AvrgSpdSec_offset 7 70 Max_SPDerSec
  by unfold_locales simp_all

interpretation pos_ring: ring_area AvrgMintPosit_offset 1 512 Max_MintPos
  by unfold_locales simp_all

text \<open>
  The save and read operations of each area in terms of slots; the read operations accept a
  record exactly when \<open>rec_valid\<close> holds of it.
\<close>

lemma slot_read_first:
  "0 < len \<Longrightarrow> slot_read start per sz len n f ! 0 = nor_read f (slot_addr start per sz n)"
  by (simp add: slot_read_def)

lemma slot_read_Nil [simp]: "(slot_read start per sz len n f = []) = (len = 0)"
  by (simp flip: length_0_conv)

lemma Save_DrvRecoder_slot:
  assumes "n < Max_RecoderNum" and "len \<le> 256"
  shows "Save_DrvRecoder n b len s =
    (let f = slot_open VehicleRecStart_offset 2 256 n (flash s)
     in if nor_read f (slot_addr VehicleRecStart_offset 2 256 n) \<noteq> 0xFF
        then (False, s\<lparr>flash := f, Recorder_write := ring_inc Max_RecoderNum (Recorder_write s)\<rparr>)
        else (True, s\<lparr>flash := slot_write VehicleRecStart_offset 2 256 n (take len b) (flash s)\<rparr>))"
  using assms unfolding Save_DrvRecoder_def Let_def drv_ring.open_store [OF assms(1)]
  by (simp add: drv_ring.DF_ReadFlash_slot drv_ring.DF_WriteFlashDirect_slot slot_read_first slot_write_def)

lemma Read_DrvRecoder_slot:
  assumes "n < Max_RecoderNum" and "0 < len" and "len \<le> 256"
  shows "Read_DrvRecoder n len s =
    (let c = slot_read VehicleRecStart_offset 2 256 len n (flash s)
     in if rec_valid c then (True, c, s)
        else if c ! 0 = 0xFF then (False, c, s\<lparr>Recorder_Read := Recorder_write s\<rparr>)
        else (False, c, s\<lparr>Recorder_Read := ring_inc Max_RecoderNum (Recorder_Read s)\<rparr>))"
  using assms unfolding Read_DrvRecoder_def Let_def
  by (auto simp: drv_ring.DF_ReadFlash_slot rec_valid_def)

interpretation drv: record_ops VehicleRecStart_offset 2 256 Max_RecoderNum flash
  Save_DrvRecoder Read_DrvRecoder
  by unfold_locales (simp_all add: Save_DrvRecoder_slot Read_DrvRecoder_slot Let_def)

lemma Save_PerMinContent_slot:
  assumes "n < Max_SPDSperMin" and "len \<le> 70"
  shows "Save_PerMinContent n b len s =
    (let f = slot_open AverageSpdStart_offset 7 70 n (flash s)
     in if nor_read f (slot_addr AverageSpdStart_offset 7 70 n) \<noteq> 0xFF
        then (False, s\<lparr>flash := f, AvrgSpdPerMin_write := ring_inc Max_SPDSperMin (AvrgSpdPerMin_write s)\<rparr>)
        else (True, s\<lparr>flash := slot_write AverageSpdStart_offset 7 70 n (take len b) (flash s)\<rparr>))"
  using assms unfolding Save_PerMinContent_def Let_def min_ring.open_store [OF assms(1)]
  by (simp add: min_ring.DF_ReadFlash_slot min_ring.DF_WriteFlashDirect_slot slot_read_first slot_write_def)

lemma Read_PerMinContent_slot:
  assumes "n < Max_SPDSperMin" and "0 < len" and "len \<le> 70"
  shows "Read_PerMinContent n len s =
    (let c = slot_read AverageSpdStart_offset 7 70 len n (flash s)
     in if rec_valid c then (True, c, s)
        else if c ! 0 = 0xFF then (False, c, s\<lparr>AvrgSpdPerMin_Read := AvrgSpdPerMin_write s\<rparr>)
        else (False, c, s\<lparr>AvrgSpdPerMin_Read := ring_inc Max_SPDSperMin (AvrgSpdPerMin_Read s)\<rparr>))"
  using assms unfolding Read_PerMinContent_def Let_def
  by (auto simp: min_ring.DF_ReadFlash_slot rec_valid_def)

interpretation permin: record_ops AverageSpdStart_offset 7 70 Max_SPDSperMin flash
  Save_PerMinContent Read_PerMinContent
  by unfold_locales (simp_all add: Save_PerMinContent_slot Read_PerMinContent_slot Let_def)

lemma Save_PerSecContent_slot:
  assumes "n < Max_SPDerSec" and "len \<le> 70"
  shows "Save_PerSecContent n b len s =
    (let f = slot_open AvrgSpdSec_offset 7 70 n (flash s)
     in if nor_read f (slot_addr AvrgSpdSec_offset 7 70 n) \<noteq> 0xFF
        then (False, s\<lparr>flash := f, AvrgSpdPerSec_write := ring_inc Max_SPDerSec (AvrgSpdPerSec_write s)\<rparr>)
        else (True, s\<lparr>flash := slot_write AvrgSpdSec_offset 7 70 n (take len b) (flash s)\<rparr>))"
  using assms unfolding Save_PerSecContent_def Let_def sec_ring.open_store [OF assms(1)]
  by (simp add: sec_ring.DF_ReadFlash_slot sec_ring.DF_WriteFlashDirect_slot slot_read_first slot_write_def)

lemma Read_PerSecContent_slot:
  assumes "n < Max_SPDerSec" and "0 < len" and "len \<le> 70"
  shows "Read_PerSecContent n len s =
    (let c = slot_read AvrgSpdSec_offset 7 70 len n (flash s)
     in if rec_valid c then (True, c, s)
        else if c ! 0 = 0xFF then (False, c, s\<lparr>AvrgSpdPerSec_Read := AvrgSpdPerSec_write s\<rparr>)
        else (False, c, s\<lparr>AvrgSpdPerSec_Read := ring_inc Max_SPDerSec (AvrgSpdPerSec_Read s)\<rparr>))"
  using assms unfolding Read_PerSecContent_def Let_def
  by (auto simp: sec_ring.DF_ReadFlash_slot rec_valid_def)

interpretation persec: record_ops AvrgSpdSec_offset 7 70 Max_SPDerSec flash
  Save_PerSecContent Read_PerSecContent
  by unfold_locales (simp_all add: Save_PerSecContent_slot Read_PerSecContent_slot Let_def)

lemma MintPos_slot:
  assumes "n < Max_MintPos" and "len < 65536"
  shows "DF_ReadFlash (n + AvrgMintPosit_offset) 0 len f = slot_read AvrgMintPosit_offset 1 512 len n f"
    and "DF_WriteFlashDirect (n + AvrgMintPosit_offset) 0 p len f =
      prog_all nor_program (slot_addr AvrgMintPosit_offset 1 512 n) (take len p) f"
    and "(if n mod 8 = 0
      then s\<lparr>flash := nor_erase sector_size (u32 ((n + AvrgMintPosit_offset) * PageSIZE)) (flash s)\<rparr> else s) =
      s\<lparr>flash := slot_open AvrgMintPosit_offset 1 512 n (flash s)\<rparr>"
  using pos_ring.DF_ReadFlash_slot [OF assms] pos_ring.DF_WriteFlashDirect_slot [OF assms]
    pos_ring.open_store [OF assms(1), of s]
  by (simp_all add: u16_def del: distrib_right_numeral split: if_splits)

lemma Save_MintPosition_slot:
  assumes "n < Max_MintPos" and "len \<le> 512"
  shows "Save_MintPosition n b len s =
    (let f = slot_open AvrgMintPosit_offset 1 512 n (flash s)
     in if nor_read f (slot_addr AvrgMintPosit_offset 1 512 n) \<noteq> 0xFF
        then (False, s\<lparr>flash := f, AvrgMintPosit_write := ring_inc Max_MintPos (AvrgMintPosit_write s)\<rparr>)
        else (True, s\<lparr>flash := slot_write AvrgMintPosit_offset 1 512 n (take len b) (flash s)\<rparr>))"
  using assms unfolding Save_MintPosition_def Let_def MintPos_slot(3) [OF assms(1), of 0, simplified]
  by (simp add: MintPos_slot [simplified] slot_read_first slot_write_def)

lemma Read_MintPosition_slot:
  assumes "n < Max_MintPos" and "0 < len" and "len \<le> 512"
  shows "Read_MintPosition n len s =
    (let c = slot_read AvrgMintPosit_offset 1 512 len n (flash s)
     in if rec_valid c then (True, c, s)
        else if c ! 0 = 0xFF then (False, c, s\<lparr>AvrgMintPosit_Read := AvrgMintPosit_write s\<rparr>)
        else (False, c, s\<lparr>AvrgMintPosit_Read := ring_inc Max_MintPos (AvrgMintPosit_Read s)\<rparr>))"
  using assms unfolding Read_MintPosition_def Let_def
  by (auto simp: MintPos_slot(1) rec_valid_def)

interpretation mintpos: record_ops AvrgMintPosit_offset 1 512 Max_MintPos flash
  Save_MintPosition Read_MintPosition
  by unfold_locales (simp_all add: Save_MintPosition_slot Read_MintPosition_slot Let_def)

text \<open>The common areas; the error log area is left out, its start page is not sector aligned.\<close>

lemma common_ring:
  assumes "Common_Start_offset t = Some st" and "t \<noteq> TYPE_ErrorLogAdd"
  shows "ring_area st 16 32 Max_CommonNum"
  using assms by unfold_locales (auto simp: Common_Start_offset_def split: if_splits)

lemma Common_set_write_flash:
  assumes "Common_Start_offset t = Some st"
  shows "\<exists>s'. Common_set_write t n s = (True, s') \<and> flash s' = flash s"
  using assms by (auto simp: Common_Start_offset_def Common_set_write_def split: if_splits)

lemma Common_set_read_flash:
  assumes "Common_Start_offset t = Some st"
  shows "\<exists>s'. Common_set_read t n s = (True, s') \<and> flash s' = flash s"
  using assms by (auto simp: Common_Start_offset_def Common_set_read_def split: if_splits)

lemma Common_catch_up_flash [simp]: "flash (Common_catch_up t s) = flash s"
  by (simp add: Common_catch_up_def)

lemma Common_WriteContent_slot:
  assumes t: "Common_Start_offset t = Some st" "t \<noteq> TYPE_ErrorLogAdd"
    and "n < Max_CommonNum" and "len \<le> 32"
  shows "Common_WriteContent n b len t s =
    (let f = slot_open st 16 32 n (flash s)
     in if nor_read f (slot_addr st 16 32 n) \<noteq> 0xFF then (False, s\<lparr>flash := f\<rparr>)
        else Common_set_write t n (s\<lparr>flash := slot_write st 16 32 n (take len b) (flash s)\<rparr>))"
proof -
  note area = ring_area.axioms(1) [OF common_ring [OF t]]
  show ?thesis
    using assms(3,4)
    unfolding Common_WriteContent_def Let_def t(1) option.case slot_area.open_store [OF area assms(3)]
    by (simp add: slot_area.DF_ReadFlash_slot [OF area] slot_area.DF_WriteFlashDirect_slot [OF area]
        slot_read_first slot_write_def)
qed

lemma Common_ReadContent_slot:
  assumes t: "Common_Start_offset t = Some st" "t \<noteq> TYPE_ErrorLogAdd"
    and "n < Max_CommonNum" and "0 < len" and "len \<le> 32"
  shows "Common_ReadContent n len t s =
    (let c = slot_read st 16 32 len n (flash s)
     in if rec_valid c then (case Common_set_read t n s of (ret, s') \<Rightarrow> (ret, c, s'))
        else if c ! 0 = 0xFF then (False, c, Common_catch_up t s) else (False, c, s))"
proof -
  note area = ring_area.axioms(1) [OF common_ring [OF t]]
  show ?thesis
    using assms unfolding Common_ReadContent_def Let_def
    by (auto simp: slot_area.DF_ReadFlash_slot [OF area] rec_valid_def)
qed

lemma common_ops:
  assumes t: "Common_Start_offset t = Some st" "t \<noteq> TYPE_ErrorLogAdd"
  shows "record_ops st 16 32 Max_CommonNum flash
    (\<lambda>n b len. Common_WriteContent n b len t) (\<lambda>n len. Common_ReadContent n len t)"
proof (rule record_ops.intro)
  show "ring_area st 16 32 Max_CommonNum" using t by (rule common_ring)
  show "record_ops_axioms st 16 32 Max_CommonNum flash
      (\<lambda>n b len. Common_WriteContent n b len t) (\<lambda>n len. Common_ReadContent n len t)"
  proof
    fix n len b s assume "n < Max_CommonNum" "len \<le> (32 :: nat)"
    then show "\<exists>s'. Common_WriteContent n b len t s =
        (nor_read (slot_open st 16 32 n (flash s)) (slot_addr st 16 32 n) = 0xFF, s') \<and>
        flash s' = (if fst (Common_WriteContent n b len t s)
          then slot_write st 16 32 n (take len b) (flash s) else slot_open st 16 32 n (flash s))"
      using Common_WriteContent_slot [OF t, of n len b s] Common_set_write_flash [OF t(1), of n
          "s\<lparr>flash := slot_write st 16 32 n (take len b) (flash s)\<rparr>"]
      by (auto simp: Let_def)
  next
    fix n len s assume "n < Max_CommonNum" "0 < len" "len \<le> (32 :: nat)"
    then show "\<exists>s'. Common_ReadContent n len t s = (rec_valid (slot_read st 16 32 len n (flash s)),
        slot_read st 16 32 len n (flash s), s') \<and> flash s' = flash s"
      using Common_set_read_flash [OF t(1), of n s] Common_ReadContent_slot [OF t, of n len s]
      by (auto simp: Let_def)
  qed
qed

interpretation tired: record_ops TiredDrvStart_offset 16 32 Max_CommonNum flash
  "\<lambda>n b len. Common_WriteContent n b len TYPE_TiredDrvAdd"
  "\<lambda>n len. Common_ReadContent n len TYPE_TiredDrvAdd"
  by (rule common_ops) (simp_all add: Common_Start_offset_def)

interpretation login: record_ops LogIn_offset 16 32 Max_CommonNum flash
  "\<lambda>n b len. Common_WriteContent n b len TYPE_LogInAdd"
  "\<lambda>n len. Common_ReadContent n len TYPE_LogInAdd"
  by (rule common_ops) (simp_all add: Common_Start_offset_def)

section \<open>The cycle area\<close>

abbreviation (input) cyc_addr :: "nat \<Rightarrow> nat" where
  "cyc_addr n \<equiv> slot_addr CycleStart_offset 16 32 n"

abbreviation cyc_read :: "nat \<Rightarrow> nat \<Rightarrow> flash \<Rightarrow> bytes" where
  "cyc_read len n f \<equiv> slot_read CycleStart_offset 16 32 len n f"

abbreviation cyc_write :: "nat \<Rightarrow> bytes \<Rightarrow> flash \<Rightarrow> flash" where
  "cyc_write n b f \<equiv> slot_write CycleStart_offset 16 32 n b f"

abbreviation cyc_ready :: "nat \<Rightarrow> flash \<Rightarrow> bool" where
  "cyc_ready n f \<equiv> slot_ready CycleStart_offset 16 32 Max_CycleNum n f"

text \<open>What \<open>SaveCycleGPS\<close> does with the slot of a record in range.\<close>

lemma SaveCycleGPS_slot:
  assumes "cycle_write s < Max_CycleNum" and "length b = 31"
  shows "SaveCycleGPS w b 31 s =
    (let n = cycle_write s; f = cyc_write n b (flash s); reg = cyc_read 31 n f;
         s2 = s\<lparr>Current_State := 0, flash := f\<rparr>
     in if (reg ! 0 = 0xFF \<and> reg ! 1 = 0xFF) \<or> reg ! 30 \<noteq> xor_sum (take 30 reg)
        then (False, SaveCycle_abnormal (n div 16) s2)
        else (True, s2\<lparr>cycle_writeAbnormal_counter := 0\<rparr>))"
  using assms(2)
  unfolding SaveCycleGPS_def Let_def cyc.open_store [OF assms(1)]
  by (simp add: SaveCycleSub_1_RdSaveOperate_def SaveCycleSub_2_FCS_read_judge_def Let_def
      cyc.DF_ReadFlash_slot [OF assms(1)] cyc.DF_WriteFlashDirect_slot [OF assms(1)] slot_write_def)

lemma SaveCycleGPS_ready:
  assumes "cycle_write s < Max_CycleNum" and "cyc_ready (cycle_write s) (flash s)"
    and "length b = 31" and "rec_valid b"
  shows "SaveCycleGPS w b 31 s =
    (True, s\<lparr>Current_State := 0, flash := cyc_write (cycle_write s) b (flash s),
             cycle_writeAbnormal_counter := 0\<rparr>)"
proof -
  have "cyc_read 31 (cycle_write s) (cyc_write (cycle_write s) b (flash s)) = b"
    using cyc.slot_read_write_same [OF assms(1,2), of b] assms(3) by simp
  moreover have "b ! 0 \<noteq> 0xFF" "b ! 30 = xor_sum (take 30 b)"
    using assms(3,4) by (simp_all add: rec_valid_def)
  ultimately show ?thesis
    using SaveCycleGPS_slot [OF assms(1,3), of w] by (simp add: Let_def)
qed

text \<open>Erasing the sector of the current slot leaves the next slot ready.\<close>

lemma cyc_erase_ready:
  assumes n: "n < Max_CycleNum"
  shows "cyc_ready (ring_inc Max_CycleNum n)
    (nor_erase sector_size (u32 ((n div 16 + CycleStart_offset) * PageSIZE)) f)"
proof (cases "ring_inc Max_CycleNum n mod 128 = 0")
  case True
  then show ?thesis by (simp add: slot_ready_def)
next
  case False
  let ?a = "(n div 16 + CycleStart_offset) * PageSIZE"
  have pg: "n div 16 + 1768 < 8192" using cyc.within [OF n] by simp
  then have a: "u32 ?a = ?a" "?a < chip_size" by (simp_all add: u32_small chip_size_def)
  have sect: "?a div 4096 = 221 + n div 128"
    using sector_of_page [of 0 "n div 16 + 1768"] by (simp flip: div_mult2_eq)
  have inc: "ring_inc Max_CycleNum n = n + 1" "n + 1 < 16384"
    using ring_inc_mod [OF n] False n by (cases "n + 1 = 16384"; simp)+
  with False have same: "(n + 1) div 128 = n div 128" by (simp add: div_Suc)
  have "nor_read (nor_erase sector_size ?a f) (cyc_addr m + k) = 0xFF"
    if "m < 16384" "m div 128 = n div 128" "k < 32" for m k
    using cyc.slot_range [OF that(1)] cyc.slot_sector [OF that(3), of m] that a sect
    by (intro nor_read_erase_sector) simp_all
  with same inc a show ?thesis by (simp add: slot_ready_def)
qed

text \<open>A sequence of saves in which every call uses the global write slot number.\<close>

fun SaveCycle_results :: "bytes list \<Rightarrow> store \<Rightarrow> bool list" where
  "SaveCycle_results [] s = []"
| "SaveCycle_results (b # bs) s =
     (case SaveCycleGPS (cycle_write s) b 31 s of (ret, s') \<Rightarrow> ret # SaveCycle_results bs s')"

lemma SaveCycleGPS_fails:
  assumes w: "cycle_write s < Max_CycleNum" and b: "length b = 31"
    and k: "cycle_writeAbnormal_counter s \<le> 3"
    and fail: "SaveCycleGPS v b 31 s = (False, s')"
  shows "cycle_write s' < Max_CycleNum"
    and "if cycle_writeAbnormal_counter s = 3 then cyc_ready (cycle_write s') (flash s')
         else cycle_writeAbnormal_counter s' = cycle_writeAbnormal_counter s + 1"
proof -
  let ?s2 = "s\<lparr>Current_State := 0, flash := cyc_write (cycle_write s) b (flash s)\<rparr>"
  have s': "s' = SaveCycle_abnormal (cycle_write s div 16) ?s2"
    using fail SaveCycleGPS_slot [OF w b, of v] by (auto simp: Let_def split: if_splits)
  show "cycle_write s' < Max_CycleNum"
    by (simp add: s' SaveCycle_abnormal_def Let_def ring_inc_less)
  have cnt: "u32 (cycle_writeAbnormal_counter s + 1) = cycle_writeAbnormal_counter s + 1"
    using k by (simp add: u32_small)
  show "if cycle_writeAbnormal_counter s = 3 then cyc_ready (cycle_write s') (flash s')
      else cycle_writeAbnormal_counter s' = cycle_writeAbnormal_counter s + 1"
    using cyc_erase_ready [OF w] k cnt by (simp add: s' SaveCycle_abnormal_def Let_def u32_def)
qed

lemma SaveCycle_results_progress:
  assumes "\<forall>b \<in> set bs. length b = 31 \<and> rec_valid b" and "cycle_write s < Max_CycleNum"
    and "cycle_writeAbnormal_counter s \<le> 3" and "5 - cycle_writeAbnormal_counter s \<le> length bs"
  shows "True \<in> set (SaveCycle_results bs s)"
  using assms
proof (induction bs arbitrary: s)
  case Nil
  then show ?case by simp
next
  case (Cons b bs)
  obtain ret s' where save: "SaveCycleGPS (cycle_write s) b 31 s = (ret, s')"
    by (cases "SaveCycleGPS (cycle_write s) b 31 s")
  show ?case
  proof (cases ret)
    case False
    note fails = SaveCycleGPS_fails [of s b "cycle_write s" s']
    show ?thesis
    proof (cases "cycle_writeAbnormal_counter s = 3")
      case True
      with Cons.prems(4) obtain b' bs' where bs: "bs = b' # bs'" by (cases bs) auto
      have "SaveCycleGPS (cycle_write s') b' 31 s' = (True, s'\<lparr>Current_State := 0,
          flash := cyc_write (cycle_write s') b' (flash s'),
          cycle_writeAbnormal_counter := 0\<rparr>)"
        using fails Cons.prems save False True bs by (intro SaveCycleGPS_ready) simp_all
      with save bs show ?thesis by simp
    next
      case nf: False
      have "True \<in> set (SaveCycle_results bs s')"
        using fails Cons.prems save False nf by (intro Cons.IH) simp_all
      with save show ?thesis by simp
    qed
  qed (use save in simp)
qed

text \<open>The read operation.\<close>

definition cycle_rec :: "bytes \<Rightarrow> bool" where
  "cycle_rec b = (length b = 31 \<and> rec_valid b \<and> \<not> (b ! 0 = 0 \<and> b ! 1 = 0xFF))"

lemma ReadCycleGPS_slot:
  assumes "cycle_read s < Max_CycleNum" and "cyc_read 31 (cycle_read s) (flash s) = b" and "cycle_rec b"
  shows "ReadCycleGPS r 31 s = (True, b, s)"
  using assms(2,3) unfolding ReadCycleGPS_def Let_def
  by (auto simp: cyc.DF_ReadFlash_slot [OF assms(1)] cycle_rec_def rec_valid_def)


section \<open>Properties of the record areas\<close>

text \<open>
  The cycle area recovers from dirty slots: whatever the flash holds, at least one of
  five consecutive saves of well formed position records succeeds, because the fourth
  failure in a row erases the sector the write slot number points into.
\<close>

theorem SaveCycleGPS_recovers:
  assumes "length bs = 5" and "\<forall>b \<in> set bs. length b = 31 \<and> rec_valid b"
    and "cycle_write s < Max_CycleNum" and "cycle_writeAbnormal_counter s \<le> 3"
  shows "True \<in> set (SaveCycle_results bs s)"
  using assms by (intro SaveCycle_results_progress) simp_all

theorem SaveCycleGPS_recovers_witness:
  "True \<in> set (SaveCycle_results (replicate 5 (1 # replicate 29 0 @ [1]))
     (blank_store\<lparr>flash := (\<lambda>_. 0), cycle_write := 5\<rparr>))"
proof -
  have "rec_valid (1 # replicate 29 0 @ [1])" by code_simp
  then show ?thesis by (intro SaveCycleGPS_recovers) (simp_all add: blank_store_def)
qed

lemma length_three: "length [a, b, c] = 3"
  by simp

text \<open>
  Accident records: a record of at most 256 bytes saved into a ready slot is read back
  with result true, the next slot is ready, and every slot outside an erased sector keeps
  its contents.
\<close>

theorem DrvRecoder_roundtrip:
  assumes "n < Max_RecoderNum" and "slot_ready VehicleRecStart_offset 2 256 Max_RecoderNum n (flash s)"
    and "length b \<le> 256" and "rec_valid b"
  shows "\<exists>s'. Save_DrvRecoder n b (length b) s = (True, s') \<and>
    (\<exists>s''. Read_DrvRecoder n (length b) s' = (True, b, s'') \<and> flash s'' = flash s') \<and>
    slot_ready VehicleRecStart_offset 2 256 Max_RecoderNum ((n + 1) mod Max_RecoderNum) (flash s') \<and>
    (\<forall>m < Max_RecoderNum. \<forall>len \<le> 256. m \<noteq> n \<and> (n mod (8 * 2) = 0 \<longrightarrow> m div (8 * 2) \<noteq> n div (8 * 2)) \<longrightarrow>
       slot_read VehicleRecStart_offset 2 256 len m (flash s') =
       slot_read VehicleRecStart_offset 2 256 len m (flash s))"
  using assms by (rule drv.roundtrip)

theorem DrvRecoder_roundtrip_witness:
  "\<exists>s'. Save_DrvRecoder 3 [0x12, 0x34, 0x26] 3 blank_store = (True, s') \<and>
    (\<exists>s''. Read_DrvRecoder 3 3 s' = (True, [0x12, 0x34, 0x26], s'') \<and> flash s'' = flash s')"
proof -
  have rdy: "slot_ready VehicleRecStart_offset 2 256 Max_RecoderNum 3 (flash blank_store)"
    by (simp add: slot_ready_def nor_read_def)
  have v: "rec_valid [0x12, 0x34, 0x26]" by (simp add: rec_valid_def)
  show ?thesis
    using DrvRecoder_roundtrip [OF _ rdy _ v, unfolded length_three] by auto
qed

text \<open>
  Minute speed records: seven records of 70 bytes to a page, with the same contract.
\<close>

theorem PerMinContent_roundtrip:
  assumes "n < Max_SPDSperMin" and "slot_ready AverageSpdStart_offset 7 70 Max_SPDSperMin n (flash s)"
    and "length b \<le> 70" and "rec_valid b"
  shows "\<exists>s'. Save_PerMinContent n b (length b) s = (True, s') \<and>
    (\<exists>s''. Read_PerMinContent n (length b) s' = (True, b, s'') \<and> flash s'' = flash s') \<and>
    slot_ready AverageSpdStart_offset 7 70 Max_SPDSperMin ((n + 1) mod Max_SPDSperMin) (flash s') \<and>
    (\<forall>m < Max_SPDSperMin. \<forall>len \<le> 70. m \<noteq> n \<and> (n mod (8 * 7) = 0 \<longrightarrow> m div (8 * 7) \<noteq> n div (8 * 7)) \<longrightarrow>
       slot_read AverageSpdStart_offset 7 70 len m (flash s') =
       slot_read AverageSpdStart_offset 7 70 len m (flash s))"
  using assms by (rule permin.roundtrip)

theorem PerMinContent_roundtrip_witness:
  "\<exists>s'. Save_PerMinContent 0 [0x12, 0x34, 0x26] 3 blank_store = (True, s') \<and>
    (\<exists>s''. Read_PerMinContent 0 3 s' = (True, [0x12, 0x34, 0x26], s'') \<and> flash s'' = flash s')"
proof -
  have rdy: "slot_ready AverageSpdStart_offset 7 70 Max_SPDSperMin 0 (flash blank_store)"
    by (simp add: slot_ready_def)
  have v: "rec_valid [0x12, 0x34, 0x26]" by (simp add: rec_valid_def)
  show ?thesis
    using PerMinContent_roundtrip [OF _ rdy _ v, unfolded length_three] by auto
qed

text \<open>
  Common records (tired driving, speeding, ignition, login, power cut, setting change):
  for every record type with a sector aligned area, a record of at most 32 bytes saved into
  a ready slot is read back and other slots are kept.
\<close>

theorem Common_Content_roundtrip:
  assumes "Common_Start_offset t = Some st" and "t \<noteq> TYPE_ErrorLogAdd"
    and "n < Max_CommonNum" and "slot_ready st 16 32 Max_CommonNum n (flash s)"
    and "length b \<le> 32" and "rec_valid b"
  shows "\<exists>s'. Common_WriteContent n b (length b) t s = (True, s') \<and>
    (\<exists>s''. Common_ReadContent n (length b) t s' = (True, b, s'') \<and> flash s'' = flash s') \<and>
    slot_ready st 16 32 Max_CommonNum ((n + 1) mod Max_CommonNum) (flash s') \<and>
    (\<forall>m < Max_CommonNum. \<forall>len \<le> 32. m \<noteq> n \<and> (n mod (8 * 16) = 0 \<longrightarrow> m div (8 * 16) \<noteq> n div (8 * 16)) \<longrightarrow>
       slot_read st 16 32 len m (flash s') = slot_read st 16 32 len m (flash s))"
  using assms(3-6) by (rule record_ops.roundtrip [OF common_ops [OF assms(1,2)]])

theorem Common_Content_roundtrip_witness:
  "\<exists>s'. Common_WriteContent 7 [0x12, 0x34, 0x26] 3 TYPE_LogInAdd blank_store = (True, s') \<and>
    (\<exists>s''. Common_ReadContent 7 3 TYPE_LogInAdd s' = (True, [0x12, 0x34, 0x26], s'') \<and>
       flash s'' = flash s')"
proof -
  have rdy: "slot_ready LogIn_offset 16 32 Max_CommonNum 7 (flash blank_store)"
    by (simp add: slot_ready_def nor_read_def)
  have v: "rec_valid [0x12, 0x34, 0x26]" by (simp add: rec_valid_def)
  have t: "Common_Start_offset TYPE_LogInAdd = Some LogIn_offset"
    by (simp add: Common_Start_offset_def)
  show ?thesis
    using Common_Content_roundtrip [OF t _ _ rdy _ v, unfolded length_three] by auto
qed

text \<open>
  A stored accident record with one damaged byte is rejected, and the read slot number
  moves on: to the next slot, or to the write slot when the record looks erased.
\<close>

theorem Read_DrvRecoder_damaged:
  assumes "n < Max_RecoderNum" and "rec_valid c" and "length c \<le> 256" and "i < length c"
    and "b \<noteq> c ! i"
    and "slot_read VehicleRecStart_offset 2 256 (length c) n (flash s) = c[i := b]"
  shows "Read_DrvRecoder n (length c) s =
    (False, c[i := b],
     if c[i := b] ! 0 = 0xFF then s\<lparr>Recorder_Read := Recorder_write s\<rparr>
     else s\<lparr>Recorder_Read := ring_inc Max_RecoderNum (Recorder_Read s)\<rparr>)"
proof -
  have "0 < length c" using assms(4) by linarith
  then show ?thesis
    using Read_DrvRecoder_slot [OF assms(1) _ assms(3), of s] rec_valid_damage [OF assms(2,4,5)] assms(6)
    by (simp add: Let_def)
qed

theorem Read_DrvRecoder_damaged_witness:
  "Read_DrvRecoder 0 3 (blank_store\<lparr>flash := (\<lambda>_. 0x12)\<rparr>) =
    (False, [0x12, 0x12, 0x12], blank_store\<lparr>flash := (\<lambda>_. 0x12), Recorder_Read := 1\<rparr>)"
proof -
  let ?s = "blank_store\<lparr>flash := (\<lambda>_. 0x12)\<rparr>"
  have rd: "slot_read VehicleRecStart_offset 2 256 3 0 (flash ?s) = [0x12, 0x12, 0x12]"
    by (simp add: slot_read_def read_all_def nor_read_def numeral_eq_Suc)
  have v: "rec_valid [0x12, 0x12, 0]" by (simp add: rec_valid_def)
  have inc: "ring_inc Max_RecoderNum (Recorder_Read ?s) = 1"
    by (simp add: ring_inc_def u32_def blank_store_def)
  have "[0x12, 0x12, 0][2 := 0x12 :: u8] = [0x12, 0x12, 0x12]" by (simp add: numeral_2_eq_2)
  then show ?thesis
    using Read_DrvRecoder_damaged [OF _ v, of 0 2 "0x12" ?s, unfolded length_three] rd inc
    by simp
qed

text \<open>
  A dirty slot is never overwritten: unless the slot opens a sector, saving an accident
  record into a slot whose first byte is not \<open>0xFF\<close> returns false, leaves the flash as it
  is, and moves the write slot number on.
\<close>

theorem Save_DrvRecoder_dirty:
  assumes "n < Max_RecoderNum" and "n mod 16 \<noteq> 0" and "len \<le> 256"
    and "nor_read (flash s) (slot_addr VehicleRecStart_offset 2 256 n) \<noteq> 0xFF"
  shows "Save_DrvRecoder n b len s =
    (False, s\<lparr>Recorder_write := ring_inc Max_RecoderNum (Recorder_write s)\<rparr>)"
  using assms by (simp add: Save_DrvRecoder_slot Let_def slot_open_def)

theorem Save_DrvRecoder_dirty_witness:
  "Save_DrvRecoder 5 [1, 2, 3] 3 (blank_store\<lparr>flash := (\<lambda>_. 0)\<rparr>) =
    (False, blank_store\<lparr>flash := (\<lambda>_. 0), Recorder_write := 1\<rparr>)"
  using Save_DrvRecoder_dirty [of 5 3 "blank_store\<lparr>flash := (\<lambda>_. 0)\<rparr>" "[1, 2, 3]"]
  by (simp add: nor_read_def ring_inc_def u32_def blank_store_def)

text \<open>
  The area of the minute positions (48 pages from page 3408) reaches into the area of
  the second speeds (from page 3432): saving second speed record 0 erases the stored
  position record 24, and reading that position fails.
\<close>

theorem Save_PerSecContent_erases_position:
  "fst (Read_MintPosition 24 486 (snd (Save_PerSecContent 0 c 0 s))) = False"
proof -
  let ?s1 = "snd (Save_PerSecContent 0 c 0 s)"
  have b: "nor_read (slot_open AvrgSpdSec_offset 7 70 0 (flash s)) x = 0xFF"
    if "x div 4096 = 429" "x < chip_size" for x
    using sec_ring.rd_slot_open [of 0 x "flash s"] that by simp
  have fl: "flash ?s1 = slot_open AvrgSpdSec_offset 7 70 0 (flash s)"
    by (simp add: Save_PerSecContent_slot Let_def slot_write_def prog_all_def)
  have "nor_read (flash ?s1) (slot_addr AvrgMintPosit_offset 1 512 24) = 0xFF"
    unfolding fl by (rule b) (simp_all add: slot_addr_def chip_size_def)
  then show ?thesis
    by (simp add: Read_MintPosition_slot Let_def slot_read_first rec_valid_def)
qed

end
