(* ===== verification/Store_Api.thy ===== *)
theory Store_Api
  imports Flash_Oper
begin

text \<open>
  \<^verbatim>\<open>protocol_808/Device_808.c\<close>, part 3: the named storage interface that the protocol and
  camera code call. A name is a C string compared with \<^verbatim>\<open>strcmp\<close>; names and sizes are those
  of \<^verbatim>\<open>Sys_config.h\<close>, pages those of \<^verbatim>\<open>DF_Oper.h\<close>. A read returns the bytes that it
  copied into the caller's buffer, \<open>None\<close> when it left the buffer alone.
\<close>

abbreviation (input) config :: string where "config \<equiv> ''config''"
abbreviation (input) jt808 :: string where "jt808 \<equiv> ''jt808''"
abbreviation (input) tired_config :: string where "tired_config \<equiv> ''tired_config''"
abbreviation (input) BD_ext_config :: string where "BD_ext_config \<equiv> ''BD_extent''"
abbreviation (input) event_808 :: string where "event_808 \<equiv> ''event''"
abbreviation (input) msg_broadcast :: string where "msg_broadcast \<equiv> ''msg_broadcast''"
abbreviation (input) phonebook :: string where "phonebook \<equiv> ''phonebook''"
abbreviation (input) Rail_cycle :: string where "Rail_cycle \<equiv> ''Rail_cycle''"
abbreviation (input) Rail_rect :: string where "Rail_rect \<equiv> ''Rail_rect''"
abbreviation (input) Rail_polygen :: string where "Rail_polygen \<equiv> ''Rail_polygen''"
abbreviation (input) turn_point :: string where "turn_point \<equiv> ''turn_point''"
abbreviation (input) route_line :: string where "route_line \<equiv> ''route_line''"
abbreviation (input) ask_quesstion :: string where "ask_quesstion \<equiv> ''ask_quesstion''"
abbreviation (input) text_msg :: string where "text_msg \<equiv> ''text_msg''"
abbreviation (input) spd_warn :: string where "spd_warn \<equiv> ''spd_warn''"
abbreviation (input) tired_warn :: string where "tired_warn \<equiv> ''tired_warn''"
abbreviation (input) doubt_data :: string where "doubt_data \<equiv> ''doubt_data''"
abbreviation (input) spdpermin :: string where "spdpermin \<equiv> ''spdpermin''"
abbreviation (input) pic_index :: string where "pic_index \<equiv> ''pic_index''"
abbreviation (input) voice_index :: string where "voice_index \<equiv> ''voice_index''"
abbreviation (input) camera_1 :: string where "camera_1 \<equiv> ''camera_1''"
abbreviation (input) camera_2 :: string where "camera_2 \<equiv> ''camera_2''"
abbreviation (input) camera_3 :: string where "camera_3 \<equiv> ''camera_3''"
abbreviation (input) camera_4 :: string where "camera_4 \<equiv> ''camera_4''"
abbreviation (input) voice_name :: string where "voice_name \<equiv> ''voice''"

abbreviation (input) ConfigStart_offset :: nat where "ConfigStart_offset \<equiv> 7000"
abbreviation (input) JT808Start_offset :: nat where "JT808Start_offset \<equiv> 7100"
abbreviation (input) TiredCondifg_offset :: nat where "TiredCondifg_offset \<equiv> 7200"
abbreviation (input) DF_BD_Extend_Page :: nat where "DF_BD_Extend_Page \<equiv> 1176"
abbreviation (input) DF_Event_Page :: nat where "DF_Event_Page \<equiv> 1424"
abbreviation (input) DF_Msg_Page :: nat where "DF_Msg_Page \<equiv> 1432"
abbreviation (input) DF_PhoneBook_Page :: nat where "DF_PhoneBook_Page \<equiv> 1440"
abbreviation (input) DF_RectangleRail_Page :: nat where "DF_RectangleRail_Page \<equiv> 6000"
abbreviation (input) DF_PolygenRail_Page :: nat where "DF_PolygenRail_Page \<equiv> 1464"
abbreviation (input) DF_PicIndex_Page :: nat where "DF_PicIndex_Page \<equiv> 1480"
abbreviation (input) DF_SoundIndex_Page :: nat where "DF_SoundIndex_Page \<equiv> 1488"
abbreviation (input) DF_Broadcast_offset :: nat where "DF_Broadcast_offset \<equiv> 7300"
abbreviation (input) DF_Route_Page :: nat where "DF_Route_Page \<equiv> 7400"
abbreviation (input) DF_turnPoint_Page :: nat where "DF_turnPoint_Page \<equiv> 7500"
abbreviation (input) DF_AskQuestion_Page :: nat where "DF_AskQuestion_Page \<equiv> 7600"
abbreviation (input) PicStart_offset :: nat where "PicStart_offset \<equiv> 4096"
abbreviation (input) PicStart_offset2 :: nat where "PicStart_offset2 \<equiv> 4424"
abbreviation (input) PicStart_offset3 :: nat where "PicStart_offset3 \<equiv> 4752"
abbreviation (input) PicStart_offset4 :: nat where "PicStart_offset4 \<equiv> 5080"
abbreviation (input) SoundStart_offdet :: nat where "SoundStart_offdet \<equiv> 5248"

section \<open>The cycle store\<close>

definition Api_cycle_write :: "bytes \<Rightarrow> nat \<Rightarrow> store \<Rightarrow> bool \<times> store" where
  "Api_cycle_write buffer len s =
     (case SaveCycleGPS (cycle_write s) buffer len s of
        (True, s1) \<Rightarrow>
          let s2 = s1\<lparr>cycle_write := ring_inc Max_CycleNum (cycle_write s1)\<rparr>;
              s3 = snd (DF_Write_RecordAdd (cycle_write s2) (cycle_read s2) TYPE_CycleAdd s2)
          in (True, s3)
      | (False, s1) \<Rightarrow> (False, s1))"

definition Api_cycle_read :: "nat \<Rightarrow> store \<Rightarrow> bool \<times> bytes \<times> store" where
  "Api_cycle_read len s = ReadCycleGPS (cycle_read s) len s"

definition Api_cycle_Update :: "store \<Rightarrow> store" where
  "Api_cycle_Update s =
     (if ReadCycle_status s = RdCycle_SdOver
      then s\<lparr>cycle_read := ring_inc Max_CycleNum (cycle_read s),
             ReadCycle_status := RdCycle_Idle, ReadCycle_timer := 0\<rparr>
      else s)"

definition Api_CHK_ReadCycle_status :: "store \<Rightarrow> bool \<times> store" where
  "Api_CHK_ReadCycle_status s = (True, CHK_ReadCycle_status s)"

section \<open>Configuration\<close>

definition Api_Config_write :: "string \<Rightarrow> nat \<Rightarrow> bytes \<Rightarrow> nat \<Rightarrow> store \<Rightarrow> bool \<times> store" where
  "Api_Config_write name ID buffer wr_len s =
     (if name = config
      then (True, s\<lparr>flash := DF_WriteFlashSector ConfigStart_offset 0 buffer wr_len (flash s)\<rparr>)
      else if name = tired_config
      then (True, s\<lparr>flash := DF_WriteFlashSector TiredCondifg_offset 0 buffer wr_len (flash s)\<rparr>)
      else (False, s))"

definition Api_Config_read :: "string \<Rightarrow> nat \<Rightarrow> nat \<Rightarrow> store \<Rightarrow> bool \<times> bytes option" where
  "Api_Config_read name ID Rd_len s =
     (if name = config then (True, Some (DF_ReadFlash ConfigStart_offset 0 Rd_len (flash s)))
      else if name = jt808 then (True, Some (DF_ReadFlash JT808Start_offset 0 Rd_len (flash s)))
      else if name = tired_config
      then (True, Some (DF_ReadFlash TiredCondifg_offset 0 Rd_len (flash s)))
      else if name = BD_ext_config
      then (True, Some (DF_ReadFlash DF_BD_Extend_Page 0 Rd_len (flash s)))
      else (False, None))"

definition Api_Config_Recwrite :: "string \<Rightarrow> nat \<Rightarrow> bytes \<Rightarrow> nat \<Rightarrow> store \<Rightarrow> nat \<times> store" where
  "Api_Config_Recwrite name ID buffer wr_len s = (1, s)"

definition Api_Config_Recwrite_Large ::
  "string \<Rightarrow> nat \<Rightarrow> bytes \<Rightarrow> nat \<Rightarrow> store \<Rightarrow> bool \<times> store" where
  "Api_Config_Recwrite_Large name ID buffer wr_len s =
     (if name = jt808
      then (True, s\<lparr>flash := DF_WriteFlashSector JT808Start_offset 0 buffer wr_len (flash s)\<rparr>)
      else if name = BD_ext_config
      then (True, s\<lparr>flash := DF_WriteFlashSector DF_BD_Extend_Page 0 buffer wr_len (flash s)\<rparr>)
      else (False, s))"

section \<open>Directories\<close>

text \<open>The fields of the global \<^verbatim>\<open>Dev_Voice\<close> that the storage code reads.\<close>

record dev_voice =
  Voice_PageCounter :: nat
  Voice_Reg :: bytes

definition Api_DFdirectory_Query :: "string \<Rightarrow> nat \<Rightarrow> store \<Rightarrow> nat \<times> store" where
  "Api_DFdirectory_Query name returnType s =
     (if name = spdpermin then (AvrgSpdPerMin_write s, s)
      else if name = tired_warn then (TiredDrv_write s, s)
      else
        let page = (if name = camera_1 then Some PicStart_offset
                    else if name = camera_2 then Some PicStart_offset2
                    else if name = camera_3 then Some PicStart_offset3
                    else if name = camera_4 then Some PicStart_offset4 else None)
        in if name = voice_name
           then let s1 = s\<lparr>SrcFileSize := of_le32 (DF_ReadFlash SoundStart_offdet 0 4 (flash s))\<rparr>
                in (SrcFileSize s1, s1)
           else (case page of
               None \<Rightarrow> (0, s)
             | Some current_page \<Rightarrow>
                 let s1 = s\<lparr>PictureName := DF_ReadFlash current_page 0 23 (flash s)
                                @ drop 23 (PictureName s)\<rparr>;
                     s2 = s1\<lparr>PicFileSize := of_le32 (take 4 (drop 19 (PictureName s1)))\<rparr>
                 in (PicFileSize s2, s2)))"

definition Api_DFdirectory_Write ::
  "dev_voice \<Rightarrow> string \<Rightarrow> bytes \<Rightarrow> nat \<Rightarrow> store \<Rightarrow> bool \<times> store" where
  "Api_DFdirectory_Write Dev_Voice name buffer len s =
     (if name = spdpermin then
        let s1 = snd (Save_PerMinContent (AvrgSpdPerMin_write s) buffer len s);
            s2 = s1\<lparr>AvrgSpdPerMin_write := ring_inc Max_SPDSperMin (AvrgSpdPerMin_write s1)\<rparr>
        in (True, snd (DF_Write_RecordAdd (AvrgSpdPerMin_write s2) (AvrgSpdPerMin_write s2)
                         TYPE_AvrgSpdAdd s2))
      else if name = spd_warn then
        let s1 = snd (Common_WriteContent (ExpSpdRec_write s) buffer len TYPE_ExpSpdAdd s);
            s2 = s1\<lparr>ExpSpdRec_write := ring_inc Max_SPDSperMin (ExpSpdRec_write s1)\<rparr>
        in (True, snd (DF_Write_RecordAdd (ExpSpdRec_write s2) (ExpSpdRec_write s2)
                         TYPE_ExpSpdAdd s2))
      else if name = tired_warn then
        let s1 = snd (Common_WriteContent (TiredDrv_write s) buffer len TYPE_TiredDrvAdd s);
            s2 = s1\<lparr>TiredDrv_write := ring_inc Max_CommonNum (TiredDrv_write s1)\<rparr>
        in (True, snd (DF_Write_RecordAdd (TiredDrv_write s2) (TiredDrv_read s2)
                         TYPE_TiredDrvAdd s2))
      else if name = doubt_data then
        let s1 = snd (Save_DrvRecoder (Recorder_write s) buffer len s);
            s2 = s1\<lparr>Recorder_write := ring_inc Max_RecoderNum (Recorder_write s1)\<rparr>
        in (True, snd (DF_Write_RecordAdd (Recorder_write s2) (Recorder_Read s2)
                         TYPE_VechRecordAdd s2))
      else if name = voice_name then
        (True, s\<lparr>flash := DF_WriteFlashDirect (SoundStart_offdet + Voice_PageCounter Dev_Voice) 0
                            (Voice_Reg Dev_Voice) 500 (flash s)\<rparr>)
      else if name = camera_1 \<or> name = camera_2 \<or> name = camera_3 \<or> name = camera_4 then
        (True, s\<lparr>flash := DF_WriteFlashDirect (pic_current_page s) 0 buffer len (flash s)\<rparr>)
      else (False, s))"

text \<open>
  The slot that a read addresses: counted from slot 0 when \<open>style\<close> is 1, backwards from the
  newest record otherwise.
\<close>

definition DFdirectory_read_addr :: "nat \<Rightarrow> nat \<Rightarrow> nat \<Rightarrow> nat option" where
  "DFdirectory_read_addr style numPacket written =
     (if style = 1 then Some (u16 numPacket)
      else if written = 0 then None
      else if written \<ge> u16 numPacket + 1 then Some (u16 (written - 1 - u16 numPacket))
      else None)"

definition Api_DFdirectory_Read ::
  "string \<Rightarrow> nat \<Rightarrow> nat \<Rightarrow> nat \<Rightarrow> store \<Rightarrow> bool \<times> bytes option \<times> store" where
  "Api_DFdirectory_Read name len style numPacket s =
     (if name = spdpermin then
        (case DFdirectory_read_addr style numPacket (AvrgSpdPerMin_write s) of
           None \<Rightarrow> (False, None, s)
         | Some a \<Rightarrow> (case Read_PerMinContent a len s of (_, c, s') \<Rightarrow> (True, Some c, s')))
      else if name = spd_warn then
        (case DFdirectory_read_addr style numPacket (ExpSpdRec_write s) of
           None \<Rightarrow> (False, None, s)
         | Some a \<Rightarrow>
             (case Common_ReadContent a len TYPE_ExpSpdAdd s of (_, c, s') \<Rightarrow> (True, Some c, s')))
      else if name = tired_warn then
        (case DFdirectory_read_addr style numPacket (TiredDrv_write s) of
           None \<Rightarrow> (False, None, s)
         | Some a \<Rightarrow>
             (case Common_ReadContent a len TYPE_TiredDrvAdd s of (_, c, s') \<Rightarrow> (True, Some c, s')))
      else if name = doubt_data then
        (case DFdirectory_read_addr style numPacket (Recorder_write s) of
           None \<Rightarrow> (False, None, s)
         | Some a \<Rightarrow> (case Read_DrvRecoder a len s of (_, c, s') \<Rightarrow> (True, Some c, s')))
      else if name = voice_name then
        if style = 0 then (False, None, s)
        else (True, Some (DF_ReadFlash (SoundStart_offdet + u16 numPacket) 0 len (flash s)), s)
      else if name = camera_1 then
        (True, Some (DF_ReadFlash (PicStart_offset + u16 numPacket) 0 len (flash s)), s)
      else if name = camera_2 then
        (True, Some (DF_ReadFlash (PicStart_offset2 + u16 numPacket) 0 len (flash s)), s)
      else if name = camera_3 then
        (True, Some (DF_ReadFlash (PicStart_offset3 + u16 numPacket) 0 len (flash s)), s)
      else if name = camera_4 then
        (True, Some (DF_ReadFlash (PicStart_offset4 + u16 numPacket) 0 len (flash s)), s)
      else (False, None, s))"

abbreviation (input) block_32K :: nat where "block_32K \<equiv> 32768"
abbreviation (input) block_64K :: nat where "block_64K \<equiv> 65536"

definition Api_DFdirectory_Delete :: "string \<Rightarrow> store \<Rightarrow> bool \<times> store" where
  "Api_DFdirectory_Delete name s =
     (if name = voice_name
      then (True, s\<lparr>flash := nor_erase block_32K (SoundStart_offdet * 512) (flash s)\<rparr>)
      else if name = camera_1
      then (True, s\<lparr>flash := nor_erase block_64K (PicStart_offset * 512) (flash s)\<rparr>)
      else if name = camera_2
      then (True, s\<lparr>flash := nor_erase block_64K (PicStart_offset2 * 512) (flash s)\<rparr>)
      else if name = camera_3
      then (True, s\<lparr>flash := nor_erase block_64K (PicStart_offset3 * 512) (flash s)\<rparr>)
      else if name = camera_4
      then (True, s\<lparr>flash := nor_erase block_64K (PicStart_offset4 * 512) (flash s)\<rparr>)
      else (False, s))"

section \<open>Numbered records\<close>

definition RecordNum_Page :: "string \<Rightarrow> nat option" where
  "RecordNum_Page name =
     (if name = event_808 then Some DF_Event_Page
      else if name = msg_broadcast then Some DF_Broadcast_offset
      else if name = phonebook then Some DF_PhoneBook_Page
      else if name = Rail_cycle then Some DF_Event_Page
      else if name = Rail_rect then Some DF_RectangleRail_Page
      else if name = Rail_polygen then Some DF_PolygenRail_Page
      else if name = turn_point then Some DF_turnPoint_Page
      else if name = route_line then Some DF_Route_Page
      else if name = ask_quesstion then Some DF_AskQuestion_Page
      else if name = text_msg then Some DF_Msg_Page
      else if name = pic_index then Some DF_PicIndex_Page
      else if name = voice_index then Some DF_SoundIndex_Page
      else None)"

definition Api_RecordNum_Write :: "string \<Rightarrow> nat \<Rightarrow> bytes \<Rightarrow> nat \<Rightarrow> store \<Rightarrow> bool \<times> store" where
  "Api_RecordNum_Write name Rec_Num buffer len s =
     (case RecordNum_Page name of
        Some page \<Rightarrow> (True, s\<lparr>flash := DF_WriteFlash (page + u8n Rec_Num) 0 buffer len (flash s)\<rparr>)
      | None \<Rightarrow> (False, s))"

definition Api_RecordNum_Read :: "string \<Rightarrow> nat \<Rightarrow> nat \<Rightarrow> store \<Rightarrow> bool \<times> bytes option" where
  "Api_RecordNum_Read name Rec_Num len s =
     (case RecordNum_Page name of
        Some page \<Rightarrow> (True, Some (DF_ReadFlash (page + u8n Rec_Num) 0 len (flash s)))
      | None \<Rightarrow> (False, None))"

section \<open>The slot numbers across a restart\<close>

definition save_add :: "nat \<Rightarrow> nat \<Rightarrow> nat \<Rightarrow> store \<Rightarrow> store" where
  "save_add w r t s = snd (DF_Write_RecordAdd w r t s)"

definition load_add :: "nat \<Rightarrow> nat \<Rightarrow> nat \<Rightarrow> store \<Rightarrow> store" where
  "load_add w r t s = snd (DF_Read_RecordAdd w r t s)"

definition Api_WriteInit_var_rd_wr :: "store \<Rightarrow> store" where
  "Api_WriteInit_var_rd_wr s =
     (let s = save_add (cycle_write s) (cycle_read s) TYPE_CycleAdd s;
          s = save_add (pic_write s) (pic_read s) TYPE_PhotoAdd s;
          s = save_add (Settingchg_write s) (Settingchg_read s) TYPE_SettingChgAdd s;
          s = save_add (AvrgMintPosit_write s) (AvrgMintPosit_Read s) TYPE_MintPosAdd s;
          s = save_add (Distance_m_u32 s) (DayStartDistance_32 s) TYPE_DayDistancAdd s;
          s = save_add (ExpSpdRec_write s) (ExpSpdRec_read s) TYPE_ExpSpdAdd s;
          s = save_add (TiredDrv_write s) (TiredDrv_read s) TYPE_TiredDrvAdd s;
          s = save_add (AvrgSpdPerMin_write s) (AvrgSpdPerMin_Read s) TYPE_AvrgSpdAdd s;
          s = s\<lparr>Recorder_write := 0, Recorder_Read := 0\<rparr>
      in save_add (Recorder_write s) (Recorder_Read s) TYPE_VechRecordAdd s)"

definition Api_Read_var_rd_wr :: "store \<Rightarrow> store" where
  "Api_Read_var_rd_wr s =
     (let s = load_add (cycle_write s) (cycle_read s) TYPE_CycleAdd s;
          s = load_add (pic_write s) (pic_read s) TYPE_PhotoAdd s;
          s = load_add (Settingchg_write s) (Settingchg_read s) TYPE_SettingChgAdd s;
          s = load_add (AvrgMintPosit_write s) (AvrgMintPosit_Read s) TYPE_MintPosAdd s;
          s = load_add (Distance_m_u32 s) (DayStartDistance_32 s) TYPE_DayDistancAdd s;
          s = load_add (ExpSpdRec_write s) (ExpSpdRec_read s) TYPE_ExpSpdAdd s;
          s = load_add (TiredDrv_write s) (TiredDrv_read s) TYPE_TiredDrvAdd s;
          s = load_add (AvrgSpdPerMin_write s) (AvrgSpdPerMin_Read s) TYPE_AvrgSpdAdd s
      in load_add (Recorder_write s) (Recorder_Read s) TYPE_VechRecordAdd s)"

section \<open>Remote programming\<close>

definition ISP_Read :: "nat \<Rightarrow> nat \<Rightarrow> store \<Rightarrow> nat \<times> bytes" where
  "ISP_Read Addr len s = (1, DF_ReadFlash Addr 0 len (flash s))"

definition ISP_Write :: "nat \<Rightarrow> bytes \<Rightarrow> nat \<Rightarrow> store \<Rightarrow> nat \<times> store" where
  "ISP_Write Addr Instr len s = (1, s\<lparr>flash := DF_WriteFlash Addr 0 Instr len (flash s)\<rparr>)"

abbreviation (input) enable :: nat where "enable \<equiv> 1"
abbreviation (input) disable :: nat where "disable \<equiv> 0"

definition ISP_Format :: "nat \<Rightarrow> nat \<Rightarrow> bytes \<Rightarrow> nat \<Rightarrow> store \<Rightarrow> nat \<times> store" where
  "ISP_Format page_counter page_offset p len s =
     (if 51 = u16 page_counter
      then let s1 = s\<lparr>DF_LOCK := enable, flash := DF_EraseAppFile_Area (flash s)\<rparr>;
               s2 = s1\<lparr>flash := prog_all nor_program
                         (u16 page_counter * PageSIZE + u16 page_offset) (take (u16 len) p)
                         (flash s1)\<rparr>
           in (1, s2\<lparr>DF_LOCK := disable\<rparr>)
      else (1, s))"

definition TF_Card_Status :: nat where
  "TF_Card_Status = 0"

section \<open>The cycle store as a queue\<close>

text \<open>\<open>cycle_fifo s q\<close>: the positions \<open>q\<close> wait in the cycle area, oldest first.\<close>

definition cycle_fifo :: "store \<Rightarrow> bytes list \<Rightarrow> bool" where
  "cycle_fifo s q =
     (ring_queue CycleStart_offset 16 32 Max_CycleNum 31 (cycle_read s) (cycle_write s) (flash s) q \<and>
      (\<forall>b \<in> set q. cycle_rec b))"

lemma CycleAdd_page: "RecordAdd_Page TYPE_CycleAdd = Some 1096"
  by (simp add: RecordAdd_Page_def)

lemma cycle_write_less: "cycle_fifo s q \<Longrightarrow> cycle_write s < Max_CycleNum"
  by (simp add: cycle_fifo_def ring_queue_def)

lemma cycle_fifo_cong:
  assumes "cycle_read s = cycle_read t" and "cycle_write s = cycle_write t"
    and "\<And>x. x < chip_size \<Longrightarrow> 221 \<le> x div 4096 \<Longrightarrow> x div 4096 \<le> 348 \<Longrightarrow>
      nor_read (flash s) x = nor_read (flash t) x"
  shows "cycle_fifo s q = cycle_fifo t q"
  using cyc.ring_queue_cong [of "flash s" "flash t" 31 "cycle_read t" "cycle_write t" q] assms
  by (simp add: cycle_fifo_def)

lemma Api_cycle_write_ready:
  assumes "cycle_write s < Max_CycleNum" and "cyc_ready (cycle_write s) (flash s)"
    and "length b = 31" and "rec_valid b"
  shows "fst (Api_cycle_write b 31 s) = True"
    and "flash (snd (Api_cycle_write b 31 s)) =
      type_put TYPE_CycleAdd (ring_inc Max_CycleNum (cycle_write s)) (cycle_read s)
        (cyc_write (cycle_write s) b (flash s))"
    and "cycle_write (snd (Api_cycle_write b 31 s)) = ring_inc Max_CycleNum (cycle_write s)"
    and "cycle_read (snd (Api_cycle_write b 31 s)) = cycle_read s"
    and "ReadCycle_status (snd (Api_cycle_write b 31 s)) = ReadCycle_status s"
  using SaveCycleGPS_ready [OF assms]
  by (simp_all add: Api_cycle_write_def DF_Write_RecordAdd_type_put CycleAdd_page [simplified] Let_def)

lemma nor_read_put_cycle_area:
  assumes "x < chip_size" and "221 \<le> x div 4096"
  shows "nor_read (type_put TYPE_CycleAdd w r f) x = nor_read f x"
  unfolding type_put_def CycleAdd_page option.sel
  using assms by (intro nor_read_put_other) (simp_all add: log_page_def)

lemma Api_cycle_write_push:
  assumes "cycle_fifo s q" and "cycle_rec b" and "length q \<le> 16256"
  shows "fst (Api_cycle_write b 31 s) = True"
    and "cycle_fifo (snd (Api_cycle_write b 31 s)) (q @ [b])"
    and "ReadCycle_status (snd (Api_cycle_write b 31 s)) = ReadCycle_status s"
proof -
  have w: "cycle_write s < Max_CycleNum" using assms(1) by (rule cycle_write_less)
  have rq: "ring_queue CycleStart_offset 16 32 Max_CycleNum 31 (cycle_read s) (cycle_write s) (flash s) q"
    using assms(1) by (simp add: cycle_fifo_def)
  have b: "length b = 31" "rec_valid b" using assms(2) by (simp_all add: cycle_rec_def)
  have rdy: "cyc_ready (cycle_write s) (flash s)" using rq unfolding ring_queue_def by blast
  note ready = Api_cycle_write_ready [OF w rdy b]
  show "fst (Api_cycle_write b 31 s) = True"
    and "ReadCycle_status (snd (Api_cycle_write b 31 s)) = ReadCycle_status s"
    by (rule ready)+
  let ?t = "s\<lparr>cycle_write := ring_inc Max_CycleNum (cycle_write s),
    flash := cyc_write (cycle_write s) b (flash s)\<rparr>"
  have "cycle_fifo ?t (q @ [b])"
    using cyc.ring_queue_push [OF rq b(1)] assms ring_inc_mod [OF w] by (simp add: cycle_fifo_def)
  then show "cycle_fifo (snd (Api_cycle_write b 31 s)) (q @ [b])"
    using cycle_fifo_cong [of "snd (Api_cycle_write b 31 s)" ?t "q @ [b]"]
    by (simp add: ready nor_read_put_cycle_area [simplified])
qed

lemma Api_cycle_read_head:
  assumes "cycle_fifo s (b # q)"
  shows "Api_cycle_read 31 s = (True, b, s)"
  using assms cyc.ring_queue_head [of 31 "cycle_read s" "cycle_write s" "flash s" b q]
  by (auto simp: Api_cycle_read_def cycle_fifo_def ring_queue_def intro!: ReadCycleGPS_slot)

lemma Api_cycle_Update_pop:
  assumes "cycle_fifo s (b # q)" and "ReadCycle_status s = RdCycle_SdOver"
  shows "cycle_fifo (Api_cycle_Update s) q"
proof -
  have "ring_inc Max_CycleNum (cycle_read s) = (cycle_read s + 1) mod Max_CycleNum"
    using assms(1) by (intro ring_inc_mod) (simp_all add: cycle_fifo_def ring_queue_def)
  then show ?thesis
    using assms cyc.ring_queue_pop [of 31 "cycle_read s" "cycle_write s" "flash s" b q]
    by (simp add: cycle_fifo_def Api_cycle_Update_def)
qed

lemma cycle_fifo_empty: "cycle_fifo s q \<Longrightarrow> (cycle_read s = cycle_write s) = (q = [])"
  using cyc.ring_queue_empty [of 31 "cycle_read s" "cycle_write s" "flash s" q]
  by (simp add: cycle_fifo_def)

section \<open>Delivery of stored positions\<close>

text \<open>
  The delivery of stored positions runs over several threads: positions are saved
  (\<open>Api_cycle_write\<close>), the one second task marks a waiting position ready
  (\<open>Api_CHK_ReadCycle_status\<close>), the protocol task reads and transmits it and sets
  \<open>RdCycle_SdOver\<close> (\<^verbatim>\<open>protocol_808.c\<close>, \<^verbatim>\<open>Do_SendGPSReport_GPRS\<close>), the modem confirms the
  transmission (\<^verbatim>\<open>%IPSENDX:1\<close>, which calls \<open>Api_cycle_Update\<close>; it also confirms other messages,
  at a time when no stored position was transmitted) or the one second task
  gives up waiting and sets \<open>RdCycle_Idle\<close> again (\<^verbatim>\<open>app_808.c\<close>). The lists \<open>saved\<close>,
  \<open>sent\<close> and \<open>acked\<close> record what happened, \<open>acks_stored\<close> how many positions were confirmed when the slot
  numbers were written to the flash last; a confirmation does not write them. A run keeps the
  list of the states it went through.
\<close>

record delivery =
  sys :: store
  saved :: "bytes list"
  sent :: "bytes list"
  acked :: "bytes list"
  acks_stored :: nat

inductive cycle_step :: "delivery \<Rightarrow> delivery \<Rightarrow> bool" where
  do_save: "cycle_rec b \<Longrightarrow> Api_cycle_write b 31 (sys d) = (ret, s') \<Longrightarrow>
    cycle_step d (d\<lparr>sys := s', saved := saved d @ [b], acks_stored := length (acked d)\<rparr>)"
| do_check: "Api_CHK_ReadCycle_status (sys d) = (ret, s') \<Longrightarrow> cycle_step d (d\<lparr>sys := s'\<rparr>)"
| do_send: "ReadCycle_status (sys d) = RdCycle_RdytoSD \<Longrightarrow> Api_cycle_read 31 (sys d) = (True, c, s') \<Longrightarrow>
    cycle_step d (d\<lparr>sys := s'\<lparr>ReadCycle_status := RdCycle_SdOver\<rparr>, sent := sent d @ [c]\<rparr>)"
| do_send_fail: "ReadCycle_status (sys d) = RdCycle_RdytoSD \<Longrightarrow>
    Api_cycle_read 31 (sys d) = (False, c, s') \<Longrightarrow> cycle_step d (d\<lparr>sys := s'\<rparr>)"
| do_ack: "ReadCycle_status (sys d) = RdCycle_SdOver \<Longrightarrow>
    cycle_step d (d\<lparr>sys := Api_cycle_Update (sys d), acked := acked d @ [last (sent d)]\<rparr>)"
| do_other_ack: "ReadCycle_status (sys d) \<noteq> RdCycle_SdOver \<Longrightarrow>
    cycle_step d (d\<lparr>sys := Api_cycle_Update (sys d)\<rparr>)"
| do_give_up: "ReadCycle_status (sys d) = RdCycle_SdOver \<Longrightarrow>
    cycle_step d (d\<lparr>sys := (sys d)\<lparr>ReadCycle_timer := 0, ReadCycle_status := RdCycle_Idle\<rparr>\<rparr>)"

inductive_cases cycle_stepE: "cycle_step d d'"

inductive cycle_run :: "delivery \<Rightarrow> delivery list \<Rightarrow> delivery \<Rightarrow> bool" for d0 where
  start: "cycle_run d0 [] d0"
| next_step: "cycle_run d0 ds d \<Longrightarrow> cycle_step d d' \<Longrightarrow> cycle_run d0 (ds @ [d']) d'"

text \<open>
  The code does not limit the number of waiting positions. The area has 16384 slots and is erased in
  sectors of 128; \<open>roomy\<close> says that the positions that wait leave the sector free that is erased next.
\<close>

definition roomy :: "delivery \<Rightarrow> bool" where
  "roomy d = (length (saved d) \<le> length (acked d) + 16257)"

text \<open>
  The invariant: what is not acknowledged yet is what the flash still holds; a record is
  announced only when there is one; a transmitted record is the oldest one.
\<close>

definition delivery_inv :: "delivery \<Rightarrow> bool" where
  "delivery_inv d =
     (\<exists>q. saved d = acked d @ q \<and> cycle_fifo (sys d) q \<and>
        (ReadCycle_status (sys d) = RdCycle_Idle \<or>
         ReadCycle_status (sys d) = RdCycle_RdytoSD \<and> q \<noteq> [] \<or>
         ReadCycle_status (sys d) = RdCycle_SdOver \<and> q \<noteq> [] \<and> sent d \<noteq> [] \<and> last (sent d) = hd q))"

lemma cycle_fifo_status [simp]:
  "cycle_fifo (s\<lparr>ReadCycle_status := v\<rparr>) q = cycle_fifo s q"
  "cycle_fifo (s\<lparr>ReadCycle_timer := v\<rparr>) q = cycle_fifo s q"
  by (simp_all add: cycle_fifo_def)

lemma delivery_inv_step:
  assumes "delivery_inv d" and "cycle_step d d'" and "roomy d'"
  shows "delivery_inv d'"
proof -
  obtain q where q: "saved d = acked d @ q" and fifo: "cycle_fifo (sys d) q"
    and status: "ReadCycle_status (sys d) = RdCycle_Idle \<or>
         ReadCycle_status (sys d) = RdCycle_RdytoSD \<and> q \<noteq> [] \<or>
         ReadCycle_status (sys d) = RdCycle_SdOver \<and> q \<noteq> [] \<and> sent d \<noteq> [] \<and> last (sent d) = hd q"
    using assms(1) unfolding delivery_inv_def by blast
  from assms(2) show ?thesis
  proof cases
    case (do_save b ret s')
    with Api_cycle_write_push [OF fifo, of b] q assms(3)
    have "cycle_fifo s' (q @ [b])" "ReadCycle_status s' = ReadCycle_status (sys d)" by (auto simp: roomy_def)
    with q status do_save(1) show ?thesis
      unfolding delivery_inv_def by (intro exI [of _ "q @ [b]"]) auto
  next
    case (do_check ret s')
    then show ?thesis
      unfolding delivery_inv_def using q fifo status cycle_fifo_empty [OF fifo]
      by (intro exI [of _ q]) (auto simp: Api_CHK_ReadCycle_status_def CHK_ReadCycle_status_def)
  next
    case (do_send c s')
    with status obtain b q' where bq: "q = b # q'" by (cases q) auto
    with Api_cycle_read_head fifo do_send have "c = b" "s' = sys d" by auto
    with do_send q fifo bq show ?thesis
      unfolding delivery_inv_def by (intro exI [of _ q]) auto
  next
    case (do_send_fail c s')
    with status obtain b q' where "q = b # q'" by (cases q) auto
    with Api_cycle_read_head fifo do_send_fail show ?thesis by auto
  next
    case do_ack
    with status obtain q' where bq: "q = last (sent d) # q'" by (cases q) auto
    with Api_cycle_Update_pop fifo do_ack have "cycle_fifo (Api_cycle_Update (sys d)) q'" by auto
    with q bq do_ack show ?thesis
      unfolding delivery_inv_def by (intro exI [of _ q']) (auto simp: Api_cycle_Update_def)
  next
    case do_other_ack
    then show ?thesis
      unfolding delivery_inv_def using q fifo status by (intro exI [of _ q]) (simp add: Api_cycle_Update_def)
  next
    case do_give_up
    with q fifo show ?thesis
      unfolding delivery_inv_def by (intro exI [of _ q]) auto
  qed
qed

lemma delivery_inv_run: "cycle_run d0 ds d \<Longrightarrow> \<forall>x \<in> set ds. roomy x \<Longrightarrow> delivery_inv d0 \<Longrightarrow> delivery_inv d"
  by (induction rule: cycle_run.induct) (auto dest: delivery_inv_step)

section \<open>Restart\<close>

text \<open>Writing a slot of the cycle area touches none of the logs.\<close>

lemma log_pages_low: "RecordAdd_Page t = Some pg \<Longrightarrow> pg div 8 < 221"
  by (auto simp: RecordAdd_Page_def split: if_splits)

lemma logs_ok_cyc_write:
  assumes "n < Max_CycleNum" and "length b \<le> 32" and "logs_ok f"
  shows "logs_ok (cyc_write n b f)"
  unfolding logs_ok_def
proof (intro allI impI)
  fix t pg assume t: "RecordAdd_Page t = Some pg"
  have "nor_read (cyc_write n b f) x = nor_read f x" if "x < chip_size" "x div 4096 = pg div 8" for x
    using assms(1,2) that log_pages_low [OF t] by (intro cyc.rd_slot_write_outside) simp_all
  then have "log_ok pg (cyc_write n b f) = log_ok pg f"
    by (rule log_cong(2) [OF RecordAdd_Page_log_page [OF t]])
  with assms(3) t show "log_ok pg (cyc_write n b f)" by (simp add: logs_ok_def)
qed

lemma get_put_all_distinct:
  assumes "logs_ok f" and "list_all (\<lambda>(t, _). RecordAdd_Page t \<noteq> None) us"
    and "distinct (map fst us)" and "(t, w, r) \<in> set us"
  shows "type_get t (slots.put_all us f) = (u32 w, u32 r)"
proof -
  obtain ys zs where us: "us = ys @ (t, w, r) # zs" using assms(4) by (auto simp: in_set_conv_decomp)
  with assms(3) have "t \<notin> fst ` set zs" by auto
  with slots.get_put_all [of f ys t w r zs] assms(1,2) us show ?thesis by simp
qed

lemma save_add_eq:
  "RecordAdd_Page t \<noteq> None \<Longrightarrow> save_add w r t s = s\<lparr>flash := type_put t w r (flash s)\<rparr>"
  by (simp add: save_add_def DF_Write_RecordAdd_type_put)

lemma load_add_eq:
  assumes "RecordAdd_Page t \<noteq> None"
  shows "load_add w r t s =
    snd (RecordAdd_result t (fst (type_get t (flash s))) (snd (type_get t (flash s))) s)"
  using assms by (auto simp: load_add_def DF_Read_RecordAdd_def type_get_def split: prod.splits)

text \<open>The nine pairs that \<open>Api_WriteInit_var_rd_wr\<close> stores.\<close>

definition init_pairs :: "store \<Rightarrow> (nat \<times> nat \<times> nat) list" where
  "init_pairs s =
     [(TYPE_CycleAdd, cycle_write s, cycle_read s), (TYPE_PhotoAdd, pic_write s, pic_read s),
      (TYPE_SettingChgAdd, Settingchg_write s, Settingchg_read s),
      (TYPE_MintPosAdd, AvrgMintPosit_write s, AvrgMintPosit_Read s),
      (TYPE_DayDistancAdd, Distance_m_u32 s, DayStartDistance_32 s),
      (TYPE_ExpSpdAdd, ExpSpdRec_write s, ExpSpdRec_read s),
      (TYPE_TiredDrvAdd, TiredDrv_write s, TiredDrv_read s),
      (TYPE_AvrgSpdAdd, AvrgSpdPerMin_write s, AvrgSpdPerMin_Read s),
      (TYPE_VechRecordAdd, 0, 0)]"

lemma init_pages: "list_all (\<lambda>(t, _). RecordAdd_Page t \<noteq> None) (init_pairs s)"
  by (simp add: init_pairs_def RecordAdd_Page_def)

lemma Api_WriteInit_flash:
  "flash (Api_WriteInit_var_rd_wr s) = slots.put_all (init_pairs s) (flash s)"
  by (simp add: Api_WriteInit_var_rd_wr_def Let_def save_add_eq RecordAdd_Page_def
      slots.put_all_def init_pairs_def)

lemma type_get_init:
  assumes "logs_ok (flash s)" and "(t, w, r) \<in> set (init_pairs s)"
  shows "type_get t (slots.put_all (init_pairs s) (flash s)) = (u32 w, u32 r)"
  using assms init_pages by (intro get_put_all_distinct) (simp_all add: init_pairs_def)

lemma load_adds:
  "load_add w r TYPE_CycleAdd s =
    s\<lparr>cycle_write := fst (type_get TYPE_CycleAdd (flash s)),
      cycle_read := snd (type_get TYPE_CycleAdd (flash s))\<rparr>"
  "load_add w r TYPE_PhotoAdd s =
    s\<lparr>pic_write := fst (type_get TYPE_PhotoAdd (flash s)),
      pic_read := snd (type_get TYPE_PhotoAdd (flash s))\<rparr>"
  "load_add w r TYPE_SettingChgAdd s =
    s\<lparr>Settingchg_write := fst (type_get TYPE_SettingChgAdd (flash s)),
      Settingchg_read := snd (type_get TYPE_SettingChgAdd (flash s))\<rparr>"
  "load_add w r TYPE_MintPosAdd s =
    s\<lparr>AvrgMintPosit_write := fst (type_get TYPE_MintPosAdd (flash s)),
      AvrgMintPosit_Read := snd (type_get TYPE_MintPosAdd (flash s))\<rparr>"
  "load_add w r TYPE_DayDistancAdd s =
    s\<lparr>Distance_m_u32 := fst (type_get TYPE_DayDistancAdd (flash s)),
      DayStartDistance_32 := snd (type_get TYPE_DayDistancAdd (flash s))\<rparr>"
  "load_add w r TYPE_ExpSpdAdd s =
    s\<lparr>ExpSpdRec_write := fst (type_get TYPE_ExpSpdAdd (flash s)),
      ExpSpdRec_read := snd (type_get TYPE_ExpSpdAdd (flash s))\<rparr>"
  "load_add w r TYPE_TiredDrvAdd s =
    s\<lparr>TiredDrv_write := fst (type_get TYPE_TiredDrvAdd (flash s)),
      TiredDrv_read := snd (type_get TYPE_TiredDrvAdd (flash s))\<rparr>"
  "load_add w r TYPE_AvrgSpdAdd s =
    s\<lparr>AvrgSpdPerMin_write := fst (type_get TYPE_AvrgSpdAdd (flash s)),
      AvrgSpdPerMin_Read := snd (type_get TYPE_AvrgSpdAdd (flash s))\<rparr>"
  "load_add w r TYPE_VechRecordAdd s =
    s\<lparr>Recorder_write := fst (type_get TYPE_VechRecordAdd (flash s)),
      Recorder_Read := snd (type_get TYPE_VechRecordAdd (flash s))\<rparr>"
  by (simp_all add: load_add_eq RecordAdd_Page_def RecordAdd_result_def)

text \<open>Reading the slot numbers at start-up, as one update of the state.\<close>

lemma Api_Read_var_rd_wr_eq:
  "Api_Read_var_rd_wr t =
    (let g = (\<lambda>ty. type_get ty (flash t))
     in t\<lparr>cycle_write := fst (g TYPE_CycleAdd), cycle_read := snd (g TYPE_CycleAdd),
          pic_write := fst (g TYPE_PhotoAdd), pic_read := snd (g TYPE_PhotoAdd),
          Settingchg_write := fst (g TYPE_SettingChgAdd), Settingchg_read := snd (g TYPE_SettingChgAdd),
          AvrgMintPosit_write := fst (g TYPE_MintPosAdd), AvrgMintPosit_Read := snd (g TYPE_MintPosAdd),
          Distance_m_u32 := fst (g TYPE_DayDistancAdd), DayStartDistance_32 := snd (g TYPE_DayDistancAdd),
          ExpSpdRec_write := fst (g TYPE_ExpSpdAdd), ExpSpdRec_read := snd (g TYPE_ExpSpdAdd),
          TiredDrv_write := fst (g TYPE_TiredDrvAdd), TiredDrv_read := snd (g TYPE_TiredDrvAdd),
          AvrgSpdPerMin_write := fst (g TYPE_AvrgSpdAdd), AvrgSpdPerMin_Read := snd (g TYPE_AvrgSpdAdd),
          Recorder_write := fst (g TYPE_VechRecordAdd), Recorder_Read := snd (g TYPE_VechRecordAdd)\<rparr>)"
  by (simp add: Api_Read_var_rd_wr_def load_adds Let_def del: One_nat_def)

section \<open>Properties\<close>

text \<open>
  (C2) Stored positions are delivered in order: in every run of saving, checking, transmitting, confirming and giving up, in
  any interleaving, in which at most 16257 positions wait at any time, the confirmed records are the first saved ones, in
  order, and the flash still holds exactly the others. A record is confirmed at most once, and one whose confirmation never
  comes is transmitted again. The code has no such limit, and with more waiting positions the next sector that is erased
  takes the oldest ones (\<open>crowded_save_loses\<close>).
\<close>

theorem cycle_delivery_in_order:
  assumes "cycle_run d0 ds d" and "\<forall>x \<in> set ds. length (saved x) \<le> length (acked x) + 16257"
    and "saved d0 = []" and "acked d0 = []" and "cycle_fifo (sys d0) []" and "ReadCycle_status (sys d0) = RdCycle_Idle"
  shows "\<exists>q. saved d = acked d @ q \<and> cycle_fifo (sys d) q"
proof -
  have "delivery_inv d0" using assms(3-6) by (simp add: delivery_inv_def)
  moreover have "\<forall>x \<in> set ds. roomy x" using assms(2) by (simp add: roomy_def)
  ultimately have "delivery_inv d" using delivery_inv_run [OF assms(1)] by blast
  then show ?thesis by (auto simp: delivery_inv_def)
qed

lemma cycle_fifo_blank: "cycle_fifo blank_store []"
  by (simp add: cycle_fifo_def ring_queue_def slot_ready_def blank_store_def)

lemma blank_status: "ReadCycle_status blank_store = RdCycle_Idle"
  by (simp add: blank_store_def)

lemma cycle_rec_example: "cycle_rec (1 # replicate 29 0 @ [1])"
  by code_simp

text \<open>The first record of a cleared store, and a run that delivers it.\<close>

definition first_store :: store where
  "first_store = blank_store\<lparr>flash := flash (Api_WriteInit_var_rd_wr blank_store)\<rparr>"

abbreviation (input) first_rec :: bytes where "first_rec \<equiv> 1 # replicate 29 0 @ [1]"

abbreviation (input) first_saved :: store where
  "first_saved \<equiv> snd (Api_cycle_write first_rec 31 first_store)"

lemma first_store_ok:
  "cycle_fifo first_store []" "ReadCycle_status first_store = RdCycle_Idle" "logs_ok (flash first_store)"
  "type_get TYPE_CycleAdd (flash first_store) = (cycle_write first_store, cycle_read first_store)"
proof -
  have l: "logs_ok (flash blank_store)" by (simp add: logs_ok_def)
  have f: "flash first_store = slots.put_all (init_pairs blank_store) (\<lambda>_. 0xFF)"
    using Api_WriteInit_flash [of blank_store] by (simp add: first_store_def)
  have p: "cycle_write first_store = 0" "cycle_read first_store = 0" "ReadCycle_status first_store = RdCycle_Idle"
    by (simp_all add: first_store_def blank_store_def)
  show "logs_ok (flash first_store)" using slots.ok_put_all [OF l init_pages [of blank_store]] f by simp
  show "type_get TYPE_CycleAdd (flash first_store) = (cycle_write first_store, cycle_read first_store)"
    using type_get_init [OF l, of TYPE_CycleAdd 0 0] f p by (simp add: init_pairs_def u32_def blank_store_def)
  show "cycle_fifo first_store []" using p by (simp add: cycle_fifo_def ring_queue_def slot_ready_def)
  show "ReadCycle_status first_store = RdCycle_Idle" by (rule p(3))
qed

abbreviation (input) delivery_start :: delivery where
  "delivery_start \<equiv> \<lparr>sys = first_store, saved = [], sent = [], acked = [], acks_stored = 0\<rparr>"

lemma first_run:
  "\<exists>ds s. cycle_run delivery_start ds \<lparr>sys = s, saved = [first_rec], sent = [first_rec], acked = [first_rec], acks_stored = 0\<rparr> \<and>
    (\<forall>x \<in> set ds. length (saved x) \<le> length (acked x) + 16257)"
proof -
  let ?c = "first_saved\<lparr>ReadCycle_status := RdCycle_RdytoSD\<rparr>"
  let ?o = "first_saved\<lparr>ReadCycle_status := RdCycle_SdOver\<rparr>"
  let ?d1 = "\<lparr>sys = first_saved, saved = [first_rec], sent = [], acked = [], acks_stored = 0\<rparr>"
  let ?d2 = "\<lparr>sys = ?c, saved = [first_rec], sent = [], acked = [], acks_stored = 0\<rparr>"
  let ?d3 = "\<lparr>sys = ?o, saved = [first_rec], sent = [first_rec], acked = [], acks_stored = 0\<rparr>"
  let ?d4 = "\<lparr>sys = Api_cycle_Update ?o, saved = [first_rec], sent = [first_rec], acked = [first_rec], acks_stored = 0\<rparr>"
  note push = Api_cycle_write_push [OF first_store_ok(1) cycle_rec_example]
  have fifo: "cycle_fifo first_saved [first_rec]" and idle: "ReadCycle_status first_saved = RdCycle_Idle"
    using push first_store_ok(2) by simp_all
  have 1: "cycle_step delivery_start ?d1"
    using cycle_step.do_save [of first_rec delivery_start "fst (Api_cycle_write first_rec 31 first_store)" first_saved] cycle_rec_example
    by simp
  have 2: "cycle_step ?d1 ?d2"
    using cycle_step.do_check [of ?d1 True ?c] idle cycle_fifo_empty [OF fifo]
    by (simp add: Api_CHK_ReadCycle_status_def CHK_ReadCycle_status_def)
  have "Api_cycle_read 31 ?c = (True, first_rec, ?c)" using fifo by (intro Api_cycle_read_head) simp
  then have 3: "cycle_step ?d2 ?d3" using cycle_step.do_send [of ?d2 first_rec ?c] by simp
  have 4: "cycle_step ?d3 ?d4" using cycle_step.do_ack [of ?d3] by simp
  have "cycle_run delivery_start ([] @ [?d1] @ [?d2] @ [?d3] @ [?d4]) ?d4"
    using cycle_run.next_step [OF cycle_run.next_step [OF cycle_run.next_step [OF cycle_run.next_step [OF cycle_run.start 1] 2] 3] 4] by simp
  then show ?thesis by (intro exI [of _ "[?d1, ?d2, ?d3, ?d4]"] exI [of _ "Api_cycle_Update ?o"]) simp
qed

theorem cycle_delivery_in_order_witness:
  "\<exists>ds d. cycle_run delivery_start ds d \<and> saved d = [first_rec] \<and> acked d = [first_rec] \<and> cycle_fifo (sys d) []"
proof -
  obtain ds s where r: "cycle_run delivery_start ds \<lparr>sys = s, saved = [first_rec], sent = [first_rec], acked = [first_rec], acks_stored = 0\<rparr>"
    "\<forall>x \<in> set ds. length (saved x) \<le> length (acked x) + 16257" using first_run by auto
  from cycle_delivery_in_order [OF r] have "cycle_fifo s []" using first_store_ok by auto
  then show ?thesis using r(1) by (intro exI [of _ ds] exI [of _ "\<lparr>sys = s, saved = [first_rec], sent = [first_rec], acked = [first_rec], acks_stored = 0\<rparr>"]) simp
qed

text \<open>
  With more than 16257 waiting positions, saving one more into a new sector erases the oldest: it cannot be read any more.
\<close>

theorem crowded_save_loses:
  assumes "cycle_fifo s q" and "16257 \<le> length q" and "cycle_write s mod 128 = 0" and "cycle_rec b"
  shows "fst (Api_cycle_write b 31 s) = True" and "fst (Api_cycle_read 31 (snd (Api_cycle_write b 31 s))) = False"
proof -
  have w: "cycle_write s < 16384" using cycle_write_less [OF assms(1)] by simp
  have rq: "cycle_read s < 16384" "cyc_ready (cycle_write s) (flash s)" "length q < 16384"
    "cycle_write s = (cycle_read s + length q) mod 16384"
    using assms(1) unfolding cycle_fifo_def ring_queue_def by auto
  have b: "length b = 31" "rec_valid b" using assms(4) by (simp_all add: cycle_rec_def)
  have w': "cycle_write s < Max_CycleNum" using w by simp
  note ready = Api_cycle_write_ready [OF w' rq(2) b]
  show "fst (Api_cycle_write b 31 s) = True" by (rule ready(1))
  let ?f = "flash (snd (Api_cycle_write b 31 s))" and ?r = "cycle_read s"
  have sect: "?r div 128 = cycle_write s div 128" "?r \<noteq> cycle_write s"
  proof -
    define v where "v = cycle_write s div 128"
    have v: "cycle_write s = v * 128" "v < 128" using assms(3) w by (auto simp: v_def)
    have v128: "v * 128 \<le> 16256" using v(2) by simp
    have "cycle_write s = (if ?r + length q < 16384 then ?r + length q else ?r + length q - 16384)"
      unfolding rq(4) using rq(1,3) le_mod_geq [of 16384 "?r + length q"] by auto
    then have e: "?r = v * 128 + (16384 - length q)" using v(1) v128 rq(1,3) assms(2) by (simp split: if_splits)
    moreover have "16384 - length q < 128" "0 < 16384 - length q" using rq(3) assms(2) by simp_all
    ultimately have "?r div 128 = v" by (simp add: div_mult_self4)
    then show "?r div 128 = cycle_write s div 128" by (simp add: v_def)
    show "?r \<noteq> cycle_write s" unfolding v e using rq(3) by simp
  qed
  have r: "cycle_read (snd (Api_cycle_write b 31 s)) = ?r" by (rule ready)
  have e: "nor_read ?f (cyc_addr ?r + k) = 0xFF" if "k < 31" for k
  proof -
    have a: "cyc_addr ?r + k < chip_size" "(cyc_addr ?r + k) div 4096 = 221 + ?r div 128"
      using cyc.slot_range [of ?r] cyc.slot_sector [of k ?r] rq(1) that by simp_all
    have o: "\<not> (cyc_addr (cycle_write s) \<le> cyc_addr ?r + k \<and> cyc_addr ?r + k < cyc_addr (cycle_write s) + 31)"
      using cyc.slot_disjoint [OF sect(2)] that by auto
    have "nor_read ?f (cyc_addr ?r + k) = nor_read (cyc_write (cycle_write s) b (flash s)) (cyc_addr ?r + k)"
      unfolding ready using a by (intro nor_read_put_cycle_area) simp_all
    also have "\<dots> = 0xFF" using o a assms(3) sect(1) b w by (subst cyc.rd_slot_write) (auto simp: cyc.rd_slot_open)
    finally show ?thesis .
  qed
  have "slot_read CycleStart_offset 16 32 31 ?r ?f ! 0 = 0xFF" using e [of 0] by (simp add: slot_read_def)
  then show "fst (Api_cycle_read 31 (snd (Api_cycle_write b 31 s))) = False"
    using rq(1) r by (simp add: Api_cycle_read_def ReadCycleGPS_def Let_def cyc.DF_ReadFlash_slot)
qed

text \<open>What \<^verbatim>\<open>Api_cycle_write\<close> leaves in the flash: both slot numbers.\<close>

lemma Api_cycle_write_stored:
  assumes "cycle_fifo s q" and "cycle_rec b" and "logs_ok (flash s)"
  shows "logs_ok (flash (snd (Api_cycle_write b 31 s)))"
    and "type_get TYPE_CycleAdd (flash (snd (Api_cycle_write b 31 s))) =
      (cycle_write (snd (Api_cycle_write b 31 s)), cycle_read (snd (Api_cycle_write b 31 s)))"
proof -
  have w: "cycle_write s < Max_CycleNum" using assms(1) by (rule cycle_write_less)
  have r: "cycle_read s < Max_CycleNum" "cyc_ready (cycle_write s) (flash s)"
    using assms(1) unfolding cycle_fifo_def ring_queue_def by blast+
  have b: "length b = 31" "rec_valid b" using assms(2) by (simp_all add: cycle_rec_def)
  note ready = Api_cycle_write_ready [OF w r(2) b]
  have lt: "ring_inc Max_CycleNum (cycle_write s) < Max_CycleNum" by (rule ring_inc_less) simp
  have l: "logs_ok (cyc_write (cycle_write s) b (flash s))"
    using logs_ok_cyc_write [OF w _ assms(3), of b] b(1) by simp
  have v: "RecordAdd_Page TYPE_CycleAdd \<noteq> None" by (simp add: CycleAdd_page [simplified])
  show "logs_ok (flash (snd (Api_cycle_write b 31 s)))" unfolding ready using slots.ok_put [OF l v] .
  show "type_get TYPE_CycleAdd (flash (snd (Api_cycle_write b 31 s))) =
      (cycle_write (snd (Api_cycle_write b 31 s)), cycle_read (snd (Api_cycle_write b 31 s)))"
    unfolding ready slots.get_put [OF l v] using lt r(1) by (simp add: u32_small)
qed

text \<open>The queue that the slot numbers in the flash describe: the waiting positions and those confirmed after the last save.\<close>

definition stored_inv :: "delivery \<Rightarrow> bool" where
  "stored_inv d =
     (acks_stored d \<le> length (acked d) \<and> logs_ok (flash (sys d)) \<and>
      (\<exists>r. type_get TYPE_CycleAdd (flash (sys d)) = (cycle_write (sys d), r) \<and>
        cycle_fifo ((sys d)\<lparr>cycle_read := r\<rparr>) (drop (acks_stored d) (saved d))))"

lemma stored_inv_keep:
  assumes "stored_inv d" and "flash s = flash (sys d)" and "cycle_write s = cycle_write (sys d)"
  shows "stored_inv (d\<lparr>sys := s, acked := acked d @ a\<rparr>)" and "stored_inv (d\<lparr>sys := s, sent := c\<rparr>)" and "stored_inv (d\<lparr>sys := s\<rparr>)"
  using assms by (auto simp: stored_inv_def cycle_fifo_def)

lemma stored_inv_step:
  assumes "delivery_inv d" and "stored_inv d" and "cycle_step d d'" and "roomy d'"
  shows "stored_inv d'"
proof -
  obtain q where q: "saved d = acked d @ q" and fifo: "cycle_fifo (sys d) q"
    and status: "ReadCycle_status (sys d) = RdCycle_RdytoSD \<Longrightarrow> q \<noteq> []"
    using assms(1) unfolding delivery_inv_def by auto
  note keep = stored_inv_keep [OF assms(2)]
  from assms(3) show ?thesis
  proof cases
    case (do_save b ret s')
    then have s': "s' = snd (Api_cycle_write b 31 (sys d))" by simp
    have "cycle_fifo s' (q @ [b])" using Api_cycle_write_push [OF fifo, of b] q do_save assms(4) unfolding s' by (simp add: roomy_def)
    moreover have "s'\<lparr>cycle_read := cycle_read s'\<rparr> = s'" by simp
    moreover have "logs_ok (flash s')" "type_get TYPE_CycleAdd (flash s') = (cycle_write s', cycle_read s')"
      using Api_cycle_write_stored [OF fifo do_save(2)] assms(2) unfolding s' by (simp_all add: stored_inv_def)
    ultimately show ?thesis unfolding do_save stored_inv_def using q by (intro conjI exI [of _ "cycle_read s'"]) simp_all
  next
    case (do_send c s')
    then obtain b q' where "q = b # q'" using status by (cases q) auto
    then have "s' = sys d" using Api_cycle_read_head fifo do_send by auto
    then show ?thesis unfolding do_send(1) by (intro keep(2)) simp_all
  next
    case (do_send_fail c s')
    then obtain b q' where "q = b # q'" using status by (cases q) auto
    then show ?thesis using Api_cycle_read_head fifo do_send_fail by auto
  next
    case (do_check ret s')
    then show ?thesis unfolding do_check(1)
      by (intro keep(3)) (auto simp: Api_CHK_ReadCycle_status_def CHK_ReadCycle_status_def)
  next
    case do_ack
    show ?thesis unfolding do_ack(1) by (intro keep(1)) (simp_all add: Api_cycle_Update_def)
  next
    case do_other_ack
    show ?thesis unfolding do_other_ack(1) by (intro keep(3)) (simp_all add: Api_cycle_Update_def)
  next
    case do_give_up
    show ?thesis unfolding do_give_up(1) by (intro keep(3)) simp_all
  qed
qed

lemma stored_inv_run:
  "cycle_run d0 ds d \<Longrightarrow> \<forall>x \<in> set ds. roomy x \<Longrightarrow> delivery_inv d0 \<Longrightarrow> stored_inv d0 \<Longrightarrow> stored_inv d"
  by (induction rule: cycle_run.induct) (auto dest: delivery_inv_run intro: stored_inv_step)

text \<open>
  (C37) A restart loses no waiting position: whenever it comes in a run of the delivery in which at most 16257 positions wait
  at any time, and whatever the variables in memory are then, \<^verbatim>\<open>Api_Read_var_rd_wr\<close> on the same flash finds all
  positions after those that were confirmed when one was saved last. Confirmations after the last save are forgotten, as
  \<^verbatim>\<open>Api_cycle_Update\<close> writes nothing to the flash: those positions are delivered again.
\<close>

theorem cycle_queue_survives_restart:
  assumes "cycle_run d0 ds d" and "\<forall>x \<in> set ds. length (saved x) \<le> length (acked x) + 16257"
    and "saved d0 = []" and "acked d0 = []" and "acks_stored d0 = 0" and "cycle_fifo (sys d0) []" and "ReadCycle_status (sys d0) = RdCycle_Idle"
    and "logs_ok (flash (sys d0))" and "type_get TYPE_CycleAdd (flash (sys d0)) = (cycle_write (sys d0), cycle_read (sys d0))"
    and "flash t = flash (sys d)"
  shows "cycle_fifo (Api_Read_var_rd_wr t) (drop (acks_stored d) (saved d)) \<and>
    cycle_fifo (sys d) (drop (length (acked d)) (saved d)) \<and> acks_stored d \<le> length (acked d)"
proof -
  have r: "\<forall>x \<in> set ds. roomy x" using assms(2) by (simp add: roomy_def)
  have i: "delivery_inv d0" "stored_inv d0" using assms(3-9) by (simp_all add: delivery_inv_def stored_inv_def)
  have "delivery_inv d" using delivery_inv_run [OF assms(1) r i(1)] .
  then have "cycle_fifo (sys d) (drop (length (acked d)) (saved d))" by (auto simp: delivery_inv_def)
  moreover obtain w where "type_get TYPE_CycleAdd (flash t) = (cycle_write (sys d), w)" "acks_stored d \<le> length (acked d)"
    "cycle_fifo ((sys d)\<lparr>cycle_read := w\<rparr>) (drop (acks_stored d) (saved d))"
    using stored_inv_run [OF assms(1) r i] assms(10) by (auto simp: stored_inv_def)
  moreover from this have "cycle_fifo (Api_Read_var_rd_wr t) (drop (acks_stored d) (saved d))"
    using cycle_fifo_cong [of "Api_Read_var_rd_wr t" "(sys d)\<lparr>cycle_read := w\<rparr>"] assms(10)
    by (simp add: Api_Read_var_rd_wr_eq Let_def)
  ultimately show ?thesis by blast
qed

theorem cycle_queue_survives_restart_witness:
  "\<exists>ds d. cycle_run delivery_start ds d \<and> acked d = [first_rec] \<and> cycle_fifo (sys d) [] \<and>
    cycle_fifo (Api_Read_var_rd_wr (blank_store\<lparr>cycle_write := 9, flash := flash (sys d)\<rparr>)) [first_rec]"
proof -
  obtain ds s where r: "cycle_run delivery_start ds \<lparr>sys = s, saved = [first_rec], sent = [first_rec], acked = [first_rec], acks_stored = 0\<rparr>"
    "\<forall>x \<in> set ds. length (saved x) \<le> length (acked x) + 16257" using first_run by auto
  have "flash (blank_store\<lparr>cycle_write := 9, flash := flash s\<rparr>) = flash s" by simp
  with cycle_queue_survives_restart [OF r, of "blank_store\<lparr>cycle_write := 9, flash := flash s\<rparr>"]
  have "cycle_fifo (Api_Read_var_rd_wr (blank_store\<lparr>cycle_write := 9, flash := flash s\<rparr>)) [first_rec]" "cycle_fifo s []"
    using first_store_ok by auto
  then show ?thesis using r(1) by (intro exI [of _ ds] exI [of _ "\<lparr>sys = s, saved = [first_rec], sent = [first_rec], acked = [first_rec], acks_stored = 0\<rparr>"]) simp
qed

text \<open>
  The slot numbers stored by \<^verbatim>\<open>Api_WriteInit_var_rd_wr\<close> are the ones that
  \<^verbatim>\<open>Api_Read_var_rd_wr\<close> restores on the same flash, for all nine record types, whatever the
  variables in memory are; the accident recorder restarts at slot 0.
\<close>

theorem var_rd_wr_roundtrip:
  assumes "logs_ok (flash s)" and "flash t = flash (Api_WriteInit_var_rd_wr s)"
  shows "Api_Read_var_rd_wr t =
    t\<lparr>cycle_write := u32 (cycle_write s), cycle_read := u32 (cycle_read s),
      pic_write := u32 (pic_write s), pic_read := u32 (pic_read s),
      Settingchg_write := u32 (Settingchg_write s), Settingchg_read := u32 (Settingchg_read s),
      AvrgMintPosit_write := u32 (AvrgMintPosit_write s),
      AvrgMintPosit_Read := u32 (AvrgMintPosit_Read s),
      Distance_m_u32 := u32 (Distance_m_u32 s), DayStartDistance_32 := u32 (DayStartDistance_32 s),
      ExpSpdRec_write := u32 (ExpSpdRec_write s), ExpSpdRec_read := u32 (ExpSpdRec_read s),
      TiredDrv_write := u32 (TiredDrv_write s), TiredDrv_read := u32 (TiredDrv_read s),
      AvrgSpdPerMin_write := u32 (AvrgSpdPerMin_write s),
      AvrgSpdPerMin_Read := u32 (AvrgSpdPerMin_Read s),
      Recorder_write := 0, Recorder_Read := 0\<rparr>"
proof -
  have g: "type_get ty (flash t) = (u32 w, u32 r)" if "(ty, w, r) \<in> set (init_pairs s)" for ty w r
    using type_get_init [OF assms(1) that] by (simp add: assms(2) Api_WriteInit_flash)
  note pairs = g [unfolded init_pairs_def, simplified]
  show ?thesis
    by (simp add: Api_Read_var_rd_wr_eq Let_def pairs u32_def)
qed

theorem var_rd_wr_roundtrip_witness:
  "let t = Api_WriteInit_var_rd_wr (blank_store\<lparr>cycle_write := 77, pic_read := 3\<rparr>)
   in cycle_write (Api_Read_var_rd_wr (blank_store\<lparr>flash := flash t\<rparr>)) = 77 \<and>
      pic_read (Api_Read_var_rd_wr (blank_store\<lparr>flash := flash t\<rparr>)) = 3"
  unfolding Let_def
  by (subst (1 2) var_rd_wr_roundtrip [where s = "blank_store\<lparr>cycle_write := 77, pic_read := 3\<rparr>"])
     (simp_all add: u32_def)

text \<open>How the configuration names are written: two interfaces, one for each pair of names.\<close>

definition Config_store :: "string \<Rightarrow> bytes \<Rightarrow> nat \<Rightarrow> store \<Rightarrow> bool \<times> store" where
  "Config_store name buffer len s =
     (if name = config \<or> name = tired_config then Api_Config_write name 0 buffer len s
      else Api_Config_Recwrite_Large name 0 buffer len s)"

definition Config_page :: "string \<Rightarrow> nat" where
  "Config_page name =
     (if name = config then ConfigStart_offset else if name = jt808 then JT808Start_offset
      else if name = tired_config then TiredCondifg_offset else DF_BD_Extend_Page)"

lemma Config_page_cases:
  assumes "name \<in> {config, jt808, tired_config, BD_ext_config}"
  shows "Config_page name \<in> {7000, 7100, 7200, 1176}"
  using assms by (auto simp: Config_page_def)

lemma Config_page_fits:
  assumes "name \<in> {config, jt808, tired_config, BD_ext_config}" and "len \<le> 2048"
  shows "Config_page name < 8192" and "Config_page name mod 8 * 512 + len \<le> 4096"
  using Config_page_cases [OF assms(1)] assms(2) by auto

lemma Config_store_eq:
  assumes "name \<in> {config, jt808, tired_config, BD_ext_config}"
  shows "Config_store name b len s =
    (True, s\<lparr>flash := DF_WriteFlashSector (Config_page name) 0 b len (flash s)\<rparr>)"
  using assms
  by (auto simp: Config_store_def Config_page_def Api_Config_write_def Api_Config_Recwrite_Large_def)

lemma Config_read_eq:
  assumes "name \<in> {config, jt808, tired_config, BD_ext_config}"
  shows "Api_Config_read name ID len s = (True, Some (DF_ReadFlash (Config_page name) 0 len (flash s)))"
  using assms by (auto simp: Api_Config_read_def Config_page_def)

text \<open>
  Configuration: what is stored under one of the four configuration names is read back
  under that name, and the other three names keep their contents, for structures of at most
  2048 bytes (the \<open>jt808\<close> structure starts in the middle of a sector).
\<close>

theorem Config_roundtrip:
  assumes "name \<in> {config, jt808, tired_config, BD_ext_config}"
    and "other \<in> {config, jt808, tired_config, BD_ext_config}" and "other \<noteq> name"
    and "len \<le> 2048" and "len \<le> length b" and "n \<le> 2048"
  shows "\<exists>s'. Config_store name b len s = (True, s') \<and>
    Api_Config_read name ID len s' = (True, Some (take len b)) \<and>
    Api_Config_read other ID n s' = Api_Config_read other ID n s"
proof -
  have "Config_page other div 8 \<noteq> Config_page name div 8"
    using assms(1-3) by (auto simp: Config_page_def)
  with Config_page_fits [OF assms(1,4)] Config_page_fits [OF assms(2,6)] assms show ?thesis
    by (simp only: Config_store_eq Config_read_eq)
       (simp add: DF_WriteFlashSector_read DF_WriteFlashSector_read_other)
qed

theorem Config_roundtrip_witness:
  "\<exists>s'. Config_store jt808 [1, 2, 3] 3 blank_store = (True, s') \<and>
    Api_Config_read jt808 0 3 s' = (True, Some [1, 2, 3]) \<and>
    Api_Config_read config 0 3 s' = Api_Config_read config 0 3 blank_store"
  using Config_roundtrip [of jt808 config 3 "[1, 2, 3]" 3 blank_store 0] by simp

lemma RecordNum_Page_bound: "RecordNum_Page name = Some pg \<Longrightarrow> pg \<le> 7600"
  by (auto simp: RecordNum_Page_def split: if_splits)

text \<open>
  Numbered records: a record of at most 150 bytes stored under a name and number is read
  back, and the first 150 bytes of every record on another page keep their contents.
\<close>

theorem RecordNum_roundtrip:
  assumes "RecordNum_Page name = Some pg" and "num < 256" and "len \<le> 150" and "len \<le> length b"
    and "RecordNum_Page other = Some pg'" and "num' < 256" and "n \<le> 150"
    and "pg' + num' \<noteq> pg + num"
  shows "\<exists>s'. Api_RecordNum_Write name num b len s = (True, s') \<and>
    Api_RecordNum_Read name num len s' = (True, Some (take len b)) \<and>
    Api_RecordNum_Read other num' n s' = Api_RecordNum_Read other num' n s"
proof -
  have pages: "pg + num < 8192" "pg' + num' < 8192"
    using assms(2,6) RecordNum_Page_bound [OF assms(1)] RecordNum_Page_bound [OF assms(5)] by simp_all
  show ?thesis
    using assms pages
    by (simp add: Api_RecordNum_Write_def Api_RecordNum_Read_def u8n_small DF_WriteFlash_read
        DF_WriteFlash_read_other)
qed

theorem RecordNum_roundtrip_witness:
  "\<exists>s'. Api_RecordNum_Write phonebook 2 [1, 2, 3] 3 blank_store = (True, s') \<and>
    Api_RecordNum_Read phonebook 2 3 s' = (True, Some [1, 2, 3]) \<and>
    Api_RecordNum_Read text_msg 5 20 s' = Api_RecordNum_Read text_msg 5 20 blank_store"
  using RecordNum_roundtrip [of phonebook 1440 2 3 "[1, 2, 3]" text_msg 1432 5 20 blank_store]
  by (simp add: RecordNum_Page_def)

text \<open>
  Round fences are stored over the events: \<open>Rail_cycle\<close> uses the pages of \<open>event\<close>, so
  that storing fence \<open>n\<close> replaces event \<open>n\<close>.
\<close>

theorem Rail_cycle_overwrites_event:
  assumes "num < 256" and "len \<le> 150" and "len \<le> length b"
  shows "Api_RecordNum_Read event_808 num len (snd (Api_RecordNum_Write Rail_cycle num b len s)) =
    (True, Some (take len b))"
  using assms
  by (simp add: Api_RecordNum_Write_def Api_RecordNum_Read_def RecordNum_Page_def u8n_small
      DF_WriteFlash_read)

theorem Rail_cycle_overwrites_event_witness:
  "Api_RecordNum_Read event_808 4 2 (snd (Api_RecordNum_Write Rail_cycle 4 [7, 8] 2 blank_store)) =
    (True, Some [7, 8])"
  using Rail_cycle_overwrites_event [of 4 2 "[7, 8]" blank_store] by simp

lemma nor_read_erase_block:
  assumes "x < chip_size" and "a < chip_size" and "0 < n" and "a div n = k"
  shows "nor_read (nor_erase n a f) x =
    (if k * n \<le> x \<and> x < k * n + n then 0xFF else nor_read f x)"
proof -
  have "(x div n = k) = (k * n \<le> x \<and> x < k * n + n)"
  proof
    assume k: "x div n = k"
    have "x = x div n * n + x mod n" "x mod n < n" using assms(3) by simp_all
    then show "k * n \<le> x \<and> x < k * n + n" unfolding k by linarith
  next
    assume "k * n \<le> x \<and> x < k * n + n"
    then show "x div n = k" by (intro div_nat_eqI) (simp_all add: algebra_simps)
  qed
  with assms show ?thesis by (simp add: nor.rd_erase)
qed

text \<open>
  Erasing a media directory erases one aligned block and nothing else. For the first
  camera and for the sound area it begins where the area begins; the areas of the other
  cameras are not block aligned, and their erase also hits the area before them and reaches
  only 56, 112 and 40 pages into their own.
\<close>

theorem Api_DFdirectory_Delete_extent:
  assumes "(name, first, last_page) \<in>
      {(camera_1, 4096, 4224), (camera_2, 4352, 4480), (camera_3, 4736, 4864),
       (camera_4, 4992, 5120), (voice_name, 5248, 5312)}"
    and "x < chip_size"
  shows "nor_read (flash (snd (Api_DFdirectory_Delete name s))) x =
    (if first * 512 \<le> x \<and> x < last_page * 512 then 0xFF else nor_read (flash s) x)"
  using assms(1)
proof (elim insertE emptyE)
  assume "(name, first, last_page) = (camera_1, 4096, 4224)"
  then show ?thesis
    using nor_read_erase_block [OF assms(2), of "PicStart_offset * 512" 65536 32]
    by (simp add: Api_DFdirectory_Delete_def chip_size_def)
next
  assume "(name, first, last_page) = (camera_2, 4352, 4480)"
  then show ?thesis
    using nor_read_erase_block [OF assms(2), of "PicStart_offset2 * 512" 65536 34]
    by (simp add: Api_DFdirectory_Delete_def chip_size_def)
next
  assume "(name, first, last_page) = (camera_3, 4736, 4864)"
  then show ?thesis
    using nor_read_erase_block [OF assms(2), of "PicStart_offset3 * 512" 65536 37]
    by (simp add: Api_DFdirectory_Delete_def chip_size_def)
next
  assume "(name, first, last_page) = (camera_4, 4992, 5120)"
  then show ?thesis
    using nor_read_erase_block [OF assms(2), of "PicStart_offset4 * 512" 65536 39]
    by (simp add: Api_DFdirectory_Delete_def chip_size_def)
next
  assume "(name, first, last_page) = (voice_name, 5248, 5312)"
  then show ?thesis
    using nor_read_erase_block [OF assms(2), of "SoundStart_offdet * 512" 32768 82]
    by (simp add: Api_DFdirectory_Delete_def chip_size_def)
qed

theorem Api_DFdirectory_Delete_extent_witness:
  "nor_read (flash (snd (Api_DFdirectory_Delete camera_2 (blank_store\<lparr>flash := (\<lambda>_. 0)\<rparr>)))) (4400 * 512) = 0xFF
   \<and> nor_read (flash (snd (Api_DFdirectory_Delete camera_2 (blank_store\<lparr>flash := (\<lambda>_. 0)\<rparr>)))) (4480 * 512) = 0"
  using Api_DFdirectory_Delete_extent [of camera_2 4352 4480 "4400 * 512" "blank_store\<lparr>flash := (\<lambda>_. 0)\<rparr>"]
    Api_DFdirectory_Delete_extent [of camera_2 4352 4480 "4480 * 512" "blank_store\<lparr>flash := (\<lambda>_. 0)\<rparr>"]
  by (simp add: chip_size_def nor_read_def)

lemma VechRecord_page: "RecordAdd_Page TYPE_VechRecordAdd = Some 1264"
  by (simp add: RecordAdd_Page_def)

lemma ExpSpd_page: "RecordAdd_Page TYPE_ExpSpdAdd = Some 1232"
  by (simp add: RecordAdd_Page_def)

text \<open>
  The newest accident record: after \<^verbatim>\<open>Api_DFdirectory_Write(doubt_data, ...)\<close> into a
  ready slot, \<^verbatim>\<open>Api_DFdirectory_Read\<close> with \<open>style\<close> 0 and packet 0 returns the record just
  written, except when the write slot number has just wrapped to zero: then it returns false
  and leaves the buffer alone, although all 400 slots are in use.
\<close>

theorem doubt_data_newest_first:
  assumes "Recorder_write s < Max_RecoderNum"
    and "slot_ready VehicleRecStart_offset 2 256 Max_RecoderNum (Recorder_write s) (flash s)"
    and "length b \<le> 256" and "rec_valid b"
  shows "case Api_DFdirectory_Write v doubt_data b (length b) s of (ret, s') \<Rightarrow>
    ret \<and> fst (Api_DFdirectory_Read doubt_data (length b) 0 0 s') = (Recorder_write s \<noteq> 399) \<and>
    fst (snd (Api_DFdirectory_Read doubt_data (length b) 0 0 s')) =
      (if Recorder_write s = 399 then None else Some b)"
proof -
  let ?n = "Recorder_write s"
  let ?f = "slot_write VehicleRecStart_offset 2 256 ?n b (flash s)"
  define s' where "s' = snd (Api_DFdirectory_Write v doubt_data b (length b) s)"
  have blank: "nor_read (slot_open VehicleRecStart_offset 2 256 ?n (flash s))
      (slot_addr VehicleRecStart_offset 2 256 ?n) = 0xFF"
    using drv_ring.open_blank [OF assms(1,2), of 0] by simp
  have wr: "Api_DFdirectory_Write v doubt_data b (length b) s = (True, s')"
    and s'w: "Recorder_write s' = ring_inc Max_RecoderNum ?n"
    and s'f: "flash s' = RecordAdd_put 1264 (ring_inc Max_RecoderNum ?n) (Recorder_Read s) ?f"
    using Save_DrvRecoder_slot [OF assms(1,3), of b s] blank
    by (simp_all add: s'_def Api_DFdirectory_Write_def Let_def DF_Write_RecordAdd_def VechRecord_page)
  have pos: "0 < length b" using assms(4) by (simp add: rec_valid_def)
  show ?thesis
  proof (cases "?n = 399")
    case True
    then have "Recorder_write s' = 0" by (simp add: s'w ring_inc_def u32_def)
    with wr True show ?thesis
      by (simp add: Api_DFdirectory_Read_def DFdirectory_read_addr_def)
  next
    case False
    with assms(1) have n1: "Recorder_write s' = ?n + 1" "?n + 1 < 400"
      by (simp_all add: s'w ring_inc_def u32_def)
    have "slot_read VehicleRecStart_offset 2 256 (length b) ?n (flash s') =
        slot_read VehicleRecStart_offset 2 256 (length b) ?n ?f"
      unfolding s'f using assms(1,3)
      by (intro drv_ring.slot_read_cong nor_read_put_other) (simp_all add: log_page_def)
    then have "slot_read VehicleRecStart_offset 2 256 (length b) ?n (flash s') = b"
      using drv_ring.slot_read_write_same [OF assms(1-3)] by simp
    then have "Read_DrvRecoder ?n (length b) s' = (True, b, s')"
      using Read_DrvRecoder_slot [OF assms(1) pos assms(3), of s'] assms(4) by (simp add: Let_def)
    with wr n1 False show ?thesis
      by (simp add: Api_DFdirectory_Read_def DFdirectory_read_addr_def u16_def)
  qed
qed

theorem doubt_data_newest_first_witness:
  "case Api_DFdirectory_Write \<lparr>Voice_PageCounter = 0, Voice_Reg = []\<rparr> doubt_data [0x12, 0x34, 0x26] 3
      (blank_store\<lparr>Recorder_write := 399\<rparr>) of (ret, s') \<Rightarrow>
    ret \<and> fst (Api_DFdirectory_Read doubt_data 3 0 0 s') = False"
proof -
  let ?s = "blank_store\<lparr>Recorder_write := 399\<rparr>"
  have rdy: "slot_ready VehicleRecStart_offset 2 256 Max_RecoderNum (Recorder_write ?s) (flash ?s)"
    by (simp add: slot_ready_def nor_read_def)
  have lt: "Recorder_write ?s < Max_RecoderNum" by simp
  have v: "rec_valid [0x12, 0x34, 0x26]" by (simp add: rec_valid_def)
  show ?thesis
    using doubt_data_newest_first [OF lt rdy _ v, of "\<lparr>Voice_PageCounter = 0, Voice_Reg = []\<rparr>",
        unfolded length_three]
    by (auto split: prod.splits)
qed

text \<open>
  The speeding records leave their area: their write slot number wraps at 2800 instead
  of 128, so the 129th record erases the first sector of the minute positions (page 3408),
  whatever that sector held, and is written there.
\<close>

theorem spd_warn_overruns_area:
  assumes "ExpSpdRec_write s = 128" and "length b \<le> 32" and "3408 * 512 + length b \<le> x"
    and "x < 3416 * 512"
  shows "nor_read (flash (snd (Api_DFdirectory_Write v spd_warn b (length b) s))) x = 0xFF"
proof -
  let ?e = "nor_erase sector_size (3408 * 512) (flash s)"
  have x: "x < chip_size" "x div 4096 = 426"
    using assms(3,4) by (simp_all add: chip_size_def div_nat_eqI)
  have e: "nor_read ?e y = 0xFF" if "y div 4096 = 426" "y < chip_size" for y
    using that by (intro nor_read_erase_sector) (simp_all add: chip_size_def)
  have "nor_read ?e (3408 * 512) = 0xFF" by (rule e) (simp_all add: chip_size_def)
  then have reg: "DF_ReadFlash 3408 0 (Suc 0) ?e ! 0 = 0xFF"
    by (simp add: DF_ReadFlash_in_range)
  have cw: "flash (snd (Common_WriteContent 128 b (length b) TYPE_ExpSpdAdd s)) =
      prog_all nor_program (3408 * 512) b ?e"
    using reg assms(2)
    by (simp add: Common_WriteContent_def Common_Start_offset_def Let_def Common_set_write_def
        DF_WriteFlashDirect_in_range u16_def u32_def)
  have "nor_read (flash (snd (Api_DFdirectory_Write v spd_warn b (length b) s))) x =
      nor_read (prog_all nor_program (3408 * 512) b ?e) x"
    using x assms(1) cw
    by (simp add: Api_DFdirectory_Write_def Let_def DF_Write_RecordAdd_def ExpSpd_page
        nor_read_put_other log_page_def)
  also have "\<dots> = nor_read ?e x"
    using assms(2,3) x by (subst nor.rd_prog_all) (simp_all add: chip_size_def)
  also have "\<dots> = 0xFF" using x by (intro e)
  finally show ?thesis .
qed

theorem spd_warn_overruns_area_witness:
  "nor_read (flash (snd (Api_DFdirectory_Write \<lparr>Voice_PageCounter = 0, Voice_Reg = []\<rparr> spd_warn
     [1, 2, 3] 3 (blank_store\<lparr>flash := (\<lambda>_. 0), ExpSpdRec_write := 128\<rparr>)))) (3409 * 512) = 0xFF"
  using spd_warn_overruns_area [of "blank_store\<lparr>flash := (\<lambda>_. 0), ExpSpdRec_write := 128\<rparr>" "[1, 2, 3]"
      "3409 * 512" "\<lparr>Voice_PageCounter = 0, Voice_Reg = []\<rparr>", unfolded length_three]
  by simp

end
