(* ===== verification/Frame808.thy ===== *)
theory Frame808
  imports Prelude
begin

text \<open>
  \<^verbatim>\<open>protocol_808/protocol_808.c\<close>: the framing of the JT/T 808 protocol. A frame is the
  escaped message with its exclusive-or check byte between two \<open>0x7E\<close> flags. Received
  frames are unescaped in place in \<^verbatim>\<open>UDP_HEX_Rx\<close> and checked by the first part of
  \<^verbatim>\<open>TCP_RX_Process\<close>.
\<close>

section \<open>Escaping\<close>

text \<open>The loop of \<^verbatim>\<open>Protocol_808_Encode\<close>; the result is what it leaves in \<^verbatim>\<open>Dest\<close>.\<close>

fun encode_loop :: "bytes \<Rightarrow> bytes" where
  "encode_loop [] = []"
| "encode_loop (b # Src) =
     (if b = 0x7e then 0x7d # 0x02 # encode_loop Src
      else if b = 0x7d then 0x7d # 0x01 # encode_loop Src
      else b # encode_loop Src)"

definition Protocol_808_Encode :: "bytes \<Rightarrow> nat \<Rightarrow> bytes" where
  "Protocol_808_Encode Src srclen = encode_loop (take (u16 srclen) Src)"

text \<open>
  \<^verbatim>\<open>Protocol_808_Decode\<close> works in place: \<open>i\<close> reads, \<open>d\<close> (\<^verbatim>\<open>UDP_DecodeHex_Len\<close>) writes. It
  looks at the byte behind a \<open>0x7D\<close> even when that \<open>0x7D\<close> is the last byte received.
\<close>

function decode_loop :: "nat \<Rightarrow> nat \<Rightarrow> nat \<Rightarrow> bytes \<Rightarrow> bytes \<times> nat" where
  "decode_loop len i d buf =
     (if i < len
      then if buf ! i = 0x7d \<and> buf ! (i + 1) = 0x02
           then decode_loop len (i + 2) (d + 1) (buf[d := 0x7e])
           else if buf ! i = 0x7d \<and> buf ! (i + 1) = 0x01
           then decode_loop len (i + 2) (d + 1) (buf[d := 0x7d])
           else decode_loop len (i + 1) (d + 1) (buf[d := buf ! i])
      else (buf, d))"
  by pat_completeness auto
termination
  by (relation "measure (\<lambda>(len, i, d, buf). len - i)") auto

declare decode_loop.simps [simp del]

definition Protocol_808_Decode :: "bytes \<Rightarrow> nat \<Rightarrow> bytes \<times> nat" where
  "Protocol_808_Decode UDP_HEX_Rx UDP_hexRx_len = decode_loop UDP_hexRx_len 0 0 UDP_HEX_Rx"

section \<open>Checking a received frame\<close>

record rx_info =
  rx_buf :: bytes
  rx_len :: nat
  rx_CmdID :: nat
  rx_FloatID :: nat
  rx_infolen :: nat

text \<open>
  The first four steps of \<^verbatim>\<open>TCP_RX_Process\<close>: decode, head filter, identifiers, check byte.
  \<open>None\<close> stands for the early returns.
\<close>

definition TCP_RX_check :: "bytes \<Rightarrow> nat \<Rightarrow> rx_info option" where
  "TCP_RX_check UDP_HEX_Rx UDP_hexRx_len =
     (case Protocol_808_Decode UDP_HEX_Rx UDP_hexRx_len of (buf, n) \<Rightarrow>
        if buf ! 0 \<noteq> 0x7e then None
        else let FCS_RX_UDP = xor_sum (map (\<lambda>i. buf ! (1 + i)) [0..<n - 3])
             in if buf ! (n - 2) \<noteq> FCS_RX_UDP then None
                else Some \<lparr>rx_buf = buf, rx_len = n,
                       rx_CmdID = u16 (of_be16 (buf ! 1) (buf ! 2)),
                       rx_FloatID = u16 (of_be16 (buf ! 11) (buf ! 12)),
                       rx_infolen = u16 (unat (buf ! 3 AND 0x03) * 256) + unat (buf ! 4)\<rparr>)"

section \<open>Escaping and unescaping\<close>

text \<open>Unescaping as a function on lists, the specification of the loop.\<close>

fun unescape :: "bytes \<Rightarrow> bytes" where
  "unescape [] = []"
| "unescape [b] = [b]"
| "unescape (b # c # bs) =
     (if b = 0x7d \<and> c = 0x02 then 0x7e # unescape bs
      else if b = 0x7d \<and> c = 0x01 then 0x7d # unescape bs
      else b # unescape (c # bs))"

lemma unescape_Cons: "b \<noteq> 0x7d \<Longrightarrow> unescape (b # bs) = b # unescape bs"
  by (cases bs) auto

lemma unescape_encode_append: "unescape (encode_loop bs @ cs) = bs @ unescape cs"
  by (induction bs) (simp_all add: unescape_Cons)

lemma unescape_encode: "unescape (encode_loop bs) = bs"
  using unescape_encode_append [of bs "[]"] by simp

lemma encode_no_flag: "0x7e \<notin> set (encode_loop bs)"
  by (induction bs) auto

lemma length_encode_le: "length (encode_loop bs) \<le> 2 * length bs"
  by (induction bs) auto

lemma length_encode_ge: "length bs \<le> length (encode_loop bs)"
  by (induction bs) auto

lemma length_encode:
  "length (encode_loop bs) = length bs + length (filter (\<lambda>b. b = 0x7e \<or> b = 0x7d) bs)"
  by (induction bs) auto

text \<open>
  The in-place loop computes \<open>unescape\<close>: writing never overtakes reading, and the bytes
  from \<open>i\<close> on are still the received ones.
\<close>

definition decode_post :: "nat \<Rightarrow> nat \<Rightarrow> nat \<Rightarrow> bytes \<Rightarrow> bytes \<times> nat \<Rightarrow> bool" where
  "decode_post len i d buf r =
     (snd r = d + length (unescape (drop i (take len buf))) \<and>
      take (snd r) (fst r) = take d buf @ unescape (drop i (take len buf)) \<and>
      length (fst r) = length buf)"

lemma decode_post_step:
  assumes "decode_post len (i + k) (d + 1) (buf[d := x]) r"
    and "unescape (drop i (take len buf)) = x # unescape (drop (i + k) (take len buf))"
    and "d < i + k" and "d < length buf"
  shows "decode_post len i d buf r"
proof -
  have "drop (i + k) (take len (buf[d := x])) = drop (i + k) (take len buf)"
    using assms(3) by (simp add: drop_take)
  moreover have "take (d + 1) (buf[d := x]) = take d buf @ [x]"
    using assms(4) by (simp add: take_Suc_conv_app_nth)
  ultimately show ?thesis
    using assms(1,2) by (auto simp: decode_post_def)
qed

lemma decode_loop_unescape:
  assumes "d \<le> i" and "i \<le> len" and "len \<le> length buf"
    and "len = i \<or> buf ! (len - 1) \<noteq> 0x7d"
  shows "decode_post len i d buf (decode_loop len i d buf)"
  using assms
proof (induction len i d buf rule: decode_loop.induct)
  case (1 len i d buf)
  show ?case
  proof (cases "i < len")
    case False
    with 1(4-6) show ?thesis by (simp add: decode_loop.simps decode_post_def)
  next
    case True
    let ?u = "take len buf"
    have d: "d < length buf" using 1(4-6) True by simp
    have i: "drop i ?u = buf ! i # drop (i + 1) ?u"
      using True 1(6) by (simp add: Cons_nth_drop_Suc [symmetric])
    have last: "buf ! (len - 1) \<noteq> 0x7d" using 1(7) True by simp
    have later: "len = i + k \<or> buf[d := x] ! (len - 1) \<noteq> 0x7d" if "i + k \<le> len" "0 < k" for k x
    proof (cases "len = i + k")
      case False
      with that 1(4) have "d \<noteq> len - 1" by linarith
      with last show ?thesis by simp
    qed simp
    show ?thesis
    proof (cases "buf ! i = 0x7d \<and> (buf ! (i + 1) = 0x02 \<or> buf ! (i + 1) = 0x01)")
      case esc: True
      with last have "i \<noteq> len - 1" by auto
      with True have i1: "i + 1 < len" by linarith
      then have u: "drop i ?u = 0x7d # buf ! (i + 1) # drop (i + 2) ?u"
        using i esc 1(6) by (simp add: Cons_nth_drop_Suc [symmetric])
      define x where "x = (if buf ! (i + 1) = 0x02 then 0x7e else 0x7d :: u8)"
      have eq: "decode_loop len i d buf = decode_loop len (i + 2) (d + 1) (buf[d := x])"
        using True esc by (subst decode_loop.simps) (auto simp: x_def)
      have "decode_post len (i + 2) (d + 1) (buf[d := x]) (decode_loop len (i + 2) (d + 1) (buf[d := x]))"
      proof (cases "buf ! (i + 1) = 0x02")
        case two: True
        then have x: "x = 0x7e" by (simp add: x_def)
        show ?thesis
          unfolding x using 1(4-6) i1 later [of 2 "0x7e"] esc two
          by (intro 1(1) [OF True]) simp_all
      next
        case one: False
        then have x: "x = 0x7d" by (simp add: x_def)
        show ?thesis
          unfolding x using 1(4-6) i1 later [of 2 "0x7d"] esc one
          by (intro 1(2) [OF True]) simp_all
      qed
      moreover have "unescape (drop i ?u) = x # unescape (drop (i + 2) ?u)"
        unfolding u using esc by (auto simp: x_def)
      moreover have "d < i + 2" using 1(4) by simp
      ultimately show ?thesis
        unfolding eq using d by (rule decode_post_step)
    next
      case plain: False
      have eq: "decode_loop len i d buf = decode_loop len (i + 1) (d + 1) (buf[d := buf ! i])"
        using True plain by (subst decode_loop.simps) auto
      have "decode_post len (i + 1) (d + 1) (buf[d := buf ! i])
          (decode_loop len (i + 1) (d + 1) (buf[d := buf ! i]))"
        using 1(4-6) True plain later [of 1 "buf ! i"]
        by (intro 1(3) [OF True]) simp_all
      moreover have "unescape (drop i ?u) = buf ! i # unescape (drop (i + 1) ?u)"
      proof (cases "i + 1 < len")
        case True
        then have "drop (i + 1) ?u = buf ! (i + 1) # drop (i + 2) ?u"
          using 1(6) by (simp add: Cons_nth_drop_Suc [symmetric])
        with i plain show ?thesis by auto
      qed (simp add: i)
      moreover have "d < i + 1" using 1(4) by simp
      ultimately show ?thesis
        unfolding eq using d by (rule decode_post_step)
    qed
  qed
qed

lemma Protocol_808_Decode_unescape:
  assumes "len \<le> length buf" and "len = 0 \<or> buf ! (len - 1) \<noteq> 0x7d"
  shows "snd (Protocol_808_Decode buf len) = length (unescape (take len buf))"
    and "take (snd (Protocol_808_Decode buf len)) (fst (Protocol_808_Decode buf len)) =
      unescape (take len buf)"
    and "length (fst (Protocol_808_Decode buf len)) = length buf"
  using decode_loop_unescape [of 0 0 len buf] assms
  by (auto simp: Protocol_808_Decode_def decode_post_def)

section \<open>Frames\<close>

text \<open>
  The contract of a byte-stuffing code: it can be undone and its output is free of the flag.
  Then a sequence of flagged frames has only one reading.
\<close>

locale framing =
  fixes enc :: "'m \<Rightarrow> 'b list" and dec :: "'b list \<Rightarrow> 'm" and flag :: 'b
  assumes dec_enc: "dec (enc m) = m" and no_flag: "flag \<notin> set (enc m)"
begin

lemma enc_inj: "enc m = enc m' \<Longrightarrow> m = m'"
  using dec_enc by metis

lemma frame_inj:
  assumes "flag # enc m @ flag # xs = flag # enc m' @ flag # ys"
  shows "m = m' \<and> xs = ys"
proof -
  have tw: "takeWhile (\<lambda>b. b \<noteq> flag) (enc a @ flag # zs) = enc a" for a zs
    using no_flag [of a] by (subst takeWhile_append2) auto
  have "enc m = takeWhile (\<lambda>b. b \<noteq> flag) (enc m @ flag # xs)" by (simp only: tw)
  also have "\<dots> = takeWhile (\<lambda>b. b \<noteq> flag) (enc m' @ flag # ys)" using assms by simp
  also have "\<dots> = enc m'" by (simp only: tw)
  finally have "enc m = enc m'" .
  with assms show ?thesis by (auto dest: enc_inj)
qed

lemma frames_inj:
  "concat (map (\<lambda>m. flag # enc m @ [flag]) ms) = concat (map (\<lambda>m. flag # enc m @ [flag]) ms') \<Longrightarrow>
    ms = ms'"
proof (induction ms arbitrary: ms')
  case Nil
  then show ?case by (cases ms') auto
next
  case (Cons m ms)
  then obtain m' rest where ms': "ms' = m' # rest" by (cases ms') auto
  from Cons.prems have "flag # enc m @ flag # concat (map (\<lambda>m. flag # enc m @ [flag]) ms) =
      flag # enc m' @ flag # concat (map (\<lambda>m. flag # enc m @ [flag]) rest)"
    by (simp add: ms')
  with frame_inj Cons.IH show ?case by (fastforce simp: ms')
qed

end

interpretation jt808: framing encode_loop unescape "0x7e :: u8"
  by unfold_locales (rule unescape_encode, rule encode_no_flag)

text \<open>The frame for a message: what \<^verbatim>\<open>Protocol_End\<close> leaves in \<^verbatim>\<open>GPRS_info\<close>.\<close>

definition frame808 :: "bytes \<Rightarrow> bytes" where
  "frame808 m = 0x7e # encode_loop (m @ [xor_sum m]) @ [0x7e]"

lemma length_frame808_le: "length (frame808 m) \<le> 2 * length m + 4"
  using length_encode_le [of "m @ [xor_sum m]"] by (simp add: frame808_def)

lemma unescape_flagged: "unescape (0x7e # encode_loop c @ [0x7e]) = 0x7e # c @ [0x7e]"
  by (simp add: unescape_Cons unescape_encode_append)

text \<open>Decoding a flagged frame at the start of the receive buffer.\<close>

lemma decode_flagged:
  assumes "f = 0x7e # encode_loop c @ [0x7e]"
  shows "snd (Protocol_808_Decode (f @ rest) (length f)) = length c + 2"
    and "take (length c + 2) (fst (Protocol_808_Decode (f @ rest) (length f))) = 0x7e # c @ [0x7e]"
proof -
  have "(f @ rest) ! (length f - 1) \<noteq> 0x7d" by (simp add: assms nth_append nth_Cons')
  with Protocol_808_Decode_unescape [of "length f" "f @ rest"] unescape_flagged [of c]
  show "snd (Protocol_808_Decode (f @ rest) (length f)) = length c + 2"
    and "take (length c + 2) (fst (Protocol_808_Decode (f @ rest) (length f))) = 0x7e # c @ [0x7e]"
    by (simp_all add: assms)
qed

lemma TCP_RX_check_flagged:
  assumes "f = 0x7e # encode_loop c @ [0x7e]" and "c \<noteq> []"
  shows "(TCP_RX_check (f @ rest) (length f) \<noteq> None) = (xor_sum c = 0)"
    and "xor_sum c = 0 \<Longrightarrow> 12 < length c \<Longrightarrow>
      (\<exists>buf. TCP_RX_check (f @ rest) (length f) =
        Some \<lparr>rx_buf = buf, rx_len = length c + 2, rx_CmdID = of_be16 (c ! 0) (c ! 1),
          rx_FloatID = of_be16 (c ! 10) (c ! 11),
          rx_infolen = unat (c ! 2 AND 0x03) * 256 + unat (c ! 3)\<rparr> \<and>
        take (length c + 2) buf = 0x7e # c @ [0x7e])"
proof -
  let ?buf = "fst (Protocol_808_Decode (f @ rest) (length f))"
  let ?n = "length c"
  have n: "snd (Protocol_808_Decode (f @ rest) (length f)) = ?n + 2"
    and tk: "take (?n + 2) ?buf = 0x7e # c @ [0x7e]"
    using decode_flagged [OF assms(1)] by simp_all
  have at: "?buf ! i = (0x7e # c @ [0x7e]) ! i" if "i < ?n + 2" for i
    using that tk by (metis nth_take)
  have c: "?buf ! (1 + i) = c ! i" if "i < ?n" for i
    using that at [of "1 + i"] by (simp add: nth_append)
  have c': "?buf ! k = c ! (k - 1)" if "0 < k" "k \<le> ?n" for k
    using that c [of "k - 1"] by simp
  have pos: "0 < ?n" using assms(2) by simp
  have body: "map (\<lambda>i. ?buf ! (1 + i)) [0..<?n + 2 - 3] = take (?n - 1) c"
    using c by (intro nth_equalityI) simp_all
  have last: "?buf ! (?n + 2 - 2) = c ! (?n - 1)"
    using c [of "?n - 1"] pos by simp
  have "take (Suc (?n - 1)) c = take (?n - 1) c @ [c ! (?n - 1)]"
    using pos by (intro take_Suc_conv_app_nth) simp
  then have split: "c = take (?n - 1) c @ [c ! (?n - 1)]" using pos by simp
  have fcs: "(c ! (?n - 1) = xor_sum (take (?n - 1) c)) = (xor_sum c = 0)"
    by (subst (3) split) (auto simp: xor_eq_0_iff)
  have chk: "TCP_RX_check (f @ rest) (length f) =
      (if xor_sum c = 0 then Some \<lparr>rx_buf = ?buf, rx_len = ?n + 2,
         rx_CmdID = u16 (of_be16 (?buf ! 1) (?buf ! 2)),
         rx_FloatID = u16 (of_be16 (?buf ! 11) (?buf ! 12)),
         rx_infolen = u16 (unat (?buf ! 3 AND 0x03) * 256) + unat (?buf ! 4)\<rparr> else None)"
    unfolding TCP_RX_check_def split_beta Let_def n body last
    using at [of 0] fcs by simp
  show "(TCP_RX_check (f @ rest) (length f) \<noteq> None) = (xor_sum c = 0)"
    by (simp add: chk)
  assume ok: "xor_sum c = 0" "12 < ?n"
  have "?buf ! 1 = c ! 0" "?buf ! 2 = c ! 1" "?buf ! 3 = c ! 2" "?buf ! 4 = c ! 3"
    "?buf ! 11 = c ! 10" "?buf ! 12 = c ! 11"
    using c' [of 1] c' [of 2] c' [of 3] c' [of 4] c' [of 11] c' [of 12] ok(2) by simp_all
  moreover have "u16 (unat (c ! 2 AND 0x03) * 256) = unat (c ! 2 AND 0x03) * 256"
  proof (rule u16_small)
    have "unat (c ! 2 AND 0x03) \<le> unat (0x03 :: u8)"
      by (simp only: word_le_nat_alt [symmetric] word_and_le1)
    then show "unat (c ! 2 AND 0x03) * 256 < 65536" by simp
  qed
  ultimately show "\<exists>buf. TCP_RX_check (f @ rest) (length f) =
      Some \<lparr>rx_buf = buf, rx_len = ?n + 2, rx_CmdID = of_be16 (c ! 0) (c ! 1),
        rx_FloatID = of_be16 (c ! 10) (c ! 11),
        rx_infolen = unat (c ! 2 AND 0x03) * 256 + unat (c ! 3)\<rparr> \<and>
      take (?n + 2) buf = 0x7e # c @ [0x7e]"
    using chk ok(1) tk by (simp add: u16_of_be16)
qed

text \<open>The frame of a message passes the receiver's check.\<close>

lemma frame808_check:
  assumes "12 \<le> length m"
  shows "\<exists>buf. TCP_RX_check (frame808 m @ rest) (length (frame808 m)) =
      Some \<lparr>rx_buf = buf, rx_len = length m + 3, rx_CmdID = of_be16 (m ! 0) (m ! 1),
        rx_FloatID = of_be16 (m ! 10) (m ! 11),
        rx_infolen = unat (m ! 2 AND 0x03) * 256 + unat (m ! 3)\<rparr> \<and>
      take (length m + 3) buf = 0x7e # m @ [xor_sum m, 0x7e]"
proof -
  let ?c = "m @ [xor_sum m]"
  have "xor_sum ?c = 0" by (rule xor_sum_closed)
  with TCP_RX_check_flagged(2) [of "frame808 m" ?c rest] assms show ?thesis
    by (auto simp: frame808_def nth_append numeral_3_eq_3)
qed

section \<open>Properties\<close>

text \<open>
  (C40) Escaping round trip: a frame made with \<^verbatim>\<open>Protocol_808_Encode\<close> that arrives at the
  start of the receive buffer is unescaped in place by \<^verbatim>\<open>Protocol_808_Decode\<close> to exactly the
  original bytes between the two flags, whatever follows it in the buffer.
\<close>

theorem Protocol_808_roundtrip:
  assumes "length m < 65536" and "f = 0x7e # Protocol_808_Encode m (length m) @ [0x7e]"
  shows "case Protocol_808_Decode (f @ rest) (length f) of (buf, n) \<Rightarrow>
    n = length m + 2 \<and> take n buf = 0x7e # m @ [0x7e]"
proof -
  have "f = 0x7e # encode_loop m @ [0x7e]"
    using assms by (simp add: Protocol_808_Encode_def u16_small)
  then show ?thesis using decode_flagged [of f m rest] by (simp add: split_beta)
qed

theorem Protocol_808_roundtrip_witness:
  "let f = [0x7e, 0x7d, 0x02, 0x30, 0x7d, 0x01, 0x7e]
   in case Protocol_808_Decode (f @ [9, 9]) (length f) of (buf, n) \<Rightarrow>
        n = length [0x7e, 0x30, 0x7d :: u8] + 2 \<and> take n buf = [0x7e, 0x7e, 0x30, 0x7d, 0x7e]"
proof -
  have "Protocol_808_Encode [0x7e, 0x30, 0x7d] (length [0x7e, 0x30, 0x7d :: u8]) =
      [0x7d, 0x02, 0x30, 0x7d, 0x01]"
    by (simp add: Protocol_808_Encode_def u16_def)
  then show ?thesis
    using Protocol_808_roundtrip [of "[0x7e, 0x30, 0x7d]" "[0x7e, 0x7d, 0x02, 0x30, 0x7d, 0x01, 0x7e]" "[9, 9]"]
    by (simp add: Let_def)
qed

text \<open>
  A frame is accepted: the frame of any message with at least the twelve header bytes
  passes the head filter and the check of \<^verbatim>\<open>TCP_RX_Process\<close>, which recovers the message
  identifier, the serial number and the low ten bits of the length field.
\<close>

theorem frame808_accepted:
  assumes "12 \<le> length m"
  shows "\<exists>buf. TCP_RX_check (frame808 m @ rest) (length (frame808 m)) =
      Some \<lparr>rx_buf = buf, rx_len = length m + 3, rx_CmdID = of_be16 (m ! 0) (m ! 1),
        rx_FloatID = of_be16 (m ! 10) (m ! 11),
        rx_infolen = unat (m ! 2 AND 0x03) * 256 + unat (m ! 3)\<rparr> \<and>
      take (length m + 3) buf = 0x7e # m @ [xor_sum m, 0x7e]"
  using assms by (rule frame808_check)

theorem frame808_accepted_witness:
  "\<exists>buf. TCP_RX_check (frame808 [0x80, 1, 0, 5, 1, 2, 3, 4, 5, 6, 0, 0x7d, 7]) (length (frame808 [0x80, 1, 0, 5, 1, 2, 3, 4, 5, 6, 0, 0x7d, 7])) =
      Some \<lparr>rx_buf = buf, rx_len = 16, rx_CmdID = 0x8001, rx_FloatID = 0x7d, rx_infolen = 5\<rparr>"
  using frame808_accepted [of "[0x80, 1, 0, 5, 1, 2, 3, 4, 5, 6, 0, 0x7d, 7]" "[]"]
  by (auto simp: of_be16_def)

text \<open>
  (C21) A damaged frame is rejected: if one byte of a message or its check byte differs from
  what was sent, whatever the other value is, the check of \<^verbatim>\<open>TCP_RX_Process\<close> fails.
\<close>

theorem frame808_damage_rejected:
  assumes "i \<le> length m" and "b \<noteq> (m @ [xor_sum m]) ! i"
    and "f = 0x7e # encode_loop ((m @ [xor_sum m])[i := b]) @ [0x7e]"
  shows "TCP_RX_check (f @ rest) (length f) = None"
proof -
  let ?c = "m @ [xor_sum m]"
  have "xor_sum (?c[i := b]) \<noteq> xor_sum ?c"
    using assms(1,2) xor_sum_update [of i ?c b] by simp
  then have "xor_sum (?c[i := b]) \<noteq> 0" unfolding xor_sum_closed .
  moreover have "?c[i := b] \<noteq> []" by simp
  ultimately show ?thesis using TCP_RX_check_flagged(1) [OF assms(3), of rest] by blast
qed

theorem frame808_damage_rejected_witness:
  "TCP_RX_check [0x7e, 0x10, 0x7d, 0x02, 0x22, 0x7e] (length [0x7e, 0x10, 0x7d, 0x02, 0x22, 0x7e :: u8]) = None"
  using frame808_damage_rejected [of 1 "[0x10, 0x32]" "0x7e" "[0x7e, 0x10, 0x7d, 0x02, 0x22, 0x7e]" "[]"]
  by simp

text \<open>
  The byte stream is unambiguous: two sequences of messages whose frames give the same
  bytes are equal, because the escaped message never contains the flag.
\<close>

theorem frames808_unambiguous:
  "(concat (map frame808 ms) = concat (map frame808 ms')) = (ms = ms')"
proof
  assume "concat (map frame808 ms) = concat (map frame808 ms')"
  then have "map (\<lambda>m. m @ [xor_sum m]) ms = map (\<lambda>m. m @ [xor_sum m]) ms'"
    by (intro jt808.frames_inj) (simp add: frame808_def [abs_def] o_def)
  then have "map butlast (map (\<lambda>m. m @ [xor_sum m]) ms) = map butlast (map (\<lambda>m. m @ [xor_sum m]) ms')"
    by (rule arg_cong)
  then show "ms = ms'" by (simp add: o_def)
qed simp

end
