(* ===== verification/Device_State.thy ===== *)
theory Device_State
  imports Store_Api Frame808
begin

text \<open>
  The global variables that the protocol, multimedia and camera code share: the structures
  of \<^verbatim>\<open>Protocol_808.h\<close> and \<^verbatim>\<open>App_485.h\<close> as records, with the fields the modelled functions
  use, the message buffer \<^verbatim>\<open>Original_info\<close> with its write index, and the frames handed to
  the modem. Unsigned fields of 8 and 16 bits that only hold states and counters are natural
  numbers; data bytes are words.
\<close>

section \<open>Structures\<close>

text \<open>\<^verbatim>\<open>MULTIMEDIA\<close>\<close>

record multimedia =
  Media_ID :: nat
  Media_Type :: nat
  Media_CodeType :: nat
  Event_Code :: nat
  Media_Channel :: nat
  SD_Eventstate :: nat
  SD_media_Flag :: nat
  SD_Data_Flag :: nat
  SD_timer :: nat
  MaxSd_counter :: nat
  Media_transmittingFlag :: nat
  Media_totalPacketNum :: nat
  Media_currentPacketNum :: nat
  RSD_State :: nat
  RSD_Timer :: nat
  RSD_Reader :: nat
  RSD_total :: nat
  Media_ReSdList :: bytes

text \<open>\<^verbatim>\<open>_Media_SD_state\<close>\<close>

record media_sd_state =
  SD_flag :: nat
  photo_sending :: nat
  SD_packetNum :: nat
  Total_packetNum :: nat
  Data_SD_counter :: nat
  Exeption_timer :: nat

text \<open>The current position: \<^verbatim>\<open>Gps_Gprs\<close> and the position globals of \<^verbatim>\<open>protocol_808.c\<close>.\<close>

record gps_info =
  Warn_Status :: bytes
  Car_Status :: bytes
  Latitude :: bytes
  Longitude :: bytes
  GPS_Hight :: nat
  Speed_gps :: nat
  GPS_speed :: nat
  GPS_direction :: nat
  Speed_cacu :: nat
  gps_Date :: bytes
  gps_Time :: bytes

text \<open>Vehicle and terminal data, \<^verbatim>\<open>BD_EXT\<close>, \<^verbatim>\<open>InOut_Object\<close> and the pending answers.\<close>

record terminal_info =
  SIM_code :: bytes
  Dev_ProvinceID :: nat
  Dev_CityID :: nat
  DeviceNumberID :: bytes
  Dev_Color :: u8
  Vech_Num :: bytes
  ConfirmCode :: bytes
  Conf_Distance_m_u32 :: nat
  Speed_warn_MAX :: nat
  Extent_IO_status :: u8
  FJ_SignalValue :: nat
  FJ_IO_1 :: u8
  FJ_IO_2 :: u8
  AD_0 :: nat
  AD_1 :: nat
  InOut_TYPE :: u8
  InOut_ID :: nat
  InOutState :: u8

record answer_info =
  Centre_CmdID :: nat
  Centre_FloatID :: nat
  f_CentreCMDack_0001H :: nat
  f_CentreCMDack_resualt :: u8
  f_BD_CentreTakeAck_0805H :: nat
  Event_ID :: u8
  ASK_floatID :: nat
  ASK_answerID :: u8
  INFO_TYPE :: u8
  INFO_PlyCancel :: u8
  SingleCamra_TakeResualt_BD :: nat

text \<open>\<^verbatim>\<open>_MultiTake\<close>, \<^verbatim>\<open>Camera_state\<close> and the receive state of the RS-485 line.\<close>

record multi_take =
  Taking :: nat
  Transfering :: nat
  CurretCameraNum :: nat
  TakeResult :: "nat list"
  Take_retry :: nat
  Take_success_counter :: nat

record camera_state =
  camera_running :: nat
  timeoutCounter :: nat
  block_counter :: nat
  cam_status :: nat
  OperateFlag :: nat
  create_Flag :: nat

record rs485_state =
  rx485_receiveflag :: nat
  rx485_RxLen :: nat
  dev_rx_485 :: bytes
  dev_wr_485 :: nat
  content_485 :: bytes
  content_wr_485 :: nat
  CameraData_Enable_485 :: nat
  PackageLen :: nat
  last_package :: nat
  TX_485const_Enable :: nat
  Take_photo :: bytes
  Fectch_photo :: bytes
  Poll_Enble :: nat
  Lcd_RxInfo :: bytes
  Lcd_RxInfolen :: nat
  Lcd_Process_Enable :: nat
  Lcd_Enable_Flag :: nat
  Power_485CH1 :: bool

section \<open>The device\<close>

record device =
  st :: store
  Original_info :: bytes
  Original_info_Wr :: nat
  tx :: "(bytes \<times> nat) list"
  Msg_Float_ID :: nat
  MediaObj :: multimedia
  Photo_sdState :: media_sd_state
  Sound_sdState :: media_sd_state
  Video_sdState :: media_sd_state
  Camera_Number :: nat
  gps :: gps_info
  terminal :: terminal_info
  ans :: answer_info
  mp3_sendstate :: nat
  mp3_fsize :: nat
  wmv_sendstate :: nat
  wmv_fsize :: nat
  VocREC_running :: nat
  MultiTake :: multi_take
  CameraState :: camera_state
  SingleCamera_TakeRetry :: nat
  rs485 :: rs485_state
  out485 :: "bytes list"
  OpenDoor_StartTakeFlag :: nat
  Opendoor_transFLAG :: nat
  DoorOpen_currentState :: nat
  DoorOpen_BakState :: nat
  One_second_Counter_485 :: nat
  Duomeiti_sdFlag :: nat
  time_hour :: nat
  time_min :: nat
  time_sec :: nat
  ISP_running_state :: nat
  DEV_Login_Operate_enable :: nat
  DataLink_OK :: bool

abbreviation (input) other :: nat where "other \<equiv> 2"
abbreviation (input) transfer_state :: nat where "transfer_state \<equiv> 3"

section \<open>The message buffer\<close>

text \<open>
  \<open>put bs d\<close> stores bytes at the write index and moves the index behind them, as the
  assignments \<^verbatim>\<open>Original_info[Original_info_Wr++] = x\<close> and the copies do; \<open>poke\<close> stores
  them without moving the index. \<open>msg d\<close> is the message built so far.
\<close>

definition splice :: "nat \<Rightarrow> bytes \<Rightarrow> bytes \<Rightarrow> bytes" where
  "splice k bs buf = take k buf @ bs @ drop (k + length bs) buf"

definition poke :: "bytes \<Rightarrow> device \<Rightarrow> device" where
  "poke bs d = d\<lparr>Original_info := splice (Original_info_Wr d) bs (Original_info d)\<rparr>"

definition advance :: "nat \<Rightarrow> device \<Rightarrow> device" where
  "advance n d = d\<lparr>Original_info_Wr := Original_info_Wr d + n\<rparr>"

definition put :: "bytes \<Rightarrow> device \<Rightarrow> device" where
  "put bs d = advance (length bs) (poke bs d)"

definition msg :: "device \<Rightarrow> bytes" where
  "msg d = take (Original_info_Wr d) (Original_info d)"

text \<open>The index stays inside the buffer.\<close>

definition buf_ok :: "device \<Rightarrow> bool" where
  "buf_ok d = (Original_info_Wr d \<le> length (Original_info d))"

lemma take_splice: "k \<le> length buf \<Longrightarrow> take (k + length bs) (splice k bs buf) = take k buf @ bs"
  by (simp add: splice_def)

lemma take_splice_part:
  "k \<le> length buf \<Longrightarrow> n \<le> length bs \<Longrightarrow> take (k + n) (splice k bs buf) = take k buf @ take n bs"
  by (simp add: splice_def min_def)

lemma length_splice: "k \<le> length buf \<Longrightarrow> k + length bs \<le> length (splice k bs buf)"
  by (simp add: splice_def)

lemma msg_put [simp]: "buf_ok d \<Longrightarrow> msg (put bs d) = msg d @ bs"
  by (simp add: msg_def put_def poke_def advance_def buf_ok_def take_splice)

lemma buf_ok_put [simp]: "buf_ok d \<Longrightarrow> buf_ok (put bs d)"
  by (simp add: put_def poke_def advance_def buf_ok_def length_splice)

lemma msg_poke_advance:
  "buf_ok d \<Longrightarrow> n \<le> length bs \<Longrightarrow> msg (advance n (poke bs d)) = msg d @ take n bs"
  by (simp add: msg_def poke_def advance_def buf_ok_def take_splice_part)

lemma buf_ok_poke_advance:
  "buf_ok d \<Longrightarrow> n \<le> length bs \<Longrightarrow> buf_ok (advance n (poke bs d))"
  using length_splice [of "Original_info_Wr d" "Original_info d" bs]
  by (simp add: poke_def advance_def buf_ok_def)

lemma put_fields [simp]:
  "st (put bs d) = st d" "tx (put bs d) = tx d" "Msg_Float_ID (put bs d) = Msg_Float_ID d"
  "MediaObj (put bs d) = MediaObj d" "Photo_sdState (put bs d) = Photo_sdState d"
  "Sound_sdState (put bs d) = Sound_sdState d" "Video_sdState (put bs d) = Video_sdState d"
  "Camera_Number (put bs d) = Camera_Number d" "gps (put bs d) = gps d"
  "terminal (put bs d) = terminal d" "ans (put bs d) = ans d"
  by (simp_all add: put_def poke_def advance_def)

lemma poke_fields [simp]:
  "st (poke bs d) = st d" "tx (poke bs d) = tx d" "Msg_Float_ID (poke bs d) = Msg_Float_ID d"
  "MediaObj (poke bs d) = MediaObj d" "Photo_sdState (poke bs d) = Photo_sdState d"
  "Sound_sdState (poke bs d) = Sound_sdState d" "Video_sdState (poke bs d) = Video_sdState d"
  "Camera_Number (poke bs d) = Camera_Number d" "gps (poke bs d) = gps d"
  "terminal (poke bs d) = terminal d" "ans (poke bs d) = ans d"
  by (simp_all add: poke_def)

lemma advance_fields [simp]:
  "st (advance n d) = st d" "tx (advance n d) = tx d" "Msg_Float_ID (advance n d) = Msg_Float_ID d"
  "MediaObj (advance n d) = MediaObj d" "Photo_sdState (advance n d) = Photo_sdState d"
  "Sound_sdState (advance n d) = Sound_sdState d" "Video_sdState (advance n d) = Video_sdState d"
  "Camera_Number (advance n d) = Camera_Number d" "gps (advance n d) = gps d"
  "terminal (advance n d) = terminal d" "ans (advance n d) = ans d"
  by (simp_all add: advance_def)

text \<open>
  Everything but the message buffer: \<open>nobuf\<close> is not changed by storing message bytes and
  commutes with the updates of the other fields.
\<close>

definition nobuf :: "device \<Rightarrow> device" where
  "nobuf d = d\<lparr>Original_info := [], Original_info_Wr := 0\<rparr>"

lemma nobuf_buf [simp]:
  "nobuf (put bs d) = nobuf d" "nobuf (poke bs d) = nobuf d" "nobuf (advance n d) = nobuf d"
  "nobuf (d\<lparr>Original_info := b\<rparr>) = nobuf d" "nobuf (d\<lparr>Original_info_Wr := n\<rparr>) = nobuf d"
  by (simp_all add: nobuf_def put_def poke_def advance_def)

lemma nobuf_upd [simp]:
  "nobuf (d\<lparr>st := s\<rparr>) = (nobuf d)\<lparr>st := s\<rparr>"
  "nobuf (d\<lparr>tx := t\<rparr>) = (nobuf d)\<lparr>tx := t\<rparr>"
  "nobuf (d\<lparr>Msg_Float_ID := n\<rparr>) = (nobuf d)\<lparr>Msg_Float_ID := n\<rparr>"
  "nobuf (d\<lparr>MediaObj := m\<rparr>) = (nobuf d)\<lparr>MediaObj := m\<rparr>"
  "nobuf (d\<lparr>Photo_sdState := p\<rparr>) = (nobuf d)\<lparr>Photo_sdState := p\<rparr>"
  "nobuf (d\<lparr>Sound_sdState := p\<rparr>) = (nobuf d)\<lparr>Sound_sdState := p\<rparr>"
  "nobuf (d\<lparr>Video_sdState := p\<rparr>) = (nobuf d)\<lparr>Video_sdState := p\<rparr>"
  by (simp_all add: nobuf_def)

lemma nobuf_fields [simp]:
  "st (nobuf d) = st d" "tx (nobuf d) = tx d" "Msg_Float_ID (nobuf d) = Msg_Float_ID d"
  "MediaObj (nobuf d) = MediaObj d" "Photo_sdState (nobuf d) = Photo_sdState d"
  "Sound_sdState (nobuf d) = Sound_sdState d" "Video_sdState (nobuf d) = Video_sdState d"
  "Camera_Number (nobuf d) = Camera_Number d" "gps (nobuf d) = gps d"
  "terminal (nobuf d) = terminal d" "ans (nobuf d) = ans d" "DataLink_OK (nobuf d) = DataLink_OK d"
  "DEV_Login_Operate_enable (nobuf d) = DEV_Login_Operate_enable d"
  "MultiTake (nobuf d) = MultiTake d"
  by (simp_all add: nobuf_def)

section \<open>A device at rest\<close>

text \<open>
  A device whose globals have their initial values, over a given store; the position lies
  at zero with an alarm word of four zero bytes.
\<close>

definition idle_media_sd :: media_sd_state where
  "idle_media_sd = \<lparr>SD_flag = 0, photo_sending = 0, SD_packetNum = 0, Total_packetNum = 0,
     Data_SD_counter = 0, Exeption_timer = 0\<rparr>"

definition idle_device :: "store \<Rightarrow> device" where
  "idle_device s =
     \<lparr>st = s, Original_info = replicate 850 0, Original_info_Wr = 0, tx = [], Msg_Float_ID = 0,
      MediaObj = \<lparr>Media_ID = 1, Media_Type = 0, Media_CodeType = 0, Event_Code = 0,
        Media_Channel = 0, SD_Eventstate = 0, SD_media_Flag = 0, SD_Data_Flag = 0, SD_timer = 0,
        MaxSd_counter = 0, Media_transmittingFlag = 0, Media_totalPacketNum = 0,
        Media_currentPacketNum = 0, RSD_State = 0, RSD_Timer = 0, RSD_Reader = 0, RSD_total = 0,
        Media_ReSdList = replicate 10 0\<rparr>,
      Photo_sdState = idle_media_sd, Sound_sdState = idle_media_sd, Video_sdState = idle_media_sd,
      Camera_Number = 1,
      gps = \<lparr>Warn_Status = [0, 0, 0, 0], Car_Status = [0, 0, 0, 0], Latitude = [0, 0, 0, 0],
        Longitude = [0, 0, 0, 0], GPS_Hight = 0, Speed_gps = 0, GPS_speed = 0, GPS_direction = 0,
        Speed_cacu = 0, gps_Date = [0, 0, 0], gps_Time = [0, 0, 0]\<rparr>,
      terminal = \<lparr>SIM_code = [0, 0, 0, 0, 0, 0], Dev_ProvinceID = 0, Dev_CityID = 0,
        DeviceNumberID = replicate 13 0, Dev_Color = 1, Vech_Num = replicate 13 0,
        ConfirmCode = replicate 20 0, Conf_Distance_m_u32 = 0, Speed_warn_MAX = 200,
        Extent_IO_status = 0, FJ_SignalValue = 0, FJ_IO_1 = 0, FJ_IO_2 = 0, AD_0 = 0, AD_1 = 0,
        InOut_TYPE = 0, InOut_ID = 0, InOutState = 0\<rparr>,
      ans = \<lparr>Centre_CmdID = 0, Centre_FloatID = 0, f_CentreCMDack_0001H = 0, f_CentreCMDack_resualt = 0,
        f_BD_CentreTakeAck_0805H = 0, Event_ID = 0, ASK_floatID = 0, ASK_answerID = 0,
        INFO_TYPE = 0, INFO_PlyCancel = 0, SingleCamra_TakeResualt_BD = 0\<rparr>,
      mp3_sendstate = 0, mp3_fsize = 0, wmv_sendstate = 0, wmv_fsize = 0, VocREC_running = 0,
      MultiTake = \<lparr>Taking = 0, Transfering = 0, CurretCameraNum = 0, TakeResult = [0, 0, 0, 0],
        Take_retry = 0, Take_success_counter = 0\<rparr>,
      CameraState = \<lparr>camera_running = 0, timeoutCounter = 0, block_counter = 0, cam_status = 0,
        OperateFlag = 0, create_Flag = 0\<rparr>,
      SingleCamera_TakeRetry = 0,
      rs485 = \<lparr>rx485_receiveflag = 0, rx485_RxLen = 0, dev_rx_485 = replicate 600 0, dev_wr_485 = 0,
        content_485 = replicate 600 0, content_wr_485 = 0, CameraData_Enable_485 = 0,
        PackageLen = 0, last_package = 0, TX_485const_Enable = 0,
        Take_photo = [0x40, 0x40, 0x61, 0x81, 0x02, 0x00, 0x00, 0x02, 0x0D, 0x0A],
        Fectch_photo = [0x40, 0x40, 0x62, 0x81, 0x02, 0x00, 0xFF, 0xFF, 0x0D, 0x0A],
        Poll_Enble = 0, Lcd_RxInfo = replicate 100 0, Lcd_RxInfolen = 0, Lcd_Process_Enable = 0,
        Lcd_Enable_Flag = 1, Power_485CH1 = True\<rparr>,
      out485 = [], OpenDoor_StartTakeFlag = 0, Opendoor_transFLAG = 2,
      DoorOpen_currentState = 0, DoorOpen_BakState = 0, One_second_Counter_485 = 0,
      Duomeiti_sdFlag = 0, time_hour = 0, time_min = 0, time_sec = 0, ISP_running_state = 0,
      DEV_Login_Operate_enable = 0, DataLink_OK = False\<rparr>"

end
