(* ===== verification/Messages808.thy ===== *)
theory Messages808
  imports Device_State
begin

text \<open>
  \<^verbatim>\<open>protocol_808/protocol_808.c\<close>: building and sending the terminal's messages, and saving the
  current position. Every message is \<^verbatim>\<open>Protocol_Head\<close>, its content, \<^verbatim>\<open>Protocol_End\<close>; the
  frame goes to the modem task (\<^verbatim>\<open>Gsm_rxAppData_SemRelease\<close>), modelled by the list \<open>tx\<close>.
\<close>

section \<open>Head and end\<close>

abbreviation (input) Packet_Normal :: nat where "Packet_Normal \<equiv> 0"
abbreviation (input) Packet_Divide :: nat where "Packet_Divide \<equiv> 1"

text \<open>The fields of \<^verbatim>\<open>MediaObj\<close> that are set for a packet of a medium.\<close>

definition media_packet :: "nat \<Rightarrow> nat \<Rightarrow> nat \<Rightarrow> device \<Rightarrow> device" where
  "media_packet tot current channel d =
     d\<lparr>MediaObj := (MediaObj d)\<lparr>Media_totalPacketNum := tot, Media_currentPacketNum := current,
         Media_ID := 1, Media_Channel := channel\<rparr>\<rparr>"

definition Protocol_Head :: "nat \<Rightarrow> nat \<Rightarrow> device \<Rightarrow> bool \<times> device" where
  "Protocol_Head MSG_ID Packet_Type d =
     (let d = d\<lparr>Original_info_Wr := 0\<rparr>;
          d = put (be16 MSG_ID) d;
          d = put [0x00, 28] d;
          d = put (take 6 (SIM_code (terminal d))) d
      in if Packet_Type = Packet_Divide
         then let body = (\<lambda>d. put (be16 (Media_totalPacketNum (MediaObj d)) @
                                  be16 (Media_currentPacketNum (MediaObj d))) d)
              in if Media_Type (MediaObj d) = 0
                 then let d = media_packet (Total_packetNum (Photo_sdState d))
                                (SD_packetNum (Photo_sdState d)) (Camera_Number d) d;
                          Reg_ID = 0xF000 + Camera_Number d * 0x0100 + SD_packetNum (Photo_sdState d)
                      in (True, body (put (be16 Reg_ID) d))
                 else if Media_Type (MediaObj d) = 1
                 then let d = media_packet (Total_packetNum (Sound_sdState d))
                                (SD_packetNum (Sound_sdState d)) 1 d;
                          Reg_ID = 0xE000 + SD_packetNum (Sound_sdState d)
                      in (True, body (put (be16 Reg_ID) d))
                 else if Media_Type (MediaObj d) = 2
                 then (True, body (media_packet (Total_packetNum (Video_sdState d))
                                (SD_packetNum (Video_sdState d)) 1 d))
                 else (False, d)
         else (True, put (be16 (Msg_Float_ID d)) d))"

definition Protocol_End :: "nat \<Rightarrow> nat \<Rightarrow> device \<Rightarrow> device" where
  "Protocol_End Packet_Type LinkNum d =
     (let d = (if Packet_Type = Packet_Normal
               then let Msg_bodyLen = u16 (Original_info_Wr d + 65536 - 12)
                    in d\<lparr>Original_info := (Original_info d)
                          [2 := byte (Msg_bodyLen div 256), 3 := byte Msg_bodyLen]\<rparr>
               else if Packet_Type = Packet_Divide
               then let Msg_bodyLen = u16 (Original_info_Wr d + 65536 - 16)
                    in d\<lparr>Original_info := (Original_info d)
                          [2 := byte (Msg_bodyLen div 256) OR 0x20, 3 := byte Msg_bodyLen]\<rparr>
               else d);
          Gfcs = xor_sum (msg d);
          d = put [Gfcs] d;
          GPRS_info = [0x7e] @ Protocol_808_Encode (Original_info d) (Original_info_Wr d) @ [0x7e]
      in d\<lparr>tx := tx d @ [(GPRS_info, LinkNum)], Msg_Float_ID := u16 (Msg_Float_ID d + 1)\<rparr>)"

text \<open>
  The shape of every message function: head, return on failure, content, end. The content
  may fail too.
\<close>

definition stuff :: "nat \<Rightarrow> nat \<Rightarrow> (device \<Rightarrow> device) \<Rightarrow> device \<Rightarrow> bool \<times> device" where
  "stuff MSG_ID LinkNum content d =
     (case Protocol_Head MSG_ID Packet_Normal d of
        (False, d1) \<Rightarrow> (False, d1)
      | (True, d1) \<Rightarrow> (True, Protocol_End Packet_Normal LinkNum (content d1)))"

section \<open>Short messages\<close>

definition Stuff_DevCommmonACK_0001H :: "device \<Rightarrow> bool \<times> device" where
  "Stuff_DevCommmonACK_0001H =
     stuff 0x0001 0 (\<lambda>d. put (be16 (Centre_FloatID (ans d)) @ be16 (Centre_CmdID (ans d)) @
       [f_CentreCMDack_resualt (ans d)]) d)"

text \<open>The text literals of the registration message, as bytes.\<close>

definition ascii :: "string \<Rightarrow> bytes" where
  "ascii s = map (\<lambda>c. byte (of_char c)) s"

definition Stuff_RegisterPacket_0100H :: "nat \<Rightarrow> device \<Rightarrow> bool \<times> device" where
  "Stuff_RegisterPacket_0100H LinkNum =
     stuff 0x0100 LinkNum (\<lambda>d. put (be16 (Dev_ProvinceID (terminal d)) @ be16 (Dev_CityID (terminal d)) @
       ascii ''TCBBD'' @ ascii ''Tianjin TCB TW701-BD'' @
       take 7 (drop 5 (DeviceNumberID (terminal d))) @ [Dev_Color (terminal d)] @
       take 13 (Vech_Num (terminal d))) d)"

definition Stuff_DeviceHeartPacket_0002H :: "device \<Rightarrow> bool \<times> device" where
  "Stuff_DeviceHeartPacket_0002H = stuff 0x0002 0 (\<lambda>d. d)"

definition Stuff_DeviceDeregister_0101H :: "device \<Rightarrow> bool \<times> device" where
  "Stuff_DeviceDeregister_0101H = stuff 0x0101 0 (\<lambda>d. d)"

text \<open>The confirmation code is a C string: its bytes up to the first zero.\<close>

definition Stuff_DevLogin_0102H :: "device \<Rightarrow> bool \<times> device" where
  "Stuff_DevLogin_0102H =
     stuff 0x0102 0 (\<lambda>d. put (takeWhile (\<lambda>b. b \<noteq> 0) (ConfirmCode (terminal d))) d)"

definition Stuff_EventACK_0301H :: "device \<Rightarrow> bool \<times> device" where
  "Stuff_EventACK_0301H = stuff 0x0301 0 (\<lambda>d. put [Event_ID (ans d)] d)"

definition Stuff_ASKACK_0302H :: "device \<Rightarrow> bool \<times> device" where
  "Stuff_ASKACK_0302H =
     stuff 0x0302 0 (\<lambda>d. put (be16 (ASK_floatID (ans d)) @ [ASK_answerID (ans d)]) d)"

definition Stuff_MSGACK_0303H :: "device \<Rightarrow> bool \<times> device" where
  "Stuff_MSGACK_0303H = stuff 0x0303 0 (\<lambda>d. put [INFO_TYPE (ans d), INFO_PlyCancel (ans d)] d)"

definition Stuff_CentreTakeACK_BD_0805H :: "device \<Rightarrow> bool \<times> device" where
  "Stuff_CentreTakeACK_BD_0805H =
     stuff 0x0805 0 (\<lambda>d. put (be16 (Centre_FloatID (ans d)) @
       [byte (SingleCamra_TakeResualt_BD (ans d)), 0x00, 1, 0, 0, 0, 1]) d)"

section \<open>Positions\<close>

text \<open>Six bytes of BCD date and time.\<close>

definition bcd_time :: "gps_info \<Rightarrow> bytes" where
  "bcd_time g = map (\<lambda>b. bcd8 (unat b))
     [gps_Date g ! 0, gps_Date g ! 1, gps_Date g ! 2, gps_Time g ! 0, gps_Time g ! 1, gps_Time g ! 2]"

text \<open>
  The 28 bytes of a position. The messages built from the current position store
  \<^verbatim>\<open>(u8)(GPS_Hight<<8)\<close> for the high byte of the height.
\<close>

definition current_position :: "gps_info \<Rightarrow> bytes" where
  "current_position g =
     take 4 (Warn_Status g) @ take 4 (Car_Status g) @ take 4 (Latitude g) @ take 4 (Longitude g) @
     [byte (GPS_Hight g * 256), byte (GPS_Hight g)] @ be16 (Speed_gps g) @ be16 (GPS_direction g) @
     bcd_time g"

definition Stuff_O200_Info_Only :: "gps_info \<Rightarrow> bytes" where
  "Stuff_O200_Info_Only g = current_position g"

text \<open>The additional items behind a position.\<close>

definition item_speed :: "device \<Rightarrow> bytes" where
  "item_speed d = [0x03, 2] @ be16 (Speed_cacu (gps d))"

definition item_distance :: "device \<Rightarrow> bytes" where
  "item_distance d = [0x01, 4] @ be32 (Conf_Distance_m_u32 (terminal d) div 100)"

definition item_inout :: "device \<Rightarrow> bytes" where
  "item_inout d =
     (if Warn_Status (gps d) ! 1 AND 0x10 \<noteq> 0
      then [0x12, 6, InOut_TYPE (terminal d)] @ be32 (InOut_ID (terminal d)) @ [InOutState (terminal d)]
      else [])"

definition item_overspeed :: "device \<Rightarrow> bytes" where
  "item_overspeed d = (if Warn_Status (gps d) ! 3 AND 0x02 \<noteq> 0 then [0x11, 1, 0] else [])"

definition item_io :: "device \<Rightarrow> bytes" where
  "item_io d = [0x25, 4, 0, 0, 0, Extent_IO_status (terminal d)]"

definition item_signal :: "device \<Rightarrow> bytes" where
  "item_signal d = [0xFE, 2, byte (FJ_SignalValue (terminal d)), 0x00]"

definition item_analog :: "device \<Rightarrow> bytes" where
  "item_analog d = [0xFF, 6, FJ_IO_1 (terminal d), FJ_IO_2 (terminal d)] @
     be16 (AD_0 (terminal d)) @ be16 (AD_1 (terminal d))"

text \<open>The stored position: the head is built first, then the oldest record is read.\<close>

definition Stuff_Normal_Data_0200H :: "device \<Rightarrow> bool \<times> device" where
  "Stuff_Normal_Data_0200H d =
     (case Protocol_Head 0x0200 Packet_Normal d of
        (False, d1) \<Rightarrow> (False, d1)
      | (True, d1) \<Rightarrow>
          (case Api_cycle_read 31 (st d1) of (ret, content, s') \<Rightarrow>
             let d2 = poke content (d1\<lparr>st := s'\<rparr>)
             in if \<not> ret then (False, d2)
                else let d3 = advance 28 d2;
                         d4 = put (item_speed d3 @ item_distance d3 @ item_inout d3 @
                                item_overspeed d3 @ item_io d3 @ item_signal d3 @ item_analog d3) d3
                     in (True, Protocol_End Packet_Normal 0 d4)))"

definition StatusReg_SPD_NORMAL :: "device \<Rightarrow> device" where
  "StatusReg_SPD_NORMAL d =
     d\<lparr>gps := (gps d)\<lparr>Warn_Status := (Warn_Status (gps d))[3 := Warn_Status (gps d) ! 3 AND NOT 0x02]\<rparr>\<rparr>"

definition speed_checked :: "device \<Rightarrow> device" where
  "speed_checked d =
     (if GPS_speed (gps d) \<le> u32 (Speed_warn_MAX (terminal d) * 10) then StatusReg_SPD_NORMAL d else d)"

definition Stuff_Current_Data_0200H :: "device \<Rightarrow> bool \<times> device" where
  "Stuff_Current_Data_0200H d =
     stuff 0x0200 0 (\<lambda>d. put (current_position (gps d) @ item_speed d @ item_distance d @
       item_inout d @ item_overspeed d @ item_io d @ item_signal d @ item_analog d) d) (speed_checked d)"

definition Stuff_Current_Data_0201H :: "device \<Rightarrow> bool \<times> device" where
  "Stuff_Current_Data_0201H =
     stuff 0x0201 0 (\<lambda>d. put (be16 (Centre_FloatID (ans d)) @ current_position (gps d) @
       item_speed d @ item_distance d @ item_inout d @ item_overspeed d @ item_signal d @
       item_analog d) d)"

text \<open>The record that \<^verbatim>\<open>Save_GPS\<close> stores, and the function itself.\<close>

definition GPSsaveBuf :: "gps_info \<Rightarrow> bytes" where
  "GPSsaveBuf g =
     (let body = take 4 (Warn_Status g) @ take 4 (Car_Status g) @ take 4 (Latitude g) @
            take 4 (Longitude g) @ be16 (GPS_Hight g) @ be16 (Speed_gps g) @ be16 (GPS_direction g) @
            bcd_time g @ be16 (Speed_cacu g)
      in body @ [xor_sum body])"

definition Save_GPS :: "device \<Rightarrow> device" where
  "Save_GPS d =
     (if PositionInfo_sdFlag (st d) \<noteq> 0
      then if DF_LOCK (st d) = enable then d
           else if ReadFail_sd_current (st d) \<noteq> 0 \<and> DataLink_OK d then d
           else let buf = GPSsaveBuf (gps d);
                    s1 = (case Api_cycle_write buf 31 (st d) of
                            (True, s) \<Rightarrow> s
                          | (False, s) \<Rightarrow> snd (Api_cycle_write buf 31 s));
                    s2 = (if PositionInfo_sdFlag s1 \<noteq> 0 then s1\<lparr>PositionInfo_sdFlag := 0\<rparr> else s1)
                in d\<lparr>st := s2\<rparr>
      else d)"

section \<open>Multimedia\<close>

text \<open>The eight bytes that describe a medium.\<close>

definition media_desc :: "device \<Rightarrow> bytes" where
  "media_desc d =
     be32 (Media_ID (MediaObj d)) @
     [byte (Media_Type (MediaObj d)), byte (Media_CodeType (MediaObj d)),
      byte (Event_Code (MediaObj d)), byte (Media_Channel (MediaObj d))]"

definition Stuff_MultiMedia_InfoSD_0800H :: "device \<Rightarrow> bool \<times> device" where
  "Stuff_MultiMedia_InfoSD_0800H d =
     (case Protocol_Head 0x0800 Packet_Normal d of
        (False, d1) \<Rightarrow> (False, d1)
      | (True, d1) \<Rightarrow>
          let ty = Media_Type (MediaObj d1);
              finish = (\<lambda>d. (True, Protocol_End Packet_Normal 0 (put (media_desc d) d)))
          in if ty = 0 then finish (media_packet (Total_packetNum (Photo_sdState d1))
                              (SD_packetNum (Photo_sdState d1)) (Camera_Number d1) d1)
             else if ty = 1 then finish (media_packet (Total_packetNum (Sound_sdState d1))
                              (SD_packetNum (Sound_sdState d1)) 1 d1)
             else if ty = 2 then finish (media_packet (Total_packetNum (Video_sdState d1))
                              (SD_packetNum (Video_sdState d1)) 1 d1)
             else (False, d1))"

text \<open>Size of a packet from a file of \<open>size\<close> bytes; the start \<^verbatim>\<open>inadd\<close> is a \<^verbatim>\<open>u16\<close>.\<close>

definition packet_size :: "nat \<Rightarrow> nat \<Rightarrow> nat option" where
  "packet_size fsize num =
     (let inadd = u16 ((num + 65535) * 512)
      in if fsize > inadd then Some (if fsize - inadd > 512 then 512 else fsize - inadd)
         else None)"

definition Camera_Name :: "nat \<Rightarrow> string option" where
  "Camera_Name n =
     (if n = 1 then Some camera_1 else if n = 2 then Some camera_2
      else if n = 3 then Some camera_3 else if n = 4 then Some camera_4 else None)"

text \<open>Reading 512 bytes of a directory into the message buffer at the write index.\<close>

definition read_media :: "string \<Rightarrow> nat \<Rightarrow> device \<Rightarrow> device" where
  "read_media name num d =
     (case Api_DFdirectory_Read name 512 1 num (st d) of
        (ret, Some content, s') \<Rightarrow> poke content (d\<lparr>st := s'\<rparr>)
      | (ret, None, s') \<Rightarrow> d\<lparr>st := s'\<rparr>)"

text \<open>The cases of the \<^verbatim>\<open>switch\<close> that fills in the data; false is its early return.\<close>

definition photo_content :: "device \<Rightarrow> bool \<times> device" where
  "photo_content d =
     (if photo_sending (Photo_sdState d) = enable \<and> SD_flag (Photo_sdState d) = enable
      then let d = d\<lparr>Photo_sdState := (Photo_sdState d)\<lparr>SD_flag := disable\<rparr>\<rparr>;
               d = (case Camera_Name (Camera_Number d) of
                      Some name \<Rightarrow> read_media name (Media_currentPacketNum (MediaObj d)) d
                    | None \<Rightarrow> d)
           in (case packet_size (PicFileSize (st d)) (SD_packetNum (Photo_sdState d)) of
                 Some readsize \<Rightarrow> (True, advance readsize d)
               | None \<Rightarrow> (False, d))
      else (False, d))"

definition sound_content :: "device \<Rightarrow> bool \<times> device" where
  "sound_content d =
     (if photo_sending (Sound_sdState d) = enable \<and> SD_flag (Sound_sdState d) = enable
      then let d = d\<lparr>Sound_sdState := (Sound_sdState d)\<lparr>SD_flag := disable\<rparr>\<rparr>;
               d = read_media voice_name (Media_currentPacketNum (MediaObj d)) d
           in (case packet_size (SrcFileSize (st d)) (SD_packetNum (Sound_sdState d)) of
                 Some readsize \<Rightarrow> (True, advance readsize d)
               | None \<Rightarrow> (False, d))
      else (False, d))"

text \<open>The bookkeeping behind \<^verbatim>\<open>Protocol_End\<close>: last block, packet number, retransmission.\<close>

definition inc_packet :: "media_sd_state \<Rightarrow> media_sd_state" where
  "inc_packet s = (if photo_sending s = enable
     then s\<lparr>SD_packetNum := u16 (SD_packetNum s + 1)\<rparr> else s)"

definition after_0801H :: "device \<Rightarrow> device" where
  "after_0801H d =
     (let m = MediaObj d;
          m = (if Media_currentPacketNum m \<ge> Media_totalPacketNum m \<and> RSD_State m = 0
               then m\<lparr>RSD_State := 2, RSD_Timer := 0\<rparr> else m);
          d = d\<lparr>MediaObj := m\<rparr>
      in if RSD_State m = 0
         then if Media_currentPacketNum m < Media_totalPacketNum m
              then d\<lparr>Photo_sdState := inc_packet (Photo_sdState d),
                     Sound_sdState := inc_packet (Sound_sdState d),
                     Video_sdState := inc_packet (Video_sdState d)\<rparr>
              else d
         else if RSD_State m = 1
         then let m = m\<lparr>RSD_Reader := u8n (RSD_Reader m + 1)\<rparr>
              in d\<lparr>MediaObj := (if RSD_Reader m = RSD_total m then m\<lparr>RSD_State := 2\<rparr> else m)\<rparr>
         else d)"

definition Stuff_MultiMedia_Data_0801H :: "device \<Rightarrow> bool \<times> device" where
  "Stuff_MultiMedia_Data_0801H d =
     (case Protocol_Head 0x0801 Packet_Divide d of
        (False, d1) \<Rightarrow> (False, d1)
      | (True, d1) \<Rightarrow>
          let d2 = (if Media_currentPacketNum (MediaObj d1) = 1
                    then put (media_desc d1 @ current_position (gps d1)) d1 else d1);
              r = (if Media_Type (MediaObj d2) = 0 then photo_content d2
                   else if Media_Type (MediaObj d2) = 1 then sound_content d2
                   else if Media_Type (MediaObj d2) = 2 then (TF_Card_Status = 1, d2)
                   else (False, d2))
          in if \<not> fst r then r
             else if Media_currentPacketNum (MediaObj (snd r)) > Media_totalPacketNum (MediaObj (snd r))
             then (False, snd r)
             else (True, after_0801H (Protocol_End Packet_Divide 0 (snd r))))"

section \<open>What is sent\<close>

text \<open>The twelve byte head of an undivided message.\<close>

definition head808 :: "nat \<Rightarrow> nat \<Rightarrow> bytes \<Rightarrow> nat \<Rightarrow> bytes" where
  "head808 mid len sim fid = be16 mid @ be16 len @ sim @ be16 fid"

lemma length_head808 [simp]: "length sim = 6 \<Longrightarrow> length (head808 mid len sim fid) = 12"
  by (simp add: head808_def)

lemma buf_ok_start [simp]: "buf_ok (d\<lparr>Original_info_Wr := 0\<rparr>)"
  by (simp add: buf_ok_def)

lemma msg_start [simp]: "msg (d\<lparr>Original_info_Wr := 0\<rparr>) = []"
  by (simp add: msg_def)

lemma Protocol_Head_normal:
  "fst (Protocol_Head mid Packet_Normal d) = True"
  "buf_ok (snd (Protocol_Head mid Packet_Normal d))"
  "msg (snd (Protocol_Head mid Packet_Normal d)) =
     be16 mid @ [0x00, 28] @ take 6 (SIM_code (terminal d)) @ be16 (Msg_Float_ID d)"
  "tx (snd (Protocol_Head mid Packet_Normal d)) = tx d"
  "st (snd (Protocol_Head mid Packet_Normal d)) = st d"
  "gps (snd (Protocol_Head mid Packet_Normal d)) = gps d"
  "terminal (snd (Protocol_Head mid Packet_Normal d)) = terminal d"
  "ans (snd (Protocol_Head mid Packet_Normal d)) = ans d"
  "Msg_Float_ID (snd (Protocol_Head mid Packet_Normal d)) = Msg_Float_ID d"
  "MediaObj (snd (Protocol_Head mid Packet_Normal d)) = MediaObj d"
  "Photo_sdState (snd (Protocol_Head mid Packet_Normal d)) = Photo_sdState d"
  "Camera_Number (snd (Protocol_Head mid Packet_Normal d)) = Camera_Number d"
  by (simp_all add: Protocol_Head_def Let_def)

text \<open>Filling in the length field and sending.\<close>

lemma u16_minus: "k \<le> n \<Longrightarrow> n < 65536 \<Longrightarrow> u16 (n + 65536 - k) = n - k"
proof -
  assume "k \<le> n" "n < 65536"
  moreover from this have "n + 65536 - k = n - k + 65536" by linarith
  ultimately show ?thesis unfolding u16_def by (simp only: mod_add_self2) simp
qed

definition with_len :: "nat \<Rightarrow> nat \<Rightarrow> bytes \<Rightarrow> bytes" where
  "with_len Packet_Type hl m =
     m[2 := (if Packet_Type = Packet_Divide then byte ((length m - hl) div 256) OR 0x20
             else byte ((length m - hl) div 256)),
       3 := byte (length m - hl)]"

lemma Protocol_End_sends:
  assumes "buf_ok d" and "Packet_Type = Packet_Normal \<and> hl = 12 \<or> Packet_Type = Packet_Divide \<and> hl = 16"
    and "hl \<le> length (msg d)" and "length (msg d) < 65535"
  shows "tx (Protocol_End Packet_Type LinkNum d) =
      tx d @ [(frame808 (with_len Packet_Type hl (msg d)), LinkNum)]"
    and "Msg_Float_ID (Protocol_End Packet_Type LinkNum d) = u16 (Msg_Float_ID d + 1)"
    and "st (Protocol_End Packet_Type LinkNum d) = st d"
    and "MediaObj (Protocol_End Packet_Type LinkNum d) = MediaObj d"
    and "Photo_sdState (Protocol_End Packet_Type LinkNum d) = Photo_sdState d"
    and "Sound_sdState (Protocol_End Packet_Type LinkNum d) = Sound_sdState d"
    and "Video_sdState (Protocol_End Packet_Type LinkNum d) = Video_sdState d"
    and "Camera_Number (Protocol_End Packet_Type LinkNum d) = Camera_Number d"
    and "gps (Protocol_End Packet_Type LinkNum d) = gps d"
    and "terminal (Protocol_End Packet_Type LinkNum d) = terminal d"
proof -
  have wr: "Original_info_Wr d = length (msg d)"
    using assms(1) by (simp add: msg_def buf_ok_def)
  have body: "u16 (Original_info_Wr d + 65536 - hl) = length (msg d) - hl"
    unfolding wr using assms(3,4) by (intro u16_minus) simp_all
  define a where "a = (if Packet_Type = Packet_Divide then byte ((length (msg d) - hl) div 256) OR 0x20
      else byte ((length (msg d) - hl) div 256))"
  define e where "e = d\<lparr>Original_info := (Original_info d)[2 := a, 3 := byte (length (msg d) - hl)]\<rparr>"
  have msg_e: "msg e = with_len Packet_Type hl (msg d)"
    by (simp add: msg_def e_def with_len_def take_update_swap a_def)
  have ok: "buf_ok e" using assms(1) by (simp add: buf_ok_def e_def)
  have eq: "Protocol_End Packet_Type LinkNum d =
      (let d = put [xor_sum (msg e)] e
       in d\<lparr>tx := tx d @ [([0x7e] @ Protocol_808_Encode (Original_info d) (Original_info_Wr d) @ [0x7e], LinkNum)],
            Msg_Float_ID := u16 (Msg_Float_ID d + 1)\<rparr>)"
    using assms(2) body by (auto simp: Protocol_End_def Let_def e_def a_def)
  have m: "msg (put [xor_sum (msg e)] e) = msg e @ [xor_sum (msg e)]" using ok by simp
  have "Original_info_Wr (put [xor_sum (msg e)] e) = length (msg d) + 1"
    by (simp add: put_def advance_def poke_def e_def wr)
  then have enc: "Protocol_808_Encode (Original_info (put [xor_sum (msg e)] e))
      (Original_info_Wr (put [xor_sum (msg e)] e)) = encode_loop (msg e @ [xor_sum (msg e)])"
    using assms(4) m by (simp add: Protocol_808_Encode_def u16_small msg_def)
  show "tx (Protocol_End Packet_Type LinkNum d) =
      tx d @ [(frame808 (with_len Packet_Type hl (msg d)), LinkNum)]"
    by (simp add: eq Let_def msg_e enc [unfolded msg_e] frame808_def) (simp add: e_def)
  show "Msg_Float_ID (Protocol_End Packet_Type LinkNum d) = u16 (Msg_Float_ID d + 1)"
    and "st (Protocol_End Packet_Type LinkNum d) = st d"
    and "MediaObj (Protocol_End Packet_Type LinkNum d) = MediaObj d"
    and "Photo_sdState (Protocol_End Packet_Type LinkNum d) = Photo_sdState d"
    and "Sound_sdState (Protocol_End Packet_Type LinkNum d) = Sound_sdState d"
    and "Video_sdState (Protocol_End Packet_Type LinkNum d) = Video_sdState d"
    and "Camera_Number (Protocol_End Packet_Type LinkNum d) = Camera_Number d"
    and "gps (Protocol_End Packet_Type LinkNum d) = gps d"
    and "terminal (Protocol_End Packet_Type LinkNum d) = terminal d"
    by (simp_all add: eq Let_def) (simp_all add: e_def)
qed

lemma with_len_head:
  assumes "length sim = 6" and "h = be16 mid @ [a, b] @ sim @ be16 fid"
  shows "with_len Packet_Normal 12 (h @ c) = head808 mid (length c) sim fid @ c"
  using assms by (simp add: with_len_def head808_def be16_def numeral_2_eq_2 numeral_3_eq_3)

lemma stuff_sends:
  assumes "length (SIM_code (terminal d)) = 6" and "length c < 65000"
    and "\<And>d'. gps d' = gps d \<Longrightarrow> terminal d' = terminal d \<Longrightarrow> ans d' = ans d \<Longrightarrow> content d' = put c d'"
  shows "\<exists>d'. stuff mid LinkNum content d = (True, d') \<and> st d' = st d \<and>
    tx d' = tx d @ [(frame808 (head808 mid (length c) (SIM_code (terminal d)) (Msg_Float_ID d) @ c), LinkNum)] \<and>
    Msg_Float_ID d' = u16 (Msg_Float_ID d + 1)"
proof -
  obtain e where e: "Protocol_Head mid Packet_Normal d = (True, e)"
    using Protocol_Head_normal(1) [of mid d] by (cases "Protocol_Head mid Packet_Normal d") simp
  note h = Protocol_Head_normal [of mid d, unfolded e snd_conv]
  have c: "content e = put c e" by (rule assms(3)) (rule h)+
  have m: "msg (put c e) = (be16 mid @ [0x00, 28] @ SIM_code (terminal d) @ be16 (Msg_Float_ID d)) @ c"
    using assms(1) h(2,3) by simp
  have ok: "buf_ok (put c e)" using h(2) by simp
  have len: "12 \<le> length (msg (put c e))" "length (msg (put c e)) < 65535"
    using assms(1,2) by (simp_all add: m)
  have "Packet_Normal = Packet_Normal \<and> (12 :: nat) = 12 \<or> Packet_Normal = Packet_Divide \<and> (12 :: nat) = 16"
    by simp
  note fin = Protocol_End_sends [OF ok this len, of LinkNum, unfolded m with_len_head [OF assms(1) refl]
      put_fields h]
  have "stuff mid LinkNum content d = (True, Protocol_End Packet_Normal LinkNum (put c e))"
    unfolding stuff_def e by (simp add: c)
  with fin(1-3) show ?thesis by blast
qed

text \<open>The receiver of a frame sees the message identifier, serial number and length.\<close>

lemma byte_and_3: "n < 4 \<Longrightarrow> (byte n) AND 0x03 = byte n"
proof -
  assume "n < 4"
  then consider "n = 0" | "n = 1" | "n = 2" | "n = 3" by linarith
  then show ?thesis by cases simp_all
qed

lemma infolen_be16:
  assumes "n < 1024"
  shows "unat (byte (n div 256) AND 0x03) * 256 + unat (byte n) = n"
proof -
  have k: "n div 256 < 4" using assms by (simp add: less_mult_imp_div_less)
  then have "unat (byte (n div 256)) = n div 256" by (simp only: unat_byte) simp
  moreover have "unat (byte n) = n mod 256" by (rule unat_byte)
  moreover have "n div 256 * 256 + n mod 256 = n" by (rule div_mult_mod_eq)
  ultimately show ?thesis by (simp only: byte_and_3 [OF k])
qed

lemma head808_accepted:
  assumes "length sim = 6" and "mid < 65536" and "fid < 65536" and "length c < 1024"
    and "f = frame808 (head808 mid (length c) sim fid @ c)"
  shows "\<exists>buf. TCP_RX_check f (length f) =
      Some \<lparr>rx_buf = buf, rx_len = length c + 15, rx_CmdID = mid, rx_FloatID = fid,
        rx_infolen = length c\<rparr> \<and>
    drop 13 (take (length c + 13) buf) = c"
proof -
  let ?m = "head808 mid (length c) sim fid @ c"
  have len: "length ?m = length c + 12" using assms(1) by simp
  obtain buf where chk: "TCP_RX_check f (length f) =
      Some \<lparr>rx_buf = buf, rx_len = length ?m + 3, rx_CmdID = of_be16 (?m ! 0) (?m ! 1),
        rx_FloatID = of_be16 (?m ! 10) (?m ! 11),
        rx_infolen = unat (?m ! 2 AND 0x03) * 256 + unat (?m ! 3)\<rparr>"
    and buf: "take (length ?m + 3) buf = 0x7e # ?m @ [xor_sum ?m, 0x7e]"
    using frame808_check [of ?m "[]"] assms(5) len by auto
  have ids: "?m ! 0 = byte (mid div 256)" "?m ! 1 = byte mid" "?m ! 2 = byte (length c div 256)"
    "?m ! 3 = byte (length c)"
    by (simp_all add: head808_def be16_def numeral_2_eq_2 numeral_3_eq_3)
  have fid: "?m ! 10 = byte (fid div 256)" "?m ! 11 = byte fid"
    using assms(1) by (simp_all add: head808_def be16_def nth_append)
  have "take (length c + 13) buf = take (length c + 13) (take (length ?m + 3) buf)"
    unfolding len by simp
  also have "\<dots> = 0x7e # ?m"
  proof -
    have "length c + 13 = Suc (length ?m)" using len by simp
    then show ?thesis unfolding buf by (simp only: take_Suc_Cons) simp
  qed
  finally have "drop 13 (take (length c + 13) buf) = drop 12 ?m" by simp
  also have "\<dots> = c" using assms(1) by simp
  finally have body: "drop 13 (take (length c + 13) buf) = c" .
  show ?thesis
    using chk body len
    by (simp only: ids fid infolen_be16 [OF assms(4)] of_be16_be16 [OF assms(2)] of_be16_be16 [OF assms(3)])
       simp
qed

lemma stuff_accepted:
  assumes "length (SIM_code (terminal d)) = 6" and "length c < 1024" and "mid < 65536"
    and "Msg_Float_ID d < 65536"
    and "\<And>d'. gps d' = gps d \<Longrightarrow> terminal d' = terminal d \<Longrightarrow> ans d' = ans d \<Longrightarrow> content d' = put c d'"
  shows "\<exists>d' f buf. stuff mid LinkNum content d = (True, d') \<and> tx d' = tx d @ [(f, LinkNum)] \<and>
    TCP_RX_check f (length f) = Some \<lparr>rx_buf = buf, rx_len = length c + 15, rx_CmdID = mid,
      rx_FloatID = Msg_Float_ID d, rx_infolen = length c\<rparr> \<and>
    drop 13 (take (length c + 13) buf) = c \<and>
    Msg_Float_ID d' = u16 (Msg_Float_ID d + 1)"
proof -
  have "length c < 65000" using assms(2) by simp
  from stuff_sends [OF assms(1) this assms(5)]
  obtain d' where "stuff mid LinkNum content d = (True, d')"
    "tx d' = tx d @ [(frame808 (head808 mid (length c) (SIM_code (terminal d)) (Msg_Float_ID d) @ c), LinkNum)]"
    "Msg_Float_ID d' = u16 (Msg_Float_ID d + 1)" by blast
  with head808_accepted [OF assms(1,3,4,2) refl] show ?thesis by blast
qed

section \<open>Positions through the store\<close>

text \<open>
  A position record is well formed, and acceptable to the cycle store, when its fields have
  their lengths and the alarm word is not one of the two values the store takes for an
  empty slot.
\<close>

definition gps_ok :: "gps_info \<Rightarrow> bool" where
  "gps_ok g =
     (length (Warn_Status g) = 4 \<and> length (Car_Status g) = 4 \<and> length (Latitude g) = 4 \<and>
      length (Longitude g) = 4 \<and> Warn_Status g ! 0 \<noteq> 0xFF \<and>
      \<not> (Warn_Status g ! 0 = 0 \<and> Warn_Status g ! 1 = 0xFF))"

lemma length_bcd_time [simp]: "length (bcd_time g) = 6"
  by (simp add: bcd_time_def)

lemma length_current_position: "gps_ok g \<Longrightarrow> length (current_position g) = 28"
  by (simp add: current_position_def gps_ok_def)

lemma cycle_rec_GPSsaveBuf:
  assumes "gps_ok g"
  shows "cycle_rec (GPSsaveBuf g)"
proof -
  have len: "length (GPSsaveBuf g) = 31"
    using assms by (simp add: GPSsaveBuf_def gps_ok_def Let_def)
  obtain a b c e where w: "Warn_Status g = [a, b, c, e]"
    using assms by (auto simp: gps_ok_def length_Suc_conv numeral_eq_Suc)
  have "rec_valid (GPSsaveBuf g)"
    using assms len w by (auto simp: rec_valid_def GPSsaveBuf_def Let_def gps_ok_def nth_append)
  moreover have "GPSsaveBuf g ! 0 = a" "GPSsaveBuf g ! 1 = b"
    using w by (simp_all add: GPSsaveBuf_def Let_def)
  ultimately show ?thesis
    using assms len w by (simp add: cycle_rec_def gps_ok_def)
qed

section \<open>Properties\<close>

text \<open>
  A general answer reaches the centre: the frame of \<^verbatim>\<open>Stuff_DevCommmonACK_0001H\<close> passes
  the protocol check, carries message identifier 1 and the current serial number, and its
  body is the serial number and identifier of the answered command and the result; the
  serial number is then incremented modulo \<open>2 ^ 16\<close>.
\<close>

theorem DevCommmonACK_delivered:
  assumes "length (SIM_code (terminal d)) = 6" and "Msg_Float_ID d < 65536"
  shows "\<exists>d' f buf. Stuff_DevCommmonACK_0001H d = (True, d') \<and> tx d' = tx d @ [(f, 0)] \<and>
    TCP_RX_check f (length f) = Some \<lparr>rx_buf = buf, rx_len = 20, rx_CmdID = 0x0001,
      rx_FloatID = Msg_Float_ID d, rx_infolen = 5\<rparr> \<and>
    drop 13 (take 18 buf) =
      be16 (Centre_FloatID (ans d)) @ be16 (Centre_CmdID (ans d)) @ [f_CentreCMDack_resualt (ans d)] \<and>
    Msg_Float_ID d' = u16 (Msg_Float_ID d + 1)"
  unfolding Stuff_DevCommmonACK_0001H_def
  using stuff_accepted [OF assms(1) _ _ assms(2), of "be16 (Centre_FloatID (ans d)) @
      be16 (Centre_CmdID (ans d)) @ [f_CentreCMDack_resualt (ans d)]" 1] by simp

theorem DevCommmonACK_delivered_witness:
  "\<exists>d' f buf. Stuff_DevCommmonACK_0001H (idle_device blank_store) = (True, d') \<and>
    tx d' = [(f, 0)] \<and>
    TCP_RX_check f (length f) = Some \<lparr>rx_buf = buf, rx_len = 20, rx_CmdID = 0x0001,
      rx_FloatID = 0, rx_infolen = 5\<rparr> \<and>
    drop 13 (take 18 buf) = [0, 0, 0, 0, 0] \<and> Msg_Float_ID d' = 1"
  using DevCommmonACK_delivered [of "idle_device blank_store"]
  by (simp add: idle_device_def be16_def u16_def)

text \<open>The body of an accepted frame, read from the receive buffer.\<close>

lemma body_prefix:
  assumes "drop 13 (take (length c + 13) buf) = c" and "n \<le> length c"
  shows "take n (drop 13 buf) = take n c" and "i < length c \<Longrightarrow> buf ! (13 + i) = c ! i"
proof -
  have c: "c = take (length c) (drop 13 buf)"
    using assms(1) by (simp add: drop_take)
  show "take n (drop 13 buf) = take n c"
    using arg_cong [OF c, of "take n"] assms(2) by (simp add: min_def)
  assume i: "i < length c"
  moreover have "length c \<le> length (drop 13 buf)" using arg_cong [OF c, of length] by simp
  moreover have "c ! i = drop 13 buf ! i" using arg_cong [OF c, of "\<lambda>l. l ! i"] i by simp
  ultimately show "buf ! (13 + i) = c ! i" by (simp add: add.commute)
qed

lemma gps_ok_speed_checked: "gps_ok (gps d) \<Longrightarrow> gps_ok (gps (speed_checked d))"
  by (simp add: speed_checked_def StatusReg_SPD_NORMAL_def gps_ok_def)

lemma speed_checked_fields:
  "terminal (speed_checked d) = terminal d" "tx (speed_checked d) = tx d"
  "Msg_Float_ID (speed_checked d) = Msg_Float_ID d" "ans (speed_checked d) = ans d"
  by (simp_all add: speed_checked_def StatusReg_SPD_NORMAL_def)

lemma byte_shifted: "byte (n * 256) = 0"
  by (rule word_unat_eq_iff [THEN iffD2]) (simp only: unat_byte unat_0 mod_mult_self2_is_0)

lemma height_bytes:
  assumes "gps_ok g"
  shows "current_position g ! 16 = 0" "current_position g ! 17 = byte (GPS_Hight g)"
  using assms by (simp_all add: current_position_def gps_ok_def nth_append byte_shifted del: of_nat_mult)

text \<open>
  A current position reaches the centre: \<^verbatim>\<open>Stuff_Current_Data_0200H\<close> sends an acceptable
  frame with identifier \<open>0x0200\<close> whose body starts with the 28 position bytes. The height
  field of that position holds only the height modulo 256.
\<close>

theorem Current_Data_0200H_delivered:
  assumes "length (SIM_code (terminal d)) = 6" and "Msg_Float_ID d < 65536" and "gps_ok (gps d)"
  shows "\<exists>d' f i. Stuff_Current_Data_0200H d = (True, d') \<and> tx d' = tx d @ [(f, 0)] \<and>
    TCP_RX_check f (length f) = Some i \<and> rx_CmdID i = 0x0200 \<and> rx_FloatID i = Msg_Float_ID d \<and>
    take 28 (drop 13 (rx_buf i)) = current_position (gps (speed_checked d)) \<and>
    of_be16 (rx_buf i ! 29) (rx_buf i ! 30) = GPS_Hight (gps (speed_checked d)) mod 256"
proof -
  let ?d = "speed_checked d"
  let ?g = "gps ?d"
  let ?c = "current_position ?g @ item_speed ?d @ item_distance ?d @ item_inout ?d @
    item_overspeed ?d @ item_io ?d @ item_signal ?d @ item_analog ?d"
  have g: "gps_ok ?g" using assms(3) by (rule gps_ok_speed_checked)
  note items = item_speed_def item_distance_def item_inout_def item_overspeed_def item_io_def
    item_signal_def item_analog_def
  have len: "28 \<le> length ?c" "length ?c < 1024"
    using length_current_position [OF g] by (simp_all add: items)
  obtain d' f buf where "stuff 0x0200 0 (\<lambda>d. put (current_position (gps d) @ item_speed d @
      item_distance d @ item_inout d @ item_overspeed d @ item_io d @ item_signal d @ item_analog d) d) ?d =
      (True, d')" "tx d' = tx ?d @ [(f, 0)]"
    and chk: "TCP_RX_check f (length f) = Some \<lparr>rx_buf = buf, rx_len = length ?c + 15,
      rx_CmdID = 0x0200, rx_FloatID = Msg_Float_ID ?d, rx_infolen = length ?c\<rparr>"
    and body: "drop 13 (take (length ?c + 13) buf) = ?c"
    using stuff_accepted [of ?d ?c "0x0200" "\<lambda>d. put (current_position (gps d) @ item_speed d @
      item_distance d @ item_inout d @ item_overspeed d @ item_io d @ item_signal d @ item_analog d) d" 0]
      len assms(1,2) by (auto simp: items speed_checked_fields)
  moreover have "take 28 (drop 13 buf) = current_position ?g"
    using body_prefix(1) [OF body len(1)] length_current_position [OF g] by simp
  moreover have "buf ! 29 = 0" "buf ! 30 = byte (GPS_Hight ?g)"
    using body_prefix(2) [OF body, of 28 16] body_prefix(2) [OF body, of 28 17] len
      height_bytes [OF g] length_current_position [OF g] by (simp_all add: nth_append)
  then have "of_be16 (buf ! 29) (buf ! 30) = GPS_Hight ?g mod 256"
    by (simp add: of_be16_def unat_of_nat)
  ultimately show ?thesis
    by (intro exI [of _ d'] exI [of _ f] exI [of _ "\<lparr>rx_buf = buf, rx_len = length ?c + 15,
      rx_CmdID = 0x0200, rx_FloatID = Msg_Float_ID ?d, rx_infolen = length ?c\<rparr>"])
       (simp add: Stuff_Current_Data_0200H_def speed_checked_fields)
qed

lemma idle_position:
  "current_position (gps (speed_checked (idle_device s))) = replicate 28 0"
  by (simp add: idle_device_def speed_checked_def StatusReg_SPD_NORMAL_def current_position_def
      be16_def bcd_time_def bcd8_def numeral_3_eq_3)
     (simp add: eval_nat_numeral)

lemma idle_fields [simp]:
  "st (idle_device s) = s" "tx (idle_device s) = []" "Msg_Float_ID (idle_device s) = 0"
  "length (SIM_code (terminal (idle_device s))) = 6" "gps_ok (gps (idle_device s))"
  "DataLink_OK (idle_device s) = False"
  by (simp_all add: idle_device_def gps_ok_def)

theorem Current_Data_0200H_delivered_witness:
  "\<exists>d' f i. Stuff_Current_Data_0200H (idle_device blank_store) = (True, d') \<and> tx d' = [(f, 0)] \<and>
    TCP_RX_check f (length f) = Some i \<and> rx_CmdID i = 0x0200 \<and> rx_FloatID i = 0 \<and>
    take 28 (drop 13 (rx_buf i)) = replicate 28 0"
  using Current_Data_0200H_delivered [of "idle_device blank_store"]
  unfolding idle_position idle_fields by auto

text \<open>
  (C39) \<^verbatim>\<open>Save_GPS\<close> queues the current position: with a report pending, the flash unlocked, no
  direct transmission in progress and room in the cycle area, the 31 byte record of the
  current position becomes the newest element of the queue of stored positions, the pending
  flag is cleared and nothing is transmitted.
\<close>

theorem Save_GPS_queues:
  assumes "PositionInfo_sdFlag (st d) \<noteq> 0" and "DF_LOCK (st d) \<noteq> 1"
    and "\<not> (ReadFail_sd_current (st d) \<noteq> 0 \<and> DataLink_OK d)"
    and "gps_ok (gps d)" and "cycle_fifo (st d) q" and "length q \<le> 16256"
  shows "cycle_fifo (st (Save_GPS d)) (q @ [GPSsaveBuf (gps d)]) \<and>
    PositionInfo_sdFlag (st (Save_GPS d)) = 0 \<and> tx (Save_GPS d) = tx d"
proof -
  obtain s where s: "Api_cycle_write (GPSsaveBuf (gps d)) 31 (st d) = (True, s)"
    and q: "cycle_fifo s (q @ [GPSsaveBuf (gps d)])"
    using Api_cycle_write_push [OF assms(5) cycle_rec_GPSsaveBuf [OF assms(4)] assms(6)]
    by (cases "Api_cycle_write (GPSsaveBuf (gps d)) 31 (st d)") simp
  have "cycle_fifo (s\<lparr>PositionInfo_sdFlag := 0\<rparr>) (q @ [GPSsaveBuf (gps d)])"
    using q by (simp add: cycle_fifo_def)
  with q show ?thesis
    using assms(1-3) s by (simp add: Save_GPS_def Let_def)
qed

theorem Save_GPS_queues_witness:
  "cycle_fifo (st (Save_GPS (idle_device (blank_store\<lparr>PositionInfo_sdFlag := 1\<rparr>))))
     [GPSsaveBuf (gps (idle_device (blank_store\<lparr>PositionInfo_sdFlag := 1\<rparr>)))]"
proof -
  have "cycle_fifo (blank_store\<lparr>PositionInfo_sdFlag := 1\<rparr>) []"
    using cycle_fifo_blank by (simp add: cycle_fifo_def)
  then show ?thesis
    using Save_GPS_queues [of "idle_device (blank_store\<lparr>PositionInfo_sdFlag := 1\<rparr>)" "[]"]
    by (simp add: blank_store_def)
qed

lemma stored_position_body:
  assumes "cycle_fifo (st d) (b # q)" and "length (SIM_code (terminal d)) = 6"
  shows "\<exists>d' c. Stuff_Normal_Data_0200H d = (True, d') \<and> st d' = st d \<and>
    length c < 1024 \<and> 28 \<le> length c \<and> take 28 c = take 28 b \<and>
    tx d' = tx d @ [(frame808 (head808 0x0200 (length c) (SIM_code (terminal d)) (Msg_Float_ID d) @ c), 0)]"
proof -
  obtain e where e: "Protocol_Head 0x0200 Packet_Normal d = (True, e)"
    using Protocol_Head_normal(1) [of "0x0200" d] by (cases "Protocol_Head 0x0200 Packet_Normal d") simp
  note h = Protocol_Head_normal [of "0x0200" d, unfolded e snd_conv]
  have b: "length b = 31" using assms(1) by (simp add: cycle_fifo_def cycle_rec_def)
  define f where "f = advance 28 (poke b e)"
  define i where "i = item_speed f @ item_distance f @ item_inout f @ item_overspeed f @ item_io f @
    item_signal f @ item_analog f"
  let ?c = "take 28 b @ i"
  have rd: "Api_cycle_read 31 (st e) = (True, b, st e)"
    using Api_cycle_read_head [OF assms(1)] h(5) by simp
  have eq: "Stuff_Normal_Data_0200H d = (True, Protocol_End Packet_Normal 0 (put i f))"
    by (simp add: Stuff_Normal_Data_0200H_def e rd Let_def f_def i_def)
  have i: "length i < 900"
    by (simp add: i_def item_speed_def item_distance_def item_inout_def item_overspeed_def
        item_io_def item_signal_def item_analog_def)
  have ok: "buf_ok (put i f)" unfolding f_def using h(2) b by (intro buf_ok_put buf_ok_poke_advance) simp_all
  have "buf_ok f" unfolding f_def using h(2) b by (intro buf_ok_poke_advance) simp_all
  then have m: "msg (put i f) = (be16 0x0200 @ [0x00, 28] @ SIM_code (terminal d) @ be16 (Msg_Float_ID d)) @ ?c"
    using b assms(2) h(2,3) by (simp add: f_def msg_poke_advance)
  have len: "12 \<le> length (msg (put i f))" "length (msg (put i f)) < 65535"
    using assms(2) b i by (simp_all add: m)
  have pt: "Packet_Normal = Packet_Normal \<and> (12 :: nat) = 12 \<or> Packet_Normal = Packet_Divide \<and> (12 :: nat) = 16"
    by simp
  have fields: "tx (put i f) = tx d" "st (put i f) = st d" by (simp_all add: f_def h)
  note fin = Protocol_End_sends(1,3) [OF ok pt len, of 0, unfolded m with_len_head [OF assms(2) refl] fields]
  show ?thesis
    using eq fin i b by (intro exI [of _ "Protocol_End Packet_Normal 0 (put i f)"] exI [of _ ?c]) simp
qed

text \<open>
  The report of a stored position: when positions wait in the cycle area,
  \<^verbatim>\<open>Stuff_Normal_Data_0200H\<close> sends an acceptable frame with identifier \<open>0x0200\<close> whose body
  starts with the 28 position bytes of the oldest record, and leaves the queue as it is
  (the record is dropped only when the modem confirms).
\<close>

theorem Normal_Data_0200H_oldest:
  assumes "cycle_fifo (st d) (b # q)" and "length (SIM_code (terminal d)) = 6"
    and "Msg_Float_ID d < 65536"
  shows "\<exists>d' f i. Stuff_Normal_Data_0200H d = (True, d') \<and> cycle_fifo (st d') (b # q) \<and>
    tx d' = tx d @ [(f, 0)] \<and> TCP_RX_check f (length f) = Some i \<and> rx_CmdID i = 0x0200 \<and>
    rx_FloatID i = Msg_Float_ID d \<and> take 28 (drop 13 (rx_buf i)) = take 28 b"
proof -
  obtain d' c where d': "Stuff_Normal_Data_0200H d = (True, d')" "st d' = st d"
    "length c < 1024" and n: "28 \<le> length c" and c: "take 28 c = take 28 b" and
    "tx d' = tx d @ [(frame808 (head808 0x0200 (length c) (SIM_code (terminal d)) (Msg_Float_ID d) @ c), 0)]"
    using stored_position_body [OF assms(1,2)] by blast
  moreover obtain i where "TCP_RX_check (frame808 (head808 0x0200 (length c) (SIM_code (terminal d)) (Msg_Float_ID d) @ c))
      (length (frame808 (head808 0x0200 (length c) (SIM_code (terminal d)) (Msg_Float_ID d) @ c))) = Some i"
    "rx_CmdID i = 0x0200" "rx_FloatID i = Msg_Float_ID d"
    and body: "drop 13 (take (length c + 13) (rx_buf i)) = c"
    using head808_accepted [OF assms(2) _ assms(3) d'(3) refl, of "0x0200"] by auto
  moreover have "take 28 (drop 13 (rx_buf i)) = take 28 b"
    using body_prefix(1) [OF body n] c by simp
  ultimately show ?thesis using assms(1) by auto
qed

theorem Normal_Data_0200H_oldest_witness:
  "\<exists>d' f i. Stuff_Normal_Data_0200H (idle_device
      (snd (Api_cycle_write (1 # replicate 29 0 @ [1]) 31 blank_store))) = (True, d') \<and>
    tx d' = [(f, 0)] \<and> TCP_RX_check f (length f) = Some i \<and> rx_CmdID i = 0x0200 \<and>
    take 28 (drop 13 (rx_buf i)) = 1 # replicate 27 0"
proof -
  let ?s = "snd (Api_cycle_write (1 # replicate 29 0 @ [1]) 31 blank_store)"
  have "cycle_fifo ?s [1 # replicate 29 0 @ [1]]"
    using Api_cycle_write_push(2) [OF cycle_fifo_blank cycle_rec_example] by simp
  from Normal_Data_0200H_oldest [of "idle_device ?s", unfolded idle_fields, OF this]
  show ?thesis by (simp add: take_Cons') blast
qed

end
