(* ===== verification/Media.thy ===== *)
theory Media
  imports Messages808
begin

text \<open>
  Multimedia transmission: \<^verbatim>\<open>protocol_808/protocol_808.c\<close> (start, end, timers, the answers of
  the centre), the multimedia branches of \<^verbatim>\<open>Do_SendGPSReport_GPRS\<close>, the post-processing in
  the one second part of \<^verbatim>\<open>app_808.c\<close>, the picture index of \<^verbatim>\<open>Save_MediaIndex\<close> and
  \<^verbatim>\<open>MediaIndex_Init\<close>, and \<^verbatim>\<open>Check_MultiTakeResult_b4Trans\<close>, which starts the transmission of
  the next picture of a multi camera take. A picture or sound is announced with a message
  \<open>0x0800\<close>, sent in numbered packets of up to 512 bytes (message \<open>0x0801\<close>), and repeated in
  parts when the centre answers with a list of missing packets (message \<open>0x8800\<close>).
\<close>

section \<open>Start and end\<close>

definition Media_Start_Init :: "nat \<Rightarrow> nat \<Rightarrow> device \<Rightarrow> device" where
  "Media_Start_Init MdType MdCodeType d =
     d\<lparr>MediaObj := (MediaObj d)\<lparr>Media_Type := MdType, Media_CodeType := MdCodeType,
         SD_media_Flag := 1, SD_Eventstate := 1, RSD_State := 0, RSD_Timer := 0, RSD_total := 0,
         RSD_Reader := 0, SD_Data_Flag := 0, Media_transmittingFlag := 0\<rparr>\<rparr>"

definition Media_Clear_State :: "device \<Rightarrow> device" where
  "Media_Clear_State d =
     d\<lparr>MediaObj := (MediaObj d)\<lparr>MaxSd_counter := 0, SD_Eventstate := 0, SD_timer := 0,
         SD_media_Flag := 0, SD_Data_Flag := 0, RSD_State := 0, RSD_Timer := 0, RSD_total := 0,
         RSD_Reader := 0, Media_transmittingFlag := 0\<rparr>\<rparr>"

definition Media_Timer :: "device \<Rightarrow> device" where
  "Media_Timer d =
     (if SD_Eventstate (MediaObj d) = 1
      then let m = (MediaObj d)\<lparr>SD_timer := u8n (SD_timer (MediaObj d) + 1)\<rparr>
           in if SD_timer m > 6
              then let m = m\<lparr>SD_timer := 0, SD_media_Flag := 1, MaxSd_counter := u8n (MaxSd_counter m + 1)\<rparr>
                   in if MaxSd_counter m > 5 then Media_Clear_State (d\<lparr>MediaObj := m\<rparr>)
                      else d\<lparr>MediaObj := m\<rparr>
              else d\<lparr>MediaObj := m\<rparr>
      else d)"

text \<open>The three ends clear the state of their channel and the state of \<^verbatim>\<open>MediaObj\<close>.\<close>

definition cleared :: "media_sd_state \<Rightarrow> media_sd_state" where
  "cleared s = s\<lparr>photo_sending := 0, SD_flag := 0, SD_packetNum := 0, Total_packetNum := 0,
     Exeption_timer := 0\<rparr>"

definition Photo_send_end :: "device \<Rightarrow> device" where
  "Photo_send_end d = Media_Clear_State (d\<lparr>Photo_sdState := cleared (Photo_sdState d)\<rparr>)"

definition Sound_send_end :: "device \<Rightarrow> device" where
  "Sound_send_end d =
     Media_Clear_State (d\<lparr>Sound_sdState := cleared (Sound_sdState d), mp3_sendstate := 0,
       VocREC_running := 0\<rparr>)"

definition Video_send_end :: "device \<Rightarrow> device" where
  "Video_send_end d =
     Media_Clear_State (d\<lparr>Video_sdState := cleared (Video_sdState d), wmv_sendstate := 0\<rparr>)"

text \<open>The three starts set the channel to its first packet and count the packets of 512 bytes.\<close>

definition started :: "nat \<Rightarrow> media_sd_state \<Rightarrow> media_sd_state" where
  "started sending s = s\<lparr>photo_sending := sending, SD_flag := 0, SD_packetNum := 1, Exeption_timer := 0\<rparr>"

definition packets :: "nat \<Rightarrow> nat" where
  "packets fsize = (if fsize mod 512 \<noteq> 0 then u16 (fsize div 512 + 1) else u16 (fsize div 512))"

definition Photo_send_start :: "nat \<Rightarrow> device \<Rightarrow> device" where
  "Photo_send_start Numpic d =
     (let d = d\<lparr>Photo_sdState := started other (Photo_sdState d)\<rparr>;
          d = (case Camera_Name (Camera_Number d) of
                 Some name \<Rightarrow> (case Api_DFdirectory_Query name 1 (st d) of
                                 (n, s) \<Rightarrow> d\<lparr>st := s\<lparr>PicFileSize := n\<rparr>\<rparr>)
               | None \<Rightarrow> d);
          d = d\<lparr>Photo_sdState := (Photo_sdState d)\<lparr>Total_packetNum := packets (PicFileSize (st d))\<rparr>\<rparr>;
          d = (if Camera_Number d = 0 \<or> Total_packetNum (Photo_sdState d) = 0
               then Photo_send_end d else d)
      in Media_Start_Init 0 0 d)"

definition Sound_send_start :: "device \<Rightarrow> bool \<times> device" where
  "Sound_send_start d =
     (let d = d\<lparr>Sound_sdState := started disable (Sound_sdState d)\<rparr>;
          d = (case Api_DFdirectory_Query voice_name 1 (st d) of
                 (n, s) \<Rightarrow> d\<lparr>st := s\<lparr>SrcFileSize := n\<rparr>\<rparr>);
          d = d\<lparr>Sound_sdState := (Sound_sdState d)\<lparr>Total_packetNum := packets (SrcFileSize (st d))\<rparr>\<rparr>
      in (True, Media_Start_Init 1 3 d))"

definition MP3_send_start :: "device \<Rightarrow> bool \<times> device" where
  "MP3_send_start d =
     (let d = d\<lparr>mp3_sendstate := 1, Sound_sdState := started disable (Sound_sdState d)\<rparr>;
          d = d\<lparr>Sound_sdState := (Sound_sdState d)\<lparr>Total_packetNum := packets (mp3_fsize d)\<rparr>\<rparr>
      in (True, Media_Start_Init 1 2 d))"

definition Video_send_start :: "device \<Rightarrow> bool \<times> device" where
  "Video_send_start d =
     (let d = d\<lparr>wmv_sendstate := 1, Video_sdState := started disable (Video_sdState d)\<rparr>;
          d = d\<lparr>Video_sdState := (Video_sdState d)\<lparr>Total_packetNum := packets (wmv_fsize d)\<rparr>\<rparr>
      in (True, Media_Start_Init 2 4 d))"

section \<open>Several pictures\<close>

abbreviation (input) Max_CameraNum :: nat where "Max_CameraNum \<equiv> 4"
abbreviation (input) Take_idle :: nat where "Take_idle \<equiv> 0"
abbreviation (input) Take_Success :: nat where "Take_Success \<equiv> 1"
abbreviation (input) Take_Fail :: nat where "Take_Fail \<equiv> 2"

definition MultiTake_End :: "device \<Rightarrow> device" where
  "MultiTake_End d =
     d\<lparr>MultiTake := (MultiTake d)\<lparr>Taking := 0, Transfering := 0, CurretCameraNum := 1,
         TakeResult := replicate Max_CameraNum Take_idle, Take_retry := 0,
         Take_success_counter := 0\<rparr>\<rparr>"

definition Check_MultiTakeResult_b4Trans :: "device \<Rightarrow> nat \<times> device" where
  "Check_MultiTakeResult_b4Trans d =
     (let n = length (filter (\<lambda>r. r = Take_Success) (take Max_CameraNum (TakeResult (MultiTake d))));
          d = d\<lparr>MultiTake := (MultiTake d)\<lparr>Take_success_counter := n\<rparr>\<rparr>
      in if n \<noteq> 0
         then let i = first_index (\<lambda>r. r = Take_Success) (TakeResult (MultiTake d));
                  d = d\<lparr>MultiTake := (MultiTake d)\<lparr>Transfering := 1, Take_success_counter := n - 1,
                          TakeResult := (TakeResult (MultiTake d))[i := Take_idle]\<rparr>,
                        Camera_Number := i + 1\<rparr>
              in (1, Photo_send_start (Camera_Number d) d)
         else (0, MultiTake_End d))"

section \<open>Timers\<close>

text \<open>
  The timers of the three channels run only while their channel sends; after their limit
  they set the flag of the next packet. They differ in the limit and the channel.
\<close>

definition timer_tick :: "nat \<Rightarrow> multimedia \<Rightarrow> media_sd_state \<Rightarrow> multimedia \<times> media_sd_state" where
  "timer_tick limit m s =
     (if SD_packetNum s \<le> Total_packetNum s + 1 \<and> RSD_State m \<noteq> 2
      then let s = s\<lparr>Data_SD_counter := u8n (Data_SD_counter s + 1)\<rparr>
           in if Data_SD_counter s > limit
              then (m\<lparr>SD_Data_Flag := 1\<rparr>, s\<lparr>Data_SD_counter := 0, Exeption_timer := 0, SD_flag := 1\<rparr>)
              else (m, s)
      else (m, s))"

definition Video_Timer :: "device \<Rightarrow> device" where
  "Video_Timer d =
     (if photo_sending (Video_sdState d) = enable \<and> Media_Type (MediaObj d) = 2
      then case timer_tick 40 (MediaObj d) (Video_sdState d) of
             (m, s) \<Rightarrow> d\<lparr>MediaObj := m, Video_sdState := s\<rparr>
      else d)"

definition Sound_Timer :: "device \<Rightarrow> device" where
  "Sound_Timer d =
     (if photo_sending (Sound_sdState d) = enable \<and> Media_Type (MediaObj d) = 1
      then case timer_tick 14 (MediaObj d) (Sound_sdState d) of
             (m, s) \<Rightarrow> d\<lparr>MediaObj := m, Sound_sdState := s\<rparr>
      else d)"

definition Photo_Timer :: "device \<Rightarrow> device" where
  "Photo_Timer d =
     (if photo_sending (Photo_sdState d) = enable \<and> Media_Type (MediaObj d) = 0
      then case timer_tick 12 (MediaObj d) (Photo_sdState d) of
             (m, s) \<Rightarrow> d\<lparr>MediaObj := m, Photo_sdState := s\<rparr>
      else d)"

text \<open>A packet of the retransmission list; an end after waiting too long.\<close>

definition resend :: "multimedia \<Rightarrow> media_sd_state \<Rightarrow> media_sd_state" where
  "resend m s = s\<lparr>SD_packetNum := unat (Media_ReSdList m ! RSD_Reader m), SD_flag := 1\<rparr>"

definition send_end :: "device \<Rightarrow> device" where
  "send_end d =
     (if Media_Type (MediaObj d) = 0 then Photo_send_end d
      else if Media_Type (MediaObj d) = 1 then Sound_send_end d
      else if Media_Type (MediaObj d) = 2 then Video_send_end d
      else d)"

definition Media_RSdMode_Timer :: "device \<Rightarrow> device" where
  "Media_RSdMode_Timer d =
     (if RSD_State (MediaObj d) = 1
      then let m = (MediaObj d)\<lparr>RSD_Timer := u8n (RSD_Timer (MediaObj d) + 1)\<rparr>
           in if RSD_Timer m > 10
              then let m = m\<lparr>RSD_Timer := 0, SD_Data_Flag := 1\<rparr>;
                       d = d\<lparr>MediaObj := m\<rparr>
                   in if Media_Type m = 0 then d\<lparr>Photo_sdState := resend m (Photo_sdState d)\<rparr>
                      else if Media_Type m = 1 then d\<lparr>Sound_sdState := resend m (Sound_sdState d)\<rparr>
                      else if Media_Type m = 2 then d\<lparr>Video_sdState := resend m (Video_sdState d)\<rparr>
                      else d
              else d\<lparr>MediaObj := m\<rparr>
      else if RSD_State (MediaObj d) = 2
      then let m = (MediaObj d)\<lparr>RSD_Timer := u8n (RSD_Timer (MediaObj d) + 1)\<rparr>;
               d = d\<lparr>MediaObj := m\<rparr>
           in if RSD_Timer m > 120
              then snd (Check_MultiTakeResult_b4Trans (Media_Clear_State (send_end d)))
              else d
      else d)"

definition Media_Timer_Service :: "device \<Rightarrow> device" where
  "Media_Timer_Service d =
     (if DataLink_OK d
      then Media_RSdMode_Timer
             (if photo_sending (Photo_sdState d) = enable then Photo_Timer d
              else if photo_sending (Sound_sdState d) = enable then Sound_Timer d
              else Video_Timer d)
      else d)"

text \<open>\<^verbatim>\<open>Exeption_timer++>50\<close>: the test uses the old value, the counter moves in any case.\<close>

definition Meida_Trans_Exception :: "device \<Rightarrow> device" where
  "Meida_Trans_Exception d =
     (let inc = (\<lambda>s. s\<lparr>Exeption_timer := u16 (Exeption_timer s + 1)\<rparr>)
      in if photo_sending (Photo_sdState d) = enable
         then let old = Exeption_timer (Photo_sdState d);
                  d = d\<lparr>Photo_sdState := inc (Photo_sdState d)\<rparr>
              in if old > 50 then Photo_send_end d else d
         else if photo_sending (Sound_sdState d) = enable
         then let old = Exeption_timer (Sound_sdState d);
                  d = d\<lparr>Sound_sdState := inc (Sound_sdState d)\<rparr>
              in if old > 50 then Sound_send_end d else d
         else if photo_sending (Video_sdState d) = enable
         then let old = Exeption_timer (Video_sdState d);
                  d = d\<lparr>Video_sdState := inc (Video_sdState d)\<rparr>
              in if old > 50 then Video_send_end d else d
         else d)"

section \<open>Answers of the centre and the sending task\<close>

definition PositionSD_Enable :: "device \<Rightarrow> device" where
  "PositionSD_Enable d = d\<lparr>st := (st d)\<lparr>PositionInfo_sdFlag := 1\<rparr>\<rparr>"

definition Multimedia_0800H_ACK_process :: "device \<Rightarrow> device" where
  "Multimedia_0800H_ACK_process d =
     (let d = Media_Clear_State d;
          transmitting = (\<lambda>d. d\<lparr>MediaObj := (MediaObj d)\<lparr>Media_transmittingFlag := 1\<rparr>\<rparr>);
          udp = (\<lambda>d. d\<lparr>st := (st d)\<lparr>Current_UDP_sd := 1\<rparr>\<rparr>);
          first = (\<lambda>s. s\<lparr>photo_sending := enable, SD_packetNum := 1\<rparr>)
      in if Media_Type (MediaObj d) = 0
         then let d = udp (PositionSD_Enable (transmitting d))
              in PositionSD_Enable (d\<lparr>Photo_sdState := first (Photo_sdState d)\<rparr>)
         else if Media_Type (MediaObj d) = 1
         then let d = transmitting d
              in udp (PositionSD_Enable (d\<lparr>Sound_sdState := first (Sound_sdState d)\<rparr>))
         else if Media_Type (MediaObj d) = 2
         then let d = udp (PositionSD_Enable (transmitting d))
              in d\<lparr>Video_sdState := first (Video_sdState d)\<rparr>
         else d)"

text \<open>
  The case \<open>0x8800\<close> of \<^verbatim>\<open>TCP_RX_Process\<close>. The list buffer has ten bytes; the copy of up to 255
  bytes runs past it, which the model shows as a longer list.
\<close>

definition TCP_RX_8800 :: "bytes \<Rightarrow> nat \<Rightarrow> device \<Rightarrow> device" where
  "TCP_RX_8800 UDP_HEX_Rx infolen d =
     (if infolen = 5 then Media_Clear_State (send_end d)
      else if UDP_HEX_Rx ! 17 \<noteq> 0
      then d\<lparr>MediaObj := (MediaObj d)\<lparr>RSD_State := 1, RSD_Timer := 0, RSD_Reader := 0,
             RSD_total := unat (UDP_HEX_Rx ! 17),
             Media_ReSdList := splice 0 (take (unat (UDP_HEX_Rx ! 17)) (drop 18 UDP_HEX_Rx))
               (replicate 125 0)\<rparr>\<rparr>
      else d)"

text \<open>
  The multimedia branches of \<^verbatim>\<open>Do_SendGPSReport_GPRS\<close>; true when the function returns there.
\<close>

definition send_media_data :: "device \<Rightarrow> bool \<times> device" where
  "send_media_data d =
     (if Media_transmittingFlag (MediaObj d) = 2 \<and> DEV_Login_Operate_enable d = 2
      then (True,
            if SD_Data_Flag (MediaObj d) = 1
            then let d = snd (Stuff_MultiMedia_Data_0801H d)
                 in d\<lparr>MediaObj := (MediaObj d)\<lparr>SD_Data_Flag := 0\<rparr>\<rparr>
            else d)
      else (False, d))"

definition send_media_info :: "device \<Rightarrow> bool \<times> device" where
  "send_media_info d =
     (if SD_media_Flag (MediaObj d) = 1 \<and> DEV_Login_Operate_enable d = 2
      then let d = snd (Stuff_MultiMedia_InfoSD_0800H d)
           in (True, d\<lparr>MediaObj := (MediaObj d)\<lparr>SD_media_Flag := 2\<rparr>\<rparr>)
      else (False, d))"

text \<open>The multimedia part of the one second work in \<^verbatim>\<open>app_808.c\<close>.\<close>

definition media_second :: "device \<Rightarrow> device" where
  "media_second d =
     (let d = (if Media_transmittingFlag (MediaObj d) = 1
               then let d = d\<lparr>MediaObj := (MediaObj d)\<lparr>Media_transmittingFlag := 2\<rparr>\<rparr>
                    in if Duomeiti_sdFlag d = 1
                       then Video_send_end (Sound_send_end (Photo_send_end
                              (Media_Clear_State (d\<lparr>Duomeiti_sdFlag := 0\<rparr>))))
                       else d
               else d)
      in if SD_media_Flag (MediaObj d) = 2
         then let d = Multimedia_0800H_ACK_process d
              in d\<lparr>MediaObj := (MediaObj d)\<lparr>SD_media_Flag := 0\<rparr>\<rparr>
         else d)"

section \<open>The media index\<close>

text \<open>
  The memory image of the structure \<^verbatim>\<open>MediaIndex\<close>: flag, identifier, type, channel, event, file
  name and position, with the padding of the compiler.
\<close>

definition media_index :: "nat \<Rightarrow> nat \<Rightarrow> nat \<Rightarrow> nat \<Rightarrow> nat \<Rightarrow> bytes \<Rightarrow> bytes \<Rightarrow> bytes" where
  "media_index flag mid ty ch ev name pos =
     [byte flag, 0, 0, 0] @ le32 mid @ [byte ty, byte ch, byte ev] @
     take 12 (name @ replicate 12 0) @ take 28 (pos @ replicate 28 0) @ [0]"

text \<open>
  The first free entry of eight. The sound index is read at entry 1 every time, as the code
  does; a full index starts again at entry 0.
\<close>

definition free_index :: "nat \<Rightarrow> store \<Rightarrow> nat" where
  "free_index ty s =
     (let free = (\<lambda>i. case snd (if ty = 0 then Api_RecordNum_Read pic_index i 52 s
                                else Api_RecordNum_Read voice_index 1 52 s) of
                        Some c \<Rightarrow> c ! 0 = 0 | None \<Rightarrow> False);
          i = first_index free [0..<8]
      in if i = 8 then 0 else i)"

definition Save_MediaIndex :: "nat \<Rightarrow> bytes \<Rightarrow> nat \<Rightarrow> nat \<Rightarrow> device \<Rightarrow> bool \<times> device" where
  "Save_MediaIndex ty name ch Evencode d =
     (if ty \<noteq> 1 \<and> ty \<noteq> 0 then (False, d)
      else let i = free_index ty (st d);
               c = media_index 1 (Msg_Float_ID d) ty ch Evencode (takeWhile (\<lambda>b. b \<noteq> 0) name)
                     (Stuff_O200_Info_Only (gps d))
           in (True, d\<lparr>st := snd (Api_RecordNum_Write (if ty = 0 then pic_index else voice_index)
                                   i c 52 (st d))\<rparr>))"

definition MediaIndex_Init :: "store \<Rightarrow> store" where
  "MediaIndex_Init s =
     s\<lparr>flash := fold (\<lambda>i f.
         let pic = media_index 0 0 0 (i + 1) 0 (ascii ''pic.jpg'') [];
             sound = media_index 0 0 1 (i + 1) 0 (ascii ''sound.wav'') []
         in if i = 0
            then DF_WriteFlashSector DF_SoundIndex_Page 0 sound 52
                   (DF_WriteFlashSector DF_PicIndex_Page 0 pic 52 f)
            else DF_WriteFlashDirect (DF_SoundIndex_Page + i) 0 sound 52
                   (DF_WriteFlashDirect (DF_PicIndex_Page + i) 0 pic 52 f)) [0..<8] (flash s)\<rparr>"

section \<open>The channel timers\<close>

text \<open>
  The contract the three channel timers share: outside their channel they do nothing, inside
  it they make a \<open>timer_tick\<close> of the channel. \<open>upd\<close> replaces the multimedia object and
  the channel state of a device.
\<close>

locale sd_channel =
  fixes chan :: "device \<Rightarrow> media_sd_state"
    and upd :: "multimedia \<Rightarrow> media_sd_state \<Rightarrow> device \<Rightarrow> device"
    and timer :: "device \<Rightarrow> device"
    and ty limit :: nat
  assumes chan_upd: "chan (upd m s d) = s"
    and media_upd: "MediaObj (upd m s d) = m"
    and upd_upd: "upd m s (upd m' s' d) = upd m s d"
    and upd_same: "upd (MediaObj d) (chan d) d = d"
    and timer_off: "photo_sending (chan d) \<noteq> 1 \<or> Media_Type (MediaObj d) \<noteq> ty \<Longrightarrow> timer d = d"
    and timer_on: "photo_sending (chan d) = 1 \<Longrightarrow> Media_Type (MediaObj d) = ty \<Longrightarrow>
      timer d = (case timer_tick limit (MediaObj d) (chan d) of (m, s) \<Rightarrow> upd m s d)"
    and limit: "limit < 255"
begin

text \<open>Up to the limit the timer only counts.\<close>

lemma ticks_count:
  assumes "photo_sending (chan d) = 1" and "Media_Type (MediaObj d) = ty"
    and "SD_packetNum (chan d) \<le> Total_packetNum (chan d) + 1" and "RSD_State (MediaObj d) \<noteq> 2"
    and "Data_SD_counter (chan d) + k \<le> limit"
  shows "(timer ^^ k) d =
    upd (MediaObj d) ((chan d)\<lparr>Data_SD_counter := Data_SD_counter (chan d) + k\<rparr>) d"
  using assms(5)
proof (induction k)
  case 0
  show ?case by (simp add: upd_same)
next
  case (Suc k)
  let ?e = "upd (MediaObj d) ((chan d)\<lparr>Data_SD_counter := Data_SD_counter (chan d) + k\<rparr>) d"
  have "timer ?e = (case timer_tick limit (MediaObj ?e) (chan ?e) of (m, s) \<Rightarrow> upd m s ?e)"
    using assms(1,2) by (intro timer_on) (simp_all add: chan_upd media_upd)
  also have "\<dots> = upd (MediaObj d) ((chan d)\<lparr>Data_SD_counter := Data_SD_counter (chan d) + Suc k\<rparr>) d"
    using assms(3,4) Suc.prems limit
    by (simp add: chan_upd media_upd timer_tick_def u8n_small upd_upd)
  finally show ?case using Suc.IH Suc.prems by simp
qed

text \<open>One tick more, and the next packet is due.\<close>

lemma ticks_fire:
  assumes "photo_sending (chan d) = 1" and "Media_Type (MediaObj d) = ty"
    and "SD_packetNum (chan d) \<le> Total_packetNum (chan d) + 1" and "RSD_State (MediaObj d) \<noteq> 2"
    and "Data_SD_counter (chan d) + k = limit"
  shows "(timer ^^ Suc k) d = upd ((MediaObj d)\<lparr>SD_Data_Flag := 1\<rparr>)
    ((chan d)\<lparr>Data_SD_counter := 0, Exeption_timer := 0, SD_flag := 1\<rparr>) d"
proof -
  let ?e = "upd (MediaObj d) ((chan d)\<lparr>Data_SD_counter := Data_SD_counter (chan d) + k\<rparr>) d"
  have e: "(timer ^^ k) d = ?e" using assms by (intro ticks_count) simp_all
  have "timer ?e = (case timer_tick limit (MediaObj ?e) (chan ?e) of (m, s) \<Rightarrow> upd m s ?e)"
    using assms(1,2) by (intro timer_on) (simp_all add: chan_upd media_upd)
  also have "\<dots> = upd ((MediaObj d)\<lparr>SD_Data_Flag := 1\<rparr>)
    ((chan d)\<lparr>Data_SD_counter := 0, Exeption_timer := 0, SD_flag := 1\<rparr>) d"
    using assms(3-5) limit by (simp add: chan_upd media_upd timer_tick_def u8n_small upd_upd)
  finally show ?thesis by (simp add: e)
qed

end

interpretation photo: sd_channel Photo_sdState "\<lambda>m s d. d\<lparr>MediaObj := m, Photo_sdState := s\<rparr>" Photo_Timer 0 12
  by unfold_locales (auto simp: Photo_Timer_def)

interpretation sound: sd_channel Sound_sdState "\<lambda>m s d. d\<lparr>MediaObj := m, Sound_sdState := s\<rparr>" Sound_Timer 1 14
  by unfold_locales (auto simp: Sound_Timer_def)

interpretation video: sd_channel Video_sdState "\<lambda>m s d. d\<lparr>MediaObj := m, Video_sdState := s\<rparr>" Video_Timer 2 40
  by unfold_locales (auto simp: Video_Timer_def)

section \<open>One packet of a picture\<close>

text \<open>Where the pictures lie, and the picture that is to be sent.\<close>

definition Pic_page :: "nat \<Rightarrow> nat" where
  "Pic_page c = (if c = 1 then PicStart_offset else if c = 2 then PicStart_offset2
     else if c = 3 then PicStart_offset3 else PicStart_offset4)"

definition stored_picture :: "nat \<Rightarrow> store \<Rightarrow> bytes" where
  "stored_picture c s = read_all nor_read ((Pic_page c + 1) * 512) (PicFileSize s) (flash s)"

text \<open>The \<open>n\<close>-th piece of 512 bytes, counted from 1.\<close>

definition chunk :: "nat \<Rightarrow> bytes \<Rightarrow> bytes" where
  "chunk n p = take 512 (drop ((n - 1) * 512) p)"

lemma concat_chunks: "concat (map (\<lambda>i. chunk (i + 1) p) [0..<n]) = take (n * 512) p"
proof (induction n)
  case (Suc n)
  have "take (Suc n * 512) p = take (n * 512) p @ take 512 (drop (n * 512) p)"
    by (simp add: take_add [symmetric] add.commute)
  with Suc show ?case by (simp add: chunk_def)
qed simp

lemma packets_bounds:
  assumes "0 < fsize" and "fsize \<le> 65536"
  shows "1 \<le> packets fsize" "packets fsize \<le> 128" "(packets fsize - 1) * 512 < fsize"
    "fsize \<le> packets fsize * 512"
proof -
  obtain q r where qr: "fsize = q * 512 + r" "r < 512"
    and d: "fsize div 512 = q" "fsize mod 512 = r"
    using div_mult_mod_eq [of fsize 512] by (metis mod_less_divisor zero_less_numeral)
  have "packets fsize = (if r \<noteq> 0 then q + 1 else q)"
    unfolding packets_def d using qr assms(2) by (simp add: u16_small)
  then show "1 \<le> packets fsize" "packets fsize \<le> 128" "(packets fsize - 1) * 512 < fsize"
    "fsize \<le> packets fsize * 512"
    using assms qr by (cases "r = 0"; simp)+
qed

lemma length_chunk: "length (chunk n p) \<le> 512" "length (chunk n p) \<le> 548"
  by (simp_all add: chunk_def)

text \<open>The head of a divided message and the state in which a picture is being sent.\<close>

definition div_head :: "nat \<Rightarrow> nat \<Rightarrow> bytes \<Rightarrow> nat \<Rightarrow> nat \<Rightarrow> nat \<Rightarrow> bytes" where
  "div_head mid len sim rid tot cur =
     be16 mid @ [byte (len div 256) OR 0x20, byte len] @ sim @ be16 rid @ be16 tot @ be16 cur"

lemma with_len_div_head:
  assumes "length sim = 6"
  shows "with_len Packet_Divide 16 (be16 mid @ [a, b] @ sim @ be16 rid @ be16 tot @ be16 cur @ c) =
    div_head mid (length c) sim rid tot cur @ c"
  using assms by (simp add: with_len_def div_head_def be16_def numeral_2_eq_2 numeral_3_eq_3)

definition photo_state :: "device \<Rightarrow> bool" where
  "photo_state d =
     (Camera_Number d \<in> {1, 2, 3, 4} \<and> Media_Type (MediaObj d) = 0 \<and>
      0 < PicFileSize (st d) \<and> PicFileSize (st d) \<le> 65536 \<and>
      Total_packetNum (Photo_sdState d) = packets (PicFileSize (st d)) \<and>
      length (SIM_code (terminal d)) = 6 \<and> length (current_position (gps d)) = 28)"

text \<open>The body of packet \<open>n\<close>: the first one starts with the description and the position.\<close>

definition photo_body :: "nat \<Rightarrow> device \<Rightarrow> bytes" where
  "photo_body n d =
     (if n = 1 then media_desc (media_packet (Total_packetNum (Photo_sdState d)) n (Camera_Number d) d) @
        current_position (gps d) else []) @
     chunk n (stored_picture (Camera_Number d) (st d))"

definition photo_frame :: "nat \<Rightarrow> device \<Rightarrow> bytes" where
  "photo_frame n d = frame808 (div_head 0x0801 (length (photo_body n d)) (SIM_code (terminal d))
     (0xF000 + Camera_Number d * 0x0100 + n) (packets (PicFileSize (st d))) n @ photo_body n d)"

lemma length_photo_body: "photo_state d \<Longrightarrow> length (photo_body n d) \<le> 548"
proof -
  assume "photo_state d"
  then show ?thesis by (simp add: photo_body_def media_desc_def photo_state_def length_chunk)
qed

lemma nobuf_Protocol_End:
  "nobuf (Protocol_End t l d) = (nobuf d)\<lparr>tx := tx (Protocol_End t l d), Msg_Float_ID := u16 (Msg_Float_ID d + 1)\<rparr>"
  by (simp add: Protocol_End_def Let_def)

abbreviation (input) photo_packet :: "device \<Rightarrow> device" where
  "photo_packet d \<equiv> media_packet (Total_packetNum (Photo_sdState d)) (SD_packetNum (Photo_sdState d))
     (Camera_Number d) d"

lemma Protocol_Head_photo:
  assumes "photo_state d"
  obtains e where "Protocol_Head 0x0801 Packet_Divide d = (True, e)" and "buf_ok e"
    and "msg e = be16 0x0801 @ [0x00, 28] @ SIM_code (terminal d) @
      be16 (0xF000 + Camera_Number d * 0x0100 + SD_packetNum (Photo_sdState d)) @
      be16 (Total_packetNum (Photo_sdState d)) @ be16 (SD_packetNum (Photo_sdState d))"
    and "nobuf e = nobuf (photo_packet d)"
proof -
  let ?e = "snd (Protocol_Head 0x0801 Packet_Divide d)"
  have ok: "buf_ok (d\<lparr>MediaObj := m\<rparr>) = buf_ok d" "msg (d\<lparr>MediaObj := m\<rparr>) = msg d" for d m
    by (simp_all add: buf_ok_def msg_def)
  have "Protocol_Head 0x0801 Packet_Divide d = (True, ?e)" "buf_ok ?e"
    "msg ?e = be16 0x0801 @ [0x00, 28] @ SIM_code (terminal d) @
      be16 (0xF000 + Camera_Number d * 0x0100 + SD_packetNum (Photo_sdState d)) @
      be16 (Total_packetNum (Photo_sdState d)) @ be16 (SD_packetNum (Photo_sdState d))"
    "nobuf ?e = nobuf (photo_packet d)"
    using assms by (simp_all add: Protocol_Head_def Let_def photo_state_def media_packet_def ok)
  then show ?thesis by (rule that)
qed

text \<open>The 512 bytes read for packet \<open>n\<close> start with its piece of the picture.\<close>

lemma packet_content:
  assumes "photo_state d" and "1 \<le> n" and "n \<le> packets (PicFileSize (st d))"
  shows "\<exists>r. packet_size (PicFileSize (st d)) n = Some r \<and> r \<le> 512 \<and>
    take r (DF_ReadFlash (Pic_page (Camera_Number d) + n) 0 512 (flash (st d))) =
      chunk n (stored_picture (Camera_Number d) (st d))"
proof -
  let ?z = "PicFileSize (st d)"
  let ?r = "min 512 (?z - (n - 1) * 512)"
  note b = packets_bounds [of ?z]
  have z: "0 < ?z" "?z \<le> 65536" using assms(1) by (simp_all add: photo_state_def)
  have lt: "(n - 1) * 512 < ?z"
    using b(3) [OF z] assms(2,3) mult_le_mono1 [of "n - 1" "packets ?z - 1" 512] by linarith
  have "u16 ((n + 65535) * 512) = (n - 1) * 512"
  proof -
    have "(n + 65535) * 512 = (n - 1) * 512 + 512 * 65536" using assms(2) by (simp add: algebra_simps)
    then show ?thesis unfolding u16_def using lt z by (simp only: mod_mult_self1) simp
  qed
  then have size: "packet_size ?z n = Some ?r"
    using lt by (simp add: packet_size_def min_def Let_def)
  have "n \<le> 128" using b(2) [OF z] assms(3) by simp
  then have pg: "Pic_page (Camera_Number d) + n < 8192" by (simp add: Pic_page_def)
  have "take ?r (DF_ReadFlash (Pic_page (Camera_Number d) + n) 0 512 (flash (st d))) =
      chunk n (stored_picture (Camera_Number d) (st d))"
  proof (rule nth_equalityI)
    show "length (take ?r (DF_ReadFlash (Pic_page (Camera_Number d) + n) 0 512 (flash (st d)))) =
        length (chunk n (stored_picture (Camera_Number d) (st d)))"
      using lt by (simp add: DF_ReadFlash_in_range [OF pg] chunk_def stored_picture_def)
  next
    fix i
    assume "i < length (take ?r (DF_ReadFlash (Pic_page (Camera_Number d) + n) 0 512 (flash (st d))))"
    then have "i < 512 \<and> i < ?z - (n - 1) * 512"
      by (simp add: DF_ReadFlash_in_range [OF pg])
    then have i: "i < 512" "(n - 1) * 512 + i < ?z" by linarith+
    have a: "(Pic_page (Camera_Number d) + n) * 512 + i =
        (Pic_page (Camera_Number d) + 1) * 512 + ((n - 1) * 512 + i)"
      using assms(2) by (simp add: algebra_simps)
    have "DF_ReadFlash (Pic_page (Camera_Number d) + n) 0 512 (flash (st d)) ! i =
        nor_read (flash (st d)) ((Pic_page (Camera_Number d) + n) * 512 + i)"
      using i by (simp add: DF_ReadFlash_in_range [OF pg])
    also have "\<dots> = stored_picture (Camera_Number d) (st d) ! ((n - 1) * 512 + i)"
      unfolding a stored_picture_def using i(2) by (subst nth_read_all) simp_all
    finally show "take ?r (DF_ReadFlash (Pic_page (Camera_Number d) + n) 0 512 (flash (st d))) ! i =
        chunk n (stored_picture (Camera_Number d) (st d)) ! i"
      using i by (simp add: chunk_def stored_picture_def)
  qed
  with size show ?thesis by (intro exI [of _ ?r]) simp
qed

lemma put_Nil [simp]: "put [] d = d"
  by (simp add: put_def poke_def advance_def splice_def)

lemma nobuf_after_0801H: "nobuf (after_0801H d) = after_0801H (nobuf d)"
  by (simp add: after_0801H_def Let_def)

lemma Camera_Name_page:
  assumes "c \<in> {1, 2, 3, 4}" and "n < 65536"
  obtains name where "Camera_Name c = Some name"
    and "\<And>s. Api_DFdirectory_Read name 512 1 n s = (True, Some (DF_ReadFlash (Pic_page c + n) 0 512 (flash s)), s)"
  using assms by (auto simp: Camera_Name_def Api_DFdirectory_Read_def Pic_page_def u16_small)

text \<open>The content case of a picture.\<close>

lemma photo_content_ok:
  assumes "photo_state d" and "photo_sending (Photo_sdState d) = 1" and "SD_flag (Photo_sdState d) = 1"
    and "n = SD_packetNum (Photo_sdState d)" and "1 \<le> n" and "n \<le> packets (PicFileSize (st d))"
    and "Media_currentPacketNum (MediaObj d) = n" and "buf_ok d"
  obtains e where "photo_content d = (True, e)" and "buf_ok e"
    and "msg e = msg d @ chunk n (stored_picture (Camera_Number d) (st d))"
    and "nobuf e = (nobuf d)\<lparr>Photo_sdState := (Photo_sdState d)\<lparr>SD_flag := 0\<rparr>\<rparr>"
proof -
  let ?d = "d\<lparr>Photo_sdState := (Photo_sdState d)\<lparr>SD_flag := 0\<rparr>\<rparr>"
  let ?c = "DF_ReadFlash (Pic_page (Camera_Number d) + n) 0 512 (flash (st d))"
  have cam: "Camera_Number d \<in> {1, 2, 3, 4}" using assms(1) by (simp add: photo_state_def)
  have "n < 65536" using packets_bounds(2) [of "PicFileSize (st d)"] assms(1,6) by (simp add: photo_state_def)
  then obtain name where name: "Camera_Name (Camera_Number d) = Some name"
    "\<And>s. Api_DFdirectory_Read name 512 1 n s =
      (True, Some (DF_ReadFlash (Pic_page (Camera_Number d) + n) 0 512 (flash s)), s)"
    using Camera_Name_page [OF cam] by blast
  obtain r where r: "packet_size (PicFileSize (st d)) n = Some r" "r \<le> 512"
    "take r ?c = chunk n (stored_picture (Camera_Number d) (st d))"
    using packet_content [OF assms(1,5,6)] by blast
  have len: "r \<le> length ?c" using r(2) by (simp add: u16_small)
  have ok: "buf_ok ?d" "msg ?d = msg d" using assms(8) by (simp_all add: buf_ok_def msg_def)
  have self: "?d\<lparr>st := st ?d\<rparr> = ?d" by simp
  show ?thesis
  proof (rule that)
    show "photo_content d = (True, advance r (poke ?c ?d))"
      using assms(2,3,4,7) name r(1) by (simp add: photo_content_def read_media_def Let_def)
    show "buf_ok (advance r (poke ?c ?d))" using ok(1) len by (rule buf_ok_poke_advance)
    show "msg (advance r (poke ?c ?d)) = msg d @ chunk n (stored_picture (Camera_Number d) (st d))"
      using msg_poke_advance [OF ok(1) len] r(3) ok(2) by simp
    show "nobuf (advance r (poke ?c ?d)) = (nobuf d)\<lparr>Photo_sdState := (Photo_sdState d)\<lparr>SD_flag := 0\<rparr>\<rparr>"
      by simp
  qed
qed

lemma send_photo_packet:
  assumes "photo_state d" and "photo_sending (Photo_sdState d) = 1" and "SD_flag (Photo_sdState d) = 1"
    and "n = SD_packetNum (Photo_sdState d)" and "1 \<le> n" and "n \<le> packets (PicFileSize (st d))"
  obtains d' where "Stuff_MultiMedia_Data_0801H d = (True, d')"
    and "nobuf d' = after_0801H ((nobuf (photo_packet d))
      \<lparr>Photo_sdState := (Photo_sdState d)\<lparr>SD_flag := 0\<rparr>,
       tx := tx d @ [(photo_frame n d, 0)], Msg_Float_ID := u16 (Msg_Float_ID d + 1)\<rparr>)"
proof -
  obtain e where e: "Protocol_Head 0x0801 Packet_Divide d = (True, e)" "buf_ok e"
    and m: "msg e = be16 0x0801 @ [0x00, 28] @ SIM_code (terminal d) @
      be16 (0xF000 + Camera_Number d * 0x0100 + SD_packetNum (Photo_sdState d)) @
      be16 (Total_packetNum (Photo_sdState d)) @ be16 (SD_packetNum (Photo_sdState d))"
    and ne: "nobuf e = nobuf (photo_packet d)"
    by (rule Protocol_Head_photo [OF assms(1)])
  have f: "st e = st d" "gps e = gps d" "terminal e = terminal d" "tx e = tx d"
    "Photo_sdState e = Photo_sdState d" "Camera_Number e = Camera_Number d"
    "MediaObj e = MediaObj (photo_packet d)" "Msg_Float_ID e = Msg_Float_ID d"
    using arg_cong [OF ne, of st] arg_cong [OF ne, of gps] arg_cong [OF ne, of terminal]
      arg_cong [OF ne, of tx] arg_cong [OF ne, of Photo_sdState] arg_cong [OF ne, of Camera_Number]
      arg_cong [OF ne, of MediaObj] arg_cong [OF ne, of Msg_Float_ID]
    by (simp_all add: media_packet_def)
  let ?p = "if n = 1 then media_desc e @ current_position (gps e) else []"
  let ?g = "put ?p e"
  have desc: "media_desc e = media_desc (photo_packet d)" by (simp add: media_desc_def f(7))
  have body: "photo_body n d = ?p @ chunk n (stored_picture (Camera_Number d) (st d))"
    unfolding photo_body_def desc f(2) assms(4) by simp
  have ps: "photo_state ?g" using assms(1) by (simp add: photo_state_def f media_packet_def)
  have cur: "Media_currentPacketNum (MediaObj ?g) = n" by (simp add: f media_packet_def assms(4))
  have P: "Photo_sdState ?g = Photo_sdState d" "st ?g = st d" by (simp_all add: f)
  have pre: "photo_sending (Photo_sdState ?g) = 1" "SD_flag (Photo_sdState ?g) = 1"
    "n = SD_packetNum (Photo_sdState ?g)" "n \<le> packets (PicFileSize (st ?g))" "buf_ok ?g"
    unfolding P using assms(2-6) e(2) by simp_all
  obtain h where h: "photo_content ?g = (True, h)" "buf_ok h"
    "msg h = msg ?g @ chunk n (stored_picture (Camera_Number ?g) (st ?g))"
    "nobuf h = (nobuf ?g)\<lparr>Photo_sdState := (Photo_sdState ?g)\<lparr>SD_flag := 0\<rparr>\<rparr>"
    by (rule photo_content_ok [OF ps pre(1-3) assms(5) pre(4) cur pre(5)])
  have mh: "msg h = be16 0x0801 @ [0x00, 28] @ SIM_code (terminal d) @
      be16 (0xF000 + Camera_Number d * 0x0100 + n) @ be16 (Total_packetNum (Photo_sdState d)) @
      be16 n @ photo_body n d"
  proof -
    have "Camera_Number ?g = Camera_Number d" by (simp add: f)
    then have "msg h = msg e @ photo_body n d"
      unfolding body h(3) msg_put [OF e(2)] P by simp
    then show ?thesis unfolding m assms(4) by simp
  qed
  have sim: "length (SIM_code (terminal d)) = 6" and tot: "Total_packetNum (Photo_sdState d) = packets (PicFileSize (st d))"
    using assms(1) by (simp_all add: photo_state_def)
  have len: "16 \<le> length (msg h)" "length (msg h) < 65535"
    using length_photo_body [OF assms(1), of n] sim by (simp_all add: mh)
  have hf: "tx h = tx d" "MediaObj h = MediaObj (photo_packet d)" "Msg_Float_ID h = Msg_Float_ID d"
    using arg_cong [OF h(4), of tx] arg_cong [OF h(4), of MediaObj] arg_cong [OF h(4), of Msg_Float_ID]
    by (simp_all add: f)
  have pt: "Packet_Divide = Packet_Normal \<and> (16 :: nat) = 12 \<or> Packet_Divide = Packet_Divide \<and> (16 :: nat) = 16"
    by simp
  have sent: "tx (Protocol_End Packet_Divide 0 h) = tx d @ [(photo_frame n d, 0)]"
    unfolding Protocol_End_sends(1) [OF h(2) pt len] hf(1)
    unfolding mh with_len_div_head [OF sim] photo_frame_def tot by simp
  have d2: "(if Media_currentPacketNum (MediaObj e) = 1 then put (media_desc e @ current_position (gps e)) e else e) = ?g"
    using cur by simp
  have ty: "Media_Type (MediaObj ?g) = 0"
    and le: "\<not> Media_currentPacketNum (MediaObj h) > Media_totalPacketNum (MediaObj h)"
    using ps assms(4,6) tot by (simp_all add: photo_state_def hf media_packet_def)
  show ?thesis
  proof (rule that)
    show "Stuff_MultiMedia_Data_0801H d = (True, after_0801H (Protocol_End Packet_Divide 0 h))"
      unfolding Stuff_MultiMedia_Data_0801H_def e(1) using h(1) ty le d2 by (simp add: Let_def)
    show "nobuf (after_0801H (Protocol_End Packet_Divide 0 h)) = after_0801H ((nobuf (photo_packet d))
      \<lparr>Photo_sdState := (Photo_sdState d)\<lparr>SD_flag := 0\<rparr>,
       tx := tx d @ [(photo_frame n d, 0)], Msg_Float_ID := u16 (Msg_Float_ID d + 1)\<rparr>)"
      unfolding nobuf_after_0801H nobuf_Protocol_End h(4) sent hf(3) P by (simp add: ne)
  qed
qed

section \<open>The centre's view\<close>

text \<open>
  What the receiver of a frame takes from a multimedia packet: its number and its data. The
  data of packet 1 follow the 36 bytes of description and position.
\<close>

definition media_rx :: "bytes \<Rightarrow> (nat \<times> bytes) option" where
  "media_rx f =
     (case TCP_RX_check f (length f) of
        None \<Rightarrow> None
      | Some i \<Rightarrow>
          if rx_CmdID i = 0x0801
          then let cur = of_be16 (rx_buf i ! 15) (rx_buf i ! 16)
               in Some (cur, drop (if cur = 1 then 53 else 17) (take (17 + rx_infolen i) (rx_buf i)))
          else None)"

lemma and_3_or_20: "(b OR 0x20) AND 0x03 = b AND (0x03 :: u8)"
  by (simp only: bit.conj_disj_distrib2) simp

lemma media_rx_photo:
  assumes "photo_state d" and "1 \<le> n" and "n \<le> packets (PicFileSize (st d))"
  shows "media_rx (photo_frame n d) = Some (n, chunk n (stored_picture (Camera_Number d) (st d)))"
proof -
  let ?b = "photo_body n d" and ?pic = "stored_picture (Camera_Number d) (st d)"
  let ?m = "div_head 0x0801 (length ?b) (SIM_code (terminal d)) (0xF000 + Camera_Number d * 0x0100 + n)
    (packets (PicFileSize (st d))) n @ ?b"
  have sim: "length (SIM_code (terminal d)) = 6" and pos: "length (current_position (gps d)) = 28"
    using assms(1) by (simp_all add: photo_state_def)
  have n: "n < 65536" using packets_bounds(2) [of "PicFileSize (st d)"] assms(1,3) by (simp add: photo_state_def)
  have lb: "length ?b < 1024" using length_photo_body [OF assms(1), of n] by simp
  have len: "length ?m = length ?b + 16" using sim by (simp add: div_head_def)
  obtain buf where chk: "TCP_RX_check (photo_frame n d) (length (photo_frame n d)) =
      Some \<lparr>rx_buf = buf, rx_len = length ?m + 3, rx_CmdID = of_be16 (?m ! 0) (?m ! 1),
        rx_FloatID = of_be16 (?m ! 10) (?m ! 11), rx_infolen = unat (?m ! 2 AND 0x03) * 256 + unat (?m ! 3)\<rparr>"
    and buf: "take (length ?m + 3) buf = 0x7e # ?m @ [xor_sum ?m, 0x7e]"
    using frame808_check [of ?m "[]"] len unfolding photo_frame_def by auto
  have id: "of_be16 (?m ! 0) (?m ! 1) = 0x0801"
    by (simp add: div_head_def be16_def of_be16_def unat_of_nat)
  have il: "unat (?m ! 2 AND 0x03) * 256 + unat (?m ! 3) = length ?b"
    using infolen_be16 [OF lb] by (simp add: div_head_def be16_def numeral_2_eq_2 numeral_3_eq_3 and_3_or_20)
  have tk: "take (17 + length ?b) buf = 0x7e # ?m"
  proof -
    have "take (17 + length ?b) buf = take (17 + length ?b) (take (length ?m + 3) buf)"
      unfolding len by simp
    also have "\<dots> = 0x7e # ?m"
    proof -
      have "17 + length ?b = Suc (length ?m)" using len by simp
      then show ?thesis unfolding buf by (simp only: take_Suc_Cons) simp
    qed
    finally show ?thesis .
  qed
  have at: "buf ! i = (0x7e # ?m) ! i" if "i < 17" for i
    using arg_cong [OF tk, of "\<lambda>l. l ! i"] that by simp
  have cur: "of_be16 (buf ! 15) (buf ! 16) = n"
    using at [of 15] at [of 16] sim of_be16_be16 [OF n] by (simp add: div_head_def be16_def nth_append)
  have "drop (if n = 1 then 53 else 17) (0x7e # ?m) = chunk n ?pic"
    using sim pos by (simp add: div_head_def photo_body_def media_desc_def)
  then show ?thesis
    by (simp only: media_rx_def chk id il cur tk option.case rx_info.simps Let_def simp_thms if_True)
qed

section \<open>Transmission of a picture\<close>

text \<open>
  The steps that interleave while packets are sent one after the other: a tick of the
  timers, a turn of the sending task, the one second supervision, new positions, and the
  link going up or down. \<open>RSD_State = 0\<close> is the sequential phase.
\<close>

inductive media_step :: "device \<Rightarrow> device \<Rightarrow> bool" where
  tick: "RSD_State (MediaObj d) = 0 \<Longrightarrow> media_step d (Media_Timer_Service d)"
| send: "RSD_State (MediaObj d) = 0 \<Longrightarrow> media_step d (snd (send_media_data d))"
| supervise: "RSD_State (MediaObj d) = 0 \<Longrightarrow> media_step d (Meida_Trans_Exception d)"
| position: "length (current_position g) = 28 \<Longrightarrow> media_step d (d\<lparr>gps := g\<rparr>)"
| link: "media_step d (d\<lparr>DataLink_OK := b\<rparr>)"

inductive media_reach :: "device \<Rightarrow> device \<Rightarrow> bool" for d0 where
  start: "media_reach d0 d0"
| next_step: "media_reach d0 d \<Longrightarrow> media_step d d' \<Longrightarrow> media_reach d0 d'"

inductive_cases media_stepE: "media_step d d'"

text \<open>
  Packets \<open>1, \<dots>, n\<close> of picture \<open>p\<close> have been handed to the modem behind the frames \<open>old\<close>.
\<close>

definition sent_packets :: "(bytes \<times> nat) list \<Rightarrow> bytes \<Rightarrow> nat \<Rightarrow> (bytes \<times> nat) list \<Rightarrow> bool" where
  "sent_packets old p n t =
     (\<exists>fs. t = old @ map (\<lambda>f. (f, 0)) fs \<and> map media_rx fs = map (\<lambda>i. Some (i + 1, chunk (i + 1) p)) [0..<n])"

lemma sent_packets_0 [simp]: "sent_packets old p 0 old"
  by (simp add: sent_packets_def)

lemma sent_packets_Suc:
  assumes "sent_packets old p n t" and "media_rx f = Some (n + 1, chunk (n + 1) p)"
  shows "sent_packets old p (n + 1) (t @ [(f, 0)])"
proof -
  obtain fs where "t = old @ map (\<lambda>f. (f, 0)) fs"
    "map media_rx fs = map (\<lambda>i. Some (i + 1, chunk (i + 1) p)) [0..<n]"
    using assms(1) by (auto simp: sent_packets_def)
  with assms(2) show ?thesis
    unfolding sent_packets_def by (intro exI [of _ "fs @ [f]"]) simp
qed

text \<open>The phases: sending packet \<open>n + 1\<close>, waiting for the centre's answer, or broken off.\<close>

definition no_other_media :: "device \<Rightarrow> bool" where
  "no_other_media d = (photo_sending (Sound_sdState d) \<noteq> 1 \<and> photo_sending (Video_sdState d) \<noteq> 1)"

definition in_sequence :: "nat \<Rightarrow> device \<Rightarrow> bool" where
  "in_sequence n d =
     (photo_state d \<and> no_other_media d \<and> photo_sending (Photo_sdState d) = 1 \<and>
      SD_packetNum (Photo_sdState d) = n + 1 \<and> n < packets (PicFileSize (st d)) \<and>
      RSD_State (MediaObj d) = 0 \<and> Media_transmittingFlag (MediaObj d) = 2 \<and>
      (SD_Data_Flag (MediaObj d) = 1 \<longrightarrow> SD_flag (Photo_sdState d) = 1))"

definition waiting :: "device \<Rightarrow> bool" where
  "waiting d = (RSD_State (MediaObj d) = 2)"

definition broken_off :: "device \<Rightarrow> bool" where
  "broken_off d =
     (no_other_media d \<and> photo_sending (Photo_sdState d) = 0 \<and> Media_transmittingFlag (MediaObj d) = 0 \<and>
      RSD_State (MediaObj d) = 0)"

definition media_inv :: "(bytes \<times> nat) list \<Rightarrow> bytes \<Rightarrow> nat \<Rightarrow> device \<Rightarrow> bool" where
  "media_inv old p tot d =
     (\<exists>n \<le> tot. sent_packets old p n (tx d) \<and>
        (in_sequence n d \<and> stored_picture (Camera_Number d) (st d) = p \<and> packets (PicFileSize (st d)) = tot \<or>
         waiting d \<and> n = tot \<or> broken_off d))"

lemma in_sequence_nobuf: "in_sequence n (nobuf d) = in_sequence n d"
  by (simp add: in_sequence_def photo_state_def no_other_media_def)

lemma waiting_nobuf: "waiting (nobuf d) = waiting d"
  by (simp add: waiting_def)

lemma timer_service_sequence:
  assumes "in_sequence n d"
  shows "in_sequence n (Media_Timer_Service d) \<and> tx (Media_Timer_Service d) = tx d \<and>
    st (Media_Timer_Service d) = st d \<and> Camera_Number (Media_Timer_Service d) = Camera_Number d"
  using assms
  by (auto simp: Media_Timer_Service_def Photo_Timer_def timer_tick_def Media_RSdMode_Timer_def Let_def
      in_sequence_def photo_state_def no_other_media_def)

lemma timer_service_broken:
  "broken_off d \<Longrightarrow> Media_Timer_Service d = d"
  by (simp add: Media_Timer_Service_def broken_off_def no_other_media_def Video_Timer_def
      Media_RSdMode_Timer_def)

lemma exception_sequence:
  assumes "in_sequence n d"
  shows "(in_sequence n (Meida_Trans_Exception d) \<and> st (Meida_Trans_Exception d) = st d \<and>
      Camera_Number (Meida_Trans_Exception d) = Camera_Number d \<or> broken_off (Meida_Trans_Exception d)) \<and>
    tx (Meida_Trans_Exception d) = tx d"
  using assms
  by (auto simp: Meida_Trans_Exception_def Let_def in_sequence_def photo_state_def no_other_media_def
      broken_off_def Photo_send_end_def Media_Clear_State_def cleared_def)

lemma after_0801H_fields [simp]:
  "tx (after_0801H d) = tx d" "st (after_0801H d) = st d" "Camera_Number (after_0801H d) = Camera_Number d"
  "DataLink_OK (after_0801H d) = DataLink_OK d"
  "DEV_Login_Operate_enable (after_0801H d) = DEV_Login_Operate_enable d"
  "Data_SD_counter (Photo_sdState (after_0801H d)) = Data_SD_counter (Photo_sdState d)"
  by (simp_all add: after_0801H_def Let_def inc_packet_def)

lemma send_due:
  assumes "in_sequence n d" and "d' = snd (send_media_data d)"
    and "DEV_Login_Operate_enable d = 2" and "SD_Data_Flag (MediaObj d) = 1"
  shows "tx d' = tx d @ [(photo_frame (n + 1) d, 0)]" "st d' = st d" "Camera_Number d' = Camera_Number d"
    "DataLink_OK d' = DataLink_OK d" "DEV_Login_Operate_enable d' = 2"
    "Data_SD_counter (Photo_sdState d') = Data_SD_counter (Photo_sdState d)"
    "if n + 1 < packets (PicFileSize (st d)) then in_sequence (n + 1) d' else waiting d'"
proof -
  have s: "photo_state d" "photo_sending (Photo_sdState d) = 1" "SD_flag (Photo_sdState d) = 1"
    "n + 1 = SD_packetNum (Photo_sdState d)" "1 \<le> n + 1" "n + 1 \<le> packets (PicFileSize (st d))"
    using assms(1,4) by (simp_all add: in_sequence_def)
  obtain e where e: "Stuff_MultiMedia_Data_0801H d = (True, e)"
    and ne: "nobuf e = after_0801H ((nobuf (photo_packet d))
      \<lparr>Photo_sdState := (Photo_sdState d)\<lparr>SD_flag := 0\<rparr>,
       tx := tx d @ [(photo_frame (n + 1) d, 0)], Msg_Float_ID := u16 (Msg_Float_ID d + 1)\<rparr>)"
    by (rule send_photo_packet [OF s])
  have d': "d' = e\<lparr>MediaObj := (MediaObj e)\<lparr>SD_Data_Flag := 0\<rparr>\<rparr>"
    using assms e by (simp add: send_media_data_def in_sequence_def Let_def)
  let ?E = "after_0801H ((nobuf (photo_packet d))
      \<lparr>Photo_sdState := (Photo_sdState d)\<lparr>SD_flag := 0\<rparr>,
       tx := tx d @ [(photo_frame (n + 1) d, 0)], Msg_Float_ID := u16 (Msg_Float_ID d + 1)\<rparr>)"
  have "MediaObj e = MediaObj ?E" using arg_cong [OF ne, of MediaObj] by simp
  then have nd: "nobuf d' = ?E\<lparr>MediaObj := (MediaObj ?E)\<lparr>SD_Data_Flag := 0\<rparr>\<rparr>"
    unfolding d' by (simp add: ne)
  have "packets (PicFileSize (st d)) \<le> 128"
    using s(1) packets_bounds(2) by (simp add: photo_state_def)
  then have u: "u16 (n + 1 + 1) = n + 1 + 1" using s(6) by (intro u16_small) simp
  have "if n + 1 < packets (PicFileSize (st d)) then in_sequence (n + 1) (nobuf d') else waiting (nobuf d')"
  proof (cases "n + 1 < packets (PicFileSize (st d))")
    case True
    with assms(1) s(4) have "?E = (nobuf (photo_packet d))
      \<lparr>Photo_sdState := (Photo_sdState d)\<lparr>SD_flag := 0, SD_packetNum := n + 2\<rparr>,
       tx := tx d @ [(photo_frame (n + 1) d, 0)], Msg_Float_ID := u16 (Msg_Float_ID d + 1)\<rparr>"
      using u by (simp add: after_0801H_def media_packet_def in_sequence_def photo_state_def
          inc_packet_def no_other_media_def Let_def)
    with True assms(1) show ?thesis
      unfolding nd by (simp add: in_sequence_def photo_state_def no_other_media_def media_packet_def)
  next
    case False
    with assms(1) s(4,6) show ?thesis
      unfolding nd by (simp add: after_0801H_def media_packet_def in_sequence_def photo_state_def
          waiting_def Let_def)
  qed
  then show "if n + 1 < packets (PicFileSize (st d)) then in_sequence (n + 1) d' else waiting d'"
    unfolding in_sequence_nobuf waiting_nobuf .
  have "tx (nobuf d') = tx d @ [(photo_frame (n + 1) d, 0)]" "st (nobuf d') = st d"
    "Camera_Number (nobuf d') = Camera_Number d" "DataLink_OK (nobuf d') = DataLink_OK d"
    "DEV_Login_Operate_enable (nobuf d') = 2"
    "Data_SD_counter (Photo_sdState (nobuf d')) = Data_SD_counter (Photo_sdState d)"
    unfolding nd using assms(3) by (simp_all add: media_packet_def)
  then show "tx d' = tx d @ [(photo_frame (n + 1) d, 0)]" "st d' = st d" "Camera_Number d' = Camera_Number d"
    "DataLink_OK d' = DataLink_OK d" "DEV_Login_Operate_enable d' = 2"
    "Data_SD_counter (Photo_sdState d') = Data_SD_counter (Photo_sdState d)"
    by simp_all
qed

lemma send_sequence:
  assumes "in_sequence n d" and "d' = snd (send_media_data d)"
  shows "d' = d \<or>
    (tx d' = tx d @ [(photo_frame (n + 1) d, 0)] \<and> st d' = st d \<and> Camera_Number d' = Camera_Number d \<and>
     (if n + 1 < packets (PicFileSize (st d)) then in_sequence (n + 1) d' else waiting d'))"
proof (cases "DEV_Login_Operate_enable d = 2 \<and> SD_Data_Flag (MediaObj d) = 1")
  case True
  then show ?thesis using send_due [OF assms] by blast
next
  case False
  then show ?thesis using assms(2) by (auto simp: send_media_data_def)
qed

lemma media_inv_step:
  assumes "media_inv old p tot d" and "media_step d d'"
  shows "media_inv old p tot d'"
proof -
  obtain n where n: "n \<le> tot" "sent_packets old p n (tx d)"
    and c: "in_sequence n d \<and> stored_picture (Camera_Number d) (st d) = p \<and> packets (PicFileSize (st d)) = tot \<or>
      waiting d \<and> n = tot \<or> broken_off d"
    using assms(1) by (auto simp: media_inv_def)
  from c consider (seq) "in_sequence n d" "stored_picture (Camera_Number d) (st d) = p"
      "packets (PicFileSize (st d)) = tot"
    | (wait) "waiting d" "n = tot" | (off) "broken_off d" by blast
  then show ?thesis
  proof cases
    case seq
    note inv = media_inv_def [of old p tot d']
    from assms(2) show ?thesis
    proof cases
      case tick
      then show ?thesis
        unfolding inv using n seq timer_service_sequence [OF seq(1)] by (intro exI [of _ n]) simp
    next
      case send
      have rx: "media_rx (photo_frame (n + 1) d) = Some (n + 1, chunk (n + 1) p)"
        using seq media_rx_photo [of d "n + 1"] by (simp add: in_sequence_def)
      show ?thesis
        using send_sequence [OF seq(1) send(1)] n(2) seq
      proof (elim disjE conjE)
        assume "d' = d"
        then show ?thesis using assms(1) by simp
      next
        assume t: "tx d' = tx d @ [(photo_frame (n + 1) d, 0)]" "st d' = st d"
          "Camera_Number d' = Camera_Number d"
          "if n + 1 < packets (PicFileSize (st d)) then in_sequence (n + 1) d' else waiting d'"
        have "n < tot" using seq by (simp add: in_sequence_def)
        then show ?thesis
          unfolding inv t using sent_packets_Suc [OF n(2) rx] t(4) seq
          by (intro exI [of _ "n + 1"]) (auto simp: t split: if_splits)
      qed
    next
      case supervise
      then show ?thesis
        unfolding inv using n seq exception_sequence [OF seq(1)] by (intro exI [of _ n]) auto
    next
      case (position g)
      then show ?thesis
        unfolding inv using n seq
        by (intro exI [of _ n]) (simp add: in_sequence_def photo_state_def no_other_media_def)
    next
      case (link b)
      then show ?thesis
        unfolding inv using n seq
        by (intro exI [of _ n]) (simp add: in_sequence_def photo_state_def no_other_media_def)
    qed
  next
    case wait
    then show ?thesis
      using assms(2) n by (elim media_stepE) (auto simp: waiting_def media_inv_def)
  next
    case off
    then have "Media_Timer_Service d = d" "snd (send_media_data d) = d" "Meida_Trans_Exception d = d"
      using timer_service_broken [OF off]
      by (simp_all add: send_media_data_def broken_off_def Meida_Trans_Exception_def no_other_media_def)
    with off show ?thesis
      using assms n by (elim media_stepE) (auto simp: broken_off_def media_inv_def no_other_media_def)
  qed
qed

lemma media_inv_reach: "media_reach d0 d \<Longrightarrow> media_inv old p tot d0 \<Longrightarrow> media_inv old p tot d"
  by (induction rule: media_reach.induct) (auto intro: media_inv_step)

text \<open>A full round: thirteen ticks, then a turn of the sending task.\<close>

definition media_round :: "device \<Rightarrow> device" where
  "media_round d = snd (send_media_data ((Media_Timer_Service ^^ 13) d))"

lemma service_photo:
  assumes "in_sequence n d" and "DataLink_OK d"
  shows "Media_Timer_Service d = Photo_Timer d"
proof -
  have "RSD_State (MediaObj (Photo_Timer d)) = 0"
    using assms(1) by (auto simp: in_sequence_def Photo_Timer_def timer_tick_def Let_def)
  moreover have "Media_Timer_Service d = Media_RSdMode_Timer (Photo_Timer d)"
    using assms by (simp add: Media_Timer_Service_def in_sequence_def)
  ultimately show ?thesis by (simp add: Media_RSdMode_Timer_def)
qed

lemma service_ticks:
  assumes "in_sequence n d" and "DataLink_OK d"
  shows "(Media_Timer_Service ^^ k) d = (Photo_Timer ^^ k) d \<and> in_sequence n ((Photo_Timer ^^ k) d) \<and>
    DataLink_OK ((Photo_Timer ^^ k) d)"
proof (induction k)
  case (Suc k)
  let ?e = "(Photo_Timer ^^ k) d"
  have "DataLink_OK (Photo_Timer ?e) = DataLink_OK ?e"
    by (simp add: Photo_Timer_def split_beta)
  then show ?case using Suc timer_service_sequence [of n ?e] service_photo [of n ?e] by simp
qed (use assms in simp)

lemma round_sends:
  assumes "in_sequence n d" and "DataLink_OK d" and "DEV_Login_Operate_enable d = 2"
    and "Data_SD_counter (Photo_sdState d) = 0"
  shows "DataLink_OK (media_round d)" "DEV_Login_Operate_enable (media_round d) = 2"
    "st (media_round d) = st d" "Data_SD_counter (Photo_sdState (media_round d)) = 0"
    "if n + 1 < packets (PicFileSize (st d)) then in_sequence (n + 1) (media_round d)
     else waiting (media_round d)"
proof -
  let ?e = "d\<lparr>MediaObj := (MediaObj d)\<lparr>SD_Data_Flag := 1\<rparr>,
    Photo_sdState := (Photo_sdState d)\<lparr>Data_SD_counter := 0, Exeption_timer := 0, SD_flag := 1\<rparr>\<rparr>"
  have "(Photo_Timer ^^ Suc 12) d = ?e"
    using assms(1,4) by (intro photo.ticks_fire) (simp_all add: in_sequence_def photo_state_def)
  then have "(Photo_Timer ^^ 13) d = ?e" by (simp only: Suc_numeral semiring_norm)
  then have e: "(Media_Timer_Service ^^ 13) d = ?e" "in_sequence n ?e"
    using service_ticks [OF assms(1,2), of 13] by simp_all
  note due = send_due [OF e(2) refl]
  have r: "media_round d = snd (send_media_data ?e)" by (simp add: media_round_def e(1))
  show "DataLink_OK (media_round d)" "DEV_Login_Operate_enable (media_round d) = 2"
    "st (media_round d) = st d" "Data_SD_counter (Photo_sdState (media_round d)) = 0"
    "if n + 1 < packets (PicFileSize (st d)) then in_sequence (n + 1) (media_round d)
     else waiting (media_round d)"
    unfolding r using due(2,4-7) assms(2,3) by simp_all
qed

lemma rounds_send:
  assumes "in_sequence n d" and "DataLink_OK d" and "DEV_Login_Operate_enable d = 2"
    and "Data_SD_counter (Photo_sdState d) = 0" and "packets (PicFileSize (st d)) = n + k"
  shows "waiting ((media_round ^^ k) d)"
  using assms
proof (induction k arbitrary: n d)
  case 0
  then show ?case by (simp add: in_sequence_def)
next
  case (Suc k)
  note r = round_sends [OF Suc.prems(1-4)]
  show ?case
  proof (cases "k = 0")
    case True
    then show ?thesis using r(5) Suc.prems(5) by simp
  next
    case False
    then have "in_sequence (n + 1) (media_round d)" using r(5) Suc.prems(5) by simp
    then have "waiting ((media_round ^^ k) (media_round d))"
      using r Suc.prems(5) by (intro Suc.IH) simp_all
    then show ?thesis by (simp add: funpow_swap1)
  qed
qed

lemma reach_trans: "media_reach b c \<Longrightarrow> media_reach a b \<Longrightarrow> media_reach a c"
  by (induction rule: media_reach.induct) (auto intro: media_reach.intros)

lemma reach_ticks:
  assumes "in_sequence n d" and "DataLink_OK d"
  shows "media_reach d ((Media_Timer_Service ^^ k) d)"
proof (induction k)
  case (Suc k)
  have "in_sequence n ((Media_Timer_Service ^^ k) d)" using service_ticks [OF assms, of k] by simp
  then have "RSD_State (MediaObj ((Media_Timer_Service ^^ k) d)) = 0" by (simp add: in_sequence_def)
  then show ?case using Suc by (auto intro: media_reach.next_step media_step.tick)
qed (simp add: media_reach.start)

lemma reach_round:
  assumes "in_sequence n d" and "DataLink_OK d"
  shows "media_reach d (media_round d)"
proof -
  let ?e = "(Media_Timer_Service ^^ 13) d"
  have "in_sequence n ?e" using service_ticks [OF assms, of 13] by simp
  then have "media_step ?e (media_round d)"
    unfolding media_round_def by (intro media_step.send) (simp add: in_sequence_def)
  then show ?thesis using reach_ticks [OF assms] by (rule media_reach.next_step [rotated])
qed

lemma reach_rounds:
  assumes "in_sequence n d" and "DataLink_OK d" and "DEV_Login_Operate_enable d = 2"
    and "Data_SD_counter (Photo_sdState d) = 0" and "packets (PicFileSize (st d)) = n + k"
  shows "media_reach d ((media_round ^^ k) d)"
  using assms
proof (induction k arbitrary: n d)
  case 0
  show ?case by (simp add: media_reach.start)
next
  case (Suc k)
  note r = round_sends [OF Suc.prems(1-4)]
  have one: "media_reach d (media_round d)" using Suc.prems(1,2) by (rule reach_round)
  show ?case
  proof (cases "k = 0")
    case True
    then show ?thesis using one by simp
  next
    case False
    then have "in_sequence (n + 1) (media_round d)" using r(5) Suc.prems(5) by simp
    then have "media_reach (media_round d) ((media_round ^^ k) (media_round d))"
      using r Suc.prems(5) by (intro Suc.IH) simp_all
    from reach_trans [OF this one] show ?thesis by (simp add: funpow_swap1)
  qed
qed

lemma received_picture:
  assumes "sent_packets old p n t" and "length p \<le> n * 512"
  shows "\<exists>fs. t = old @ map (\<lambda>f. (f, 0)) fs \<and> concat (map (\<lambda>f. snd (the (media_rx f))) fs) = p"
proof -
  obtain fs where fs: "t = old @ map (\<lambda>f. (f, 0)) fs"
    "map media_rx fs = map (\<lambda>i. Some (i + 1, chunk (i + 1) p)) [0..<n]"
    using assms(1) by (auto simp: sent_packets_def)
  have "map (\<lambda>f. snd (the (media_rx f))) fs = map (\<lambda>r. snd (the r)) (map media_rx fs)" by simp
  also have "\<dots> = map (\<lambda>i. chunk (i + 1) p) [0..<n]" unfolding fs(2) by simp
  finally have "concat (map (\<lambda>f. snd (the (media_rx f))) fs) = take (n * 512) p"
    by (simp only: concat_chunks)
  with fs(1) assms(2) show ?thesis by auto
qed

lemma in_sequence_inv:
  assumes "in_sequence 0 d"
  shows "media_inv (tx d) (stored_picture (Camera_Number d) (st d)) (packets (PicFileSize (st d))) d"
  using assms unfolding media_inv_def by (intro exI [of _ 0]) simp

lemma stored_picture_packets:
  assumes "photo_state d"
  shows "length (stored_picture c (st d)) \<le> packets (PicFileSize (st d)) * 512"
  using assms packets_bounds(4) by (simp add: stored_picture_def photo_state_def)

text \<open>A device that sends a picture of 600 bytes from camera 1.\<close>

definition sending_device :: device where
  "sending_device =
     (let d = idle_device (blank_store\<lparr>PicFileSize := 600\<rparr>)
      in d\<lparr>MediaObj := (MediaObj d)\<lparr>Media_transmittingFlag := 2\<rparr>,
           Photo_sdState := (Photo_sdState d)\<lparr>photo_sending := 1, SD_packetNum := 1, Total_packetNum := 2\<rparr>,
           DEV_Login_Operate_enable := 2, DataLink_OK := True\<rparr>)"

lemma sending_in_sequence: "in_sequence 0 sending_device"
proof -
  have "length (current_position (gps sending_device)) = 28"
    by (simp add: sending_device_def idle_device_def current_position_def)
  then show ?thesis
    by (simp add: in_sequence_def photo_state_def no_other_media_def sending_device_def
        idle_device_def idle_media_sd_def packets_def u16_def)
qed

section \<open>Properties\<close>

text \<open>
  (C22) Pictures arrive in order and complete: in every interleaving of timer ticks, turns of
  the sending task, supervision, new positions and link changes, the frames handed to the
  modem are packets \<open>1, 2, \<dots>\<close> of the stored picture, in order and without repetition, each
  acceptable to the receiver; and when the terminal waits for the answer of the centre, their
  data together are the stored picture.
\<close>

theorem picture_sent_in_order:
  assumes "in_sequence 0 d0" and "media_reach d0 d"
    and "p = stored_picture (Camera_Number d0) (st d0)"
  shows "\<exists>fs n. tx d = tx d0 @ map (\<lambda>f. (f, 0)) fs \<and>
    map media_rx fs = map (\<lambda>i. Some (i + 1, chunk (i + 1) p)) [0..<n] \<and>
    (waiting d \<longrightarrow> concat (map (\<lambda>f. snd (the (media_rx f))) fs) = p)"
proof -
  let ?tot = "packets (PicFileSize (st d0))"
  have "media_inv (tx d0) p ?tot d"
    using media_inv_reach [OF assms(2) in_sequence_inv [OF assms(1)]] assms(3) by simp
  then obtain n where n: "sent_packets (tx d0) p n (tx d)" "waiting d \<Longrightarrow> n = ?tot"
    by (auto simp: media_inv_def waiting_def in_sequence_def broken_off_def)
  then obtain fs where fs: "tx d = tx d0 @ map (\<lambda>f. (f, 0)) fs"
    "map media_rx fs = map (\<lambda>i. Some (i + 1, chunk (i + 1) p)) [0..<n]"
    by (auto simp: sent_packets_def)
  have "concat (map (\<lambda>f. snd (the (media_rx f))) fs) = p" if "waiting d"
  proof -
    have "length p \<le> n * 512"
      using n(2) [OF that] stored_picture_packets [of d0] assms by (simp add: in_sequence_def)
    from received_picture [OF n(1) this] fs(1) show ?thesis
      by (auto simp: inj_on_def dest!: map_injective)
  qed
  with fs show ?thesis by blast
qed

theorem picture_sent_in_order_witness:
  "\<exists>fs n. tx (media_round sending_device) = map (\<lambda>f. (f, 0)) fs \<and>
    map media_rx fs = map (\<lambda>i. Some (i + 1, chunk (i + 1) (stored_picture 1 (st sending_device)))) [0..<n]"
proof -
  have "DataLink_OK sending_device" "tx sending_device = []" "Camera_Number sending_device = 1"
    by (simp_all add: sending_device_def idle_device_def)
  then show ?thesis
    using picture_sent_in_order [OF sending_in_sequence reach_round [OF sending_in_sequence] refl] by auto
qed

lemma picture_transmitted:
  assumes "in_sequence 0 d" and "DataLink_OK d" and "DEV_Login_Operate_enable d = 2"
    and "Data_SD_counter (Photo_sdState d) = 0"
    and "d' = (media_round ^^ packets (PicFileSize (st d))) d"
  shows "waiting d' \<and> (\<exists>fs. tx d' = tx d @ map (\<lambda>f. (f, 0)) fs \<and>
    concat (map (\<lambda>f. snd (the (media_rx f))) fs) = stored_picture (Camera_Number d) (st d))"
proof -
  let ?tot = "packets (PicFileSize (st d))" and ?p = "stored_picture (Camera_Number d) (st d)"
  have w: "waiting d'" unfolding assms(5) using assms(1-4) by (rule rounds_send) simp
  have "media_reach d d'" unfolding assms(5) using assms(1-4) by (rule reach_rounds) simp
  then have "media_inv (tx d) ?p ?tot d'"
    using media_inv_reach in_sequence_inv [OF assms(1)] by blast
  with w have "sent_packets (tx d) ?p ?tot (tx d')"
    by (auto simp: media_inv_def waiting_def in_sequence_def broken_off_def)
  moreover have "length ?p \<le> ?tot * 512"
    using stored_picture_packets assms(1) by (simp add: in_sequence_def)
  ultimately show ?thesis using w received_picture by blast
qed

text \<open>
  (C23) Transmission terminates: with the link up and the terminal logged in, as many rounds of
  thirteen ticks and one turn of the sending task as the picture has packets bring the
  terminal to the state in which it waits for the answer, and the whole picture has then been
  handed to the modem.
\<close>

theorem picture_transmission_completes:
  assumes "in_sequence 0 d" and "DataLink_OK d" and "DEV_Login_Operate_enable d = 2"
    and "Data_SD_counter (Photo_sdState d) = 0"
    and "d' = (media_round ^^ packets (PicFileSize (st d))) d"
  shows "waiting d' \<and> (\<exists>fs. tx d' = tx d @ map (\<lambda>f. (f, 0)) fs \<and>
    concat (map (\<lambda>f. snd (the (media_rx f))) fs) = stored_picture (Camera_Number d) (st d))"
  using assms by (rule picture_transmitted)

theorem picture_transmission_completes_witness:
  "waiting ((media_round ^^ packets (PicFileSize (st sending_device))) sending_device)"
proof -
  have "DataLink_OK sending_device" "DEV_Login_Operate_enable sending_device = 2"
    "Data_SD_counter (Photo_sdState sending_device) = 0"
    by (simp_all add: sending_device_def idle_device_def idle_media_sd_def)
  from picture_transmission_completes [OF sending_in_sequence this refl] show ?thesis by simp
qed

section \<open>Retransmission\<close>

text \<open>
  A request of the centre for missing packets arrives while the terminal waits with all
  counters at rest.
\<close>

definition resend_ready :: "bytes \<Rightarrow> device \<Rightarrow> bool" where
  "resend_ready l d =
     (photo_state d \<and> DataLink_OK d \<and> DEV_Login_Operate_enable d = 2 \<and>
      photo_sending (Photo_sdState d) = 1 \<and> Data_SD_counter (Photo_sdState d) = 0 \<and>
      SD_packetNum (Photo_sdState d) \<le> packets (PicFileSize (st d)) \<and>
      Media_transmittingFlag (MediaObj d) = 2 \<and> RSD_State (MediaObj d) = 1 \<and>
      RSD_Timer (MediaObj d) = 0 \<and> RSD_Reader (MediaObj d) = 0 \<and> RSD_total (MediaObj d) = length l \<and>
      take (length l) (Media_ReSdList (MediaObj d)) = l \<and>
      list_all (\<lambda>b. 1 \<le> unat b \<and> unat b \<le> packets (PicFileSize (st d))) l)"

definition awaiting_answer :: "device \<Rightarrow> bool" where
  "awaiting_answer d =
     (photo_state d \<and> DataLink_OK d \<and> DEV_Login_Operate_enable d = 2 \<and>
      photo_sending (Photo_sdState d) = 1 \<and> Data_SD_counter (Photo_sdState d) = 0 \<and>
      SD_packetNum (Photo_sdState d) \<le> packets (PicFileSize (st d)) \<and>
      Media_transmittingFlag (MediaObj d) = 2)"

lemma TCP_RX_8800_ready:
  assumes "awaiting_answer d" and "infolen \<noteq> 5"
    and "l = take (unat (rx ! 17)) (drop 18 rx)" and "length l = unat (rx ! 17)" and "l \<noteq> []"
    and "list_all (\<lambda>b. 1 \<le> unat b \<and> unat b \<le> packets (PicFileSize (st d))) l"
  shows "resend_ready l (TCP_RX_8800 rx infolen d)"
    and "tx (TCP_RX_8800 rx infolen d) = tx d" and "st (TCP_RX_8800 rx infolen d) = st d"
    and "Camera_Number (TCP_RX_8800 rx infolen d) = Camera_Number d"
proof -
  have n: "rx ! 17 \<noteq> 0"
  proof
    assume "rx ! 17 = 0"
    then have "length l = 0" using assms(4) by simp
    then show False using assms(5) by simp
  qed
  then have eq: "TCP_RX_8800 rx infolen d = d\<lparr>MediaObj := (MediaObj d)\<lparr>RSD_State := 1, RSD_Timer := 0,
      RSD_Reader := 0, RSD_total := length l, Media_ReSdList := splice 0 l (replicate 125 0)\<rparr>\<rparr>"
    using assms(2-4) by (simp add: TCP_RX_8800_def)
  show "tx (TCP_RX_8800 rx infolen d) = tx d" and "st (TCP_RX_8800 rx infolen d) = st d"
    and "Camera_Number (TCP_RX_8800 rx infolen d) = Camera_Number d"
    by (simp_all add: eq)
  show "resend_ready l (TCP_RX_8800 rx infolen d)"
    using assms(1,6) by (simp add: eq resend_ready_def awaiting_answer_def photo_state_def splice_def)
qed

text \<open>One tick of the timers while packets are repeated.\<close>

lemma resend_tick:
  assumes "photo_sending P = 1" and "Media_Type m = 0" and "RSD_State m = 1" and "DataLink_OK d"
    and "SD_packetNum P \<le> Total_packetNum P + 1" and "Data_SD_counter P < 12" and "RSD_Timer m < 10"
  shows "Media_Timer_Service (d\<lparr>MediaObj := m, Photo_sdState := P\<rparr>) =
    d\<lparr>MediaObj := m\<lparr>RSD_Timer := RSD_Timer m + 1\<rparr>,
      Photo_sdState := P\<lparr>Data_SD_counter := Data_SD_counter P + 1\<rparr>\<rparr>"
  using assms
  by (simp add: Media_Timer_Service_def Photo_Timer_def timer_tick_def Media_RSdMode_Timer_def Let_def u8n_small)

lemma resend_ticks:
  assumes "photo_sending P = 1" and "Media_Type m = 0" and "RSD_State m = 1" and "DataLink_OK d"
    and "SD_packetNum P \<le> Total_packetNum P + 1" and "Data_SD_counter P + k \<le> 12" and "RSD_Timer m + k \<le> 10"
  shows "(Media_Timer_Service ^^ k) (d\<lparr>MediaObj := m, Photo_sdState := P\<rparr>) =
    d\<lparr>MediaObj := m\<lparr>RSD_Timer := RSD_Timer m + k\<rparr>,
      Photo_sdState := P\<lparr>Data_SD_counter := Data_SD_counter P + k\<rparr>\<rparr>"
  using assms(6,7)
proof (induction k)
  case (Suc k)
  then show ?case
    using resend_tick [of "P\<lparr>Data_SD_counter := Data_SD_counter P + k\<rparr>" "m\<lparr>RSD_Timer := RSD_Timer m + k\<rparr>" d] assms
    by simp
qed simp

text \<open>After eleven ticks the first packet of the list is due, and sent.\<close>

lemma resend_first:
  assumes "resend_ready l d" and "l \<noteq> []"
  defines "P \<equiv> (Photo_sdState d)\<lparr>Data_SD_counter := 11, SD_packetNum := unat (l ! 0), SD_flag := 1\<rparr>"
    and "m \<equiv> (MediaObj d)\<lparr>RSD_Timer := 0, SD_Data_Flag := 1\<rparr>"
  shows "(Media_Timer_Service ^^ 11) d = d\<lparr>MediaObj := m, Photo_sdState := P\<rparr>"
proof -
  have "(Media_Timer_Service ^^ 10) (d\<lparr>MediaObj := MediaObj d, Photo_sdState := Photo_sdState d\<rparr>) =
      d\<lparr>MediaObj := (MediaObj d)\<lparr>RSD_Timer := RSD_Timer (MediaObj d) + 10\<rparr>,
        Photo_sdState := (Photo_sdState d)\<lparr>Data_SD_counter := Data_SD_counter (Photo_sdState d) + 10\<rparr>\<rparr>"
    using assms(1) by (intro resend_ticks) (simp_all add: resend_ready_def photo_state_def)
  then have ten: "(Media_Timer_Service ^^ 10) d =
      d\<lparr>MediaObj := (MediaObj d)\<lparr>RSD_Timer := 10\<rparr>, Photo_sdState := (Photo_sdState d)\<lparr>Data_SD_counter := 10\<rparr>\<rparr>"
    using assms(1) by (simp add: resend_ready_def)
  have "take (length l) (Media_ReSdList (MediaObj d)) = l" using assms(1) by (simp add: resend_ready_def)
  then have l0: "Media_ReSdList (MediaObj d) ! 0 = l ! 0"
    using assms(2) by (metis length_greater_0_conv nth_take)
  have "(Media_Timer_Service ^^ 11) d = Media_Timer_Service ((Media_Timer_Service ^^ 10) d)"
    by (simp add: numeral_eq_Suc)
  also have "\<dots> = d\<lparr>MediaObj := m, Photo_sdState := P\<rparr>"
    unfolding ten using assms(1) l0
    by (simp add: Media_Timer_Service_def Photo_Timer_def timer_tick_def Media_RSdMode_Timer_def Let_def
        u8n_small resend_ready_def photo_state_def resend_def P_def m_def)
  finally show ?thesis .
qed

text \<open>Sending in the retransmission state moves the reader and keeps the packet number.\<close>

lemma resend_send:
  assumes "photo_state d" and "DEV_Login_Operate_enable d = 2" and "photo_sending (Photo_sdState d) = 1"
    and "SD_flag (Photo_sdState d) = 1" and "n = SD_packetNum (Photo_sdState d)" and "1 \<le> n"
    and "n \<le> packets (PicFileSize (st d))" and "Media_transmittingFlag (MediaObj d) = 2"
    and "SD_Data_Flag (MediaObj d) = 1" and "RSD_State (MediaObj d) = 1" and "RSD_Reader (MediaObj d) < 255"
    and "d' = snd (send_media_data d)"
  shows "tx d' = tx d @ [(photo_frame n d, 0)]"
    and "RSD_Reader (MediaObj d') = RSD_Reader (MediaObj d) + 1"
    and "RSD_State (MediaObj d') = (if RSD_Reader (MediaObj d) + 1 = RSD_total (MediaObj d) then 2 else 1)"
    and "Photo_sdState d' = (Photo_sdState d)\<lparr>SD_flag := 0\<rparr>"
    and "st d' = st d" "Camera_Number d' = Camera_Number d" "gps d' = gps d" "terminal d' = terminal d"
      "DataLink_OK d' = DataLink_OK d" "DEV_Login_Operate_enable d' = 2"
      "Media_Type (MediaObj d') = 0" "Media_transmittingFlag (MediaObj d') = 2"
      "RSD_total (MediaObj d') = RSD_total (MediaObj d)" "RSD_Timer (MediaObj d') = RSD_Timer (MediaObj d)"
proof -
  obtain e where e: "Stuff_MultiMedia_Data_0801H d = (True, e)"
    and ne: "nobuf e = after_0801H ((nobuf (photo_packet d))
      \<lparr>Photo_sdState := (Photo_sdState d)\<lparr>SD_flag := 0\<rparr>,
       tx := tx d @ [(photo_frame n d, 0)], Msg_Float_ID := u16 (Msg_Float_ID d + 1)\<rparr>)"
    by (rule send_photo_packet [OF assms(1,3-7)])
  have d': "d' = e\<lparr>MediaObj := (MediaObj e)\<lparr>SD_Data_Flag := 0\<rparr>\<rparr>"
    using assms(2,8,9,12) e by (simp add: send_media_data_def Let_def)
  let ?m = "(MediaObj (photo_packet d))\<lparr>RSD_Reader := RSD_Reader (MediaObj d) + 1\<rparr>"
  have after: "nobuf e = (nobuf (photo_packet d))
      \<lparr>Photo_sdState := (Photo_sdState d)\<lparr>SD_flag := 0\<rparr>,
       tx := tx d @ [(photo_frame n d, 0)], Msg_Float_ID := u16 (Msg_Float_ID d + 1),
       MediaObj := (if RSD_Reader (MediaObj d) + 1 = RSD_total (MediaObj d) then ?m\<lparr>RSD_State := 2\<rparr> else ?m)\<rparr>"
    unfolding ne using assms(10,11) by (simp add: after_0801H_def media_packet_def u8n_small Let_def)
  note F = arg_cong [OF after]
  have mo: "MediaObj e = (if RSD_Reader (MediaObj d) + 1 = RSD_total (MediaObj d) then ?m\<lparr>RSD_State := 2\<rparr> else ?m)"
    using F [of MediaObj] by simp
  show "tx d' = tx d @ [(photo_frame n d, 0)]" "Photo_sdState d' = (Photo_sdState d)\<lparr>SD_flag := 0\<rparr>"
    "st d' = st d" "Camera_Number d' = Camera_Number d" "gps d' = gps d" "terminal d' = terminal d"
    "DataLink_OK d' = DataLink_OK d" "DEV_Login_Operate_enable d' = 2"
    unfolding d' using F [of tx] F [of Photo_sdState] F [of st] F [of Camera_Number] F [of gps]
      F [of terminal] F [of DataLink_OK] F [of DEV_Login_Operate_enable] assms(2)
    by (simp_all add: media_packet_def)
  show "RSD_Reader (MediaObj d') = RSD_Reader (MediaObj d) + 1"
    "RSD_State (MediaObj d') = (if RSD_Reader (MediaObj d) + 1 = RSD_total (MediaObj d) then 2 else 1)"
    "Media_Type (MediaObj d') = 0" "Media_transmittingFlag (MediaObj d') = 2"
    "RSD_total (MediaObj d') = RSD_total (MediaObj d)" "RSD_Timer (MediaObj d') = RSD_Timer (MediaObj d)"
    unfolding d' using assms(1,8,10) by (simp_all add: mo media_packet_def photo_state_def)
qed

text \<open>The first repeated packet, from the request to the frame.\<close>

lemma resend_first_sent:
  assumes "resend_ready l d" and "l \<noteq> []" and "n = unat (l ! 0)"
    and "d' = snd (send_media_data ((Media_Timer_Service ^^ 11) d))"
  shows "\<exists>f. tx d' = tx d @ [(f, 0)] \<and> media_rx f = Some (n, chunk n (stored_picture (Camera_Number d) (st d)))"
    and "RSD_State (MediaObj d') = (if length l = 1 then 2 else 1)"
    and "photo_state d'" "st d' = st d" "Camera_Number d' = Camera_Number d" "DataLink_OK d'"
      "DEV_Login_Operate_enable d' = 2" "Media_transmittingFlag (MediaObj d') = 2"
      "photo_sending (Photo_sdState d') = 1" "SD_packetNum (Photo_sdState d') = n"
      "Data_SD_counter (Photo_sdState d') = 11" "RSD_Timer (MediaObj d') = 0"
      "RSD_Reader (MediaObj d') = 1" "RSD_total (MediaObj d') = length l"
      "1 \<le> n" "n \<le> packets (PicFileSize (st d))"
proof -
  let ?e = "d\<lparr>MediaObj := (MediaObj d)\<lparr>RSD_Timer := 0, SD_Data_Flag := 1\<rparr>,
    Photo_sdState := (Photo_sdState d)\<lparr>Data_SD_counter := 11, SD_packetNum := unat (l ! 0), SD_flag := 1\<rparr>\<rparr>"
  have d': "d' = snd (send_media_data ?e)" unfolding assms(4) resend_first [OF assms(1,2)] ..
  show n: "1 \<le> n" "n \<le> packets (PicFileSize (st d))"
    using assms(1-3) by (simp_all add: resend_ready_def list_all_length)
  have r: "photo_state d" "DEV_Login_Operate_enable d = 2" "photo_sending (Photo_sdState d) = 1"
    "Media_transmittingFlag (MediaObj d) = 2" "RSD_State (MediaObj d) = 1" "RSD_Reader (MediaObj d) = 0"
    "RSD_total (MediaObj d) = length l" "DataLink_OK d"
    using assms(1) by (simp_all add: resend_ready_def)
  have ps: "photo_state ?e" using r(1) by (simp add: photo_state_def)
  note sent = resend_send [OF ps, of n d']
  have pre: "DEV_Login_Operate_enable ?e = 2" "photo_sending (Photo_sdState ?e) = 1"
    "SD_flag (Photo_sdState ?e) = 1" "n = SD_packetNum (Photo_sdState ?e)"
    "n \<le> packets (PicFileSize (st ?e))" "Media_transmittingFlag (MediaObj ?e) = 2"
    "SD_Data_Flag (MediaObj ?e) = 1" "RSD_State (MediaObj ?e) = 1" "RSD_Reader (MediaObj ?e) < 255"
    using r n assms(3) by simp_all
  note sent = resend_send [OF ps pre(1-4) n(1) pre(5-9) d']
  have rx: "media_rx (photo_frame n ?e) = Some (n, chunk n (stored_picture (Camera_Number d) (st d)))"
    using media_rx_photo [OF ps n(1) pre(5)] by simp
  then show "\<exists>f. tx d' = tx d @ [(f, 0)] \<and> media_rx f = Some (n, chunk n (stored_picture (Camera_Number d) (st d)))"
    using sent(1) by auto
  show "RSD_State (MediaObj d') = (if length l = 1 then 2 else 1)" "st d' = st d"
    "Camera_Number d' = Camera_Number d" "DataLink_OK d'"
    "DEV_Login_Operate_enable d' = 2" "Media_transmittingFlag (MediaObj d') = 2"
    "photo_sending (Photo_sdState d') = 1" "SD_packetNum (Photo_sdState d') = n"
    "Data_SD_counter (Photo_sdState d') = 11" "RSD_Timer (MediaObj d') = 0"
    "RSD_Reader (MediaObj d') = 1" "RSD_total (MediaObj d') = length l"
    using sent(2-14) r assms(3) by simp_all
  show "photo_state d'" using ps sent(4-8,11) unfolding photo_state_def by simp
qed

text \<open>
  A single missing packet is repeated: when the centre asks for one packet, eleven ticks
  and one turn of the sending task send exactly that packet of the stored picture, and the
  terminal waits for the next answer again.
\<close>

theorem retransmit_one:
  assumes "awaiting_answer d" and "infolen \<noteq> 5" and "rx ! 17 = 1" and "18 < length rx"
    and "1 \<le> unat (rx ! 18)" and "unat (rx ! 18) \<le> packets (PicFileSize (st d))"
    and "d' = snd (send_media_data ((Media_Timer_Service ^^ 11) (TCP_RX_8800 rx infolen d)))"
  shows "waiting d' \<and> (\<exists>f. tx d' = tx d @ [(f, 0)] \<and>
    media_rx f = Some (unat (rx ! 18), chunk (unat (rx ! 18)) (stored_picture (Camera_Number d) (st d))))"
proof -
  have l: "[rx ! 18] = take (unat (rx ! 17)) (drop 18 rx)"
    using assms(3,4) by (simp add: take_Suc hd_drop_conv_nth)
  note ready = TCP_RX_8800_ready [OF assms(1,2) l]
  have "resend_ready [rx ! 18] (TCP_RX_8800 rx infolen d)" "tx (TCP_RX_8800 rx infolen d) = tx d"
    "st (TCP_RX_8800 rx infolen d) = st d" "Camera_Number (TCP_RX_8800 rx infolen d) = Camera_Number d"
    using ready assms(3,5,6) by simp_all
  note first = resend_first_sent(1,2) [OF this(1) _ refl assms(7), unfolded this(2-4)]
  from first show ?thesis by (simp add: waiting_def)
qed

text \<open>
  With two missing packets the second one is not repeated: the timer of the sequential
  phase keeps running, so two ticks after the first repeated packet the same packet is sent
  again, which uses up the second entry of the list, and the terminal waits as if the request
  had been served.
\<close>

theorem retransmit_two_skips_second:
  assumes "awaiting_answer d" and "infolen \<noteq> 5" and "rx ! 17 = 2" and "19 < length rx"
    and "1 \<le> unat (rx ! 18)" and "unat (rx ! 18) \<le> packets (PicFileSize (st d))"
    and "1 \<le> unat (rx ! 19)" and "unat (rx ! 19) \<le> packets (PicFileSize (st d))"
    and "d1 = snd (send_media_data ((Media_Timer_Service ^^ 11) (TCP_RX_8800 rx infolen d)))"
    and "d2 = snd (send_media_data ((Media_Timer_Service ^^ 2) d1))"
  shows "waiting d2 \<and> (\<exists>f g. tx d2 = tx d @ [(f, 0), (g, 0)] \<and>
    (\<forall>h \<in> {f, g}. media_rx h =
      Some (unat (rx ! 18), chunk (unat (rx ! 18)) (stored_picture (Camera_Number d) (st d)))))"
proof -
  let ?n = "unat (rx ! 18)" and ?p = "stored_picture (Camera_Number d) (st d)"
  have l: "[rx ! 18, rx ! 19] = take (unat (rx ! 17)) (drop 18 rx)"
  proof -
    have "drop 18 rx = rx ! 18 # rx ! 19 # drop 20 rx"
      using assms(4) Cons_nth_drop_Suc [of 18 rx] Cons_nth_drop_Suc [of 19 rx] by simp
    moreover have "unat (rx ! 17) = 2" using assms(3) by simp
    ultimately show ?thesis by simp
  qed
  have "resend_ready [rx ! 18, rx ! 19] (TCP_RX_8800 rx infolen d)" "tx (TCP_RX_8800 rx infolen d) = tx d"
    "st (TCP_RX_8800 rx infolen d) = st d" "Camera_Number (TCP_RX_8800 rx infolen d) = Camera_Number d"
    using TCP_RX_8800_ready [OF assms(1,2) l] assms(3,5-8) by simp_all
  note first = resend_first_sent [OF this(1) _ refl assms(9), unfolded this(2-4) nth_Cons_0]
  obtain f where f: "tx d1 = tx d @ [(f, 0)]" "media_rx f = Some (?n, chunk ?n ?p)"
    using first(1) by blast
  let ?m = "(MediaObj d1)\<lparr>RSD_Timer := 2, SD_Data_Flag := 1\<rparr>"
  let ?P = "(Photo_sdState d1)\<lparr>Data_SD_counter := 0, Exeption_timer := 0, SD_flag := 1\<rparr>"
  let ?e = "d1\<lparr>MediaObj := ?m, Photo_sdState := ?P\<rparr>"
  have st1: "RSD_State (MediaObj d1) = 1" "Media_Type (MediaObj d1) = 0"
    "SD_packetNum (Photo_sdState d1) \<le> Total_packetNum (Photo_sdState d1) + 1"
    using first by (simp_all add: photo_state_def)
  have t1: "Media_Timer_Service d1 = d1\<lparr>MediaObj := (MediaObj d1)\<lparr>RSD_Timer := 1\<rparr>,
      Photo_sdState := (Photo_sdState d1)\<lparr>Data_SD_counter := 12\<rparr>\<rparr>"
    using resend_tick [of "Photo_sdState d1" "MediaObj d1" d1] first st1 by simp
  have "(Media_Timer_Service ^^ 2) d1 = Media_Timer_Service (Media_Timer_Service d1)"
    by (simp add: numeral_2_eq_2)
  also have "\<dots> = ?e"
    unfolding t1 using first st1
    by (simp add: Media_Timer_Service_def Photo_Timer_def timer_tick_def Media_RSdMode_Timer_def Let_def u8n_small)
  finally have d2: "d2 = snd (send_media_data ?e)" unfolding assms(10) by (rule arg_cong)
  have ps: "photo_state ?e" using first(3) by (simp add: photo_state_def)
  have pre: "DEV_Login_Operate_enable ?e = 2" "photo_sending (Photo_sdState ?e) = 1"
    "SD_flag (Photo_sdState ?e) = 1" "?n = SD_packetNum (Photo_sdState ?e)"
    "?n \<le> packets (PicFileSize (st ?e))" "Media_transmittingFlag (MediaObj ?e) = 2"
    "SD_Data_Flag (MediaObj ?e) = 1" "RSD_State (MediaObj ?e) = 1" "RSD_Reader (MediaObj ?e) < 255"
    using first st1 by simp_all
  note sent = resend_send [OF ps pre(1-4) assms(5) pre(5-9) d2]
  have g: "media_rx (photo_frame ?n ?e) = Some (?n, chunk ?n ?p)"
    using media_rx_photo [OF ps assms(5) pre(5)] first(4,5) by simp
  have "waiting d2" using sent(3) first by (simp add: waiting_def)
  moreover have "tx d2 = tx d @ [(f, 0), (photo_frame ?n ?e, 0)]" using sent(1) f(1) by simp
  ultimately show ?thesis using f(2) g by blast
qed

lemma sending_awaits: "awaiting_answer sending_device"
  using sending_in_sequence
  by (simp add: awaiting_answer_def in_sequence_def)
     (simp add: sending_device_def idle_device_def idle_media_sd_def)

lemma sending_packets [simp]: "packets (PicFileSize (st sending_device)) = 2" "tx sending_device = []"
  by (simp_all add: sending_device_def packets_def idle_device_def u16_def)

theorem retransmit_one_witness:
  "waiting (snd (send_media_data ((Media_Timer_Service ^^ 11)
     (TCP_RX_8800 (replicate 17 0 @ [1, 2]) 7 sending_device))))"
  using retransmit_one [OF sending_awaits, of 7 "replicate 17 0 @ [1, 2]", OF _ _ _ _ _ refl]
  by (simp add: nth_append)

theorem retransmit_two_skips_second_witness:
  "\<exists>f g. tx (snd (send_media_data ((Media_Timer_Service ^^ 2) (snd (send_media_data
      ((Media_Timer_Service ^^ 11) (TCP_RX_8800 (replicate 17 0 @ [2, 1, 2]) 8 sending_device))))))) =
    [(f, 0), (g, 0)] \<and> map_option fst (media_rx g) = Some 1"
  using retransmit_two_skips_second [OF sending_awaits, of 8 "replicate 17 0 @ [2, 1, 2]",
      OF _ _ _ _ _ _ _ refl refl]
  by (auto simp: nth_append)

end
