(* ===== verification/Camera.thy ===== *)
theory Camera
  imports Media
begin

text \<open>
  Taking pictures: \<^verbatim>\<open>U4_485/App_485.c\<close> (starting and ending a take, retries, several cameras,
  the commands sent on the RS-485 line) and the camera part of \<^verbatim>\<open>U4_485/Device_485.c\<close>
  (the receive interrupt handler, storing the packets of a picture, the door contact, the
  timer and the thread). The texts and colours of the 5 inch display on the same line are not
  modelled; the display's input buffer and its enable flag are, because the receive handler
  and the camera code write them.
\<close>

section \<open>Starting and ending a take\<close>

abbreviation (input) IDLE_485 :: nat where "IDLE_485 \<equiv> 0"
abbreviation (input) CAMERA_Related :: nat where "CAMERA_Related \<equiv> 1"
abbreviation (input) LARGE_LCD :: nat where "LARGE_LCD \<equiv> 3"

definition Photo_TakeCMD_Update :: "nat \<Rightarrow> device \<Rightarrow> device" where
  "Photo_TakeCMD_Update CameraNum d =
     d\<lparr>rs485 := (rs485 d)\<lparr>Take_photo := (Take_photo (rs485 d))[4 := byte CameraNum, 5 := 0x00]\<rparr>\<rparr>"

definition Photo_FetchCMD_Update :: "nat \<Rightarrow> device \<Rightarrow> device" where
  "Photo_FetchCMD_Update CameraNum d =
     d\<lparr>rs485 := (rs485 d)\<lparr>Fectch_photo := (Fectch_photo (rs485 d))[4 := byte CameraNum, 5 := 0x00]\<rparr>\<rparr>"

definition Init_Camera :: "device \<Rightarrow> device" where
  "Init_Camera d =
     d\<lparr>CameraState := (CameraState d)\<lparr>block_counter := 0, cam_status := other, create_Flag := 0\<rparr>\<rparr>"

definition DwinLCD_work_Enable :: "device \<Rightarrow> device" where
  "DwinLCD_work_Enable d = d\<lparr>rs485 := (rs485 d)\<lparr>Lcd_Enable_Flag := 1\<rparr>\<rparr>"

definition DwinLCD_work_Disable :: "device \<Rightarrow> device" where
  "DwinLCD_work_Disable d = d\<lparr>rs485 := (rs485 d)\<lparr>Lcd_Enable_Flag := 0\<rparr>\<rparr>"

definition End_Camera :: "device \<Rightarrow> device" where
  "End_Camera d =
     DwinLCD_work_Enable
       (d\<lparr>CameraState := (CameraState d)\<lparr>block_counter := 0, cam_status := other, camera_running := 0,
            timeoutCounter := 0, OperateFlag := 0, create_Flag := 0\<rparr>,
          rs485 := (rs485 d)\<lparr>Poll_Enble := 1, rx485_receiveflag := IDLE_485\<rparr>\<rparr>)"

definition Start_Camera :: "nat \<Rightarrow> device \<Rightarrow> bool \<times> device" where
  "Start_Camera CameraNum d =
     (if ISP_running_state d = 1 then (False, d)
      else let d = Photo_FetchCMD_Update CameraNum (Photo_TakeCMD_Update CameraNum d);
               d = d\<lparr>CameraState := (CameraState d)\<lparr>create_Flag := 0\<rparr>\<rparr>
           in if camera_running (CameraState d) = 0 \<and> photo_sending (Photo_sdState d) = 0
              then (True, DwinLCD_work_Disable
                     (d\<lparr>CameraState := (CameraState d)\<lparr>camera_running := 1, cam_status := enable\<rparr>,
                        rs485 := (rs485 d)\<lparr>TX_485const_Enable := 1, rx485_receiveflag := IDLE_485,
                          Poll_Enble := 0\<rparr>\<rparr>))
              else (False, d\<lparr>CameraState := (CameraState d)\<lparr>cam_status := other\<rparr>\<rparr>))"

text \<open>
  The four cases of \<^verbatim>\<open>MultiTake_Exception\<close> differ in the camera and in what follows the third
  failure: the next camera, or after camera 4 the transmission.
\<close>

definition MultiTake_Exception :: "device \<Rightarrow> device" where
  "MultiTake_Exception d =
     (if Camera_Number d \<in> {1, 2, 3, 4}
      then let i = Camera_Number d - 1;
               d = d\<lparr>MultiTake := (MultiTake d)\<lparr>Take_retry := u8n (Take_retry (MultiTake d) + 1)\<rparr>\<rparr>
           in if Take_retry (MultiTake d) \<ge> 3
              then let d = d\<lparr>MultiTake := (MultiTake d)\<lparr>TakeResult := (TakeResult (MultiTake d))[i := Take_Fail],
                                 Take_retry := 0\<rparr>\<rparr>
                   in if Camera_Number d = 4
                      then snd (Check_MultiTakeResult_b4Trans
                             (d\<lparr>MultiTake := (MultiTake d)\<lparr>Taking := 0\<rparr>\<rparr>))
                      else let d = d\<lparr>Camera_Number := Camera_Number d + 1\<rparr>
                           in snd (Start_Camera (Camera_Number d) d)
              else snd (Start_Camera (Camera_Number d) d)
      else MultiTake_End d)"

text \<open>What follows a take that failed: the next try of several cameras, or of a single one.\<close>

definition take_failed :: "device \<Rightarrow> device" where
  "take_failed d =
     (if Taking (MultiTake d) = 1 then MultiTake_Exception d
      else let n = u8n (SingleCamera_TakeRetry d + 1)
           in if n \<ge> 3
              then d\<lparr>SingleCamera_TakeRetry := 0, ans := (ans d)\<lparr>SingleCamra_TakeResualt_BD := 1\<rparr>\<rparr>
              else snd (Start_Camera (Camera_Number d) (d\<lparr>SingleCamera_TakeRetry := n\<rparr>)))"

text \<open>
  The supervision of a running take. \<^verbatim>\<open>(timeoutCounter++)>=3\<close> tests the old value; the line is
  switched off at 4 and on again at 5, the take is ended at 7.
\<close>

definition Camra_Take_Exception :: "device \<Rightarrow> device" where
  "Camra_Take_Exception d =
     (if camera_running (CameraState d) = 1
      then let old = timeoutCounter (CameraState d);
               c = u16 (old + 1);
               d = d\<lparr>CameraState := (CameraState d)\<lparr>timeoutCounter := c\<rparr>\<rparr>;
               power = (\<lambda>b d. d\<lparr>rs485 := (rs485 d)\<lparr>Power_485CH1 := b\<rparr>\<rparr>)
           in if old \<ge> 3
              then if c = 4 then power False d
                   else if c = 5 then power True d
                   else if c = 7
                   then take_failed (power True (End_Camera d))
                   else d
              else d
      else d)"

definition MultiTake_Start :: "device \<Rightarrow> device" where
  "MultiTake_Start d =
     (let d = d\<lparr>MultiTake := (MultiTake d)\<lparr>Taking := 1, Transfering := 0, CurretCameraNum := 1,
                  TakeResult := replicate Max_CameraNum Take_idle, Take_retry := 0,
                  Take_success_counter := 0\<rparr>,
                Camera_Number := 1\<rparr>;
          d = snd (Start_Camera (Camera_Number d) d)
      in d\<lparr>SingleCamera_TakeRetry := 0\<rparr>)"

definition Camera_Take_Enable :: "device \<Rightarrow> bool" where
  "Camera_Take_Enable d =
     (cam_status (CameraState d) = other \<and> Taking (MultiTake d) = 0 \<and> Transfering (MultiTake d) = 0)"

text \<open>Commands of ten bytes on the line, while the send flag is set.\<close>

definition Send_const485 :: "device \<Rightarrow> device" where
  "Send_const485 d =
     (if TX_485const_Enable (rs485 d) = 0 then d
      else let d = (if cam_status (CameraState d) = enable
                    then d\<lparr>out485 := out485 d @ [take 10 (Take_photo (rs485 d))],
                           CameraState := (CameraState d)\<lparr>OperateFlag := 1, create_Flag := 1, timeoutCounter := 0\<rparr>,
                           rs485 := (rs485 d)\<lparr>last_package := 0\<rparr>\<rparr>
                    else if cam_status (CameraState d) = transfer_state
                    then d\<lparr>rs485 := (rs485 d)\<lparr>rx485_receiveflag := IDLE_485\<rparr>,
                           out485 := out485 d @ [take 10 (Fectch_photo (rs485 d))],
                           CameraState := (CameraState d)\<lparr>OperateFlag := 1, timeoutCounter := 0\<rparr>\<rparr>
                    else d)
           in d\<lparr>rs485 := (rs485 d)\<lparr>TX_485const_Enable := 0\<rparr>\<rparr>)"

definition takephoto :: "bytes \<Rightarrow> device \<Rightarrow> device" where
  "takephoto str d =
     (if str = [] then d
      else let d = d\<lparr>Camera_Number := unat (str ! 0 - 0x30)\<rparr>
           in if Camera_Take_Enable d \<and> photo_sending (Photo_sdState d) = 0
              then snd (Start_Camera (Camera_Number d) d) else d)"

text \<open>
  The case \<open>0x8801\<close> of \<^verbatim>\<open>TCP_RX_Process\<close>: a take on command of the centre. The fields of
  \<^verbatim>\<open>Camera_Obj\<close> that it sets are read nowhere. The range test of the code is kept: it is
  never true.
\<close>

definition TCP_RX_8801 :: "bytes \<Rightarrow> device \<Rightarrow> device" where
  "TCP_RX_8801 UDP_HEX_Rx d =
     (if Camera_Take_Enable d \<and> photo_sending (Photo_sdState d) = 0
      then let d = d\<lparr>Camera_Number := unat (UDP_HEX_Rx ! 13)\<rparr>
           in if Camera_Number d > Max_CameraNum \<and> Camera_Number d < 1 then d
              else (snd (Start_Camera (Camera_Number d) d))
                     \<lparr>SingleCamera_TakeRetry := 0, ans := (ans d)\<lparr>f_CentreCMDack_0001H := 1, f_CentreCMDack_resualt := 0\<rparr>\<rparr>
      else d\<lparr>ans := (ans d)\<lparr>f_CentreCMDack_0001H := 1, f_CentreCMDack_resualt := 0\<rparr>\<rparr>)"

section \<open>Receiving from the line\<close>

text \<open>
  \<^verbatim>\<open>_485_RxHandler\<close>, called with every byte. The C buffers hold 600 and 100 bytes and are not
  checked; the lists of the model grow instead.
\<close>

definition RxHandler_485 :: "u8 \<Rightarrow> rs485_state \<Rightarrow> rs485_state" where
  "RxHandler_485 data r =
     (let r = r\<lparr>dev_rx_485 := splice (dev_wr_485 r) [data] (dev_rx_485 r),
                dev_wr_485 := u16 (dev_wr_485 r + 1)\<rparr>;
          b = dev_rx_485 r;
          wr = dev_wr_485 r
      in if rx485_receiveflag r = IDLE_485
         then if b ! 0 \<noteq> 0xAA \<and> b ! 0 \<noteq> 0x40 then r\<lparr>dev_wr_485 := 0\<rparr>
              else if wr = 2
              then if b ! 1 \<noteq> 0x55 \<and> b ! 1 \<noteq> 0x40 then r\<lparr>dev_wr_485 := 0\<rparr> else r
              else if wr = 3
              then if b ! 0 = 0xAA \<and> b ! 1 = 0x55
                   then r\<lparr>rx485_RxLen := unat (b ! 2), rx485_receiveflag := LARGE_LCD\<rparr>
                   else if b ! 0 \<noteq> 0x40 then r\<lparr>dev_wr_485 := 0\<rparr> else r
              else if wr = 8
              then if b ! 0 = 0x40 \<and> b ! 1 = 0x40 \<and> b ! 2 = 0x63
                   then r\<lparr>rx485_RxLen := u16 (unat (b ! 6) * 256 + unat (b ! 5)), dev_wr_485 := 0,
                          rx485_receiveflag := CAMERA_Related\<rparr>
                   else r\<lparr>dev_wr_485 := 0\<rparr>
              else r
         else if rx485_receiveflag r = LARGE_LCD
         then if wr \<ge> rx485_RxLen r + 3
              then r\<lparr>Lcd_RxInfo := splice 0 (take (rx485_RxLen r) b)
                       (splice 0 (replicate 4 0) (Lcd_RxInfo r)),
                     Lcd_RxInfolen := rx485_RxLen r, Lcd_Process_Enable := 1, dev_wr_485 := 0,
                     rx485_receiveflag := IDLE_485\<rparr>
              else r
         else if rx485_receiveflag r = CAMERA_Related
         then if wr \<ge> rx485_RxLen r
              then r\<lparr>content_485 := splice 0 (take (rx485_RxLen r) b) (replicate 600 0),
                     content_wr_485 := rx485_RxLen r, CameraData_Enable_485 := 1, dev_wr_485 := 0,
                     rx485_receiveflag := IDLE_485\<rparr>
              else r
         else r\<lparr>dev_wr_485 := 0, rx485_receiveflag := IDLE_485\<rparr>)"

section \<open>Storing a picture\<close>

definition CHKendTake_ReadyToSend :: "device \<Rightarrow> bool \<times> device" where
  "CHKendTake_ReadyToSend d =
     (if Max_CameraNum = Camera_Number d
      then let d = d\<lparr>MultiTake := (MultiTake d)\<lparr>Taking := 0\<rparr>\<rparr>
           in if OpenDoor_StartTakeFlag d = 1 \<and> Opendoor_transFLAG d = 0
              then (True, (MultiTake_End d)\<lparr>OpenDoor_StartTakeFlag := 0\<rparr>)
              else (True, snd (Check_MultiTakeResult_b4Trans d))
      else (False, d))"

text \<open>Decimal digits of a number, as \<^verbatim>\<open>%d\<close> prints it.\<close>

fun dec :: "nat \<Rightarrow> bytes" where
  "dec n = (if n < 10 then [byte (48 + n)] else dec (n div 10) @ [byte (48 + n mod 10)])"

declare dec.simps [simp del]

text \<open>
  The branch for the first packet: the area of the camera is erased (for camera 4 the area of
  camera 3, as in the code), the picture gets its name and its entry in the index.
\<close>

definition pic_page :: "nat \<Rightarrow> nat option" where
  "pic_page c =
     (if c = 1 then Some PicStart_offset else if c = 2 then Some PicStart_offset2
      else if c = 3 then Some PicStart_offset3 else if c = 4 then Some PicStart_offset4 else None)"

definition pic_erase :: "nat \<Rightarrow> store \<Rightarrow> store" where
  "pic_erase c s =
     (let s = (case pic_page c of Some p \<Rightarrow> s\<lparr>pic_current_page := p\<rparr> | None \<Rightarrow> s)
      in if c = 1 then snd (Api_DFdirectory_Delete camera_1 s)
         else if c = 2 then snd (Api_DFdirectory_Delete camera_2 s)
         else if c = 3 \<or> c = 4 then snd (Api_DFdirectory_Delete camera_3 s)
         else s)"

definition pic_create :: "device \<Rightarrow> device" where
  "pic_create d =
     (let d = d\<lparr>CameraState := (CameraState d)\<lparr>create_Flag := 0\<rparr>,
                st := (st d)\<lparr>PictureName := replicate 40 0\<rparr>\<rparr>;
          s = snd (DF_Read_RecordAdd (pic_write (st d)) (pic_read (st d)) TYPE_PhotoAdd (st d));
          c = Camera_Number d;
          s = pic_erase c s;
          name = dec (time_hour d) @ dec (time_min d) @ dec (time_sec d) @ [0x2D] @ dec c @ ascii ''.jpg'';
          s = s\<lparr>pic_current_page := u32 (pic_current_page s + 1), pic_PageIn_offset := 0, pic_size := 0,
                PictureName := splice 0 name (replicate 40 0)\<rparr>;
          d = d\<lparr>st := s\<rparr>
      in snd (Save_MediaIndex 0 (PictureName (st d)) c 0 d))"

text \<open>Every packet is programmed into one page.\<close>

definition pic_store :: "device \<Rightarrow> device" where
  "pic_store d =
     (let s = st d
      in d\<lparr>st := s\<lparr>flash := DF_WriteFlashDirect (pic_current_page s) 0 (content_485 (rs485 d))
                              (PackageLen (rs485 d)) (flash s),
                   pic_size := u32 (pic_size s + PackageLen (rs485 d)),
                   pic_current_page := u32 (pic_current_page s + 1)\<rparr>\<rparr>)"

text \<open>After the last packet: the head page, the counters, and what follows the take.\<close>

definition pic_close :: "device \<Rightarrow> device" where
  "pic_close d =
     (let d = d\<lparr>rs485 := (rs485 d)\<lparr>content_485 := replicate 600 0, content_wr_485 := 0\<rparr>\<rparr>;
          s = st d;
          s = (case pic_page (Camera_Number d) of Some p \<Rightarrow> s\<lparr>pic_current_page := p\<rparr> | None \<Rightarrow> s);
          s = s\<lparr>PictureName := splice 18 (byte (Camera_Number d) # le32 (pic_size s)) (PictureName s)\<rparr>;
          s = s\<lparr>flash := DF_WriteFlashDirect (pic_current_page s) 0 (PictureName s) 23 (flash s)\<rparr>;
          s = s\<lparr>pic_write := ring_inc Max_PicNum (pic_write s)\<rparr>;
          s = snd (DF_Write_RecordAdd (pic_write s) (pic_read s) TYPE_PhotoAdd s)
      in d\<lparr>st := s, ans := (ans d)\<lparr>SingleCamra_TakeResualt_BD := 0, f_BD_CentreTakeAck_0805H := 1\<rparr>\<rparr>)"

definition multi_success :: "device \<Rightarrow> device" where
  "multi_success d =
     (if Camera_Number d \<in> {1, 2, 3, 4}
      then let i = Camera_Number d - 1;
               d = d\<lparr>MultiTake := (MultiTake d)\<lparr>TakeResult := (TakeResult (MultiTake d))[i := Take_Success],
                          Take_retry := 0\<rparr>\<rparr>
           in (case CHKendTake_ReadyToSend d of
                 (True, d) \<Rightarrow> d
               | (False, d) \<Rightarrow>
                   let d = d\<lparr>Camera_Number := Camera_Number d + 1\<rparr>
                   in snd (Start_Camera (Camera_Number d) d))
      else MultiTake_End d)"

definition pic_done :: "device \<Rightarrow> device" where
  "pic_done d =
     (let d = End_Camera d
      in if Taking (MultiTake d) = 1 then multi_success d
         else if Taking (MultiTake d) = 0 \<and> Transfering (MultiTake d) = 0
         then if OpenDoor_StartTakeFlag d = 1 \<and> Opendoor_transFLAG d = 0
              then (MultiTake_End d)\<lparr>OpenDoor_StartTakeFlag := 0\<rparr>
              else Photo_send_start (Camera_Number d) d
         else d)"

text \<open>A short packet, or one that ends with the end marker of a JPEG file, is the last one.\<close>

definition mark_last :: "rs485_state \<Rightarrow> rs485_state" where
  "mark_last r =
     (if PackageLen r < PageSIZE then r\<lparr>last_package := 1\<rparr>
      else if last_package r = 0 \<and> content_485 r ! 510 = 0xFF \<and> content_485 r ! 511 = 0xD9
      then r\<lparr>last_package := 1\<rparr> else r)"

definition Pic_Data_Process :: "device \<Rightarrow> device" where
  "Pic_Data_Process d =
     (let r = (rs485 d)\<lparr>PackageLen := content_wr_485 (rs485 d)\<rparr>;
          r = mark_last r;
          d = d\<lparr>rs485 := r,
                CameraState := (CameraState d)\<lparr>block_counter := u16 (block_counter (CameraState d) + 1)\<rparr>\<rparr>;
          d = (if create_Flag (CameraState d) = 1 then pic_create d else d);
          d = pic_store d
      in if last_package (rs485 d) = 1 then pic_done (pic_close d)
         else d\<lparr>CameraState := (CameraState d)\<lparr>cam_status := transfer_state, OperateFlag := 0\<rparr>,
                rs485 := (rs485 d)\<lparr>TX_485const_Enable := 1, rx485_receiveflag := IDLE_485,
                  content_485 := replicate 600 0, content_wr_485 := 0\<rparr>\<rparr>)"

section \<open>Door, timer and thread\<close>

text \<open>The level of the door contact is an input.\<close>

definition OpenDoor_TakePhoto :: "bool \<Rightarrow> device \<Rightarrow> device" where
  "OpenDoor_TakePhoto door d =
     (let d = d\<lparr>DoorOpen_currentState := (if door then 1 else 0)\<rparr>;
          d = (if DoorOpen_currentState d \<noteq> DoorOpen_BakState d \<and> DataLink_OK d \<and>
                  cam_status (CameraState d) = other \<and> photo_sending (Photo_sdState d) = 0 \<and>
                  Taking (MultiTake d) = 0 \<and> Transfering (MultiTake d) = 0
               then snd (Start_Camera 1 d) else d)
      in d\<lparr>DoorOpen_BakState := DoorOpen_currentState d\<rparr>)"

text \<open>The camera part of the 100 ms timer, without the display.\<close>

definition timeout_485 :: "bool \<Rightarrow> device \<Rightarrow> device" where
  "timeout_485 door d =
     (let d = d\<lparr>One_second_Counter_485 := u8n (One_second_Counter_485 d + 1)\<rparr>
      in if One_second_Counter_485 d > 10
         then Camra_Take_Exception (OpenDoor_TakePhoto door (d\<lparr>One_second_Counter_485 := 0\<rparr>))
         else d)"

text \<open>One turn of the thread: store a received packet, then send a pending command.\<close>

definition thread_485_turn :: "device \<Rightarrow> device" where
  "thread_485_turn d =
     Send_const485
       (if CameraData_Enable_485 (rs485 d) \<noteq> 0
        then let d = Pic_Data_Process d
             in d\<lparr>rs485 := (rs485 d)\<lparr>CameraData_Enable_485 := 0\<rparr>\<rparr>
        else d)"

section \<open>A camera packet on the line\<close>

text \<open>The bytes of a camera reply: head, length with the low byte first, one more byte, data.\<close>

definition camera_reply :: "u8 \<Rightarrow> u8 \<Rightarrow> u8 \<Rightarrow> bytes \<Rightarrow> bytes" where
  "camera_reply x y z data =
     [0x40, 0x40, 0x63, x, y, byte (length data), byte (length data div 256), z] @ data"

definition rx_idle :: "rs485_state \<Rightarrow> bool" where
  "rx_idle r = (rx485_receiveflag r = IDLE_485 \<and> dev_wr_485 r = 0)"

lemma splice_0_Cons: "splice 0 [a] (b # bs) = a # bs" "splice 0 [a] [] = [a]"
  by (simp_all add: splice_def)

text \<open>While the data of a packet arrive, the buffer holds a prefix of them.\<close>

lemma take_splice_snoc:
  "k \<le> length buf \<Longrightarrow> take (Suc k) (splice k [b] buf) = take k buf @ [b]"
  by (simp add: splice_def)

lemma rx_data:
  assumes "rx485_receiveflag r = CAMERA_Related" and "rx485_RxLen r = length pre + length data"
    and "take (length pre) (dev_rx_485 r) = pre" and "dev_wr_485 r = length pre"
    and "data \<noteq> []" and "length pre + length data < 65536"
  shows "\<exists>b. fold RxHandler_485 data r = r\<lparr>dev_rx_485 := b, dev_wr_485 := 0,
    content_485 := splice 0 (pre @ data) (replicate 600 0), content_wr_485 := length pre + length data,
    CameraData_Enable_485 := 1, rx485_receiveflag := IDLE_485\<rparr>"
  using assms
proof (induction data arbitrary: pre r)
  case (Cons a data)
  let ?b = "splice (length pre) [a] (dev_rx_485 r)"
  have len: "length pre \<le> length (dev_rx_485 r)"
    using arg_cong [OF Cons.prems(3), of length] by simp
  have tk: "take (Suc (length pre)) ?b = pre @ [a]"
    using take_splice_snoc [OF len] Cons.prems(3) by simp
  show ?case
  proof (cases "data = []")
    case True
    have "RxHandler_485 a r = r\<lparr>dev_rx_485 := ?b, dev_wr_485 := 0,
        content_485 := splice 0 (take (Suc (length pre)) ?b) (replicate 600 0), content_wr_485 := Suc (length pre),
        CameraData_Enable_485 := 1, rx485_receiveflag := IDLE_485\<rparr>"
      using Cons.prems True by (simp add: RxHandler_485_def u16_small Let_def)
    then show ?thesis using True tk by (intro exI [of _ ?b]) simp
  next
    case False
    let ?r = "r\<lparr>dev_rx_485 := ?b, dev_wr_485 := Suc (length pre)\<rparr>"
    have one: "RxHandler_485 a r = ?r"
      using Cons.prems False by (simp add: RxHandler_485_def u16_small Let_def)
    have "\<exists>b. fold RxHandler_485 data ?r = ?r\<lparr>dev_rx_485 := b, dev_wr_485 := 0,
        content_485 := splice 0 ((pre @ [a]) @ data) (replicate 600 0),
        content_wr_485 := length (pre @ [a]) + length data,
        CameraData_Enable_485 := 1, rx485_receiveflag := IDLE_485\<rparr>"
      using Cons.prems False tk by (intro Cons.IH) simp_all
    then show ?thesis by (simp add: one)
  qed
qed simp

text \<open>The eight bytes of the head set the length and the receiving state.\<close>

lemma rx_head_part:
  assumes "rx485_receiveflag r = IDLE_485" and "length pre + length bs \<le> 7"
    and "take (length pre) (dev_rx_485 r) = pre" and "dev_wr_485 r = length pre"
    and "\<exists>rest. pre @ bs = 0x40 # 0x40 # rest"
  shows "\<exists>b. fold RxHandler_485 bs r = r\<lparr>dev_rx_485 := b, dev_wr_485 := length pre + length bs\<rparr> \<and>
    take (length pre + length bs) b = pre @ bs"
  using assms
proof (induction bs arbitrary: pre r)
  case Nil
  then show ?case by (intro exI [of _ "dev_rx_485 r"]) simp
next
  case (Cons a bs)
  let ?b = "splice (length pre) [a] (dev_rx_485 r)"
  let ?r = "r\<lparr>dev_rx_485 := ?b, dev_wr_485 := Suc (length pre)\<rparr>"
  have len: "length pre \<le> length (dev_rx_485 r)"
    using arg_cong [OF Cons.prems(3), of length] by simp
  have tk: "take (Suc (length pre)) ?b = pre @ [a]"
    using take_splice_snoc [OF len] Cons.prems(3) by simp
  obtain rest where rest: "pre @ a # bs = 0x40 # 0x40 # rest" using Cons.prems(5) by blast
  have at: "?b ! i = 0x40" if "i \<le> length pre" "i < 2" for i
  proof -
    have "?b ! i = take (Suc (length pre)) ?b ! i" using that(1) by simp
    also have "\<dots> = (pre @ a # bs) ! i" unfolding tk using that(1) by (auto simp: nth_append)
    also have "\<dots> = 0x40" unfolding rest using that(2) by (cases i) (simp_all add: less_Suc_eq)
    finally show ?thesis .
  qed
  have one: "RxHandler_485 a r = ?r"
    using Cons.prems(1,2,4) at [of 0] at [of 1] by (auto simp: RxHandler_485_def u16_small Let_def)
  have "\<exists>b. fold RxHandler_485 bs ?r =
      ?r\<lparr>dev_rx_485 := b, dev_wr_485 := length (pre @ [a]) + length bs\<rparr> \<and>
      take (length (pre @ [a]) + length bs) b = (pre @ [a]) @ bs"
    using Cons.prems tk by (intro Cons.IH) simp_all
  then show ?case by (simp add: one)
qed

lemma rx_head:
  assumes "rx_idle r" and "n < 65536"
  shows "\<exists>b. fold RxHandler_485 [0x40, 0x40, 0x63, x, y, byte n, byte (n div 256), z] r =
    r\<lparr>dev_rx_485 := b, dev_wr_485 := 0, rx485_RxLen := n, rx485_receiveflag := CAMERA_Related\<rparr>"
proof -
  have n: "unat (byte (n div 256)) * 256 + unat (byte n) = n"
    using of_be16_be16 [OF assms(2)] by (simp only: of_be16_def)
  let ?h = "[0x40, 0x40, 0x63, x, y, byte n, byte (n div 256)]"
  have "\<exists>b. fold RxHandler_485 ?h r = r\<lparr>dev_rx_485 := b, dev_wr_485 := length ([] :: bytes) + length ?h\<rparr> \<and>
      take (length ([] :: bytes) + length ?h) b = [] @ ?h"
    using assms(1) by (intro rx_head_part) (simp_all add: rx_idle_def)
  moreover have "length ([] :: bytes) + length ?h = 7" by simp
  ultimately obtain b where b: "fold RxHandler_485 ?h r = r\<lparr>dev_rx_485 := b, dev_wr_485 := 7\<rparr>" "take 7 b = ?h"
    by (simp only: append_Nil) blast
  have len: "7 \<le> length b" using arg_cong [OF b(2), of length] by simp
  let ?b = "splice 7 [z] b"
  have tk: "take (Suc 7) ?b = ?h @ [z]" using take_splice_snoc [OF len] b(2) by simp
  have at: "?b ! i = (?h @ [z]) ! i" if "i < 8" for i
    using arg_cong [OF tk, of "\<lambda>l. l ! i"] that by simp
  have bytes: "?b ! 0 = 0x40" "?b ! 1 = 0x40" "?b ! 2 = 0x63" "?b ! 5 = byte n" "?b ! 6 = byte (n div 256)"
    using at [of 0] at [of 1] at [of 2] at [of 5] at [of 6] by simp_all
  have "RxHandler_485 z (r\<lparr>dev_rx_485 := b, dev_wr_485 := 7\<rparr>) =
      r\<lparr>dev_rx_485 := ?b, dev_wr_485 := 0, rx485_RxLen := n, rx485_receiveflag := CAMERA_Related\<rparr>"
    using assms n bytes by (simp add: RxHandler_485_def rx_idle_def u16_small Let_def)
  then have "fold RxHandler_485 (?h @ [z]) r =
      r\<lparr>dev_rx_485 := ?b, dev_wr_485 := 0, rx485_RxLen := n, rx485_receiveflag := CAMERA_Related\<rparr>"
    unfolding fold_append o_apply b(1) by simp
  then show ?thesis by auto
qed

lemma camera_reply_rx:
  assumes "rx_idle r" and "data \<noteq> []" and "length data < 65536"
  shows "\<exists>b. fold RxHandler_485 (camera_reply x y z data) r = r\<lparr>rx485_RxLen := length data,
    dev_rx_485 := b, dev_wr_485 := 0, content_485 := splice 0 data (replicate 600 0),
    content_wr_485 := length data, CameraData_Enable_485 := 1, rx485_receiveflag := IDLE_485\<rparr>"
proof -
  let ?h = "[0x40, 0x40, 0x63, x, y, byte (length data), byte (length data div 256), z]"
  obtain b where b: "fold RxHandler_485 ?h r =
      r\<lparr>dev_rx_485 := b, dev_wr_485 := 0, rx485_RxLen := length data, rx485_receiveflag := CAMERA_Related\<rparr>"
    using rx_head [OF assms(1,3)] by blast
  let ?r = "r\<lparr>dev_rx_485 := b, dev_wr_485 := 0, rx485_RxLen := length data, rx485_receiveflag := CAMERA_Related\<rparr>"
  have "fold RxHandler_485 (camera_reply x y z data) r = fold RxHandler_485 data ?r"
    unfolding camera_reply_def fold_append o_apply b ..
  moreover have "\<exists>b. fold RxHandler_485 data ?r = ?r\<lparr>dev_rx_485 := b, dev_wr_485 := 0,
    content_485 := splice 0 ([] @ data) (replicate 600 0), content_wr_485 := length ([] :: bytes) + length data,
    CameraData_Enable_485 := 1, rx485_receiveflag := IDLE_485\<rparr>"
    using assms by (intro rx_data) simp_all
  ultimately show ?thesis by auto
qed

section \<open>The stored picture\<close>

text \<open>
  The pages that the erase for a new picture of cameras 1, 2 and 3 really clears, from the
  head page of the area to the end of the 64 KByte block.
\<close>

definition pic_limit :: "nat \<Rightarrow> nat" where
  "pic_limit c = (if c = 1 then 4224 else if c = 2 then 4480 else 4864)"

lemma nor_read_pic_erase:
  assumes "c \<in> {1, 2, 3}" and "x < chip_size" and "Pic_page c * 512 \<le> x" and "x < pic_limit c * 512"
  shows "nor_read (flash (pic_erase c s)) x = 0xFF"
proof -
  have "c = 1 \<or> c = 2 \<or> c = 3" using assms(1) by auto
  then show ?thesis
  proof (elim disjE)
    assume "c = 1"
    then show ?thesis
      using nor_read_erase_block [OF assms(2), of "PicStart_offset * 512" 65536 32 "flash s"] assms(3,4)
      by (simp add: pic_erase_def pic_page_def Api_DFdirectory_Delete_def chip_size_def Pic_page_def pic_limit_def)
  next
    assume "c = 2"
    then show ?thesis
      using nor_read_erase_block [OF assms(2), of "PicStart_offset2 * 512" 65536 34 "flash s"] assms(3,4)
      by (simp add: pic_erase_def pic_page_def Api_DFdirectory_Delete_def chip_size_def Pic_page_def pic_limit_def)
  next
    assume "c = 3"
    then show ?thesis
      using nor_read_erase_block [OF assms(2), of "PicStart_offset3 * 512" 65536 37 "flash s"] assms(3,4)
      by (simp add: pic_erase_def pic_page_def Api_DFdirectory_Delete_def chip_size_def Pic_page_def pic_limit_def)
  qed
qed

text \<open>The index and the pointer log lie below the picture areas.\<close>

lemma free_index_less: "free_index ty s < 8"
proof -
  have "first_index p [0..<8] \<le> 8" for p using first_index_le [of p "[0..<8]"] by simp
  then have "(if first_index p [0..<8] = 8 then 0 else first_index p [0..<8]) < 8" for p
    by (simp add: le_neq_implies_less)
  then show ?thesis unfolding free_index_def Let_def .
qed

lemma length_media_index [simp]: "length (media_index a b c e f g h) = 52"
  by (simp add: media_index_def)

lemma Save_MediaIndex_pic:
  "\<exists>f. Save_MediaIndex 0 name c e d = (True, d\<lparr>st := (st d)\<lparr>flash := f\<rparr>\<rparr>) \<and>
    (\<forall>x. 2097152 \<le> x \<longrightarrow> x < chip_size \<longrightarrow> nor_read f x = nor_read (flash (st d)) x)"
proof -
  let ?i = "free_index 0 (st d)"
  let ?c = "media_index 1 (Msg_Float_ID d) 0 c e (takeWhile (\<lambda>b. b \<noteq> 0) name) (Stuff_O200_Info_Only (gps d))"
  have i: "?i < 8" by (rule free_index_less)
  then have u: "u8n ?i = ?i" by (simp add: u8n_small)
  have eq: "Save_MediaIndex 0 name c e d =
      (True, d\<lparr>st := (st d)\<lparr>flash := DF_WriteFlash (1480 + ?i) 0 ?c 52 (flash (st d))\<rparr>\<rparr>)"
    by (simp add: Save_MediaIndex_def Api_RecordNum_Write_def RecordNum_Page_def Let_def u)
  have "nor_read (DF_WriteFlash (1480 + ?i) 0 ?c 52 (flash (st d))) x = nor_read (flash (st d)) x"
    if "2097152 \<le> x" "x < chip_size" for x
  proof -
    have "512 \<le> x div 4096" using that(1) div_le_mono [of 2097152 x 4096] by simp
    moreover have "(1480 + ?i) div 8 \<le> 185" using i div_le_mono [of "1480 + ?i" 1487 8] by simp
    ultimately show ?thesis using that(2) i by (simp add: nor_read_DF_WriteFlash)
  qed
  with eq show ?thesis by blast
qed

lemma nor_read_put_photo:
  assumes "x < chip_size" and "2097152 \<le> x"
  shows "nor_read (type_put TYPE_PhotoAdd w r f) x = nor_read f x"
proof -
  have pg: "RecordAdd_Page TYPE_PhotoAdd = Some 1104" by (simp add: RecordAdd_Page_def)
  have "512 \<le> x div 4096" using assms(2) div_le_mono [of 2097152 x 4096] by simp
  then show ?thesis
    unfolding type_put_def pg option.sel using assms by (intro nor_read_put_other) (simp_all add: log_page_def)
qed

lemma read_all_append:
  "read_all rd a (m + n) s = read_all rd a m s @ read_all rd (a + m) n s"
  by (rule nth_equalityI) (auto simp: nth_append)


lemma Pic_page_range:
  assumes "c \<in> {1, 2, 3}"
  shows "4096 \<le> Pic_page c" "Pic_page c < pic_limit c" "pic_limit c \<le> 8192" "pic_page c = Some (Pic_page c)"
  using assms by (auto simp: Pic_page_def pic_limit_def pic_page_def)

text \<open>
  \<open>storing c data s\<close>: the bytes \<open>data\<close> of a picture are in the area, everything else up to
  the limit is erased.
\<close>

definition storing :: "nat \<Rightarrow> bytes \<Rightarrow> store \<Rightarrow> bool" where
  "storing c data s =
     (pic_size s = length data \<and>
      18 \<le> length (PictureName s) \<and>
      read_all nor_read ((Pic_page c + 1) * 512) (length data) (flash s) = data \<and>
      (\<forall>x. Pic_page c * 512 \<le> x \<and> x < pic_limit c * 512 \<and>
         \<not> ((Pic_page c + 1) * 512 \<le> x \<and> x < (Pic_page c + 1) * 512 + length data) \<longrightarrow>
         nor_read (flash s) x = 0xFF))"

lemma pic_create_storing:
  assumes "Camera_Number d \<in> {1, 2, 3}"
  shows "\<exists>s. pic_create d = d\<lparr>CameraState := (CameraState d)\<lparr>create_Flag := 0\<rparr>, st := s\<rparr> \<and>
    storing (Camera_Number d) [] s \<and> pic_current_page s = Pic_page (Camera_Number d) + 1"
proof -
  let ?c = "Camera_Number d"
  let ?e = "d\<lparr>CameraState := (CameraState d)\<lparr>create_Flag := 0\<rparr>, st := (st d)\<lparr>PictureName := replicate 40 0\<rparr>\<rparr>"
  let ?s0 = "snd (DF_Read_RecordAdd (pic_write (st ?e)) (pic_read (st ?e)) TYPE_PhotoAdd (st ?e))"
  let ?s1 = "pic_erase ?c ?s0"
  let ?n = "dec (time_hour d) @ dec (time_min d) @ dec (time_sec d) @ [0x2D] @ dec ?c @ ascii ''.jpg''"
  let ?s2 = "?s1\<lparr>pic_current_page := u32 (pic_current_page ?s1 + 1), pic_PageIn_offset := 0, pic_size := 0,
      PictureName := splice 0 ?n (replicate 40 0)\<rparr>"
  note rng = Pic_page_range [OF assms]
  have cp: "pic_current_page ?s1 = Pic_page ?c"
    using assms rng(4) by (auto simp: pic_erase_def Api_DFdirectory_Delete_def)
  have eq: "pic_create d = snd (Save_MediaIndex 0 (PictureName ?s2) ?c 0 (?e\<lparr>st := ?s2\<rparr>))"
    by (simp add: pic_create_def Let_def)
  obtain f where f: "Save_MediaIndex 0 (PictureName ?s2) ?c 0 (?e\<lparr>st := ?s2\<rparr>) =
      (True, ?e\<lparr>st := ?s2\<lparr>flash := f\<rparr>\<rparr>)"
    "\<And>x. 2097152 \<le> x \<Longrightarrow> x < chip_size \<Longrightarrow> nor_read f x = nor_read (flash ?s2) x"
    using Save_MediaIndex_pic [of "PictureName ?s2" ?c 0 "?e\<lparr>st := ?s2\<rparr>"] by auto
  have blank: "nor_read f x = 0xFF" if "Pic_page ?c * 512 \<le> x" "x < pic_limit ?c * 512" for x
  proof -
    have x: "2097152 \<le> x" "x < chip_size" using that rng by (simp_all add: chip_size_def)
    have "nor_read (flash ?s1) x = 0xFF"
      using nor_read_pic_erase [OF assms x(2) that] by simp
    then show ?thesis using f(2) [OF x] by simp
  qed
  have "u32 (Pic_page ?c + 1) = Pic_page ?c + 1" using rng by (intro u32_small) simp
  then have page: "pic_current_page ?s2 = Pic_page ?c + 1" using cp by simp
  have "storing ?c [] (?s2\<lparr>flash := f\<rparr>)"
    using blank by (simp add: storing_def read_all_def splice_def)
  with page show ?thesis unfolding eq f(1) by (intro exI [of _ "?s2\<lparr>flash := f\<rparr>"]) simp
qed

lemma pic_store_storing:
  assumes "c \<in> {1, 2, 3}" and "storing c data (st d)" and "length p = PackageLen (rs485 d)"
    and "take (length p) (content_485 (rs485 d)) = p" and "length data = n * 512"
    and "pic_current_page (st d) = Pic_page c + 1 + n" and "length p \<le> 512"
    and "Pic_page c + 1 + n < pic_limit c"
  shows "\<exists>s. pic_store d = d\<lparr>st := s\<rparr> \<and> storing c (data @ p) s \<and>
    pic_current_page s = Pic_page c + 1 + (n + 1)"
proof -
  let ?a = "(Pic_page c + 1) * 512"
  let ?g = "prog_all nor_program (?a + length data) p (flash (st d))"
  note rng = Pic_page_range [OF assms(1)]
  have a: "(Pic_page c + 1 + n) * 512 = ?a + length data" using assms(5) by (simp add: algebra_simps)
  have lim: "?a + length data + 512 \<le> pic_limit c * 512" "pic_limit c * 512 \<le> chip_size"
    unfolding a [symmetric] using assms(8) rng by (simp_all add: chip_size_def)
  have old: "pic_size (st d) = length data" "18 \<le> length (PictureName (st d))"
    "read_all nor_read ?a (length data) (flash (st d)) = data"
    "\<And>x. Pic_page c * 512 \<le> x \<Longrightarrow> x < pic_limit c * 512 \<Longrightarrow>
      \<not> (?a \<le> x \<and> x < ?a + length data) \<Longrightarrow> nor_read (flash (st d)) x = 0xFF"
    using assms(2) by (simp_all add: storing_def)
  let ?s = "(st d)\<lparr>flash := ?g, pic_size := length (data @ p), pic_current_page := Pic_page c + 1 + (n + 1)\<rparr>"
  have eq: "pic_store d = d\<lparr>st := ?s\<rparr>"
  proof -
    have "DF_WriteFlashDirect (pic_current_page (st d)) 0 (content_485 (rs485 d)) (PackageLen (rs485 d)) (flash (st d)) = ?g"
      unfolding assms(3) [symmetric] using assms(4,6,7,8) rng a by (simp add: DF_WriteFlashDirect_in_range add.assoc)
    moreover have "u32 (pic_size (st d) + PackageLen (rs485 d)) = length (data @ p)"
      unfolding assms(3) [symmetric] old(1) using lim assms(7) by (subst u32_small) (simp_all add: chip_size_def)
    moreover have "u32 (pic_current_page (st d) + 1) = Pic_page c + 1 + (n + 1)"
      unfolding assms(6) using assms(8) rng by (subst u32_small) simp_all
    ultimately show ?thesis by (simp add: pic_store_def Let_def)
  qed
  have data: "read_all nor_read ?a (length data) ?g = data"
    using nor.read_all_prog_all_disjoint [of "?a + length data" p ?a "length data"] old(3) lim assms(7) by simp
  have new: "read_all nor_read (?a + length data) (length p) ?g = p"
    using lim assms(7) by (intro nor.read_all_prog_all_blank old(4)) simp_all
  have blank: "nor_read ?g x = 0xFF"
    if "Pic_page c * 512 \<le> x" "x < pic_limit c * 512" "\<not> (?a \<le> x \<and> x < ?a + length (data @ p))" for x
  proof -
    have "x < chip_size" using that(2) lim(2) by simp
    moreover have "nor_read (flash (st d)) x = 0xFF" using that by (intro old(4)) auto
    ultimately show ?thesis using nor.rd_prog_all [of x "?a + length data" p] that lim assms(7) by auto
  qed
  have "storing c (data @ p) ?s"
    unfolding storing_def using data new blank old(2) by (simp add: read_all_append)
  with eq show ?thesis by (intro exI [of _ ?s]) simp
qed

text \<open>Closing a picture writes the head page and keeps the data.\<close>

lemma splice_size_field:
  assumes "18 \<le> length pn"
  shows "take 4 (drop 19 (take 23 (splice 18 (b # le32 n) pn))) = le32 n"
  using assms by (simp add: splice_def le32_def)

lemma pic_close_stored:
  assumes "Camera_Number d = c" and "c \<in> {1, 2, 3}" and "storing c data (st d)"
    and "(Pic_page c + 1) * 512 + length data \<le> pic_limit c * 512"
  shows "\<exists>s. pic_close d = d\<lparr>rs485 := (rs485 d)\<lparr>content_485 := replicate 600 0, content_wr_485 := 0\<rparr>, st := s,
      ans := (ans d)\<lparr>SingleCamra_TakeResualt_BD := 0, f_BD_CentreTakeAck_0805H := 1\<rparr>\<rparr> \<and>
    read_all nor_read ((Pic_page c + 1) * 512) (length data) (flash s) = data \<and>
    of_le32 (take 4 (drop 19 (DF_ReadFlash (Pic_page c) 0 23 (flash s)))) = length data"
proof -
  let ?pn = "splice 18 (byte c # le32 (length data)) (PictureName (st d))"
  let ?a = "Pic_page c * 512"
  let ?g = "prog_all nor_program ?a (take 23 ?pn) (flash (st d))"
  let ?w = "ring_inc Max_PicNum (pic_write (st d))"
  let ?f = "type_put TYPE_PhotoAdd ?w (pic_read (st d)) ?g"
  note rng = Pic_page_range [OF assms(2)]
  have lim: "?a + 512 + length data \<le> pic_limit c * 512" "pic_limit c * 512 \<le> chip_size" "2097152 \<le> ?a"
    using assms(4) rng by (simp_all add: chip_size_def)
  have old: "pic_size (st d) = length data" "18 \<le> length (PictureName (st d))"
    "read_all nor_read (?a + 512) (length data) (flash (st d)) = data"
    "\<And>x. ?a \<le> x \<Longrightarrow> x < ?a + 512 \<Longrightarrow> nor_read (flash (st d)) x = 0xFF"
    using assms(3) lim by (simp_all add: storing_def add.commute)
  have len: "length (take 23 ?pn) = 23" using old(2) by (simp add: splice_def)
  have "DF_WriteFlashDirect (Pic_page c) 0 ?pn 23 (flash (st d)) = ?g"
    using rng by (simp add: DF_WriteFlashDirect_in_range)
  moreover have "RecordAdd_Page TYPE_PhotoAdd \<noteq> None" by (simp add: RecordAdd_Page_def)
  ultimately have eq: "pic_close d = d\<lparr>rs485 := (rs485 d)\<lparr>content_485 := replicate 600 0, content_wr_485 := 0\<rparr>,
      st := (st d)\<lparr>pic_current_page := Pic_page c, PictureName := ?pn, pic_write := ?w, flash := ?f\<rparr>,
      ans := (ans d)\<lparr>SingleCamra_TakeResualt_BD := 0, f_BD_CentreTakeAck_0805H := 1\<rparr>\<rparr>"
    using assms(1) rng(4) old(1)
    by (simp add: pic_close_def Let_def DF_Write_RecordAdd_type_put del: One_nat_def)
  have up: "nor_read ?f x = nor_read ?g x" if "?a \<le> x" "x < pic_limit c * 512" for x
    using that lim by (intro nor_read_put_photo) simp_all
  have data: "read_all nor_read (?a + 512) (length data) ?f = data"
  proof -
    have "read_all nor_read (?a + 512) (length data) ?f = read_all nor_read (?a + 512) (length data) ?g"
      using lim by (intro read_all_cong up) simp_all
    also have "\<dots> = read_all nor_read (?a + 512) (length data) (flash (st d))"
      using lim len by (intro nor.read_all_prog_all_disjoint) simp_all
    finally show ?thesis using old(3) by simp
  qed
  have "DF_ReadFlash (Pic_page c) 0 23 ?f = read_all nor_read ?a 23 ?f"
    using rng by (simp add: DF_ReadFlash_in_range)
  also have "\<dots> = read_all nor_read ?a (length (take 23 ?pn)) ?g"
    unfolding len using lim by (intro read_all_cong up) simp_all
  also have "\<dots> = take 23 ?pn"
    using lim len by (intro nor.read_all_prog_all_blank old(4)) simp_all
  finally have "take 4 (drop 19 (DF_ReadFlash (Pic_page c) 0 23 ?f)) = le32 (length data)"
    by (simp only: splice_size_field [OF old(2)])
  moreover have "u32 (length data) = length data" using lim by (intro u32_small) (simp add: chip_size_def)
  ultimately have "of_le32 (take 4 (drop 19 (DF_ReadFlash (Pic_page c) 0 23 ?f))) = length data"
    by (simp add: of_le32_le32)
  with data show ?thesis
    unfolding eq
    by (intro exI [of _ "(st d)\<lparr>pic_current_page := Pic_page c, PictureName := ?pn, pic_write := ?w, flash := ?f\<rparr>"])
       (simp add: add.commute)
qed

text \<open>A single picture is announced right after it was stored.\<close>

definition single_take :: "nat \<Rightarrow> device \<Rightarrow> bool" where
  "single_take c d =
     (Camera_Number d = c \<and> Taking (MultiTake d) = 0 \<and> Transfering (MultiTake d) = 0 \<and>
      \<not> (OpenDoor_StartTakeFlag d = 1 \<and> Opendoor_transFLAG d = 0))"

definition announced :: "nat \<Rightarrow> bytes \<Rightarrow> device \<Rightarrow> bool" where
  "announced c data d =
     (Camera_Number d = c \<and> stored_picture c (st d) = data \<and> PicFileSize (st d) = length data \<and>
      Total_packetNum (Photo_sdState d) = packets (length data) \<and> SD_packetNum (Photo_sdState d) = 1 \<and>
      SD_media_Flag (MediaObj d) = 1 \<and> Media_Type (MediaObj d) = 0 \<and> RSD_State (MediaObj d) = 0 \<and>
      f_BD_CentreTakeAck_0805H (ans d) = 1)"

lemma take_drop_head: "length h = 23 \<Longrightarrow> take 4 (drop 19 (h @ t)) = take 4 (drop 19 h)"
  by simp

lemma Query_camera:
  assumes "c \<in> {1, 2, 3}"
  obtains name where "Camera_Name c = Some name" and "\<And>s. Api_DFdirectory_Query name 1 s =
    (of_le32 (take 4 (drop 19 (DF_ReadFlash (Pic_page c) 0 23 (flash s)))),
     s\<lparr>PictureName := DF_ReadFlash (Pic_page c) 0 23 (flash s) @ drop 23 (PictureName s),
       PicFileSize := of_le32 (take 4 (drop 19 (DF_ReadFlash (Pic_page c) 0 23 (flash s))))\<rparr>)"
proof -
  have h: "take 4 (drop 19 (DF_ReadFlash p 0 23 f @ t)) = take 4 (drop 19 (DF_ReadFlash p 0 23 f))" for p f t
    by (rule take_drop_head) (simp add: u16_small)
  have "c = 1 \<or> c = 2 \<or> c = 3" using assms by auto
  then show ?thesis
  proof (elim disjE)
    assume "c = 1"
    then show ?thesis
      by (intro that [of camera_1])
         (simp_all add: Camera_Name_def Pic_page_def Api_DFdirectory_Query_def Let_def h del: drop_append)
  next
    assume "c = 2"
    then show ?thesis
      by (intro that [of camera_2])
         (simp_all add: Camera_Name_def Pic_page_def Api_DFdirectory_Query_def Let_def h del: drop_append)
  next
    assume "c = 3"
    then show ?thesis
      by (intro that [of camera_3])
         (simp_all add: Camera_Name_def Pic_page_def Api_DFdirectory_Query_def Let_def h del: drop_append)
  qed
qed

lemma Photo_send_start_announced:
  assumes "Camera_Number d = c" and "c \<in> {1, 2, 3}" and "data \<noteq> []" and "length data \<le> 65536"
    and "read_all nor_read ((Pic_page c + 1) * 512) (length data) (flash (st d)) = data"
    and "of_le32 (take 4 (drop 19 (DF_ReadFlash (Pic_page c) 0 23 (flash (st d))))) = length data"
    and "f_BD_CentreTakeAck_0805H (ans d) = 1"
  shows "announced c data (Photo_send_start n d)"
proof -
  obtain name where name: "Camera_Name c = Some name" "Api_DFdirectory_Query name 1 (st d) =
      (length data, (st d)\<lparr>PictureName := DF_ReadFlash (Pic_page c) 0 23 (flash (st d)) @ drop 23 (PictureName (st d)),
         PicFileSize := length data\<rparr>)"
    using Query_camera [OF assms(2)] assms(6) by metis
  have "packets (length data) \<noteq> 0" "c \<noteq> 0"
    using packets_bounds(1) [of "length data"] assms(2-4) by auto
  then show ?thesis
    using assms(1,5,7) name
    by (simp add: Photo_send_start_def Media_Start_Init_def announced_def started_def stored_picture_def Let_def)
qed

lemma pic_done_single:
  assumes "single_take c d"
  shows "pic_done d = Photo_send_start c (End_Camera d)"
  using assms by (auto simp: pic_done_def single_take_def End_Camera_def DwinLCD_work_Enable_def Let_def)


text \<open>
  One packet: its bytes arrive on the line, then the thread has a turn. \<open>taking c data n d\<close> is
  the state after \<open>n\<close> full packets.
\<close>

definition line_packet :: "u8 \<Rightarrow> u8 \<Rightarrow> u8 \<Rightarrow> bytes \<Rightarrow> device \<Rightarrow> device" where
  "line_packet x y z p d =
     thread_485_turn (d\<lparr>rs485 := fold RxHandler_485 (camera_reply x y z p) (rs485 d)\<rparr>)"

definition taking :: "nat \<Rightarrow> bytes \<Rightarrow> nat \<Rightarrow> device \<Rightarrow> bool" where
  "taking c data n d =
     (single_take c d \<and> rx_idle (rs485 d) \<and> last_package (rs485 d) = 0 \<and> length data = n * 512 \<and>
      (create_Flag (CameraState d) = 1 \<and> n = 0 \<or>
       create_Flag (CameraState d) = 0 \<and> storing c data (st d) \<and>
         pic_current_page (st d) = Pic_page c + 1 + n))"

definition end_mark :: "bytes \<Rightarrow> bool" where
  "end_mark p = (length p < 512 \<or> p ! 510 = 0xFF \<and> p ! 511 = 0xD9)"

text \<open>The common part of \<open>Pic_Data_Process\<close>: the packet is in the flash.\<close>

lemma packet_stored:
  assumes "taking c data n d" and "c \<in> {1, 2, 3}" and "length p \<le> 512"
    and "Pic_page c + 1 + n < pic_limit c" and "PackageLen r = length p" and "take (length p) (content_485 r) = p"
    and "e = d\<lparr>rs485 := r, CameraState := (CameraState d)\<lparr>block_counter := k\<rparr>\<rparr>"
  shows "\<exists>s. pic_store (if create_Flag (CameraState e) = 1 then pic_create e else e) =
      d\<lparr>rs485 := r, CameraState := (CameraState d)\<lparr>block_counter := k, create_Flag := 0\<rparr>, st := s\<rparr> \<and>
    storing c (data @ p) s \<and> pic_current_page s = Pic_page c + 1 + (n + 1)"
proof -
  have cn: "Camera_Number e = c" using assms(1,7) by (simp add: taking_def single_take_def)
  have len: "length data = n * 512" using assms(1) by (simp add: taking_def)
  obtain s0 where s0: "(if create_Flag (CameraState e) = 1 then pic_create e else e) =
      d\<lparr>rs485 := r, CameraState := (CameraState d)\<lparr>block_counter := k, create_Flag := 0\<rparr>, st := s0\<rparr>"
    "storing c data s0" "pic_current_page s0 = Pic_page c + 1 + n"
  proof (cases "create_Flag (CameraState d) = 1")
    case True
    then have nil: "data = []" "n = 0" using assms(1) by (auto simp: taking_def)
    obtain s where s: "pic_create e = e\<lparr>CameraState := (CameraState e)\<lparr>create_Flag := 0\<rparr>, st := s\<rparr>"
      "storing c [] s" "pic_current_page s = Pic_page c + 1"
      using pic_create_storing [of e] cn assms(2) by auto
    show ?thesis
      using that [of s] True s nil assms(7) by simp
  next
    case False
    then have f: "create_Flag (CameraState d) = 0" "storing c data (st d)"
      "pic_current_page (st d) = Pic_page c + 1 + n"
      using assms(1) by (auto simp: taking_def)
    have "e = d\<lparr>rs485 := r, CameraState := (CameraState d)\<lparr>block_counter := k, create_Flag := 0\<rparr>, st := st d\<rparr>"
      using f(1) assms(7) by simp
    then show ?thesis using that [of "st d"] False f assms(7) by simp
  qed
  let ?e = "d\<lparr>rs485 := r, CameraState := (CameraState d)\<lparr>block_counter := k, create_Flag := 0\<rparr>, st := s0\<rparr>"
  have "\<exists>s. pic_store ?e = ?e\<lparr>st := s\<rparr> \<and> storing c (data @ p) s \<and> pic_current_page s = Pic_page c + 1 + (n + 1)"
    using assms(2-6) s0(2,3) len by (intro pic_store_storing) simp_all
  then show ?thesis unfolding s0(1) by simp
qed

text \<open>The receive state after the packet, and the tail of \<open>Pic_Data_Process\<close>.\<close>

lemma Pic_Data_Process_stored:
  assumes "taking c data n d" and "c \<in> {1, 2, 3}" and "p \<noteq> []" and "length p \<le> 512"
    and "Pic_page c + 1 + n < pic_limit c"
  shows "\<exists>r k s. rx_idle r \<and> storing c (data @ p) s \<and> pic_current_page s = Pic_page c + 1 + (n + 1) \<and>
    last_package r = (if end_mark p then 1 else 0) \<and> CameraData_Enable_485 r = 1 \<and>
    CameraData_Enable_485 (fold RxHandler_485 (camera_reply x y z p) (rs485 d)) = 1 \<and>
    Pic_Data_Process (d\<lparr>rs485 := fold RxHandler_485 (camera_reply x y z p) (rs485 d)\<rparr>) =
      (let e = d\<lparr>rs485 := r, CameraState := (CameraState d)\<lparr>block_counter := k, create_Flag := 0\<rparr>, st := s\<rparr>
       in if end_mark p then pic_done (pic_close e)
          else e\<lparr>CameraState := (CameraState e)\<lparr>cam_status := transfer_state, OperateFlag := 0\<rparr>,
                 rs485 := (rs485 e)\<lparr>TX_485const_Enable := 1, rx485_receiveflag := IDLE_485,
                   content_485 := replicate 600 0, content_wr_485 := 0\<rparr>\<rparr>)"
proof -
  have idle: "rx_idle (rs485 d)" and lp: "last_package (rs485 d) = 0" using assms(1) by (simp_all add: taking_def)
  obtain b where b: "fold RxHandler_485 (camera_reply x y z p) (rs485 d) = (rs485 d)\<lparr>rx485_RxLen := length p,
      dev_rx_485 := b, dev_wr_485 := 0, content_485 := splice 0 p (replicate 600 0),
      content_wr_485 := length p, CameraData_Enable_485 := 1, rx485_receiveflag := IDLE_485\<rparr>" (is "_ = ?rx")
    using camera_reply_rx [OF idle assms(3), of x y z] assms(4) by auto
  let ?r = "?rx\<lparr>PackageLen := length p, last_package := (if end_mark p then 1 else 0)\<rparr>"
  let ?k = "u16 (block_counter (CameraState d) + 1)"
  let ?e = "d\<lparr>rs485 := ?r, CameraState := (CameraState d)\<lparr>block_counter := ?k\<rparr>\<rparr>"
  have content: "take (length p) (splice 0 p (replicate 600 (0 :: u8))) = p"
    "length p = 512 \<Longrightarrow> splice 0 p (replicate 600 (0 :: u8)) ! 510 = p ! 510"
    "length p = 512 \<Longrightarrow> splice 0 p (replicate 600 (0 :: u8)) ! 511 = p ! 511"
    by (simp_all add: splice_def nth_append)
  obtain s where s: "pic_store (if create_Flag (CameraState ?e) = 1 then pic_create ?e else ?e) =
      d\<lparr>rs485 := ?r, CameraState := (CameraState d)\<lparr>block_counter := ?k, create_Flag := 0\<rparr>, st := s\<rparr>"
    "storing c (data @ p) s" "pic_current_page s = Pic_page c + 1 + (n + 1)"
    using packet_stored [OF assms(1,2,4,5), of ?r ?e ?k] content(1) by auto
  let ?m = "?rx\<lparr>PackageLen := length p\<rparr>"
  have mark: "mark_last ?m = ?r"
  proof (cases "length p < 512")
    case True
    then show ?thesis by (simp add: mark_last_def end_mark_def)
  next
    case False
    then have l: "length p = 512" using assms(4) by simp
    have "?m\<lparr>last_package := 0\<rparr> = ?m" using lp by simp
    with l show ?thesis using content(2,3) lp by (auto simp: mark_last_def end_mark_def)
  qed
  have "Pic_Data_Process (d\<lparr>rs485 := ?rx\<rparr>) =
      (let e = pic_store (if create_Flag (CameraState ?e) = 1 then pic_create ?e else ?e)
       in if last_package (rs485 e) = 1 then pic_done (pic_close e)
         else e\<lparr>CameraState := (CameraState e)\<lparr>cam_status := transfer_state, OperateFlag := 0\<rparr>,
                rs485 := (rs485 e)\<lparr>TX_485const_Enable := 1, rx485_receiveflag := IDLE_485,
                  content_485 := replicate 600 0, content_wr_485 := 0\<rparr>\<rparr>)"
    using mark by (simp add: Pic_Data_Process_def Let_def)
  then show ?thesis
    unfolding b s(1) using s(2,3)
    by (intro exI [of _ ?r] exI [of _ ?k] exI [of _ s]) (simp add: rx_idle_def Let_def)
qed

lemma packet_more:
  assumes "taking c data n d" and "c \<in> {1, 2, 3}" and "length p = 512" and "\<not> end_mark p"
    and "Pic_page c + 1 + n < pic_limit c"
  shows "taking c (data @ p) (n + 1) (line_packet x y z p d)"
    and "\<exists>cmd. out485 (line_packet x y z p d) = out485 d @ [cmd]"
proof -
  have "p \<noteq> []" "length p \<le> 512" using assms(3) by auto
  from Pic_Data_Process_stored [OF assms(1,2) this assms(5), of x y z] assms(4)
  obtain r k s where R: "rx_idle r" "storing c (data @ p) s" "pic_current_page s = Pic_page c + 1 + (n + 1)"
    "last_package r = 0" "CameraData_Enable_485 (fold RxHandler_485 (camera_reply x y z p) (rs485 d)) = 1"
    and P: "Pic_Data_Process (d\<lparr>rs485 := fold RxHandler_485 (camera_reply x y z p) (rs485 d)\<rparr>) =
      d\<lparr>st := s, CameraState := (CameraState d)\<lparr>block_counter := k, create_Flag := 0, cam_status := transfer_state,
           OperateFlag := 0\<rparr>,
        rs485 := r\<lparr>TX_485const_Enable := 1, rx485_receiveflag := IDLE_485,
           content_485 := replicate 600 0, content_wr_485 := 0\<rparr>\<rparr>"
    by (auto simp: Let_def)
  have L: "line_packet x y z p d =
      d\<lparr>st := s, out485 := out485 d @ [take 10 (Fectch_photo r)],
        CameraState := (CameraState d)\<lparr>block_counter := k, create_Flag := 0, cam_status := transfer_state,
           OperateFlag := 1, timeoutCounter := 0\<rparr>,
        rs485 := r\<lparr>content_485 := replicate 600 0, content_wr_485 := 0, CameraData_Enable_485 := 0,
           rx485_receiveflag := IDLE_485, TX_485const_Enable := 0\<rparr>\<rparr>"
    using R(5) by (simp add: line_packet_def thread_485_turn_def P Send_const485_def Let_def)
  show "taking c (data @ p) (n + 1) (line_packet x y z p d)"
    unfolding L using assms(1,3) R by (simp add: taking_def single_take_def rx_idle_def)
  show "\<exists>cmd. out485 (line_packet x y z p d) = out485 d @ [cmd]" unfolding L by simp
qed

lemma packet_last:
  assumes "taking c data n d" and "c \<in> {1, 2, 3}" and "p \<noteq> []" and "length p \<le> 512" and "end_mark p"
    and "Pic_page c + 1 + n < pic_limit c"
  shows "announced c (data @ p) (line_packet x y z p d)"
proof -
  from Pic_Data_Process_stored [OF assms(1-4,6), of x y z] assms(5)
  obtain r k s where R: "storing c (data @ p) s"
    "CameraData_Enable_485 (fold RxHandler_485 (camera_reply x y z p) (rs485 d)) = 1"
    and P: "Pic_Data_Process (d\<lparr>rs485 := fold RxHandler_485 (camera_reply x y z p) (rs485 d)\<rparr>) =
      pic_done (pic_close (d\<lparr>rs485 := r, CameraState := (CameraState d)\<lparr>block_counter := k, create_Flag := 0\<rparr>, st := s\<rparr>))"
    by (auto simp: Let_def)
  let ?e = "d\<lparr>rs485 := r, CameraState := (CameraState d)\<lparr>block_counter := k, create_Flag := 0\<rparr>, st := s\<rparr>"
  have st: "single_take c d" and len: "length data = n * 512" using assms(1) by (simp_all add: taking_def)
  note rng = Pic_page_range [OF assms(2)]
  have room: "(Pic_page c + 1) * 512 + length (data @ p) \<le> pic_limit c * 512"
    using assms(4,6) len by (simp add: algebra_simps)
  have small: "length (data @ p) \<le> 65536"
    using room assms(2) by (auto simp: Pic_page_def pic_limit_def)
  obtain s' where s': "pic_close ?e = ?e\<lparr>rs485 := (rs485 ?e)\<lparr>content_485 := replicate 600 0, content_wr_485 := 0\<rparr>, st := s',
      ans := (ans ?e)\<lparr>SingleCamra_TakeResualt_BD := 0, f_BD_CentreTakeAck_0805H := 1\<rparr>\<rparr>" (is "_ = ?f")
    "read_all nor_read ((Pic_page c + 1) * 512) (length (data @ p)) (flash s') = data @ p"
    "of_le32 (take 4 (drop 19 (DF_ReadFlash (Pic_page c) 0 23 (flash s')))) = length (data @ p)"
    using pic_close_stored [of ?e c "data @ p"] st assms(2) R(1) room by (auto simp: single_take_def)
  have "single_take c ?f" using st by (simp add: single_take_def)
  then have fin: "pic_done (pic_close ?e) = Photo_send_start c (End_Camera ?f)"
    unfolding s'(1) by (rule pic_done_single)
  let ?g = "Photo_send_start c (End_Camera ?f)"
  have ann: "announced c (data @ p) ?g"
    using st assms(2,3) small s'(2,3)
    by (intro Photo_send_start_announced) (simp_all add: End_Camera_def DwinLCD_work_Enable_def single_take_def)
  have idle: "cam_status (CameraState ?g) = other"
    by (simp add: Photo_send_start_def End_Camera_def DwinLCD_work_Enable_def Media_Start_Init_def
        Photo_send_end_def Media_Clear_State_def Let_def split: option.split prod.split)
  have "announced c (data @ p) (Send_const485 (?g\<lparr>rs485 := q\<rparr>))" for q
    using ann idle by (simp add: Send_const485_def announced_def Let_def)
  then show ?thesis
    using R(2) by (simp add: line_packet_def thread_485_turn_def P fin Let_def)
qed

text \<open>All packets of a picture, one after the other.\<close>

lemma packets_announced:
  assumes "taking c data n d" and "c \<in> {1, 2, 3}"
    and "\<forall>p \<in> set ps. length p = 512 \<and> \<not> end_mark p" and "q \<noteq> []" and "length q \<le> 512" and "end_mark q"
    and "Pic_page c + 1 + n + length ps < pic_limit c"
  shows "announced c (data @ concat ps @ q) (line_packet x y z q (fold (line_packet x y z) ps d))"
  using assms(1,3,7)
proof (induction ps arbitrary: data n d)
  case Nil
  then show ?case using packet_last [OF Nil.prems(1) assms(2,4-6)] by simp
next
  case (Cons p ps)
  have p: "length p = 512" "\<not> end_mark p" using Cons.prems(2) by simp_all
  have "taking c (data @ p) (n + 1) (line_packet x y z p d)"
    using Cons.prems(3) by (intro packet_more(1) [OF Cons.prems(1) assms(2) p]) simp
  from Cons.IH [OF this] Cons.prems(2,3) show ?case by simp
qed

text \<open>A terminal that is free to take a picture.\<close>

definition camera_free :: "device \<Rightarrow> bool" where
  "camera_free d =
     (Camera_Take_Enable d \<and> photo_sending (Photo_sdState d) = 0 \<and> camera_running (CameraState d) = 0 \<and>
      ISP_running_state d \<noteq> 1 \<and> rx_idle (rs485 d) \<and> CameraData_Enable_485 (rs485 d) = 0 \<and>
      \<not> (OpenDoor_StartTakeFlag d = 1 \<and> Opendoor_transFLAG d = 0) \<and> length (Take_photo (rs485 d)) = 10)"

lemma take_command:
  assumes "camera_free d" and "unat (rx ! 13) = c"
  shows "taking c [] 0 (thread_485_turn (TCP_RX_8801 rx d))"
    and "out485 (thread_485_turn (TCP_RX_8801 rx d)) = out485 d @ [(Take_photo (rs485 d))[4 := rx ! 13, 5 := 0x00]]"
proof -
  have b: "byte c = rx ! 13" using assms(2) by auto
  have "\<not> (c > Max_CameraNum \<and> c < 1)" by auto
  then show "taking c [] 0 (thread_485_turn (TCP_RX_8801 rx d))"
    "out485 (thread_485_turn (TCP_RX_8801 rx d)) = out485 d @ [(Take_photo (rs485 d))[4 := rx ! 13, 5 := 0x00]]"
    using assms b
    by (auto simp: camera_free_def Camera_Take_Enable_def TCP_RX_8801_def Start_Camera_def Photo_FetchCMD_Update_def
        Photo_TakeCMD_Update_def DwinLCD_work_Disable_def thread_485_turn_def Send_const485_def Let_def
        taking_def single_take_def rx_idle_def)
qed

section \<open>Properties\<close>

text \<open>
  A camera packet on the RS-485 line: when the bytes of a reply of up to 600 data bytes
  arrive one by one at an idle receiver, the interrupt handler delivers exactly the data, sets
  the flag for the thread and is idle again.
\<close>

theorem camera_reply_received:
  assumes "rx_idle r" and "data \<noteq> []" and "length data \<le> 600"
    and "r' = fold RxHandler_485 (camera_reply x y z data) r"
  shows "rx_idle r' \<and> CameraData_Enable_485 r' = 1 \<and> content_wr_485 r' = length data \<and>
    take (length data) (content_485 r') = data \<and> length (content_485 r') = 600"
proof -
  obtain b where "r' = r\<lparr>rx485_RxLen := length data,
    dev_rx_485 := b, dev_wr_485 := 0, content_485 := splice 0 data (replicate 600 0),
    content_wr_485 := length data, CameraData_Enable_485 := 1, rx485_receiveflag := IDLE_485\<rparr>"
    unfolding assms(4) using camera_reply_rx [OF assms(1,2), of x y z] assms(3) by auto
  then show ?thesis using assms(3) by (simp add: rx_idle_def splice_def)
qed

theorem camera_reply_received_witness:
  "content_wr_485 (fold RxHandler_485 (camera_reply 0xFF 0xFF 0 [1, 2, 3]) (rs485 (idle_device blank_store))) = 3"
proof -
  have "rx_idle (rs485 (idle_device blank_store))" by (simp add: rx_idle_def idle_device_def)
  from camera_reply_received [OF this _ _ refl, of "[1, 2, 3]" "0xFF" "0xFF" 0] show ?thesis by simp
qed

text \<open>
  (C25) From the command of the centre to the stored picture: a take command for camera 1, 2 or
  3 sends the take command with that camera on the line; when the camera's packets arrive
  (full packets, then a last one that is short or ends with the marker, as many as the erased
  part of the area holds), the stored picture is the concatenation of the packets, its size
  and number of packets are right, and its transmission is announced.
\<close>

theorem picture_taken_and_stored:
  assumes "camera_free d" and "unat (rx ! 13) = c" and "c \<in> {1, 2, 3}"
    and "\<forall>p \<in> set ps. length p = 512 \<and> \<not> end_mark p" and "q \<noteq> []" and "length q \<le> 512" and "end_mark q"
    and "Pic_page c + 1 + length ps < pic_limit c"
  shows "announced c (concat ps @ q)
      (line_packet x y z q (fold (line_packet x y z) ps (thread_485_turn (TCP_RX_8801 rx d)))) \<and>
    out485 (thread_485_turn (TCP_RX_8801 rx d)) = out485 d @ [(Take_photo (rs485 d))[4 := rx ! 13, 5 := 0x00]]"
  using packets_announced [OF take_command(1) [OF assms(1,2)] assms(3-7), of x y z]
    take_command(2) [OF assms(1,2)] assms(8) by simp

lemma idle_camera_free: "camera_free (Init_Camera (idle_device s))"
  by (simp add: camera_free_def Init_Camera_def Camera_Take_Enable_def idle_device_def idle_media_sd_def rx_idle_def)

theorem picture_taken_and_stored_witness:
  "announced 1 [1, 2, 3] (line_packet 0 0 0 [1, 2, 3]
     (thread_485_turn (TCP_RX_8801 (replicate 13 0 @ [1]) (Init_Camera (idle_device blank_store)))))"
  using picture_taken_and_stored [where d = "Init_Camera (idle_device blank_store)" and
      rx = "replicate 13 0 @ [1]" and c = 1 and ps = "[]" and q = "[1, 2, 3]" and x = 0 and y = 0 and z = 0]
    idle_camera_free
  by (simp add: nth_append end_mark_def Pic_page_def pic_limit_def)

text \<open>
  (C36) A new picture of camera 4 destroys the picture of camera 3: the first packet erases the
  block of the area of camera 3, so that every byte of a picture of up to 111 pages there reads
  as erased, while the area of camera 4 is not erased.
\<close>

theorem camera_4_erases_camera_3:
  assumes "Camera_Number d = 4" and "Pic_page 3 * 512 \<le> x" and "x < pic_limit 3 * 512"
    and "Pic_page 4 * 512 \<le> y" and "y < (Pic_page 4 + 128) * 512"
  shows "nor_read (flash (st (pic_create d))) x = 0xFF \<and>
    nor_read (flash (st (pic_create d))) y = nor_read (flash (st d)) y"
proof -
  let ?e = "d\<lparr>CameraState := (CameraState d)\<lparr>create_Flag := 0\<rparr>, st := (st d)\<lparr>PictureName := replicate 40 0\<rparr>\<rparr>"
  let ?s0 = "snd (DF_Read_RecordAdd (pic_write (st ?e)) (pic_read (st ?e)) TYPE_PhotoAdd (st ?e))"
  let ?s1 = "pic_erase 4 ?s0"
  let ?n = "dec (time_hour d) @ dec (time_min d) @ dec (time_sec d) @ [0x2D] @ dec 4 @ ascii ''.jpg''"
  let ?s2 = "?s1\<lparr>pic_current_page := u32 (pic_current_page ?s1 + 1), pic_PageIn_offset := 0, pic_size := 0,
      PictureName := splice 0 ?n (replicate 40 0)\<rparr>"
  have eq: "pic_create d = snd (Save_MediaIndex 0 (PictureName ?s2) 4 0 (?e\<lparr>st := ?s2\<rparr>))"
    using assms(1) by (simp add: pic_create_def Let_def)
  obtain f where f: "Save_MediaIndex 0 (PictureName ?s2) 4 0 (?e\<lparr>st := ?s2\<rparr>) = (True, ?e\<lparr>st := ?s2\<lparr>flash := f\<rparr>\<rparr>)"
    "\<And>x. 2097152 \<le> x \<Longrightarrow> x < chip_size \<Longrightarrow> nor_read f x = nor_read (flash ?s2) x"
    using Save_MediaIndex_pic [of "PictureName ?s2" 4 0 "?e\<lparr>st := ?s2\<rparr>"] by auto
  have rng: "2097152 \<le> x" "x < chip_size" "2097152 \<le> y" "y < chip_size"
    using assms(2-5) by (simp_all add: Pic_page_def pic_limit_def chip_size_def)
  have fl: "flash ?s0 = flash (st d)"
    by (simp add: DF_Read_RecordAdd_def RecordAdd_Page_def RecordAdd_result_def split: prod.split)
  have er: "nor_read (flash ?s1) v = (if 37 * 65536 \<le> v \<and> v < 37 * 65536 + 65536 then 0xFF else nor_read (flash (st d)) v)"
    if "v < chip_size" for v
    using nor_read_erase_block [OF that, of "PicStart_offset3 * 512" 65536 37 "flash (st d)"] fl
    by (simp add: pic_erase_def pic_page_def Api_DFdirectory_Delete_def chip_size_def)
  have "nor_read f x = 0xFF" "nor_read f y = nor_read (flash (st d)) y"
    using f(2) [OF rng(1,2)] f(2) [OF rng(3,4)] er [OF rng(2)] er [OF rng(4)] assms(2-5)
    by (simp_all add: Pic_page_def pic_limit_def)
  then show ?thesis unfolding eq f(1) by simp
qed

theorem camera_4_erases_camera_3_witness:
  "nor_read (flash (st (pic_create ((idle_device (blank_store\<lparr>flash := \<lambda>_. 0\<rparr>))\<lparr>Camera_Number := 4\<rparr>)))) 2433536 = 0xFF \<and>
   nor_read (flash (st (pic_create ((idle_device (blank_store\<lparr>flash := \<lambda>_. 0\<rparr>))\<lparr>Camera_Number := 4\<rparr>)))) 2600960 = 0"
  using camera_4_erases_camera_3 [of "(idle_device (blank_store\<lparr>flash := \<lambda>_. 0\<rparr>))\<lparr>Camera_Number := 4\<rparr>" 2433536 2600960]
  by (simp add: Pic_page_def pic_limit_def nor_read_def)

section \<open>Cameras that do not answer\<close>

text \<open>
  A round without an answer: seven seconds of supervision, then the thread sends what is
  pending.
\<close>

definition silent_round :: "device \<Rightarrow> device" where
  "silent_round d = Send_const485 ((Camra_Take_Exception ^^ 7) d)"

definition off_and_on :: "device \<Rightarrow> device" where
  "off_and_on d = (End_Camera d)\<lparr>rs485 := (rs485 (End_Camera d))\<lparr>Power_485CH1 := True\<rparr>\<rparr>"

lemma Camra_Take_Exception_step:
  assumes "camera_running C = 1" and "t < 6"
  shows "\<exists>b'. Camra_Take_Exception (d\<lparr>CameraState := C\<lparr>timeoutCounter := t\<rparr>, rs485 := r\<lparr>Power_485CH1 := b\<rparr>\<rparr>) =
    d\<lparr>CameraState := C\<lparr>timeoutCounter := Suc t\<rparr>, rs485 := r\<lparr>Power_485CH1 := b'\<rparr>\<rparr>"
proof -
  consider "t < 3" | "t = 3" | "t = 4" | "t = 5" using assms(2) by linarith
  then show ?thesis
  proof cases
    case 1
    with assms(1) show ?thesis
      by (intro exI [of _ b]) (simp add: Camra_Take_Exception_def u16_small Let_def)
  next
    case 2
    with assms(1) show ?thesis
      by (intro exI [of _ False]) (simp add: Camra_Take_Exception_def u16_small Let_def)
  next
    case 3
    with assms(1) show ?thesis
      by (intro exI [of _ True]) (simp add: Camra_Take_Exception_def u16_small Let_def)
  next
    case 4
    with assms(1) show ?thesis
      by (intro exI [of _ b]) (simp add: Camra_Take_Exception_def u16_small Let_def)
  qed
qed

lemma Camra_Take_Exception_count:
  assumes "camera_running (CameraState d) = 1" and "timeoutCounter (CameraState d) + k \<le> 6"
  shows "\<exists>b. (Camra_Take_Exception ^^ k) d = d\<lparr>CameraState := (CameraState d)
      \<lparr>timeoutCounter := timeoutCounter (CameraState d) + k\<rparr>, rs485 := (rs485 d)\<lparr>Power_485CH1 := b\<rparr>\<rparr>"
  using assms(2)
proof (induction k)
  case 0
  show ?case by (intro exI [of _ "Power_485CH1 (rs485 d)"]) simp
next
  case (Suc k)
  then obtain b where "(Camra_Take_Exception ^^ k) d = d\<lparr>CameraState := (CameraState d)
      \<lparr>timeoutCounter := timeoutCounter (CameraState d) + k\<rparr>, rs485 := (rs485 d)\<lparr>Power_485CH1 := b\<rparr>\<rparr>" by auto
  then show ?case
    using Camra_Take_Exception_step [OF assms(1), where t = "timeoutCounter (CameraState d) + k" and
        d = d and r = "rs485 d" and b = b] Suc.prems
    by simp
qed

lemma seven_seconds:
  assumes "camera_running (CameraState d) = 1" and "timeoutCounter (CameraState d) = 0"
  shows "(Camra_Take_Exception ^^ 7) d = take_failed (off_and_on d)"
proof -
  obtain b where b: "(Camra_Take_Exception ^^ 6) d = d\<lparr>CameraState := (CameraState d)
      \<lparr>timeoutCounter := 6\<rparr>, rs485 := (rs485 d)\<lparr>Power_485CH1 := b\<rparr>\<rparr>"
    using Camra_Take_Exception_count [of d 6] assms by auto
  have "(Camra_Take_Exception ^^ 7) d = Camra_Take_Exception ((Camra_Take_Exception ^^ 6) d)"
    by (simp add: numeral_eq_Suc)
  also have "\<dots> = take_failed (off_and_on d)"
    unfolding b using assms
    by (simp add: Camra_Take_Exception_def u16_small Let_def off_and_on_def End_Camera_def DwinLCD_work_Enable_def)
  finally show ?thesis .
qed

text \<open>Starting the camera on a free line and sending the command.\<close>

definition line_free :: "device \<Rightarrow> bool" where
  "line_free d =
     (camera_running (CameraState d) = 0 \<and> photo_sending (Photo_sdState d) = 0 \<and> ISP_running_state d \<noteq> 1 \<and>
      length (Take_photo (rs485 d)) = 10)"

definition commands :: "device \<Rightarrow> bytes" where
  "commands d = map (\<lambda>m. m ! 4) (out485 d)"

lemma start_and_send:
  assumes "line_free d" and "d' = Send_const485 (snd (Start_Camera c d))"
  shows "camera_running (CameraState d') = 1" "timeoutCounter (CameraState d') = 0"
    "commands d' = commands d @ [byte c]" "MultiTake d' = MultiTake d" "Camera_Number d' = Camera_Number d"
    "photo_sending (Photo_sdState d') = 0" "ISP_running_state d' \<noteq> 1" "length (Take_photo (rs485 d')) = 10"
    "SingleCamera_TakeRetry d' = SingleCamera_TakeRetry d" "ans d' = ans d"
  unfolding assms(2) using assms(1)
  by (simp_all add: line_free_def Start_Camera_def Photo_FetchCMD_Update_def Photo_TakeCMD_Update_def
      DwinLCD_work_Disable_def Send_const485_def commands_def Let_def)

lemma off_and_on_fields:
  "camera_running (CameraState (off_and_on d)) = 0" "Photo_sdState (off_and_on d) = Photo_sdState d"
  "ISP_running_state (off_and_on d) = ISP_running_state d" "Take_photo (rs485 (off_and_on d)) = Take_photo (rs485 d)"
  "MultiTake (off_and_on d) = MultiTake d" "Camera_Number (off_and_on d) = Camera_Number d"
  "SingleCamera_TakeRetry (off_and_on d) = SingleCamera_TakeRetry d" "ans (off_and_on d) = ans d"
  "commands (off_and_on d) = commands d" "cam_status (CameraState (off_and_on d)) = other"
  "out485 (off_and_on d) = out485 d"
  by (simp_all add: off_and_on_def End_Camera_def DwinLCD_work_Enable_def commands_def)

text \<open>A running try: camera \<open>c\<close> has failed \<open>r\<close> times.\<close>

definition trying :: "device \<Rightarrow> bool" where
  "trying d =
     (camera_running (CameraState d) = 1 \<and> timeoutCounter (CameraState d) = 0 \<and>
      photo_sending (Photo_sdState d) = 0 \<and> ISP_running_state d \<noteq> 1 \<and> length (Take_photo (rs485 d)) = 10)"

definition multi_try :: "nat \<Rightarrow> nat \<Rightarrow> device \<Rightarrow> bool" where
  "multi_try c r d =
     (trying d \<and> Taking (MultiTake d) = 1 \<and> Camera_Number d = c \<and> Take_retry (MultiTake d) = r \<and>
      length (TakeResult (MultiTake d)) = 4 \<and> Take_Success \<notin> set (TakeResult (MultiTake d)))"

lemma trying_off: "trying d \<Longrightarrow> line_free (off_and_on d)"
  by (simp add: trying_def line_free_def off_and_on_fields)

lemma trying_start:
  assumes "line_free d" and "d' = Send_const485 (snd (Start_Camera c d))"
  shows "trying d'"
  using start_and_send [OF assms] by (simp add: trying_def)

lemma multi_try_again:
  assumes "multi_try c r d" and "1 \<le> c" and "c \<le> 4" and "r < 2"
  shows "multi_try c (r + 1) (silent_round d)" and "commands (silent_round d) = commands d @ [byte c]"
proof -
  let ?e = "(off_and_on d)\<lparr>MultiTake := (MultiTake d)\<lparr>Take_retry := r + 1\<rparr>\<rparr>"
  have c: "Camera_Number (off_and_on d) \<in> {1, 2, 3, 4}"
    using assms(1-3) by (auto simp: multi_try_def off_and_on_fields)
  have "(Camra_Take_Exception ^^ 7) d = take_failed (off_and_on d)"
    using assms(1) by (intro seven_seconds) (simp_all add: multi_try_def trying_def)
  also have "\<dots> = snd (Start_Camera c ?e)"
    using assms(1,4) c
    by (simp add: take_failed_def MultiTake_Exception_def multi_try_def off_and_on_fields u8n_small Let_def)
  finally have s: "silent_round d = Send_const485 (snd (Start_Camera c ?e))" by (simp add: silent_round_def)
  have free: "line_free ?e" using trying_off [of d] assms(1) by (simp add: multi_try_def line_free_def)
  note st = start_and_send [OF free s]
  have "trying (silent_round d)" using free s by (rule trying_start)
  then show "multi_try c (r + 1) (silent_round d)"
    using assms(1) st by (simp add: multi_try_def off_and_on_fields)
  show "commands (silent_round d) = commands d @ [byte c]"
    using st(3) by (simp add: commands_def off_and_on_fields)
qed

lemma multi_try_next:
  assumes "multi_try c 2 d" and "1 \<le> c" and "c < 4"
  shows "multi_try (c + 1) 0 (silent_round d)" and "commands (silent_round d) = commands d @ [byte (c + 1)]"
proof -
  let ?e = "(off_and_on d)\<lparr>MultiTake := (MultiTake d)\<lparr>TakeResult := (TakeResult (MultiTake d))[c - 1 := Take_Fail],
    Take_retry := 0\<rparr>, Camera_Number := c + 1\<rparr>"
  have c: "Camera_Number (off_and_on d) \<in> {1, 2, 3, 4}" "c \<noteq> 4"
    using assms(1-3) by (auto simp: multi_try_def off_and_on_fields)
  have "(Camra_Take_Exception ^^ 7) d = take_failed (off_and_on d)"
    using assms(1) by (intro seven_seconds) (simp_all add: multi_try_def trying_def)
  also have "\<dots> = snd (Start_Camera (c + 1) ?e)"
    using assms(1) c
    by (simp add: take_failed_def MultiTake_Exception_def multi_try_def off_and_on_fields u8n_small Let_def)
  finally have s: "silent_round d = Send_const485 (snd (Start_Camera (c + 1) ?e))" by (simp add: silent_round_def)
  have free: "line_free ?e" using trying_off [of d] assms(1) by (simp add: multi_try_def line_free_def)
  note st = start_and_send [OF free s]
  have "trying (silent_round d)" using free s by (rule trying_start)
  moreover have "Take_Success \<notin> set ((TakeResult (MultiTake d))[c - 1 := Take_Fail])"
    using assms(1) set_update_subset_insert [of "TakeResult (MultiTake d)" "c - 1" Take_Fail]
    by (auto simp: multi_try_def)
  ultimately show "multi_try (c + 1) 0 (silent_round d)"
    using assms(1) st by (simp add: multi_try_def off_and_on_fields)
  show "commands (silent_round d) = commands d @ [byte (c + 1)]"
    using st(3) by (simp add: commands_def off_and_on_fields)
qed

lemma multi_try_end:
  assumes "multi_try 4 2 d"
  shows "Camera_Take_Enable (silent_round d)" "camera_running (CameraState (silent_round d)) = 0"
    "commands (silent_round d) = commands d"
proof -
  let ?t = "(TakeResult (MultiTake d))[3 := Take_Fail]"
  have "Take_Success \<notin> set ?t"
    using assms set_update_subset_insert [of "TakeResult (MultiTake d)" 3 Take_Fail] by (auto simp: multi_try_def)
  then have none: "filter (\<lambda>r. r = Take_Success) (take Max_CameraNum ?t) = []"
    using set_take_subset [of Max_CameraNum ?t] by (auto simp: filter_empty_conv)
  have "(Camra_Take_Exception ^^ 7) d = take_failed (off_and_on d)"
    using assms by (intro seven_seconds) (simp_all add: multi_try_def trying_def)
  also have "\<dots> = MultiTake_End ((off_and_on d)\<lparr>MultiTake := (MultiTake d)\<lparr>TakeResult := ?t, Take_retry := 0,
      Taking := 0, Take_success_counter := 0\<rparr>\<rparr>)"
    using assms none
    by (simp add: take_failed_def MultiTake_Exception_def multi_try_def off_and_on_fields u8n_small
        Check_MultiTakeResult_b4Trans_def Let_def)
  finally show "Camera_Take_Enable (silent_round d)" "camera_running (CameraState (silent_round d)) = 0"
    "commands (silent_round d) = commands d"
    by (simp_all add: silent_round_def MultiTake_End_def Send_const485_def Camera_Take_Enable_def
        off_and_on_fields commands_def Let_def)
qed

text \<open>All tries of the cameras \<open>c\<close> to 4, from the first failure on.\<close>

lemma multi_tries:
  assumes "multi_try c 0 d" and "1 \<le> c" and "c \<le> 4"
  shows "(if c < 4 then multi_try (c + 1) 0 ((silent_round ^^ 3) d)
     else Camera_Take_Enable ((silent_round ^^ 3) d) \<and> camera_running (CameraState ((silent_round ^^ 3) d)) = 0)"
    and "commands ((silent_round ^^ 3) d) =
      commands d @ [byte c, byte c] @ (if c < 4 then [byte (c + 1)] else [])"
proof -
  let ?d1 = "silent_round d" and ?d2 = "silent_round (silent_round d)"
  have one: "multi_try c 1 ?d1" "commands ?d1 = commands d @ [byte c]"
    using multi_try_again [OF assms] by simp_all
  have two: "multi_try c 2 ?d2" "commands ?d2 = commands d @ [byte c, byte c]"
    using multi_try_again [OF one(1) assms(2,3)] one(2) by (simp_all add: numeral_2_eq_2)
  have three: "(silent_round ^^ 3) d = silent_round ?d2" by (simp add: numeral_3_eq_3)
  show "(if c < 4 then multi_try (c + 1) 0 ((silent_round ^^ 3) d)
     else Camera_Take_Enable ((silent_round ^^ 3) d) \<and> camera_running (CameraState ((silent_round ^^ 3) d)) = 0)"
    "commands ((silent_round ^^ 3) d) = commands d @ [byte c, byte c] @ (if c < 4 then [byte (c + 1)] else [])"
    unfolding three using multi_try_next [of c ?d2] multi_try_end [of ?d2] two assms(2,3)
    by (cases "c < 4"; simp)+
qed

text \<open>
  A take of all four cameras ends even when no camera answers: each camera gets exactly
  three take commands, in the order of the cameras, and after twelve rounds of seven seconds
  the terminal is free to take pictures again.
\<close>

theorem multi_take_gives_up:
  assumes "line_free d" and "d' = (silent_round ^^ 12) (Send_const485 (MultiTake_Start d))"
  shows "Camera_Take_Enable d' \<and> camera_running (CameraState d') = 0 \<and>
    commands d' = commands d @ [1, 1, 1, 2, 2, 2, 3, 3, 3, 4, 4, 4]"
proof -
  let ?e = "d\<lparr>MultiTake := (MultiTake d)\<lparr>Taking := 1, Transfering := 0, CurretCameraNum := 1,
      TakeResult := replicate Max_CameraNum Take_idle, Take_retry := 0, Take_success_counter := 0\<rparr>, Camera_Number := 1\<rparr>"
  have "Send_const485 (X\<lparr>SingleCamera_TakeRetry := 0\<rparr>) = (Send_const485 X)\<lparr>SingleCamera_TakeRetry := 0\<rparr>" for X
    by (simp add: Send_const485_def Let_def)
  then have s: "Send_const485 (MultiTake_Start d) = (Send_const485 (snd (Start_Camera 1 ?e)))\<lparr>SingleCamera_TakeRetry := 0\<rparr>"
    by (simp add: MultiTake_Start_def Let_def)
  have free: "line_free ?e" using assms(1) by (simp add: line_free_def)
  note st = start_and_send [OF free refl, of 1]
  let ?s = "Send_const485 (MultiTake_Start d)"
  have t0: "multi_try 1 0 ?s" "commands ?s = commands d @ [1]"
    unfolding s using st by (simp_all add: multi_try_def trying_def commands_def)
  let ?r = "silent_round ^^ 3"
  have t1: "multi_try 2 0 (?r ?s)" "commands (?r ?s) = commands d @ [1, 1, 1, 2]"
    using multi_tries [OF t0(1)] t0(2) by (simp_all add: numeral_2_eq_2)
  have t2: "multi_try 3 0 (?r (?r ?s))" "commands (?r (?r ?s)) = commands d @ [1, 1, 1, 2, 2, 2, 3]"
    using multi_tries [OF t1(1)] t1(2) by simp_all
  have t3: "multi_try 4 0 (?r (?r (?r ?s)))" "commands (?r (?r (?r ?s))) = commands d @ [1, 1, 1, 2, 2, 2, 3, 3, 3, 4]"
    using multi_tries [OF t2(1)] t2(2) by simp_all
  have "d' = ?r (?r (?r (?r ?s)))"
    unfolding assms(2) using funpow_add [of 3 9 silent_round] funpow_add [of 3 6 silent_round]
      funpow_add [of 3 3 silent_round] by simp
  then show ?thesis using multi_tries [OF t3(1)] t3(2) by simp
qed

theorem multi_take_gives_up_witness:
  "commands ((silent_round ^^ 12) (Send_const485 (MultiTake_Start (Init_Camera (idle_device blank_store))))) =
     [1, 1, 1, 2, 2, 2, 3, 3, 3, 4, 4, 4]"
proof -
  have "line_free (Init_Camera (idle_device blank_store))"
    by (simp add: line_free_def Init_Camera_def idle_device_def idle_media_sd_def)
  moreover have "commands (Init_Camera (idle_device blank_store)) = []"
    by (simp add: commands_def Init_Camera_def idle_device_def)
  ultimately show ?thesis using multi_take_gives_up [OF _ refl] by simp
qed

text \<open>A try of a single camera that has failed \<open>r\<close> times.\<close>

definition single_try :: "nat \<Rightarrow> device \<Rightarrow> bool" where
  "single_try r d = (trying d \<and> Taking (MultiTake d) \<noteq> 1 \<and> SingleCamera_TakeRetry d = r)"

lemma single_try_again:
  assumes "single_try r d" and "r < 2"
  shows "single_try (r + 1) (silent_round d)" "ans (silent_round d) = ans d"
    "commands (silent_round d) = commands d @ [byte (Camera_Number d)]" "Camera_Number (silent_round d) = Camera_Number d"
proof -
  let ?e = "(off_and_on d)\<lparr>SingleCamera_TakeRetry := r + 1\<rparr>"
  have "(Camra_Take_Exception ^^ 7) d = take_failed (off_and_on d)"
    using assms(1) by (intro seven_seconds) (simp_all add: single_try_def trying_def)
  also have "\<dots> = snd (Start_Camera (Camera_Number d) ?e)"
    using assms by (simp add: take_failed_def single_try_def off_and_on_fields u8n_small Let_def)
  finally have s: "silent_round d = Send_const485 (snd (Start_Camera (Camera_Number d) ?e))"
    by (simp add: silent_round_def)
  have free: "line_free ?e" using trying_off [of d] assms(1) by (simp add: single_try_def line_free_def)
  note st = start_and_send [OF free s]
  have "trying (silent_round d)" using free s by (rule trying_start)
  then show "single_try (r + 1) (silent_round d)"
    using assms(1) st by (simp add: single_try_def off_and_on_fields)
  show "ans (silent_round d) = ans d" "Camera_Number (silent_round d) = Camera_Number d"
    "commands (silent_round d) = commands d @ [byte (Camera_Number d)]"
    using st by (simp_all add: off_and_on_fields commands_def)
qed

lemma single_try_end:
  assumes "single_try 2 d"
  shows "camera_running (CameraState (silent_round d)) = 0" "cam_status (CameraState (silent_round d)) = other"
    "ans (silent_round d) = (ans d)\<lparr>SingleCamra_TakeResualt_BD := 1\<rparr>" "commands (silent_round d) = commands d"
proof -
  have "(Camra_Take_Exception ^^ 7) d = take_failed (off_and_on d)"
    using assms by (intro seven_seconds) (simp_all add: single_try_def trying_def)
  also have "\<dots> = (off_and_on d)\<lparr>SingleCamera_TakeRetry := 0, ans := (ans d)\<lparr>SingleCamra_TakeResualt_BD := 1\<rparr>\<rparr>"
    using assms by (simp add: take_failed_def single_try_def off_and_on_fields u8n_small Let_def)
  finally show "camera_running (CameraState (silent_round d)) = 0" "cam_status (CameraState (silent_round d)) = other"
    "ans (silent_round d) = (ans d)\<lparr>SingleCamra_TakeResualt_BD := 1\<rparr>" "commands (silent_round d) = commands d"
    by (simp_all add: silent_round_def Send_const485_def off_and_on_fields commands_def Let_def)
qed

text \<open>
  A single take that is not answered stops after three tries with the failure recorded,
  but the flag that makes the terminal report the result to the centre keeps its value: the
  centre is told of successes only.
\<close>

theorem single_take_gives_up:
  assumes "single_try 0 d" and "d' = (silent_round ^^ 3) d"
  shows "camera_running (CameraState d') = 0 \<and> cam_status (CameraState d') = other \<and>
    commands d' = commands d @ [byte (Camera_Number d), byte (Camera_Number d)] \<and>
    SingleCamra_TakeResualt_BD (ans d') = 1 \<and> f_BD_CentreTakeAck_0805H (ans d') = f_BD_CentreTakeAck_0805H (ans d)"
proof -
  let ?d1 = "silent_round d" and ?d2 = "silent_round (silent_round d)"
  have "d' = silent_round ?d2" unfolding assms(2) by (simp add: numeral_3_eq_3)
  moreover note a = single_try_again [OF assms(1)]
  moreover have "single_try 1 ?d1" using a(1) by simp
  note b = single_try_again [OF this]
  moreover have "single_try 2 ?d2" using b(1) by (simp add: numeral_2_eq_2)
  note single_try_end [OF this]
  ultimately show ?thesis by simp
qed

theorem single_take_gives_up_witness:
  "SingleCamra_TakeResualt_BD (ans ((silent_round ^^ 3) (Send_const485
     (snd (Start_Camera 1 (Init_Camera (idle_device blank_store))))))) = 1"
proof -
  let ?d = "Init_Camera (idle_device blank_store)"
  have free: "line_free ?d" and m: "Taking (MultiTake ?d) = 0" "SingleCamera_TakeRetry ?d = 0"
    by (simp_all add: line_free_def Init_Camera_def idle_device_def idle_media_sd_def)
  have "single_try 0 (Send_const485 (snd (Start_Camera 1 ?d)))"
    using trying_start [OF free refl, of 1] start_and_send(4,9) [OF free refl, of 1] m
    by (simp add: single_try_def)
  from single_take_gives_up [OF this refl] show ?thesis by simp
qed

end
