(* ===== verification/Photo_Path.thy ===== *)
theory Photo_Path
  imports Camera
begin

text \<open>
  The way of a picture through the components: the camera side (\<^verbatim>\<open>Camera\<close>) ends with an announced
  picture, the sending side (\<^verbatim>\<open>Media\<close>) starts from one. The lemmas here show that taking a picture
  leaves alone what sending needs, and that the announcement leads to the first packet.
\<close>

section \<open>From a take command to the centre\<close>

text \<open>What the sending side needs and the camera side leaves alone.\<close>

definition env where
  "env d = (terminal d, gps d, DEV_Login_Operate_enable d, DataLink_OK d, Sound_sdState d, Video_sdState d,
     Data_SD_counter (Photo_sdState d), Duomeiti_sdFlag d, tx d)"

lemma env_send_start [simp]: "env (Photo_send_start n d) = env d"
  by (simp add: env_def Photo_send_start_def Photo_send_end_def Media_Clear_State_def Media_Start_Init_def
      started_def cleared_def Let_def split: option.split prod.split)

lemma env_start_camera [simp]: "env (snd (Start_Camera c d)) = env d"
  by (simp add: env_def Start_Camera_def Photo_TakeCMD_Update_def Photo_FetchCMD_Update_def
      DwinLCD_work_Disable_def Let_def)

lemma env_multi [simp]: "env (MultiTake_End d) = env d" "env (snd (Check_MultiTakeResult_b4Trans d)) = env d"
proof -
  show e: "env (MultiTake_End d) = env d" for d by (simp add: env_def MultiTake_End_def)
  show "env (snd (Check_MultiTakeResult_b4Trans d)) = env d"
    by (simp add: Check_MultiTakeResult_b4Trans_def Let_def e) (simp add: env_def)
qed

lemma env_updates [simp]:
  "env (d\<lparr>rs485 := r\<rparr>) = env d" "env (d\<lparr>CameraState := cs\<rparr>) = env d" "env (d\<lparr>MultiTake := m\<rparr>) = env d"
  "env (d\<lparr>Camera_Number := n\<rparr>) = env d" "env (d\<lparr>OpenDoor_StartTakeFlag := n\<rparr>) = env d"
  "env (d\<lparr>st := s\<rparr>) = env d" "env (d\<lparr>ans := a\<rparr>) = env d" "env (d\<lparr>out485 := os\<rparr>) = env d"
  "env (d\<lparr>SingleCamera_TakeRetry := n\<rparr>) = env d"
  by (simp_all add: env_def)

lemma env_pic_done [simp]: "env (pic_done d) = env d"
proof -
  have "env (snd (CHKendTake_ReadyToSend d)) = env d" for d
    by (simp add: CHKendTake_ReadyToSend_def Let_def)
  then have "env (multi_success d) = env d" for d
    by (auto simp: multi_success_def Let_def split: prod.split bool.split dest: arg_cong [of _ _ snd])
       (metis env_updates(3) snd_conv)+
  then show ?thesis
    by (simp add: pic_done_def Let_def) (simp add: End_Camera_def DwinLCD_work_Enable_def)
qed

lemma env_turn [simp]: "env (thread_485_turn d) = env d"
proof -
  have "env (pic_create d) = env d" for d
    by (simp add: pic_create_def Save_MediaIndex_def Let_def)
  moreover have "env (pic_store d) = env d" "env (pic_close d) = env d" for d
    by (simp_all add: pic_store_def pic_close_def Let_def)
  ultimately have "env (Pic_Data_Process d) = env d" for d
    by (simp add: Pic_Data_Process_def Let_def)
  moreover have "env (Send_const485 d) = env d" for d
    by (simp add: Send_const485_def Let_def)
  ultimately show ?thesis by (simp add: thread_485_turn_def Let_def)
qed

lemma env_take:
  "env (line_packet x y z q (fold (line_packet x y z) ps (thread_485_turn (TCP_RX_8801 rx d)))) = env d"
proof -
  have l: "env (line_packet x y z p d) = env d" for p d by (simp add: line_packet_def)
  have "env (fold (line_packet x y z) ps d) = env d" for d by (induction ps arbitrary: d) (simp_all add: l)
  moreover have "env (TCP_RX_8801 rx d) = env d" by (simp add: TCP_RX_8801_def Let_def)
  ultimately show ?thesis by (simp add: l)
qed


text \<open>A terminal that can send pictures: logged in, the link up, nothing else being sent.\<close>

definition can_send :: "device \<Rightarrow> bool" where
  "can_send d =
     (length (SIM_code (terminal d)) = 6 \<and> length (current_position (gps d)) = 28 \<and>
      DEV_Login_Operate_enable d = 2 \<and> DataLink_OK d \<and> no_other_media d \<and>
      Data_SD_counter (Photo_sdState d) = 0 \<and> Duomeiti_sdFlag d \<noteq> 1)"

lemma can_send_env: "env d = env d' \<Longrightarrow> can_send d = can_send d'"
  by (simp add: env_def can_send_def no_other_media_def)

text \<open>
  The announcement of the picture and the two seconds after it, in which the terminal
  behaves as if the centre had answered, bring it to the start of the transmission.
\<close>

lemma InfoSD_0800H_sent:
  assumes "Media_Type (MediaObj d) = 0" and "d' = snd (Stuff_MultiMedia_InfoSD_0800H d)"
  obtains g where "nobuf d' = (nobuf d)\<lparr>MediaObj := MediaObj d', tx := tx d @ [(g, 0)], Msg_Float_ID := Msg_Float_ID d'\<rparr>"
    and "Media_Type (MediaObj d') = 0"
proof -
  obtain h where h: "Protocol_Head 0x0800 Packet_Normal d = (True, h)" "nobuf h = nobuf d"
    by (simp add: Protocol_Head_def Let_def)
  let ?m = "photo_packet h"
  have f: "MediaObj h = MediaObj d" "tx h = tx d" using h(2) by (metis nobuf_fields)+
  have d': "d' = Protocol_End Packet_Normal 0 (put (media_desc ?m) ?m)"
    unfolding assms(2) Stuff_MultiMedia_InfoSD_0800H_def h(1) using assms(1) f by (simp add: Let_def)
  have "nobuf ?m = (nobuf d)\<lparr>MediaObj := MediaObj ?m\<rparr>" using h(2) by (simp add: media_packet_def)
  moreover obtain g where "tx d' = tx d @ [(g, 0)]"
    unfolding d' using f(2) by (simp add: Protocol_End_def media_packet_def Let_def)
  moreover have "MediaObj d' = MediaObj ?m" "Msg_Float_ID d' = u16 (Msg_Float_ID (put (media_desc ?m) ?m) + 1)"
    unfolding d' by (simp_all add: Protocol_End_def Let_def)
  ultimately show ?thesis
    using f(1) assms(1) by (intro that [of g]) (simp_all add: d' nobuf_Protocol_End media_packet_def)
qed

lemma nobuf_Duomeiti [simp]: "Duomeiti_sdFlag (nobuf d) = Duomeiti_sdFlag d"
  by (simp add: nobuf_def)

lemma two_seconds:
  assumes "SD_media_Flag (MediaObj e) = 2" and "Media_Type (MediaObj e) = 0" and "Duomeiti_sdFlag e \<noteq> 1"
    and "d' = media_second (media_second e)"
  shows "RSD_State (MediaObj d') = 0" "Media_transmittingFlag (MediaObj d') = 2" "SD_Data_Flag (MediaObj d') = 0"
    "Media_Type (MediaObj d') = 0"
    "Photo_sdState d' = (Photo_sdState e)\<lparr>photo_sending := 1, SD_packetNum := 1\<rparr>"
    "st d' = (st e)\<lparr>PositionInfo_sdFlag := 1, Current_UDP_sd := 1\<rparr>"
    "env (d'\<lparr>Photo_sdState := Photo_sdState e\<rparr>) = env e" "Camera_Number d' = Camera_Number e"
proof -
  show "RSD_State (MediaObj d') = 0" "Media_transmittingFlag (MediaObj d') = 2" "SD_Data_Flag (MediaObj d') = 0"
    "Media_Type (MediaObj d') = 0"
    "Photo_sdState d' = (Photo_sdState e)\<lparr>photo_sending := 1, SD_packetNum := 1\<rparr>"
    "st d' = (st e)\<lparr>PositionInfo_sdFlag := 1, Current_UDP_sd := 1\<rparr>"
    "env (d'\<lparr>Photo_sdState := Photo_sdState e\<rparr>) = env e" "Camera_Number d' = Camera_Number e"
    unfolding assms(4) using assms(1-3)
    by (cases "Media_transmittingFlag (MediaObj e) = 1";
        simp add: media_second_def Multimedia_0800H_ACK_process_def PositionSD_Enable_def Media_Clear_State_def
          env_def Let_def)+
qed

lemma announced_sending:
  assumes "announced c data d" and "can_send d" and "c \<in> {1, 2, 3, 4}" and "data \<noteq> []" and "length data \<le> 65536"
    and "d' = media_second (media_second (snd (send_media_info d)))"
  shows "in_sequence 0 d'" "can_send d'" "stored_picture (Camera_Number d') (st d') = data"
    "PicFileSize (st d') = length data" "\<exists>g. tx d' = tx d @ [(g, 0)]"
proof -
  let ?i = "snd (Stuff_MultiMedia_InfoSD_0800H d)"
  have ty: "Media_Type (MediaObj d) = 0" using assms(1) by (simp add: announced_def)
  obtain g where g: "nobuf ?i = (nobuf d)\<lparr>MediaObj := MediaObj ?i, tx := tx d @ [(g, 0)], Msg_Float_ID := Msg_Float_ID ?i\<rparr>"
    "Media_Type (MediaObj ?i) = 0"
    by (rule InfoSD_0800H_sent [OF ty refl])
  define i where "i = ?i"
  have "send_media_info d = (True, i\<lparr>MediaObj := (MediaObj i)\<lparr>SD_media_Flag := 2\<rparr>\<rparr>)"
    using assms(1,2) by (simp add: send_media_info_def announced_def can_send_def i_def Let_def)
  moreover have "st (nobuf i) = st d" "Photo_sdState (nobuf i) = Photo_sdState d" "Sound_sdState (nobuf i) = Sound_sdState d"
    "Video_sdState (nobuf i) = Video_sdState d" "Camera_Number (nobuf i) = Camera_Number d" "gps (nobuf i) = gps d"
    "terminal (nobuf i) = terminal d" "DataLink_OK (nobuf i) = DataLink_OK d"
    "DEV_Login_Operate_enable (nobuf i) = DEV_Login_Operate_enable d"
    "Duomeiti_sdFlag (nobuf i) = Duomeiti_sdFlag (nobuf d)" "tx (nobuf i) = tx d @ [(g, 0)]" "Media_Type (MediaObj i) = 0"
    unfolding g [folded i_def] by simp_all
  note i = this [simplified]
  define e where "e = i\<lparr>MediaObj := (MediaObj i)\<lparr>SD_media_Flag := 2\<rparr>\<rparr>"
  ultimately have d': "d' = media_second (media_second e)" using assms(6) by (simp add: e_def)
  have "1 \<le> packets (length data)" using packets_bounds(1) [of "length data"] assms(4,5) by simp
  have "SD_media_Flag (MediaObj e) = 2" "Media_Type (MediaObj e) = 0" "Duomeiti_sdFlag e \<noteq> 1"
    using i assms(2) by (simp_all add: e_def can_send_def)
  note s = two_seconds [OF this d']
  have "env i = (terminal d, gps d, DEV_Login_Operate_enable d, DataLink_OK d, Sound_sdState d, Video_sdState d,
      Data_SD_counter (Photo_sdState d), Duomeiti_sdFlag d, tx d @ [(g, 0)])"
    using i by (simp add: env_def)
  with s(5,7) have v: "env d' = (terminal d, gps d, DEV_Login_Operate_enable d, DataLink_OK d, Sound_sdState d, Video_sdState d,
      Data_SD_counter (Photo_sdState d), Duomeiti_sdFlag d, tx d @ [(g, 0)])"
    by (simp add: env_def e_def)
  then show "can_send d'" "\<exists>g. tx d' = tx d @ [(g, 0)]"
    using assms(2) by (simp_all add: env_def can_send_def no_other_media_def)
  show "stored_picture (Camera_Number d') (st d') = data" "PicFileSize (st d') = length data"
    using s(6,8) i(1,5) assms(1) by (auto simp: announced_def stored_picture_def e_def)
  then show "in_sequence 0 d'"
    using s i(1,2,5) v assms(1-5) \<open>1 \<le> packets (length data)\<close>
    by (simp add: in_sequence_def photo_state_def no_other_media_def announced_def can_send_def env_def e_def)
qed

end
