(* ===== verification/Report808.thy ===== *)
theory Report808
  imports Camera
begin

text \<open>
  \<^verbatim>\<open>protocol_808/protocol_808.c\<close>: the remaining messages of the terminal and
  \<^verbatim>\<open>Do_SendGPSReport_GPRS\<close>, the task that sends at most one pending message per turn. The record
  \<open>vehicle\<close> adds to the device the globals these functions use: registration and login,
  the configuration, the pending requests and the state of the remote update.
\<close>

section \<open>State\<close>

record vehicle =
  dev :: device
  Login_Sd_counter :: nat
  Login_Enable_sd :: nat
  Login_Sd_add :: nat
  Reg_Sd_counter :: nat
  Reg_Enable_sd :: nat
  DeRegst_sd :: nat
  Reg_Sd_add :: nat
  Regsiter_Status :: nat
  Heart_SDFlag :: nat
  TCP_SD_state :: nat
  TCP_ACK_DurCnter :: nat
  Default_Dur :: nat
  LISTEN_Num :: bytes
  Vech_Character_Value :: nat
  Conf_DayStartDistance :: nat
  DriveCode :: bytes
  DriverCard_ID :: bytes
  DriveName :: bytes
  Driver_ID :: bytes
  Drv_CareerID :: bytes
  Comfirm_agentID :: bytes
  Vech_VIN :: bytes
  Vech_Type :: bytes
  DomainNameStr :: bytes
  APN_String :: bytes
  RemoteIP_aux :: bytes
  RemotePort_main :: nat
  Door_DrvKeepingSec :: nat
  Door_MinSleepSec :: nat
  time_year :: nat
  time_month :: nat
  time_day :: nat
  SleepState :: nat
  SleepConfigFlag :: nat
  f_CurrentPosition_0201H :: nat
  f_CurrentEventACK_0301H :: nat
  ASK_SdFlag :: nat
  Vech_ACK_SD_Flag :: nat
  Vech_CMD_FloatID :: nat
  Recode_SD_Data_Flag :: nat
  Recode_CMD :: u8
  Recode_Float_ID :: nat
  f_MsgBroadCast_0303H :: nat
  DataTrans_TYPE :: u8
  Data_TxLen :: nat
  Data_RxLen :: nat
  Data_Tx :: bytes
  DataRx :: bytes
  Tx_Wr :: nat
  f_MediaIndexACK_0802H :: nat
  f_QueryEventCode :: u8
  MediaIndex :: bytes
  f_DriverInfoSD_0702H :: nat
  f_Worklist_SD_0701H :: nat
  f_SettingPram_0104H :: nat
  f_ISP_ACK :: nat
  f_ISP_23_ACK :: nat
  f_ISP_88_ACK :: nat
  TCP2_Connect :: nat
  TCP2_sdFlag :: nat
  ISP_current_packnum :: nat
  ISP_total_packnum :: nat
  ISP_ack_resualt :: u8
  FileTCB_CRC16 :: nat
  Device_type :: nat
  Firmware_ver :: nat
  Systerm_Reset_counter :: nat
  ISP_resetFlag :: nat
  DataLink_EndFlag :: nat
  Datalink_close :: nat
  Trans_GNSS_Flag :: nat
  DispContent :: nat
  Send_Rdy4ok :: nat

text \<open>A function of the device as a function of the vehicle.\<close>

definition on_dev :: "(device \<Rightarrow> device) \<Rightarrow> vehicle \<Rightarrow> vehicle" where
  "on_dev f v = v\<lparr>dev := f (dev v)\<rparr>"

definition with_dev :: "(device \<Rightarrow> bool \<times> device) \<Rightarrow> vehicle \<Rightarrow> bool \<times> vehicle" where
  "with_dev f v = (fst (f (dev v)), v\<lparr>dev := snd (f (dev v))\<rparr>)"

text \<open>The characters of a C string.\<close>

definition cstr :: "bytes \<Rightarrow> bytes" where
  "cstr s = takeWhile (\<lambda>b. b \<noteq> 0) s"

section \<open>Messages\<close>

definition IP_Str :: "bytes \<Rightarrow> bytes" where
  "IP_Str ip = dec (unat (ip ! 0)) @ [0x2E] @ dec (unat (ip ! 1)) @ [0x2E] @ dec (unat (ip ! 2)) @
     [0x2E] @ dec (unat (ip ! 3))"

text \<open>A parameter: its identifier in four bytes, its length and its value.\<close>

definition param :: "nat \<Rightarrow> bytes \<Rightarrow> bytes" where
  "param pid val = be32 pid @ [byte (length val)] @ val"

definition Stuff_SettingPram_0104H :: "vehicle \<Rightarrow> bool \<times> vehicle" where
  "Stuff_SettingPram_0104H v =
     with_dev (stuff 0x0104 0 (\<lambda>d. put (be16 (Centre_FloatID (ans d)) @ [11] @
       param 0x83 (cstr (Vech_Num (terminal d))) @
       param 0x13 (cstr (DomainNameStr v)) @
       param 0x18 ([0x00, 0x00] @ be16 (RemotePort_main v)) @
       param 0x10 (cstr (APN_String v)) @
       param 0x17 (IP_Str (RemoteIP_aux v)) @
       param 0x29 (be32 (Default_Dur v)) @
       param 0x40 (cstr (LISTEN_Num v)) @
       param 0x55 (be32 (Speed_warn_MAX (terminal d))) @
       param 0x57 (be32 (Door_DrvKeepingSec v)) @
       param 0x59 (be32 (Door_MinSleepSec v)) @
       param 0xF000 (take 12 (DeviceNumberID (terminal d)))) d)) v"

definition Stuff_ControlACK_0500H :: "vehicle \<Rightarrow> bool \<times> vehicle" where
  "Stuff_ControlACK_0500H v =
     with_dev (stuff 0x0500 0 (\<lambda>d. put (be16 (Vech_CMD_FloatID v) @ current_position (gps d)) d)) v"

definition Stuff_DataTransTx_0900H :: "vehicle \<Rightarrow> bool \<times> vehicle" where
  "Stuff_DataTransTx_0900H v =
     with_dev (stuff 0x0900 0 (\<lambda>d. put ([DataTrans_TYPE v] @ take (Data_TxLen v) (Data_Tx v)) d)) v"

text \<open>The two \<^verbatim>\<open>memset\<close> calls clear four bytes each, the size of a pointer.\<close>

definition DataTrans_Init :: "vehicle \<Rightarrow> vehicle" where
  "DataTrans_Init v =
     v\<lparr>Data_RxLen := 0, Data_TxLen := 0, Tx_Wr := 0,
       DataRx := splice 0 (replicate 4 0) (DataRx v), Data_Tx := splice 0 (replicate 4 0) (Data_Tx v)\<rparr>"

definition Stuff_DriverInfoSD_0702H :: "vehicle \<Rightarrow> bool \<times> vehicle" where
  "Stuff_DriverInfoSD_0702H v =
     with_dev (stuff 0x0702 0 (\<lambda>d. put ([byte (length (cstr (DriveName v)))] @ cstr (DriveName v) @
       take 20 (Driver_ID v) @ take 40 (Drv_CareerID v) @
       [byte (length (cstr (Comfirm_agentID v)))] @ cstr (Comfirm_agentID v)) d)) v"

text \<open>The text of the waybill, in the character set of the source file.\<close>

definition worklist_text :: bytes where
  "worklist_text =
     [0xCD, 0xD0, 0xD4, 0xCB, 0xB5, 0xA5, 0xCE, 0xBB, 0x3A, 0xCC, 0xEC, 0xBD, 0xF2, 0xC6,
      0xDF, 0xD2, 0xBB, 0xB6, 0xFE, 0xCD, 0xA8, 0xD0, 0xC5, 0xB9, 0xE3, 0xB2, 0xA5, 0xD3,
      0xD0, 0xCF, 0xDE, 0xB9, 0xAB, 0xCB, 0xBE, 0x20, 0xB5, 0xE7, 0xBB, 0xB0, 0x3A, 0x30,
      0x32, 0x32, 0x2D, 0x32, 0x36, 0x32, 0x33, 0x37, 0x32, 0x31, 0x36, 0x20, 0x20] @
     [0xB3, 0xD0, 0xD4, 0xCB, 0xB5, 0xA5, 0xCE, 0xBB, 0x3A, 0xCC, 0xEC, 0xBD, 0xF2, 0xCE,
      0xEF, 0xC1, 0xF7, 0xD4, 0xCB, 0xCA, 0xE4, 0xB9, 0xAB, 0xCB, 0xBE, 0x20, 0xB5, 0xE7,
      0xBB, 0xB0, 0x3A, 0x30, 0x32, 0x32, 0x2D, 0x38, 0x36, 0x36, 0x39, 0x32, 0x36, 0x36,
      0x36, 0x20, 0x20] @
     [0xCE, 0xEF, 0xC6, 0xB7, 0xC3, 0xFB, 0xB3, 0xC6, 0x3A, 0x47, 0x50, 0x53, 0xB3, 0xB5,
      0xD4, 0xD8, 0xD6, 0xD5, 0xB6, 0xCB, 0x20, 0x20, 0xB0, 0xFC, 0xD7, 0xB0, 0xB7, 0xBD,
      0xCA, 0xBD, 0x3A, 0x20, 0x20, 0xCF, 0xE4, 0xCA, 0xBD, 0x20, 0x20, 0x20, 0xC3, 0xBF,
      0xCF, 0xE4, 0xCA, 0xFD, 0xC1, 0xBF, 0x3A, 0x20, 0x32, 0x30, 0x20, 0x20, 0x20, 0xD7,
      0xDC, 0xC1, 0xBF, 0x3A, 0x20, 0x33, 0x30, 0xCF, 0xE4, 0x20, 0x20] @
     [0xB3, 0xB5, 0xD0, 0xCD, 0x3A, 0xCF, 0xE4, 0xCA, 0xBD, 0xD0, 0xA1, 0xBB, 0xF5, 0xB3,
      0xB5, 0x20, 0xD4, 0xCB, 0xB4, 0xEF, 0xC8, 0xD5, 0xC6, 0xDA, 0x20, 0x3A, 0x20, 0x20,
      0x32, 0x30, 0x31, 0x32, 0x2D, 0x31, 0x2D, 0x31, 0x31, 0x20, 0x20, 0x20]"

definition Stuff_Worklist_0701H :: "vehicle \<Rightarrow> bool \<times> vehicle" where
  "Stuff_Worklist_0701H v = with_dev (stuff 0x0701 0 (put (be32 207 @ worklist_text))) v"

text \<open>
  The answer to a query of the media index: eight entries are read, those in use with the
  event asked for are listed. For a query of neither pictures nor sounds no entry is read, and
  the structure \<^verbatim>\<open>MediaIndex\<close> keeps its content.
\<close>

definition index_entry :: "nat \<Rightarrow> vehicle \<times> nat \<Rightarrow> vehicle \<times> nat" where
  "index_entry i vn =
     (let v = fst vn;
          name = (if f_MediaIndexACK_0802H v = 1 then Some pic_index
                  else if f_MediaIndexACK_0802H v = 2 then Some voice_index else None);
          v = (case name of
                 Some m \<Rightarrow> (case snd (Api_RecordNum_Read m i 52 (st (dev v))) of
                              Some c \<Rightarrow> v\<lparr>MediaIndex := c\<rparr> | None \<Rightarrow> v)
               | None \<Rightarrow> v);
          m = MediaIndex v
      in if m ! 0 = 1 \<and> f_QueryEventCode v = m ! 10
         then (on_dev (put ([m ! 7, m ! 6, m ! 5, m ! 4, m ! 8, m ! 9, m ! 10] @ take 28 (drop 23 m))) v,
               snd vn + 1)
         else (v, snd vn))"

definition Stuff_MultiMedia_IndexAck_0802H :: "vehicle \<Rightarrow> bool \<times> vehicle" where
  "Stuff_MultiMedia_IndexAck_0802H v =
     (case with_dev (Protocol_Head 0x0802 Packet_Normal) v of
        (False, v) \<Rightarrow> (False, v)
      | (True, v) \<Rightarrow>
          let v = on_dev (put (be16 (Centre_FloatID (ans (dev v))))) v;
              lenregwr = Original_info_Wr (dev v);
              v = on_dev (put [0, 0]) v
          in case fold index_entry [0..<8] (v, 0) of
               (v, totalNum) \<Rightarrow>
                 (True, on_dev (\<lambda>d. Protocol_End Packet_Normal 0
                    (d\<lparr>Original_info := (Original_info d)
                        [lenregwr := byte (totalNum div 256), lenregwr + 1 := byte totalNum]\<rparr>)) v))"

section \<open>Data of the driving recorder\<close>

definition Time2BCD :: "vehicle \<Rightarrow> bytes" where
  "Time2BCD v = map bcd8 [time_year v, time_month v, time_day v, time_hour (dev v), time_min (dev v), time_sec (dev v)]"

text \<open>Six decimal digits of a distance in units of 100 m.\<close>

definition dist_bcd :: "nat \<Rightarrow> bytes" where
  "dist_bcd regdis =
     [byte (regdis div 100000 * 16 + regdis mod 100000 div 10000),
      byte (regdis mod 10000 div 1000 * 16 + regdis mod 1000 div 100),
      byte (regdis mod 100 div 10 * 16 + regdis mod 10)]"

text \<open>
  The loops over stored records: each record is read into \<^verbatim>\<open>Reg\<close>, \<open>n\<close> bytes from \<open>from\<close> on
  are copied into the message, and the write index moves by \<open>step\<close>. A read that does not
  deliver leaves \<^verbatim>\<open>Reg\<close> as it was; before the first record it holds what was on the stack.
\<close>

definition put_record ::
  "string \<Rightarrow> nat \<Rightarrow> nat \<Rightarrow> nat \<Rightarrow> nat \<Rightarrow> nat \<Rightarrow> nat \<Rightarrow> bytes \<times> device \<Rightarrow> bytes \<times> device" where
  "put_record name len style from n step i rd =
     (case Api_DFdirectory_Read name len style i (st (snd rd)) of
        (_, c, s) \<Rightarrow>
          let Reg = (case c of Some c \<Rightarrow> c | None \<Rightarrow> fst rd);
              d = (snd rd)\<lparr>st := s\<rparr>
          in (Reg, advance step (poke (take n (drop from Reg)) d)))"

text \<open>Overwriting two bytes behind the write index: the length field, where the code takes it to be.\<close>

definition set_len :: "nat \<Rightarrow> device \<Rightarrow> device" where
  "set_len SregLen d =
     d\<lparr>Original_info := (Original_info d)
         [Original_info_Wr d - 3 := byte (SregLen div 256), Original_info_Wr d - 2 := byte SregLen]\<rparr>"

text \<open>Command word, length and reserved byte.\<close>

definition rec_head :: "u8 \<Rightarrow> nat \<Rightarrow> bytes" where
  "rec_head c len = [c] @ be16 len @ [0x00]"

text \<open>
  The \<^verbatim>\<open>switch\<close> over the command; \<open>None\<close> is its default, the early return. The number of records is
  a \<^verbatim>\<open>u8\<close>. \<open>junk\<close> is the content of the local array \<^verbatim>\<open>Reg\<close> before it is written.
\<close>

definition speed_records :: "nat \<Rightarrow> bytes \<Rightarrow> u8 \<Rightarrow> nat \<Rightarrow> device \<Rightarrow> device" where
  "speed_records style junk c SregLen d =
     (let d = put (rec_head c SregLen) d;
          q = (case Api_DFdirectory_Query spdpermin 0 (st d) of (n, s) \<Rightarrow> (u8n n, d\<lparr>st := s\<rparr>));
          QueryRecNum = min (fst q) 7;
          d = set_len (QueryRecNum * 65) (snd q)
      in snd (fold (put_record spdpermin 70 style 5 60 65) [0..<QueryRecNum] (junk, d)))"

definition tired_records :: "bytes \<Rightarrow> u8 \<Rightarrow> vehicle \<Rightarrow> device \<Rightarrow> device" where
  "tired_records junk c v d =
     (let d = put (rec_head c 90) d;
          d = put (take 18 (DriverCard_ID v)) d;
          q = (case Api_DFdirectory_Query tired_warn 0 (st d) of (n, s) \<Rightarrow> (u8n n, d\<lparr>st := s\<rparr>));
          QueryRecNum = min (fst q) 6;
          d = set_len (QueryRecNum * 12 + 18) (snd q)
      in snd (fold (put_record tired_warn 31 0 18 12 12) [0..<QueryRecNum] (junk, d)))"

definition doubt_record :: "u8 \<Rightarrow> device \<Rightarrow> device" where
  "doubt_record c d =
     (let d = put (rec_head c 206) d
      in case Api_DFdirectory_Read doubt_data 207 0 0 (st d) of
           (ret, content, s) \<Rightarrow>
             let d = d\<lparr>st := s\<rparr>;
                 d = (case content of Some b \<Rightarrow> poke b d | None \<Rightarrow> d)
             in if ret then advance 206 d else set_len 0 d)"

definition recorder_data :: "bytes \<Rightarrow> vehicle \<Rightarrow> device \<Rightarrow> device option" where
  "recorder_data junk v d =
     (let c = Recode_CMD v
      in if c = 0x01 then Some (put (rec_head c 21 @ take 3 (DriveCode v) @ take 18 (DriverCard_ID v)) d)
         else if c = 0x02 then Some (put (rec_head c 6 @ Time2BCD v) d)
         else if c = 0x03
         then Some (advance 5 (poke (Time2BCD v)
                (put (rec_head c 8 @ dist_bcd (Conf_Distance_m_u32 (terminal d) div 100)) d)))
         else if c = 0x04
         then Some (put (rec_head c 3 @ [byte (Vech_Character_Value v div 65536),
                byte (Vech_Character_Value v div 256), byte (Vech_Character_Value v)]) d)
         else if c = 0x06
         then Some (put (rec_head c 41 @ take 17 (Vech_VIN v) @ take 12 (Vech_Num (terminal d)) @
                take 12 (Vech_Type v)) d)
         else if c = 0x07 then Some (doubt_record c d)
         else if c = 0x08
         then Some (advance 5 (poke (Time2BCD v)
                (put (rec_head c 8 @ dist_bcd (u32 (Conf_Distance_m_u32 (terminal d) + 4294967296 -
                   Conf_DayStartDistance v) div 100)) d)))
         else if c = 0x09 then Some (speed_records 0 junk c 455 d)
         else if c = 0x05 then Some (speed_records 1 junk c 435 d)
         else if c = 0x11 then Some (tired_records junk c v d)
         else if c = 0x81 \<or> c = 0x82 \<or> c = 0xC2 \<or> c = 0xC3 then Some (put (rec_head c 0) d)
         else None)"

definition Stuff_RecoderACK_0700H :: "bytes \<Rightarrow> vehicle \<Rightarrow> bool \<times> vehicle" where
  "Stuff_RecoderACK_0700H junk v =
     with_dev (\<lambda>d. case Protocol_Head 0x0700 Packet_Normal d of
          (False, d) \<Rightarrow> (False, d)
        | (True, d) \<Rightarrow>
            let d = put (be16 (Recode_Float_ID v) @ [Recode_CMD v]) d;
                Swr = Original_info_Wr d;
                d = put [0x55, 0x7A] d
            in (case recorder_data junk v d of
                  None \<Rightarrow> (False, d)
                | Some d \<Rightarrow> (True, Protocol_End Packet_Normal 0 (put [xor_sum (drop Swr (msg d))] d)))) v"

section \<open>Remote update\<close>

text \<open>
  The answers of the remote update. The two length bytes are filled in behind; the inner check
  byte starts at index 3 of the whole message.
\<close>

definition isp_sub :: "u8 \<Rightarrow> bytes \<Rightarrow> vehicle \<Rightarrow> bytes" where
  "isp_sub AckType content v =
     (let sub = ascii ''*GB'' @ [0x00, 0x00] @ take 6 (SIM_code (terminal (dev v))) @ [0, 0] @
                [0x01, 0x30, AckType] @ content;
          TX_NUM = length sub
      in sub[11 := byte ((TX_NUM - 2) div 256), 12 := byte (TX_NUM - 2)])"

definition Stuff_DataTrans_0900_ISP_ACK :: "u8 \<Rightarrow> vehicle \<Rightarrow> bool \<times> vehicle" where
  "Stuff_DataTrans_0900_ISP_ACK AckType v =
     with_dev (\<lambda>d. case Protocol_Head 0x0900 Packet_Normal d of
          (False, d) \<Rightarrow> (False, d)
        | (True, d) \<Rightarrow>
            let content = (if AckType = 0x92 \<or> AckType = 0x96 then Some []
                  else if AckType = 0x94
                  then Some (be16 (ISP_current_packnum v) @ be16 (ISP_total_packnum v) @ [ISP_ack_resualt v])
                  else None)
            in (case content of
                  None \<Rightarrow> (False, d)
                | Some b \<Rightarrow>
                    let d = put ([1] @ isp_sub AckType b v) d;
                        d = put [xor_sum (drop 3 (msg d)), 0x0D, 0x0A] d
                    in (True, Protocol_End Packet_Normal 1 d))) v"

text \<open>The check sum of the downloaded file: the computation is disabled in the source.\<close>

definition CRC16_file :: "nat \<Rightarrow> nat" where
  "CRC16_file num = 1"

definition ISP_file_Check :: "vehicle \<Rightarrow> vehicle" where
  "ISP_file_Check v =
     (let b = snd (ISP_Read 0x6400 512 (st (dev v)));
          v = v\<lparr>Device_type := unat (b ! 1) * 16777216 + unat (b ! 2) * 65536 + unat (b ! 3) * 256 + unat (b ! 4),
                Firmware_ver := unat (b ! 5) * 16777216 + unat (b ! 6) * 65536 + unat (b ! 7) * 256 + unat (b ! 8)\<rparr>;
          v = (if Device_type v \<noteq> 9
               then on_dev (\<lambda>d. d\<lparr>st := snd (ISP_Write 0x6400 (b[0 := 0]) 512 (st d))\<rparr>) v else v)
      in if Device_type v = 9 then v\<lparr>Systerm_Reset_counter := 28800 - 5, ISP_resetFlag := 1\<rparr> else v)"

section \<open>The sending task\<close>

text \<open>
  \<^verbatim>\<open>Do_SendGPSReport_GPRS\<close> is a sequence of tests, each followed by a message and a return; the
  list keeps them in the order of the code. \<open>img v\<close> is the memory image of
  \<^verbatim>\<open>JT808Conf_struct\<close>, as the compiler lays it out.
\<close>

definition isp_over :: "vehicle \<Rightarrow> vehicle" where
  "isp_over v =
     (let v = snd (Stuff_DataTrans_0900_ISP_ACK 0x96 v);
          crc_file = CRC16_file (ISP_total_packnum v);
          v = (if crc_file = FileTCB_CRC16 v then ISP_file_Check v
               else on_dev (\<lambda>d. d\<lparr>st := (st d)\<lparr>flash := DF_ClearUpdate_Area (flash (st d))\<rparr>\<rparr>) v)
      in v\<lparr>f_ISP_23_ACK := 0\<rparr>)"

definition register_now :: "(vehicle \<Rightarrow> bytes) \<Rightarrow> vehicle \<Rightarrow> vehicle" where
  "register_now img v =
     (let v = snd (with_dev (Stuff_RegisterPacket_0100H 0) v);
          v = on_dev (\<lambda>d. d\<lparr>Msg_Float_ID := 0\<rparr>) v;
          v = on_dev (\<lambda>d. d\<lparr>st := snd (Api_Config_Recwrite_Large jt808 0 (img v) (length (img v)) (st d))\<rparr>) v
      in v\<lparr>Reg_Enable_sd := 0\<rparr>)"

definition common_ack :: "vehicle \<Rightarrow> vehicle" where
  "common_ack v =
     (let v = snd (with_dev Stuff_DevCommmonACK_0001H v);
          f = f_CentreCMDack_0001H (ans (dev v));
          v = (if f = 2 then v\<lparr>DataLink_EndFlag := 1\<rparr>
               else if f = 3 then v\<lparr>Systerm_Reset_counter := 28800, ISP_resetFlag := 2\<rparr>
               else if f = 5 then v\<lparr>DataLink_EndFlag := 1, Datalink_close := 1\<rparr>
               else v)
      in on_dev (\<lambda>d. d\<lparr>ans := (ans d)\<lparr>f_CentreCMDack_0001H := 0, f_CentreCMDack_resualt := 0\<rparr>\<rparr>) v)"

definition branches :: "(vehicle \<Rightarrow> bytes) \<Rightarrow> bytes \<Rightarrow> ((vehicle \<Rightarrow> bool) \<times> (vehicle \<Rightarrow> vehicle)) list" where
  "branches img junk =
    [(\<lambda>v. Reg_Enable_sd v = 1, register_now img),
     (\<lambda>v. DeRegst_sd v = 1, \<lambda>v. (snd (with_dev Stuff_DeviceDeregister_0101H v))\<lparr>DeRegst_sd := 0\<rparr>),
     (\<lambda>v. Heart_SDFlag v = 1 \<and> DataLink_OK (dev v) \<and> SleepState v = 0,
      \<lambda>v. (snd (with_dev Stuff_DeviceHeartPacket_0002H v))\<lparr>Heart_SDFlag := 0, TCP_SD_state := 1\<rparr>),
     (\<lambda>v. SleepConfigFlag v = 1 \<and> DataLink_OK (dev v) \<and> SleepState v = 1, \<lambda>v. v\<lparr>SleepConfigFlag := 0\<rparr>),
     (\<lambda>v. f_CurrentPosition_0201H v = 1,
      \<lambda>v. (snd (with_dev Stuff_Current_Data_0201H v))\<lparr>f_CurrentPosition_0201H := 0\<rparr>),
     (\<lambda>v. f_CurrentEventACK_0301H v = 1,
      \<lambda>v. (snd (with_dev Stuff_EventACK_0301H v))\<lparr>f_CurrentEventACK_0301H := 0\<rparr>),
     (\<lambda>v. ASK_SdFlag v = 2, \<lambda>v. (snd (with_dev Stuff_ASKACK_0302H v))\<lparr>ASK_SdFlag := 0\<rparr>),
     (\<lambda>v. f_BD_CentreTakeAck_0805H (ans (dev v)) = 1,
      \<lambda>v. on_dev (\<lambda>d. d\<lparr>ans := (ans d)\<lparr>f_BD_CentreTakeAck_0805H := 0\<rparr>\<rparr>) (snd (with_dev Stuff_CentreTakeACK_BD_0805H v))),
     (\<lambda>v. Vech_ACK_SD_Flag v = 1, \<lambda>v. (snd (Stuff_ControlACK_0500H v))\<lparr>Vech_ACK_SD_Flag := 0\<rparr>),
     (\<lambda>v. Recode_SD_Data_Flag v = 1, \<lambda>v. (snd (Stuff_RecoderACK_0700H junk v))\<lparr>Recode_SD_Data_Flag := 0\<rparr>),
     (\<lambda>v. f_MsgBroadCast_0303H v = 1, \<lambda>v. (snd (with_dev Stuff_MSGACK_0303H v))\<lparr>f_MsgBroadCast_0303H := 0\<rparr>),
     (\<lambda>v. SD_media_Flag (MediaObj (dev v)) = 1 \<and> DEV_Login_Operate_enable (dev v) = 2,
      \<lambda>v. snd (with_dev send_media_info v)),
     (\<lambda>v. Data_TxLen v \<noteq> 0, \<lambda>v. DataTrans_Init (snd (Stuff_DataTransTx_0900H v))),
     (\<lambda>v. f_MediaIndexACK_0802H v \<noteq> 0,
      \<lambda>v. (snd (Stuff_MultiMedia_IndexAck_0802H v))\<lparr>f_MediaIndexACK_0802H := 0\<rparr>),
     (\<lambda>v. f_DriverInfoSD_0702H v \<noteq> 0, \<lambda>v. (snd (Stuff_DriverInfoSD_0702H v))\<lparr>f_DriverInfoSD_0702H := 0\<rparr>),
     (\<lambda>v. f_Worklist_SD_0701H v \<noteq> 0, \<lambda>v. (snd (Stuff_Worklist_0701H v))\<lparr>f_Worklist_SD_0701H := 0\<rparr>),
     (\<lambda>v. f_CentreCMDack_0001H (ans (dev v)) \<noteq> 0, common_ack),
     (\<lambda>v. f_SettingPram_0104H v \<noteq> 0, \<lambda>v. (snd (Stuff_SettingPram_0104H v))\<lparr>f_SettingPram_0104H := 0\<rparr>),
     (\<lambda>v. f_ISP_ACK v = 1 \<and> TCP2_Connect v = 1, \<lambda>v. (snd (Stuff_DataTrans_0900_ISP_ACK 0x92 v))\<lparr>f_ISP_ACK := 0\<rparr>),
     (\<lambda>v. f_ISP_23_ACK v = 1 \<and> TCP2_Connect v = 1, isp_over),
     (\<lambda>v. f_ISP_88_ACK v = 1 \<and> TCP2_Connect v = 1,
      \<lambda>v. (snd (Stuff_DataTrans_0900_ISP_ACK 0x94 v))\<lparr>f_ISP_88_ACK := 0\<rparr>),
     (\<lambda>v. TCP2_Connect v = 1 \<and> TCP2_sdFlag v = 1 \<and> ISP_running_state (dev v) = 0,
      \<lambda>v. (snd (with_dev (Stuff_RegisterPacket_0100H 1) v))\<lparr>TCP2_sdFlag := 0\<rparr>)]"

fun first_branch :: "((vehicle \<Rightarrow> bool) \<times> (vehicle \<Rightarrow> vehicle)) list \<Rightarrow> vehicle \<Rightarrow> vehicle option" where
  "first_branch [] v = None"
| "first_branch ((g, a) # bs) v = (if g v then Some (a v) else first_branch bs v)"

text \<open>The last part: the current position, or else a stored one.\<close>

definition send_position :: "vehicle \<Rightarrow> bool \<times> vehicle" where
  "send_position v =
     (let d = dev v;
          pos = PositionInfo_sdFlag (st d) \<noteq> 0
      in if pos \<and> DEV_Login_Operate_enable d = 2 \<and> (Trans_GNSS_Flag v = enable \<or> DispContent v = 6) \<or>
            Current_UDP_sd (st d) \<noteq> 0 \<and> pos \<or> DF_LOCK (st d) = enable \<and> pos
         then let d = d\<lparr>st := (st d)\<lparr>PositionInfo_sdFlag := 0, Current_UDP_sd := 0\<rparr>\<rparr>;
                  d = snd (Stuff_Current_Data_0200H d);
                  d = (if ReadFail_sd_current (st d) \<noteq> 0 then d\<lparr>st := (st d)\<lparr>ReadFail_sd_current := 0\<rparr>\<rparr> else d)
              in (False, v\<lparr>dev := d\<rparr>)
         else if ReadCycle_status (st d) = RdCycle_RdytoSD \<and> ISP_running_state d = 0 \<and> DataLink_OK d \<and>
                 DEV_Login_Operate_enable d = 2
         then (case Stuff_Normal_Data_0200H d of
                 (False, d) \<Rightarrow> (False, v\<lparr>dev := d\<rparr>)
               | (True, d) \<Rightarrow>
                   (True, v\<lparr>dev := d\<lparr>st := (st d)\<lparr>ReadCycle_status := RdCycle_SdOver\<rparr>\<rparr>, Send_Rdy4ok := 1\<rparr>))
         else (False, v))"

definition Do_SendGPSReport_GPRS :: "(vehicle \<Rightarrow> bytes) \<Rightarrow> bytes \<Rightarrow> vehicle \<Rightarrow> bool \<times> vehicle" where
  "Do_SendGPSReport_GPRS img junk v =
     (if DEV_Login_Operate_enable (dev v) \<noteq> 2 \<and> Login_Enable_sd v = 1
      then (True, (snd (with_dev Stuff_DevLogin_0102H v))\<lparr>Login_Enable_sd := 0\<rparr>)
      else case with_dev send_media_data v of
             (True, v) \<Rightarrow> (True, v)
           | (False, v) \<Rightarrow>
               (case first_branch (branches img junk) v of
                  Some v \<Rightarrow> (True, v)
                | None \<Rightarrow> send_position v))"

section \<open>The message under construction\<close>

text \<open>
  \<open>building mid d\<close>: the buffer has its 850 bytes, the head of a message with identifier
  \<open>mid\<close> is in place and the write index is behind it.
\<close>

definition building :: "nat \<Rightarrow> device \<Rightarrow> bool" where
  "building mid d = (850 \<le> length (Original_info d) \<and> 12 \<le> Original_info_Wr d \<and>
     Original_info_Wr d < 850 \<and> take 2 (Original_info d) = be16 mid)"

lemma Wr_ops [simp]:
  "Original_info_Wr (put bs d) = Original_info_Wr d + length bs"
  "Original_info_Wr (advance n d) = Original_info_Wr d + n"
  "Original_info_Wr (poke bs d) = Original_info_Wr d"
  by (simp_all add: put_def advance_def poke_def)

lemma length_splice_ge: "k \<le> length buf \<Longrightarrow> length buf \<le> length (splice k bs buf)"
  by (simp add: splice_def)

lemma take2_splice: "2 \<le> k \<Longrightarrow> k \<le> length buf \<Longrightarrow> take 2 (splice k bs buf) = take 2 buf"
  by (simp add: splice_def min_def)

lemma building_poke: "building mid d \<Longrightarrow> building mid (poke bs d)"
  using length_splice_ge [of "Original_info_Wr d" "Original_info d" bs]
  by (auto simp: building_def poke_def take2_splice)

lemma building_advance: "building mid d \<Longrightarrow> Original_info_Wr d + n < 850 \<Longrightarrow> building mid (advance n d)"
  by (simp add: building_def advance_def)

lemma building_put: "building mid d \<Longrightarrow> Original_info_Wr d + length bs < 850 \<Longrightarrow> building mid (put bs d)"
  by (simp add: put_def building_advance building_poke)

lemma building_update: "building mid d \<Longrightarrow> 2 \<le> i \<Longrightarrow> building mid (d\<lparr>Original_info := (Original_info d)[i := x]\<rparr>)"
  by (auto simp: building_def)

lemma building_st [simp]: "building mid (d\<lparr>st := s\<rparr>) = building mid d"
  by (simp add: building_def)

lemma building_set_len: "building mid d \<Longrightarrow> building mid (set_len n d)"
proof -
  assume b: "building mid d"
  let ?i = "Original_info_Wr d"
  have "building mid (d\<lparr>Original_info := (Original_info d)[?i - 3 := byte (n div 256)]\<rparr>)"
    using b by (intro building_update) (auto simp: building_def)
  from building_update [OF this, of "?i - 2" "byte n"] b show ?thesis
    by (auto simp: set_len_def building_def)
qed

text \<open>Head and end of a message; \<open>one_sent\<close> is what the centre sees of it.\<close>

definition buffer_ok :: "device \<Rightarrow> bool" where
  "buffer_ok d = (850 \<le> length (Original_info d) \<and> length (SIM_code (terminal d)) = 6)"

definition one_sent :: "nat \<Rightarrow> device \<Rightarrow> device \<Rightarrow> bool" where
  "one_sent mid d d' = (\<exists>m l. tx d' = tx d @ [(frame808 m, l)] \<and> take 2 m = be16 mid \<and>
     12 \<le> length m \<and> length m < 850)"

lemma Protocol_Head_building:
  assumes "buffer_ok d"
  obtains e where "Protocol_Head mid Packet_Normal d = (True, e)" and "building mid e"
    and "Original_info_Wr e = 12" and "nobuf e = nobuf d"
proof -
  obtain e where e: "Protocol_Head mid Packet_Normal d = (True, e)"
    using Protocol_Head_normal(1) [of mid d] by (cases "Protocol_Head mid Packet_Normal d") simp
  note h = Protocol_Head_normal [of mid d, unfolded e snd_conv]
  have eq: "e = put (be16 (Msg_Float_ID d)) (put (take 6 (SIM_code (terminal d))) (put [0, 28]
      (put (be16 mid) (d\<lparr>Original_info_Wr := 0\<rparr>))))"
    using e by (simp add: Protocol_Head_def Let_def)
  have wr: "Original_info_Wr e = 12" using assms by (simp add: eq buffer_ok_def)
  have "850 \<le> length (Original_info e)"
    using assms by (auto simp: eq put_def poke_def advance_def splice_def buffer_ok_def)
  moreover have "take 2 (Original_info e) = take 2 (msg e)" using wr by (simp add: msg_def min_def)
  ultimately have "building mid e" using h(3) wr by (simp add: building_def)
  moreover have "nobuf e = nobuf d" by (simp add: eq)
  ultimately show ?thesis using that e wr by blast
qed

lemma Protocol_End_sent:
  assumes "building mid d" and "e = Protocol_End Packet_Normal l d"
  shows "one_sent mid d e" and "850 \<le> length (Original_info e)"
    and "nobuf e = (nobuf d)\<lparr>tx := tx e, Msg_Float_ID := u16 (Msg_Float_ID d + 1)\<rparr>"
proof -
  have b: "buf_ok d" and len: "length (msg d) = Original_info_Wr d" "12 \<le> length (msg d)" "length (msg d) < 65535"
    using assms(1) by (simp_all add: building_def buf_ok_def msg_def)
  have "tx e = tx d @ [(frame808 (with_len Packet_Normal 12 (msg d)), l)]"
    unfolding assms(2) by (rule Protocol_End_sends(1) [OF b]) (use len in simp_all)
  moreover have "take 2 (with_len Packet_Normal 12 (msg d)) = be16 mid"
    using assms(1) len by (simp add: with_len_def msg_def building_def min_def)
  ultimately show "one_sent mid d e"
    using assms(1) len unfolding one_sent_def by (auto simp: with_len_def building_def)
  show "nobuf e = (nobuf d)\<lparr>tx := tx e, Msg_Float_ID := u16 (Msg_Float_ID d + 1)\<rparr>"
    unfolding assms(2) by (rule nobuf_Protocol_End)
  show "850 \<le> length (Original_info e)"
    using assms(1) by (auto simp: assms(2) Protocol_End_def Let_def put_def poke_def advance_def splice_def building_def)
qed

lemma one_sent_tx: "tx d = tx e \<Longrightarrow> one_sent mid d d' = one_sent mid e d'"
  by (simp add: one_sent_def)

section \<open>The contract of a message function\<close>

text \<open>
  The flags that decide what is sent next, as far as they live in the device, and the parts of
  the device that no message function touches.
\<close>

definition sched :: "device \<Rightarrow> device" where
  "sched d = (nobuf d)\<lparr>tx := [], Msg_Float_ID := 0, st := blank_store, gps := gps (idle_device blank_store)\<rparr>"

definition keeps :: "device \<Rightarrow> device \<Rightarrow> bool" where
  "keeps d d' = (sched d' = sched d \<and> (850 \<le> length (Original_info d) \<longrightarrow> 850 \<le> length (Original_info d')))"

text \<open>
  A message function that answers true has handed one frame with its identifier to the modem, one
  that answers false none; either way the flags are as before.
\<close>

locale message_function =
  fixes f :: "device \<Rightarrow> bool \<times> device" and mid :: nat and fits :: "device \<Rightarrow> bool"
  assumes sent: "buffer_ok d \<Longrightarrow> fits d \<Longrightarrow> fst (f d) \<Longrightarrow> one_sent mid d (snd (f d))"
    and silent: "buffer_ok d \<Longrightarrow> fits d \<Longrightarrow> \<not> fst (f d) \<Longrightarrow> tx (snd (f d)) = tx d"
    and kept: "buffer_ok d \<Longrightarrow> fits d \<Longrightarrow> keeps d (snd (f d))"
begin

lemma still_ok: "buffer_ok d \<Longrightarrow> fits d \<Longrightarrow> buffer_ok (snd (f d))"
  using kept [of d] by (auto simp: buffer_ok_def keeps_def sched_def nobuf_def dest: arg_cong [of _ _ terminal])

end

lemma sched_nobuf: "nobuf d' = nobuf d \<Longrightarrow> sched d' = sched d"
  by (simp add: sched_def)

lemma stuff_message:
  assumes "\<And>d. buffer_ok d \<Longrightarrow> fits d \<Longrightarrow> length (c d) < 838"
    and "\<And>d e. nobuf d = nobuf e \<Longrightarrow> c d = c e"
  shows "message_function (stuff mid l (\<lambda>d. put (c d) d)) mid fits"
proof -
  have "fst (stuff mid l (\<lambda>d. put (c d) d) d) \<and> one_sent mid d (snd (stuff mid l (\<lambda>d. put (c d) d) d)) \<and>
      keeps d (snd (stuff mid l (\<lambda>d. put (c d) d) d))" if d: "buffer_ok d" "fits d" for d
  proof -
    obtain e where e: "Protocol_Head mid Packet_Normal d = (True, e)" "building mid e"
      "Original_info_Wr e = 12" "nobuf e = nobuf d"
      using Protocol_Head_building [OF d(1)] by blast
    have c: "c e = c d" using assms(2) e(4) by blast
    have b: "building mid (put (c e) e)"
      using assms(1) [OF d] e(2,3) c by (intro building_put) simp_all
    note fin = Protocol_End_sent [OF b refl, of l]
    have "tx e = tx d" using arg_cong [OF e(4), of tx] by simp
    with fin e show ?thesis
      by (auto simp: stuff_def keeps_def sched_def one_sent_tx [of "put (c e) e" d])
  qed
  then show ?thesis by unfold_locales auto
qed

text \<open>The content of a message depends on the device only outside the message buffer.\<close>

lemma put_nothing: "put [] d = d"
  by (simp add: put_def poke_def advance_def splice_def)

lemma nobuf_eqD:
  assumes "nobuf d = nobuf e"
  shows "gps d = gps e" "terminal d = terminal e" "ans d = ans e"
  using arg_cong [OF assms, of gps] arg_cong [OF assms, of terminal] arg_cong [OF assms, of ans] by simp_all

lemma length_takeWhile_min: "length (takeWhile P xs) \<le> length xs"
  by (rule length_takeWhile_le)

lemma length_items:
  "length (item_speed d) = 4" "length (item_distance d) = 6" "length (item_inout d) \<le> 8"
  "length (item_overspeed d) \<le> 3" "length (item_io d) = 6" "length (item_signal d) = 4"
  "length (item_analog d) = 8" "length (current_position (gps d)) \<le> 28"
  by (simp_all add: item_speed_def item_distance_def item_inout_def item_overspeed_def item_io_def
      item_signal_def item_analog_def current_position_def)

interpretation m0001: message_function Stuff_DevCommmonACK_0001H "0x0001" "\<lambda>_. True"
  unfolding Stuff_DevCommmonACK_0001H_def by (rule stuff_message) (auto dest: nobuf_eqD)

interpretation m0002: message_function Stuff_DeviceHeartPacket_0002H "0x0002" "\<lambda>_. True"
  using stuff_message [of "\<lambda>_. True" "\<lambda>_. []" "0x0002" 0] by (simp add: Stuff_DeviceHeartPacket_0002H_def put_nothing)

interpretation m0101: message_function Stuff_DeviceDeregister_0101H "0x0101" "\<lambda>_. True"
  using stuff_message [of "\<lambda>_. True" "\<lambda>_. []" "0x0101" 0] by (simp add: Stuff_DeviceDeregister_0101H_def put_nothing)

lemma message_0100: "message_function (Stuff_RegisterPacket_0100H l) 0x0100 (\<lambda>_. True)"
  unfolding Stuff_RegisterPacket_0100H_def
  by (rule stuff_message) (auto simp: ascii_def dest: nobuf_eqD)

interpretation m0100: message_function "Stuff_RegisterPacket_0100H 0" "0x0100" "\<lambda>_. True"
  by (rule message_0100)

interpretation m0100u: message_function "Stuff_RegisterPacket_0100H 1" "0x0100" "\<lambda>_. True"
  by (rule message_0100)

interpretation m0102: message_function Stuff_DevLogin_0102H "0x0102" "\<lambda>d. length (ConfirmCode (terminal d)) \<le> 20"
  unfolding Stuff_DevLogin_0102H_def
proof (rule stuff_message)
  fix d show "length (takeWhile (\<lambda>b. b \<noteq> 0) (ConfirmCode (terminal d))) < 838"
    if "length (ConfirmCode (terminal d)) \<le> 20"
    using length_takeWhile_min [of "\<lambda>b. b \<noteq> 0" "ConfirmCode (terminal d)"] that by simp
qed (auto dest: nobuf_eqD)

interpretation m0301: message_function Stuff_EventACK_0301H "0x0301" "\<lambda>_. True"
  unfolding Stuff_EventACK_0301H_def by (rule stuff_message) (auto dest: nobuf_eqD)

interpretation m0302: message_function Stuff_ASKACK_0302H "0x0302" "\<lambda>_. True"
  unfolding Stuff_ASKACK_0302H_def by (rule stuff_message) (auto dest: nobuf_eqD)

interpretation m0303: message_function Stuff_MSGACK_0303H "0x0303" "\<lambda>_. True"
  unfolding Stuff_MSGACK_0303H_def by (rule stuff_message) (auto dest: nobuf_eqD)

interpretation m0805: message_function Stuff_CentreTakeACK_BD_0805H "0x0805" "\<lambda>_. True"
  unfolding Stuff_CentreTakeACK_BD_0805H_def by (rule stuff_message) (auto dest: nobuf_eqD)

interpretation m0201: message_function Stuff_Current_Data_0201H "0x0201" "\<lambda>_. True"
  unfolding Stuff_Current_Data_0201H_def
proof (rule stuff_message)
  fix d :: device
  show "length (be16 (Centre_FloatID (ans d)) @ current_position (gps d) @ item_speed d @ item_distance d @
      item_inout d @ item_overspeed d @ item_signal d @ item_analog d) < 838"
    using length_items [of d] by simp
qed (auto dest: nobuf_eqD simp: item_speed_def item_distance_def item_inout_def item_overspeed_def item_signal_def
    item_analog_def)

text \<open>The messages that read the configuration, with the sizes of its arrays.\<close>

definition conf_ok :: "vehicle \<Rightarrow> bool" where
  "conf_ok v =
     (length (DomainNameStr v) \<le> 50 \<and> length (APN_String v) \<le> 30 \<and> length (LISTEN_Num v) \<le> 30 \<and>
      length (DriveName v) \<le> 22 \<and> length (Comfirm_agentID v) \<le> 41 \<and> length (Data_Tx v) \<le> 20 \<and>
      length (RemoteIP_aux v) = 4 \<and> length (Vech_Num (terminal (dev v))) \<le> 13 \<and>
      length (ConfirmCode (terminal (dev v))) \<le> 20)"

lemma length_dec_byte: "length (dec (unat (b :: u8))) \<le> 3"
proof -
  have "unat b < 256" by (rule unat_u8_less)
  moreover have "length (dec n) \<le> 3" if "n < 256" for n
  proof -
    have "n div 10 div 10 < 10" using that by simp
    then show ?thesis by (simp add: dec.simps [of n] dec.simps [of "n div 10"] dec.simps [of "n div 10 div 10"])
  qed
  ultimately show ?thesis by blast
qed

lemma length_IP_Str: "length (IP_Str ip) \<le> 15"
  using length_dec_byte [of "ip ! 0"] length_dec_byte [of "ip ! 1"] length_dec_byte [of "ip ! 2"]
    length_dec_byte [of "ip ! 3"] by (simp add: IP_Str_def)

lemma length_cstr: "length (cstr s) \<le> length s"
  by (simp add: cstr_def length_takeWhile_le)

lemma length_param [simp]: "length (param i b) = 5 + length b"
  by (simp add: param_def)

abbreviation (input) vech_num_ok :: "device \<Rightarrow> bool" where
  "vech_num_ok d \<equiv> length (Vech_Num (terminal d)) \<le> 13"

lemma message_0104:
  assumes "conf_ok v"
  shows "message_function (\<lambda>d. stuff 0x0104 0 (\<lambda>d. put (be16 (Centre_FloatID (ans d)) @ [11] @
       param 0x83 (cstr (Vech_Num (terminal d))) @ param 0x13 (cstr (DomainNameStr v)) @
       param 0x18 ([0x00, 0x00] @ be16 (RemotePort_main v)) @ param 0x10 (cstr (APN_String v)) @
       param 0x17 (IP_Str (RemoteIP_aux v)) @ param 0x29 (be32 (Default_Dur v)) @
       param 0x40 (cstr (LISTEN_Num v)) @ param 0x55 (be32 (Speed_warn_MAX (terminal d))) @
       param 0x57 (be32 (Door_DrvKeepingSec v)) @ param 0x59 (be32 (Door_MinSleepSec v)) @
       param 0xF000 (take 12 (DeviceNumberID (terminal d)))) d) d) 0x0104 vech_num_ok"
proof (rule stuff_message, goal_cases)
  case (1 d)
  have "length (cstr (Vech_Num (terminal d))) \<le> 13" "length (cstr (DomainNameStr v)) \<le> 50"
    "length (cstr (APN_String v)) \<le> 30" "length (cstr (LISTEN_Num v)) \<le> 30"
    using 1(2) assms length_cstr le_trans unfolding conf_ok_def by blast+
  then show ?case using length_IP_Str [of "RemoteIP_aux v"] by simp
qed (auto dest: nobuf_eqD)

lemma message_0500:
  "message_function (stuff 0x0500 0 (\<lambda>d. put (be16 (Vech_CMD_FloatID v) @ current_position (gps d)) d)) 0x0500 (\<lambda>_. True)"
proof (rule stuff_message, goal_cases)
  case (1 d)
  show ?case using length_items(8) [of d] by simp
qed (auto dest: nobuf_eqD)

lemma message_0900:
  "conf_ok v \<Longrightarrow> message_function (stuff 0x0900 0 (\<lambda>d. put ([DataTrans_TYPE v] @ take (Data_TxLen v) (Data_Tx v)) d))
     0x0900 (\<lambda>_. True)"
  by (rule stuff_message) (auto simp: conf_ok_def)

lemma message_0702:
  assumes "conf_ok v"
  shows "message_function (stuff 0x0702 0 (\<lambda>d. put ([byte (length (cstr (DriveName v)))] @ cstr (DriveName v) @
       take 20 (Driver_ID v) @ take 40 (Drv_CareerID v) @ [byte (length (cstr (Comfirm_agentID v)))] @
       cstr (Comfirm_agentID v)) d)) 0x0702 (\<lambda>_. True)"
proof (rule stuff_message, goal_cases)
  case (1 d)
  have "length (cstr (DriveName v)) \<le> 22" "length (cstr (Comfirm_agentID v)) \<le> 41"
    using assms length_cstr le_trans unfolding conf_ok_def by blast+
  then show ?case by simp
qed simp

lemma message_0701: "message_function (stuff 0x0701 0 (put (be32 207 @ worklist_text))) 0x0701 (\<lambda>_. True)"
  using stuff_message [of "\<lambda>_. True" "\<lambda>_. be32 207 @ worklist_text" "0x0701" 0]
  by (simp add: worklist_text_def)

text \<open>The recorder data: every branch stays inside the buffer.\<close>

lemma sched_ops [simp]:
  "sched (put bs d) = sched d" "sched (poke bs d) = sched d" "sched (advance n d) = sched d"
  "sched (d\<lparr>st := s\<rparr>) = sched d" "sched (set_len n d) = sched d"
  by (simp_all add: sched_def set_len_def)

lemma tx_set_len [simp]: "tx (set_len n d) = tx d" "st (set_len n d) = st d" "Original_info_Wr (set_len n d) = Original_info_Wr d"
  by (simp_all add: set_len_def)

text \<open>\<open>grown mid k d e\<close>: \<open>e\<close> is \<open>d\<close> with at most \<open>k\<close> more bytes in the message.\<close>

definition grown :: "nat \<Rightarrow> nat \<Rightarrow> device \<Rightarrow> device \<Rightarrow> bool" where
  "grown mid k d e = (building mid d \<and> Original_info_Wr d + k < 850 \<longrightarrow>
     building mid e \<and> Original_info_Wr e \<le> Original_info_Wr d + k \<and> sched e = sched d \<and> tx e = tx d)"

lemma grown_put: "length bs \<le> k \<Longrightarrow> grown mid k d (put bs d)"
  by (auto simp: grown_def intro: building_put)

lemma grown_poke_advance: "n \<le> k \<Longrightarrow> grown mid k d (advance n (poke bs d))"
  by (auto simp: grown_def intro: building_advance building_poke)

lemma grown_trans: "grown mid j d e \<Longrightarrow> grown mid k e f \<Longrightarrow> grown mid (j + k) d f"
  by (auto simp: grown_def)

lemma grown_st: "grown mid k (d\<lparr>st := s\<rparr>) e \<Longrightarrow> grown mid k d e"
  by (simp add: grown_def)

lemma grown_set_len: "grown mid k d (set_len n d)"
  by (simp add: grown_def building_set_len)

lemma grown_put_record: "grown mid step (snd rd) (snd (put_record name len style from n step i rd))"
proof (cases "Api_DFdirectory_Read name len style i (st (snd rd))")
  case (fields r c s)
  then show ?thesis
    by (simp add: put_record_def Let_def) (rule grown_st [where s = s], rule grown_poke_advance, simp)
qed

lemma grown_records:
  "grown mid (length is * step) (snd rd) (snd (fold (put_record name len style from n step) is rd))"
proof (induction "is" arbitrary: rd)
  case Nil
  show ?case by (simp add: grown_def)
next
  case (Cons i js)
  from grown_trans [OF grown_put_record Cons.IH] show ?case by (simp add: add.commute)
qed

lemma grown_speed_records: "grown mid 459 d (speed_records style junk c n d)"
proof -
  let ?q = "min (u8n (AvrgSpdPerMin_write (st d))) 7"
  have q: "Api_DFdirectory_Query spdpermin 0 s = (AvrgSpdPerMin_write s, s)" for s
    by (simp add: Api_DFdirectory_Query_def)
  let ?e = "set_len (?q * 65) (put (rec_head c n) d)"
  have "grown mid 4 d (put (rec_head c n) d)" by (rule grown_put) (simp add: rec_head_def)
  from grown_trans [OF this grown_set_len] have "grown mid (4 + 0) d ?e" by blast
  from grown_trans [OF this, of "?q * 65"] grown_records [of mid "[0..<?q]" 65 "(junk, ?e)" spdpermin 70 style 5 60]
  have "grown mid (4 + 0 + ?q * 65) d (speed_records style junk c n d)"
    by (simp add: speed_records_def Let_def q)
  moreover have "?q * 65 \<le> 455" by simp
  ultimately show ?thesis by (auto simp: grown_def)
qed

lemma grown_tired_records: "grown mid 94 d (tired_records junk c v d)"
proof -
  let ?q = "min (u8n (TiredDrv_write (st d))) 6"
  have q: "Api_DFdirectory_Query tired_warn 0 s = (TiredDrv_write s, s)" for s
    by (simp add: Api_DFdirectory_Query_def)
  let ?h = "put (take 18 (DriverCard_ID v)) (put (rec_head c 90) d)"
  let ?e = "set_len (?q * 12 + 18) ?h"
  have "grown mid 4 d (put (rec_head c 90) d)" by (rule grown_put) (simp add: rec_head_def)
  from grown_trans [OF this grown_put [of "take 18 (DriverCard_ID v)" 18]] have "grown mid (4 + 18) d ?h" by simp
  from grown_trans [OF this grown_set_len] have "grown mid (4 + 18 + 0) d ?e" by blast
  from grown_trans [OF this, of "?q * 12"] grown_records [of mid "[0..<?q]" 12 "(junk, ?e)" tired_warn 31 0 18 12]
  have "grown mid (4 + 18 + 0 + ?q * 12) d (tired_records junk c v d)"
    by (simp add: tired_records_def Let_def q)
  moreover have "?q * 12 \<le> 72" by simp
  ultimately show ?thesis by (auto simp: grown_def)
qed

lemma grown_doubt_record: "grown mid 210 d (doubt_record c d)"
proof -
  obtain r b s where r: "Api_DFdirectory_Read doubt_data 207 0 0 (st d) = (r, b, s)" by (rule prod_cases3)
  let ?h = "put (rec_head c 206) d"
  have h: "grown mid 4 d ?h" by (rule grown_put) (simp add: rec_head_def)
  let ?p = "case b of Some b \<Rightarrow> poke b (?h\<lparr>st := s\<rparr>) | None \<Rightarrow> ?h\<lparr>st := s\<rparr>"
  have "grown mid 206 ?h (if r then advance 206 ?p else set_len 0 ?p)"
    by (auto simp: grown_def building_advance building_poke building_set_len split: option.split)
  from grown_trans [OF h this] show ?thesis by (simp add: doubt_record_def r Let_def)
qed

lemma grown_recorder_data:
  assumes "recorder_data junk v d = Some e"
  shows "grown mid 459 d e"
proof -
  have g: "grown mid 459 d (doubt_record c d)" "grown mid 459 d (tired_records junk c v d)" for c
    using grown_doubt_record [of mid d c] grown_tired_records [of mid d junk c v] by (auto simp: grown_def)
  have p: "length bs \<le> 459 \<Longrightarrow> grown mid 459 d (put bs d)" for bs by (rule grown_put)
  have t: "length bs \<le> 400 \<Longrightarrow> grown mid 459 d (advance 5 (poke cs (put bs d)))" for bs cs
    using grown_trans [OF grown_put [of bs 400] grown_poke_advance [of 5 59]] by simp
  show ?thesis
    using assms g grown_speed_records
    by (auto simp: recorder_data_def Let_def rec_head_def dist_bcd_def Time2BCD_def split: if_splits intro!: p t)
qed

text \<open>Messages with a content that may be missing, as a message function.\<close>

lemma built_message:
  assumes "\<And>d e. buffer_ok d \<Longrightarrow> building mid e \<Longrightarrow> Original_info_Wr e = 12 \<Longrightarrow> nobuf e = nobuf d \<Longrightarrow>
      case content e of Some f \<Rightarrow> building mid f \<and> sched f = sched e \<and> tx f = tx e
      | None \<Rightarrow> sched (left e) = sched e \<and> tx (left e) = tx e \<and> building mid (left e)"
  shows "message_function (\<lambda>d. case Protocol_Head mid Packet_Normal d of
        (False, d) \<Rightarrow> (False, d)
      | (True, d) \<Rightarrow> (case content d of None \<Rightarrow> (False, left d) | Some d \<Rightarrow> (True, Protocol_End Packet_Normal l d)))
      mid (\<lambda>_. True)"
proof -
  let ?f = "\<lambda>d. case Protocol_Head mid Packet_Normal d of
        (False, d) \<Rightarrow> (False, d)
      | (True, d) \<Rightarrow> (case content d of None \<Rightarrow> (False, left d) | Some d \<Rightarrow> (True, Protocol_End Packet_Normal l d))"
  have "(if fst (?f d) then one_sent mid d (snd (?f d)) else tx (snd (?f d)) = tx d) \<and> keeps d (snd (?f d))"
    if d: "buffer_ok d" for d
  proof -
    obtain e where e: "Protocol_Head mid Packet_Normal d = (True, e)" "building mid e"
      "Original_info_Wr e = 12" "nobuf e = nobuf d"
      using Protocol_Head_building [OF d] by blast
    have t: "tx e = tx d" using arg_cong [OF e(4), of tx] by simp
    have sc: "sched e = sched d" using e(4) by (rule sched_nobuf)
    note a = assms [OF d e(2-4)]
    show ?thesis
    proof (cases "content e")
      case None
      with a e(1) t sc show ?thesis by (simp add: keeps_def building_def)
    next
      case (Some f)
      with a have f: "building mid f" "sched f = sched e" "tx f = tx e" by simp_all
      note fin = Protocol_End_sent [OF f(1) refl, of l]
      have "sched (Protocol_End Packet_Normal l f) = sched f" using fin(3) by (simp add: sched_def)
      with fin f t sc e(1) Some show ?thesis by (simp add: keeps_def one_sent_tx [of f d])
    qed
  qed
  then show ?thesis by unfold_locales (auto split: if_splits)
qed

lemma message_0700:
  "message_function (\<lambda>d. case Protocol_Head 0x0700 Packet_Normal d of
          (False, d) \<Rightarrow> (False, d)
        | (True, d) \<Rightarrow>
            let d = put (be16 (Recode_Float_ID v) @ [Recode_CMD v]) d;
                Swr = Original_info_Wr d;
                d = put [0x55, 0x7A] d
            in (case recorder_data junk v d of
                  None \<Rightarrow> (False, d)
                | Some d \<Rightarrow> (True, Protocol_End Packet_Normal 0 (put [xor_sum (drop Swr (msg d))] d)))) 0x0700 (\<lambda>_. True)"
proof -
  let ?o = "\<lambda>d. put [0x55, 0x7A] (put (be16 (Recode_Float_ID v) @ [Recode_CMD v]) d)"
  let ?c = "\<lambda>d. map_option (\<lambda>e. put [xor_sum (drop (Original_info_Wr d + 3) (msg e))] e) (recorder_data junk v (?o d))"
  have "message_function (\<lambda>d. case Protocol_Head 0x0700 Packet_Normal d of
        (False, d) \<Rightarrow> (False, d)
      | (True, d) \<Rightarrow> (case ?c d of None \<Rightarrow> (False, ?o d) | Some d \<Rightarrow> (True, Protocol_End Packet_Normal 0 d)))
      0x0700 (\<lambda>_. True)"
  proof (rule built_message)
    fix d e :: device assume e: "building 0x0700 e" "Original_info_Wr e = 12"
    have o: "building 0x0700 (?o e)" "Original_info_Wr (?o e) = 17"
      using e by (auto intro!: building_put)
    have "building 0x0700 f \<and> Original_info_Wr f \<le> 17 + 459 \<and> sched f = sched e \<and> tx f = tx e"
      if "recorder_data junk v (?o e) = Some f" for f
      using grown_recorder_data [OF that, of "0x0700"] o by (simp add: grown_def)
    then show "case ?c e of Some f \<Rightarrow> building 0x0700 f \<and> sched f = sched e \<and> tx f = tx e
        | None \<Rightarrow> sched (?o e) = sched e \<and> tx (?o e) = tx e \<and> building 0x0700 (?o e)"
      using o by (auto split: option.split intro!: building_put)
  qed
  moreover have eq: "(case ?c d of None \<Rightarrow> (False, ?o d) | Some d \<Rightarrow> (True, Protocol_End Packet_Normal 0 d)) =
      (let d = put (be16 (Recode_Float_ID v) @ [Recode_CMD v]) d; Swr = Original_info_Wr d; d = put [0x55, 0x7A] d
       in (case recorder_data junk v d of None \<Rightarrow> (False, d)
          | Some d \<Rightarrow> (True, Protocol_End Packet_Normal 0 (put [xor_sum (drop Swr (msg d))] d))))" for d
    by (simp add: Let_def split: option.split)
  ultimately show ?thesis by (simp only: eq)
qed

lemma message_ISP:
  assumes "AckType = 0x92 \<or> AckType = 0x94 \<or> AckType = 0x96"
  shows "message_function (\<lambda>d. case Protocol_Head 0x0900 Packet_Normal d of
          (False, d) \<Rightarrow> (False, d)
        | (True, d) \<Rightarrow>
            let content = (if AckType = 0x92 \<or> AckType = 0x96 then Some []
                  else if AckType = 0x94
                  then Some (be16 (ISP_current_packnum v) @ be16 (ISP_total_packnum v) @ [ISP_ack_resualt v])
                  else None)
            in (case content of
                  None \<Rightarrow> (False, d)
                | Some b \<Rightarrow>
                    let d = put ([1] @ isp_sub AckType b v) d;
                        d = put [xor_sum (drop 3 (msg d)), 0x0D, 0x0A] d
                    in (True, Protocol_End Packet_Normal 1 d))) 0x0900 (\<lambda>_. True)"
proof -
  let ?b = "if AckType = 0x94 then be16 (ISP_current_packnum v) @ be16 (ISP_total_packnum v) @ [ISP_ack_resualt v] else []"
  let ?s = "put ([1] @ isp_sub AckType ?b v)"
  let ?c = "\<lambda>d. Some (put [xor_sum (drop 3 (msg (?s d))), 0x0D, 0x0A] (?s d))"
  have len: "length (isp_sub AckType ?b v) \<le> 30"
    by (auto simp: isp_sub_def Let_def ascii_def)
  have "message_function (\<lambda>d. case Protocol_Head 0x0900 Packet_Normal d of
        (False, d) \<Rightarrow> (False, d)
      | (True, d) \<Rightarrow> (case ?c d of None \<Rightarrow> (False, id d) | Some d \<Rightarrow> (True, Protocol_End Packet_Normal 1 d)))
      0x0900 (\<lambda>_. True)"
    by (rule built_message) (use len in \<open>auto intro!: building_put\<close>)
  moreover have eq: "(case ?c d of None \<Rightarrow> (False, id d) | Some d \<Rightarrow> (True, Protocol_End Packet_Normal 1 d)) =
      (let content = (if AckType = 0x92 \<or> AckType = 0x96 then Some []
            else if AckType = 0x94
            then Some (be16 (ISP_current_packnum v) @ be16 (ISP_total_packnum v) @ [ISP_ack_resualt v]) else None)
       in (case content of None \<Rightarrow> (False, d)
          | Some b \<Rightarrow> let d = put ([1] @ isp_sub AckType b v) d; d = put [xor_sum (drop 3 (msg d)), 0x0D, 0x0A] d
              in (True, Protocol_End Packet_Normal 1 d)))" for d
    using assms by (auto simp: Let_def)
  ultimately show ?thesis by (simp only: eq)
qed

section \<open>One turn of the sending task\<close>

text \<open>The message identifier that a receiver reads from a frame.\<close>

definition frame_id :: "bytes \<Rightarrow> nat option" where
  "frame_id f = map_option rx_CmdID (TCP_RX_check f (length f))"

lemma frame_id_frame808:
  assumes "take 2 m = be16 mid" and "12 \<le> length m" and "mid < 65536"
  shows "frame_id (frame808 m) = Some mid"
proof -
  obtain x y r where m: "m = x # y # r" using assms(2) by (cases m; cases "tl m") auto
  with assms(1) have "x = byte (mid div 256)" "y = byte mid" by (simp_all add: be16_def)
  then have "of_be16 (m ! 0) (m ! 1) = mid" using m assms(3) by (simp add: of_be16_be16)
  then show ?thesis using frame808_check [OF assms(2), of "[]"] by (auto simp: frame_id_def)
qed

lemma one_sent_id:
  assumes "one_sent mid d d'" and "mid < 65536"
  shows "\<exists>fs. tx d' = tx d @ fs \<and> map (\<lambda>f. frame_id (fst f)) fs = [Some mid]"
  using assms frame_id_frame808 unfolding one_sent_def by (metis fst_conv list.simps(8,9))

definition guards :: "vehicle \<Rightarrow> bool list" where
  "guards v = map (\<lambda>b. fst b v) (branches (\<lambda>_. []) [])"

lemma list_update_numeral [simp]: "(x # xs)[numeral k := y] = x # xs[pred_numeral k := y]"
  by (simp add: numeral_eq_Suc)

lemma keeps_flags:
  assumes "keeps d d'"
  shows "ans d' = ans d" "MediaObj d' = MediaObj d" "DataLink_OK d' = DataLink_OK d"
    "DEV_Login_Operate_enable d' = DEV_Login_Operate_enable d" "ISP_running_state d' = ISP_running_state d"
    "terminal d' = terminal d"
proof -
  have e: "sched d' = sched d" using assms by (simp add: keeps_def)
  show "ans d' = ans d" using arg_cong [OF e, of ans] by (simp add: sched_def)
  show "MediaObj d' = MediaObj d" using arg_cong [OF e, of MediaObj] by (simp add: sched_def)
  show "DataLink_OK d' = DataLink_OK d" using arg_cong [OF e, of DataLink_OK] by (simp add: sched_def)
  show "DEV_Login_Operate_enable d' = DEV_Login_Operate_enable d"
    using arg_cong [OF e, of DEV_Login_Operate_enable] by (simp add: sched_def)
  show "ISP_running_state d' = ISP_running_state d"
    using arg_cong [OF e, of ISP_running_state] by (simp add: sched_def nobuf_def)
  show "terminal d' = terminal d" using arg_cong [OF e, of terminal] by (simp add: sched_def)
qed

text \<open>
  The identifiers of the branches, in their order; waking from sleep sends nothing.
\<close>

definition branch_ids :: "nat list list" where
  "branch_ids = [[0x0100], [0x0101], [0x0002], [], [0x0201], [0x0301], [0x0302], [0x0805], [0x0500], [0x0700],
     [0x0303], [0x0800], [0x0900], [0x0802], [0x0702], [0x0701], [0x0001], [0x0104], [0x0900], [0x0900],
     [0x0900], [0x0100]]"

definition recorder_cmd :: "u8 \<Rightarrow> bool" where
  "recorder_cmd c = (c \<in> {0x01, 0x02, 0x03, 0x04, 0x05, 0x06, 0x07, 0x08, 0x09, 0x11, 0x81, 0x82, 0xC2, 0xC3})"

text \<open>Arrays have their sizes, and what is asked for exists.\<close>

definition report_ok :: "vehicle \<Rightarrow> bool" where
  "report_ok v = (buffer_ok (dev v) \<and> conf_ok v \<and> length (MediaIndex v) = 52 \<and>
     Media_Type (MediaObj (dev v)) \<le> 2 \<and> recorder_cmd (Recode_CMD v))"

text \<open>No login is due and no multimedia transmission runs.\<close>

definition quiet :: "vehicle \<Rightarrow> bool" where
  "quiet v = (\<not> (DEV_Login_Operate_enable (dev v) \<noteq> 2 \<and> Login_Enable_sd v = 1) \<and>
     \<not> (Media_transmittingFlag (MediaObj (dev v)) = 2 \<and> DEV_Login_Operate_enable (dev v) = 2))"

text \<open>Branch \<open>i\<close> was served: its request is gone, the others are as before, its message is out.\<close>

definition served :: "nat \<Rightarrow> vehicle \<Rightarrow> vehicle \<Rightarrow> bool" where
  "served i v v' = (guards v' = (guards v)[i := False] \<and> report_ok v' \<and> (quiet v \<longrightarrow> quiet v') \<and>
     (\<exists>fs. tx (dev v') = tx (dev v) @ fs \<and> map (\<lambda>f. frame_id (fst f)) fs = map Some (branch_ids ! i)))"

lemma served_by:
  assumes "message_function f mid fits" and "report_ok v" and "fits (dev v)" and "fst (f (dev v))"
    and "branch_ids ! i = [mid]" and "mid < 65536"
    and "\<And>d'. keeps (dev v) d' \<Longrightarrow> buffer_ok d' \<Longrightarrow> guards (clear (v\<lparr>dev := d'\<rparr>)) = (guards v)[i := False]"
    and "\<And>d'. keeps (dev v) d' \<Longrightarrow> buffer_ok d' \<Longrightarrow> report_ok (clear (v\<lparr>dev := d'\<rparr>)) \<and>
        (quiet v \<longrightarrow> quiet (clear (v\<lparr>dev := d'\<rparr>))) \<and> tx (dev (clear (v\<lparr>dev := d'\<rparr>))) = tx d'"
  shows "served i v (clear (v\<lparr>dev := snd (f (dev v))\<rparr>))"
proof -
  have b: "buffer_ok (dev v)" using assms(2) by (simp add: report_ok_def)
  let ?d = "snd (f (dev v))"
  have k: "keeps (dev v) ?d" and o: "buffer_ok ?d"
    using message_function.kept [OF assms(1) b assms(3)] message_function.still_ok [OF assms(1) b assms(3)] by simp_all
  have "one_sent mid (dev v) ?d" using message_function.sent [OF assms(1) b assms(3,4)] .
  from one_sent_id [OF this assms(6)] assms(5) assms(7) [OF k o] assms(8) [OF k o] show ?thesis
    unfolding served_def by auto
qed

lemma fst_stuff: "fst (stuff mid l c d)"
  using Protocol_Head_normal(1) [of mid d] by (cases "Protocol_Head mid Packet_Normal d") (simp add: stuff_def)

lemmas served_defs = guards_def branches_def report_ok_def quiet_def conf_ok_def

lemma branch_0101: "report_ok v \<Longrightarrow> served 1 v ((snd (with_dev Stuff_DeviceDeregister_0101H v))\<lparr>DeRegst_sd := 0\<rparr>)"
  unfolding with_dev_def snd_conv
  by (rule served_by [OF m0101.message_function_axioms, where clear = "\<lambda>v. v\<lparr>DeRegst_sd := 0\<rparr>"])
     (simp_all add: Stuff_DeviceDeregister_0101H_def fst_stuff branch_ids_def served_defs keeps_flags)

lemma branch_0002: "report_ok v \<Longrightarrow> served 2 v ((snd (with_dev Stuff_DeviceHeartPacket_0002H v))\<lparr>Heart_SDFlag := 0, TCP_SD_state := 1\<rparr>)"
  unfolding with_dev_def snd_conv
  by (rule served_by [OF m0002.message_function_axioms, where clear = "\<lambda>v. v\<lparr>Heart_SDFlag := 0, TCP_SD_state := 1\<rparr>"])
     (simp_all add: Stuff_DeviceHeartPacket_0002H_def fst_stuff branch_ids_def served_defs keeps_flags)

lemma branch_0201: "report_ok v \<Longrightarrow> served 4 v ((snd (with_dev Stuff_Current_Data_0201H v))\<lparr>f_CurrentPosition_0201H := 0\<rparr>)"
  unfolding with_dev_def snd_conv
  by (rule served_by [OF m0201.message_function_axioms, where clear = "\<lambda>v. v\<lparr>f_CurrentPosition_0201H := 0\<rparr>"])
     (simp_all add: Stuff_Current_Data_0201H_def fst_stuff branch_ids_def served_defs keeps_flags)

lemma branch_0301: "report_ok v \<Longrightarrow> served 5 v ((snd (with_dev Stuff_EventACK_0301H v))\<lparr>f_CurrentEventACK_0301H := 0\<rparr>)"
  unfolding with_dev_def snd_conv
  by (rule served_by [OF m0301.message_function_axioms, where clear = "\<lambda>v. v\<lparr>f_CurrentEventACK_0301H := 0\<rparr>"])
     (simp_all add: Stuff_EventACK_0301H_def fst_stuff branch_ids_def served_defs keeps_flags)

lemma branch_0302: "report_ok v \<Longrightarrow> served 6 v ((snd (with_dev Stuff_ASKACK_0302H v))\<lparr>ASK_SdFlag := 0\<rparr>)"
  unfolding with_dev_def snd_conv
  by (rule served_by [OF m0302.message_function_axioms, where clear = "\<lambda>v. v\<lparr>ASK_SdFlag := 0\<rparr>"])
     (simp_all add: Stuff_ASKACK_0302H_def fst_stuff branch_ids_def served_defs keeps_flags)

lemma branch_0303: "report_ok v \<Longrightarrow> served 10 v ((snd (with_dev Stuff_MSGACK_0303H v))\<lparr>f_MsgBroadCast_0303H := 0\<rparr>)"
  unfolding with_dev_def snd_conv
  by (rule served_by [OF m0303.message_function_axioms, where clear = "\<lambda>v. v\<lparr>f_MsgBroadCast_0303H := 0\<rparr>"])
     (simp_all add: Stuff_MSGACK_0303H_def fst_stuff branch_ids_def served_defs keeps_flags)

lemma branch_0805: "report_ok v \<Longrightarrow> served 7 v (on_dev (\<lambda>d. d\<lparr>ans := (ans d)\<lparr>f_BD_CentreTakeAck_0805H := 0\<rparr>\<rparr>) (snd (with_dev Stuff_CentreTakeACK_BD_0805H v)))"
  unfolding with_dev_def snd_conv
  by (rule served_by [OF m0805.message_function_axioms, where clear = "on_dev (\<lambda>d. d\<lparr>ans := (ans d)\<lparr>f_BD_CentreTakeAck_0805H := 0\<rparr>\<rparr>)"])
     (simp_all add: Stuff_CentreTakeACK_BD_0805H_def on_dev_def buffer_ok_def fst_stuff branch_ids_def served_defs keeps_flags)

lemma branch_0100u: "report_ok v \<Longrightarrow> served 21 v ((snd (with_dev (Stuff_RegisterPacket_0100H 1) v))\<lparr>TCP2_sdFlag := 0\<rparr>)"
  unfolding with_dev_def snd_conv
  by (rule served_by [OF m0100u.message_function_axioms, where clear = "\<lambda>v. v\<lparr>TCP2_sdFlag := 0\<rparr>"])
     (simp_all add: Stuff_RegisterPacket_0100H_def fst_stuff branch_ids_def served_defs keeps_flags)

lemma branch_0500:
  assumes "report_ok v"
  shows "served 8 v ((snd (Stuff_ControlACK_0500H v))\<lparr>Vech_ACK_SD_Flag := 0\<rparr>)"
proof -
  have c: "conf_ok v" using assms by (simp add: report_ok_def)
  show ?thesis
    unfolding Stuff_ControlACK_0500H_def with_dev_def snd_conv
    by (rule served_by [OF message_0500, where clear = "\<lambda>v. v\<lparr>Vech_ACK_SD_Flag := 0\<rparr>"])
       (use assms in \<open>simp_all add: fst_stuff branch_ids_def served_defs keeps_flags\<close>)
qed

lemma branch_0702:
  assumes "report_ok v"
  shows "served 14 v ((snd (Stuff_DriverInfoSD_0702H v))\<lparr>f_DriverInfoSD_0702H := 0\<rparr>)"
proof -
  have c: "conf_ok v" using assms by (simp add: report_ok_def)
  show ?thesis
    unfolding Stuff_DriverInfoSD_0702H_def with_dev_def snd_conv
    by (rule served_by [OF message_0702 [OF c], where clear = "\<lambda>v. v\<lparr>f_DriverInfoSD_0702H := 0\<rparr>"])
       (use assms in \<open>simp_all add: fst_stuff branch_ids_def served_defs keeps_flags\<close>)
qed

lemma branch_0701:
  assumes "report_ok v"
  shows "served 15 v ((snd (Stuff_Worklist_0701H v))\<lparr>f_Worklist_SD_0701H := 0\<rparr>)"
proof -
  have c: "conf_ok v" using assms by (simp add: report_ok_def)
  show ?thesis
    unfolding Stuff_Worklist_0701H_def with_dev_def snd_conv
    by (rule served_by [OF message_0701, where clear = "\<lambda>v. v\<lparr>f_Worklist_SD_0701H := 0\<rparr>"])
       (use assms in \<open>simp_all add: fst_stuff branch_ids_def served_defs keeps_flags\<close>)
qed

lemma branch_0104:
  assumes "report_ok v"
  shows "served 17 v ((snd (Stuff_SettingPram_0104H v))\<lparr>f_SettingPram_0104H := 0\<rparr>)"
proof -
  have c: "conf_ok v" using assms by (simp add: report_ok_def)
  show ?thesis
    unfolding Stuff_SettingPram_0104H_def with_dev_def snd_conv
    by (rule served_by [OF message_0104 [OF c], where clear = "\<lambda>v. v\<lparr>f_SettingPram_0104H := 0\<rparr>"])
       (use assms in \<open>simp_all add: fst_stuff branch_ids_def served_defs keeps_flags\<close>)
qed

lemma branch_sleep: "report_ok v \<Longrightarrow> served 3 v (v\<lparr>SleepConfigFlag := 0\<rparr>)"
  by (simp add: served_def branch_ids_def served_defs)

lemma branch_0100: "report_ok v \<Longrightarrow> served 0 v (register_now img v)"
proof -
  assume r: "report_ok v"
  let ?clear = "\<lambda>v. (on_dev (\<lambda>d. d\<lparr>st := snd (Api_Config_Recwrite_Large jt808 0
      (img (on_dev (\<lambda>d. d\<lparr>Msg_Float_ID := 0\<rparr>) v)) (length (img (on_dev (\<lambda>d. d\<lparr>Msg_Float_ID := 0\<rparr>) v))) (st d))\<rparr>)
      (on_dev (\<lambda>d. d\<lparr>Msg_Float_ID := 0\<rparr>) v))\<lparr>Reg_Enable_sd := 0\<rparr>"
  have "served 0 v (?clear (v\<lparr>dev := snd (Stuff_RegisterPacket_0100H 0 (dev v))\<rparr>))"
    by (rule served_by [OF m0100.message_function_axioms r])
       (use r in \<open>simp_all add: Stuff_RegisterPacket_0100H_def fst_stuff branch_ids_def served_defs keeps_flags
          on_dev_def buffer_ok_def\<close>)
  then show ?thesis by (simp add: register_now_def with_dev_def Let_def)
qed

lemma branch_0001: "report_ok v \<Longrightarrow> served 16 v (common_ack v)"
proof -
  assume r: "report_ok v"
  let ?act = "\<lambda>v. let f = f_CentreCMDack_0001H (ans (dev v))
     in if f = 2 then v\<lparr>DataLink_EndFlag := 1\<rparr>
        else if f = 3 then v\<lparr>Systerm_Reset_counter := 28800, ISP_resetFlag := 2\<rparr>
        else if f = 5 then v\<lparr>DataLink_EndFlag := 1, Datalink_close := 1\<rparr> else v"
  let ?clear = "\<lambda>v. on_dev (\<lambda>d. d\<lparr>ans := (ans d)\<lparr>f_CentreCMDack_0001H := 0, f_CentreCMDack_resualt := 0\<rparr>\<rparr>) (?act v)"
  have "served 16 v (?clear (v\<lparr>dev := snd (Stuff_DevCommmonACK_0001H (dev v))\<rparr>))"
    by (rule served_by [OF m0001.message_function_axioms r])
       (use r in \<open>simp_all add: Stuff_DevCommmonACK_0001H_def fst_stuff branch_ids_def served_defs keeps_flags
          on_dev_def buffer_ok_def Let_def\<close>)
  then show ?thesis by (simp only: common_ack_def with_dev_def Let_def snd_conv)
qed

lemma branch_0900: "report_ok v \<Longrightarrow> served 12 v (DataTrans_Init (snd (Stuff_DataTransTx_0900H v)))"
proof -
  assume r: "report_ok v"
  then have c: "conf_ok v" by (simp add: report_ok_def)
  have s: "length b \<le> 20 \<Longrightarrow> length (splice 0 (replicate 4 0) b) \<le> 20" for b :: bytes by (simp add: splice_def)
  show ?thesis
    unfolding Stuff_DataTransTx_0900H_def with_dev_def snd_conv
    by (rule served_by [OF message_0900 [OF c] r, where clear = DataTrans_Init])
       (use r s in \<open>simp_all add: fst_stuff branch_ids_def served_defs keeps_flags DataTrans_Init_def\<close>)
qed

lemma branch_0700: "report_ok v \<Longrightarrow> served 9 v ((snd (Stuff_RecoderACK_0700H junk v))\<lparr>Recode_SD_Data_Flag := 0\<rparr>)"
proof -
  assume r: "report_ok v"
  have "\<exists>e. recorder_data junk v d = Some e" for d
    using r by (auto simp: report_ok_def recorder_cmd_def recorder_data_def Let_def)
  then have f: "fst (case Protocol_Head 0x0700 Packet_Normal d of (False, d) \<Rightarrow> (False, d)
        | (True, d) \<Rightarrow>
            let d = put (be16 (Recode_Float_ID v) @ [Recode_CMD v]) d; Swr = Original_info_Wr d; d = put [0x55, 0x7A] d
            in (case recorder_data junk v d of None \<Rightarrow> (False, d)
                | Some d \<Rightarrow> (True, Protocol_End Packet_Normal 0 (put [xor_sum (drop Swr (msg d))] d))))" for d
    using Protocol_Head_normal(1) [of "0x0700" d]
    by (cases "Protocol_Head 0x0700 Packet_Normal d") (auto simp: Let_def split: option.split)
  show ?thesis
    unfolding Stuff_RecoderACK_0700H_def with_dev_def snd_conv
    by (rule served_by [OF message_0700 r _ f, where clear = "\<lambda>v. v\<lparr>Recode_SD_Data_Flag := 0\<rparr>"])
       (use r in \<open>simp_all add: branch_ids_def served_defs keeps_flags\<close>)
qed

lemma fst_ISP_ACK:
  assumes "AckType = 0x92 \<or> AckType = 0x94 \<or> AckType = 0x96"
  shows "fst (Stuff_DataTrans_0900_ISP_ACK AckType v)"
  using assms Protocol_Head_normal(1) [of "0x0900" "dev v"]
  by (cases "Protocol_Head 0x0900 Packet_Normal (dev v)")
     (auto simp: Stuff_DataTrans_0900_ISP_ACK_def with_dev_def Let_def)

lemma served_ISP:
  assumes "report_ok v" and "AckType = 0x92 \<or> AckType = 0x94 \<or> AckType = 0x96" and "branch_ids ! i = [0x0900]"
    and "\<And>d'. keeps (dev v) d' \<Longrightarrow> buffer_ok d' \<Longrightarrow> guards (clear (v\<lparr>dev := d'\<rparr>)) = (guards v)[i := False]"
    and "\<And>d'. keeps (dev v) d' \<Longrightarrow> buffer_ok d' \<Longrightarrow> report_ok (clear (v\<lparr>dev := d'\<rparr>)) \<and>
        (quiet v \<longrightarrow> quiet (clear (v\<lparr>dev := d'\<rparr>))) \<and> tx (dev (clear (v\<lparr>dev := d'\<rparr>))) = tx d'"
  shows "served i v (clear (snd (Stuff_DataTrans_0900_ISP_ACK AckType v)))"
  unfolding Stuff_DataTrans_0900_ISP_ACK_def with_dev_def snd_conv
  by (rule served_by [OF message_ISP [OF assms(2)] assms(1) _ _ assms(3) _ assms(4,5)])
     (use fst_ISP_ACK [OF assms(2), of v] in \<open>simp_all add: Stuff_DataTrans_0900_ISP_ACK_def with_dev_def\<close>)

lemma branch_ISP_92:
  "report_ok v \<Longrightarrow> served 18 v ((snd (Stuff_DataTrans_0900_ISP_ACK 0x92 v))\<lparr>f_ISP_ACK := 0\<rparr>)"
  by (rule served_ISP [where clear = "\<lambda>v. v\<lparr>f_ISP_ACK := 0\<rparr>"])
     (simp_all add: branch_ids_def served_defs keeps_flags)

lemma branch_ISP_94:
  "report_ok v \<Longrightarrow> served 20 v ((snd (Stuff_DataTrans_0900_ISP_ACK 0x94 v))\<lparr>f_ISP_88_ACK := 0\<rparr>)"
  by (rule served_ISP [where clear = "\<lambda>v. v\<lparr>f_ISP_88_ACK := 0\<rparr>"])
     (simp_all add: branch_ids_def served_defs keeps_flags)

lemma branch_ISP_96: "report_ok v \<Longrightarrow> served 19 v (isp_over v)"
proof -
  assume r: "report_ok v"
  let ?clear = "\<lambda>v. (if CRC16_file (ISP_total_packnum v) = FileTCB_CRC16 v then ISP_file_Check v
      else on_dev (\<lambda>d. d\<lparr>st := (st d)\<lparr>flash := DF_ClearUpdate_Area (flash (st d))\<rparr>\<rparr>) v)\<lparr>f_ISP_23_ACK := 0\<rparr>"
  have "served 19 v (?clear (snd (Stuff_DataTrans_0900_ISP_ACK 0x96 v)))"
    by (rule served_ISP [OF r])
       (use r in \<open>simp_all add: branch_ids_def served_defs keeps_flags on_dev_def buffer_ok_def ISP_file_Check_def Let_def\<close>)
  then show ?thesis by (simp add: isp_over_def Let_def)
qed

lemma branch_0800:
  assumes "report_ok v" and "SD_media_Flag (MediaObj (dev v)) = 1" and "DEV_Login_Operate_enable (dev v) = 2"
  shows "served 11 v (snd (with_dev send_media_info v))"
proof -
  let ?d = "dev v"
  have b: "buffer_ok ?d" and ty: "Media_Type (MediaObj ?d) \<in> {0, 1, 2}" using assms(1) by (auto simp: report_ok_def)
  obtain e where e: "Protocol_Head 0x0800 Packet_Normal ?d = (True, e)" "building 0x0800 e"
    "Original_info_Wr e = 12" "nobuf e = nobuf ?d"
    using Protocol_Head_building [OF b] by blast
  note f = arg_cong [OF e(4), of MediaObj, simplified] arg_cong [OF e(4), of tx, simplified]
  obtain p q r where r: "snd (Stuff_MultiMedia_InfoSD_0800H ?d) =
      Protocol_End Packet_Normal 0 (put (media_desc (media_packet p q r e)) (media_packet p q r e))"
    using e(1) ty f(1) by (auto simp: Stuff_MultiMedia_InfoSD_0800H_def Let_def)
  let ?m = "media_packet p q r e"
  have "building 0x0800 ?m" "Original_info_Wr ?m = 12" using e(2,3) by (simp_all add: media_packet_def building_def)
  then have "building 0x0800 (put (media_desc ?m) ?m)" by (intro building_put) (simp_all add: media_desc_def)
  note fin = Protocol_End_sent [OF this refl, of 0, folded r]
  let ?e = "snd (Stuff_MultiMedia_InfoSD_0800H ?d)"
  have tx: "\<exists>fs. tx ?e = tx ?d @ fs \<and> map (\<lambda>f. frame_id (fst f)) fs = [Some 0x0800]"
    using one_sent_id [OF fin(1)] f(2) by (simp add: media_packet_def)
  have n: "nobuf ?e = (nobuf ?m)\<lparr>tx := tx ?e, Msg_Float_ID := u16 (Msg_Float_ID ?m + 1)\<rparr>" using fin(3) by simp
  have "nobuf ?m = (nobuf ?d)\<lparr>MediaObj := MediaObj ?m\<rparr>" using e(4) by (simp add: media_packet_def)
  note n = n [unfolded this]
  have k: "ans ?e = ans ?d" "DataLink_OK ?e = DataLink_OK ?d" "terminal ?e = terminal ?d"
    "DEV_Login_Operate_enable ?e = DEV_Login_Operate_enable ?d" "MediaObj ?e = MediaObj ?m"
    "ISP_running_state ?e = ISP_running_state ?d"
    using arg_cong [OF n, of ans] arg_cong [OF n, of DataLink_OK] arg_cong [OF n, of terminal]
      arg_cong [OF n, of DEV_Login_Operate_enable] arg_cong [OF n, of MediaObj] arg_cong [OF n, of ISP_running_state]
    by (simp_all add: nobuf_def)
  have mo: "Media_Type (MediaObj ?m) = Media_Type (MediaObj ?d)"
    "Media_transmittingFlag (MediaObj ?m) = Media_transmittingFlag (MediaObj ?d)"
    using f(1) by (simp_all add: media_packet_def)
  have "snd (with_dev send_media_info v) = v\<lparr>dev := ?e\<lparr>MediaObj := (MediaObj ?e)\<lparr>SD_media_Flag := 2\<rparr>\<rparr>\<rparr>"
    using assms(2,3) by (simp add: with_dev_def send_media_info_def Let_def)
  then show ?thesis
    using assms fin(2) tx k mo unfolding served_def
    by (simp add: branch_ids_def served_defs buffer_ok_def)
qed

lemma index_entries:
  assumes "length (MediaIndex v) = 52"
  shows "\<exists>c e n'. fold index_entry is (v, n) = (v\<lparr>dev := e, MediaIndex := c\<rparr>, n') \<and> length c = 52 \<and>
     grown mid (length is * 35) (dev v) e"
  using assms
proof (induction "is" arbitrary: v n)
  case Nil
  show ?case
    by (rule exI [of _ "MediaIndex v"], rule exI [of _ "dev v"], rule exI [of _ n]) (simp add: Nil grown_def)
next
  case (Cons i js)
  have "\<exists>c e n'. index_entry i (v, n) = (v\<lparr>dev := e, MediaIndex := c\<rparr>, n') \<and> length c = 52 \<and> grown mid 35 (dev v) e"
  proof -
    obtain c where c: "length c = 52" "(case (if f_MediaIndexACK_0802H v = 1 then Some pic_index
                  else if f_MediaIndexACK_0802H v = 2 then Some voice_index else None) of
                 Some m \<Rightarrow> (case snd (Api_RecordNum_Read m i 52 (st (dev v))) of
                              Some c \<Rightarrow> v\<lparr>MediaIndex := c\<rparr> | None \<Rightarrow> v)
               | None \<Rightarrow> v) = v\<lparr>MediaIndex := c\<rparr>"
    proof
      show "length (MediaIndex (case (if f_MediaIndexACK_0802H v = 1 then Some pic_index
                  else if f_MediaIndexACK_0802H v = 2 then Some voice_index else None) of
                 Some m \<Rightarrow> (case snd (Api_RecordNum_Read m i 52 (st (dev v))) of
                              Some c \<Rightarrow> v\<lparr>MediaIndex := c\<rparr> | None \<Rightarrow> v)
               | None \<Rightarrow> v)) = 52"
        using Cons.prems by (auto simp: Api_RecordNum_Read_def u16_small split: option.split)
    qed (auto split: option.split)
    let ?b = "[c ! 7, c ! 6, c ! 5, c ! 4, c ! 8, c ! 9, c ! 10] @ take 28 (drop 23 c)"
    have "grown mid 35 (dev v) (put ?b (dev v))" "grown mid 35 (dev v) (dev v)"
      by (rule grown_put) (simp_all add: c(1) grown_def)
    then show ?thesis
      using c by (cases "c ! 0 = 1 \<and> f_QueryEventCode v = c ! 10")
        (force simp: index_entry_def Let_def on_dev_def)+
  qed
  then obtain c e n' where 1: "index_entry i (v, n) = (v\<lparr>dev := e, MediaIndex := c\<rparr>, n')" "length c = 52"
    "grown mid 35 (dev v) e" by blast
  from Cons.IH [of "v\<lparr>dev := e, MediaIndex := c\<rparr>" n'] 1(2) obtain c' e' n''
    where 2: "fold index_entry js (v\<lparr>dev := e, MediaIndex := c\<rparr>, n') = (v\<lparr>dev := e', MediaIndex := c'\<rparr>, n'')"
      "length c' = 52" "grown mid (length js * 35) e e'" by auto
  from grown_trans [OF 1(3) 2(3)] 1(1) 2(1,2) show ?case by auto
qed

lemma branch_0802:
  assumes "report_ok v"
  shows "served 13 v ((snd (Stuff_MultiMedia_IndexAck_0802H v))\<lparr>f_MediaIndexACK_0802H := 0\<rparr>)"
proof -
  let ?d = "dev v"
  have b: "buffer_ok ?d" and mi: "length (MediaIndex v) = 52" using assms by (auto simp: report_ok_def)
  obtain e where e: "Protocol_Head 0x0802 Packet_Normal ?d = (True, e)" "building 0x0802 e"
    "Original_info_Wr e = 12" "nobuf e = nobuf ?d"
    using Protocol_Head_building [OF b] by blast
  let ?h = "put [0, 0] (put (be16 (Centre_FloatID (ans e))) e)"
  have h: "building 0x0802 ?h" "Original_info_Wr ?h = 16" using e(2,3) by (auto intro!: building_put)
  from index_entries [of "v\<lparr>dev := ?h\<rparr>" "[0..<8]" 0 "0x0802"] mi h obtain c f n
    where f: "fold index_entry [0..<8] (v\<lparr>dev := ?h\<rparr>, 0) = (v\<lparr>dev := f, MediaIndex := c\<rparr>, n)"
      and c: "length c = 52" and g: "building 0x0802 f" "sched f = sched ?h" "tx f = tx ?h"
    by (auto simp: grown_def)
  let ?u = "f\<lparr>Original_info := (Original_info f)[14 := byte (n div 256), 15 := byte n]\<rparr>"
  have u: "building 0x0802 ?u"
    using building_update [OF building_update [OF g(1), of 14 "byte (n div 256)"], of 15 "byte n"] by simp
  note fin = Protocol_End_sent [OF u refl, of 0]
  let ?e = "Protocol_End Packet_Normal 0 ?u"
  have k: "keeps ?d ?e"
    using fin(2,3) g(2) sched_nobuf [OF e(4)] by (simp add: keeps_def sched_def)
  have "tx e = tx ?d" using arg_cong [OF e(4), of tx] by simp
  then have tx: "\<exists>fs. tx ?e = tx ?d @ fs \<and> map (\<lambda>f. frame_id (fst f)) fs = [Some 0x0802]"
    using one_sent_id [OF fin(1)] g(3) by simp
  have "snd (Stuff_MultiMedia_IndexAck_0802H v) = v\<lparr>dev := ?e, MediaIndex := c\<rparr>"
    using f e(1,3) by (simp add: Stuff_MultiMedia_IndexAck_0802H_def with_dev_def on_dev_def Let_def)
  then show ?thesis
    using assms fin(2) tx c unfolding served_def
    by (simp add: branch_ids_def served_defs buffer_ok_def keeps_flags [OF k])
qed

text \<open>Whichever branch is taken, it is served.\<close>

lemma guards_any: "map (\<lambda>b. fst b v) (branches img junk) = guards v"
  by (simp add: guards_def branches_def)

lemma upto_22: "[0..<22] = [0, 1, 2, 3, 4, 5, 6, 7, 8, 9, 10, 11, 12, 13, 14, 15, 16, 17, 18, 19, 20, 21]"
  by (simp add: upt_rec)

lemma branches_served:
  assumes "report_ok v" and "i < 22" and "guards v ! i"
  shows "served i v (snd (branches img junk ! i) v)"
proof -
  have "list_all (\<lambda>i. guards v ! i \<longrightarrow> served i v (snd (branches img junk ! i) v)) [0..<22]"
    using assms(1)
    by (simp add: upto_22 branches_def guards_def branch_0100 branch_0101 branch_0002 branch_sleep branch_0201 branch_0301
        branch_0302 branch_0805 branch_0500 branch_0700 branch_0303 branch_0800 branch_0900 branch_0802 branch_0702
        branch_0701 branch_0001 branch_0104 branch_ISP_92 branch_ISP_96 branch_ISP_94 branch_0100u
        branch_0101 [unfolded One_nat_def] branch_0002 [unfolded One_nat_def] branch_0100u [unfolded One_nat_def])
  then show ?thesis using assms(2,3) by (simp add: list_all_iff)
qed

text \<open>The chain takes the first branch that is due.\<close>

lemma first_branch_Some:
  "first_branch bs v = Some v' \<longleftrightarrow>
     (\<exists>i < length bs. fst (bs ! i) v \<and> (\<forall>j < i. \<not> fst (bs ! j) v) \<and> v' = snd (bs ! i) v)"
proof (induction bs v rule: first_branch.induct)
  case (2 g a bs v)
  then show ?case by (auto simp: Ex_less_Suc2 All_less_Suc2)
qed simp

lemma first_branch_None: "first_branch bs v = None \<longleftrightarrow> (\<forall>b \<in> set bs. \<not> fst b v)"
  by (induction bs v rule: first_branch.induct) auto

lemma length_guards [simp]: "length (guards v) = 22"
  by (simp add: guards_def branches_def)

lemma length_branches [simp]: "length (branches img junk) = 22"
  by (simp add: branches_def)

lemma nth_guards: "i < 22 \<Longrightarrow> fst (branches img junk ! i) v = guards v ! i"
  using arg_cong [OF guards_any [of v img junk], of "\<lambda>l. l ! i"] by simp

text \<open>With no login due and no picture under way, a call serves the first branch that is due.\<close>

lemma quiet_step:
  assumes "quiet v"
  shows "Do_SendGPSReport_GPRS img junk v = (case first_branch (branches img junk) v of
     Some v' \<Rightarrow> (True, v') | None \<Rightarrow> send_position v)"
proof -
  have "send_media_data (dev v) = (False, dev v)"
    using assms by (auto simp: quiet_def send_media_data_def)
  then show ?thesis
    using assms by (auto simp: Do_SendGPSReport_GPRS_def quiet_def with_dev_def)
qed

lemma serves_first:
  assumes "report_ok v" and "quiet v" and "True \<in> set (guards v)"
  obtains i where "i < 22" "guards v ! i" "\<forall>j < i. \<not> guards v ! j"
    "served i v (snd (Do_SendGPSReport_GPRS img junk v))" "fst (Do_SendGPSReport_GPRS img junk v)"
proof -
  obtain v' where f: "first_branch (branches img junk) v = Some v'"
    using assms(3) guards_any [of v img junk] first_branch_None [of "branches img junk" v]
    by (cases "first_branch (branches img junk) v") (auto simp: image_iff dest: sym)
  then obtain i where i: "i < 22" "fst (branches img junk ! i) v" "\<forall>j < i. \<not> fst (branches img junk ! j) v"
    "v' = snd (branches img junk ! i) v"
    by (auto simp: first_branch_Some)
  then have "guards v ! i" "\<forall>j < i. \<not> guards v ! j" using nth_guards by (metis less_trans)+
  moreover have "served i v v'" using branches_served [OF assms(1) i(1)] calculation(1) i(4) by simp
  ultimately show thesis using that [OF i(1)] f quiet_step [OF assms(2), of img junk] by simp
qed

text \<open>The identifiers of the messages that are due, in the order of the chain.\<close>

definition due_ids :: "bool list \<Rightarrow> nat list list \<Rightarrow> nat list" where
  "due_ids g ids = concat (map snd (filter fst (zip g ids)))"

lemma due_ids_simps [simp]:
  "due_ids [] ids = []" "due_ids (b # g) (x # ids) = (if b then x else []) @ due_ids g ids"
  by (simp_all add: due_ids_def)

lemma due_ids_none: "True \<notin> set g \<Longrightarrow> due_ids g ids = []"
proof (induction g arbitrary: ids)
  case (Cons b g)
  then show ?case by (cases ids) (auto simp: due_ids_def)
qed simp

lemma due_first:
  assumes "i < length g" and "length g = length ids" and "g ! i" and "\<forall>j < i. \<not> g ! j"
  shows "due_ids g ids = ids ! i @ due_ids (g[i := False]) ids"
    and "length (filter id g) = Suc (length (filter id (g[i := False])))"
proof -
  have "due_ids g ids = ids ! i @ due_ids (g[i := False]) ids \<and>
      length (filter id g) = Suc (length (filter id (g[i := False])))"
    using assms
  proof (induction g arbitrary: i ids)
    case (Cons b g)
    then obtain x xs where "ids = x # xs" by (cases ids) auto
    with Cons show ?case by (cases i) (auto simp: All_less_Suc2)
  qed simp
  then show "due_ids g ids = ids ! i @ due_ids (g[i := False]) ids"
    and "length (filter id g) = Suc (length (filter id (g[i := False])))" by simp_all
qed

definition report_turn :: "(vehicle \<Rightarrow> bytes) \<Rightarrow> bytes \<Rightarrow> vehicle \<Rightarrow> vehicle" where
  "report_turn img junk v = snd (Do_SendGPSReport_GPRS img junk v)"

lemma all_served:
  assumes "report_ok v" and "quiet v" and "length (filter id (guards v)) = n"
  shows "let v' = (report_turn img junk ^^ n) v
    in True \<notin> set (guards v') \<and> quiet v' \<and> (\<exists>fs. tx (dev v') = tx (dev v) @ fs \<and>
        map (\<lambda>f. frame_id (fst f)) fs = map Some (due_ids (guards v) branch_ids))"
  using assms
proof (induction n arbitrary: v)
  case 0
  then have "True \<notin> set (guards v)" by (auto simp: filter_empty_conv)
  with 0 show ?case by (simp add: due_ids_none)
next
  case (Suc n)
  then have "filter id (guards v) \<noteq> []" by (metis Zero_not_Suc list.size(3))
  then have "True \<in> set (guards v)" by (auto simp: filter_empty_conv)
  then obtain i where i: "i < 22" "guards v ! i" "\<forall>j < i. \<not> guards v ! j"
      and s: "served i v (report_turn img junk v)"
    using serves_first [OF Suc.prems(1,2), of img junk] unfolding report_turn_def by metis
  let ?v = "report_turn img junk v"
  have g: "guards ?v = (guards v)[i := False]" and ok: "report_ok ?v" "quiet ?v"
    using s Suc.prems(2) by (simp_all add: served_def)
  obtain fs where fs: "tx (dev ?v) = tx (dev v) @ fs" "map (\<lambda>f. frame_id (fst f)) fs = map Some (branch_ids ! i)"
    using s by (auto simp: served_def)
  note d = due_first [of i "guards v" branch_ids, unfolded length_guards, OF i(1) _ i(2,3)]
  have l: "22 = length branch_ids" by (simp add: branch_ids_def)
  have "length (filter id (guards ?v)) = n" using d(2) [OF l] Suc.prems(3) g by simp
  from Suc.IH [OF ok this] obtain gs where
    "True \<notin> set (guards ((report_turn img junk ^^ n) ?v))" "quiet ((report_turn img junk ^^ n) ?v)"
    "tx (dev ((report_turn img junk ^^ n) ?v)) = tx (dev ?v) @ gs"
    "map (\<lambda>f. frame_id (fst f)) gs = map Some (due_ids (guards ?v) branch_ids)"
    unfolding Let_def by blast
  then show ?case using fs d(1) [OF l] g
    by (simp add: funpow_Suc_right del: funpow.simps(2))
qed

text \<open>
  (C18) Everything that is due is reported: with no login due and no picture under way, \<^verbatim>\<open>Do_SendGPSReport_GPRS\<close>
  called once for every request that is set leaves no request set, and the frames it put on the link are the
  messages of those requests, one each, in the order in which the chain of branches has them.
\<close>

theorem pending_served_in_order:
  assumes "report_ok v" and "quiet v" and "n = length (filter id (guards v))"
  shows "\<exists>fs. let v' = ((\<lambda>v. snd (Do_SendGPSReport_GPRS img junk v)) ^^ n) v
     in True \<notin> set (guards v') \<and> tx (dev v') = tx (dev v) @ fs \<and>
        map (\<lambda>f. frame_id (fst f)) fs = map Some (due_ids (guards v) branch_ids)"
  using all_served [OF assms(1,2) assms(3) [symmetric], of img junk]
  unfolding report_turn_def [abs_def] Let_def by blast

definition idle_vehicle :: vehicle where
  "idle_vehicle = \<lparr>dev = idle_device blank_store, Login_Sd_counter = 0, Login_Enable_sd = 0, Login_Sd_add = 0,
     Reg_Sd_counter = 0, Reg_Enable_sd = 0, DeRegst_sd = 0, Reg_Sd_add = 0, Regsiter_Status = 0,
     Heart_SDFlag = 0, TCP_SD_state = 0, TCP_ACK_DurCnter = 0, Default_Dur = 0, LISTEN_Num = [],
     Vech_Character_Value = 0, Conf_DayStartDistance = 0, DriveCode = [], DriverCard_ID = [], DriveName = [],
     Driver_ID = [], Drv_CareerID = [], Comfirm_agentID = [], Vech_VIN = [], Vech_Type = [], DomainNameStr = [],
     APN_String = [], RemoteIP_aux = [0, 0, 0, 0], RemotePort_main = 0, Door_DrvKeepingSec = 0, Door_MinSleepSec = 0,
     time_year = 0, time_month = 0, time_day = 0, SleepState = 0, SleepConfigFlag = 0, f_CurrentPosition_0201H = 0,
     f_CurrentEventACK_0301H = 0, ASK_SdFlag = 0, Vech_ACK_SD_Flag = 0, Vech_CMD_FloatID = 0,
     Recode_SD_Data_Flag = 0, Recode_CMD = 1, Recode_Float_ID = 0, f_MsgBroadCast_0303H = 0, DataTrans_TYPE = 0,
     Data_TxLen = 0, Data_RxLen = 0, Data_Tx = replicate 20 0, DataRx = [], Tx_Wr = 0, f_MediaIndexACK_0802H = 0,
     f_QueryEventCode = 0, MediaIndex = replicate 52 0, f_DriverInfoSD_0702H = 0, f_Worklist_SD_0701H = 0,
     f_SettingPram_0104H = 0, f_ISP_ACK = 0, f_ISP_23_ACK = 0, f_ISP_88_ACK = 0, TCP2_Connect = 0, TCP2_sdFlag = 0,
     ISP_current_packnum = 0, ISP_total_packnum = 0, ISP_ack_resualt = 0, FileTCB_CRC16 = 0, Device_type = 0,
     Firmware_ver = 0, Systerm_Reset_counter = 0, ISP_resetFlag = 0, DataLink_EndFlag = 0, Datalink_close = 0,
     Trans_GNSS_Flag = 0, DispContent = 0, Send_Rdy4ok = 0\<rparr>"

theorem pending_served_in_order_witness:
  "\<exists>fs. tx (dev (((\<lambda>v. snd (Do_SendGPSReport_GPRS (\<lambda>_. []) [] v)) ^^ 3)
       (idle_vehicle\<lparr>f_SettingPram_0104H := 1, ASK_SdFlag := 2, Recode_SD_Data_Flag := 1\<rparr>))) =
     tx (dev idle_vehicle) @ fs \<and> map (\<lambda>f. frame_id (fst f)) fs = [Some 0x0302, Some 0x0700, Some 0x0104]"
proof -
  let ?v = "idle_vehicle\<lparr>f_SettingPram_0104H := 1, ASK_SdFlag := 2, Recode_SD_Data_Flag := 1\<rparr>"
  have "report_ok ?v"
    by (simp add: report_ok_def idle_vehicle_def conf_ok_def buffer_ok_def recorder_cmd_def idle_device_def
        idle_media_sd_def)
  moreover have "quiet ?v" by (simp add: quiet_def idle_vehicle_def idle_device_def idle_media_sd_def)
  moreover have g: "guards ?v = [False, False, False, False, False, False, True, False, False, True, False, False,
      False, False, False, False, False, True, False, False, False, False]"
    by (simp add: guards_def branches_def idle_vehicle_def idle_device_def idle_media_sd_def)
  ultimately show ?thesis
    using pending_served_in_order [of ?v 3 "\<lambda>_. []" "[]"] by (auto simp: Let_def branch_ids_def)
qed

section \<open>The remote update\<close>

text \<open>The check value of the image and the request to restart into it.\<close>

definition update_view :: "vehicle \<Rightarrow> nat \<times> nat" where
  "update_view v = (FileTCB_CRC16 v, ISP_resetFlag v)"

lemma update_view_simps [simp]:
  "update_view (on_dev f v) = update_view v" "update_view (snd (with_dev g v)) = update_view v"
  "update_view (v\<lparr>dev := d\<rparr>) = update_view v"
  by (simp_all add: update_view_def on_dev_def with_dev_def)

lemma update_view_index: "update_view (fst (fold index_entry is vn)) = update_view (fst vn)"
proof (induction "is" arbitrary: vn)
  case (Cons i "is")
  have "update_view (fst (index_entry i vn)) = update_view (fst vn)"
    by (auto simp: index_entry_def Let_def update_view_def on_dev_def split: option.splits)
  then show ?case using Cons by simp
qed simp

lemma update_view_messages [simp]:
  "update_view (snd (Stuff_SettingPram_0104H v)) = update_view v"
  "update_view (snd (Stuff_ControlACK_0500H v)) = update_view v"
  "update_view (snd (Stuff_DataTransTx_0900H v)) = update_view v"
  "update_view (snd (Stuff_DriverInfoSD_0702H v)) = update_view v"
  "update_view (snd (Stuff_Worklist_0701H v)) = update_view v"
  "update_view (snd (Stuff_RecoderACK_0700H junk v)) = update_view v"
  "update_view (snd (Stuff_DataTrans_0900_ISP_ACK a v)) = update_view v"
  by (simp_all add: Stuff_SettingPram_0104H_def Stuff_ControlACK_0500H_def Stuff_DataTransTx_0900H_def
      Stuff_DriverInfoSD_0702H_def Stuff_Worklist_0701H_def Stuff_RecoderACK_0700H_def
      Stuff_DataTrans_0900_ISP_ACK_def)

lemma update_view_0802 [simp]: "update_view (snd (Stuff_MultiMedia_IndexAck_0802H v)) = update_view v"
proof -
  obtain e where "Protocol_Head 0x0802 Packet_Normal (dev v) = (True, e)"
    using Protocol_Head_normal(1) [of "0x0802" "dev v"] by (cases "Protocol_Head 0x0802 Packet_Normal (dev v)") auto
  then show ?thesis
    using update_view_index
    by (auto simp: Stuff_MultiMedia_IndexAck_0802H_def with_dev_def Let_def on_dev_def split: prod.split)
       (metis fst_conv update_view_simps(3))
qed

text \<open>Nothing arms the restart while the expected check value is 0.\<close>

definition not_armed :: "vehicle \<Rightarrow> bool" where
  "not_armed v = (FileTCB_CRC16 v = 0 \<and> ISP_resetFlag v \<noteq> 1)"

lemma not_armed_view: "update_view v' = update_view v \<Longrightarrow> not_armed v \<Longrightarrow> not_armed v'"
  by (simp add: not_armed_def update_view_def)

lemma isp_over_clears:
  assumes "FileTCB_CRC16 v = 0"
  shows "isp_over v = (on_dev (\<lambda>d. d\<lparr>st := (st d)\<lparr>flash := DF_ClearUpdate_Area (flash (st d))\<rparr>\<rparr>)
       (snd (Stuff_DataTrans_0900_ISP_ACK 0x96 v)))\<lparr>f_ISP_23_ACK := 0\<rparr>"
proof -
  have "FileTCB_CRC16 (snd (Stuff_DataTrans_0900_ISP_ACK 0x96 v)) = 0"
    using update_view_messages(7) [of "0x96" v] assms by (simp add: update_view_def)
  then show ?thesis by (simp add: isp_over_def CRC16_file_def Let_def)
qed

lemma branches_not_armed:
  assumes "not_armed v"
  shows "list_all (\<lambda>b. not_armed (snd b v)) (branches img junk)"
proof -
  have u: "update_view v = (0, ISP_resetFlag v)" using assms by (simp add: not_armed_def update_view_def)
  have n: "not_armed w \<longleftrightarrow> (\<exists>r. update_view w = (0, r) \<and> r \<noteq> 1)" for w
    by (auto simp: not_armed_def update_view_def)
  have f: "update_view (w\<lparr>Reg_Enable_sd := n\<rparr>) = update_view w" "update_view (w\<lparr>DeRegst_sd := n\<rparr>) = update_view w"
    "update_view (w\<lparr>Heart_SDFlag := n\<rparr>) = update_view w" "update_view (w\<lparr>TCP_SD_state := n\<rparr>) = update_view w"
    "update_view (w\<lparr>SleepConfigFlag := n\<rparr>) = update_view w" "update_view (w\<lparr>f_CurrentPosition_0201H := n\<rparr>) = update_view w"
    "update_view (w\<lparr>f_CurrentEventACK_0301H := n\<rparr>) = update_view w" "update_view (w\<lparr>ASK_SdFlag := n\<rparr>) = update_view w"
    "update_view (w\<lparr>Vech_ACK_SD_Flag := n\<rparr>) = update_view w" "update_view (w\<lparr>Recode_SD_Data_Flag := n\<rparr>) = update_view w"
    "update_view (w\<lparr>f_MsgBroadCast_0303H := n\<rparr>) = update_view w" "update_view (w\<lparr>f_MediaIndexACK_0802H := n\<rparr>) = update_view w"
    "update_view (w\<lparr>f_DriverInfoSD_0702H := n\<rparr>) = update_view w" "update_view (w\<lparr>f_Worklist_SD_0701H := n\<rparr>) = update_view w"
    "update_view (w\<lparr>f_SettingPram_0104H := n\<rparr>) = update_view w" "update_view (w\<lparr>f_ISP_ACK := n\<rparr>) = update_view w"
    "update_view (w\<lparr>f_ISP_23_ACK := n\<rparr>) = update_view w" "update_view (w\<lparr>f_ISP_88_ACK := n\<rparr>) = update_view w"
    "update_view (w\<lparr>TCP2_sdFlag := n\<rparr>) = update_view w" "update_view (w\<lparr>DataLink_EndFlag := n\<rparr>) = update_view w"
    "update_view (w\<lparr>Datalink_close := n\<rparr>) = update_view w" "update_view (DataTrans_Init w) = update_view w"
    for w :: vehicle and n by (simp_all add: update_view_def DataTrans_Init_def)
  have "update_view (register_now img v) = update_view v"
    by (simp add: register_now_def Let_def f)
  moreover have "not_armed (common_ack v)"
    using assms by (auto simp: common_ack_def Let_def not_armed_def on_dev_def with_dev_def)
  moreover have "update_view (isp_over v) = update_view v"
    using assms by (simp add: isp_over_clears not_armed_def f)
  ultimately show ?thesis using assms
    unfolding branches_def list.pred_inject fst_conv snd_conv
    by (auto intro!: not_armed_view [OF _ assms] simp: f)
qed

lemma not_armed_position: "not_armed v \<Longrightarrow> not_armed (snd (send_position v))"
  by (auto simp: send_position_def Let_def not_armed_def split: prod.splits bool.splits)

lemma not_armed_turn:
  assumes "not_armed v"
  shows "not_armed (report_turn img junk v)"
proof -
  have f: "not_armed v' \<Longrightarrow> not_armed (snd (case first_branch (branches img junk) v' of
      Some v \<Rightarrow> (True, v) | None \<Rightarrow> send_position v'))" for v'
    using branches_not_armed [of v' img junk] not_armed_position [of v']
    by (auto split: option.split simp: first_branch_Some list_all_length)
  have m: "not_armed (snd (with_dev g v))" for g using not_armed_view [OF _ assms] by simp
  have "not_armed ((snd (with_dev g v))\<lparr>Login_Enable_sd := 0\<rparr>)" for g
    using m [of g] by (simp add: not_armed_def)
  with f m show ?thesis
    unfolding report_turn_def Do_SendGPSReport_GPRS_def
    by (auto split: prod.split bool.split) (metis snd_conv)+
qed

text \<open>
  (C20) No remote update is accepted: the expected check value keeps its initial value 0 while
  \<^verbatim>\<open>CRC16_file\<close> always returns 1, so through any number of turns of the sending task the restart into a
  new program is not requested, and the turn that answers the last packet erases what was received.
\<close>

theorem update_never_accepted:
  assumes "FileTCB_CRC16 v = 0" and "ISP_resetFlag v \<noteq> 1"
  shows "let v' = ((\<lambda>v. snd (Do_SendGPSReport_GPRS img junk v)) ^^ n) v
    in FileTCB_CRC16 v' = 0 \<and> ISP_resetFlag v' \<noteq> 1 \<and>
       flash (st (dev (isp_over v'))) =
         DF_ClearUpdate_Area (flash (st (dev (snd (Stuff_DataTrans_0900_ISP_ACK 0x96 v')))))"
proof -
  have "not_armed v" using assms by (simp add: not_armed_def)
  then have "not_armed ((report_turn img junk ^^ n) v)"
    by (induction n) (simp_all add: not_armed_turn)
  then show ?thesis
    unfolding report_turn_def [abs_def] Let_def not_armed_def
    by (simp add: isp_over_clears on_dev_def)
qed

theorem update_never_accepted_witness:
  "ISP_resetFlag (((\<lambda>v. snd (Do_SendGPSReport_GPRS (\<lambda>_. []) [] v)) ^^ 100)
     (idle_vehicle\<lparr>TCP2_Connect := 1, f_ISP_23_ACK := 1\<rparr>)) \<noteq> 1"
  using update_never_accepted [of "idle_vehicle\<lparr>TCP2_Connect := 1, f_ISP_23_ACK := 1\<rparr>" 100 "\<lambda>_. []" "[]"]
  by (simp add: idle_vehicle_def Let_def)

end
