(* ===== verification/Settings808.thy ===== *)
theory Settings808
  imports Report808
begin

text \<open>
  Settings of the centre (\<^verbatim>\<open>protocol_808/protocol_808.c\<close>): the parameters of command 8103H, the
  terminal control 8105H and the recorder parameters 8701H, with the functions they call in
  \<^verbatim>\<open>gsm/Device_gsm.c\<close> and \<^verbatim>\<open>protocol_808/Sys_config.c\<close>. The main results: a parameter that was set
  is what the next query of the centre reports, and which settings disturb others.
\<close>

section \<open>The state\<close>

text \<open>
  The members of \<^verbatim>\<open>JT808Conf_struct\<close>, \<^verbatim>\<open>SysConf_struct\<close> and \<^verbatim>\<open>TiredConf_struct\<close> that \<^typ>\<open>vehicle\<close> does
  not have, the dial strings of the modem, and what else the commands change.
\<close>

record duration_conf =
  Heart_Dur :: nat
  TCP_ACK_Dur :: nat
  TCP_ReSD_Num :: nat
  UDP_ACK_Dur :: nat
  UDP_ReSD_Num :: nat
  NoDrvLogin_Dur :: nat
  Sleep_Dur :: nat
  Emegence_Dur :: nat
  SD_Delta_maxAngle :: nat
  IllgleMovo_disttance :: nat

record distance_conf =
  Defalut_DistDelta :: nat
  NoDrvLogin_Dist :: nat
  Sleep_Dist :: nat
  Emergen_Dist :: nat

record sys_conf =
  sys_APN_str :: bytes
  sys_IP_Main :: bytes
  sys_Port_main :: nat
  sys_DNSR :: bytes
  sys_DNSR_Aux :: bytes

record tired_conf =
  Door_DayAccumlateDrvSec :: nat
  Door_MaxParkingSec :: nat
  Parking_currentcnt :: nat
  ACC_ONstate_counter :: nat
  ACC_Offstate_counter :: nat
  Status_TiredwhRst :: nat
  Tireddrv_status :: nat
  tired_Flag :: nat
  Tgvoice_play :: nat
  voicePly_counter :: nat
  voicePly_timer :: nat
  tired_start_time :: bytes
  tired_end_time :: bytes

record dial_conf =
  Dialinit_APN :: bytes
  Dialinit_DNSR :: bytes
  Dialinit_DNSR2 :: bytes
  DialStr_Link1 :: bytes
  DialStr_LinkAux :: bytes

record speed_exd_state =
  current_maxSpd :: nat
  dur_seconds :: nat
  excd_status :: nat
  ex_startTime :: bytes
  speed_flag :: nat

record lock_conf =
  Lock_state :: nat
  Lock_Dur :: nat
  Lock_KeepDur :: nat
  Lock_KeepCnter :: nat

record app =
  veh :: vehicle
  DURATION :: duration_conf
  DISTANCE :: distance_conf
  SysConf :: sys_conf
  Tired :: tired_conf
  Dial :: dial_conf
  speed_Exd :: speed_exd_state
  RT_LOCK :: lock_conf
  RemoteIP_main :: bytes
  RemotePort_aux :: nat
  DomainNameStr_aux :: bytes
  Spd_Exd_LimitSeconds :: nat
  DUR_TOTALMODE :: nat
  Dur_DefaultMode :: nat
  Current_SD_Duration :: nat
  CallState :: nat
  DF_K_adjustState :: nat
  ModuleStatus :: u8
  f_Exigent_warning :: nat
  warn_flag :: nat
  Send_warn_times :: nat
  Control_Flag :: u8
  f_BD_Extend_7F02H :: nat

text \<open>
  The memory images of the three configuration structures, as the compiler lays them out; they
  are parameters of the model.
\<close>

record images =
  jt_img :: "app \<Rightarrow> bytes"
  sys_img :: "app \<Rightarrow> bytes"
  tired_img :: "app \<Rightarrow> bytes"

definition on_veh :: "(vehicle \<Rightarrow> vehicle) \<Rightarrow> app \<Rightarrow> app" where
  "on_veh f a = a\<lparr>veh := f (veh a)\<rparr>"

definition on_device :: "(device \<Rightarrow> device) \<Rightarrow> app \<Rightarrow> app" where
  "on_device f = on_veh (on_dev f)"

definition on_store :: "(store \<Rightarrow> store) \<Rightarrow> app \<Rightarrow> app" where
  "on_store f = on_device (\<lambda>d. d\<lparr>st := f (st d)\<rparr>)"

definition on_term :: "(terminal_info \<Rightarrow> terminal_info) \<Rightarrow> app \<Rightarrow> app" where
  "on_term f = on_device (\<lambda>d. d\<lparr>terminal := f (terminal d)\<rparr>)"

definition on_ans :: "(answer_info \<Rightarrow> answer_info) \<Rightarrow> app \<Rightarrow> app" where
  "on_ans f = on_device (\<lambda>d. d\<lparr>ans := f (ans d)\<rparr>)"

definition on_warn :: "(bytes \<Rightarrow> bytes) \<Rightarrow> app \<Rightarrow> app" where
  "on_warn f = on_device (\<lambda>d. d\<lparr>gps := (gps d)\<lparr>Warn_Status := f (Warn_Status (gps d))\<rparr>\<rparr>)"

definition save_jt :: "images \<Rightarrow> app \<Rightarrow> app" where
  "save_jt im a = on_store (\<lambda>s. snd (Api_Config_Recwrite_Large jt808 0 (jt_img im a) (length (jt_img im a)) s)) a"

definition save_sys :: "images \<Rightarrow> app \<Rightarrow> app" where
  "save_sys im a = on_store (\<lambda>s. snd (Api_Config_write config 0 (sys_img im a) (length (sys_img im a)) s)) a"

definition save_tired :: "images \<Rightarrow> app \<Rightarrow> app" where
  "save_tired im a = on_store (\<lambda>s. snd (Api_Config_write tired_config 0 (tired_img im a) (length (tired_img im a)) s)) a"

text \<open>
  An array of \<open>n\<close> bytes that was cleared and into which \<open>bs\<close> was copied. The copies are not
  checked: with more than \<open>n\<close> bytes the list is longer than the array, and the memory behind the
  array, which the code would overwrite, is not modelled.
\<close>

definition cleared :: "nat \<Rightarrow> bytes \<Rightarrow> bytes" where
  "cleared n bs = bs @ replicate (n - length bs) 0"

definition of_be32 :: "bytes \<Rightarrow> nat" where
  "of_be32 b = unat (b ! 0) * 16777216 + unat (b ! 1) * 65536 + unat (b ! 2) * 256 + unat (b ! 3)"

section \<open>Functions the settings call\<close>

text \<open>\<^verbatim>\<open>strtrim\<close> with a blank, on the characters of a C string.\<close>

definition strtrim :: "bytes \<Rightarrow> bytes" where
  "strtrim s = dropWhile (\<lambda>b. b = 0x20) (rev (dropWhile (\<lambda>b. b = 0x20) (rev s)))"

text \<open>
  The conversion \<^verbatim>\<open>%u\<close> of \<^verbatim>\<open>sscanf\<close>: white space, an optional sign and decimal digits; a value that
  does not fit is the largest one. \<open>scan_dotted\<close> is the format \<^verbatim>\<open>%u.%u.%u.%u\<close>.
\<close>

definition is_space :: "u8 \<Rightarrow> bool" where
  "is_space b = (b \<in> {0x20, 0x09, 0x0A, 0x0B, 0x0C, 0x0D})"

definition is_digit :: "u8 \<Rightarrow> bool" where
  "is_digit b = (0x30 \<le> b \<and> b \<le> 0x39)"

definition digits_value :: "bytes \<Rightarrow> nat" where
  "digits_value ds = foldl (\<lambda>n d. n * 10 + (unat d - 48)) 0 ds"

definition scan_u :: "bytes \<Rightarrow> (nat \<times> bytes) option" where
  "scan_u s =
     (let s = dropWhile is_space s;
          neg = (s \<noteq> [] \<and> hd s = 0x2D);
          s = (if s \<noteq> [] \<and> (hd s = 0x2D \<or> hd s = 0x2B) then tl s else s);
          ds = takeWhile is_digit s;
          n = digits_value ds
      in if ds = [] then None
         else Some (if n > 4294967295 then 4294967295 else if neg then u32 (4294967296 - n) else n,
                    dropWhile is_digit s))"

fun scan_dotted :: "nat \<Rightarrow> bytes \<Rightarrow> nat list" where
  "scan_dotted 0 s = []"
| "scan_dotted (Suc k) s =
     (case scan_u s of
        None \<Rightarrow> []
      | Some (n, r) \<Rightarrow> n # (if r \<noteq> [] \<and> hd r = 0x2E then scan_dotted k (tl r) else []))"

text \<open>
  \<^verbatim>\<open>str2ip\<close>: every conversion stores four bytes, into an array of half-words; the low half of a value
  is in its own place until the next conversion, the high half in the next one (behind the array for
  the last one, which is not modelled). Returned are the result of \<^verbatim>\<open>sscanf\<close>, the number of
  conversions or \<open>-1\<close> when the text ends before the first one, and the address bytes, the low
  bytes of the four half-words.
\<close>

fun store_halves :: "nat list \<Rightarrow> nat \<Rightarrow> nat list \<Rightarrow> nat list" where
  "store_halves [] i h = h"
| "store_halves (n # ns) i h = store_halves ns (i + 1) (h[i := n mod 65536, i + 1 := n div 65536])"

definition str2ip :: "bytes \<Rightarrow> int \<times> bytes" where
  "str2ip buf =
     (let s = strtrim (cstr buf);
          ns = scan_dotted 4 s
      in (if dropWhile is_space s = [] then - 1 else int (length ns),
          map byte (store_halves ns 0 [0, 0, 0, 0])))"

definition DataLink_MainSocket_set :: "bytes \<Rightarrow> nat \<Rightarrow> dial_conf \<Rightarrow> dial_conf" where
  "DataLink_MainSocket_set ip port d =
     d\<lparr>DialStr_Link1 := cleared 90 (take 20 (DialStr_Link1 d) @ IP_Str ip @ [0x22, 0x2C] @ dec port @ [0x0D, 0x0A])\<rparr>"

definition DataLink_AuxSocket_set :: "bytes \<Rightarrow> nat \<Rightarrow> dial_conf \<Rightarrow> dial_conf" where
  "DataLink_AuxSocket_set ip port d =
     d\<lparr>DialStr_LinkAux := cleared 50 (take 20 (DialStr_LinkAux d) @ IP_Str ip @ [0x22, 0x2C] @ dec port @ [0x0D, 0x0A])\<rparr>"

definition DataLink_APN_Set :: "bytes \<Rightarrow> dial_conf \<Rightarrow> dial_conf" where
  "DataLink_APN_Set apn d =
     d\<lparr>Dialinit_APN := cleared 40 (take 19 (Dialinit_APN d) @ cstr apn @ [0x22, 0x0D, 0x0A])\<rparr>"

definition DataLink_DNSR_Set :: "bytes \<Rightarrow> dial_conf \<Rightarrow> dial_conf" where
  "DataLink_DNSR_Set dns d =
     d\<lparr>Dialinit_DNSR := cleared 50 (take 9 (Dialinit_DNSR d) @ cstr dns @ [0x22, 0x0D, 0x0A])\<rparr>"

definition DataLink_DNSR2_Set :: "bytes \<Rightarrow> dial_conf \<Rightarrow> dial_conf" where
  "DataLink_DNSR2_Set dns d =
     d\<lparr>Dialinit_DNSR2 := cleared 50 (take 9 (Dialinit_DNSR2 d) @ cstr dns @ [0x22, 0x0D, 0x0A])\<rparr>"

definition Spd_ExpInit :: "app \<Rightarrow> app" where
  "Spd_ExpInit a =
     a\<lparr>speed_Exd := (speed_Exd a)\<lparr>current_maxSpd := 0, dur_seconds := 0, excd_status := 0,
         ex_startTime := splice 0 (replicate 5 0) (ex_startTime (speed_Exd a)), speed_flag := 0\<rparr>\<rparr>"

definition TIRED_Drive_Init :: "app \<Rightarrow> app" where
  "TIRED_Drive_Init a =
     a\<lparr>Tired := (Tired a)\<lparr>Status_TiredwhRst := 0, Tireddrv_status := 0, tired_Flag := 0,
         ACC_ONstate_counter := 0, ACC_Offstate_counter := 0, Tgvoice_play := 0, voicePly_counter := 0,
         voicePly_timer := 0,
         tired_start_time := splice 0 (replicate 5 0) (tired_start_time (Tired a)),
         tired_end_time := splice 0 (replicate 5 0) (tired_end_time (Tired a))\<rparr>\<rparr>"

abbreviation (input) DF_DeviceID_offset :: nat where "DF_DeviceID_offset \<equiv> 6400"

definition DeviceID_Convert_SIMCODE :: "bytes \<Rightarrow> bytes" where
  "DeviceID_Convert_SIMCODE n =
     map (\<lambda>k. push_bit 4 (n ! (2 * k) - 0x30) OR (n ! (2 * k + 1) - 0x30)) [0..<6]"

definition deviceid :: "bytes \<Rightarrow> app \<Rightarrow> app" where
  "deviceid str a =
     (let reg_str = cstr str
      in if length reg_str \<noteq> 12 \<or> \<not> list_all is_digit reg_str then a
         else let a = on_store (\<lambda>s. s\<lparr>flash := DF_WriteFlashSector DF_DeviceID_offset 0 (reg_str @ [0]) 13 (flash s)\<rparr>) a;
                  n = DF_ReadFlash DF_DeviceID_offset 0 13 (flash (st (dev (veh a))))
              in on_term (\<lambda>t. t\<lparr>DeviceNumberID := n, SIM_code := DeviceID_Convert_SIMCODE n\<rparr>) a)"

section \<open>Parameters of command 8103H\<close>

text \<open>A setting of four bytes and one of two bytes; other lengths are ignored.\<close>

definition set4 :: "nat \<Rightarrow> bytes \<Rightarrow> (nat \<Rightarrow> app \<Rightarrow> app) \<Rightarrow> app \<Rightarrow> app" where
  "set4 infolen Content f a = (if infolen \<noteq> 4 then a else f (of_be32 Content) a)"

definition set2 :: "nat \<Rightarrow> bytes \<Rightarrow> (nat \<Rightarrow> app \<Rightarrow> app) \<Rightarrow> app \<Rightarrow> app" where
  "set2 infolen Content f a = (if infolen \<noteq> 2 then a else f (of_be16 (Content ! 0) (Content ! 1)) a)"

text \<open>Parameter 13H: the address of the centre, as digits or as a name.\<close>

definition set_main_server :: "images \<Rightarrow> nat \<Rightarrow> bytes \<Rightarrow> app \<Rightarrow> app" where
  "set_main_server im infolen Content a =
     (let c = take infolen Content;
          r = str2ip (cleared 20 c);
          a = a\<lparr>RemoteIP_main := snd r\<rparr>;
          a = (if fst r mod 256 \<le> 3
               then let a = on_veh (\<lambda>v. v\<lparr>DomainNameStr := cleared 50 c\<rparr>) a;
                        a = save_sys im (a\<lparr>SysConf := (SysConf a)\<lparr>sys_DNSR := cleared 50 c\<rparr>\<rparr>)
                    in a\<lparr>Dial := DataLink_DNSR_Set (sys_DNSR (SysConf a)) (Dial a)\<rparr>
               else let a = save_sys im (a\<lparr>SysConf := (SysConf a)\<lparr>sys_IP_Main := RemoteIP_main a,
                              sys_Port_main := RemotePort_main (veh a)\<rparr>\<rparr>)
                    in a\<lparr>Dial := DataLink_MainSocket_set (RemoteIP_main a) (RemotePort_main (veh a)) (Dial a)\<rparr>)
      in on_ans (\<lambda>n. n\<lparr>f_CentreCMDack_0001H := 2\<rparr>) a)"

text \<open>Parameter 17H: the second address.\<close>

definition set_aux_server :: "images \<Rightarrow> nat \<Rightarrow> bytes \<Rightarrow> app \<Rightarrow> app" where
  "set_aux_server im infolen Content a =
     (let c = take infolen Content;
          r = str2ip (cleared 20 c);
          a = on_veh (\<lambda>v. v\<lparr>RemoteIP_aux := snd r\<rparr>) a
      in if fst r mod 256 \<le> 3
         then let a = save_sys im (a\<lparr>DomainNameStr_aux := cleared 50 c, SysConf := (SysConf a)\<lparr>sys_DNSR_Aux := cleared 50 c\<rparr>\<rparr>);
                  a = a\<lparr>Dial := DataLink_DNSR2_Set (sys_DNSR_Aux (SysConf a)) (Dial a)\<rparr>
              in on_ans (\<lambda>n. n\<lparr>f_CentreCMDack_0001H := 2\<rparr>) a
         else let a = save_sys im a
              in a\<lparr>Dial := DataLink_AuxSocket_set (RemoteIP_aux (veh a)) (RemotePort_aux a) (Dial a)\<rparr>)"

definition set_listen_num :: "images \<Rightarrow> nat \<Rightarrow> bytes \<Rightarrow> app \<Rightarrow> app" where
  "set_listen_num im infolen Content a =
     save_jt im (on_veh (\<lambda>v. v\<lparr>LISTEN_Num := cleared 30 (take infolen Content)\<rparr>) a)"

text \<open>
  \<^verbatim>\<open>CentreSet_subService_8103H\<close>, case by case, in three parts; the case 31H has no \<^verbatim>\<open>break\<close> and goes on with the
  case 40H. Parameters that are only printed or empty cases leave the state as it is.
\<close>

definition vehicle_setting :: "images \<Rightarrow> nat \<Rightarrow> nat \<Rightarrow> bytes \<Rightarrow> app \<Rightarrow> bool \<times> app" where
  "vehicle_setting im SubID infolen Content a =
     (if SubID = 0x0055
         then (True, set4 infolen Content (\<lambda>w a.
            Spd_ExpInit (save_jt im (on_term (\<lambda>t. t\<lparr>Speed_warn_MAX := w\<rparr>) a))) a)
         else if SubID = 0x0056
         then (True, set4 infolen Content (\<lambda>w a. Spd_ExpInit (save_jt im (a\<lparr>Spd_Exd_LimitSeconds := w\<rparr>))) a)
         else if SubID = 0x0057
         then (True, set4 infolen Content (\<lambda>w a.
            TIRED_Drive_Init (on_warn (\<lambda>b. b[3 := b ! 3 AND NOT 0x04])
              (save_tired im (on_veh (\<lambda>v. v\<lparr>Door_DrvKeepingSec := w\<rparr>) a)))) a)
         else if SubID = 0x0058
         then (True, set4 infolen Content (\<lambda>w a.
            let a = save_tired im (a\<lparr>Tired := (Tired a)\<lparr>Door_DayAccumlateDrvSec := w\<rparr>\<rparr>);
                a = a\<lparr>Tired := (Tired a)\<lparr>ACC_ONstate_counter := 0, ACC_Offstate_counter := 0\<rparr>\<rparr>
            in save_jt im a) a)
         else if SubID = 0x0059
         then (True, set4 infolen Content (\<lambda>w a. save_tired im (on_veh (\<lambda>v. v\<lparr>Door_MinSleepSec := w\<rparr>) a)) a)
         else if SubID = 0x005A
         then (True, set4 infolen Content (\<lambda>w a.
            let a = save_tired im (a\<lparr>Tired := (Tired a)\<lparr>Door_MaxParkingSec := w\<rparr>\<rparr>);
                a = a\<lparr>Tired := (Tired a)\<lparr>Parking_currentcnt := 0\<rparr>\<rparr>
            in on_warn (\<lambda>b. b[1 := b ! 1 AND NOT 0x08]) a) a)
         else if SubID = 0x0081 \<or> SubID = 0x0082
         then (True, set2 infolen Content (\<lambda>w a. save_jt im (on_term (\<lambda>t. t\<lparr>Dev_ProvinceID := w\<rparr>) a)) a)
         else if SubID = 0x0083
         then (True, if infolen < 4 then a
            else save_jt im (on_term (\<lambda>t. t\<lparr>Vech_Num := cleared 13 (take infolen Content)\<rparr>) a))
         else if SubID = 0x0084
         then (True, if infolen \<noteq> 1 then a else save_jt im (on_term (\<lambda>t. t\<lparr>Dev_Color := Content ! 0\<rparr>) a))
         else if SubID = 0xF000
         then (True, if infolen \<noteq> 12 then a else deviceid (cleared 20 (take 12 Content)) a)
         else (SubID \<in> {0x0014, 0x0020, 0x0021, 0x0041, 0x0042, 0x0045, 0x0046, 0x0047, 0x0050, 0x0052, 0x0053,
                 0x0054, 0x0070, 0x0071, 0x0072, 0x0073, 0x0074, 0x0080}, a))"

definition report_setting :: "images \<Rightarrow> nat \<Rightarrow> nat \<Rightarrow> bytes \<Rightarrow> app \<Rightarrow> bool \<times> app" where
  "report_setting im SubID infolen Content a =
     (let dur = (\<lambda>f. set4 infolen Content (\<lambda>w a. save_jt im (a\<lparr>DURATION := f w (DURATION a)\<rparr>)) a);
          dist = (\<lambda>f. set4 infolen Content (\<lambda>w a. save_jt im (a\<lparr>DISTANCE := f w (DISTANCE a)\<rparr>)) a);
          number = (if infolen = 0 then a else set_listen_num im infolen Content a)
      in if SubID = 0x0022 then (True, dur (\<lambda>w c. c\<lparr>NoDrvLogin_Dur := w\<rparr>))
         else if SubID = 0x0027 then (True, dur (\<lambda>w c. c\<lparr>Sleep_Dur := w\<rparr>))
         else if SubID = 0x0028 then (True, dur (\<lambda>w c. c\<lparr>Emegence_Dur := w\<rparr>))
         else if SubID = 0x0029
         then (True, set4 infolen Content (\<lambda>w a. save_jt im (on_veh (\<lambda>v. v\<lparr>Default_Dur := w\<rparr>) a)) a)
         else if SubID = 0x002C then (True, dist (\<lambda>w c. c\<lparr>Defalut_DistDelta := w\<rparr>))
         else if SubID = 0x002D then (True, dist (\<lambda>w c. c\<lparr>NoDrvLogin_Dist := w\<rparr>))
         else if SubID = 0x002E then (True, dist (\<lambda>w c. c\<lparr>Sleep_Dist := w\<rparr>))
         else if SubID = 0x002F then (True, dist (\<lambda>w c. c\<lparr>Emergen_Dist := w\<rparr>))
         else if SubID = 0x0030 then (True, dur (\<lambda>w c. c\<lparr>SD_Delta_maxAngle := w\<rparr>))
         else if SubID = 0x0031
         then (True, set2 infolen Content (\<lambda>w a. set_listen_num im infolen Content
            (save_jt im (a\<lparr>DURATION := (DURATION a)\<lparr>IllgleMovo_disttance := w\<rparr>\<rparr>))) a)
         else if SubID = 0x0040 then (True, number)
         else if SubID = 0x0048 then (True, if infolen = 0 then a else number\<lparr>CallState := 5\<rparr>)
         else vehicle_setting im SubID infolen Content a)"

definition CentreSet_subService_8103H :: "images \<Rightarrow> nat \<Rightarrow> nat \<Rightarrow> bytes \<Rightarrow> app \<Rightarrow> bool \<times> app" where
  "CentreSet_subService_8103H im SubID infolen Content a =
     (let dur = (\<lambda>f. set4 infolen Content (\<lambda>w a. save_jt im (a\<lparr>DURATION := f w (DURATION a)\<rparr>)) a)
      in if SubID = 0x0001 then (True, dur (\<lambda>w c. c\<lparr>Heart_Dur := w\<rparr>))
         else if SubID = 0x0002 then (True, dur (\<lambda>w c. c\<lparr>TCP_ACK_Dur := w\<rparr>))
         else if SubID = 0x0003 then (True, dur (\<lambda>w c. c\<lparr>TCP_ReSD_Num := w\<rparr>))
         else if SubID = 0x0004 then (True, dur (\<lambda>w c. c\<lparr>UDP_ACK_Dur := w\<rparr>))
         else if SubID = 0x0005 then (True, dur (\<lambda>w c. c\<lparr>UDP_ReSD_Num := w\<rparr>))
         else if SubID = 0x0010
         then (True, if infolen = 0 then a
            else let c = take infolen Content;
                     a = on_veh (\<lambda>v. v\<lparr>APN_String := cleared 30 c\<rparr>) a;
                     a = save_sys im (a\<lparr>SysConf := (SysConf a)\<lparr>sys_APN_str :=
                           splice 0 (cleared 30 c) (sys_APN_str (SysConf a))\<rparr>\<rparr>)
                 in a\<lparr>Dial := DataLink_APN_Set (APN_String (veh a)) (Dial a)\<rparr>)
         else if SubID = 0x0013 then (True, set_main_server im infolen Content a)
         else if SubID = 0x0017 then (True, set_aux_server im infolen Content a)
         else if SubID = 0x0018
         then (True, set4 infolen Content (\<lambda>w a.
            let a = save_sys im (on_veh (\<lambda>v. v\<lparr>RemotePort_main := u16 w\<rparr>) a);
                a = a\<lparr>Dial := DataLink_MainSocket_set (RemoteIP_main a) (RemotePort_main (veh a)) (Dial a)\<rparr>
            in on_ans (\<lambda>n. n\<lparr>f_CentreCMDack_0001H := 2\<rparr>) a) a)
         else if SubID = 0x0019
         then (True, set4 infolen Content (\<lambda>w a. save_sys im (a\<lparr>RemotePort_aux := u16 w\<rparr>)) a)
         else report_setting im SubID infolen Content a)"

text \<open>
  The loop of command 8103H over the parameters. The position \<^verbatim>\<open>ContentRdAdd\<close> is a \<^verbatim>\<open>u8\<close> and wraps.
\<close>

fun set_params :: "images \<Rightarrow> bytes \<Rightarrow> nat \<Rightarrow> nat \<Rightarrow> app \<Rightarrow> app" where
  "set_params im rx 0 ContentRdAdd a = a"
| "set_params im rx (Suc n) ContentRdAdd a =
     (let SubCMD_8103H = of_be32 (drop ContentRdAdd rx);
          SubInfolen = unat (rx ! (ContentRdAdd + 4));
          a = snd (CentreSet_subService_8103H im SubCMD_8103H SubInfolen (drop (ContentRdAdd + 5) rx) a)
      in set_params im rx n (u8n (ContentRdAdd + 5 + SubInfolen)) a)"

definition TCP_RX_8103 :: "images \<Rightarrow> bytes \<Rightarrow> app \<Rightarrow> app" where
  "TCP_RX_8103 im rx a =
     (let a = set_params im rx (unat (rx ! 13)) 14 a
      in on_ans (\<lambda>n. if f_CentreCMDack_0001H n = 2 then n\<lparr>f_CentreCMDack_resualt := 0\<rparr>
           else if f_CentreCMDack_0001H n = 0 then n\<lparr>f_CentreCMDack_0001H := 1, f_CentreCMDack_resualt := 0\<rparr>
           else n) a)"

section \<open>Terminal control and recorder parameters\<close>

definition CentreSet_subService_8105H :: "nat \<Rightarrow> app \<Rightarrow> bool \<times> app" where
  "CentreSet_subService_8105H Control_ID a =
     (if Control_ID = 3 \<or> Control_ID = 6 \<or> Control_ID = 7
      then (True, on_ans (\<lambda>n. n\<lparr>f_CentreCMDack_0001H := 5\<rparr>) a)
      else if Control_ID = 4 then (True, on_ans (\<lambda>n. n\<lparr>f_CentreCMDack_0001H := 3\<rparr>) a)
      else (Control_ID \<in> {1, 2, 5}, a))"

definition TCP_RX_8105 :: "bytes \<Rightarrow> app \<Rightarrow> app" where
  "TCP_RX_8105 rx a =
     on_ans (\<lambda>n. if f_CentreCMDack_0001H n = 0 then n\<lparr>f_CentreCMDack_0001H := 1, f_CentreCMDack_resualt := 0\<rparr> else n)
       (snd (CentreSet_subService_8105H (unat (rx ! 13)) a))"

abbreviation (input) Status_Pcheck :: u8 where "Status_Pcheck \<equiv> 0x08"

definition CenterSet_subService_8701H :: "images \<Rightarrow> u8 \<Rightarrow> bytes \<Rightarrow> app \<Rightarrow> app" where
  "CenterSet_subService_8701H im cmd Instr a =
     (if cmd = 0x81
      then save_jt im (on_veh (\<lambda>v. v\<lparr>DriveCode := take 3 Instr,
             DriverCard_ID := splice 0 (take 18 (drop 3 Instr)) (splice 0 (replicate 18 0) (DriverCard_ID v))\<rparr>) a)
      else if cmd = 0x82
      then save_jt im (on_veh (\<lambda>v. v\<lparr>Vech_VIN := take 17 Instr @ [0], Vech_Type := take 12 (drop 29 Instr) @ [0]\<rparr>)
             (on_term (\<lambda>t. t\<lparr>Vech_Num := take 12 (drop 17 Instr) @ [0], Dev_ProvinceID := 0, Dev_CityID := 0, Dev_Color := 0\<rparr>) a))
      else if cmd = 0xC3
      then save_jt im ((on_veh (\<lambda>v. v\<lparr>Vech_Character_Value := unat (Instr ! 0) * 65536 + unat (Instr ! 1) * 256 + unat (Instr ! 2)\<rparr>) a)
             \<lparr>DF_K_adjustState := 0, ModuleStatus := ModuleStatus a AND NOT Status_Pcheck\<rparr>)
      else a)"

section \<open>Numbers and texts\<close>

lemma of_be32_be32: "n < 4294967296 \<Longrightarrow> of_be32 (be32 n @ r) = n"
proof -
  assume "n < 4294967296"
  then have "n div 16777216 < 256" by simp
  moreover have "n mod 16777216 = n div 65536 mod 256 * 65536 + n mod 65536"
    using mod_mult2_eq [of n 65536 256] by simp
  moreover have "n mod 65536 = n div 256 mod 256 * 256 + n mod 256"
    using mod_mult2_eq [of n 256 256] by simp
  ultimately show ?thesis
    using div_mult_mod_eq [of n 16777216] by (simp add: of_be32_def be32_def unat_byte)
qed

lemma of_be32_take:
  assumes "take 4 b = take 4 c"
  shows "of_be32 b = of_be32 c"
proof -
  have "b ! i = c ! i" if "i < 4" for i
    using arg_cong [OF assms, of "\<lambda>l. l ! i"] that by simp
  then show ?thesis by (simp add: of_be32_def)
qed

lemma byte_eqI: "n mod 256 = unat b \<Longrightarrow> byte n = b"
  by (metis unat_byte word_unat_eq_iff)

lemma be32_of_be32:
  assumes "length b = 4"
  shows "be32 (of_be32 b) = b"
proof -
  obtain w x y z where b: "b = [w, x, y, z]"
    using assms by (auto simp: length_Suc_conv eval_nat_numeral)
  have l: "unat w < 256" "unat x < 256" "unat y < 256" "unat z < 256" by (rule unat_u8_less)+
  have m: "byte (q * 256 + unat v) = v" for q and v :: u8
    using unat_u8_less [of v] by (intro byte_eqI) simp
  let ?n = "of_be32 b"
  have n: "?n = (unat w * 65536 + unat x * 256 + unat y) * 256 + unat z" by (simp add: b of_be32_def)
  have n1: "?n div 256 = (unat w * 256 + unat x) * 256 + unat y" using l by (simp add: b of_be32_def)
  have n2: "?n div 256 div 256 = unat w * 256 + unat x" unfolding n1 using l by simp
  have n3: "?n div 256 div 256 div 256 = unat w" unfolding n2 using l by simp
  have d: "?n div 65536 = ?n div 256 div 256" "?n div 16777216 = ?n div 256 div 256 div 256"
    by (simp_all only: div_mult2_eq [symmetric]) simp_all
  have "byte ?n = z" unfolding n by (rule m)
  moreover have "byte (?n div 256) = y" unfolding n1 by (rule m)
  moreover have "byte (?n div 65536) = x" unfolding d n2 by (rule m)
  moreover have "byte (?n div 16777216) = w" unfolding d n3 by simp
  ultimately show ?thesis unfolding be32_def by (simp only: b)
qed

text \<open>The characters of a cleared array are the text that was copied in.\<close>

lemma cstr_cleared: "0 \<notin> set c \<Longrightarrow> cstr (cleared n c) = c"
  by (subst cstr_def, subst cleared_def, subst takeWhile_append2) (auto simp: takeWhile_replicate)

lemma length_cleared: "length (cleared n c) = max n (length c)"
  by (simp add: cleared_def)

lemma dec_append: "10 \<le> n \<Longrightarrow> dec n = dec (n div 10) @ [byte (48 + n mod 10)]"
  by (subst dec.simps) simp

lemma digit_byte:
  assumes "d < 10"
  shows "unat (48 + byte d) = 48 + d" and "is_digit (48 + byte d)"
proof -
  show "unat (48 + byte d) = 48 + d" using unat_byte [of "48 + d"] assms by simp
  then show "is_digit (48 + byte d)" using assms by (simp add: is_digit_def word_le_nat_alt)
qed

lemma dec_digits: "list_all is_digit (dec n) \<and> dec n \<noteq> [] \<and> digits_value (dec n) = n"
proof (induction n rule: dec.induct)
  case (1 n)
  show ?case
  proof (cases "n < 10")
    case True
    then show ?thesis by (simp add: dec.simps [of n] digit_byte digits_value_def)
  next
    case False
    then show ?thesis
      using 1 by (simp add: dec_append digit_byte digits_value_def)
  qed
qed

lemma scan_u_dec:
  assumes "n < 4294967296" and "r = [] \<or> \<not> is_digit (hd r)"
  shows "scan_u (dec n @ r) = Some (n, r)"
proof -
  obtain x xs where d: "dec n = x # xs" using dec_digits [of n] by (cases "dec n") auto
  then have x: "is_digit x" using dec_digits [of n] by simp
  then have s: "\<not> is_space x" "x \<noteq> 0x2D" "x \<noteq> 0x2B"
    by (auto simp: is_digit_def is_space_def word_le_nat_alt)
  have "takeWhile is_digit (dec n @ r) = dec n" "dropWhile is_digit (dec n @ r) = r"
    using dec_digits [of n] assms(2) by (cases r; simp add: list_all_iff takeWhile_append2 dropWhile_append2)+
  then show ?thesis
    using s d assms(1) dec_digits [of n] by (simp add: scan_u_def Let_def)
qed

lemma IP_Str_no_blank:
  assumes "b \<in> set (IP_Str ip)"
  shows "is_digit b \<or> b = 0x2E"
  using assms dec_digits by (auto simp: IP_Str_def list_all_iff)

text \<open>An address printed by \<^verbatim>\<open>IP_Str\<close> is read back by \<^verbatim>\<open>str2ip\<close>.\<close>

lemma str2ip_IP_Str:
  assumes "length ip = 4"
  shows "str2ip (cleared n (IP_Str ip)) = (4, ip)"
proof -
  obtain a b c d where ip: "ip = [a, b, c, d]"
    using assms by (auto simp: length_Suc_conv eval_nat_numeral)
  let ?s = "IP_Str ip"
  have z: "0 \<notin> set ?s" "0x20 \<notin> set ?s"
    using IP_Str_no_blank by (auto simp: is_digit_def word_le_nat_alt dest!: IP_Str_no_blank)
  have ne: "?s \<noteq> []" by (simp add: IP_Str_def)
  have t: "dropWhile (\<lambda>b. b = 0x20) l = l" if "0x20 \<notin> set l" for l :: bytes
    using that by (cases l) auto
  then have s: "strtrim (cstr (cleared n ?s)) = ?s" using z by (simp add: cstr_cleared strtrim_def)
  have h: "dropWhile is_space ?s \<noteq> []"
  proof -
    have "hd ?s \<in> set ?s" using ne by simp
    then have "\<not> is_space (hd ?s)"
      using IP_Str_no_blank by (auto simp: is_digit_def is_space_def word_le_nat_alt dest!: IP_Str_no_blank)
    then show ?thesis using ne by (cases ?s) auto
  qed
  have small: "unat (x :: u8) < 4294967296" for x using unat_u8_less [of x] by simp
  have "scan_dotted (Suc k) (dec (unat x) @ 0x2E # r) = unat x # scan_dotted k r" for k r and x :: u8
    using scan_u_dec [OF small [of x], of "0x2E # r"] by (simp add: is_digit_def word_le_nat_alt)
  moreover have "scan_dotted (Suc k) (dec (unat x)) = [unat x]" for k and x :: u8
    using scan_u_dec [OF small [of x], of "[]"] by simp
  ultimately have "scan_dotted (Suc (Suc (Suc (Suc 0)))) ?s = [unat a, unat b, unat c, unat d]"
    by (simp add: ip IP_Str_def del: scan_dotted.simps)
  then have "scan_dotted 4 ?s = [unat a, unat b, unat c, unat d]" by (simp add: eval_nat_numeral del: scan_dotted.simps)
  moreover have "unat (x :: u8) div 65536 = 0" "unat x mod 65536 = unat x" for x
    using unat_u8_less [of x] by simp_all
  ultimately show ?thesis using s h by (simp add: str2ip_def Let_def ip)
qed

section \<open>Set and query\<close>

text \<open>The parameters a query reports, as \<^verbatim>\<open>Stuff_SettingPram_0104H\<close> lists them.\<close>

definition settings :: "vehicle \<Rightarrow> (nat \<times> bytes) list" where
  "settings v =
     [(0x83, cstr (Vech_Num (terminal (dev v)))), (0x13, cstr (DomainNameStr v)),
      (0x18, [0x00, 0x00] @ be16 (RemotePort_main v)), (0x10, cstr (APN_String v)),
      (0x17, IP_Str (RemoteIP_aux v)), (0x29, be32 (Default_Dur v)), (0x40, cstr (LISTEN_Num v)),
      (0x55, be32 (Speed_warn_MAX (terminal (dev v)))), (0x57, be32 (Door_DrvKeepingSec v)),
      (0x59, be32 (Door_MinSleepSec v)), (0xF000, take 12 (DeviceNumberID (terminal (dev v))))]"

text \<open>The parameters as the centre reads them from a message.\<close>

fun read_params :: "nat \<Rightarrow> bytes \<Rightarrow> (nat \<times> bytes) list" where
  "read_params 0 b = []"
| "read_params (Suc n) b =
     (let len = unat (b ! 4)
      in (of_be32 b, take len (drop 5 b)) # read_params n (drop (5 + len) b))"

lemma read_params_param:
  assumes "i < 4294967296" and "length c < 256"
  shows "read_params (Suc n) (param i c @ r) = (i, c) # read_params n r"
proof -
  have l: "unat (byte (length c)) = length c" using assms(2) by (simp only: unat_byte mod_less)
  have "param i c @ r = be32 i @ byte (length c) # c @ r" by (simp add: param_def)
  then show ?thesis
    using of_be32_be32 [OF assms(1)] l by (simp add: nth_append Let_def)
qed

lemma read_params_all:
  assumes "list_all (\<lambda>(i, c). i < 4294967296 \<and> length c < 256) ps"
  shows "read_params (length ps) (concat (map (\<lambda>(i, c). param i c) ps) @ r) = ps"
  using assms
proof (induction ps)
  case (Cons p ps)
  obtain i c where p: "p = (i, c)" by (cases p)
  then show ?case
    using Cons read_params_param [of i c "length ps" "concat (map (\<lambda>(i, c). param i c) ps) @ r"]
    by (simp del: read_params.simps(2))
qed simp

lemma length_settings:
  assumes "conf_ok v"
  shows "list_all (\<lambda>(i, c). i < 4294967296 \<and> length c \<le> 50) (settings v)"
proof -
  have "length (cstr (Vech_Num (terminal (dev v)))) \<le> 13" "length (cstr (DomainNameStr v)) \<le> 50"
    "length (cstr (APN_String v)) \<le> 30" "length (cstr (LISTEN_Num v)) \<le> 30"
    using assms length_cstr le_trans unfolding conf_ok_def by blast+
  then show ?thesis using length_IP_Str [of "RemoteIP_aux v"] by (simp add: settings_def)
qed

text \<open>A query is answered with all of them.\<close>

lemma query_reports:
  assumes "conf_ok v" and "length (SIM_code (terminal (dev v))) = 6" and "Msg_Float_ID (dev v) < 65536"
  shows "\<exists>v' f buf n. Stuff_SettingPram_0104H v = (True, v') \<and> tx (dev v') = tx (dev v) @ [(f, 0)] \<and>
    TCP_RX_check f (length f) = Some \<lparr>rx_buf = buf, rx_len = n + 15, rx_CmdID = 0x0104,
      rx_FloatID = Msg_Float_ID (dev v), rx_infolen = n\<rparr> \<and>
    read_params (unat (buf ! 15)) (drop 16 buf) = settings v"
proof -
  let ?d = "dev v"
  let ?ps = "concat (map (\<lambda>(i, c). param i c) (settings v))"
  let ?c = "be16 (Centre_FloatID (ans ?d)) @ [11] @ ?ps"
  have l: "length ?ps \<le> 605"
    using length_settings [OF assms(1)] by (simp add: settings_def)
  let ?content = "\<lambda>d. put (be16 (Centre_FloatID (ans d)) @ [11] @
       param 0x83 (cstr (Vech_Num (terminal d))) @ param 0x13 (cstr (DomainNameStr v)) @
       param 0x18 ([0x00, 0x00] @ be16 (RemotePort_main v)) @ param 0x10 (cstr (APN_String v)) @
       param 0x17 (IP_Str (RemoteIP_aux v)) @ param 0x29 (be32 (Default_Dur v)) @
       param 0x40 (cstr (LISTEN_Num v)) @ param 0x55 (be32 (Speed_warn_MAX (terminal d))) @
       param 0x57 (be32 (Door_DrvKeepingSec v)) @ param 0x59 (be32 (Door_MinSleepSec v)) @
       param 0xF000 (take 12 (DeviceNumberID (terminal d)))) d"
  have "\<exists>d' f buf. stuff 0x0104 0 ?content ?d = (True, d') \<and> tx d' = tx ?d @ [(f, 0)] \<and>
      TCP_RX_check f (length f) = Some \<lparr>rx_buf = buf, rx_len = length ?c + 15, rx_CmdID = 0x0104,
         rx_FloatID = Msg_Float_ID ?d, rx_infolen = length ?c\<rparr> \<and>
      drop 13 (take (length ?c + 13) buf) = ?c \<and> Msg_Float_ID d' = u16 (Msg_Float_ID ?d + 1)"
    by (rule stuff_accepted [OF assms(2) _ _ assms(3)]) (use l in \<open>simp_all add: settings_def\<close>)
  then obtain d' f buf where s: "stuff 0x0104 0 ?content ?d = (True, d')" "tx d' = tx ?d @ [(f, 0)]"
      "TCP_RX_check f (length f) = Some \<lparr>rx_buf = buf, rx_len = length ?c + 15, rx_CmdID = 0x0104,
         rx_FloatID = Msg_Float_ID ?d, rx_infolen = length ?c\<rparr>"
      "drop 13 (take (length ?c + 13) buf) = ?c"
    by blast
  have b: "drop 13 buf = ?c @ drop (length ?c) (drop 13 buf)"
    using s(4) append_take_drop_id [of "length ?c" "drop 13 buf"]
    by (simp only: drop_take add_diff_cancel_right')
  have "drop 16 buf = drop 3 (drop 13 buf)" by simp
  also have "\<dots> = ?ps @ drop (length ?c) (drop 13 buf)" by (subst b) (simp add: be16_def)
  finally have "drop 16 buf = ?ps @ drop (length ?c) (drop 13 buf)" .
  moreover have "buf ! 15 = 11"
  proof -
    have "drop 13 buf \<noteq> []" by (subst b) simp
    then have "buf ! 15 = drop 13 buf ! 2" by simp
    then show ?thesis by (subst (asm) b) (simp add: be16_def)
  qed
  moreover have "list_all (\<lambda>(i, c). i < 4294967296 \<and> length c < 256) (settings v)"
    by (rule list.pred_mono_strong [OF length_settings [OF assms(1)]]) auto
  moreover have "length (settings v) = 11" by (simp add: settings_def)
  ultimately have "read_params (unat (buf ! 15)) (drop 16 buf) = settings v"
    using read_params_all [of "settings v"] by simp
  moreover have "Stuff_SettingPram_0104H v = (True, v\<lparr>dev := d'\<rparr>)"
    using s(1) by (simp add: Stuff_SettingPram_0104H_def with_dev_def)
  ultimately show ?thesis using s(2,3) by auto
qed

text \<open>
  What the report lists for a parameter after it was set to \<open>c\<close>, where it listed \<open>b\<close> before. A number needs four bytes
  and of the port only two are kept; texts end at their first zero; the name of the server stays as it is when the
  value is an address, and of a second server the address is listed, also when the value is a name.
\<close>

definition listed_after :: "nat \<Rightarrow> bytes \<Rightarrow> bytes \<Rightarrow> bytes" where
  "listed_after pid c b =
     (if pid \<in> {0x29, 0x55, 0x57, 0x59} then if length c = 4 then c else b
      else if pid = 0x18 then if length c = 4 then [0, 0] @ drop 2 c else b
      else if pid = 0x13 then if fst (str2ip (cleared 20 c)) \<in> {0, 1, 2, 3} then cstr c else b
      else if pid = 0x17 then IP_Str (snd (str2ip (cleared 20 c)))
      else if pid = 0xF000 then if length c = 12 \<and> list_all is_digit c then c else b
      else if pid = 0x83 then if 4 \<le> length c then cstr c else b
      else if pid \<in> {0x10, 0x40, 0x48} then if c \<noteq> [] then cstr c else b
      else if pid = 0x31 then if length c = 2 then cstr c else b
      else b)"

text \<open>The parameter of the report that a setting changes: 31H falls through into 40H, and 48H stores the same number.\<close>

definition listed_as :: "nat \<Rightarrow> nat" where
  "listed_as pid = (if pid \<in> {0x31, 0x48} then 0x40 else pid)"

text \<open>
  A value that fits, with the zero that ends it, into the arrays it is copied to: the name of an access point into the dial string,
  an address or name of a server into the local array \<^verbatim>\<open>reg_in\<close>, the number plate and the telephone number into
  theirs.
\<close>

definition value_fits :: "nat \<Rightarrow> bytes \<Rightarrow> bool" where
  "value_fits pid c =
     (pid < 4294967296 \<and> length c < 256 \<and>
      (pid = 0x10 \<longrightarrow> length c \<le> 29 \<and> length (cstr c) \<le> 18) \<and> (pid \<in> {0x13, 0x17} \<longrightarrow> length c \<le> 19) \<and>
      (pid \<in> {0x40, 0x48} \<longrightarrow> length c \<le> 29) \<and> (pid = 0x83 \<longrightarrow> length c \<le> 12))"

text \<open>Values that the report lists as they are.\<close>

definition settable :: "nat \<Rightarrow> bytes \<Rightarrow> bool" where
  "settable pid c =
     (if pid \<in> {0x29, 0x55, 0x57, 0x59} then length c = 4
      else if pid = 0x18 then length c = 4 \<and> c ! 0 = 0 \<and> c ! 1 = 0
      else if pid = 0x17 then (\<exists>w x y z. c = IP_Str [w, x, y, z])
      else if pid = 0xF000 then length c = 12 \<and> list_all is_digit c
      else if pid = 0x83 then 4 \<le> length c \<and> 0 \<notin> set c
      else if pid = 0x10 \<or> pid = 0x40 then c \<noteq> [] \<and> 0 \<notin> set c
      else pid = 0x13 \<and> 0 \<notin> set c \<and> fst (str2ip (cleared 20 c)) \<in> {0, 1, 2, 3})"

text \<open>What saving the structures leaves alone.\<close>

lemma settings_on_store [simp]: "settings (veh (on_store f a)) = settings (veh a)"
  by (simp add: settings_def on_store_def on_device_def on_veh_def on_dev_def)

lemma settings_on_ans [simp]: "settings (veh (on_ans f a)) = settings (veh a)"
  by (simp add: settings_def on_ans_def on_device_def on_veh_def on_dev_def)

lemma settings_on_warn [simp]: "settings (veh (on_warn f a)) = settings (veh a)"
  by (simp add: settings_def on_warn_def on_device_def on_veh_def on_dev_def)

lemma settings_saved [simp]:
  "settings (veh (save_jt im a)) = settings (veh a)" "settings (veh (save_sys im a)) = settings (veh a)"
  "settings (veh (save_tired im a)) = settings (veh a)"
  "settings (veh (Spd_ExpInit a)) = settings (veh a)" "settings (veh (TIRED_Drive_Init a)) = settings (veh a)"
  by (simp_all add: save_jt_def save_sys_def save_tired_def Spd_ExpInit_def TIRED_Drive_Init_def)

abbreviation (input) updated :: "nat \<Rightarrow> bytes \<Rightarrow> (nat \<times> bytes) list \<Rightarrow> (nat \<times> bytes) list" where
  "updated pid c ps \<equiv> map (\<lambda>(i, b). (i, if i = listed_as pid then listed_after pid c b else b)) ps"

lemmas service_8103 = CentreSet_subService_8103H_def report_setting_def vehicle_setting_def set4_def set2_def Let_def
lemmas app_parts = on_veh_def on_term_def on_device_def on_dev_def

lemma cstr_cleared_any: "cstr (cleared n c) = cstr c"
proof (cases "0 \<in> set c")
  case True
  then show ?thesis by (auto simp: cstr_def cleared_def takeWhile_append1)
next
  case False
  then have "cstr c = c" by (auto simp: cstr_def takeWhile_eq_all_conv)
  then show ?thesis using cstr_cleared [OF False] by simp
qed

lemma set_word:
  assumes "length c = 4"
  shows "be32 (of_be32 (c @ r)) = c"
  using assms be32_of_be32 [of c] of_be32_take [of "c @ r" c] by simp

lemma settings_same: "settings (veh b) = settings (veh a) \<Longrightarrow> (\<And>x. listed_after pid c x = x) \<Longrightarrow> settings (veh b) = updated pid c (settings (veh a))"
proof -
  assume "settings (veh b) = settings (veh a)" and "\<And>x. listed_after pid c x = x"
  moreover from this(2) have "(\<lambda>(i, x). (i, if i = listed_as pid then listed_after pid c x else x)) = id" by (auto simp: fun_eq_iff)
  ultimately show ?thesis by simp
qed

lemma settings_words:
  assumes "pid \<in> {0x29, 0x55, 0x57, 0x59}"
  shows "settings (veh (snd (CentreSet_subService_8103H im pid (length c) (c @ r) a))) = updated pid c (settings (veh a))"
proof (cases "length c = 4")
  case True
  then show ?thesis using assms
    by (elim insertE emptyE; simp add: service_8103)
      (simp_all add: settings_def app_parts set_word listed_after_def listed_as_def)
next
  case False
  with assms show ?thesis by (intro settings_same) (auto simp: service_8103 listed_after_def)
qed

lemma settings_port: "settings (veh (snd (CentreSet_subService_8103H im 0x18 (length c) (c @ r) a))) = updated 0x18 c (settings (veh a))"
proof (cases "length c = 4")
  case True
  then obtain w x y z where c: "c = [w, x, y, z]" by (auto simp: length_Suc_conv eval_nat_numeral)
  have l: "unat y < 256" "unat z < 256" by (rule unat_u8_less)+
  then have "of_be16 y z < 65536" by (simp add: of_be16_def)
  moreover have "of_be32 (c @ r) = of_be16 y z + (unat w * 256 + unat x) * 65536" by (simp add: c of_be32_def of_be16_def)
  ultimately have p: "u16 (of_be32 (c @ r)) = of_be16 y z"
    by (simp only: u16_def mod_mult_self1 mod_less)
  have "byte (of_be16 y z) = z"
    by (rule byte_eqI) (use l in \<open>simp add: of_be16_def\<close>)
  moreover have "byte (of_be16 y z div 256) = y"
    by (rule byte_eqI) (use l in \<open>simp add: of_be16_def\<close>)
  ultimately have "be16 (u16 (of_be32 (c @ r))) = [y, z]" unfolding p by (simp add: be16_def)
  then show ?thesis
    using True by (simp add: service_8103) (simp add: settings_def app_parts c listed_after_def listed_as_def)
next
  case False
  then show ?thesis by (intro settings_same) (auto simp: service_8103 listed_after_def)
qed

lemma settings_number:
  "settings (veh (set_listen_num im (length c) (c @ r) a)) = map (\<lambda>(i, b). (i, if i = 0x40 then cstr c else b)) (settings (veh a))"
  by (simp add: set_listen_num_def) (simp add: settings_def app_parts cstr_cleared_any)

lemma settings_texts:
  assumes "pid \<in> {0x10, 0x40, 0x48, 0x31}"
  shows "settings (veh (snd (CentreSet_subService_8103H im pid (length c) (c @ r) a))) = updated pid c (settings (veh a))"
proof (cases "if pid = 0x31 then length c = 2 else c \<noteq> []")
  case True
  have n: "settings (veh b) = updated pid c (settings (veh a))"
    if "pid \<in> {0x40, 0x48, 0x31}" "settings (veh b) = map (\<lambda>(i, x). (i, if i = 0x40 then cstr c else x)) (settings (veh a))" for b
  proof -
    have "listed_as pid = 0x40" "\<And>x. listed_after pid c x = cstr c" using True that(1) by (auto simp: listed_as_def listed_after_def)
    then show ?thesis using that(2) by (simp add: split_beta)
  qed
  show ?thesis using assms
  proof (elim insertE emptyE)
    assume "pid = 0x10"
    then show ?thesis using True
      by (simp add: service_8103) (simp add: settings_def app_parts cstr_cleared_any listed_after_def listed_as_def)
  next
    assume "pid = 0x40"
    then show ?thesis using True by (intro n) (simp_all add: service_8103 settings_number)
  next
    assume "pid = 0x48"
    then show ?thesis using True by (intro n) (simp_all add: service_8103 settings_number)
  next
    assume p: "pid = 0x31"
    then have "snd (CentreSet_subService_8103H im pid (length c) (c @ r) a) = set_listen_num im (length c) (c @ r)
        (save_jt im (a\<lparr>DURATION := (DURATION a)\<lparr>IllgleMovo_disttance := of_be16 ((c @ r) ! 0) ((c @ r) ! 1)\<rparr>\<rparr>))"
      using True by (simp add: service_8103)
    then show ?thesis using p by (intro n) (simp_all only: settings_number, simp_all)
  qed
next
  case False
  with assms show ?thesis by (intro settings_same) (auto simp: service_8103 listed_after_def split: if_splits)
qed

lemma settings_plate: "settings (veh (snd (CentreSet_subService_8103H im 0x83 (length c) (c @ r) a))) = updated 0x83 c (settings (veh a))"
proof (cases "4 \<le> length c")
  case True
  then show ?thesis
    by (simp add: service_8103) (simp add: settings_def app_parts cstr_cleared_any listed_after_def listed_as_def)
next
  case False
  then show ?thesis by (intro settings_same) (auto simp: service_8103 listed_after_def)
qed

lemma str2ip_result: "fst (str2ip b) mod 256 \<le> 3 \<longleftrightarrow> fst (str2ip b) \<in> {0, 1, 2, 3}"
proof -
  have l: "length (scan_dotted k s) \<le> k" for k s by (induction k s rule: scan_dotted.induct) (auto split: option.splits)
  then have "fst (str2ip b) \<in> {- 1, 0, 1, 2, 3, 4}" using l [of 4 "strtrim (cstr b)"] by (auto simp: str2ip_def Let_def le_Suc_eq numeral_eq_Suc)
  then show ?thesis by auto
qed

lemma settings_server: "settings (veh (snd (CentreSet_subService_8103H im 0x13 (length c) (c @ r) a))) = updated 0x13 c (settings (veh a))"
proof (cases "fst (str2ip (cleared 20 c)) mod 256 \<le> 3")
  case True
  then show ?thesis unfolding listed_after_def str2ip_result [symmetric]
    by (simp add: service_8103 set_main_server_def)
      (simp add: settings_def app_parts cstr_cleared_any save_sys_def on_store_def listed_as_def)
next
  case False
  then show ?thesis unfolding listed_after_def str2ip_result [symmetric]
    by (simp add: service_8103 set_main_server_def)
      (simp add: settings_def app_parts save_sys_def on_store_def listed_as_def)
qed

lemma settings_address: "settings (veh (snd (CentreSet_subService_8103H im 0x17 (length c) (c @ r) a))) = updated 0x17 c (settings (veh a))"
  by (simp add: service_8103 set_aux_server_def)
    (simp add: settings_def app_parts save_sys_def on_store_def on_ans_def listed_after_def listed_as_def)

lemma settings_device: "settings (veh (snd (CentreSet_subService_8103H im 0xF000 (length c) (c @ r) a))) = updated 0xF000 c (settings (veh a))"
proof (cases "length c = 12 \<and> list_all is_digit c")
  case True
  have "0 \<notin> set c" using True by (auto simp: list_all_iff is_digit_def word_le_nat_alt)
  then have "cstr (cleared 20 c) = c" by (rule cstr_cleared)
  then show ?thesis
    using True DF_WriteFlashSector_read [of 6400 13 "c @ [0]"]
    by (simp add: service_8103 deviceid_def) (simp add: settings_def app_parts on_store_def listed_after_def listed_as_def)
next
  case False
  have "settings (veh (deviceid (cleared 20 (take 12 c)) a)) = settings (veh a)" if "length c = 12"
  proof -
    have "\<not> list_all is_digit c" using False that by simp
    moreover have "cstr c = c" if "length (cstr c) = length c"
      using that takeWhile_dropWhile_id [of "\<lambda>b. b \<noteq> 0" c] unfolding cstr_def by (metis append_eq_conv_conj takeWhile_eq_take take_all_iff le_refl)
    ultimately have "length (cstr c) \<noteq> 12 \<or> \<not> list_all is_digit (cstr c)" using that by auto
    then show ?thesis using that by (simp add: deviceid_def cstr_cleared_any)
  qed
  then show ?thesis using False by (intro settings_same) (auto simp: service_8103 listed_after_def)
qed

lemma settings_others:
  assumes "pid \<notin> {0x10, 0x13, 0x17, 0x18, 0x29, 0x31, 0x40, 0x48, 0x55, 0x57, 0x59, 0x83, 0xF000}"
  shows "settings (veh (snd (CentreSet_subService_8103H im pid n b a))) = settings (veh a)"
  using assms unfolding service_8103
  by (simp add: if_distrib [of snd] if_distrib [of veh] if_distrib [of settings] del: if_image_distrib)
     (simp add: settings_def app_parts save_jt_def save_sys_def save_tired_def on_store_def)

lemma settings_set: "settings (veh (snd (CentreSet_subService_8103H im pid (length c) (c @ r) a))) = updated pid c (settings (veh a))"
proof -
  consider "pid \<in> {0x29, 0x55, 0x57, 0x59}" | "pid \<in> {0x10, 0x40, 0x48, 0x31}" | "pid = 0x18" | "pid = 0x17" | "pid = 0xF000"
    | "pid = 0x83" | "pid = 0x13" | "pid \<notin> {0x10, 0x13, 0x17, 0x18, 0x29, 0x31, 0x40, 0x48, 0x55, 0x57, 0x59, 0x83, 0xF000}"
    by blast
  then show ?thesis
  proof cases
    case 8
    then show ?thesis by (intro settings_same settings_others) (auto simp: listed_after_def)
  next
    case 1
    then show ?thesis by (rule settings_words)
  next
    case 2
    then show ?thesis by (rule settings_texts)
  qed (simp only: settings_port settings_address settings_device settings_plate settings_server)+
qed

text \<open>Values that are listed as they are, among those that the report has.\<close>

lemma settable_listed:
  assumes "settable pid c"
  shows "listed_as pid = pid \<and> listed_after pid c b = c"
proof -
  have n: "cstr c = c" if "0 \<notin> set c" using that by (auto simp: cstr_def takeWhile_eq_all_conv)
  have p: "[0, 0] @ drop 2 c = c" if "length c = 4" "c ! 0 = 0" "c ! 1 = 0"
    using that by (auto simp: length_Suc_conv eval_nat_numeral)
  consider "pid \<in> {0x29, 0x55, 0x57, 0x59}" "length c = 4" | "pid = 0x18" "length c = 4" "c ! 0 = 0" "c ! 1 = 0"
    | w x y z where "pid = 0x17" "c = IP_Str [w, x, y, z]" | "pid = 0xF000" "length c = 12 \<and> list_all is_digit c"
    | "pid \<in> {0x10, 0x13, 0x40, 0x83}" "0 \<notin> set c" "pid = 0x13 \<longrightarrow> fst (str2ip (cleared 20 c)) \<in> {0, 1, 2, 3}"
      "pid = 0x83 \<longrightarrow> 4 \<le> length c" "pid \<noteq> 0x13 \<longrightarrow> c \<noteq> []"
    using assms by (auto simp: settable_def split: if_splits) fastforce
  then show ?thesis
  proof cases
    case 2
    then show ?thesis using p by (simp add: listed_as_def listed_after_def)
  next
    case 3
    then show ?thesis using str2ip_IP_Str [of "[w, x, y, z]" 20] by (simp add: listed_as_def listed_after_def)
  next
    case 5
    then show ?thesis using n by (auto simp: listed_as_def listed_after_def)
  qed (auto simp: listed_as_def listed_after_def)
qed

text \<open>The receive buffer of a command with one parameter.\<close>

lemma set_params_one:
  assumes "take (5 + length c) (drop 14 rx) = be32 pid @ [byte (length c)] @ c" and "length c < 256"
    and "pid < 4294967296"
  shows "\<exists>r. set_params im rx 1 14 a = snd (CentreSet_subService_8103H im pid (length c) (c @ r) a)"
proof -
  have d: "drop 14 rx = be32 pid @ [byte (length c)] @ c @ drop (19 + length c) rx"
    using append_take_drop_id [of "5 + length c" "drop 14 rx"] assms(1) by (simp add: add.commute)
  have "drop 14 rx \<noteq> []" by (subst d) (simp add: be32_def)
  then have "rx ! 18 = drop 14 rx ! 4" by simp
  then have l: "rx ! 18 = byte (length c)" by (simp only: d) (simp add: nth_append)
  have "drop 19 rx = drop 5 (drop 14 rx)" by simp
  then have "drop 19 rx = c @ drop (19 + length c) rx" by (simp only: d) simp
  moreover have "of_be32 (drop 14 rx) = pid" by (simp only: d of_be32_be32 [OF assms(3)])
  moreover have "unat (rx ! 18) = length c" using assms(2) by (simp only: l unat_byte mod_less)
  ultimately show ?thesis by (auto simp: Let_def)
qed

section \<open>Array sizes\<close>

text \<open>Every array has the size it is declared with.\<close>

definition sizes_ok :: "app \<Rightarrow> bool" where
  "sizes_ok a =
     (let v = veh a; t = terminal (dev v); y = SysConf a; l = Dial a
      in length (DomainNameStr v) = 50 \<and> length (APN_String v) = 30 \<and> length (LISTEN_Num v) = 30 \<and>
         length (DriveName v) = 22 \<and> length (Comfirm_agentID v) = 41 \<and> length (Data_Tx v) = 20 \<and>
         length (RemoteIP_aux v) = 4 \<and> length (Vech_Num t) = 13 \<and> length (ConfirmCode t) = 20 \<and>
         length (DeviceNumberID t) = 13 \<and> length (SIM_code t) = 6 \<and> length (RemoteIP_main a) = 4 \<and>
         length (DomainNameStr_aux a) = 50 \<and> length (sys_APN_str y) = 40 \<and> length (sys_DNSR y) = 50 \<and>
         length (sys_DNSR_Aux y) = 50 \<and> length (Dialinit_APN l) = 40 \<and> length (Dialinit_DNSR l) = 50 \<and>
         length (Dialinit_DNSR2 l) = 50 \<and> length (DialStr_Link1 l) = 90 \<and> length (DialStr_LinkAux l) = 50 \<and>
         RemotePort_main v < 65536 \<and> RemotePort_aux a < 65536)"

lemma sizes_ok_parts [simp]:
  "sizes_ok (on_store f a) = sizes_ok a" "sizes_ok (on_ans g a) = sizes_ok a" "sizes_ok (on_warn h a) = sizes_ok a"
  "sizes_ok (save_jt im a) = sizes_ok a" "sizes_ok (save_sys im a) = sizes_ok a" "sizes_ok (save_tired im a) = sizes_ok a"
  "sizes_ok (Spd_ExpInit a) = sizes_ok a" "sizes_ok (TIRED_Drive_Init a) = sizes_ok a"
  "sizes_ok (a\<lparr>DURATION := du\<rparr>) = sizes_ok a" "sizes_ok (a\<lparr>DISTANCE := di\<rparr>) = sizes_ok a"
  "sizes_ok (a\<lparr>Tired := ti\<rparr>) = sizes_ok a" "sizes_ok (a\<lparr>CallState := cs\<rparr>) = sizes_ok a"
  "sizes_ok (a\<lparr>Spd_Exd_LimitSeconds := li\<rparr>) = sizes_ok a"
  by (simp_all add: sizes_ok_def Let_def on_store_def on_ans_def on_warn_def app_parts save_jt_def save_sys_def
      save_tired_def Spd_ExpInit_def TIRED_Drive_Init_def)

lemma sizes_ok_values [simp]:
  "sizes_ok (on_veh (\<lambda>v. v\<lparr>Default_Dur := w\<rparr>) a) = sizes_ok a"
  "sizes_ok (on_veh (\<lambda>v. v\<lparr>Door_DrvKeepingSec := w\<rparr>) a) = sizes_ok a"
  "sizes_ok (on_veh (\<lambda>v. v\<lparr>Door_MinSleepSec := w\<rparr>) a) = sizes_ok a"
  "sizes_ok (on_term (\<lambda>t. t\<lparr>Speed_warn_MAX := w\<rparr>) a) = sizes_ok a"
  "sizes_ok (on_term (\<lambda>t. t\<lparr>Dev_ProvinceID := w\<rparr>) a) = sizes_ok a"
  "sizes_ok (on_term (\<lambda>t. t\<lparr>Dev_Color := b\<rparr>) a) = sizes_ok a"
  by (simp_all add: sizes_ok_def Let_def app_parts)

lemma length_dec_u16:
  assumes "n < 65536"
  shows "length (dec n) \<le> 5"
proof -
  have s: "length (dec n) \<le> Suc (length (dec (n div 10)))" for n by (subst dec.simps) simp
  have "n div 10 div 10 div 10 div 10 < 10" using assms by linarith
  then have "length (dec (n div 10 div 10 div 10 div 10)) = 1" by (subst dec.simps) simp
  then show ?thesis
    using s [of n] s [of "n div 10"] s [of "n div 10 div 10"] s [of "n div 10 div 10 div 10"] by linarith
qed

text \<open>The arguments that do not fit into the arrays they are copied to.\<close>

definition setting_fits :: "nat \<Rightarrow> bytes \<Rightarrow> bool" where
  "setting_fits pid c =
     (if pid = 0x10 then length c \<le> 30 \<and> length (cstr c) \<le> 18
      else if pid = 0x13 \<or> pid = 0x17
      then fst (str2ip (cleared 20 c)) mod 256 \<le> 3 \<longrightarrow> length c \<le> 50 \<and> length (cstr c) \<le> 38
      else if pid = 0x40 \<or> pid = 0x48 then length c \<le> 30
      else if pid = 0x83 then length c \<le> 13
      else True)"

lemma length_splice_max: "length (splice 0 b c) = max (length b) (length c)"
  by (simp add: splice_def)

lemma sizes_unset:
  assumes "sizes_ok a"
  shows "pid = 0x18 \<Longrightarrow> sizes_ok (snd (CentreSet_subService_8103H im pid n Content a))"
    and "pid = 0xF000 \<Longrightarrow> sizes_ok (snd (CentreSet_subService_8103H im pid n Content a))"
    and "pid \<notin> {0x10, 0x13, 0x17, 0x18, 0x31, 0x40, 0x48, 0x83, 0xF000} \<Longrightarrow>
      sizes_ok (snd (CentreSet_subService_8103H im pid n Content a))"
proof -
  have m: "sizes_ok (a\<lparr>veh := (veh a)\<lparr>RemotePort_main := u16 w\<rparr>,
      Dial := DataLink_MainSocket_set (RemoteIP_main a) (u16 w) (Dial a)\<rparr>)" for w
    using assms length_dec_u16 [OF u16_less [of w]] length_IP_Str [of "RemoteIP_main a"] u16_less [of w]
    by (simp add: sizes_ok_def Let_def DataLink_MainSocket_set_def length_cleared)
  show "pid = 0x18 \<Longrightarrow> sizes_ok (snd (CentreSet_subService_8103H im pid n Content a))"
    using assms m [of "of_be32 Content"]
    by (simp add: service_8103) (simp add: sizes_ok_def Let_def save_sys_def on_store_def on_ans_def app_parts)
  show "pid = 0xF000 \<Longrightarrow> sizes_ok (snd (CentreSet_subService_8103H im pid n Content a))"
    using assms
    by (auto simp: service_8103 deviceid_def DeviceID_Convert_SIMCODE_def)
       (simp add: sizes_ok_def Let_def on_store_def app_parts u16_def)
  have "sizes_ok (a\<lparr>RemotePort_aux := u16 w\<rparr>)" for w using assms u16_less [of w] by (simp add: sizes_ok_def Let_def)
  then show "pid \<notin> {0x10, 0x13, 0x17, 0x18, 0x31, 0x40, 0x48, 0x83, 0xF000} \<Longrightarrow>
      sizes_ok (snd (CentreSet_subService_8103H im pid n Content a))"
    using assms unfolding service_8103
    by (simp add: if_distrib [of snd] if_distrib [of sizes_ok] del: if_image_distrib)
qed

lemma sizes_texts:
  assumes "sizes_ok a" and "length c = n"
  shows "sizes_ok (snd (CentreSet_subService_8103H im 0x10 n (c @ r) a)) = setting_fits 0x10 c"
    and "sizes_ok (snd (CentreSet_subService_8103H im 0x31 n (c @ r) a))"
    and "sizes_ok (snd (CentreSet_subService_8103H im 0x40 n (c @ r) a)) = setting_fits 0x40 c"
    and "sizes_ok (snd (CentreSet_subService_8103H im 0x48 n (c @ r) a)) = setting_fits 0x48 c"
    and "sizes_ok (snd (CentreSet_subService_8103H im 0x83 n (c @ r) a)) = setting_fits 0x83 c"
proof -
  have l: "length (cstr c) \<le> n" using length_cstr [of c] assms(2) by simp
  show "sizes_ok (snd (CentreSet_subService_8103H im 0x10 n (c @ r) a)) = setting_fits 0x10 c"
    using assms l by (auto simp: service_8103 setting_fits_def)
      (auto simp: sizes_ok_def Let_def save_sys_def on_store_def app_parts DataLink_APN_Set_def length_cleared
        length_splice_max cstr_cleared_any)
  show "sizes_ok (snd (CentreSet_subService_8103H im 0x31 n (c @ r) a))"
    "sizes_ok (snd (CentreSet_subService_8103H im 0x40 n (c @ r) a)) = setting_fits 0x40 c"
    "sizes_ok (snd (CentreSet_subService_8103H im 0x48 n (c @ r) a)) = setting_fits 0x48 c"
    using assms by (auto simp: service_8103 setting_fits_def set_listen_num_def)
      (auto simp: sizes_ok_def Let_def save_jt_def on_store_def app_parts length_cleared)
  show "sizes_ok (snd (CentreSet_subService_8103H im 0x83 n (c @ r) a)) = setting_fits 0x83 c"
    using assms by (auto simp: service_8103 setting_fits_def)
      (auto simp: sizes_ok_def Let_def app_parts length_cleared)
qed

lemma length_store_halves: "length (store_halves ns i h) = length h"
  by (induction ns i h rule: store_halves.induct) simp_all

lemma length_str2ip: "length (snd (str2ip b)) = 4"
  by (simp add: str2ip_def Let_def length_store_halves)

lemma sizes_servers:
  assumes "sizes_ok a" and "length c = n"
  shows "sizes_ok (snd (CentreSet_subService_8103H im 0x13 n (c @ r) a)) = setting_fits 0x13 c"
    and "sizes_ok (snd (CentreSet_subService_8103H im 0x17 n (c @ r) a)) = setting_fits 0x17 c"
proof -
  have l: "length (cstr c) \<le> n" using length_cstr [of c] assms(2) by simp
  let ?i = "snd (str2ip (cleared 20 c))"
  have p: "length (dec (RemotePort_main (veh a))) \<le> 5" "length (dec (RemotePort_aux a)) \<le> 5"
    using assms(1) length_dec_u16 by (auto simp: sizes_ok_def Let_def)
  show "sizes_ok (snd (CentreSet_subService_8103H im 0x13 n (c @ r) a)) = setting_fits 0x13 c"
    using assms l p length_str2ip [of "cleared 20 c"] length_IP_Str [of ?i]
    by (auto simp: service_8103 setting_fits_def set_main_server_def)
       (auto simp: sizes_ok_def Let_def save_sys_def on_store_def app_parts DataLink_DNSR_Set_def
         DataLink_MainSocket_set_def length_cleared cstr_cleared_any)
  show "sizes_ok (snd (CentreSet_subService_8103H im 0x17 n (c @ r) a)) = setting_fits 0x17 c"
    using assms l p length_str2ip [of "cleared 20 c"] length_IP_Str [of ?i]
    by (auto simp: service_8103 setting_fits_def set_aux_server_def)
       (auto simp: sizes_ok_def Let_def save_sys_def on_store_def app_parts DataLink_DNSR2_Set_def
         DataLink_AuxSocket_set_def length_cleared cstr_cleared_any)
qed

lemma sizes_setting:
  assumes "sizes_ok a"
  shows "sizes_ok (snd (CentreSet_subService_8103H im pid (length c) (c @ r) a)) = setting_fits pid c"
proof -
  have o: "setting_fits pid c" if "pid \<notin> {0x10, 0x13, 0x17, 0x40, 0x48, 0x83}" using that by (auto simp: setting_fits_def)
  consider "pid \<in> {0x10, 0x31, 0x40, 0x48, 0x83}" | "pid \<in> {0x13, 0x17}" | "pid = 0x18" | "pid = 0xF000"
    | "pid \<notin> {0x10, 0x13, 0x17, 0x18, 0x31, 0x40, 0x48, 0x83, 0xF000}" by blast
  then show ?thesis
  proof cases
    case 1
    then show ?thesis using sizes_texts [OF assms refl] o by auto
  next
    case 2
    then show ?thesis using sizes_servers [OF assms refl] by auto
  qed (use sizes_unset [OF assms] o in auto)
qed

section \<open>Properties\<close>

lemma value_fits_sizes: "value_fits pid c \<Longrightarrow> setting_fits pid c"
  using length_cstr [of c] by (auto simp: value_fits_def setting_fits_def)

lemma sizes_conf: "sizes_ok a \<Longrightarrow> conf_ok (veh a) \<and> length (SIM_code (terminal (dev (veh a)))) = 6"
  by (simp add: sizes_ok_def conf_ok_def Let_def)

definition link_view :: "app \<Rightarrow> nat \<times> (bytes \<times> nat) list" where
  "link_view a = (Msg_Float_ID (dev (veh a)), tx (dev (veh a)))"

lemma link_view_parts [simp]:
  "link_view (on_store f a) = link_view a" "link_view (on_ans g a) = link_view a" "link_view (on_warn h a) = link_view a"
  "link_view (on_term k a) = link_view a"
  "link_view (save_jt im a) = link_view a" "link_view (save_sys im a) = link_view a" "link_view (save_tired im a) = link_view a"
  "link_view (Spd_ExpInit a) = link_view a" "link_view (TIRED_Drive_Init a) = link_view a"
  "link_view (deviceid b a) = link_view a" "link_view (set_listen_num im n b a) = link_view a"
  "link_view (set_main_server im n b a) = link_view a" "link_view (set_aux_server im n b a) = link_view a"
  by (simp_all add: link_view_def Let_def on_store_def on_ans_def on_warn_def app_parts save_jt_def save_sys_def
      save_tired_def Spd_ExpInit_def TIRED_Drive_Init_def deviceid_def set_listen_num_def set_main_server_def set_aux_server_def)

lemma link_view_fields [simp]:
  "link_view (a\<lparr>CallState := n\<rparr>) = link_view a" "link_view (a\<lparr>Dial := l\<rparr>) = link_view a"
  "link_view (a\<lparr>DURATION := du\<rparr>) = link_view a" "link_view (a\<lparr>DISTANCE := di\<rparr>) = link_view a"
  "link_view (a\<lparr>SysConf := y\<rparr>) = link_view a" "link_view (a\<lparr>Tired := t\<rparr>) = link_view a"
  by (simp_all add: link_view_def)

lemma link_view_8103 [simp]: "link_view (snd (CentreSet_subService_8103H im pid n b a)) = link_view a"
  unfolding service_8103
  by (simp add: if_distrib [of snd] if_distrib [of link_view] del: if_image_distrib)
     (simp add: link_view_def on_veh_def save_sys_def on_store_def on_device_def on_dev_def)

text \<open>
  (C15) What the report of the parameters lists after a setting, for every parameter that command 8103H can name and every value
  that fits the arrays: the answer 0104H is accepted by the centre, lists for the parameter what \<open>listed_after\<close> says, and
  for all others what it would have listed before. The values of \<open>settable\<close> are listed as they were set. The others are
  not: a number of the wrong length is ignored, a port over 65535 loses its high bytes, a text is cut at a zero, a server
  given by its address leaves the listed name as it was, a second server given by its name is listed as an address, the
  parameters 31H and 48H change the number listed under 40H, and what 0104H does not list stays unseen.
\<close>

theorem set_then_query:
  assumes "sizes_ok a" and "Msg_Float_ID (dev (veh a)) < 65536" and "value_fits pid c"
    and "rx ! 13 = 1" and "take (5 + length c) (drop 14 rx) = be32 pid @ [byte (length c)] @ c"
  shows "(\<exists>v' f buf n. Stuff_SettingPram_0104H (veh (TCP_RX_8103 im rx a)) = (True, v') \<and>
      tx (dev v') = tx (dev (veh a)) @ [(f, 0)] \<and>
      TCP_RX_check f (length f) = Some \<lparr>rx_buf = buf, rx_len = n + 15, rx_CmdID = 0x0104,
        rx_FloatID = Msg_Float_ID (dev (veh a)), rx_infolen = n\<rparr> \<and>
      read_params (unat (buf ! 15)) (drop 16 buf) =
        map (\<lambda>(i, b). (i, if i = listed_as pid then listed_after pid c b else b)) (settings (veh a))) \<and>
    (settable pid c \<longrightarrow> listed_as pid = pid \<and> (\<forall>b. listed_after pid c b = c))"
proof (intro conjI impI allI)
  have v: "length c < 256" "pid < 4294967296" using assms(3) by (simp_all add: value_fits_def)
  obtain r where r: "set_params im rx 1 14 a = snd (CentreSet_subService_8103H im pid (length c) (c @ r) a)"
    using set_params_one [OF assms(5) v] by blast
  let ?b = "set_params im rx 1 14 a"
  obtain g where a: "TCP_RX_8103 im rx a = on_ans g ?b" using assms(4) by (simp add: TCP_RX_8103_def Let_def)
  have "sizes_ok (TCP_RX_8103 im rx a)"
    using sizes_setting [OF assms(1)] value_fits_sizes [OF assms(3)] unfolding a r by simp
  moreover have "link_view (TCP_RX_8103 im rx a) = link_view a" unfolding a r by simp
  ultimately show "\<exists>v' f buf n. Stuff_SettingPram_0104H (veh (TCP_RX_8103 im rx a)) = (True, v') \<and>
      tx (dev v') = tx (dev (veh a)) @ [(f, 0)] \<and>
      TCP_RX_check f (length f) = Some \<lparr>rx_buf = buf, rx_len = n + 15, rx_CmdID = 0x0104,
        rx_FloatID = Msg_Float_ID (dev (veh a)), rx_infolen = n\<rparr> \<and>
      read_params (unat (buf ! 15)) (drop 16 buf) =
        map (\<lambda>(i, b). (i, if i = listed_as pid then listed_after pid c b else b)) (settings (veh a))"
    using query_reports [of "veh (TCP_RX_8103 im rx a)"] sizes_conf settings_set [of im pid c r a] assms(2)
    unfolding a r by (simp add: link_view_def)
qed (use settable_listed in blast)+

text \<open>A state with all arrays cleared and the dial strings as they are declared.\<close>

definition first_app :: "vehicle \<Rightarrow> app" where
  "first_app v = \<lparr>veh = v,
     DURATION = \<lparr>Heart_Dur = 0, TCP_ACK_Dur = 0, TCP_ReSD_Num = 0, UDP_ACK_Dur = 0, UDP_ReSD_Num = 0,
       NoDrvLogin_Dur = 0, Sleep_Dur = 0, Emegence_Dur = 0, SD_Delta_maxAngle = 0, IllgleMovo_disttance = 0\<rparr>,
     DISTANCE = \<lparr>Defalut_DistDelta = 0, NoDrvLogin_Dist = 0, Sleep_Dist = 0, Emergen_Dist = 0\<rparr>,
     SysConf = \<lparr>sys_APN_str = replicate 40 0, sys_IP_Main = replicate 4 0, sys_Port_main = 0,
       sys_DNSR = replicate 50 0, sys_DNSR_Aux = replicate 50 0\<rparr>,
     Tired = \<lparr>Door_DayAccumlateDrvSec = 0, Door_MaxParkingSec = 0, Parking_currentcnt = 0, ACC_ONstate_counter = 0,
       ACC_Offstate_counter = 0, Status_TiredwhRst = 0, Tireddrv_status = 0, tired_Flag = 0, Tgvoice_play = 0,
       voicePly_counter = 0, voicePly_timer = 0, tired_start_time = replicate 6 0, tired_end_time = replicate 6 0\<rparr>,
     Dial = \<lparr>Dialinit_APN = cleared 40 (ascii ''AT+CGDCONT=1,'' @ [0x22] @ ascii ''IP'' @ [0x22, 0x2C, 0x22]),
       Dialinit_DNSR = cleared 50 (ascii ''AT%DNSR='' @ [0x22]), Dialinit_DNSR2 = cleared 50 (ascii ''AT%DNSR='' @ [0x22]),
       DialStr_Link1 = cleared 90 (ascii ''AT%IPOPENX=1,'' @ [0x22] @ ascii ''TCP'' @ [0x22, 0x2C, 0x22]),
       DialStr_LinkAux = cleared 50 (ascii ''AT%IPOPENX=1,'' @ [0x22] @ ascii ''TCP'' @ [0x22, 0x2C, 0x22])\<rparr>,
     speed_Exd = \<lparr>current_maxSpd = 0, dur_seconds = 0, excd_status = 0, ex_startTime = replicate 6 0, speed_flag = 0\<rparr>,
     RT_LOCK = \<lparr>Lock_state = 0, Lock_Dur = 0, Lock_KeepDur = 0, Lock_KeepCnter = 0\<rparr>,
     RemoteIP_main = replicate 4 0, RemotePort_aux = 0, DomainNameStr_aux = replicate 50 0,
     Spd_Exd_LimitSeconds = 0, DUR_TOTALMODE = 0, Dur_DefaultMode = 0, Current_SD_Duration = 0, CallState = 0,
     DF_K_adjustState = 0, ModuleStatus = 0, f_Exigent_warning = 0, warn_flag = 0, Send_warn_times = 0,
     Control_Flag = 0, f_BD_Extend_7F02H = 0\<rparr>"

definition first_vehicle :: vehicle where
  "first_vehicle = idle_vehicle\<lparr>dev := (idle_device blank_store)\<lparr>terminal := (terminal (idle_device blank_store))
       \<lparr>Vech_Num := replicate 13 0, ConfirmCode := replicate 20 0, DeviceNumberID := replicate 13 0, SIM_code := replicate 6 0\<rparr>\<rparr>,
     DomainNameStr := replicate 50 0, APN_String := replicate 30 0, LISTEN_Num := replicate 30 0,
     DriveName := replicate 22 0, Comfirm_agentID := replicate 41 0\<rparr>"

definition no_images :: images where
  "no_images = \<lparr>jt_img = \<lambda>_. [], sys_img = \<lambda>_. [], tired_img = \<lambda>_. []\<rparr>"

lemma first_app_sizes: "sizes_ok (first_app first_vehicle)" "Msg_Float_ID (dev first_vehicle) < 65536"
  by (simp_all add: sizes_ok_def first_app_def first_vehicle_def idle_vehicle_def idle_device_def Let_def
      length_cleared ascii_def)

theorem set_then_query_witness:
  "\<exists>v' f buf n. Stuff_SettingPram_0104H (veh (TCP_RX_8103 no_images (replicate 13 0 @ [1, 0, 0, 0, 0x55, 4, 0, 0, 0, 90])
      (first_app first_vehicle))) = (True, v') \<and> tx (dev v') = tx (dev first_vehicle) @ [(f, 0)] \<and>
    TCP_RX_check f (length f) = Some \<lparr>rx_buf = buf, rx_len = n + 15, rx_CmdID = 0x0104, rx_FloatID = 0, rx_infolen = n\<rparr> \<and>
    map_of (read_params (unat (buf ! 15)) (drop 16 buf)) 0x55 = Some [0, 0, 0, 90]"
  using set_then_query [OF first_app_sizes(1), of "0x55" "[0, 0, 0, 90]"
      "replicate 13 0 @ [1, 0, 0, 0, 0x55, 4, 0, 0, 0, 90]" no_images] first_app_sizes(2)
  by (auto simp: value_fits_def listed_as_def listed_after_def nth_append be32_def settings_def first_app_def)
     (auto simp: first_vehicle_def idle_vehicle_def idle_device_def)



text \<open>
  Settings that go astray: the radius of the fence (31H) is also written over the telephone number of
  the centre, the city (82H) is stored as the province, and the port (18H) is used for the next connection
  but the saved system configuration keeps the old one.
\<close>

theorem settings_misplaced:
  assumes "length c = 2" and "length p = 4"
  shows "let r = veh (snd (CentreSet_subService_8103H im 0x31 2 c a));
             t = terminal (dev (veh (snd (CentreSet_subService_8103H im 0x82 2 c a))));
             b = snd (CentreSet_subService_8103H im 0x18 4 p a)
    in LISTEN_Num r = c @ replicate 28 0 \<and>
       Dev_ProvinceID t = of_be16 (c ! 0) (c ! 1) \<and> Dev_CityID t = Dev_CityID (terminal (dev (veh a))) \<and>
       RemotePort_main (veh b) = u16 (of_be32 p) \<and> SysConf b = SysConf a"
  using assms
  by (simp add: service_8103 set_listen_num_def save_jt_def save_sys_def on_store_def on_ans_def app_parts cleared_def)

theorem settings_misplaced_witness:
  "take 3 (LISTEN_Num (veh (snd (CentreSet_subService_8103H no_images 0x31 2 [1, 0x2C] (first_app first_vehicle))))) =
     [1, 0x2C, 0]"
  using settings_misplaced [of "[1, 0x2C]" "[0, 0, 0x1F, 0x90]" no_images "first_app first_vehicle"]
  by (simp add: Let_def)

end
