(* ===== verification/Records808.thy ===== *)
theory Records808
  imports Settings808
begin

text \<open>
  Records the centre sets (\<^verbatim>\<open>protocol_808/protocol_808.c\<close>, commands 8300H to 8304H, 8401H and 8600H to
  8607H, and the initialisations of \<^verbatim>\<open>protocol_808/Sys_config.c\<close> they call): texts, events, questions,
  information menus, the phone book, areas and routes. They are stored as numbered records, as the
  memory images of the C structures (little endian, members aligned to their size, padding zero).
\<close>

section \<open>The state\<close>

record event_state =
  Event_Len :: u8
  Event_Effective :: u8
  Event_Str :: bytes

record broadcast_state =
  INFO_LEN :: nat
  INFO_SDFlag :: u8
  INFO_Effective :: u8
  INFO_STR :: bytes

record phone_book =
  CALL_TYPE :: u8
  NumLen :: u8
  UserLen :: u8
  phone_Effective_Flag :: u8
  NumberStr :: bytes
  UserStr :: bytes

record circle_rail =
  circle_Area_ID :: nat
  circle_attribute :: nat
  Center_Latitude :: nat
  Center_Longitude :: nat
  Radius :: nat
  circle_MaxSpd :: nat
  circle_KeepDur :: u8
  circle_Rail_Num :: u8
  circle_Effective_flag :: u8
  circle_StartTimeBCD :: bytes
  circle_EndTimeBCD :: bytes

record rect_rail =
  rect_Area_ID :: nat
  rect_attribute :: nat
  LeftUp_Latitude :: nat
  LeftUp_Longitude :: nat
  RightDown_Latitude :: nat
  RightDown_Longitude :: nat
  rect_MaxSpd :: nat
  rect_KeepDur :: u8
  rect_Rail_Num :: u8
  rect_Effective_flag :: u8
  rect_StartTimeBCD :: bytes
  rect_EndTimeBCD :: bytes

record polygen_rail =
  poly_Area_ID :: nat
  poly_attribute :: nat
  poly_MaxSpd :: nat
  poly_KeepDur :: u8
  Acme_Num :: nat
  Acmes :: "nat list"
  poly_Rail_Num :: u8
  poly_Effective_flag :: u8
  poly_StartTimeBCD :: bytes
  poly_EndTimeBCD :: bytes

record route_point =
  POINT_ID :: nat
  Line_ID :: nat
  POINT_Latitude :: nat
  POINT_Longitude :: nat
  Width :: u8
  Atribute :: u8
  TooLongValue :: nat
  TooLessValue :: nat
  point_MaxSpd :: nat
  point_KeepDur :: nat

record route_state =
  Route_ID :: nat
  Route_attribute :: nat
  Points_Num :: nat
  route_Effective_flag :: u8
  route_StartTimeBCD :: bytes
  route_EndTimeBCD :: bytes
  RoutePoints :: "route_point list"

record ask_state =
  ASK_infolen :: u8
  ASK_info :: bytes
  ASK_answer :: bytes
  ASK_disp_Enable :: u8

record text_state =
  TEXT_FLAG :: u8
  TEXT_SD_FLAG :: nat
  TEXT_Content :: bytes
  TextInforCounter :: nat

record tts_state =
  HEX_BUF :: bytes
  HEX_len :: nat
  tts_Save :: nat
  ASCII_BUF :: bytes
  ASCII_Len :: nat
  NeedtoPlay :: nat
  Playing :: nat
  TimeOut_limt :: nat
  TimeCounter :: nat

record lcd_state =
  lcd_Type :: nat
  TXT_content :: bytes
  TXT_contentLen :: nat

record station =
  core :: app
  EventObj :: event_state
  MSG_BroadCast_Obj :: broadcast_state
  Rx_PhoneBOOK :: phone_book
  PhoneBook :: phone_book
  Rail_Cycle :: circle_rail
  Rail_Rectangle :: rect_rail
  Rail_Polygen :: polygen_rail
  ROUTE_Obj :: route_state
  ASK_Centre :: ask_state
  TextInfo :: text_state
  TTS_Var :: tts_state
  DwinLCD :: lcd_state
  voice_CMD_Type :: u8
  Play_info :: bytes
  info_sdFlag :: nat
  speaker_on :: bool

definition on_core :: "(app \<Rightarrow> app) \<Rightarrow> station \<Rightarrow> station" where
  "on_core f z = z\<lparr>core := f (core z)\<rparr>"

abbreviation (input) device_of :: "station \<Rightarrow> device" where "device_of z \<equiv> dev (veh (core z))"

text \<open>The answer of most commands: success.\<close>

definition acknowledge :: "station \<Rightarrow> station" where
  "acknowledge = on_core (on_ans (\<lambda>n. n\<lparr>f_CentreCMDack_0001H := 1, f_CentreCMDack_resualt := 0\<rparr>))"

definition write_record :: "string \<Rightarrow> nat \<Rightarrow> bytes \<Rightarrow> station \<Rightarrow> station" where
  "write_record name n b = on_core (on_store (\<lambda>s. snd (Api_RecordNum_Write name n b (length b) s)))"

section \<open>Memory images\<close>

definition le16 :: "nat \<Rightarrow> bytes" where
  "le16 n = [byte n, byte (n div 256)]"

definition event_image :: "u8 \<Rightarrow> event_state \<Rightarrow> bytes" where
  "event_image i e = [i, Event_Len e, Event_Effective e] @ Event_Str e"

definition broadcast_image :: "u8 \<Rightarrow> u8 \<Rightarrow> broadcast_state \<Rightarrow> bytes" where
  "broadcast_image typ cancel m =
     [typ, 0] @ le16 (INFO_LEN m) @ [cancel, INFO_SDFlag m, INFO_Effective m] @ INFO_STR m @ [0]"

definition phone_image :: "phone_book \<Rightarrow> bytes" where
  "phone_image p = [CALL_TYPE p, NumLen p, UserLen p, phone_Effective_Flag p] @ NumberStr p @ UserStr p"

definition circle_image :: "circle_rail \<Rightarrow> bytes" where
  "circle_image c =
     le32 (circle_Area_ID c) @ le16 (circle_attribute c) @ [0, 0] @ le32 (Center_Latitude c) @ le32 (Center_Longitude c) @
     le32 (Radius c) @ le16 (circle_MaxSpd c) @ [circle_KeepDur c, circle_Rail_Num c, circle_Effective_flag c] @
     circle_StartTimeBCD c @ circle_EndTimeBCD c @ [0, 0, 0]"

definition rect_image :: "rect_rail \<Rightarrow> bytes" where
  "rect_image c =
     le32 (rect_Area_ID c) @ le16 (rect_attribute c) @ [0, 0] @ le32 (LeftUp_Latitude c) @ le32 (LeftUp_Longitude c) @
     le32 (RightDown_Latitude c) @ le32 (RightDown_Longitude c) @ le16 (rect_MaxSpd c) @
     [rect_KeepDur c, rect_Rail_Num c, rect_Effective_flag c] @ rect_StartTimeBCD c @ rect_EndTimeBCD c @ [0, 0, 0]"

definition polygen_image :: "polygen_rail \<Rightarrow> bytes" where
  "polygen_image c =
     le32 (poly_Area_ID c) @ le16 (poly_attribute c) @ le16 (poly_MaxSpd c) @ [poly_KeepDur c, 0] @ le16 (Acme_Num c) @
     concat (map le32 (Acmes c)) @ [poly_Rail_Num c, poly_Effective_flag c] @ poly_StartTimeBCD c @ poly_EndTimeBCD c @ [0, 0]"

definition point_image :: "route_point \<Rightarrow> bytes" where
  "point_image p =
     le32 (POINT_ID p) @ le32 (Line_ID p) @ le32 (POINT_Latitude p) @ le32 (POINT_Longitude p) @ [Width p, Atribute p] @
     le16 (TooLongValue p) @ le16 (TooLessValue p) @ le16 (point_MaxSpd p) @ [byte (point_KeepDur p), 0, 0, 0]"

definition route_image :: "route_state \<Rightarrow> bytes" where
  "route_image r =
     le32 (Route_ID r) @ le16 (Route_attribute r) @ le16 (Points_Num r) @ [route_Effective_flag r] @
     route_StartTimeBCD r @ route_EndTimeBCD r @ [0, 0, 0] @ concat (map point_image (take 3 (RoutePoints r)))"

definition ask_image :: "nat \<Rightarrow> nat \<Rightarrow> u8 \<Rightarrow> ask_state \<Rightarrow> bytes" where
  "ask_image sd float answer q =
     [byte sd, 0] @ le16 float @ [ASK_infolen q, answer] @ ASK_info q @ ASK_answer q @ [ASK_disp_Enable q, 0]"

section \<open>Areas and routes\<close>

text \<open>Fields of the receive buffer.\<close>

abbreviation (input) dword :: "bytes \<Rightarrow> nat \<Rightarrow> nat" where "dword rx i \<equiv> of_be32 (drop i rx)"
abbreviation (input) hword :: "bytes \<Rightarrow> nat \<Rightarrow> nat" where "hword rx i \<equiv> of_be16 (rx ! i) (rx ! (i + 1))"
abbreviation (input) six :: "bytes \<Rightarrow> nat \<Rightarrow> bytes" where "six rx i \<equiv> take 6 (drop i rx)"

definition area_id :: "nat \<Rightarrow> nat \<Rightarrow> nat" where
  "area_id limit n = (if n > limit \<or> n = 0 then 1 else n)"

definition zero_circle :: circle_rail where
  "zero_circle = \<lparr>circle_Area_ID = 0, circle_attribute = 0, Center_Latitude = 0, Center_Longitude = 0, Radius = 0,
     circle_MaxSpd = 0, circle_KeepDur = 0, circle_Rail_Num = 0, circle_Effective_flag = 0,
     circle_StartTimeBCD = replicate 6 0, circle_EndTimeBCD = replicate 6 0\<rparr>"

definition zero_rect :: rect_rail where
  "zero_rect = \<lparr>rect_Area_ID = 0, rect_attribute = 0, LeftUp_Latitude = 0, LeftUp_Longitude = 0, RightDown_Latitude = 0,
     RightDown_Longitude = 0, rect_MaxSpd = 0, rect_KeepDur = 0, rect_Rail_Num = 0, rect_Effective_flag = 0,
     rect_StartTimeBCD = replicate 6 0, rect_EndTimeBCD = replicate 6 0\<rparr>"

definition zero_polygen :: polygen_rail where
  "zero_polygen = \<lparr>poly_Area_ID = 0, poly_attribute = 0, poly_MaxSpd = 0, poly_KeepDur = 0, Acme_Num = 0,
     Acmes = replicate 6 0, poly_Rail_Num = 0, poly_Effective_flag = 0, poly_StartTimeBCD = replicate 6 0,
     poly_EndTimeBCD = replicate 6 0\<rparr>"

definition zero_point :: route_point where
  "zero_point = \<lparr>POINT_ID = 0, Line_ID = 0, POINT_Latitude = 0, POINT_Longitude = 0, Width = 0, Atribute = 0,
     TooLongValue = 0, TooLessValue = 0, point_MaxSpd = 0, point_KeepDur = 0\<rparr>"

definition zero_route :: route_state where
  "zero_route = \<lparr>Route_ID = 0, Route_attribute = 0, Points_Num = 0, route_Effective_flag = 0,
     route_StartTimeBCD = replicate 6 0, route_EndTimeBCD = replicate 6 0, RoutePoints = replicate 3 zero_point\<rparr>"

definition save_circle :: "station \<Rightarrow> station" where
  "save_circle z = write_record Rail_cycle (circle_Area_ID (Rail_Cycle z)) (circle_image (Rail_Cycle z)) z"

definition save_rect :: "station \<Rightarrow> station" where
  "save_rect z = write_record Rail_rect (rect_Area_ID (Rail_Rectangle z)) (rect_image (Rail_Rectangle z)) z"

definition save_polygen :: "station \<Rightarrow> station" where
  "save_polygen z = write_record Rail_polygen (poly_Area_ID (Rail_Polygen z)) (polygen_image (Rail_Polygen z)) z"

definition save_route :: "station \<Rightarrow> station" where
  "save_route z = write_record route_line (Route_ID (ROUTE_Obj z)) (route_image (ROUTE_Obj z)) z"

definition RailCycle_Init :: "station \<Rightarrow> station" where
  "RailCycle_Init z =
     (let t = Time2BCD (veh (core z));
          z = z\<lparr>Rail_Cycle := (Rail_Cycle z)\<lparr>circle_Area_ID := 0, circle_attribute := 0, Center_Latitude := 0,
                Center_Longitude := 0, Radius := 100, circle_StartTimeBCD := t, circle_EndTimeBCD := t,
                circle_MaxSpd := 100, circle_KeepDur := 30, circle_Rail_Num := 8, circle_Effective_flag := 0\<rparr>\<rparr>
      in fold (\<lambda>i z. save_circle (z\<lparr>Rail_Cycle := (Rail_Cycle z)\<lparr>circle_Area_ID := i + 1\<rparr>\<rparr>)) [0..<8] z)"

definition RailRect_Init :: "station \<Rightarrow> station" where
  "RailRect_Init z =
     (let t = Time2BCD (veh (core z));
          z = z\<lparr>Rail_Rectangle := (Rail_Rectangle z)\<lparr>rect_Area_ID := 0, rect_attribute := 0, LeftUp_Latitude := 0,
                LeftUp_Longitude := 0, RightDown_Latitude := 0, RightDown_Longitude := 0,
                rect_StartTimeBCD := t, rect_EndTimeBCD := t,
                rect_MaxSpd := 100, rect_KeepDur := 30, rect_Rail_Num := 8, rect_Effective_flag := 0\<rparr>\<rparr>
      in fold (\<lambda>i z. save_rect (z\<lparr>Rail_Rectangle := (Rail_Rectangle z)\<lparr>rect_Area_ID := i + 1\<rparr>\<rparr>)) [0..<8] z)"

definition RailPolygen_Init :: "station \<Rightarrow> station" where
  "RailPolygen_Init z =
     (let t = Time2BCD (veh (core z));
          z = z\<lparr>Rail_Polygen := (Rail_Polygen z)\<lparr>poly_Area_ID := 0, poly_attribute := 0,
                poly_StartTimeBCD := t, poly_EndTimeBCD := t, poly_MaxSpd := 100, poly_KeepDur := 30, Acme_Num := 3,
                Acmes := [10, 10, 20, 20, 30, 30], poly_Effective_flag := 0\<rparr>\<rparr>
      in fold (\<lambda>i z. save_polygen (z\<lparr>Rail_Polygen := (Rail_Polygen z)\<lparr>poly_Area_ID := i + 1\<rparr>\<rparr>)) [0..<8] z)"

definition RouteLine_Obj_init :: "station \<Rightarrow> station" where
  "RouteLine_Obj_init z =
     (let t = Time2BCD (veh (core z))
      in z\<lparr>ROUTE_Obj := (ROUTE_Obj z)\<lparr>Route_ID := 0, Route_attribute := 0, route_StartTimeBCD := t, route_EndTimeBCD := t,
             Points_Num := 3, route_Effective_flag := 0,
             RoutePoints := map (\<lambda>i. \<lparr>POINT_ID = i + 1, Line_ID = i, POINT_Latitude = i + 300, POINT_Longitude = i + 500,
               Width = 20, Atribute = 0, TooLongValue = 100, TooLessValue = 50, point_MaxSpd = 60, point_KeepDur = 3\<rparr>)
               [0..<3] @ drop 3 (RoutePoints (ROUTE_Obj z))\<rparr>\<rparr>)"

definition RouteLine_Init :: "station \<Rightarrow> station" where
  "RouteLine_Init z =
     fold (\<lambda>i z. save_route (z\<lparr>ROUTE_Obj := (ROUTE_Obj z)\<lparr>Route_ID := i + 1\<rparr>\<rparr>)) [0..<8] (RouteLine_Obj_init z)"

text \<open>
  Setting an area. Adding a circular area first looks for a free record, but the loop writes
  a cleared record 0 instead of reading, eight times.
\<close>

definition TCP_RX_8600 :: "bytes \<Rightarrow> station \<Rightarrow> station" where
  "TCP_RX_8600 rx z =
     acknowledge
      (if rx ! 14 = 1 \<and> unat (rx ! 13) \<le> 2
       then let z = (if rx ! 13 = 1
                     then fold (\<lambda>i z. save_circle (z\<lparr>Rail_Cycle := zero_circle\<rparr>)) [0..<8] z else z)
            in save_circle (z\<lparr>Rail_Cycle := \<lparr>circle_Area_ID = area_id 8 (dword rx 15), circle_attribute = hword rx 19,
                 Center_Latitude = dword rx 21, Center_Longitude = dword rx 25, Radius = dword rx 29,
                 circle_MaxSpd = hword rx 45, circle_KeepDur = rx ! 47, circle_Rail_Num = 0, circle_Effective_flag = 1,
                 circle_StartTimeBCD = six rx 33, circle_EndTimeBCD = six rx 39\<rparr>\<rparr>)
       else z)"

definition TCP_RX_8602 :: "bytes \<Rightarrow> station \<Rightarrow> station" where
  "TCP_RX_8602 rx z =
     acknowledge
      (if rx ! 14 = 1 \<and> unat (rx ! 13) \<le> 2
       then save_rect (z\<lparr>Rail_Rectangle := \<lparr>rect_Area_ID = area_id 8 (dword rx 15), rect_attribute = hword rx 19,
              LeftUp_Latitude = dword rx 21, LeftUp_Longitude = dword rx 25, RightDown_Latitude = dword rx 29,
              RightDown_Longitude = dword rx 33, rect_MaxSpd = hword rx 49, rect_KeepDur = rx ! 51, rect_Rail_Num = 0,
              rect_Effective_flag = 1, rect_StartTimeBCD = six rx 37, rect_EndTimeBCD = six rx 43\<rparr>\<rparr>)
       else z)"

definition TCP_RX_8604 :: "bytes \<Rightarrow> station \<Rightarrow> station" where
  "TCP_RX_8604 rx z =
     acknowledge
      (if rx ! 14 = 1 \<and> unat (rx ! 13) \<le> 2
       then save_polygen (z\<lparr>Rail_Polygen := \<lparr>poly_Area_ID = area_id 8 (dword rx 15), poly_attribute = hword rx 19,
              poly_MaxSpd = hword rx 32, poly_KeepDur = rx ! 34, Acme_Num = unat (rx ! 35),
              Acmes = map (\<lambda>k. dword rx (36 + 4 * k)) [0..<6], poly_Rail_Num = 0, poly_Effective_flag = 1,
              poly_StartTimeBCD = six rx 20, poly_EndTimeBCD = six rx 26\<rparr>\<rparr>)
       else z)"

text \<open>Deleting areas: the identifiers are read one byte apart, although each has four bytes.\<close>

definition TCP_RX_8601 :: "bytes \<Rightarrow> station \<Rightarrow> station" where
  "TCP_RX_8601 rx z =
     acknowledge
      (if rx ! 13 = 0 then RailCycle_Init z
       else fold (\<lambda>i z. save_circle (z\<lparr>Rail_Cycle := (Rail_Cycle z)\<lparr>circle_Area_ID := area_id 8 (dword rx (14 + i)),
              circle_Effective_flag := 0\<rparr>\<rparr>)) [0..<unat (rx ! 13)] (z\<lparr>Rail_Cycle := zero_circle\<rparr>))"

definition TCP_RX_8603 :: "bytes \<Rightarrow> station \<Rightarrow> station" where
  "TCP_RX_8603 rx z =
     acknowledge
      (if rx ! 13 = 0 then RailRect_Init z
       else fold (\<lambda>i z. save_rect (z\<lparr>Rail_Rectangle := (Rail_Rectangle z)\<lparr>rect_Area_ID := area_id 8 (dword rx (14 + i)),
              rect_Effective_flag := 0\<rparr>\<rparr>)) [0..<unat (rx ! 13)] (z\<lparr>Rail_Rectangle := zero_rect\<rparr>))"

definition TCP_RX_8605 :: "bytes \<Rightarrow> station \<Rightarrow> station" where
  "TCP_RX_8605 rx z =
     acknowledge
      (if rx ! 13 = 0 then RailPolygen_Init z
       else fold (\<lambda>i z. save_polygen (z\<lparr>Rail_Polygen := (Rail_Polygen z)\<lparr>poly_Area_ID := area_id 8 (dword rx (14 + i)),
              poly_Effective_flag := 0\<rparr>\<rparr>)) [0..<unat (rx ! 13)] (z\<lparr>Rail_Polygen := zero_polygen\<rparr>))"

abbreviation (input) Route_Mum :: nat where "Route_Mum \<equiv> 16"

text \<open>
  A route. The loop reads six points into an array of three; in the model the list grows instead. Two
  increments of the position in one expression are taken from left to right.
\<close>

fun read_points :: "nat \<Rightarrow> bytes \<Rightarrow> nat \<Rightarrow> route_point list" where
  "read_points 0 rx r = []"
| "read_points (Suc n) rx r =
     (let p = zero_point\<lparr>POINT_ID := dword rx r, Line_ID := dword rx (r + 4), POINT_Latitude := dword rx (r + 8),
                POINT_Longitude := dword rx (r + 12), Width := rx ! (r + 16), Atribute := rx ! (r + 17)\<rparr>
      in if Atribute p = 0 then p # read_points n rx (r + 18)
         else if Atribute p = 1 then p\<lparr>point_MaxSpd := hword rx (r + 18)\<rparr> # read_points n rx (r + 20)
         else p\<lparr>TooLongValue := hword rx (r + 18), TooLessValue := hword rx (r + 20), point_MaxSpd := hword rx (r + 22),
                point_KeepDur := u8n (hword rx (r + 24))\<rparr> # read_points n rx (r + 26))"

definition TCP_RX_8606 :: "bytes \<Rightarrow> station \<Rightarrow> station" where
  "TCP_RX_8606 rx z =
     (let r = zero_route\<lparr>Route_ID := dword rx 13, Route_attribute := hword rx 17, route_StartTimeBCD := six rx 19,
                route_EndTimeBCD := six rx 25, Points_Num := hword rx 31\<rparr>
      in acknowledge
          (if Points_Num r < 3 then z\<lparr>ROUTE_Obj := r\<rparr>
           else save_route (z\<lparr>ROUTE_Obj := r\<lparr>RoutePoints := read_points 6 rx 33,
                  Route_ID := area_id Route_Mum (Route_ID r), route_Effective_flag := 1\<rparr>\<rparr>)))"

definition TCP_RX_8607 :: "bytes \<Rightarrow> station \<Rightarrow> station" where
  "TCP_RX_8607 rx z =
     acknowledge
      (if rx ! 13 = 0 then RouteLine_Init z
       else fold (\<lambda>i z. save_route (z\<lparr>ROUTE_Obj := (ROUTE_Obj z)\<lparr>Route_ID := area_id Route_Mum (dword rx (14 + i)),
              route_Effective_flag := 0\<rparr>\<rparr>)) [0..<unat (rx ! 13)] (z\<lparr>ROUTE_Obj := zero_route\<rparr>))"

section \<open>Events, menus, questions and the phone book\<close>

definition save_event :: "station \<Rightarrow> station" where
  "save_event z =
     (let i = Event_ID (ans (device_of z)) in write_record event_808 (unat i) (event_image i (EventObj z)) z)"

text \<open>\<^verbatim>\<open>Event_Init(1)\<close> and \<^verbatim>\<open>MSG_BroadCast_Init(1)\<close>, the only calls of the commands.\<close>

definition Event_Init :: "station \<Rightarrow> station" where
  "Event_Init z =
     fold (\<lambda>i z. save_event (on_core (on_ans (\<lambda>n. n\<lparr>Event_ID := byte (i + 1)\<rparr>)) z)) [0..<8]
       (z\<lparr>EventObj := \<lparr>Event_Len = 0, Event_Effective = 0, Event_Str = replicate 20 0\<rparr>\<rparr>)"

definition TCP_RX_8301 :: "bytes \<Rightarrow> station \<Rightarrow> station" where
  "TCP_RX_8301 rx z =
     acknowledge
      (if rx ! 13 = 0 then Event_Init z
       else if unat (rx ! 13) \<le> 4 \<and> rx ! 14 = 1
       then let z = on_core (on_ans (\<lambda>n. n\<lparr>Event_ID := (if unat (rx ! 15) > 8 \<and> rx ! 15 = 0 then 0 else rx ! 15)\<rparr>)) z
            in save_event (z\<lparr>EventObj := \<lparr>Event_Len = rx ! 16, Event_Effective = 1,
                 Event_Str = cleared 20 (take (unat (rx ! 16)) (drop 17 rx))\<rparr>\<rparr>)
       else z)"

definition save_broadcast :: "station \<Rightarrow> station" where
  "save_broadcast z =
     (let n = ans (device_of z)
      in write_record msg_broadcast (unat (INFO_TYPE n)) (broadcast_image (INFO_TYPE n) (INFO_PlyCancel n) (MSG_BroadCast_Obj z)) z)"

definition MSG_BroadCast_Init :: "station \<Rightarrow> station" where
  "MSG_BroadCast_Init z =
     fold (\<lambda>i z. save_broadcast (on_core (on_ans (\<lambda>n. n\<lparr>INFO_TYPE := byte (i + 1)\<rparr>)) z)) [0..<8]
       (z\<lparr>MSG_BroadCast_Obj := (MSG_BroadCast_Obj z)\<lparr>INFO_LEN := 0, INFO_Effective := 0, INFO_STR := replicate 30 0\<rparr>\<rparr>)"

definition TCP_RX_8303 :: "bytes \<Rightarrow> station \<Rightarrow> station" where
  "TCP_RX_8303 rx z =
     acknowledge
      (if rx ! 13 = 0 then MSG_BroadCast_Init z
       else if unat (rx ! 13) \<le> 3 \<and> rx ! 14 = 1
       then let z = on_core (on_ans (\<lambda>n. n\<lparr>INFO_TYPE := (if unat (rx ! 15) > 8 \<and> rx ! 15 = 0 then 0 else rx ! 15),
                  INFO_PlyCancel := 1\<rparr>)) z
            in save_broadcast (z\<lparr>MSG_BroadCast_Obj := (MSG_BroadCast_Obj z)\<lparr>INFO_LEN := hword rx 16, INFO_Effective := 1,
                 INFO_STR := cleared 30 (take (hword rx 16) (drop 18 rx))\<rparr>\<rparr>)
       else z)"

definition TCP_RX_8304 :: "bytes \<Rightarrow> nat \<Rightarrow> station \<Rightarrow> station" where
  "TCP_RX_8304 rx infolen z =
     (let c = take (infolen - 3) (drop 16 rx);
          z = on_core (on_ans (\<lambda>n. n\<lparr>INFO_TYPE := rx ! 13\<rparr>)) z
      in acknowledge (z\<lparr>MSG_BroadCast_Obj := (MSG_BroadCast_Obj z)\<lparr>INFO_LEN := hword rx 14, INFO_SDFlag := 1,
             INFO_STR := cleared 30 c\<rparr>,
           TextInfo := (TextInfo z)\<lparr>TEXT_Content := cleared 100 c, TEXT_SD_FLAG := 1\<rparr>\<rparr>))"

definition TCP_RX_8302 :: "bytes \<Rightarrow> nat \<Rightarrow> station \<Rightarrow> station" where
  "TCP_RX_8302 rx infolen z =
     (let l = unat (rx ! 14);
          f = Centre_FloatID (ans (device_of z));
          z = z\<lparr>ASK_Centre := \<lparr>ASK_infolen = rx ! 14, ASK_info = cleared 30 (take l (drop 15 rx)),
                ASK_answer = cleared 30 (take (infolen - 2 - l) (drop (15 + l) rx)), ASK_disp_Enable = 1\<rparr>\<rparr>;
          z = on_core (on_veh (\<lambda>v. v\<lparr>ASK_SdFlag := 1\<rparr>)) z;
          z = on_core (on_ans (\<lambda>n. n\<lparr>ASK_floatID := f\<rparr>)) z
      in acknowledge (write_record ask_quesstion 1 (ask_image 1 f (ASK_answerID (ans (device_of z))) (ASK_Centre z)) z))"

text \<open>The phone book entry of a command, and the entry with a given memory image.\<close>

definition rx_phone :: "bytes \<Rightarrow> phone_book \<Rightarrow> phone_book" where
  "rx_phone rx p =
     (let n = unat (rx ! 16)
      in p\<lparr>CALL_TYPE := rx ! 15, NumLen := rx ! 16, NumberStr := cleared 20 (take n (drop 17 rx)),
           UserLen := rx ! (17 + n), UserStr := cleared 10 (take (unat (rx ! (17 + n))) (drop (18 + n) rx))\<rparr>)"

definition of_phone_image :: "bytes \<Rightarrow> phone_book" where
  "of_phone_image b = \<lparr>CALL_TYPE = b ! 0, NumLen = b ! 1, UserLen = b ! 2, phone_Effective_Flag = b ! 3,
     NumberStr = take 20 (drop 4 b), UserStr = take 10 (drop 24 b)\<rparr>"

definition read_phone :: "nat \<Rightarrow> station \<Rightarrow> phone_book" where
  "read_phone i z =
     (case snd (Api_RecordNum_Read phonebook i 34 (st (device_of z))) of Some b \<Rightarrow> of_phone_image b | None \<Rightarrow> PhoneBook z)"

text \<open>The comparison \<^verbatim>\<open>strncmp(a, b, n) == 0\<close>.\<close>

definition strneq :: "bytes \<Rightarrow> bytes \<Rightarrow> nat \<Rightarrow> bool" where
  "strneq a b n = (take n (cstr a @ [0]) = take n (cstr b @ [0]))"

text \<open>
  Changing an entry replaces the first one with the same name; adding one reads the record
  of the given number instead of writing it.
\<close>

fun replace_phone :: "nat list \<Rightarrow> station \<Rightarrow> station" where
  "replace_phone [] z = z"
| "replace_phone (i # is) z =
     (let z = z\<lparr>PhoneBook := read_phone (i + 1) z\<rparr>;
          p = Rx_PhoneBOOK z
      in if strneq (UserStr (PhoneBook z)) (UserStr p) (unat (UserLen p))
         then write_record phonebook (i + 1) (phone_image p) z else replace_phone is z)"

definition TCP_RX_8401 :: "bytes \<Rightarrow> station \<Rightarrow> station" where
  "TCP_RX_8401 rx z =
     acknowledge
      (if rx ! 13 = 1 \<or> rx ! 13 = 3 then replace_phone [0..<8] (z\<lparr>Rx_PhoneBOOK := rx_phone rx (Rx_PhoneBOOK z)\<rparr>)
       else if rx ! 13 = 2
       then let z = z\<lparr>Rx_PhoneBOOK := (rx_phone rx (Rx_PhoneBOOK z))\<lparr>phone_Effective_Flag := 1\<rparr>\<rparr>
            in z\<lparr>Rx_PhoneBOOK := read_phone (unat (rx ! 14)) z\<rparr>
       else z)"

section \<open>Texts\<close>

text \<open>The tables of full width characters; one entry of the second is written \<^verbatim>\<open>0xCC0\<close>, the byte \<open>0xC0\<close>.\<close>

definition arr_A3B0 :: bytes where "arr_A3B0 = concat (map (\<lambda>k. [0xA3, 0xB0 + of_nat k]) [0..<10])"
definition arr_A3C0 :: bytes where "arr_A3C0 = (concat (map (\<lambda>k. [0xA3, 0xC0 + of_nat k]) [0..<16]))[25 := 0xC0]"
definition arr_A3D0 :: bytes where "arr_A3D0 = concat (map (\<lambda>k. [0xA3, 0xD0 + of_nat k]) [0..<11])"
definition arr_A3E0 :: bytes where "arr_A3E0 = concat (map (\<lambda>k. [0xA3, 0xE0 + of_nat k]) [0..<16])"
definition arr_A3F0 :: bytes where "arr_A3F0 = concat (map (\<lambda>k. [0xA3, 0xF0 + of_nat k]) [0..<11])"

definition gb_char :: "u8 \<Rightarrow> bytes" where
  "gb_char m =
     (let c = unat m
      in if 0x30 \<le> c \<and> c \<le> 0x39 then take 2 (drop ((c - 0x30) * 2) arr_A3B0)
         else if 0x41 \<le> c \<and> c \<le> 0x4f then take 2 (drop ((c - 0x41 + 1) * 2) arr_A3C0)
         else if 0x50 \<le> c \<and> c \<le> 0x5a then take 2 (drop ((c - 0x50) * 2) arr_A3D0)
         else if 0x61 \<le> c \<and> c \<le> 0x6f then take 2 (drop ((c - 0x61 + 1) * 2) arr_A3E0)
         else if 0x70 \<le> c \<and> c \<le> 0x7a then take 2 (drop ((c - 0x70) * 2) arr_A3F0)
         else [m])"

text \<open>\<^verbatim>\<open>AsciiToGb\<close>: the converted text; its length is the result of the function. The length argument is a \<^verbatim>\<open>u8\<close>.\<close>

definition AsciiToGb :: "nat \<Rightarrow> bytes \<Rightarrow> bytes" where
  "AsciiToGb InstrLen scr = concat (map gb_char (take (u8n InstrLen) scr))"

definition hex_digit :: "nat \<Rightarrow> u8" where
  "hex_digit n = (if n \<ge> 10 then byte (65 + n - 10) else byte (48 + n))"

definition GSM_HextoAscii_Convert :: "bytes \<Rightarrow> bytes" where
  "GSM_HextoAscii_Convert h = concat (map (\<lambda>b. [hex_digit (unat b div 16), hex_digit (unat b mod 16)]) h)"

definition TTS_Get_Data :: "bytes \<Rightarrow> tts_state \<Rightarrow> nat \<times> tts_state" where
  "TTS_Get_Data i t =
     (if Playing t \<noteq> 0
      then (1, t\<lparr>HEX_BUF := splice 0 i (splice 0 (replicate 4 0) (HEX_BUF t)), HEX_len := length i, tts_Save := 1\<rparr>)
      else (0, t\<lparr>ASCII_BUF := splice 0 (GSM_HextoAscii_Convert i @ [0]) (splice 0 (replicate 4 0) (ASCII_BUF t)),
             ASCII_Len := u16 (2 * length i), TimeOut_limt := length i div 3 + 3, TimeCounter := 0, NeedtoPlay := 1\<rparr>))"

definition TEXTMSG_Write :: "nat \<Rightarrow> u8 \<Rightarrow> nat \<Rightarrow> bytes \<Rightarrow> station \<Rightarrow> station" where
  "TEXTMSG_Write num new_state len str z =
     (let b = [new_state, byte num, byte len] @ cleared 150 (take (u8n len) str)
      in write_record text_msg (if num mod 8 \<noteq> 0 then num mod 8 else 8) b z)"

definition TCP_RX_8300 :: "bytes \<Rightarrow> nat \<Rightarrow> station \<Rightarrow> station" where
  "TCP_RX_8300 rx infolen z =
     (let c = take (infolen - 1) (drop 14 rx);
          z = z\<lparr>TextInfo := (TextInfo z)\<lparr>TEXT_FLAG := rx ! 13\<rparr>\<rparr>;
          z = (if rx ! 13 AND 0x09 \<noteq> 0
               then z\<lparr>voice_CMD_Type := 0x32, Play_info := cleared 100 c, info_sdFlag := 1,
                      TTS_Var := snd (TTS_Get_Data c (TTS_Var z))\<rparr> else z);
          z = (if rx ! 13 AND 0x04 \<noteq> 0 \<or> rx ! 13 AND 0x01 \<noteq> 0
               then let z = z\<lparr>TextInfo := (TextInfo z)\<lparr>TEXT_Content := cleared 100 c, TEXT_SD_FLAG := 1,
                              TextInforCounter := u8n (TextInforCounter (TextInfo z) + 1)\<rparr>\<rparr>
                    in TEXTMSG_Write (TextInforCounter (TextInfo z)) 1 (infolen - 1) (TEXT_Content (TextInfo z)) z
               else z);
          t = AsciiToGb (infolen - 1) (drop 14 rx)
      in acknowledge (z\<lparr>DwinLCD := (DwinLCD z)\<lparr>lcd_Type := 3, TXT_content := cleared 256 t, TXT_contentLen := length t\<rparr>\<rparr>))"

section \<open>Stored records\<close>

text \<open>A record that was written is read back, and records on other pages keep their contents.\<close>

lemma write_record_read:
  assumes "RecordNum_Page name = Some pg" and "n < 256" and "length b = len" and "len \<le> 150"
  shows "snd (Api_RecordNum_Read name n len (st (device_of (write_record name n b z)))) = Some b"
proof -
  have "pg + n < 8192" using assms(2) RecordNum_Page_bound [OF assms(1)] by simp
  then show ?thesis
    using assms
    by (simp add: write_record_def on_core_def on_store_def on_device_def on_veh_def on_dev_def
        Api_RecordNum_Write_def Api_RecordNum_Read_def u8n_small DF_WriteFlash_read)
qed

lemma write_record_other:
  assumes "RecordNum_Page name = Some pg" and "n < 256" and "length b \<le> 150"
    and "RecordNum_Page kind = Some pg'" and "n' < 256" and "len \<le> 150" and "pg' + n' \<noteq> pg + n"
  shows "snd (Api_RecordNum_Read kind n' len (st (device_of (write_record name n b z)))) =
    snd (Api_RecordNum_Read kind n' len (st (device_of z)))"
proof -
  have "pg + n < 8192" "pg' + n' < 8192"
    using assms(2,5) RecordNum_Page_bound [OF assms(1)] RecordNum_Page_bound [OF assms(4)] by simp_all
  then show ?thesis
    using assms
    by (simp add: write_record_def on_core_def on_store_def on_device_def on_veh_def on_dev_def
        Api_RecordNum_Write_def Api_RecordNum_Read_def u8n_small DF_WriteFlash_read_other)
qed

lemma acknowledge_store [simp]: "st (device_of (acknowledge z)) = st (device_of z)"
  by (simp add: acknowledge_def on_core_def on_ans_def on_device_def on_veh_def on_dev_def)

lemma write_record_fields [simp]:
  "Rail_Rectangle (write_record name n b z) = Rail_Rectangle z"
  "Rail_Cycle (write_record name n b z) = Rail_Cycle z"
  "ans (device_of (write_record name n b z)) = ans (device_of z)"
  "gps (device_of (write_record name n b z)) = gps (device_of z)"
  "terminal (device_of (write_record name n b z)) = terminal (device_of z)"
  by (simp_all add: write_record_def on_core_def on_store_def on_device_def on_veh_def on_dev_def)

lemma area_id_range: "1 \<le> area_id k n" "1 \<le> k \<Longrightarrow> area_id k n \<le> k"
  by (simp_all add: area_id_def)

text \<open>A station with cleared structures.\<close>

definition first_station :: "app \<Rightarrow> station" where
  "first_station a = \<lparr>core = a,
     EventObj = \<lparr>Event_Len = 0, Event_Effective = 0, Event_Str = replicate 20 0\<rparr>,
     MSG_BroadCast_Obj = \<lparr>INFO_LEN = 0, INFO_SDFlag = 0, INFO_Effective = 0, INFO_STR = replicate 30 0\<rparr>,
     Rx_PhoneBOOK = of_phone_image (replicate 34 0), PhoneBook = of_phone_image (replicate 34 0),
     Rail_Cycle = zero_circle, Rail_Rectangle = zero_rect, Rail_Polygen = zero_polygen, ROUTE_Obj = zero_route,
     ASK_Centre = \<lparr>ASK_infolen = 0, ASK_info = replicate 30 0, ASK_answer = replicate 30 0, ASK_disp_Enable = 0\<rparr>,
     TextInfo = \<lparr>TEXT_FLAG = 0, TEXT_SD_FLAG = 0, TEXT_Content = replicate 100 0, TextInforCounter = 0\<rparr>,
     TTS_Var = \<lparr>HEX_BUF = [], HEX_len = 0, tts_Save = 0, ASCII_BUF = [], ASCII_Len = 0, NeedtoPlay = 0, Playing = 0,
       TimeOut_limt = 0, TimeCounter = 0\<rparr>,
     DwinLCD = \<lparr>lcd_Type = 0, TXT_content = replicate 256 0, TXT_contentLen = 0\<rparr>,
     voice_CMD_Type = 0, Play_info = replicate 100 0, info_sdFlag = 0, speaker_on = False\<rparr>"

definition new_station :: station where
  "new_station = first_station (first_app first_vehicle)"

lemmas new_station_defs = new_station_def first_station_def first_app_def first_vehicle_def idle_vehicle_def idle_device_def

section \<open>The text of a message\<close>

text \<open>
  The full width characters of GB 2312 have the first byte A3H and the ASCII code with the highest bit set.
\<close>

definition full_width :: "u8 \<Rightarrow> bytes" where
  "full_width m = [0xA3, m OR 0x80]"

definition alnum :: "u8 \<Rightarrow> bool" where
  "alnum m = (0x30 \<le> m \<and> m \<le> 0x39 \<or> 0x41 \<le> m \<and> m \<le> 0x5A \<or> 0x61 \<le> m \<and> m \<le> 0x7A)"

lemma gb_char_all:
  "list_all (\<lambda>n. gb_char (of_nat n) =
     (if n = 0x4C then full_width 0x40 else if alnum (of_nat n) then full_width (of_nat n) else [of_nat n])) [0..<256]"
  by code_simp

lemma gb_char_eq: "gb_char m = (if m = 0x4C then full_width 0x40 else if alnum m then full_width m else [m])"
proof -
  have "unat m < 256" by (rule unat_u8_less)
  then have "gb_char (of_nat (unat m)) = (if unat m = 0x4C then full_width 0x40
     else if alnum (of_nat (unat m)) then full_width (of_nat (unat m)) else [of_nat (unat m)])"
    using gb_char_all unfolding list_all_iff set_upt by fastforce
  moreover have "(unat m = 0x4C) = (m = 0x4C)" by (simp add: word_unat_eq_iff)
  ultimately show ?thesis by simp
qed

text \<open>
  The text of command 8300H on the display: letters and digits become their full width characters, every other
  byte stays, except that a capital L is shown as an at sign; for texts of at most 255 bytes.
\<close>

theorem text_shown_full_width:
  assumes "drop 14 rx = c @ rest" and "length c \<le> 255" and "infolen = length c + 1"
  shows "take (TXT_contentLen (DwinLCD (TCP_RX_8300 rx infolen z))) (TXT_content (DwinLCD (TCP_RX_8300 rx infolen z))) =
    concat (map (\<lambda>m. if m = 0x4C then full_width 0x40 else if alnum m then full_width m else [m]) c)"
  using assms
  by (simp add: TCP_RX_8300_def Let_def acknowledge_def on_core_def cleared_def AsciiToGb_def u8n_small gb_char_eq [abs_def])

theorem text_shown_full_width_witness:
  "take (TXT_contentLen (DwinLCD (TCP_RX_8300 (replicate 13 0 @ [1, 0x41, 0x4C, 0x21]) 4 new_station)))
     (TXT_content (DwinLCD (TCP_RX_8300 (replicate 13 0 @ [1, 0x41, 0x4C, 0x21]) 4 new_station))) =
   [0xA3, 0xC1, 0xA3, 0xC0, 0x21]"
  using text_shown_full_width [of "replicate 13 0 @ [1, 0x41, 0x4C, 0x21]" "[0x41, 0x4C, 0x21]" "[]" 4 new_station]
  by (simp add: full_width_def alnum_def)

end
