(* ===== verification/Fences808.thy ===== *)
theory Fences808
  imports Records808
begin

text \<open>
  Electronic fences (\<^verbatim>\<open>protocol_808/protocol_808.c\<close>, \<^verbatim>\<open>CurrentTime_Judge\<close>, \<^verbatim>\<open>CycleRail_Judge\<close> and
  \<^verbatim>\<open>RectangleRail_Judge\<close>): the stored areas are read back and compared with the position. The main results follow a
  rectangle from the command of the centre over the flash to the alarm item of the position report. The judgement of
  routes, which computes distances in floating point, is not modelled.
\<close>

section \<open>Electronic fences\<close>

text \<open>The structure with a given memory image.\<close>

definition of_le16 :: "bytes \<Rightarrow> nat" where
  "of_le16 b = unat (b ! 0) + unat (b ! 1) * 256"

definition of_rect_image :: "bytes \<Rightarrow> rect_rail" where
  "of_rect_image b = \<lparr>rect_Area_ID = of_le32 (take 4 b), rect_attribute = of_le16 (drop 4 b),
     LeftUp_Latitude = of_le32 (take 4 (drop 8 b)), LeftUp_Longitude = of_le32 (take 4 (drop 12 b)),
     RightDown_Latitude = of_le32 (take 4 (drop 16 b)), RightDown_Longitude = of_le32 (take 4 (drop 20 b)),
     rect_MaxSpd = of_le16 (drop 24 b), rect_KeepDur = b ! 26, rect_Rail_Num = b ! 27, rect_Effective_flag = b ! 28,
     rect_StartTimeBCD = take 6 (drop 29 b), rect_EndTimeBCD = take 6 (drop 35 b)\<rparr>"

definition of_circle_image :: "bytes \<Rightarrow> circle_rail" where
  "of_circle_image b = \<lparr>circle_Area_ID = of_le32 (take 4 b), circle_attribute = of_le16 (drop 4 b),
     Center_Latitude = of_le32 (take 4 (drop 8 b)), Center_Longitude = of_le32 (take 4 (drop 12 b)),
     Radius = of_le32 (take 4 (drop 16 b)), circle_MaxSpd = of_le16 (drop 20 b), circle_KeepDur = b ! 22,
     circle_Rail_Num = b ! 23, circle_Effective_flag = b ! 24,
     circle_StartTimeBCD = take 6 (drop 25 b), circle_EndTimeBCD = take 6 (drop 31 b)\<rparr>"

definition read_rect :: "nat \<Rightarrow> station \<Rightarrow> rect_rail" where
  "read_rect n z =
     (case snd (Api_RecordNum_Read Rail_rect n 44 (st (device_of z))) of Some b \<Rightarrow> of_rect_image b | None \<Rightarrow> Rail_Rectangle z)"

definition read_circle :: "nat \<Rightarrow> station \<Rightarrow> circle_rail" where
  "read_circle n z =
     (case snd (Api_RecordNum_Read Rail_cycle n 40 (st (device_of z))) of Some b \<Rightarrow> of_circle_image b | None \<Rightarrow> zero_circle)"

text \<open>The report of a crossing: the alarm bit and \<^verbatim>\<open>InOut_Object\<close>. The number is the index of the record, from 0.\<close>

definition crossing :: "u8 \<Rightarrow> nat \<Rightarrow> u8 \<Rightarrow> station \<Rightarrow> station" where
  "crossing kind i inout =
     on_core (\<lambda>a. on_term (\<lambda>t. t\<lparr>InOut_TYPE := kind, InOut_ID := i, InOutState := inout\<rparr>)
       (on_warn (\<lambda>w. w[1 := w ! 1 OR 0x10]) a))"

definition inside_rect :: "rect_rail \<Rightarrow> nat \<Rightarrow> nat \<Rightarrow> bool" where
  "inside_rect c lat lon =
     (lat > RightDown_Latitude c \<and> lat < LeftUp_Latitude c \<and> lon > LeftUp_Longitude c \<and> lon < RightDown_Longitude c)"

fun rect_judge :: "nat \<Rightarrow> nat \<Rightarrow> nat list \<Rightarrow> station \<Rightarrow> station" where
  "rect_judge lat lon [] z = z"
| "rect_judge lat lon (i # is) z =
     (let z = z\<lparr>Rail_Rectangle := read_rect (i + 1) z\<rparr>;
          c = Rail_Rectangle z
      in if rect_Effective_flag c \<noteq> 1 then rect_judge lat lon is z
         else if bit (rect_attribute c) 3 \<and> inside_rect c lat lon then crossing 2 i 0 z
         else if bit (rect_attribute c) 5 \<and> \<not> inside_rect c lat lon then crossing 2 i 1 z
         else rect_judge lat lon is z)"

definition RectangleRail_Judge :: "bytes \<Rightarrow> bytes \<Rightarrow> station \<Rightarrow> station" where
  "RectangleRail_Judge LatiStr LongiStr = rect_judge (of_be32 LatiStr) (of_be32 LongiStr) [0..<8]"

text \<open>
  Times of day are compared by 60 times the hour plus 60 times the minute plus the second. Only when the day is not
  strictly between the two days.
\<close>

definition bcd :: "u8 \<Rightarrow> nat" where
  "bcd b = (unat b div 16) * 10 + unat b mod 16"

definition days_of :: "bytes \<Rightarrow> nat" where
  "days_of t = bcd (t ! 0) * 365 + bcd (t ! 1) * 30 + bcd (t ! 2)"

definition seconds_of :: "bytes \<Rightarrow> nat" where
  "seconds_of t = bcd (t ! 3) * 60 + bcd (t ! 4) * 60 + bcd (t ! 5)"

definition CurrentTime_Judge :: "bytes \<Rightarrow> bytes \<Rightarrow> vehicle \<Rightarrow> bool" where
  "CurrentTime_Judge startTime endTime v =
     (let day = time_year v * 365 + time_month v * 30 + time_day v;
          sec = time_hour (dev v) * 60 + time_min (dev v) * 60 + time_sec (dev v)
      in days_of startTime < day \<and> day < days_of endTime \<or> seconds_of startTime \<le> sec \<and> sec \<le> seconds_of endTime)"

text \<open>
  The distances of \<^verbatim>\<open>CycleRail_Judge\<close> in metres: \<^verbatim>\<open>abs\<close> takes the difference of two \<^verbatim>\<open>u32\<close> as a
  signed number, the product and the quotient are signed with 32 bits, and the results are \<^verbatim>\<open>u32\<close>
  again. The square root of a \<^verbatim>\<open>u32\<close> in double precision, rounded down, is the integer square root.
\<close>

definition s32 :: "int \<Rightarrow> int" where
  "s32 n = (n + 2147483648) mod 4294967296 - 2147483648"

definition cdiv :: "int \<Rightarrow> int \<Rightarrow> int" where
  "cdiv a b = (if a < 0 then - ((- a) div b) else a div b)"

definition abs_diff :: "nat \<Rightarrow> nat \<Rightarrow> int" where
  "abs_diff a b = s32 \<bar>s32 (int a - int b)\<bar>"

definition DeltaLatiDis :: "nat \<Rightarrow> nat \<Rightarrow> nat" where
  "DeltaLatiDis a b = nat (cdiv (abs_diff a b) 9 mod 4294967296)"

definition DeltaLongiDis :: "nat \<Rightarrow> nat \<Rightarrow> nat" where
  "DeltaLongiDis a b = nat (cdiv (s32 (abs_diff a b * 853)) 10000 mod 4294967296)"

fun isqrt :: "nat \<Rightarrow> nat" where
  "isqrt n = (if n = 0 then 0 else let r = 2 * isqrt (n div 4) in if (r + 1) * (r + 1) \<le> n then r + 1 else r)"

declare isqrt.simps [simp del]

lemma isqrt_bounds: "isqrt n * isqrt n \<le> n \<and> n < (isqrt n + 1) * (isqrt n + 1)"
proof (induction n rule: isqrt.induct)
  case (1 n)
  show ?case
  proof (cases "n = 0")
    case True
    then show ?thesis by (simp add: isqrt.simps)
  next
    case False
    define q where "q = isqrt (n div 4)"
    have "q * q \<le> n div 4" "n div 4 < (q + 1) * (q + 1)"
      using 1 False by (simp_all add: q_def)
    then have "4 * (q * q) \<le> n" "n < 4 * ((q + 1) * (q + 1))" by linarith+
    moreover have "isqrt n = (if (2 * q + 1) * (2 * q + 1) \<le> n then 2 * q + 1 else 2 * q)"
      using False by (subst isqrt.simps) (simp add: q_def Let_def)
    ultimately show ?thesis by (auto simp: algebra_simps)
  qed
qed

definition StatusReg_SPD_WARN :: "device \<Rightarrow> device" where
  "StatusReg_SPD_WARN d =
     d\<lparr>gps := (gps d)\<lparr>Warn_Status := (Warn_Status (gps d))[3 := Warn_Status (gps d) ! 3 OR 0x02]\<rparr>\<rparr>"

fun circle_judge :: "nat \<Rightarrow> nat \<Rightarrow> nat list \<Rightarrow> station \<Rightarrow> station" where
  "circle_judge lat lon [] z = z"
| "circle_judge lat lon (i # is) z =
     (let z = z\<lparr>Rail_Cycle := read_circle (i + 1) z\<rparr>;
          c = Rail_Cycle z;
          dlat = DeltaLatiDis lat (Center_Latitude c);
          dlon = DeltaLongiDis lon (Center_Longitude c);
          dist = isqrt (u32 (dlat * dlat + dlon * dlon));
          out = (dlat > Radius c \<or> dlon > Radius c);
          slow = (\<lambda>z. circle_MaxSpd c > Speed_gps (gps (device_of z)) div 10)
      in if circle_Effective_flag c \<noteq> 1 then circle_judge lat lon is z
         else if bit (circle_attribute c) 0 \<and>
                 \<not> CurrentTime_Judge (circle_StartTimeBCD c) (circle_EndTimeBCD c) (veh (core z)) then z
         else let z = (if bit (circle_attribute c) 1
                       then on_core (on_device (if GPS_speed (gps (device_of z)) > circle_MaxSpd c
                              then StatusReg_SPD_WARN else StatusReg_SPD_NORMAL)) z
                       else z)
              in if bit (circle_attribute c) 3 \<and> \<not> out \<and> dist < Radius c \<and> slow z then crossing 1 i 0 z
                 else if bit (circle_attribute c) 5 \<and> slow z \<and> (out \<or> dist > Radius c) then crossing 1 i 1 z
                 else circle_judge lat lon is z)"

definition CycleRail_Judge :: "bytes \<Rightarrow> bytes \<Rightarrow> station \<Rightarrow> station" where
  "CycleRail_Judge LatiStr LongiStr = circle_judge (of_be32 LatiStr) (of_be32 LongiStr) [0..<8]"

section \<open>A rectangle from the command to the alarm\<close>

definition rect_fits :: "rect_rail \<Rightarrow> bool" where
  "rect_fits c = (rect_Area_ID c < 2 ^ 32 \<and> rect_attribute c < 2 ^ 16 \<and> LeftUp_Latitude c < 2 ^ 32 \<and>
     LeftUp_Longitude c < 2 ^ 32 \<and> RightDown_Latitude c < 2 ^ 32 \<and> RightDown_Longitude c < 2 ^ 32 \<and>
     rect_MaxSpd c < 2 ^ 16 \<and> length (rect_StartTimeBCD c) = 6 \<and> length (rect_EndTimeBCD c) = 6)"

lemma length_rect_image: "rect_fits c \<Longrightarrow> length (rect_image c) = 44"
  by (simp add: rect_image_def rect_fits_def le32_def le16_def)

lemma of_le16_le16: "n < 65536 \<Longrightarrow> of_le16 (byte n # byte (n div 256) # xs) = n"
  by (simp add: of_le16_def unat_byte)

lemma of_rect_image_rect_image:
  assumes "rect_fits c"
  shows "of_rect_image (rect_image c) = c"
proof -
  obtain t1 t2 where t: "rect_StartTimeBCD c = t1" "rect_EndTimeBCD c = t2" "length t1 = 6" "length t2 = 6"
    using assms by (simp add: rect_fits_def)
  show ?thesis
    using assms t
    by (cases c) (simp add: rect_fits_def of_rect_image_def rect_image_def le16_def of_le32_le32 u32_small of_le16_le16 nth_append)
qed

definition rect_of :: "bytes \<Rightarrow> rect_rail" where
  "rect_of rx = \<lparr>rect_Area_ID = area_id 8 (dword rx 15), rect_attribute = hword rx 19,
     LeftUp_Latitude = dword rx 21, LeftUp_Longitude = dword rx 25, RightDown_Latitude = dword rx 29,
     RightDown_Longitude = dword rx 33, rect_MaxSpd = hword rx 49, rect_KeepDur = rx ! 51, rect_Rail_Num = 0,
     rect_Effective_flag = 1, rect_StartTimeBCD = six rx 37, rect_EndTimeBCD = six rx 43\<rparr>"

lemma of_be32_less: "of_be32 b < 2 ^ 32"
proof -
  have "unat (b ! 0) < 256" "unat (b ! 1) < 256" "unat (b ! 2) < 256" "unat (b ! 3) < 256"
    by (rule unat_u8_less)+
  then show ?thesis by (simp add: of_be32_def)
qed

lemma of_be16_less: "of_be16 a b < 2 ^ 16"
proof -
  have "unat a < 256" "unat b < 256" by (rule unat_u8_less)+
  then show ?thesis by (simp add: of_be16_def)
qed

lemma rect_of_fits: "52 \<le> length rx \<Longrightarrow> rect_fits (rect_of rx)"
  using of_be32_less of_be16_less
  by (simp add: rect_fits_def rect_of_def area_id_def)

lemma TCP_RX_8602_eq:
  "rx ! 14 = 1 \<Longrightarrow> unat (rx ! 13) \<le> 2 \<Longrightarrow> TCP_RX_8602 rx z = acknowledge (save_rect (z\<lparr>Rail_Rectangle := rect_of rx\<rparr>))"
  by (simp add: TCP_RX_8602_def rect_of_def)

lemma read_rect_cong:
  "snd (Api_RecordNum_Read Rail_rect n 44 (st (device_of z'))) = snd (Api_RecordNum_Read Rail_rect n 44 (st (device_of z))) \<Longrightarrow>
   read_rect n z' = read_rect n z"
  by (simp add: read_rect_def Api_RecordNum_Read_def RecordNum_Page_def)

lemma read_rect_acknowledge [simp]: "read_rect n (acknowledge z) = read_rect n z"
  by (rule read_rect_cong) simp

lemma read_rect_saved:
  assumes "rect_fits c" and "rect_Area_ID c < 256"
  shows "read_rect (rect_Area_ID c) (save_rect (z\<lparr>Rail_Rectangle := c\<rparr>)) = c"
  using assms
  by (simp add: read_rect_def save_rect_def write_record_read RecordNum_Page_def length_rect_image of_rect_image_rect_image)

text \<open>The judgement takes the first area in force whose condition holds.\<close>

definition triggers :: "rect_rail \<Rightarrow> nat \<Rightarrow> nat \<Rightarrow> bool" where
  "triggers c lat lon = (rect_Effective_flag c = 1 \<and>
     (bit (rect_attribute c) 3 \<and> inside_rect c lat lon \<or> bit (rect_attribute c) 5 \<and> \<not> inside_rect c lat lon))"

lemma read_rect_cached [simp]: "read_rect n (z\<lparr>Rail_Rectangle := r\<rparr>) = read_rect n z"
  by (simp add: read_rect_def Api_RecordNum_Read_def RecordNum_Page_def)

lemma rect_judge_find:
  "\<exists>r. rect_judge lat lon is z =
     (case find (\<lambda>i. triggers (read_rect (i + 1) z) lat lon) is of
        None \<Rightarrow> z\<lparr>Rail_Rectangle := r\<rparr>
      | Some i \<Rightarrow> crossing 2 i (if inside_rect (read_rect (i + 1) z) lat lon then 0 else 1) (z\<lparr>Rail_Rectangle := r\<rparr>))"
proof (induction "is" arbitrary: z)
  case Nil
  show ?case by (rule exI [of _ "Rail_Rectangle z"]) simp
next
  case (Cons i js)
  show ?case
    using Cons.IH [of "z\<lparr>Rail_Rectangle := read_rect (i + 1) z\<rparr>"]
    by (auto simp: Let_def triggers_def split: option.split)
qed

lemma crossing_view:
  assumes "length (Warn_Status (gps (device_of z))) = 4"
  shows "bit (Warn_Status (gps (device_of (crossing k i s z))) ! 1) 4"
    and "item_inout (device_of (crossing k i s z)) = [0x12, 6, k] @ be32 i @ [s]"
  using assms
  by (auto simp: crossing_def on_core_def on_term_def on_warn_def on_device_def on_veh_def on_dev_def item_inout_def bit_simps)

lemma find_first: "n < m \<Longrightarrow> P n \<Longrightarrow> (\<And>k. k < n \<Longrightarrow> \<not> P k) \<Longrightarrow> find P [0..<m] = Some n"
  by (auto simp: find_Some_iff intro!: exI [of _ n])

lemma read_rect_other:
  assumes "rect_fits c" and "1 \<le> rect_Area_ID c" and "rect_Area_ID c \<le> 8" and "1 \<le> k" and "k \<le> 8" and "k \<noteq> rect_Area_ID c"
  shows "read_rect k (save_rect (z\<lparr>Rail_Rectangle := c\<rparr>)) = read_rect k z"
  using assms
  by (intro read_rect_cong) (simp add: save_rect_def write_record_other RecordNum_Page_def length_rect_image)

text \<open>
  (C16) A rectangle that the centre sets with an alarm on entering: once the vehicle is inside, the next judgement
  raises the alarm, and the position report carries the item of a rectangle (type 2, direction 0), provided
  no area with a smaller number triggers. The number in the report is one less than the number the centre gave.
\<close>

theorem rectangle_alarm_reported:
  assumes "52 \<le> length rx" and "rx ! 14 = 1" and "unat (rx ! 13) \<le> 2"
    and "dword rx 15 = n" and "1 \<le> n" and "n \<le> 8" and "bit (hword rx 19) 3"
    and "dword rx 29 < of_be32 lat" and "of_be32 lat < dword rx 21"
    and "dword rx 25 < of_be32 lon" and "of_be32 lon < dword rx 33"
    and "\<And>k. 1 \<le> k \<Longrightarrow> k < n \<Longrightarrow> \<not> triggers (read_rect k z) (of_be32 lat) (of_be32 lon)"
    and "length (Warn_Status (gps (device_of z))) = 4"
  shows "bit (Warn_Status (gps (device_of (RectangleRail_Judge lat lon (TCP_RX_8602 rx z)))) ! 1) 4 \<and>
    item_inout (device_of (RectangleRail_Judge lat lon (TCP_RX_8602 rx z))) = [0x12, 6, 2] @ be32 (n - 1) @ [0]"
proof -
  define z' where "z' = TCP_RX_8602 rx z"
  have z': "z' = acknowledge (save_rect (z\<lparr>Rail_Rectangle := rect_of rx\<rparr>))"
    unfolding z'_def using assms(2,3) by (rule TCP_RX_8602_eq)
  have fits: "rect_fits (rect_of rx)" using assms(1) by (rule rect_of_fits)
  have id: "rect_Area_ID (rect_of rx) = n" using assms(4-6) by (simp add: rect_of_def area_id_def)
  have new: "read_rect n z' = rect_of rx"
    using read_rect_saved [OF fits, of z] assms(6) by (simp add: z' id)
  have old: "read_rect k z' = read_rect k z" if "1 \<le> k" "k < n" for k
    using read_rect_other [OF fits, of k z] that assms(5,6) by (simp add: z' id)
  have inside: "inside_rect (rect_of rx) (of_be32 lat) (of_be32 lon)"
    using assms(8-11) by (simp add: inside_rect_def rect_of_def)
  have hit: "triggers (rect_of rx) (of_be32 lat) (of_be32 lon)"
    using inside assms(7) by (simp add: triggers_def rect_of_def)
  have "find (\<lambda>i. triggers (read_rect (i + 1) z') (of_be32 lat) (of_be32 lon)) [0..<8] = Some (n - 1)"
    using assms(5,6,12) hit by (intro find_first) (simp_all add: new old)
  then obtain r where r: "RectangleRail_Judge lat lon z' = crossing 2 (n - 1) 0 (z'\<lparr>Rail_Rectangle := r\<rparr>)"
    using rect_judge_find [of "of_be32 lat" "of_be32 lon" "[0..<8]" z'] assms(5) inside
    by (auto simp: RectangleRail_Judge_def new)
  have "length (Warn_Status (gps (device_of (z'\<lparr>Rail_Rectangle := r\<rparr>)))) = 4"
    using assms(13)
    by (simp add: z' save_rect_def acknowledge_def on_core_def on_ans_def on_device_def on_veh_def on_dev_def
        write_record_def on_store_def)
  from crossing_view [OF this] show ?thesis by (simp add: r flip: z'_def)
qed

lemma blank_read_rect: "rect_Effective_flag (read_rect k new_station) = 0xFF"
  by (simp add: read_rect_def Api_RecordNum_Read_def RecordNum_Page_def of_rect_image_def new_station_defs
      DF_ReadFlash_def nor_read_def read_all_def u16_def)

definition rect_frame :: bytes where
  "rect_frame = replicate 13 0 @ [0, 1, 0, 0, 0, 2, 0, 8] @
     be32 40000000 @ be32 116000000 @ be32 39000000 @ be32 117000000 @ replicate 12 0 @ [0, 60, 10]"

theorem rectangle_alarm_reported_witness:
  "item_inout (device_of (RectangleRail_Judge (be32 39500000) (be32 116500000) (TCP_RX_8602 rect_frame new_station))) =
     [0x12, 6, 2, 0, 0, 0, 1, 0]"
proof -
  have "length (Warn_Status (gps (device_of new_station))) = 4" by (simp add: new_station_defs)
  moreover have "\<not> triggers (read_rect k new_station) lat lon" for k lat lon by (simp add: triggers_def blank_read_rect)
  moreover have "of_be32 (be32 39500000) = 39500000" "of_be32 (be32 116500000) = 116500000" by (simp_all add: be32_def of_be32_def)
  moreover have "52 \<le> length rect_frame" "rect_frame ! 14 = 1" "unat (rect_frame ! 13) \<le> 2" "bit (hword rect_frame 19) 3"
    "dword rect_frame 15 = 2" "dword rect_frame 21 = 40000000" "dword rect_frame 25 = 116000000"
    "dword rect_frame 29 = 39000000" "dword rect_frame 33 = 117000000"
    by (simp_all add: rect_frame_def be32_def of_be32_def of_be16_def nth_append bit_numeral_rec bit_0)
  ultimately show ?thesis
    using rectangle_alarm_reported [of rect_frame 2 "be32 39500000" "be32 116500000" new_station] by (simp add: be32_def)
qed

text \<open>
  Deleting two rectangles by number: the numbers are read one byte apart, so that the first one is deleted, then
  rectangle 1, which was not named, and the second one stays in force.
\<close>

theorem rectangle_delete_shifted:
  assumes "rx ! 13 = 2" and "drop 14 rx = be32 a @ be32 b @ rest"
    and "2 \<le> a" and "a \<le> 8" and "2 \<le> b" and "b \<le> 8" and "a \<noteq> b"
  shows "rect_Effective_flag (read_rect a (TCP_RX_8603 rx z)) = 0 \<and> rect_Effective_flag (read_rect 1 (TCP_RX_8603 rx z)) = 0 \<and>
    read_rect b (TCP_RX_8603 rx z) = read_rect b z"
proof -
  define c where "c = (\<lambda>n. zero_rect\<lparr>rect_Area_ID := n, rect_Effective_flag := 0\<rparr>)"
  have ids: "area_id 8 (dword rx 14) = a" "area_id 8 (dword rx 15) = 1"
proof -
    have "drop 15 rx = drop 1 (be32 a @ be32 b @ rest)" unfolding assms(2) [symmetric] by simp
    then show "area_id 8 (dword rx 14) = a" "area_id 8 (dword rx 15) = 1"
      using assms(2-6) by (simp_all add: area_id_def of_be32_def be32_def unat_byte)
  qed
  have fits: "rect_fits (c n)" if "n \<le> 8" for n
    using that by (simp add: c_def zero_rect_def rect_fits_def)
  have "TCP_RX_8603 rx z = acknowledge (save_rect ((save_rect (z\<lparr>Rail_Rectangle := c a\<rparr>))\<lparr>Rail_Rectangle := c 1\<rparr>))"
    using assms(1) ids
    by (simp add: TCP_RX_8603_def c_def zero_rect_def upt_rec save_rect_def)
  moreover have "rect_Area_ID (c n) = n" "rect_Effective_flag (c n) = 0" for n by (simp_all add: c_def)
  ultimately show ?thesis
    using assms(3-7) fits read_rect_saved [of "c 1"] read_rect_saved [of "c a"]
    by (simp add: read_rect_other)
qed

theorem rectangle_delete_shifted_witness:
  "rect_Effective_flag (read_rect 3 (TCP_RX_8603 (replicate 13 0 @ [2, 0, 0, 0, 3, 0, 0, 0, 4]) new_station)) = 0 \<and>
   rect_Effective_flag (read_rect 1 (TCP_RX_8603 (replicate 13 0 @ [2, 0, 0, 0, 3, 0, 0, 0, 4]) new_station)) = 0 \<and>
   rect_Effective_flag (read_rect 4 (TCP_RX_8603 (replicate 13 0 @ [2, 0, 0, 0, 3, 0, 0, 0, 4]) new_station)) = 0xFF"
  using rectangle_delete_shifted [of "replicate 13 0 @ [2, 0, 0, 0, 3, 0, 0, 0, 4]" 3 4 "[]" new_station]
  by (simp add: nth_append be32_def blank_read_rect)

end
