(* ===== verification/Command808.thy ===== *)
theory Command808
  imports Fences808
begin

text \<open>
  The commands of the centre (\<^verbatim>\<open>protocol_808/protocol_808.c\<close>, \<^verbatim>\<open>TCP_RX_Process\<close>): the dispatch over all
  messages the terminal understands, with the cases not yet modelled in the theories before. \<open>node\<close> adds
  to the station the sound recorder, the extended parameters and what is written to the receiver, the
  CAN bus and the shake sensor; the drivers behind these calls are not modelled.
\<close>

section \<open>The state\<close>

datatype peripheral =
  Gps_write bytes
| CAN_App_Init nat
| CAN2_write bytes
| Mma8451_config nat nat

record voc_rec =
  JT808_Duration :: nat
  JT808_SaveOrNot :: u8
  voc_Sate :: nat
  ExcuteFlag :: nat
  curren_PageCNT :: nat
  half_page :: nat

record bd_extend =
  BD_Mode :: nat
  BD_Baud :: nat
  BD_OutputFreq :: nat
  BD_SampleFrea :: nat
  CAN_1_Mode :: nat
  CAN_1_ID :: nat
  CAN_1_Type :: u8
  CAN_1_Duration :: nat
  CAN_2_Mode :: nat
  CAN_2_ID :: nat
  CAN_2_Type :: u8
  CAN_2_Duration :: nat
  Collision_Check :: nat

record node =
  stn :: station
  VocREC :: voc_rec
  GSM_power_over :: nat
  BD_EXT :: bd_extend
  Position_Moule_Status :: nat
  lcd_TxInfolen :: nat
  ISP_rxCMD :: u8
  ISP_running_counter :: nat
  ISP_RepeatCounter :: nat
  periphery :: "peripheral list"

text \<open>The images of the configuration and of the structure \<^verbatim>\<open>BD_EXT\<close>.\<close>

record layout =
  conf_img :: images
  bd_img :: "node \<Rightarrow> bytes"

definition on_stn :: "(station \<Rightarrow> station) \<Rightarrow> node \<Rightarrow> node" where
  "on_stn f x = x\<lparr>stn := f (stn x)\<rparr>"

definition on_app :: "(app \<Rightarrow> app) \<Rightarrow> node \<Rightarrow> node" where
  "on_app f = on_stn (on_core f)"

definition on_vehicle :: "(vehicle \<Rightarrow> vehicle) \<Rightarrow> node \<Rightarrow> node" where
  "on_vehicle f = on_app (on_veh f)"

definition on_dvc :: "(device \<Rightarrow> device) \<Rightarrow> node \<Rightarrow> node" where
  "on_dvc f = on_app (on_device f)"

definition tell :: "peripheral \<Rightarrow> node \<Rightarrow> node" where
  "tell p x = x\<lparr>periphery := periphery x @ [p]\<rparr>"

definition confirm :: "node \<Rightarrow> node" where
  "confirm = on_stn acknowledge"

abbreviation (input) app_of :: "node \<Rightarrow> app" where "app_of x \<equiv> core (stn x)"
abbreviation (input) vehicle_of :: "node \<Rightarrow> vehicle" where "vehicle_of x \<equiv> veh (app_of x)"
abbreviation (input) dvc :: "node \<Rightarrow> device" where "dvc x \<equiv> dev (vehicle_of x)"

section \<open>The general answer of the centre\<close>

abbreviation (input) Status_GPRS :: u8 where "Status_GPRS \<equiv> 0x02"

definition DataLinkOK_Process :: "app \<Rightarrow> app" where
  "DataLinkOK_Process a =
     (on_device (\<lambda>d. d\<lparr>DataLink_OK := True\<rparr>) a)\<lparr>ModuleStatus := ModuleStatus a OR Status_GPRS\<rparr>"

definition clear_inout :: "app \<Rightarrow> app" where
  "clear_inout = on_term (\<lambda>t. t\<lparr>InOut_TYPE := 0, InOut_ID := 0, InOutState := 0\<rparr>)"

abbreviation (input) warn_bits :: "nat \<Rightarrow> app \<Rightarrow> u8" where "warn_bits i a \<equiv> Warn_Status (gps (dev (veh a))) ! i"

definition clear_warn :: "nat \<Rightarrow> u8 \<Rightarrow> app \<Rightarrow> app" where
  "clear_warn i m = on_warn (\<lambda>w. w[i := w ! i AND NOT m])"

text \<open>The answer to a position report takes back the alarms it carried.\<close>

definition ack_0200 :: "bytes \<Rightarrow> app \<Rightarrow> app" where
  "ack_0200 rx a =
     (if rx ! 17 \<noteq> 0 then a
      else let a = (if warn_bits 3 a AND 0x01 \<noteq> 0
                    then (clear_warn 3 0x01 a)\<lparr>f_Exigent_warning := 0, warn_flag := 0, Send_warn_times := 0\<rparr> else a);
               a = (if warn_bits 1 a AND 0x10 \<noteq> 0 then clear_warn 1 0x10 (clear_inout a) else a);
               a = (if warn_bits 1 a AND 0x20 \<noteq> 0 then clear_warn 1 0x20 (clear_inout a) else a);
               a = (if warn_bits 0 a AND 0x20 \<noteq> 0 then clear_warn 0 0x20 a else a)
           in if warn_bits 0 a AND 0x60 \<noteq> 0 then clear_warn 0 0x60 a else a)"

definition TCP_RX_8001 :: "images \<Rightarrow> bytes \<Rightarrow> app \<Rightarrow> app" where
  "TCP_RX_8001 im rx a =
     (let Ack_CMDid_8001 = of_be16 (rx ! 15) (rx ! 16)
      in if Ack_CMDid_8001 = 0x0200 then ack_0200 rx a
         else if Ack_CMDid_8001 = 0x0002 then on_veh (\<lambda>v. v\<lparr>TCP_ACK_DurCnter := 0, TCP_SD_state := 0\<rparr>) a
         else if Ack_CMDid_8001 = 0x0101
         then if rx ! 17 = 0 then save_jt im (on_veh (\<lambda>v. v\<lparr>Regsiter_Status := 0\<rparr>) a) else a
         else if Ack_CMDid_8001 = 0x0102 \<and> rx ! 17 = 0
         then let a = on_veh (\<lambda>v. v\<lparr>Login_Sd_add := 0\<rparr>) (on_device (\<lambda>d. d\<lparr>DEV_Login_Operate_enable := 2\<rparr>) a)
              in if DataLink_OK (dev (veh a)) then DataLinkOK_Process a else a
         else a)"

section \<open>Registration\<close>

text \<open>The code of the centre is copied without a check of its length; bodies shorter than three bytes are not modelled.\<close>

definition TCP_RX_8100 :: "images \<Rightarrow> bytes \<Rightarrow> nat \<Rightarrow> app \<Rightarrow> app" where
  "TCP_RX_8100 im rx infolen a =
     (if rx ! 15 = 0
      then let a = on_term (\<lambda>t. t\<lparr>ConfirmCode := cleared 20 (take (infolen - 3) (drop 16 rx))\<rparr>) a;
               a = on_veh (\<lambda>v. v\<lparr>Regsiter_Status := 1, Reg_Sd_add := 0\<rparr>) a;
               a = save_jt im a
           in on_device (\<lambda>d. d\<lparr>DEV_Login_Operate_enable := 1\<rparr>) a
      else if rx ! 15 = 3 \<and> Regsiter_Status (veh a) = 1
      then on_device (\<lambda>d. d\<lparr>DEV_Login_Operate_enable := 1\<rparr>) a
      else a)"

section \<open>Requests and controls\<close>

definition TCP_RX_8202 :: "images \<Rightarrow> bytes \<Rightarrow> app \<Rightarrow> app" where
  "TCP_RX_8202 im rx a =
     save_jt im (a\<lparr>RT_LOCK := \<lparr>Lock_state = 1, Lock_Dur = hword rx 13, Lock_KeepDur = dword rx 15, Lock_KeepCnter = 0\<rparr>,
       Current_SD_Duration := dword rx 15, DUR_TOTALMODE := 1, Dur_DefaultMode := 1\<rparr>)"

definition TCP_RX_8400 :: "images \<Rightarrow> bytes \<Rightarrow> nat \<Rightarrow> station \<Rightarrow> station" where
  "TCP_RX_8400 im rx infolen z =
     (if infolen = 0 \<or> unat (rx ! 13) > 1 then z
      else let z = z\<lparr>speaker_on := (rx ! 13 = 0)\<rparr>;
               z = on_core (\<lambda>a. (set_listen_num im (infolen - 1) (drop 14 rx) a)\<lparr>CallState := 5\<rparr>) z
           in acknowledge z)"

text \<open>The number of the command is not kept for the answer.\<close>

definition TCP_RX_8500 :: "bytes \<Rightarrow> app \<Rightarrow> app" where
  "TCP_RX_8500 rx a =
     (let a = a\<lparr>Control_Flag := rx ! 13\<rparr>;
          a = on_device (\<lambda>d. d\<lparr>gps := (gps d)\<lparr>Car_Status := (Car_Status (gps d))[2 :=
                (if rx ! 13 AND 0x01 \<noteq> 0 then Car_Status (gps d) ! 2 OR 0x10 else Car_Status (gps d) ! 2 AND NOT 0x10)]\<rparr>\<rparr>) a
      in on_veh (\<lambda>v. v\<lparr>Vech_ACK_SD_Flag := 1\<rparr>) a)"

definition recorder_request :: "bytes \<Rightarrow> app \<Rightarrow> app" where
  "recorder_request rx a =
     (let f = Centre_FloatID (ans (dev (veh a)))
      in on_veh (\<lambda>v. v\<lparr>Recode_Float_ID := f, Recode_CMD := rx ! 13, Recode_SD_Data_Flag := 1\<rparr>) a)"

definition TCP_RX_8802 :: "bytes \<Rightarrow> vehicle \<Rightarrow> vehicle" where
  "TCP_RX_8802 rx v =
     (let v = v\<lparr>f_QueryEventCode := rx ! 15\<rparr>
      in if rx ! 13 = 0 then v\<lparr>f_MediaIndexACK_0802H := 1\<rparr>
         else if rx ! 13 = 1 \<or> rx ! 13 = 2 then v\<lparr>f_MediaIndexACK_0802H := 3\<rparr>
         else v)"

abbreviation (input) SoundStart_offdet :: nat where "SoundStart_offdet \<equiv> 5248"

definition VOC_REC_Start :: "bytes \<Rightarrow> node \<Rightarrow> node" where
  "VOC_REC_Start rx x =
     (if GSM_power_over x \<noteq> 0 \<and> VocREC_running (dvc x) = 0
      then (on_dvc (\<lambda>d. d\<lparr>VocREC_running := 1\<rparr>) x)\<lparr>VocREC := \<lparr>JT808_Duration = hword rx 14, JT808_SaveOrNot = rx ! 16,
             voc_Sate = 1, ExcuteFlag = 1, curren_PageCNT = SoundStart_offdet + 1, half_page = 0\<rparr>\<rparr>
      else x)"

section \<open>Transparent data\<close>

text \<open>The remote update on the second link; the receiver only notes the request.\<close>

definition Nullpro_8900H :: "bytes \<Rightarrow> node \<Rightarrow> node" where
  "Nullpro_8900H Instr x =
     (let running = (\<lambda>x. (on_dvc (\<lambda>d. d\<lparr>ISP_running_state := 1\<rparr>) x)\<lparr>ISP_running_counter := 0, ISP_RepeatCounter := 0\<rparr>);
          New_CMD = Instr ! 15
      in if New_CMD = 0x91 then running (on_vehicle (\<lambda>v. v\<lparr>f_ISP_ACK := 1\<rparr>) (x\<lparr>ISP_rxCMD := New_CMD\<rparr>))
         else if New_CMD = 0x93
         then running (on_vehicle (\<lambda>v. v\<lparr>ISP_current_packnum := hword Instr 16, ISP_total_packnum := hword Instr 18,
                ISP_ack_resualt := 0x01, f_ISP_88_ACK := 1\<rparr>) x)
         else if New_CMD = 0x95 then running (on_vehicle (\<lambda>v. v\<lparr>f_ISP_23_ACK := 1\<rparr>) x)
         else x)"

definition show_text :: "nat \<Rightarrow> bytes \<Rightarrow> station \<Rightarrow> station" where
  "show_text n c z =
     (let t = AsciiToGb n c
      in z\<lparr>TextInfo := (TextInfo z)\<lparr>TEXT_Content := cleared 100 t, TEXT_SD_FLAG := 1\<rparr>,
           DwinLCD := (DwinLCD z)\<lparr>lcd_Type := 3, TXT_content := cleared 256 t, TXT_contentLen := length t\<rparr>\<rparr>)"

definition TCP_RX_8900 :: "nat \<Rightarrow> bytes \<Rightarrow> nat \<Rightarrow> node \<Rightarrow> node" where
  "TCP_RX_8900 LinkNum rx infolen x =
     (if LinkNum = 0
      then confirm (on_stn (show_text (infolen - 1) (drop 14 rx))
             (on_vehicle (\<lambda>v. v\<lparr>DataTrans_TYPE := rx ! 13, DataRx := cleared 10 (take (infolen - 1) (drop 14 rx)),
                Data_RxLen := infolen - 1\<rparr>) x))
      else if rx ! 13 = 0x1F then Nullpro_8900H (drop 14 rx) x
      else x)"

section \<open>Extended parameters\<close>

definition BD_EXT_Write :: "layout \<Rightarrow> node \<Rightarrow> node" where
  "BD_EXT_Write L x =
     on_app (on_store (\<lambda>s. snd (Api_Config_Recwrite_Large BD_ext_config 0 (bd_img L x) (length (bd_img L x)) s))) x"

text \<open>The position mode of the receiver, called with the digits 1 to 3.\<close>

definition gps_mode :: "nat \<Rightarrow> node \<Rightarrow> node" where
  "gps_mode n x =
     (let line = ascii (if n = 1 then ''$CCSIR,1,0*49'' else if n = 2 then ''$CCSIR,2,0*4A'' else ''$CCSIR,3,0*4B'') @ [0x0D, 0x0A];
          m = (if n = 1 then 0x08 else if n = 2 then 0x04 else 0x0C)
      in (on_dvc (\<lambda>d. d\<lparr>gps := (gps d)\<lparr>Car_Status := (Car_Status (gps d))[1 := Car_Status (gps d) ! 1 AND NOT 0x0C OR m]\<rparr>\<rparr>)
            (tell (Gps_write line) x))\<lparr>Position_Moule_Status := n\<rparr>)"

text \<open>The rate commands are written with 16 bytes, which cuts the last one of the longer ones.\<close>

definition rate_line :: "nat \<Rightarrow> bytes option" where
  "rate_line n =
     (let l = (\<lambda>s. Some (take 16 (ascii s @ [0x0D, 0x0A])))
      in if n = 0 then l ''$PCAS02,500*1A'' else if n = 1 then l ''$PCAS02,1000*2E'' else if n = 2 then l ''$PCAS02,2000*2D''
         else if n = 3 then l ''$PCAS02,3000*2C'' else if n = 4 then l ''$PCAS02,4000*2B'' else None)"

definition CentreSet_subService_FF01H :: "nat \<Rightarrow> nat \<Rightarrow> bytes \<Rightarrow> node \<Rightarrow> bool \<times> node" where
  "CentreSet_subService_FF01H SubID infolen Content x =
     (if SubID = 0 \<or> SubID > 7 then (False, x)
      else if infolen \<noteq> 4 then (True, x)
      else let w = of_be32 Content;
               set = (\<lambda>f. x\<lparr>BD_EXT := f (BD_EXT x)\<rparr>)
           in (True,
             if SubID = 1
             then let x = set (\<lambda>b. b\<lparr>BD_Mode := w\<rparr>)
                  in if w = 0 then gps_mode 2 x else if w = 1 then gps_mode 1 x else if w = 2 then gps_mode 3 x else x
             else if SubID = 2 then set (\<lambda>b. b\<lparr>BD_Baud := w\<rparr>)
             else if SubID = 3
             then let x = set (\<lambda>b. b\<lparr>BD_OutputFreq := w\<rparr>)
                  in (case rate_line w of Some l \<Rightarrow> tell (Gps_write l) x | None \<Rightarrow> x)
             else if SubID = 4 then set (\<lambda>b. b\<lparr>BD_SampleFrea := w\<rparr>)
             else if SubID = 5 then tell (CAN_App_Init w) (set (\<lambda>b. b\<lparr>CAN_1_Mode := w\<rparr>))
             else if SubID = 6
             then tell (CAN2_write ([0x7E] @ Protocol_808_Encode ([0x33, 0x01] @ be32 w) 6 @ [0x7E]))
                    (set (\<lambda>b. b\<lparr>CAN_2_Mode := w\<rparr>))
             else tell (Mma8451_config (w div 65536) (w mod 65536)) (set (\<lambda>b. b\<lparr>Collision_Check := w\<rparr>))))"

definition CentreSet_subService_FF03H :: "layout \<Rightarrow> nat \<Rightarrow> nat \<Rightarrow> bytes \<Rightarrow> node \<Rightarrow> bool \<times> node" where
  "CentreSet_subService_FF03H L SubID infolen Content x =
     (if SubID = 1
      then (True,
        if infolen < 4 then x
        else let i = of_be32 (drop 4 Content);
                 t = (if Content ! 3 AND 0x40 \<noteq> 0 then 1 else 0);
                 s = u8n (hword Content 9)
             in BD_EXT_Write L
                 (if Content ! 3 AND 0x80 \<noteq> 0
                  then tell (CAN2_write ([0x7E] @ Protocol_808_Encode ([0x33, 0x02] @ take 8 (drop 3 Content)) 10 @ [0x7E]))
                         (x\<lparr>BD_EXT := (BD_EXT x)\<lparr>CAN_2_ID := i, CAN_2_Type := t, CAN_2_Duration := s\<rparr>\<rparr>)
                  else x\<lparr>BD_EXT := (BD_EXT x)\<lparr>CAN_1_ID := i, CAN_1_Type := t, CAN_1_Duration := s\<rparr>\<rparr>))
      else if SubID = 2
      then (True, (on_stn (show_text (u8n (infolen + 254)) (drop 2 Content)) x)
             \<lparr>lcd_TxInfolen := length (AsciiToGb (u8n (infolen + 254)) (drop 2 Content))\<rparr>)
      else (False, x))"

text \<open>The loop over the parameters, with the position in one byte as in command 8103H.\<close>

fun ext_params :: "(nat \<Rightarrow> nat \<Rightarrow> bytes \<Rightarrow> node \<Rightarrow> bool \<times> node) \<Rightarrow> bytes \<Rightarrow> nat \<Rightarrow> nat \<Rightarrow> node \<Rightarrow> node" where
  "ext_params svc rx 0 ContentRdAdd x = x"
| "ext_params svc rx (Suc n) ContentRdAdd x =
     (let SubInfolen = unat (rx ! (ContentRdAdd + 4))
      in ext_params svc rx n (u8n (ContentRdAdd + 5 + SubInfolen))
           (snd (svc (dword rx ContentRdAdd) SubInfolen (drop (ContentRdAdd + 5) rx) x)))"

section \<open>The dispatch\<close>

definition TCP_RX_command :: "layout \<Rightarrow> nat \<Rightarrow> nat \<Rightarrow> bytes \<Rightarrow> nat \<Rightarrow> node \<Rightarrow> node" where
  "TCP_RX_command L LinkNum cmd rx infolen x =
     (let im = conf_img L
      in if cmd = 0x8001 then on_app (TCP_RX_8001 im rx) x
         else if cmd = 0x8100 then on_app (TCP_RX_8100 im rx infolen) x
         else if cmd = 0x8103 then on_app (TCP_RX_8103 im rx) x
         else if cmd = 0x8104 then on_vehicle (\<lambda>v. v\<lparr>f_SettingPram_0104H := 1\<rparr>) x
         else if cmd = 0x8105 then on_app (TCP_RX_8105 rx) x
         else if cmd = 0x8201 then on_vehicle (\<lambda>v. v\<lparr>f_CurrentPosition_0201H := 1\<rparr>) x
         else if cmd = 0x8202 then confirm (on_app (TCP_RX_8202 im rx) x)
         else if cmd = 0x8300 then on_stn (TCP_RX_8300 rx infolen) x
         else if cmd = 0x8301 then on_stn (TCP_RX_8301 rx) x
         else if cmd = 0x8302 then on_stn (TCP_RX_8302 rx infolen) x
         else if cmd = 0x8303 then on_stn (TCP_RX_8303 rx) x
         else if cmd = 0x8304 then on_stn (TCP_RX_8304 rx infolen) x
         else if cmd = 0x8400 then on_stn (TCP_RX_8400 im rx infolen) x
         else if cmd = 0x8401 then on_stn (TCP_RX_8401 rx) x
         else if cmd = 0x8500 then on_app (TCP_RX_8500 rx) x
         else if cmd = 0x8600 then on_stn (TCP_RX_8600 rx) x
         else if cmd = 0x8601 then on_stn (TCP_RX_8601 rx) x
         else if cmd = 0x8602 then on_stn (TCP_RX_8602 rx) x
         else if cmd = 0x8603 then on_stn (TCP_RX_8603 rx) x
         else if cmd = 0x8604 then on_stn (TCP_RX_8604 rx) x
         else if cmd = 0x8605 then on_stn (TCP_RX_8605 rx) x
         else if cmd = 0x8606 then on_stn (TCP_RX_8606 rx) x
         else if cmd = 0x8607 then on_stn (TCP_RX_8607 rx) x
         else if cmd = 0x8700 then on_app (recorder_request rx) x
         else if cmd = 0x8701
         then on_app (\<lambda>a. CenterSet_subService_8701H im (rx ! 13) (drop 14 rx) (recorder_request rx a)) x
         else if cmd = 0x8800 then on_dvc (TCP_RX_8800 rx infolen) x
         else if cmd = 0x8801 then on_dvc (TCP_RX_8801 rx) x
         else if cmd = 0x8802 then on_vehicle (TCP_RX_8802 rx) x
         else if cmd = 0x8803 then confirm (if rx ! 13 = 1 then on_dvc (\<lambda>d. snd (MP3_send_start d)) x else x)
         else if cmd = 0x8804 then confirm (if rx ! 13 = 1 then VOC_REC_Start rx x else x)
         else if cmd = 0x8805 then confirm x
         else if cmd = 0x8900 then TCP_RX_8900 LinkNum rx infolen x
         else if cmd = 0x8A00 then confirm x
         else if cmd = 0xFF01
         then confirm (BD_EXT_Write L (ext_params CentreSet_subService_FF01H rx (unat (rx ! 13)) 14 x))
         else if cmd = 0xFF02 then on_app (\<lambda>a. a\<lparr>f_BD_Extend_7F02H := 1\<rparr>) x
         else if cmd = 0xFF03
         then confirm (ext_params (CentreSet_subService_FF03H L) rx (unat (rx ! 13)) 14 x)
         else x)"

text \<open>
  \<^verbatim>\<open>TCP_RX_Process\<close> on the receive buffer and the length of the received text. The identifiers of a message are
  noted before its check byte is tested.
\<close>

definition TCP_RX_Process :: "layout \<Rightarrow> nat \<Rightarrow> bytes \<Rightarrow> nat \<Rightarrow> node \<Rightarrow> node" where
  "TCP_RX_Process L LinkNum UDP_HEX_Rx UDP_hexRx_len x =
     (let buf = fst (Protocol_808_Decode UDP_HEX_Rx UDP_hexRx_len)
      in if buf ! 0 \<noteq> 0x7e then x
         else let x = on_app (on_ans (\<lambda>n. n\<lparr>Centre_CmdID := hword buf 1, Centre_FloatID := hword buf 11\<rparr>)) x
              in case TCP_RX_check UDP_HEX_Rx UDP_hexRx_len of
                   None \<Rightarrow> x
                 | Some r \<Rightarrow> TCP_RX_command L LinkNum (rx_CmdID r) (rx_buf r) (rx_infolen r) x)"

section \<open>What the commands leave alone\<close>

text \<open>
  The state of the login and of the registration, the identifiers of the message being answered and the state of the link: only the
  answers 8001H and 8100H of the centre change the first two, and no command changes the others.
\<close>

type_synonym view = "nat \<times> nat \<times> nat \<times> nat \<times> bool"

definition session_view :: "vehicle \<Rightarrow> view" where
  "session_view v = (DEV_Login_Operate_enable (dev v), Regsiter_Status v,
     Centre_CmdID (ans (dev v)), Centre_FloatID (ans (dev v)), DataLink_OK (dev v))"

abbreviation (input) view_a :: "app \<Rightarrow> view" where "view_a a \<equiv> session_view (veh a)"
abbreviation (input) view_s :: "station \<Rightarrow> view" where "view_s z \<equiv> session_view (veh (core z))"
abbreviation (input) view_n :: "node \<Rightarrow> view" where "view_n x \<equiv> session_view (vehicle_of x)"

lemma fold_keeps: "(\<And>i z. g (f i z) = g z) \<Longrightarrow> g (fold f is z) = g z"
  by (induction "is" arbitrary: z) simp_all

lemma view_app [simp]:
  "view_a (on_store f a) = view_a a" "view_a (on_term g a) = view_a a" "view_a (on_warn w a) = view_a a"
  by (simp_all add: on_store_def on_term_def on_ans_def on_warn_def on_device_def on_veh_def on_dev_def session_view_def)

lemma view_on_ans [simp]:
  "(\<And>n. Centre_CmdID (h n) = Centre_CmdID n \<and> Centre_FloatID (h n) = Centre_FloatID n) \<Longrightarrow> view_a (on_ans h a) = view_a a"
  by (simp add: on_ans_def on_device_def on_veh_def on_dev_def session_view_def)

lemma view_save [simp]:
  "view_a (save_jt im a) = view_a a" "view_a (save_sys im a) = view_a a" "view_a (save_tired im a) = view_a a"
  by (simp_all add: save_jt_def save_sys_def save_tired_def)

lemma view_station [simp]:
  "view_s (acknowledge z) = view_s z" "view_s (write_record name n b z) = view_s z"
  by (simp_all add: acknowledge_def write_record_def on_core_def)

lemma view_saves [simp]:
  "view_s (save_circle z) = view_s z" "view_s (save_rect z) = view_s z" "view_s (save_polygen z) = view_s z"
  "view_s (save_route z) = view_s z" "view_s (save_event z) = view_s z" "view_s (save_broadcast z) = view_s z"
  by (simp_all add: save_circle_def save_rect_def save_polygen_def save_route_def save_event_def save_broadcast_def Let_def)

lemma view_inits [simp]:
  "view_s (RailCycle_Init z) = view_s z" "view_s (RailRect_Init z) = view_s z" "view_s (RailPolygen_Init z) = view_s z"
  "view_s (RouteLine_Init z) = view_s z" "view_s (Event_Init z) = view_s z" "view_s (MSG_BroadCast_Init z) = view_s z"
  by (simp_all add: RailCycle_Init_def RailRect_Init_def RailPolygen_Init_def RouteLine_Init_def RouteLine_Obj_init_def
      Event_Init_def MSG_BroadCast_Init_def Let_def on_core_def fold_keeps [where g = "\<lambda>z. session_view (veh (core z))"])

lemma view_areas [simp]:
  "view_s (TCP_RX_8600 rx z) = view_s z" "view_s (TCP_RX_8601 rx z) = view_s z" "view_s (TCP_RX_8602 rx z) = view_s z"
  "view_s (TCP_RX_8603 rx z) = view_s z" "view_s (TCP_RX_8604 rx z) = view_s z" "view_s (TCP_RX_8605 rx z) = view_s z"
  "view_s (TCP_RX_8606 rx z) = view_s z" "view_s (TCP_RX_8607 rx z) = view_s z"
  by (simp_all add: TCP_RX_8600_def TCP_RX_8601_def TCP_RX_8602_def TCP_RX_8603_def TCP_RX_8604_def TCP_RX_8605_def
      TCP_RX_8606_def TCP_RX_8607_def Let_def fold_keeps [where g = "\<lambda>z. session_view (veh (core z))"])

lemma view_replace [simp]: "view_s (replace_phone is z) = view_s z"
  by (induction "is" arbitrary: z) (simp_all add: Let_def)

lemma view_veh_upd [simp]:
  "session_view (v\<lparr>ASK_SdFlag := n\<rparr>) = session_view v" "session_view (v\<lparr>LISTEN_Num := b\<rparr>) = session_view v"
  by (simp_all add: session_view_def)

lemma view_texts [simp]:
  "view_s (TCP_RX_8300 rx n z) = view_s z" "view_s (TCP_RX_8301 rx z) = view_s z" "view_s (TCP_RX_8302 rx n z) = view_s z"
  "view_s (TCP_RX_8303 rx z) = view_s z" "view_s (TCP_RX_8304 rx n z) = view_s z" "view_s (TCP_RX_8401 rx z) = view_s z"
  "view_s (TCP_RX_8400 im rx n z) = view_s z"
  by (simp_all add: TCP_RX_8300_def TCP_RX_8301_def TCP_RX_8302_def TCP_RX_8303_def TCP_RX_8304_def TCP_RX_8401_def
      TCP_RX_8400_def set_listen_num_def TEXTMSG_Write_def Let_def on_core_def on_veh_def)

lemma view_veh_settings [simp]:
  "session_view (v\<lparr>APN_String := b\<rparr>) = session_view v" "session_view (v\<lparr>DomainNameStr := b\<rparr>) = session_view v"
  "session_view (v\<lparr>RemoteIP_aux := b\<rparr>) = session_view v" "session_view (v\<lparr>RemotePort_main := n\<rparr>) = session_view v"
  "session_view (v\<lparr>Default_Dur := n\<rparr>) = session_view v" "session_view (v\<lparr>Door_DrvKeepingSec := n\<rparr>) = session_view v"
  "session_view (v\<lparr>Door_MinSleepSec := n\<rparr>) = session_view v" "session_view (v\<lparr>Vech_Character_Value := n\<rparr>) = session_view v"
  "session_view (v\<lparr>DriveCode := b, DriverCard_ID := b'\<rparr>) = session_view v"
  "session_view (v\<lparr>Vech_VIN := b, Vech_Type := b'\<rparr>) = session_view v"
  by (simp_all add: session_view_def)

lemma view_set [simp]:
  "(\<And>w a. view_a (f w a) = view_a a) \<Longrightarrow> view_a (set4 n c f a) = view_a a"
  "(\<And>w a. view_a (f w a) = view_a a) \<Longrightarrow> view_a (set2 n c f a) = view_a a"
  by (simp_all add: set4_def set2_def)

lemma view_servers [simp]:
  "view_a (set_main_server im n c a) = view_a a" "view_a (set_aux_server im n c a) = view_a a"
  "view_a (set_listen_num im n c a) = view_a a" "view_a (deviceid c a) = view_a a"
  "view_a (Spd_ExpInit a) = view_a a" "view_a (TIRED_Drive_Init a) = view_a a"
  by (simp_all add: set_main_server_def set_aux_server_def set_listen_num_def deviceid_def Spd_ExpInit_def
      TIRED_Drive_Init_def Let_def on_veh_def)

lemma view_service [simp]: "view_a (snd (CentreSet_subService_8103H im sub n c a)) = view_a a"
  by (simp add: CentreSet_subService_8103H_def report_setting_def vehicle_setting_def Let_def on_veh_def)

lemma view_params [simp]: "view_a (set_params im rx n k a) = view_a a"
  by (induction n arbitrary: k a) (simp_all add: Let_def)

lemma view_controls [simp]:
  "view_a (TCP_RX_8103 im rx a) = view_a a" "view_a (TCP_RX_8105 rx a) = view_a a" "view_a (TCP_RX_8202 im rx a) = view_a a"
  "view_a (CenterSet_subService_8701H im b c a) = view_a a"
  by (simp_all add: TCP_RX_8103_def TCP_RX_8105_def CentreSet_subService_8105H_def TCP_RX_8202_def
      CenterSet_subService_8701H_def Let_def on_veh_def)

lemma view_requests [simp]:
  "view_a (TCP_RX_8500 rx a) = view_a a" "view_a (recorder_request rx a) = view_a a"
  "session_view (TCP_RX_8802 rx v) = session_view v"
  by (simp_all add: TCP_RX_8500_def recorder_request_def TCP_RX_8802_def Let_def on_veh_def on_device_def on_dev_def session_view_def)

text \<open>The same for functions of the device.\<close>

abbreviation (input) login :: "device \<Rightarrow> nat" where "login d \<equiv> DEV_Login_Operate_enable d"

definition device_view :: "device \<Rightarrow> nat \<times> nat \<times> nat \<times> bool" where
  "device_view d = (login d, Centre_CmdID (ans d), Centre_FloatID (ans d), DataLink_OK d)"

lemma view_on_device: "device_view (f (dev (veh a))) = device_view (dev (veh a)) \<Longrightarrow> view_a (on_device f a) = view_a a"
  by (simp add: on_device_def on_veh_def on_dev_def session_view_def device_view_def)

lemma device_view_media [simp]:
  "device_view (Media_Clear_State d) = device_view d" "device_view (Media_Start_Init t c d) = device_view d"
  "device_view (Photo_send_end d) = device_view d" "device_view (Sound_send_end d) = device_view d"
  "device_view (Video_send_end d) = device_view d" "device_view (send_end d) = device_view d"
  "device_view (TCP_RX_8800 rx n d) = device_view d" "device_view (snd (MP3_send_start d)) = device_view d"
  by (simp_all add: Media_Clear_State_def Media_Start_Init_def Photo_send_end_def Sound_send_end_def Video_send_end_def
      send_end_def TCP_RX_8800_def MP3_send_start_def Let_def device_view_def)

lemma device_view_camera [simp]:
  "device_view (snd (Start_Camera n d)) = device_view d" "device_view (TCP_RX_8801 rx d) = device_view d"
  by (simp_all add: Start_Camera_def TCP_RX_8801_def Photo_FetchCMD_Update_def Photo_TakeCMD_Update_def
      DwinLCD_work_Disable_def Let_def device_view_def)

lemma view_node [simp]:
  "view_n (on_app f x) = view_a (f (app_of x))" "view_n (on_stn g x) = view_s (g (stn x))"
  "view_n (on_vehicle h x) = session_view (h (vehicle_of x))"
  "view_n (confirm x) = view_n x" "view_n (tell p x) = view_n x" "view_n (BD_EXT_Write L x) = view_n x"
  by (simp_all add: on_app_def on_stn_def on_vehicle_def on_core_def on_veh_def confirm_def tell_def BD_EXT_Write_def)

lemma view_dvc: "device_view (f (dvc x)) = device_view (dvc x) \<Longrightarrow> view_n (on_dvc f x) = view_n x"
  by (simp add: on_dvc_def view_on_device)

lemma view_extended [simp]:
  "view_n (gps_mode n x) = view_n x" "view_n (snd (CentreSet_subService_FF01H sub n c x)) = view_n x"
  "view_n (snd (CentreSet_subService_FF03H L sub n c x)) = view_n x"
  "view_s (show_text n c z) = view_s z"
  by (auto simp: gps_mode_def CentreSet_subService_FF01H_def CentreSet_subService_FF03H_def show_text_def view_dvc device_view_def Let_def
      split: option.split)

lemma view_ext_params [simp]:
  "(\<And>s n c x. view_n (snd (svc s n c x)) = view_n x) \<Longrightarrow> view_n (ext_params svc rx n k x) = view_n x"
  by (induction n arbitrary: k x) (simp_all add: Let_def)

lemma view_update [simp]: "view_n (Nullpro_8900H i x) = view_n x" "view_n (VOC_REC_Start rx x) = view_n x"
  "view_n (TCP_RX_8900 link rx n x) = view_n x"
  by (auto simp: Nullpro_8900H_def VOC_REC_Start_def TCP_RX_8900_def Let_def session_view_def on_dvc_def on_app_def on_stn_def
      on_core_def on_vehicle_def on_device_def on_veh_def on_dev_def confirm_def acknowledge_def on_ans_def show_text_def)

lemma view_flags [simp]:
  "session_view (v\<lparr>f_SettingPram_0104H := n\<rparr>) = session_view v" "session_view (v\<lparr>f_CurrentPosition_0201H := n\<rparr>) = session_view v"
  "session_view (v\<lparr>TCP_ACK_DurCnter := n, TCP_SD_state := m\<rparr>) = session_view v"
  by (simp_all add: session_view_def)

lemma view_command:
  "cmd \<noteq> 0x8001 \<Longrightarrow> cmd \<noteq> 0x8100 \<Longrightarrow> view_n (TCP_RX_command L link cmd rx n x) = view_n x"
  by (simp add: TCP_RX_command_def Let_def view_dvc)

lemma view_ack [simp]: "view_a (ack_0200 rx a) = view_a a"
  by (simp add: ack_0200_def clear_warn_def clear_inout_def Let_def)

text \<open>The two answers: a login is complete exactly when the centre answers message 0102H with result 0.\<close>

lemma login_8001:
  "login (dev (veh (TCP_RX_8001 im rx a))) =
     (if of_be16 (rx ! 15) (rx ! 16) = 0x0102 \<and> rx ! 17 = 0 then 2 else login (dev (veh a)))"
proof (cases "of_be16 (rx ! 15) (rx ! 16) = 0x0102 \<and> rx ! 17 = 0")
  case True
  then show ?thesis
    by (auto simp: TCP_RX_8001_def DataLinkOK_Process_def Let_def on_device_def on_veh_def on_dev_def)
next
  case False
  have "view_a (save_jt im (on_veh (\<lambda>v. v\<lparr>Regsiter_Status := n\<rparr>) a)) = view_a (on_veh (\<lambda>v. v\<lparr>Regsiter_Status := n\<rparr>) a)" for n
    by simp
  then have "login (dev (veh (save_jt im (on_veh (\<lambda>v. v\<lparr>Regsiter_Status := n\<rparr>) a)))) = login (dev (veh a))" for n
    by (simp add: session_view_def on_veh_def)
  moreover have "login (dev (veh (ack_0200 rx a))) = login (dev (veh a))"
    using view_ack [of rx a] by (simp add: session_view_def)
  moreover have "login (dev (veh (on_veh (\<lambda>v. v\<lparr>TCP_ACK_DurCnter := 0, TCP_SD_state := 0\<rparr>) a))) = login (dev (veh a))"
    by (simp add: on_veh_def)
  ultimately show ?thesis using False by (auto simp: TCP_RX_8001_def Let_def)
qed

lemma login_8100: "login (dev (veh (TCP_RX_8100 im rx n a))) \<in> {1, login (dev (veh a))}"
  by (simp add: TCP_RX_8100_def Let_def on_device_def on_veh_def on_dev_def)

section \<open>The answers to commands\<close>

text \<open>The commands that are answered at once with the general answer 0001H and result 0.\<close>

definition acked_commands :: "nat list" where
  "acked_commands = [0x8202, 0x8300, 0x8301, 0x8302, 0x8303, 0x8304, 0x8401, 0x8600, 0x8601, 0x8602, 0x8603, 0x8604, 0x8605,
     0x8606, 0x8607, 0x8801, 0x8803, 0x8804, 0x8805, 0x8A00, 0xFF01, 0xFF03]"

definition answer_set :: "device \<Rightarrow> bool" where
  "answer_set d = (f_CentreCMDack_0001H (ans d) = 1 \<and> f_CentreCMDack_resualt (ans d) = 0)"

lemma answer_acknowledge [simp]: "answer_set (device_of (acknowledge z))"
  by (simp add: answer_set_def acknowledge_def on_core_def on_ans_def on_device_def on_veh_def on_dev_def)

lemma answer_node [simp]:
  "dvc (on_stn g x) = device_of (g (stn x))" "dvc (on_dvc f x) = f (dvc x)" "answer_set (dvc (confirm x))"
  by (simp_all add: on_stn_def on_dvc_def on_app_def on_core_def on_device_def on_veh_def on_dev_def confirm_def)

lemma answer_commands:
  "answer_set (device_of (TCP_RX_8300 rx n z))" "answer_set (device_of (TCP_RX_8301 rx z))"
  "answer_set (device_of (TCP_RX_8302 rx n z))" "answer_set (device_of (TCP_RX_8303 rx z))"
  "answer_set (device_of (TCP_RX_8304 rx n z))" "answer_set (device_of (TCP_RX_8401 rx z))"
  "answer_set (device_of (TCP_RX_8600 rx z))" "answer_set (device_of (TCP_RX_8601 rx z))"
  "answer_set (device_of (TCP_RX_8602 rx z))" "answer_set (device_of (TCP_RX_8603 rx z))"
  "answer_set (device_of (TCP_RX_8604 rx z))" "answer_set (device_of (TCP_RX_8605 rx z))"
  "answer_set (device_of (TCP_RX_8606 rx z))" "answer_set (device_of (TCP_RX_8607 rx z))"
  by (simp_all only: TCP_RX_8300_def TCP_RX_8301_def TCP_RX_8302_def TCP_RX_8303_def TCP_RX_8304_def TCP_RX_8401_def
      TCP_RX_8600_def TCP_RX_8601_def TCP_RX_8602_def TCP_RX_8603_def TCP_RX_8604_def TCP_RX_8605_def TCP_RX_8606_def
      TCP_RX_8607_def Let_def answer_acknowledge)

lemma answer_8801: "answer_set (TCP_RX_8801 rx d)"
  by (auto simp: TCP_RX_8801_def answer_set_def Let_def)

lemma command_answers: "cmd \<in> set acked_commands \<Longrightarrow> answer_set (dvc (TCP_RX_command L link cmd rx n x))"
  by (auto simp: acked_commands_def TCP_RX_command_def Let_def answer_commands answer_8801)

lemma acked_other: "cmd \<in> set acked_commands \<Longrightarrow> cmd \<noteq> 0x8001 \<and> cmd \<noteq> 0x8100"
  by (auto simp: acked_commands_def)

lemma check_head:
  assumes "TCP_RX_check f n = Some r"
  shows "fst (Protocol_808_Decode f n) ! 0 = 0x7e" and "rx_buf r = fst (Protocol_808_Decode f n)"
    and "rx_CmdID r = hword (rx_buf r) 1" and "rx_FloatID r = hword (rx_buf r) 11"
  using assms by (auto simp: TCP_RX_check_def split_beta Let_def u16_of_be16 numeral_2_eq_2 split: if_splits)

text \<open>What \<^verbatim>\<open>TCP_RX_Process\<close> does with an intact message: note its identifiers, then carry it out.\<close>

definition noted :: "nat \<Rightarrow> nat \<Rightarrow> node \<Rightarrow> node" where
  "noted cmd float = on_app (on_ans (\<lambda>n. n\<lparr>Centre_CmdID := cmd, Centre_FloatID := float\<rparr>))"

lemma TCP_RX_Process_intact:
  "TCP_RX_check f n = Some r \<Longrightarrow>
   TCP_RX_Process L link f n x = TCP_RX_command L link (rx_CmdID r) (rx_buf r) (rx_infolen r) (noted (rx_CmdID r) (rx_FloatID r) x)"
  using check_head [of f n r] by (simp add: TCP_RX_Process_def Let_def noted_def)

lemma noted_ids:
  "session_view (vehicle_of (noted cmd float x)) =
     (login (dvc x), Regsiter_Status (vehicle_of x), cmd, float, DataLink_OK (dvc x))"
  by (simp add: noted_def on_app_def on_stn_def on_core_def on_ans_def on_device_def on_veh_def on_dev_def session_view_def)

text \<open>The state of the link is not changed by what the centre sends.\<close>

lemma link_8001 [simp]: "DataLink_OK (dev (veh (TCP_RX_8001 im rx a))) = DataLink_OK (dev (veh a))"
proof -
  have "DataLink_OK (dev (veh (ack_0200 rx a))) = DataLink_OK (dev (veh a))"
    using view_ack [of rx a] by (simp add: session_view_def)
  moreover have "DataLink_OK (dev (veh (save_jt im b))) = DataLink_OK (dev (veh b))" for b
    using view_save(1) [of im b] by (simp add: session_view_def)
  ultimately show ?thesis
    by (auto simp: TCP_RX_8001_def DataLinkOK_Process_def Let_def on_device_def on_veh_def on_dev_def)
qed

lemma link_8100 [simp]: "DataLink_OK (dev (veh (TCP_RX_8100 im rx n a))) = DataLink_OK (dev (veh a))"
proof -
  have "DataLink_OK (dev (veh (save_jt im b))) = DataLink_OK (dev (veh b))" for b
    using view_save(1) [of im b] by (simp add: session_view_def)
  then show ?thesis by (simp add: TCP_RX_8100_def Let_def on_term_def on_device_def on_veh_def on_dev_def)
qed

lemma link_command: "DataLink_OK (dvc (TCP_RX_command L link cmd rx n x)) = DataLink_OK (dvc x)"
proof (cases "cmd = 0x8001 \<or> cmd = 0x8100")
  case True
  then show ?thesis by (auto simp: TCP_RX_command_def Let_def on_app_def on_stn_def on_core_def)
next
  case False
  then show ?thesis using view_command [of cmd L link rx n x] by (simp add: session_view_def)
qed

lemma link_received: "DataLink_OK (dvc (TCP_RX_Process L link f n x)) = DataLink_OK (dvc x)"
  by (simp add: TCP_RX_Process_def Let_def link_command on_app_def on_stn_def on_core_def on_ans_def on_device_def on_veh_def
      on_dev_def split: option.split)

lemma head_acked: "cmd \<in> set acked_commands \<Longrightarrow> cmd < 65536"
  by (auto simp: acked_commands_def)

lemma command_answer_ready:
  assumes "TCP_RX_check f n = Some r" and "rx_CmdID r \<in> set acked_commands"
  shows "answer_set (dvc (TCP_RX_Process L link f n x))"
    and "Centre_CmdID (ans (dvc (TCP_RX_Process L link f n x))) = rx_CmdID r"
    and "Centre_FloatID (ans (dvc (TCP_RX_Process L link f n x))) = rx_FloatID r"
proof -
  define x' where "x' = TCP_RX_Process L link f n x"
  have x': "x' = TCP_RX_command L link (rx_CmdID r) (rx_buf r) (rx_infolen r) (noted (rx_CmdID r) (rx_FloatID r) x)"
    using TCP_RX_Process_intact [OF assms(1)] by (simp add: x'_def)
  have "session_view (vehicle_of x') = session_view (vehicle_of (noted (rx_CmdID r) (rx_FloatID r) x))"
    unfolding x' using acked_other [OF assms(2)] by (intro view_command) simp_all
  then show "Centre_CmdID (ans (dvc (TCP_RX_Process L link f n x))) = rx_CmdID r"
    "Centre_FloatID (ans (dvc (TCP_RX_Process L link f n x))) = rx_FloatID r"
    unfolding x'_def by (simp_all add: noted_ids) (simp_all add: session_view_def)
  show "answer_set (dvc (TCP_RX_Process L link f n x))"
    unfolding x'_def [symmetric] x' by (rule command_answers [OF assms(2)])
qed

text \<open>
  (C12) Every command is answered under its own number: when the centre's message with one of the commands above
  arrives, the general answer 0001H that the terminal sends next passes the centre's check and names the number and the
  identifier of this message, with result 0.
\<close>

theorem command_acknowledged:
  assumes "cmd \<in> set acked_commands" and "length sim = 6" and "float < 65536" and "length c < 1024"
    and "f = frame808 (head808 cmd (length c) sim float @ c)" and "x' = TCP_RX_Process L link f (length f) x"
    and "length (SIM_code (terminal (dvc x'))) = 6" and "Msg_Float_ID (dvc x') < 65536"
  shows "\<exists>d' g buf. f_CentreCMDack_0001H (ans (dvc x')) = 1 \<and>
    Stuff_DevCommmonACK_0001H (dvc x') = (True, d') \<and> tx d' = tx (dvc x') @ [(g, 0)] \<and>
    TCP_RX_check g (length g) = Some \<lparr>rx_buf = buf, rx_len = 20, rx_CmdID = 0x0001,
      rx_FloatID = Msg_Float_ID (dvc x'), rx_infolen = 5\<rparr> \<and>
    drop 13 (take 18 buf) = be16 float @ be16 cmd @ [0]"
proof -
  obtain buf where chk: "TCP_RX_check f (length f) = Some \<lparr>rx_buf = buf, rx_len = length c + 15, rx_CmdID = cmd,
      rx_FloatID = float, rx_infolen = length c\<rparr>"
    using head808_accepted [OF assms(2) head_acked [OF assms(1)] assms(3,4,5)] by blast
  then have ready: "answer_set (dvc x')" "Centre_CmdID (ans (dvc x')) = cmd" "Centre_FloatID (ans (dvc x')) = float"
    using command_answer_ready [OF chk, of L link x] assms(1) by (simp_all add: assms(6))
  then show ?thesis
    unfolding Stuff_DevCommmonACK_0001H_def
    using stuff_accepted [OF assms(7) _ _ assms(8), of "be16 float @ be16 cmd @ [0]" 1
        "\<lambda>d. put (be16 (Centre_FloatID (ans d)) @ be16 (Centre_CmdID (ans d)) @ [f_CentreCMDack_resualt (ans d)]) d" 0]
    by (simp add: answer_set_def) blast
qed

text \<open>A node with cleared structures.\<close>

definition new_node :: node where
  "new_node = \<lparr>stn = new_station, VocREC = \<lparr>JT808_Duration = 0, JT808_SaveOrNot = 0, voc_Sate = 0, ExcuteFlag = 0,
       curren_PageCNT = 0, half_page = 0\<rparr>, GSM_power_over = 0,
     BD_EXT = \<lparr>BD_Mode = 0, BD_Baud = 0, BD_OutputFreq = 0, BD_SampleFrea = 0, CAN_1_Mode = 0, CAN_1_ID = 0, CAN_1_Type = 0,
       CAN_1_Duration = 0, CAN_2_Mode = 0, CAN_2_ID = 0, CAN_2_Type = 0, CAN_2_Duration = 0, Collision_Check = 0\<rparr>,
     Position_Moule_Status = 0, lcd_TxInfolen = 0, ISP_rxCMD = 0, ISP_running_counter = 0, ISP_RepeatCounter = 0, periphery = []\<rparr>"

definition no_layout :: layout where
  "no_layout = \<lparr>conf_img = no_images, bd_img = \<lambda>_. []\<rparr>"

theorem command_acknowledged_witness:
  "\<exists>d' g buf. Stuff_DevCommmonACK_0001H (dvc (TCP_RX_Process no_layout 0 (frame808 (head808 0x8A00 0 (replicate 6 0) 7))
       (length (frame808 (head808 0x8A00 0 (replicate 6 0) 7))) new_node)) = (True, d') \<and> tx d' = [(g, 0)] \<and>
     TCP_RX_check g (length g) = Some \<lparr>rx_buf = buf, rx_len = 20, rx_CmdID = 0x0001, rx_FloatID = 0, rx_infolen = 5\<rparr> \<and>
     drop 13 (take 18 buf) = [0, 7, 0x8A, 0x00, 0]"
proof -
  let ?f = "frame808 (head808 0x8A00 0 (replicate 6 0) 7)"
  let ?x = "TCP_RX_Process no_layout 0 ?f (length ?f) new_node"
  have "\<exists>buf. TCP_RX_check ?f (length ?f) = Some \<lparr>rx_buf = buf, rx_len = 15, rx_CmdID = 0x8A00, rx_FloatID = 7, rx_infolen = 0\<rparr>"
    using head808_accepted [of "replicate 6 0" "0x8A00" 7 "[]" ?f] by auto
  then have "?x = confirm (noted 0x8A00 7 new_node)"
    by (auto simp: TCP_RX_Process_intact TCP_RX_command_def)
  then have "length (SIM_code (terminal (dvc ?x))) = 6" "Msg_Float_ID (dvc ?x) = 0" "tx (dvc ?x) = []"
    by (simp_all add: confirm_def acknowledge_def noted_def on_app_def on_stn_def on_core_def on_ans_def on_device_def on_veh_def
        on_dev_def new_node_def new_station_defs)
  moreover have "0x8A00 \<in> set acked_commands" by (simp add: acked_commands_def)
  ultimately show ?thesis
    using command_acknowledged [of "0x8A00" "replicate 6 0" 7 "[]" ?f ?x no_layout 0 new_node] by (auto simp: be16_def)
qed

text \<open>
  (C35) A damaged message redirects a pending answer: a message that fails the check is not carried out, but its
  identifiers, as they arrived, replace those of the message that still waits for its answer.
\<close>

theorem damaged_message_redirects_answer:
  assumes "12 \<le> length m" and "i \<le> length m" and "b \<noteq> (m @ [xor_sum m]) ! i"
    and "c = (m @ [xor_sum m])[i := b]" and "f = 0x7e # encode_loop c @ [0x7e]" and "x' = TCP_RX_Process L link f (length f) x"
  shows "ans (dvc x') = (ans (dvc x))\<lparr>Centre_CmdID := of_be16 (c ! 0) (c ! 1), Centre_FloatID := of_be16 (c ! 10) (c ! 11)\<rparr>"
proof -
  have "xor_sum c \<noteq> xor_sum (m @ [xor_sum m])"
    using assms(2,3) xor_sum_update [of i "m @ [xor_sum m]" b] by (simp add: assms(4))
  then have bad: "xor_sum c \<noteq> 0" unfolding xor_sum_closed .
  have len: "12 < length c" using assms(1) by (simp add: assms(4))
  then have none: "TCP_RX_check f (length f) = None"
    using TCP_RX_check_flagged(1) [OF assms(5), of "[]"] bad by (cases c) auto
  have buf: "take (length c + 2) (fst (Protocol_808_Decode f (length f))) = 0x7e # c @ [0x7e]"
    using decode_flagged [OF assms(5), of "[]"] by simp
  have at: "fst (Protocol_808_Decode f (length f)) ! k = (0x7e # c @ [0x7e]) ! k" if "k < length c + 2" for k
    using that buf by (metis nth_take)
  have "c \<noteq> []" using len by auto
  then show ?thesis
    using len none at [of 0] at [of 1] at [of 2] at [of 11] at [of 12]
    by (simp add: numeral_2_eq_2 assms(6) TCP_RX_Process_def Let_def on_app_def on_stn_def on_core_def on_ans_def on_device_def on_veh_def
        on_dev_def nth_append)
qed

theorem damaged_message_redirects_answer_witness:
  "let f = 0x7e # encode_loop [0x80, 0x01, 0, 0, 0, 0, 0, 0, 0, 0, 0, 9, 0] @ [0x7e]
   in Centre_CmdID (ans (dvc (TCP_RX_Process no_layout 0 f (length f) (confirm (noted 0x8A00 7 new_node))))) = 0x8001 \<and>
      Centre_FloatID (ans (dvc (TCP_RX_Process no_layout 0 f (length f) (confirm (noted 0x8A00 7 new_node))))) = 9"
  using damaged_message_redirects_answer [of "[0x80, 0x01, 0, 0, 0, 0, 0, 0, 0, 0, 0, 9]" 12 0
      "[0x80, 0x01, 0, 0, 0, 0, 0, 0, 0, 0, 0, 9, 0]" "0x7e # encode_loop [0x80, 0x01, 0, 0, 0, 0, 0, 0, 0, 0, 0, 9, 0] @ [0x7e]"
      "TCP_RX_Process no_layout 0 (0x7e # encode_loop [0x80, 0x01, 0, 0, 0, 0, 0, 0, 0, 0, 0, 9, 0] @ [0x7e])
         (length (0x7e # encode_loop [0x80, 0x01, 0, 0, 0, 0, 0, 0, 0, 0, 0, 9, 0] @ [0x7e])) (confirm (noted 0x8A00 7 new_node))"
      no_layout 0 "confirm (noted 0x8A00 7 new_node)"]
  by (simp add: Let_def xor_sum_def of_be16_def)

end
