(* ===== verification/Session808.thy ===== *)
theory Session808
  imports Command808
begin

text \<open>
  Registration, login and the link: the timers of \<^verbatim>\<open>protocol_808/app_808.c\<close>, the receiving and sending part of its
  thread, the heartbeat of \<^verbatim>\<open>protocol_808/Sys_config.c\<close>, and the reports of the modem in \<^verbatim>\<open>gsm/Device_gsm.c\<close> that change
  the session. A session is a sequence of events; the main results say when the terminal is logged in, how an accepted
  registration leads to the login, and when it gives up a link.
\<close>

section \<open>The sending task keeps the login state\<close>

lemma login_buffer [simp]:
  "login (put bs d) = login d" "login (poke bs d) = login d" "login (advance n d) = login d" "login (set_len n d) = login d"
  by (simp_all add: put_def poke_def advance_def set_len_def)

lemma login_head [simp]: "login (snd (Protocol_Head m t d)) = login d"
  by (simp add: Protocol_Head_def Let_def media_packet_def)

lemma login_end [simp]: "login (Protocol_End t l d) = login d"
  by (simp add: Protocol_End_def Let_def)

lemma login_stuff: "(\<And>d. login (f d) = login d) \<Longrightarrow> login (snd (stuff m l f d)) = login d"
  by (simp add: stuff_def split_beta split: bool.split)

lemmas login_split = split_beta Let_def login_stuff

lemma login_messages [simp]:
  "login (snd (Stuff_DevCommmonACK_0001H d)) = login d" "login (snd (Stuff_RegisterPacket_0100H n d)) = login d"
  "login (snd (Stuff_DeviceHeartPacket_0002H d)) = login d" "login (snd (Stuff_DeviceDeregister_0101H d)) = login d"
  "login (snd (Stuff_DevLogin_0102H d)) = login d" "login (snd (Stuff_EventACK_0301H d)) = login d"
  "login (snd (Stuff_ASKACK_0302H d)) = login d" "login (snd (Stuff_MSGACK_0303H d)) = login d"
  "login (snd (Stuff_CentreTakeACK_BD_0805H d)) = login d" "login (snd (Stuff_Current_Data_0201H d)) = login d"
  by (simp_all add: login_stuff Stuff_DevCommmonACK_0001H_def Stuff_RegisterPacket_0100H_def Stuff_DeviceHeartPacket_0002H_def
      Stuff_DeviceDeregister_0101H_def Stuff_DevLogin_0102H_def Stuff_EventACK_0301H_def Stuff_ASKACK_0302H_def
      Stuff_MSGACK_0303H_def Stuff_CentreTakeACK_BD_0805H_def Stuff_Current_Data_0201H_def)

lemma login_positions [simp]:
  "login (snd (Stuff_Current_Data_0200H d)) = login d" "login (snd (Stuff_Normal_Data_0200H d)) = login d"
  by (simp_all add: Stuff_Current_Data_0200H_def Stuff_Normal_Data_0200H_def login_split speed_checked_def
      StatusReg_SPD_NORMAL_def split: bool.split)

lemma login_contents [simp]:
  "login (media_packet t c n d) = login d" "login (read_media name n d) = login d" "login (after_0801H d) = login d"
  by (auto simp: media_packet_def read_media_def after_0801H_def Let_def split: prod.split option.split)

lemma login_channels [simp]:
  "login (snd (photo_content d)) = login d" "login (snd (sound_content d)) = login d"
  by (auto simp: photo_content_def sound_content_def Let_def split: option.split)

lemma login_info [simp]: "login (snd (Stuff_MultiMedia_InfoSD_0800H d)) = login d"
  by (simp add: Stuff_MultiMedia_InfoSD_0800H_def split_beta Let_def split: bool.split)

lemma login_data [simp]: "login (snd (Stuff_MultiMedia_Data_0801H d)) = login d"
  by (simp add: Stuff_MultiMedia_Data_0801H_def split_beta Let_def if_distrib [where f = snd] split: bool.split)

lemma login_media_sent [simp]: "login (snd (send_media_data d)) = login d" "login (snd (send_media_info d)) = login d"
  by (simp_all add: send_media_data_def send_media_info_def Let_def)

text \<open>The vehicle: what the branches of the sending task do with it.\<close>

abbreviation (input) vlogin :: "vehicle \<Rightarrow> nat" where "vlogin v \<equiv> DEV_Login_Operate_enable (dev v)"

lemma vlogin_with_dev [simp]: "login (snd (f (dev v))) = vlogin v \<Longrightarrow> vlogin (snd (with_dev f v)) = vlogin v"
  by (simp add: with_dev_def)

lemma vlogin_on_dev [simp]: "login (f (dev v)) = vlogin v \<Longrightarrow> vlogin (on_dev f v) = vlogin v"
  by (simp add: on_dev_def)

lemma vlogin_messages [simp]:
  "vlogin (snd (Stuff_SettingPram_0104H v)) = vlogin v" "vlogin (snd (Stuff_ControlACK_0500H v)) = vlogin v"
  "vlogin (snd (Stuff_DataTransTx_0900H v)) = vlogin v" "vlogin (snd (Stuff_DriverInfoSD_0702H v)) = vlogin v"
  "vlogin (snd (Stuff_Worklist_0701H v)) = vlogin v"
  by (simp_all add: Stuff_SettingPram_0104H_def Stuff_ControlACK_0500H_def Stuff_DataTransTx_0900H_def
      Stuff_DriverInfoSD_0702H_def Stuff_Worklist_0701H_def login_stuff)

lemma login_put_record: "login (snd (put_record name len style from n step i rd)) = login (snd rd)"
  by (simp add: put_record_def split_beta Let_def)

lemma login_records: "login (snd (fold (put_record name len style from n step) is rd)) = login (snd rd)"
  by (rule fold_keeps [where g = "\<lambda>rd. login (snd rd)"]) (rule login_put_record)

lemma login_recorder [simp]: "recorder_data junk v d = Some e \<Longrightarrow> login e = login d"
  by (auto simp: recorder_data_def doubt_record_def speed_records_def tired_records_def Let_def split_beta login_records
      split: if_splits option.splits)

lemma vlogin_recorder [simp]: "vlogin (snd (Stuff_RecoderACK_0700H junk v)) = vlogin v"
  by (auto simp: Stuff_RecoderACK_0700H_def split_beta Let_def split: bool.split option.split
      intro!: vlogin_with_dev)

lemma vlogin_isp [simp]: "vlogin (snd (Stuff_DataTrans_0900_ISP_ACK t v)) = vlogin v"
  by (auto simp: Stuff_DataTrans_0900_ISP_ACK_def split_beta Let_def split: bool.split option.split
      intro!: vlogin_with_dev)

lemma vlogin_index: "vlogin (fst (fold index_entry is vn)) = vlogin (fst vn)"
proof (rule fold_keeps [where g = "\<lambda>vn. vlogin (fst vn)"])
  show "vlogin (fst (index_entry i vn)) = vlogin (fst vn)" for i vn
    by (auto simp: index_entry_def Let_def on_dev_def split: option.splits)
qed

lemma vlogin_0802 [simp]: "vlogin (snd (Stuff_MultiMedia_IndexAck_0802H v)) = vlogin v"
  by (simp add: Stuff_MultiMedia_IndexAck_0802H_def split_beta Let_def vlogin_index split: bool.split)

lemma vlogin_branches: "list_all (\<lambda>b. vlogin (snd b v) = vlogin v) (branches img junk)"
  by (simp add: branches_def register_now_def common_ack_def isp_over_def ISP_file_Check_def DataTrans_Init_def Let_def)

lemma vlogin_position [simp]: "vlogin (snd (send_position v)) = vlogin v"
proof -
  have "login e = login d" if "Stuff_Normal_Data_0200H d = (b, e)" for b e d
    using login_positions(2) [of d] that by simp
  then show ?thesis
    by (auto simp: send_position_def Let_def split: prod.splits bool.splits)
qed

lemma vlogin_turn: "vlogin (snd (Do_SendGPSReport_GPRS img junk v)) = vlogin v"
proof -
  have branch: "vlogin w = vlogin u" if "first_branch (branches img junk) u = Some w" for u w
    using that vlogin_branches [of u img junk] by (auto simp: first_branch_Some list_all_length)
  have media: "vlogin w = vlogin v" if "with_dev send_media_data v = (b, w)" for b w
    using vlogin_with_dev [of send_media_data v] that by simp
  show ?thesis
    unfolding Do_SendGPSReport_GPRS_def
    by (auto split: prod.split bool.split option.split dest!: media branch)
qed

section \<open>Registration and login\<close>

definition Device_RegisterTimer :: "vehicle \<Rightarrow> vehicle" where
  "Device_RegisterTimer v =
     (if Regsiter_Status v = 0
      then let v = v\<lparr>Reg_Sd_counter := u8n (Reg_Sd_counter v + 1)\<rparr>
           in if Reg_Sd_counter v > 5
              then let v = v\<lparr>Reg_Sd_counter := 0, Reg_Enable_sd := 1, Reg_Sd_add := u8n (Reg_Sd_add v + 1)\<rparr>
                   in if Reg_Sd_add v > 3 then v\<lparr>DataLink_EndFlag := 1, Reg_Sd_add := 0\<rparr> else v
              else v
      else v)"

definition Device_LoginTimer :: "vehicle \<Rightarrow> vehicle" where
  "Device_LoginTimer v =
     (if DEV_Login_Operate_enable (dev v) = 1 \<and> Login_Sd_add v < 5 \<and> Regsiter_Status v = 1
      then let v = v\<lparr>Login_Sd_counter := u8n (Login_Sd_counter v + 1)\<rparr>
           in if Login_Sd_counter v > 5
              then let v = v\<lparr>Login_Sd_counter := 0, Login_Enable_sd := 1, Login_Sd_add := u8n (Login_Sd_add v + 1)\<rparr>
                   in if Login_Sd_add v > 3 then v\<lparr>DataLink_EndFlag := 1, Login_Sd_add := 0\<rparr> else v
              else v
      else v)"

text \<open>
  A session: the node with the counter of the heartbeat and what is written to the modem for a call.
\<close>

record session =
  nd :: node
  Heart_SDCnter :: nat
  gsm_out :: "bytes list"

abbreviation (input) sveh :: "session \<Rightarrow> vehicle" where "sveh s \<equiv> vehicle_of (nd s)"

definition on_sveh :: "(vehicle \<Rightarrow> vehicle) \<Rightarrow> session \<Rightarrow> session" where
  "on_sveh f s = s\<lparr>nd := on_vehicle f (nd s)\<rparr>"

text \<open>The counter has 16 bits, the interval 32.\<close>

definition SendMode_ConterProcess :: "session \<Rightarrow> session" where
  "SendMode_ConterProcess s =
     (let s = s\<lparr>Heart_SDCnter := u16 (Heart_SDCnter s + 1)\<rparr>
      in if Heart_SDCnter s > Heart_Dur (DURATION (app_of (nd s)))
         then on_sveh (\<lambda>v. v\<lparr>Heart_SDFlag := 1\<rparr>) (s\<lparr>Heart_SDCnter := 0\<rparr>)
         else s)"

text \<open>The part of the one second work of \<^verbatim>\<open>timeout_app\<close> that concerns the link.\<close>

definition link_second :: "session \<Rightarrow> session" where
  "link_second s =
     (if DataLink_OK (dev (sveh s))
      then SendMode_ConterProcess (on_sveh (\<lambda>v. Device_LoginTimer (Device_RegisterTimer v)) s)
      else s)"

text \<open>
  The part of a turn of \<^verbatim>\<open>App808_thread_entry\<close> that receives and sends: a received text with the number of its link, if there
  is one, is processed; then a message is sent, or else a call is started.
\<close>

definition app808_receive :: "layout \<Rightarrow> (nat \<times> bytes \<times> nat) option \<Rightarrow> session \<Rightarrow> session" where
  "app808_receive L r s =
     (case r of None \<Rightarrow> s | Some (link, info, len) \<Rightarrow> s\<lparr>nd := TCP_RX_Process L link info len (nd s)\<rparr>)"

definition app808_send :: "layout \<Rightarrow> bytes \<Rightarrow> session \<Rightarrow> session" where
  "app808_send L junk s =
     (let a = app_of (nd s)
      in if DataLink_OK (dev (veh a)) \<and> CallState a = 0
         then on_sveh (\<lambda>v. snd (Do_SendGPSReport_GPRS (\<lambda>v. jt_img (conf_img L) (a\<lparr>veh := v\<rparr>)) junk v)) s
         else if CallState a = 5
         then s\<lparr>nd := on_app (\<lambda>a. a\<lparr>CallState := 8\<rparr>) (nd s),
                gsm_out := gsm_out s @ [ascii ''ATD'' @ cstr (LISTEN_Num (veh a)) @ [0x3B, 0x0D, 0x0A]]\<rparr>
         else s)"

definition app808_turn :: "layout \<Rightarrow> bytes \<Rightarrow> (nat \<times> bytes \<times> nat) option \<Rightarrow> session \<Rightarrow> session" where
  "app808_turn L junk r s = app808_send L junk (app808_receive L r s)"

text \<open>
  The modem reports of \<^verbatim>\<open>GSM_Process\<close> that change the session: a connection of the main or second link is up, one
  connection is closed, all are closed.
\<close>

definition link_connected :: "session \<Rightarrow> session" where
  "link_connected =
     on_sveh (\<lambda>v. on_dev (\<lambda>d. d\<lparr>DataLink_OK := True\<rparr>)
       (if Regsiter_Status v = 1 then on_dev (\<lambda>d. d\<lparr>DEV_Login_Operate_enable := 1\<rparr>) v else v))"

definition link_down :: "session \<Rightarrow> session" where
  "link_down s =
     s\<lparr>nd := on_app (\<lambda>a. (on_device (\<lambda>d. d\<lparr>DataLink_OK := False\<rparr>) a)\<lparr>ModuleStatus := ModuleStatus a AND NOT Status_GPRS\<rparr>) (nd s)\<rparr>"

definition link_closed :: "session \<Rightarrow> session" where
  "link_closed s =
     (let s = link_down s
      in if CallState (app_of (nd s)) = 0
         then (on_sveh (\<lambda>v. (on_dev (\<lambda>d. d\<lparr>DEV_Login_Operate_enable := 1\<rparr>) v)\<lparr>DataLink_EndFlag := 1\<rparr>) s)
                \<lparr>gsm_out := gsm_out s @ [ascii ''ATH'' @ [0x0D, 0x0A]]\<rparr>
         else s)"

section \<open>Sessions as sequences of events\<close>

datatype session_event =
  Second
| Receive nat bytes nat
| Send
| Connected
| Closed
| Down

inductive session_step :: "layout \<Rightarrow> session \<Rightarrow> session_event \<Rightarrow> session \<Rightarrow> bool" for L where
  second: "session_step L s Second (link_second s)"
| receive: "session_step L s (Receive link info len) (app808_receive L (Some (link, info, len)) s)"
| sending: "session_step L s Send (app808_send L junk s)"
| connected: "session_step L s Connected (link_connected s)"
| closed: "session_step L s Closed (link_closed s)"
| down: "session_step L s Down (link_down s)"

inductive session_run :: "layout \<Rightarrow> session \<Rightarrow> session_event list \<Rightarrow> session \<Rightarrow> bool" for L where
  run_nil: "session_run L s [] s"
| run_snoc: "session_run L s es s' \<Longrightarrow> session_step L s' e s'' \<Longrightarrow> session_run L s (es @ [e]) s''"

inductive_cases session_stepE: "session_step L s e s'"

text \<open>The message that completes the login.\<close>

definition login_accepted :: "bytes \<Rightarrow> nat \<Rightarrow> bool" where
  "login_accepted f n =
     (case TCP_RX_check f n of
        None \<Rightarrow> False
      | Some r \<Rightarrow> rx_CmdID r = 0x8001 \<and> of_be16 (rx_buf r ! 15) (rx_buf r ! 16) = 0x0102 \<and> rx_buf r ! 17 = 0)"

abbreviation (input) slogin :: "session \<Rightarrow> nat" where "slogin s \<equiv> vlogin (sveh s)"

lemma login_timers [simp]: "dev (Device_RegisterTimer v) = dev v" "dev (Device_LoginTimer v) = dev v"
  by (simp_all add: Device_RegisterTimer_def Device_LoginTimer_def Let_def)

lemma sveh_on_sveh [simp]: "sveh (on_sveh f s) = f (sveh s)"
  by (simp add: on_sveh_def on_vehicle_def on_app_def on_stn_def on_core_def on_veh_def)

lemma dev_second [simp]: "dev (sveh (link_second s)) = dev (sveh s)"
  by (simp add: link_second_def SendMode_ConterProcess_def Let_def)

lemma login_noted [simp]: "login (dvc (noted cmd float x)) = login (dvc x)"
  by (simp add: noted_def on_app_def on_stn_def on_core_def on_ans_def on_device_def on_veh_def on_dev_def)

lemma login_received:
  assumes "login (dvc (TCP_RX_Process L link f n x)) = 2" and "login (dvc x) \<noteq> 2"
  shows "login_accepted f n"
proof (cases "TCP_RX_check f n")
  case None
  then show ?thesis
    using assms by (auto simp: TCP_RX_Process_def Let_def on_app_def on_stn_def on_core_def on_ans_def on_device_def on_veh_def
        on_dev_def split: if_splits)
next
  case (Some r)
  let ?x = "noted (rx_CmdID r) (rx_FloatID r) x"
  have l: "login (dvc (TCP_RX_command L link (rx_CmdID r) (rx_buf r) (rx_infolen r) ?x)) = 2"
    using assms(1) by (simp add: TCP_RX_Process_intact [OF Some])
  have x: "login (dvc ?x) \<noteq> 2" using assms(2) by simp
  consider "rx_CmdID r = 0x8001" | "rx_CmdID r = 0x8100" | "rx_CmdID r \<noteq> 0x8001" "rx_CmdID r \<noteq> 0x8100" by blast
  then show ?thesis
  proof cases
    case 1
    then have "login (dev (veh (TCP_RX_8001 (conf_img L) (rx_buf r) (app_of ?x)))) = 2"
      using l by (simp add: TCP_RX_command_def on_app_def on_stn_def on_core_def)
    with x 1 Some show ?thesis by (auto simp: login_8001 login_accepted_def split: if_splits)
  next
    case 2
    then have "login (dev (veh (TCP_RX_8100 (conf_img L) (rx_buf r) (rx_infolen r) (app_of ?x)))) = 2"
      using l by (simp add: TCP_RX_command_def on_app_def on_stn_def on_core_def)
    with login_8100 [of "conf_img L" "rx_buf r" "rx_infolen r" "app_of ?x"] x show ?thesis by auto
  next
    case 3
    from view_command [OF this, of L link "rx_buf r" "rx_infolen r" ?x] l x show ?thesis
      by (simp add: session_view_def)
  qed
qed

lemma login_step:
  assumes "session_step L s e s'" and "slogin s' = 2" and "slogin s \<noteq> 2"
  shows "\<exists>link f n. e = Receive link f n \<and> login_accepted f n"
  using assms(1)
proof (rule session_stepE)
  fix link info len
  assume "e = Receive link info len" and "s' = app808_receive L (Some (link, info, len)) s"
  with assms(2,3) login_received [of L link info len "nd s"] show ?thesis
    by (simp add: app808_receive_def)
next
  fix junk
  assume "s' = app808_send L junk s"
  with assms(2,3) show ?thesis
    by (auto simp: app808_send_def Let_def vlogin_turn on_app_def on_stn_def on_core_def split: if_splits)
next
  assume "s' = link_connected s"
  with assms(2,3) show ?thesis by (auto simp: link_connected_def on_dev_def split: if_splits)
next
  assume "s' = link_closed s"
  with assms(2,3) show ?thesis
    by (auto simp: link_closed_def link_down_def Let_def on_dev_def on_app_def on_stn_def on_core_def on_device_def on_veh_def
        split: if_splits)
next
  assume "s' = link_down s"
  with assms(2,3) show ?thesis
    by (auto simp: link_down_def on_dev_def on_app_def on_stn_def on_core_def on_device_def on_veh_def)
qed (use assms(2,3) in simp)

text \<open>
  (C3) The terminal is logged in only after the centre accepted it: in every sequence of seconds, received texts, sending
  turns and changes of the link that leads from a state without login to one with login, some received text was the
  centre's general answer to message 0102H with result 0, intact.
\<close>

theorem login_only_if_accepted:
  assumes "session_run L s es s'" and "DEV_Login_Operate_enable (dev (sveh s)) \<noteq> 2"
    and "DEV_Login_Operate_enable (dev (sveh s')) = 2"
  shows "\<exists>link f n. Receive link f n \<in> set es \<and> login_accepted f n"
  using assms
proof (induction rule: session_run.induct)
  case (run_nil s)
  then show ?case by simp
next
  case (run_snoc s es s' e s'')
  show ?case
  proof (cases "slogin s' = 2")
    case True
    with run_snoc show ?thesis by auto
  next
    case False
    with login_step [OF run_snoc.hyps(2)] run_snoc.prems(2) show ?thesis by auto
  qed
qed

section \<open>The timers\<close>

text \<open>
  Both timers do the same with their counter of seconds, the request to send, the number of tries and the flag that ends the link.
\<close>

fun try_tick :: "nat \<times> nat \<times> nat \<times> nat \<Rightarrow> nat \<times> nat \<times> nat \<times> nat" where
  "try_tick (c, e, n, f) =
     (if u8n (c + 1) > 5 then if u8n (n + 1) > 3 then (0, 1, 0, 1) else (0, 1, u8n (n + 1), f) else (u8n (c + 1), e, n, f))"

definition reg_view :: "vehicle \<Rightarrow> nat \<times> nat \<times> nat \<times> nat" where
  "reg_view v = (Reg_Sd_counter v, Reg_Enable_sd v, Reg_Sd_add v, DataLink_EndFlag v)"

definition login_view :: "vehicle \<Rightarrow> nat \<times> nat \<times> nat \<times> nat" where
  "login_view v = (Login_Sd_counter v, Login_Enable_sd v, Login_Sd_add v, DataLink_EndFlag v)"

lemma login_tick:
  "vlogin v = 1 \<Longrightarrow> Regsiter_Status v = 1 \<Longrightarrow> Login_Sd_add v < 5 \<Longrightarrow>
   login_view (Device_LoginTimer v) = try_tick (login_view v) \<and> Regsiter_Status (Device_LoginTimer v) = 1 \<and>
   Login_Sd_add (Device_LoginTimer v) < 5"
  by (auto simp: login_view_def Device_LoginTimer_def Let_def)

lemma try_ticks:
  "k < 24 \<Longrightarrow> (try_tick ^^ k) (0, e, 0, f) = (k mod 6, if 6 \<le> k then 1 else e, k div 6, f)"
proof (induction k)
  case (Suc k)
  then have k: "k div 6 < 4" "k mod 6 < 6" by simp_all
  show ?case
  proof (cases "k mod 6 = 5")
    case True
    then have "Suc k mod 6 = 0" "Suc k div 6 = Suc (k div 6)" by (simp_all add: mod_Suc div_Suc)
    moreover have "6 \<le> Suc k" "k div 6 < 3" using True Suc.prems by presburger+
    ultimately show ?thesis using Suc True by (simp add: u8n_small)
  next
    case False
    then have "Suc k mod 6 = Suc (k mod 6)" "Suc k div 6 = k div 6" using k(2) by (simp_all add: mod_Suc div_Suc)
    moreover have "6 \<le> Suc k \<longleftrightarrow> 6 \<le> k" using False by presburger
    ultimately show ?thesis using Suc False k by (simp add: u8n_small)
  qed
qed simp

lemma try_ticks_24: "(try_tick ^^ 24) (0, e, 0, f) = (0, 1, 0, 1)"
proof -
  have "(try_tick ^^ 24) (0, e, 0, f) = try_tick ((try_tick ^^ 23) (0, e, 0, f))"
    by (simp add: eval_nat_numeral)
  then show ?thesis by (simp add: try_ticks u8n_small)
qed

locale retry_timer =
  fixes tick :: "'a \<Rightarrow> 'a" and view :: "'a \<Rightarrow> nat \<times> nat \<times> nat \<times> nat" and ready :: "'a \<Rightarrow> bool"
  assumes tick_view: "ready v \<Longrightarrow> view (tick v) = try_tick (view v)"
    and tick_ready: "ready v \<Longrightarrow> ready (tick v)"
begin

lemma ticks: "ready v \<Longrightarrow> view ((tick ^^ k) v) = (try_tick ^^ k) (view v) \<and> ready ((tick ^^ k) v)"
  by (induction k) (simp_all add: tick_view tick_ready)

lemma tries: "ready v \<Longrightarrow> view v = (0, e, 0, f) \<Longrightarrow> k < 24 \<Longrightarrow>
  view ((tick ^^ k) v) = (k mod 6, if 6 \<le> k then 1 else e, k div 6, f)"
  using ticks [of v k] try_ticks [of k e f] by simp

lemma given_up: "ready v \<Longrightarrow> view v = (0, e, 0, f) \<Longrightarrow> view ((tick ^^ 24) v) = (0, 1, 0, 1)"
  using ticks [of v 24] try_ticks_24 [of e f] by simp

end

interpretation reg_timer: retry_timer Device_RegisterTimer reg_view "\<lambda>v. Regsiter_Status v = 0"
  by unfold_locales (simp_all add: reg_view_def Device_RegisterTimer_def Let_def)

interpretation log_timer: retry_timer Device_LoginTimer login_view
  "\<lambda>v. vlogin v = 1 \<and> Regsiter_Status v = 1 \<and> Login_Sd_add v < 5"
  using login_tick by unfold_locales simp_all

text \<open>
  (C26) An unanswered registration or login is given up after 24 seconds: every sixth second it is requested again, and with
  the fourth request, not the third as the messages of the code say, the flag that ends the link is set; before that the
  flag is left as it was.
\<close>

theorem link_given_up_after_four_tries:
  assumes "Regsiter_Status v = 0" and "Reg_Sd_counter v = 0" and "Reg_Sd_add v = 0"
    and "DEV_Login_Operate_enable (dev w) = 1" and "Regsiter_Status w = 1" and "Login_Sd_counter w = 0" and "Login_Sd_add w = 0"
    and "k < 24"
  shows "DataLink_EndFlag ((Device_RegisterTimer ^^ 24) v) = 1 \<and> DataLink_EndFlag ((Device_RegisterTimer ^^ k) v) = DataLink_EndFlag v \<and>
    Reg_Sd_add ((Device_RegisterTimer ^^ k) v) = k div 6 \<and>
    DataLink_EndFlag ((Device_LoginTimer ^^ 24) w) = 1 \<and> DataLink_EndFlag ((Device_LoginTimer ^^ k) w) = DataLink_EndFlag w \<and>
    Login_Sd_add ((Device_LoginTimer ^^ k) w) = k div 6"
proof -
  have ready: "vlogin w = 1 \<and> Regsiter_Status w = 1 \<and> Login_Sd_add w < 5" using assms(4,5,7) by simp
  have rv: "reg_view v = (0, Reg_Enable_sd v, 0, DataLink_EndFlag v)" using assms(2,3) by (simp add: reg_view_def)
  have lv: "login_view w = (0, Login_Enable_sd w, 0, DataLink_EndFlag w)" using assms(6,7) by (simp add: login_view_def)
  show ?thesis
    using reg_timer.given_up [OF assms(1) rv] reg_timer.tries [OF assms(1) rv assms(8)]
      log_timer.given_up [OF ready lv] log_timer.tries [OF ready lv assms(8)]
    unfolding reg_view_def login_view_def by simp
qed

theorem link_given_up_after_four_tries_witness:
  "DataLink_EndFlag ((Device_RegisterTimer ^^ 24) idle_vehicle) = 1 \<and> DataLink_EndFlag ((Device_RegisterTimer ^^ 18) idle_vehicle) = 0"
  using link_given_up_after_four_tries [of idle_vehicle
      "idle_vehicle\<lparr>dev := (idle_device blank_store)\<lparr>DEV_Login_Operate_enable := 1\<rparr>, Regsiter_Status := 1\<rparr>" 18]
  by (simp add: idle_vehicle_def)

text \<open>The heartbeat.\<close>

abbreviation (input) heart_dur :: "session \<Rightarrow> nat" where "heart_dur s \<equiv> Heart_Dur (DURATION (app_of (nd s)))"

lemma heart_tick:
  "heart_dur (SendMode_ConterProcess s) = heart_dur s"
  by (simp add: SendMode_ConterProcess_def Let_def on_sveh_def on_vehicle_def on_app_def on_stn_def on_core_def on_veh_def)

lemma heart_ticks:
  assumes "Heart_SDCnter s = 0" and "k \<le> heart_dur s" and "k < 65536"
  shows "(SendMode_ConterProcess ^^ k) s = s\<lparr>Heart_SDCnter := k\<rparr>"
  using assms(2,3)
proof (induction k)
  case 0
  show ?case using assms(1) by simp
next
  case (Suc k)
  then show ?case by (simp add: SendMode_ConterProcess_def u16_small)
qed

lemma heart_never:
  assumes "65535 \<le> heart_dur s"
  shows "\<exists>c. (SendMode_ConterProcess ^^ k) s = s\<lparr>Heart_SDCnter := c\<rparr>"
proof (induction k)
  case 0
  show ?case by (rule exI [of _ "Heart_SDCnter s"]) simp
next
  case (Suc k)
  then obtain c where "(SendMode_ConterProcess ^^ k) s = s\<lparr>Heart_SDCnter := c\<rparr>" by blast
  moreover have "u16 (c + 1) < 65536" by (simp add: u16_def)
  then have "SendMode_ConterProcess (s\<lparr>Heart_SDCnter := c\<rparr>) = s\<lparr>Heart_SDCnter := u16 (c + 1)\<rparr>"
    using assms by (simp add: SendMode_ConterProcess_def)
  ultimately have "(SendMode_ConterProcess ^^ Suc k) s = s\<lparr>Heart_SDCnter := u16 (c + 1)\<rparr>" by simp
  then show ?case by blast
qed

text \<open>
  The heartbeat: with an interval below 65535 seconds the heartbeat is requested one second after the interval
  has passed and not before; with a longer interval, which the centre may set, it is never requested, because the counter of
  seconds has 16 bits.
\<close>

theorem heartbeat_due:
  assumes "Heart_SDCnter s = 0"
  shows "if Heart_Dur (DURATION (app_of (nd s))) < 65535
    then Heart_SDFlag (sveh ((SendMode_ConterProcess ^^ (Heart_Dur (DURATION (app_of (nd s))) + 1)) s)) = 1 \<and>
      (\<forall>k \<le> Heart_Dur (DURATION (app_of (nd s))). Heart_SDFlag (sveh ((SendMode_ConterProcess ^^ k) s)) = Heart_SDFlag (sveh s))
    else \<forall>k. Heart_SDFlag (sveh ((SendMode_ConterProcess ^^ k) s)) = Heart_SDFlag (sveh s)"
proof (cases "heart_dur s < 65535")
  case True
  then have "(SendMode_ConterProcess ^^ heart_dur s) s = s\<lparr>Heart_SDCnter := heart_dur s\<rparr>"
    using heart_ticks [OF assms, of "heart_dur s"] by simp
  then have "Heart_SDFlag (sveh ((SendMode_ConterProcess ^^ (heart_dur s + 1)) s)) = 1"
    using True by simp (simp add: SendMode_ConterProcess_def u16_small Let_def)
  moreover have "Heart_SDFlag (sveh ((SendMode_ConterProcess ^^ k) s)) = Heart_SDFlag (sveh s)" if "k \<le> heart_dur s" for k
    using heart_ticks [OF assms that] True that by simp
  ultimately show ?thesis using True by simp
next
  case False
  have "Heart_SDFlag (sveh ((SendMode_ConterProcess ^^ k) s)) = Heart_SDFlag (sveh s)" for k
    using heart_never [of s k] False by auto
  with False show ?thesis by simp
qed

text \<open>A session at rest, and one with a long interval of the heartbeat.\<close>

definition new_session :: session where
  "new_session = \<lparr>nd = new_node, Heart_SDCnter = 0, gsm_out = []\<rparr>"

definition slow_session :: session where
  "slow_session = new_session\<lparr>nd := on_app (\<lambda>a. a\<lparr>DURATION := (DURATION a)\<lparr>Heart_Dur := 86400\<rparr>\<rparr>) new_node\<rparr>"

lemmas new_session_defs = new_session_def new_node_def new_station_defs

theorem heartbeat_due_witness:
  "Heart_SDFlag (sveh (SendMode_ConterProcess new_session)) = 1 \<and>
   Heart_SDFlag (sveh ((SendMode_ConterProcess ^^ 1000000) slow_session)) = 0"
proof -
  have n: "Heart_SDCnter new_session = 0" "heart_dur new_session = 0" by (simp_all add: new_session_defs)
  have "Heart_SDCnter slow_session = 0" "heart_dur slow_session = 86400" "Heart_SDFlag (sveh slow_session) = 0"
    by (simp_all add: slow_session_def on_app_def on_stn_def on_core_def new_session_defs)
  with heartbeat_due [of slow_session] heartbeat_due [of new_session] n show ?thesis by simp
qed

section \<open>From registration to login\<close>

text \<open>The answer to the registration: an intact message 8100H with result 0 and a code.\<close>

definition registration_accepted :: "bytes \<Rightarrow> nat \<Rightarrow> bytes \<Rightarrow> bool" where
  "registration_accepted f n code =
     (case TCP_RX_check f n of
        None \<Rightarrow> False
      | Some r \<Rightarrow> rx_CmdID r = 0x8100 \<and> rx_buf r ! 15 = 0 \<and> rx_infolen r = length code + 3 \<and>
          take (length code) (drop 16 (rx_buf r)) = code)"

lemma registered:
  assumes "registration_accepted f n code"
  shows "let v = sveh s; v' = sveh (app808_receive L (Some (link, f, n)) s)
    in vlogin v' = 1 \<and> Regsiter_Status v' = 1 \<and> ConfirmCode (terminal (dev v')) = Settings808.cleared 20 code \<and>
       SIM_code (terminal (dev v')) = SIM_code (terminal (dev v)) \<and> tx (dev v') = tx (dev v) \<and>
       Msg_Float_ID (dev v') = Msg_Float_ID (dev v) \<and>
       DataLink_OK (dev v') = DataLink_OK (dev v) \<and> login_view v' = login_view v \<and>
       CallState (app_of (nd (app808_receive L (Some (link, f, n)) s))) = CallState (app_of (nd s))"
proof -
  obtain r where r: "TCP_RX_check f n = Some r" "rx_CmdID r = 0x8100" "rx_buf r ! 15 = 0" "rx_infolen r = length code + 3"
      "take (length code) (drop 16 (rx_buf r)) = code"
    using assms by (auto simp: registration_accepted_def split: option.splits)
  show ?thesis
    unfolding app808_receive_def
    by (simp add: r TCP_RX_Process_intact [OF r(1)] TCP_RX_command_def TCP_RX_8100_def Let_def noted_def login_view_def
        save_jt_def on_store_def on_term_def on_app_def on_stn_def on_core_def on_ans_def on_device_def on_veh_def on_dev_def)
qed

lemma second_login:
  assumes "DataLink_OK (dev (sveh s))" and "Regsiter_Status (sveh s) = 1"
  shows "login_view (sveh (link_second s)) = login_view (Device_LoginTimer (sveh s))"
    and "Regsiter_Status (sveh (link_second s)) = Regsiter_Status (Device_LoginTimer (sveh s))"
    and "CallState (app_of (nd (link_second s))) = CallState (app_of (nd s))"
  using assms
  by (auto simp: link_second_def SendMode_ConterProcess_def Device_RegisterTimer_def login_view_def Let_def on_sveh_def on_vehicle_def
      on_app_def on_stn_def on_core_def on_veh_def)

lemma seconds_login:
  assumes "DataLink_OK (dev (sveh s))" and "vlogin (sveh s) = 1" and "Regsiter_Status (sveh s) = 1" and "Login_Sd_add (sveh s) < 5"
  shows "let s' = (link_second ^^ k) s
    in login_view (sveh s') = (try_tick ^^ k) (login_view (sveh s)) \<and> dev (sveh s') = dev (sveh s) \<and>
       Regsiter_Status (sveh s') = 1 \<and> Login_Sd_add (sveh s') < 5 \<and> CallState (app_of (nd s')) = CallState (app_of (nd s))"
proof (induction k)
  case (Suc k)
  let ?s = "(link_second ^^ k) s"
  have d: "DataLink_OK (dev (sveh ?s))" "vlogin (sveh ?s) = 1" "Regsiter_Status (sveh ?s) = 1" "Login_Sd_add (sveh ?s) < 5"
    using Suc assms by (simp_all add: Let_def)
  note n = second_login [OF d(1,3)] and t = login_tick [OF d(2-4)]
  have "Login_Sd_add (sveh (link_second ?s)) = Login_Sd_add (Device_LoginTimer (sveh ?s))"
    using n(1) by (simp add: login_view_def)
  with Suc n t show ?case by (simp add: Let_def)
qed (use assms in simp)

lemma login_completed:
  assumes "login_accepted f n"
  shows "vlogin (sveh (app808_receive L (Some (link, f, n)) s)) = 2"
proof -
  obtain r where r: "TCP_RX_check f n = Some r" "rx_CmdID r = 0x8001" "of_be16 (rx_buf r ! 15) (rx_buf r ! 16) = 0x0102"
      "rx_buf r ! 17 = 0"
    using assms by (auto simp: login_accepted_def split: option.splits)
  have "sveh (app808_receive L (Some (link, f, n)) s) =
      veh (TCP_RX_8001 (conf_img L) (rx_buf r) (app_of (noted (rx_CmdID r) (rx_FloatID r) (nd s))))"
    using r(2) by (simp add: app808_receive_def TCP_RX_Process_intact [OF r(1)] TCP_RX_command_def on_app_def on_stn_def on_core_def)
  then show ?thesis using r by (simp add: login_8001)
qed

lemma login_sent:
  assumes "DataLink_OK (dev (sveh s))" and "CallState (app_of (nd s)) = 0" and "vlogin (sveh s) \<noteq> 2"
    and "Login_Enable_sd (sveh s) = 1"
  shows "dev (sveh (app808_send L junk s)) = snd (Stuff_DevLogin_0102H (dev (sveh s)))"
  using assms by (simp add: app808_send_def Do_SendGPSReport_GPRS_def with_dev_def)

text \<open>
  (C11) An accepted registration leads to the login: when the centre's answer with a code of at most 19 characters arrives on a
  link that is up, then after six seconds the next sending turn sends the login message with exactly this code,
  and the centre's answer to it with result 0 completes the login.
\<close>

theorem registration_leads_to_login:
  assumes "registration_accepted f n code" and "0 \<notin> set code" and "length code < 20" and "login_accepted f' n'"
    and "DataLink_OK (dev (sveh s))" and "CallState (app_of (nd s)) = 0"
    and "Login_Sd_counter (sveh s) = 0" and "Login_Sd_add (sveh s) = 0"
    and "length (SIM_code (terminal (dev (sveh s)))) = 6" and "Msg_Float_ID (dev (sveh s)) < 65536"
    and "s' = app808_send L junk ((link_second ^^ 6) (app808_receive L (Some (link, f, n)) s))"
  shows "\<exists>g buf. tx (dev (sveh s')) = tx (dev (sveh s)) @ [(g, 0)] \<and>
    TCP_RX_check g (length g) = Some \<lparr>rx_buf = buf, rx_len = length code + 15, rx_CmdID = 0x0102,
      rx_FloatID = Msg_Float_ID (dev (sveh s)), rx_infolen = length code\<rparr> \<and>
    drop 13 (take (length code + 13) buf) = code \<and>
    DEV_Login_Operate_enable (dev (sveh (app808_receive L (Some (link', f', n')) s'))) = 2"
proof -
  let ?r = "app808_receive L (Some (link, f, n)) s"
  let ?s = "(link_second ^^ 6) ?r"
  have r: "vlogin (sveh ?r) = 1" "Regsiter_Status (sveh ?r) = 1" "ConfirmCode (terminal (dev (sveh ?r))) = Settings808.cleared 20 code"
    "SIM_code (terminal (dev (sveh ?r))) = SIM_code (terminal (dev (sveh s)))" "tx (dev (sveh ?r)) = tx (dev (sveh s))"
    "Msg_Float_ID (dev (sveh ?r)) = Msg_Float_ID (dev (sveh s))" "DataLink_OK (dev (sveh ?r))"
    "login_view (sveh ?r) = login_view (sveh s)" "CallState (app_of (nd ?r)) = 0"
    using registered [OF assms(1), of s L link] assms(5,6) by (simp_all add: Let_def)
  have "Login_Sd_add (sveh ?r) < 5" using r(8) assms(8) by (simp add: login_view_def)
  from seconds_login [OF r(7,1,2) this, of 6]
  have w: "login_view (sveh ?s) = (try_tick ^^ 6) (login_view (sveh ?r))" "dev (sveh ?s) = dev (sveh ?r)"
    "CallState (app_of (nd ?s)) = 0"
    using r(9) by (simp_all only: Let_def)
  have "login_view (sveh ?r) = (0, Login_Enable_sd (sveh s), 0, DataLink_EndFlag (sveh s))"
    using r(8) assms(7,8) by (simp add: login_view_def)
  then have "Login_Enable_sd (sveh ?s) = 1" using w(1) by (simp only: try_ticks) (simp add: login_view_def)
  then have d: "dev (sveh s') = snd (Stuff_DevLogin_0102H (dev (sveh ?r)))"
    using login_sent [of ?s L junk] r(1,7) w(2,3) by (simp add: assms(11))
  have "takeWhile (\<lambda>b. b \<noteq> 0) (Settings808.cleared 20 code) = code"
    using assms(2,3) by (cases "20 - length code") (auto simp: Settings808.cleared_def takeWhile_append takeWhile_eq_all_conv)
  then obtain d' g buf where "Stuff_DevLogin_0102H (dev (sveh ?r)) = (True, d')" "tx d' = tx (dev (sveh ?r)) @ [(g, 0)]"
    "TCP_RX_check g (length g) = Some \<lparr>rx_buf = buf, rx_len = length code + 15, rx_CmdID = 0x0102,
      rx_FloatID = Msg_Float_ID (dev (sveh ?r)), rx_infolen = length code\<rparr>" "drop 13 (take (length code + 13) buf) = code"
    unfolding Stuff_DevLogin_0102H_def
    using stuff_accepted [of "dev (sveh ?r)" code "0x0102"
        "\<lambda>d. put (takeWhile (\<lambda>b. b \<noteq> 0) (ConfirmCode (terminal d))) d" 0] r assms(3,9,10) by auto
  with d r(5,6) login_completed [OF assms(4), of L link' s'] show ?thesis by auto
qed

text \<open>The frames of the centre that these results speak of.\<close>

lemma frame_body:
  assumes "length sim = 6" and "mid < 65536" and "fid < 65536" and "length c = n" and "n < 1024"
    and "f = frame808 (head808 mid n sim fid @ c)"
  shows "\<exists>buf. TCP_RX_check f (length f) = Some \<lparr>rx_buf = buf, rx_len = n + 15, rx_CmdID = mid, rx_FloatID = fid, rx_infolen = n\<rparr> \<and>
    (\<forall>k < n. buf ! (13 + k) = c ! k) \<and> (\<forall>k \<le> n. take (n - k) (drop (13 + k) buf) = drop k c)"
proof -
  have l: "length c < 1024" using assms(4,5) by simp
  obtain buf where b: "TCP_RX_check f (length f) = Some \<lparr>rx_buf = buf, rx_len = n + 15, rx_CmdID = mid, rx_FloatID = fid, rx_infolen = n\<rparr>"
    "drop 13 (take (n + 13) buf) = c"
    using head808_accepted [OF assms(1-3) l, unfolded assms(4), OF assms(6)] by blast
  have c: "take n (drop 13 buf) = c" using b(2) by (simp add: take_drop add.commute)
  have "length (take n (drop 13 buf)) = n" using c assms(4) by simp
  then have len: "13 + k < length buf" if "k < n" for k using that by (simp add: min_def split: if_splits)
  have "buf ! (13 + k) = c ! k" if "k < n" for k
  proof -
    have "buf ! (13 + k) = take n (drop 13 buf) ! k" using that len [OF that] by simp
    then show ?thesis by (simp add: c)
  qed
  moreover have "take (n - k) (drop (13 + k) buf) = drop k c" for k
    unfolding c [symmetric] by (simp add: drop_take add.commute)
  ultimately show ?thesis using b(1) by blast
qed

lemma login_accepted_frame:
  assumes "length sim = 6" and "fid < 65536" and "f = frame808 (head808 0x8001 5 sim fid @ [a, b, 0x01, 0x02, 0])"
  shows "login_accepted f (length f)"
proof -
  obtain buf where chk: "TCP_RX_check f (length f) = Some \<lparr>rx_buf = buf, rx_len = 5 + 15, rx_CmdID = 0x8001, rx_FloatID = fid,
      rx_infolen = 5\<rparr>" and "\<forall>k < 5. buf ! (13 + k) = [a, b, 0x01, 0x02, 0] ! k"
    using frame_body [OF assms(1) _ assms(2) _ _ assms(3)] by auto
  from this(2) [rule_format, of 2] this(2) [rule_format, of 3] this(2) [rule_format, of 4] chk show ?thesis
    by (simp add: login_accepted_def of_be16_def)
qed

lemma registration_accepted_frame:
  assumes "length sim = 6" and "fid < 65536" and "length code = n" and "n < 1000"
    and "f = frame808 (head808 0x8100 (n + 3) sim fid @ [a, b, 0] @ code)"
  shows "registration_accepted f (length f) code"
proof -
  obtain buf where chk: "TCP_RX_check f (length f) = Some \<lparr>rx_buf = buf, rx_len = n + 3 + 15, rx_CmdID = 0x8100, rx_FloatID = fid,
      rx_infolen = n + 3\<rparr>" and at: "\<forall>k < n + 3. buf ! (13 + k) = ([a, b, 0] @ code) ! k"
      and tail: "\<forall>k \<le> n + 3. take (n + 3 - k) (drop (13 + k) buf) = drop k ([a, b, 0] @ code)"
    using frame_body [OF assms(1) _ assms(2) _ _ assms(5)] assms(3,4) by auto
  from at [rule_format, of 2] tail [rule_format, of 3] chk assms(3) show ?thesis
    by (simp add: registration_accepted_def)
qed

theorem login_only_if_accepted_witness:
  "\<exists>link f n. Receive link f n \<in> set [Second, Receive 0 (frame808 (head808 0x8001 5 (replicate 6 0) 1 @ [0, 0, 0x01, 0x02, 0]))
     (length (frame808 (head808 0x8001 5 (replicate 6 0) 1 @ [0, 0, 0x01, 0x02, 0 :: u8])))] \<and> login_accepted f n"
proof -
  let ?f = "frame808 (head808 0x8001 5 (replicate 6 0) 1 @ [0, 0, 0x01, 0x02, 0 :: u8])"
  let ?s = "app808_receive no_layout (Some (0, ?f, length ?f)) (link_second new_session)"
  have "session_run no_layout new_session ([] @ [Second]) (link_second new_session)"
    by (rule run_snoc [OF run_nil second])
  then have run: "session_run no_layout new_session (([] @ [Second]) @ [Receive 0 ?f (length ?f)]) ?s"
    by (rule run_snoc [OF _ receive])
  have "DEV_Login_Operate_enable (dev (sveh ?s)) = 2"
    by (intro login_completed login_accepted_frame [of "replicate 6 0" 1 _ 0 0]) simp_all
  moreover have "DEV_Login_Operate_enable (dev (sveh new_session)) \<noteq> 2" by (simp add: new_session_defs)
  ultimately show ?thesis using login_only_if_accepted [OF run] by simp
qed

theorem registration_leads_to_login_witness:
  "\<exists>s s' g buf. s = on_sveh (on_dev (\<lambda>d. d\<lparr>DataLink_OK := True\<rparr>)) new_session \<and>
     s' = app808_send no_layout [] ((link_second ^^ 6) (app808_receive no_layout
       (Some (0, frame808 (head808 0x8100 5 (replicate 6 0) 1 @ [0, 0, 0, 0x31, 0x32]),
          length (frame808 (head808 0x8100 5 (replicate 6 0) 1 @ [0, 0, 0, 0x31, 0x32 :: u8])))) s)) \<and>
     tx (dev (sveh s')) = [(g, 0)] \<and>
     TCP_RX_check g (length g) = Some \<lparr>rx_buf = buf, rx_len = 17, rx_CmdID = 0x0102, rx_FloatID = 0, rx_infolen = 2\<rparr> \<and>
     drop 13 (take 15 buf) = [0x31, 0x32]"
proof -
  let ?f = "frame808 (head808 0x8100 5 (replicate 6 0) 1 @ [0, 0, 0, 0x31, 0x32 :: u8])"
  let ?g = "frame808 (head808 0x8001 5 (replicate 6 0) 1 @ [0, 0, 0x01, 0x02, 0 :: u8])"
  let ?s = "on_sveh (on_dev (\<lambda>d. d\<lparr>DataLink_OK := True\<rparr>)) new_session"
  have v: "sveh ?s = on_dev (\<lambda>d. d\<lparr>DataLink_OK := True\<rparr>) (sveh new_session)" by simp
  have "registration_accepted ?f (length ?f) [0x31, 0x32]"
    by (rule registration_accepted_frame [of "replicate 6 0" 1 _ 2 _ 0 0]) simp_all
  moreover have "login_accepted ?g (length ?g)" by (rule login_accepted_frame [of "replicate 6 0" 1 _ 0 0]) simp_all
  moreover have "CallState (app_of (nd ?s)) = 0"
    by (simp add: on_sveh_def on_vehicle_def on_app_def on_stn_def on_core_def on_veh_def new_session_defs)
  moreover have "DataLink_OK (dev (sveh ?s))" "Login_Sd_counter (sveh ?s) = 0" "Login_Sd_add (sveh ?s) = 0"
    "length (SIM_code (terminal (dev (sveh ?s)))) = 6" "Msg_Float_ID (dev (sveh ?s)) = 0" "tx (dev (sveh ?s)) = []"
    unfolding v by (simp_all add: on_dev_def new_session_defs)
  ultimately show ?thesis
    using registration_leads_to_login [of ?f "length ?f" "[0x31, 0x32]" ?g "length ?g" ?s
        "app808_send no_layout [] ((link_second ^^ 6) (app808_receive no_layout (Some (0, ?f, length ?f)) ?s))" no_layout "[]" 0 0]
    by auto
qed

end
