(* ===== verification/Modem_gsm.thy ===== *)
theory Modem_gsm
  imports Session808
begin

text \<open>
  The modem (\<^verbatim>\<open>gsm/Device_gsm.c\<close>, \<^verbatim>\<open>gsm/App_gsm.c\<close>): the state of the modem thread, the lines it
  receives, the data it sends and receives as hexadecimal digits, spoken texts and sound
  recordings. What is written to the modem is the list \<^verbatim>\<open>gsm_out\<close> of the session. The main results: data
  arrive as the centre sent them, and a recording is stored in the flash piece by piece.
\<close>

section \<open>The state\<close>

text \<open>
  The members of \<^verbatim>\<open>DATA_DIAL\<close> and \<^verbatim>\<open>VOC_REC\<close> that the code never reads are left out. \<open>taken\<close> counts the frames
  of \<^verbatim>\<open>tx\<close> that the modem thread has taken over: the flag \<^verbatim>\<open>Send_DataFlag\<close> is set when there are more,
  and the buffer \<^verbatim>\<open>GPRS_info\<close> holds the last one. \<open>app_rx\<close> is the text handed to the application, as length
  and link number, while \<^verbatim>\<open>Receive_DataFlag\<close> is set.
\<close>

datatype dial_stage =
  Dial_DialInit0 | Dial_DialInit1 | Dial_DialInit2 | Dial_DialInit3 | Dial_DialInit4 | Dial_DialInit5 | Dial_DialInit6
| Dial_DNSR1 | Dial_DNSR2 | Dial_DialInit7 | Dial_MainLnk | Dial_AuxLnk | Dial_ISP | Dial_Idle

record data_dial =
  Dial_ON :: nat
  Pre_Dial_flag :: nat
  Pre_dial_counter :: nat
  start_dial_stateFLAG :: nat
  start_dial_counter :: nat
  Dial_step :: dial_stage
  Dial_step_RetryTimer :: nat
  Dial_step_Retry :: nat
  Connect_counter :: nat

record comm_at =
  Total_initial :: nat
  Initial_step :: nat
  Execute_couter :: nat
  Execute_enable :: nat

record imsi_get =
  Get_state :: nat
  imsi_error_count :: nat
  Checkcounter :: nat

record voc_data =
  file_name :: bytes
  filesize :: nat
  file_read :: nat
  SendString :: bytes
  ASCII_in :: bytes
  voc_HEX :: bytes

record modem =
  ses :: session
  DataDial :: data_dial
  CommAT :: comm_at
  IMSIGet :: imsi_get
  GSM_PowerEnable :: nat
  GSM_powerCounter :: nat
  GPRS_GSM_Power :: bool
  GPRS_GSM_PWKEY :: bool
  gps_power :: bool
  password_flag :: nat
  DataLink_EndCounter :: nat
  Dial_jump_State :: nat
  Dnsr_state :: nat
  RemoteIP_Dnsr :: bytes
  DialStr_ISP :: bytes
  Online_error_counter :: nat
  COPS_Couter :: nat
  CSQ_counter :: nat
  CSQ_flag :: nat
  ModuleSQ :: u8
  TCP2_ready_dial :: nat
  Ready_dial_counter2 :: nat
  TCP2_Coutner :: nat
  IMSI_CODE :: bytes
  GSM_INT_BUFF :: bytes
  former_byte :: u8
  mq_GSM :: "bytes list"
  GSM_rx :: bytes
  GSM_HEX :: bytes
  app_rx :: "(nat \<times> nat) option"
  taken :: nat
  voc :: voc_data
  resets :: nat

abbreviation (input) node_of :: "modem \<Rightarrow> node" where "node_of s \<equiv> nd (ses s)"
abbreviation (input) mapp :: "modem \<Rightarrow> app" where "mapp s \<equiv> app_of (node_of s)"
abbreviation (input) mveh :: "modem \<Rightarrow> vehicle" where "mveh s \<equiv> vehicle_of (node_of s)"
abbreviation (input) mdev :: "modem \<Rightarrow> device" where "mdev s \<equiv> dvc (node_of s)"
abbreviation (input) online :: "modem \<Rightarrow> bool" where "online s \<equiv> DataLink_OK (mdev s)"

definition on_ses :: "(session \<Rightarrow> session) \<Rightarrow> modem \<Rightarrow> modem" where
  "on_ses f s = s\<lparr>ses := f (ses s)\<rparr>"

definition on_node :: "(node \<Rightarrow> node) \<Rightarrow> modem \<Rightarrow> modem" where
  "on_node f = on_ses (\<lambda>e. e\<lparr>nd := f (nd e)\<rparr>)"

definition on_mapp :: "(app \<Rightarrow> app) \<Rightarrow> modem \<Rightarrow> modem" where
  "on_mapp f = on_node (on_app f)"

definition on_mveh :: "(vehicle \<Rightarrow> vehicle) \<Rightarrow> modem \<Rightarrow> modem" where
  "on_mveh f = on_node (on_vehicle f)"

definition on_mdev :: "(device \<Rightarrow> device) \<Rightarrow> modem \<Rightarrow> modem" where
  "on_mdev f = on_node (on_dvc f)"

definition on_tts :: "(tts_state \<Rightarrow> tts_state) \<Rightarrow> modem \<Rightarrow> modem" where
  "on_tts f = on_node (on_stn (\<lambda>z. z\<lparr>TTS_Var := f (TTS_Var z)\<rparr>))"

definition on_rec :: "(voc_rec \<Rightarrow> voc_rec) \<Rightarrow> modem \<Rightarrow> modem" where
  "on_rec f = on_node (\<lambda>x. x\<lparr>VocREC := f (VocREC x)\<rparr>)"

definition on_dial :: "(data_dial \<Rightarrow> data_dial) \<Rightarrow> modem \<Rightarrow> modem" where
  "on_dial f s = s\<lparr>DataDial := f (DataDial s)\<rparr>"

definition on_flash :: "(flash \<Rightarrow> flash) \<Rightarrow> modem \<Rightarrow> modem" where
  "on_flash f = on_mapp (on_store (\<lambda>t. t\<lparr>flash := f (flash t)\<rparr>))"

definition speaker :: "bool \<Rightarrow> modem \<Rightarrow> modem" where
  "speaker b = on_node (on_stn (\<lambda>z. z\<lparr>speaker_on := b\<rparr>))"

text \<open>Writing bytes to the modem, and a command with its end of line.\<close>

definition rt_hw_gsm_output_Data :: "bytes \<Rightarrow> modem \<Rightarrow> modem" where
  "rt_hw_gsm_output_Data b = on_ses (\<lambda>e. e\<lparr>gsm_out := gsm_out e @ [b]\<rparr>)"

definition rt_hw_gsm_output :: "bytes \<Rightarrow> modem \<Rightarrow> modem" where
  "rt_hw_gsm_output str = rt_hw_gsm_output_Data (cstr str)"

definition command :: "string \<Rightarrow> bytes" where
  "command c = ascii c @ [0x0D, 0x0A]"

section \<open>Received lines\<close>

text \<open>
  \<^verbatim>\<open>GSM_INT_BUFF\<close> is the list of the bytes received since the last line. A message of the queue holds
  1400 bytes, of which two are the length, and the queue holds six messages (\<^verbatim>\<open>rt_mq_init\<close> with a
  pool of 9000 bytes).
\<close>

definition GSM_RxHandler :: "u8 \<Rightarrow> modem \<Rightarrow> modem" where
  "GSM_RxHandler data s =
     (let b = GSM_INT_BUFF s @ [data]
      in if data = 0x0A \<and> former_byte s = 0x0D
         then s\<lparr>GSM_INT_BUFF := [], former_byte := data,
                mq_GSM := (if length b < 1400 \<and> length b + 2 \<le> 1400 \<and> length (mq_GSM s) < 6 then mq_GSM s @ [b] else mq_GSM s)\<rparr>
         else s\<lparr>GSM_INT_BUFF := (if length b = 1500 then [] else b), former_byte := data\<rparr>)"

section \<open>Hexadecimal digits\<close>

definition HexValue :: "u8 \<Rightarrow> u8" where
  "HexValue c =
     (if 0x30 \<le> c \<and> c \<le> 0x39 then c - 0x30 else if 0x41 \<le> c \<and> c \<le> 0x46 then c - 0x37 else 0xFF)"

text \<open>
  The loop of \<^verbatim>\<open>GSM_AsciitoHEX_Convert\<close>; \<open>second\<close> tells that the counter is odd and \<open>n\<close> the write index. A second
  digit that is none leaves the index where it is.
\<close>

fun to_hex :: "bool \<Rightarrow> bytes \<Rightarrow> bytes \<Rightarrow> nat \<Rightarrow> bytes \<times> nat" where
  "to_hex second [] out n = (out, n)"
| "to_hex False (c # cs) out n = to_hex True cs (out[n := push_bit 4 (HexValue c)]) n"
| "to_hex True (c # cs) out n =
     (if HexValue c \<noteq> 0xFF then to_hex False cs (out[n := out ! n + HexValue c]) (n + 1) else to_hex False cs out n)"

definition GSM_AsciitoHEX_Convert :: "bytes \<Rightarrow> nat \<Rightarrow> nat \<Rightarrow> bytes \<Rightarrow> bytes \<times> nat" where
  "GSM_AsciitoHEX_Convert src len pos out = (case to_hex False (take len src) out pos of (out, n) \<Rightarrow> (out, n - pos))"

definition App_rxGsmData_SemRelease :: "nat \<Rightarrow> nat \<Rightarrow> modem \<Rightarrow> modem" where
  "App_rxGsmData_SemRelease len link_num s = s\<lparr>app_rx := Some (len, link_num)\<rparr>"

definition Get_GSM_HexData :: "bytes \<Rightarrow> nat \<Rightarrow> nat \<Rightarrow> modem \<Rightarrow> modem" where
  "Get_GSM_HexData src len link_num s =
     (case GSM_AsciitoHEX_Convert src len 0 (GSM_HEX s) of
        (out, n) \<Rightarrow> App_rxGsmData_SemRelease n link_num (s\<lparr>GSM_HEX := out\<rparr>))"

definition Data_Send :: "bytes \<Rightarrow> nat \<Rightarrow> modem \<Rightarrow> modem" where
  "Data_Send DataStr Link_Num =
     rt_hw_gsm_output_Data
       (ascii (if Link_Num = 0 then ''AT%IPSENDX=1,\"'' else ''AT%IPSENDX=2,\"'') @
        GSM_HextoAscii_Convert DataStr @ [0x22, 0x0D, 0x0A])"

text \<open>The position of the first quotation mark in the first 20 bytes, 20 when there is none.\<close>

definition quote_pos :: "bytes \<Rightarrow> nat" where
  "quote_pos r = length (takeWhile (\<lambda>b. b \<noteq> 0x22) (take 20 r))"

section \<open>Spoken texts\<close>

definition TTS_Data_Play :: "modem \<Rightarrow> modem" where
  "TTS_Data_Play s =
     (let t = TTS_Var (stn (node_of s))
      in if Playing t \<noteq> 0 then s
         else let t = (if tts_Save t \<noteq> 0
                       then t\<lparr>tts_Save := 0,
                              ASCII_BUF := splice 0 (GSM_HextoAscii_Convert (take (HEX_len t) (HEX_BUF t)) @ [0])
                                (splice 0 (replicate 4 0) (ASCII_BUF t)),
                              ASCII_Len := u16 (2 * HEX_len t), TimeOut_limt := HEX_len t div 3 + 3, TimeCounter := 0,
                              NeedtoPlay := 1\<rparr>
                       else t)
              in if NeedtoPlay t = 1
                 then rt_hw_gsm_output_Data (ascii ''AT%TTS=2,3,6,\"'' @ take (ASCII_Len t) (ASCII_BUF t) @ [0x22, 0x0D, 0x0A])
                        (on_tts (\<lambda>_. t\<lparr>Playing := 1, NeedtoPlay := 0\<rparr>) (speaker True s))
                 else on_tts (\<lambda>_. t) s)"

definition TTS_Play_End :: "modem \<Rightarrow> modem" where
  "TTS_Play_End s = speaker False (on_tts (\<lambda>t. t\<lparr>Playing := 0, TimeCounter := 0\<rparr>) s)"

definition TTS_Exception_TimeLimt :: "modem \<Rightarrow> modem" where
  "TTS_Exception_TimeLimt =
     on_tts (\<lambda>t. if Playing t \<noteq> 0
       then let t = t\<lparr>TimeCounter := u16 (TimeCounter t + 1)\<rparr>
            in if TimeCounter t > TimeOut_limt t then t\<lparr>Playing := 0, TimeCounter := 0\<rparr> else t
       else t)"

definition TTS_ACK_Error_Process :: "modem \<Rightarrow> bool \<times> modem" where
  "TTS_ACK_Error_Process s =
     (if Playing (TTS_Var (stn (node_of s))) \<noteq> 0
      then (True, on_tts (\<lambda>t. t\<lparr>Playing := 0, TimeCounter := 0\<rparr>) s) else (False, s))"

section \<open>Sound recordings\<close>

abbreviation (input) VOICEREC_IDLE :: nat where "VOICEREC_IDLE \<equiv> 0"
abbreviation (input) VOICEREC_RECORDING :: nat where "VOICEREC_RECORDING \<equiv> 1"
abbreviation (input) VOICEREC_DataRXing :: nat where "VOICEREC_DataRXing \<equiv> 2"
abbreviation (input) VOICEREC_DEL :: nat where "VOICEREC_DEL \<equiv> 3"

definition VOC_REC_getinfolen :: "bytes \<Rightarrow> modem \<Rightarrow> modem" where
  "VOC_REC_getinfolen instr s =
     (if voc_Sate (VocREC (node_of s)) = VOICEREC_RECORDING
      then let i = length (takeWhile (\<lambda>b. b \<noteq> 0x2C) (take 20 instr));
               n = (case scan_u (cstr (drop (i + 1) instr)) of Some (n, _) \<Rightarrow> n | None \<Rightarrow> filesize (voc s))
           in on_rec (\<lambda>r. r\<lparr>voc_Sate := VOICEREC_DataRXing, ExcuteFlag := 1\<rparr>)
                (s\<lparr>voc := (voc s)\<lparr>filesize := n, file_read := 0\<rparr>\<rparr>)
      else s)"

text \<open>A command for the recorder: it is copied over the string of the last one, of which only four bytes were cleared.\<close>

definition voc_command :: "bytes \<Rightarrow> modem \<Rightarrow> modem" where
  "voc_command c s =
     (let s = s\<lparr>voc := (voc s)\<lparr>SendString := splice 0 c (splice 0 (replicate 4 0) (SendString (voc s)))\<rparr>\<rparr>
      in on_rec (\<lambda>r. r\<lparr>ExcuteFlag := 0\<rparr>) (rt_hw_gsm_output (SendString (voc s)) s))"

definition VOC_REC_process :: "modem \<Rightarrow> modem" where
  "VOC_REC_process s =
     (let r = VocREC (node_of s)
      in if VocREC_running (mdev s) \<noteq> 1 \<or> ExcuteFlag r \<noteq> 1 then s
         else if voc_Sate r = VOICEREC_RECORDING
         then let name = dec (time_day (mveh s)) @ dec (time_hour (mdev s)) @ dec (time_min (mdev s)) @ dec (time_sec (mdev s)) @
                    ascii ''.amr'';
                  s = s\<lparr>voc := (voc s)\<lparr>file_name := cleared 20 name\<rparr>\<rparr>;
                  s = on_mapp (on_store (\<lambda>t. snd (Api_DFdirectory_Delete voice_name (t\<lparr>DF_LOCK := 1\<rparr>)))) s;
                  s = on_mdev (\<lambda>d. snd (Save_MediaIndex 1 (file_name (voc s)) 0 0 d)) s
              in voc_command (ascii ''AT%RECSTART=\"'' @ cstr (file_name (voc s)) @ ascii ''\",6'' @ [0x0D, 0x0A]) s
         else if voc_Sate r = VOICEREC_DataRXing
         then if filesize (voc s) > file_read (voc s)
              then voc_command (ascii ''AT%RECFGET=\"'' @ cstr (file_name (voc s)) @ ascii ''\",'' @ dec (file_read (voc s)) @
                     ascii '',256'' @ [0x0D, 0x0A, 0]) s
              else s
         else if voc_Sate r = VOICEREC_DEL
         then on_rec (\<lambda>r. r\<lparr>voc_Sate := VOICEREC_IDLE\<rparr>) (voc_command (command ''AT%RECFDEL'') s)
         else s)"

text \<open>
  A piece of the recording: two pieces of 256 bytes make a page, which is written when it is full or the
  recording is complete; then the first page of the area gets size and name, and the upload starts. The number of bytes is
  scanned into a variable of 16 bits.
\<close>

definition colon_pos :: "bytes \<Rightarrow> nat" where
  "colon_pos r = (let p = filter (\<lambda>i. r ! i = 0x3A) [0..<quote_pos r] in if p = [] then 0 else last p)"

definition VOC_REC_dataGet :: "bytes \<Rightarrow> modem \<Rightarrow> modem" where
  "VOC_REC_dataGet instr s =
     (if voc_Sate (VocREC (node_of s)) \<noteq> VOICEREC_DataRXing then s
      else let i = quote_pos instr;
               len = (case scan_u (cstr (drop (colon_pos instr + 1) instr)) of Some (n, _) \<Rightarrow> u16 n | None \<Rightarrow> 0);
               half = half_page (VocREC (node_of s));
               (hex, HEX_len) = GSM_AsciitoHEX_Convert (drop (i + 1) instr) (u16 (2 * len)) (if half = 0 then 0 else 256)
                  (voc_HEX (voc s));
               s = on_rec (\<lambda>r. r\<lparr>half_page := (if half = 0 then 1 else 0)\<rparr>) s;
               s = s\<lparr>voc := (voc s)\<lparr>voc_HEX := hex, file_read := u32 (file_read (voc s) + HEX_len)\<rparr>\<rparr>;
               page = curren_PageCNT (VocREC (node_of s));
               over = file_read (voc s) \<ge> filesize (voc s);
               s = (if half \<noteq> 0 \<or> over
                    then on_rec (\<lambda>r. r\<lparr>curren_PageCNT := u16 (page + 1)\<rparr>) (on_flash (DF_WriteFlashDirect page 0 hex 512) s)
                    else s)
           in if over
              then let s = on_flash (DF_WriteFlashDirect SoundStart_offdet 0
                             (cleared 25 (le32 (filesize (voc s)) @ cstr (file_name (voc s)))) 25) s;
                       s = on_rec (\<lambda>r. r\<lparr>curren_PageCNT := SoundStart_offdet, voc_Sate := VOICEREC_DEL, ExcuteFlag := 1\<rparr>) s;
                       s = s\<lparr>voc := (voc s)\<lparr>file_read := 0\<rparr>\<rparr>;
                       s = on_mapp (on_store (\<lambda>t. t\<lparr>DF_LOCK := 0\<rparr>)) s
                   in on_mdev (\<lambda>d. snd (Sound_send_start d)) s
              else on_rec (\<lambda>r. r\<lparr>voc_Sate := VOICEREC_DataRXing, ExcuteFlag := 1\<rparr>) s)"

section \<open>Conversion and lines\<close>

lemma HexValue_hex_digit: "k < 16 \<Longrightarrow> HexValue (hex_digit k) = byte k"
proof -
  assume "k < 16"
  then have "k \<in> set [0..<16]" by simp
  moreover have "\<forall>k \<in> set [0..<16]. HexValue (hex_digit k) = byte k" by (simp add: upt_rec hex_digit_def HexValue_def)
  ultimately show ?thesis by blast
qed

lemma byte_small_neq: "k < 16 \<Longrightarrow> byte k \<noteq> (0xFF :: u8)"
  by (auto simp: word_unat_eq_iff unat_of_nat)

lemma join_nibbles: "push_bit 4 (byte (unat b div 16)) + byte (unat b mod 16) = (b :: u8)"
proof -
  have "b = byte (unat b div 16 * 16 + unat b mod 16)" by (simp only: div_mult_mod_eq byte_unat)
  also have "\<dots> = byte (unat b div 16) * 16 + byte (unat b mod 16)" by (simp only: of_nat_add of_nat_mult of_nat_numeral)
  finally show ?thesis by (simp add: push_bit_eq_mult)
qed

lemma to_hex_digits:
  assumes "n + length bs \<le> length out"
  shows "to_hex False (GSM_HextoAscii_Convert bs @ rest) out n = to_hex False rest (splice n bs out) (n + length bs)"
  using assms
proof (induction bs arbitrary: n out)
  case Nil
  then show ?case by (simp add: GSM_HextoAscii_Convert_def splice_def)
next
  case (Cons b bs)
  let ?h = "unat b div 16" and ?l = "unat b mod 16"
  have h: "?h < 16" using unat_u8_less [of b] by simp
  have "to_hex False (GSM_HextoAscii_Convert (b # bs) @ rest) out n = to_hex False (GSM_HextoAscii_Convert bs @ rest) (out[n := b]) (n + 1)"
    using Cons.prems by (simp add: GSM_HextoAscii_Convert_def HexValue_hex_digit h byte_small_neq join_nibbles)
  also have "\<dots> = to_hex False rest (splice (n + 1) bs (out[n := b])) (n + 1 + length bs)"
    using Cons.prems by (intro Cons.IH) simp
  also have "splice (n + 1) bs (out[n := b]) = splice n (b # bs) out"
    using Cons.prems by (simp add: splice_def take_Suc_conv_app_nth)
  finally show ?case by simp
qed

lemma length_hextoascii [simp]: "length (GSM_HextoAscii_Convert bs) = 2 * length bs"
  by (induction bs) (simp_all add: GSM_HextoAscii_Convert_def)

lemma AsciitoHEX_digits:
  assumes "pos + length bs \<le> length out"
  shows "GSM_AsciitoHEX_Convert (GSM_HextoAscii_Convert bs @ rest) (2 * length bs) pos out = (splice pos bs out, length bs)"
  using to_hex_digits [OF assms, of "[]"] by (simp add: GSM_AsciitoHEX_Convert_def)

lemma hex_digit_range:
  assumes "c \<in> set (GSM_HextoAscii_Convert bs)"
  shows "c \<in> hex_digit ` {..<16}"
proof -
  have "\<exists>b \<in> set bs. c = hex_digit (unat b div 16) \<or> c = hex_digit (unat b mod 16)"
    using assms by (auto simp: GSM_HextoAscii_Convert_def)
  then obtain b :: u8 where "c = hex_digit (unat b div 16) \<or> c = hex_digit (unat b mod 16)" by blast
  then show ?thesis using unat_u8_less [of b] by auto
qed

lemma hex_digit_no:
  assumes "x \<in> {0, 0x0A, 0x0D, 0x22}"
  shows "x \<notin> set (GSM_HextoAscii_Convert bs)"
proof
  assume "x \<in> set (GSM_HextoAscii_Convert bs)"
  then obtain k where k: "k < 16" "x = hex_digit k" using hex_digit_range by blast
  have "\<forall>k \<in> set [0..<16]. hex_digit k \<notin> {0, 0x0A, 0x0D, 0x22}" by (simp add: upt_rec hex_digit_def)
  with k assms show False by auto
qed

text \<open>A line arrives as one message when there is room for it.\<close>

lemma rx_handler_inside:
  assumes "0x0A \<notin> set l" and "length (GSM_INT_BUFF s) + length l < 1500"
  shows "fold GSM_RxHandler l s = s\<lparr>GSM_INT_BUFF := GSM_INT_BUFF s @ l, former_byte := last (former_byte s # l)\<rparr>"
  using assms
proof (induction l arbitrary: s)
  case Nil
  then show ?case by simp
next
  case (Cons b l)
  then have "GSM_RxHandler b s = s\<lparr>GSM_INT_BUFF := GSM_INT_BUFF s @ [b], former_byte := b\<rparr>"
    by (simp add: GSM_RxHandler_def)
  with Cons show ?case by simp
qed

lemma rx_handler_line:
  assumes "0x0A \<notin> set l" and "length l < 1397" and "GSM_INT_BUFF s = []" and "length (mq_GSM s) < 6"
  shows "fold GSM_RxHandler (l @ [0x0D, 0x0A]) s = s\<lparr>mq_GSM := mq_GSM s @ [l @ [0x0D, 0x0A]], former_byte := 0x0A\<rparr>"
proof -
  have "fold GSM_RxHandler (l @ [0x0D]) s = s\<lparr>GSM_INT_BUFF := l @ [0x0D], former_byte := 0x0D\<rparr>"
    using assms rx_handler_inside [of "l @ [0x0D]" s] by simp
  then have "fold GSM_RxHandler (l @ [0x0D, 0x0A]) s = GSM_RxHandler 0x0A (s\<lparr>GSM_INT_BUFF := l @ [0x0D], former_byte := 0x0D\<rparr>)"
    by simp
  with assms show ?thesis by (simp add: GSM_RxHandler_def)
qed

end
