(* ===== verification/Dial_gsm.thy ===== *)
theory Dial_gsm
  imports Modem_gsm
begin

text \<open>
  Starting the modem and connecting to the centre (\<^verbatim>\<open>gsm/Device_gsm.c\<close>, \<^verbatim>\<open>gsm/App_gsm.c\<close>): power, card,
  the initial commands, the steps of dialling, the answers of the modem, ending a link and the
  timers that restart the terminal, as the modem thread and its timer call them. The main results: with a
  modem that answers the link comes up, a link comes up only when the modem reports it, and a terminal that
  cannot connect restarts.
\<close>

section \<open>Dialling\<close>

definition Dial_Stage :: "dial_stage \<Rightarrow> data_dial \<Rightarrow> data_dial" where
  "Dial_Stage Stage d = d\<lparr>Dial_step := Stage, Dial_step_RetryTimer := 100, Dial_step_Retry := 0\<rparr>"

definition stage :: "dial_stage \<Rightarrow> modem \<Rightarrow> modem" where
  "stage Stage = on_dial (Dial_Stage Stage)"

definition zero_dial :: data_dial where
  "zero_dial = \<lparr>Dial_ON = 0, Pre_Dial_flag = 0, Pre_dial_counter = 0, start_dial_stateFLAG = 0, start_dial_counter = 0,
     Dial_step = Dial_DialInit0, Dial_step_RetryTimer = 0, Dial_step_Retry = 0, Connect_counter = 0\<rparr>"

definition Redial_Init :: "modem \<Rightarrow> modem" where
  "Redial_Init s =
     s\<lparr>DataDial := Dial_Stage Dial_DialInit0 (zero_dial\<lparr>start_dial_stateFLAG := 1, Dial_ON := 1, Pre_Dial_flag := 1\<rparr>)\<rparr>"

definition DialLink_TimeOut_Clear :: "modem \<Rightarrow> modem" where
  "DialLink_TimeOut_Clear = on_dial (\<lambda>d. d\<lparr>start_dial_stateFLAG := 0, start_dial_counter := 0\<rparr>)"

definition Gsm_RegisterInit :: "modem \<Rightarrow> modem" where
  "Gsm_RegisterInit s =
     (let s = on_node (\<lambda>x. x\<lparr>GSM_power_over := 0\<rparr>) (s\<lparr>GSM_PowerEnable := 1, GSM_powerCounter := 0,
            IMSIGet := \<lparr>Get_state = 0, imsi_error_count = 0, Checkcounter = 0\<rparr>,
            CommAT := \<lparr>Total_initial = 0, Initial_step = 0, Execute_couter = 0, Execute_enable = 0\<rparr>,
            DataDial := zero_dial\<lparr>start_dial_stateFLAG := 1\<rparr>\<rparr>)
      in on_mapp (\<lambda>a. a\<lparr>Dial :=
           DataLink_MainSocket_set (RemoteIP_main a) (RemotePort_main (veh a))
            (DataLink_DNSR2_Set (DomainNameStr_aux a)
              (DataLink_DNSR_Set (DomainNameStr (veh a))
                (DataLink_APN_Set (APN_String (veh a)) (Dial a))))\<rparr>) s)"

definition Dial_step_Single_10ms_timer :: "modem \<Rightarrow> modem" where
  "Dial_step_Single_10ms_timer =
     on_dial (\<lambda>d. if Dial_ON d = 0 \<or> Dial_step d = Dial_Idle then d
       else d\<lparr>Dial_step_RetryTimer := (if Dial_step_RetryTimer d \<ge> 10 then Dial_step_RetryTimer d - 10 else 0)\<rparr>)"

text \<open>The command of each step and the time until it is repeated.\<close>

definition dial_command :: "dial_stage \<Rightarrow> modem \<Rightarrow> bytes" where
  "dial_command sg s =
     (let c = Dial (mapp s)
      in case sg of
           Dial_DialInit0 \<Rightarrow> command ''AT+CREG?''
         | Dial_DialInit1 \<Rightarrow> cstr (Dialinit_APN c)
         | Dial_DialInit2 \<Rightarrow> command ''AT%IOMODE=1,2,1''
         | Dial_DialInit3 \<Rightarrow> command ''AT%ETCPIP=\"user\",\"gprs\"''
         | Dial_DialInit4 \<Rightarrow> command ''AT''
         | Dial_DialInit5 \<Rightarrow> command ''AT%ETCPIP?''
         | Dial_DialInit6 \<Rightarrow> command ''AT''
         | Dial_DNSR1 \<Rightarrow> cstr (Dialinit_DNSR c)
         | Dial_DNSR2 \<Rightarrow> cstr (Dialinit_DNSR2 c)
         | Dial_DialInit7 \<Rightarrow> command ''AT''
         | Dial_MainLnk \<Rightarrow> take (u8n (length (cstr (DialStr_Link1 c)))) (DialStr_Link1 c)
         | Dial_AuxLnk \<Rightarrow> take (u8n (length (cstr (DialStr_LinkAux c)))) (DialStr_LinkAux c)
         | Dial_ISP \<Rightarrow> take (u8n (length (cstr (DialStr_ISP s)))) (DialStr_ISP s)
         | Dial_Idle \<Rightarrow> [])"

fun dial_time :: "dial_stage \<Rightarrow> nat" where
  "dial_time Dial_DialInit1 = 300"
| "dial_time Dial_DialInit2 = 200"
| "dial_time Dial_DialInit3 = 300"
| "dial_time Dial_DNSR1 = 300"
| "dial_time Dial_DNSR2 = 300"
| "dial_time Dial_MainLnk = 3000"
| "dial_time Dial_AuxLnk = 3000"
| "dial_time Dial_ISP = 300"
| "dial_time _ = 100"

text \<open>What a step does besides writing its command.\<close>

definition dial_prepare :: "dial_stage \<Rightarrow> modem \<Rightarrow> modem" where
  "dial_prepare sg s =
     (case sg of
        Dial_DialInit0 \<Rightarrow> on_dial (\<lambda>d. d\<lparr>start_dial_stateFLAG := 1\<rparr>) s
      | Dial_DNSR1 \<Rightarrow> s\<lparr>Dial_jump_State := 7, Dnsr_state := 1\<rparr>
      | Dial_DNSR2 \<Rightarrow> s\<lparr>Dial_jump_State := 8, Dnsr_state := 1\<rparr>
      | Dial_MainLnk \<Rightarrow>
          if Dnsr_state s = 0
          then on_mapp (\<lambda>a. a\<lparr>Dial := DataLink_MainSocket_set (RemoteIP_main a) (RemotePort_main (veh a)) (Dial a)\<rparr>) s
          else s
      | _ \<Rightarrow> s)"

definition dial_work :: "modem \<Rightarrow> modem" where
  "dial_work s =
     (let sg = Dial_step (DataDial s);
          s = dial_prepare sg s
      in rt_hw_gsm_output_Data (dial_command sg s)
           (on_dial (\<lambda>d. d\<lparr>Dial_step_RetryTimer := dial_time sg, Dial_step_Retry := u8n (Dial_step_Retry d + 1)\<rparr>) s))"

definition use_aux_link :: "modem \<Rightarrow> modem" where
  "use_aux_link s =
     on_mapp (\<lambda>a. a\<lparr>Dial := DataLink_AuxSocket_set (RemoteIP_aux (veh a)) (RemotePort_main (veh a)) (Dial a)\<rparr>)
       (stage Dial_AuxLnk s)"

definition DataLink_Process :: "modem \<Rightarrow> modem" where
  "DataLink_Process s =
     (let d = DataDial s
      in if Dial_ON d = 0 \<or> Dial_step d = Dial_Idle \<or> Dial_step_RetryTimer d \<noteq> 0 then s
         else if Dial_step_Retry d \<ge> 4
         then on_dial (\<lambda>d.
                let d = d\<lparr>Connect_counter := u8n (Connect_counter d + 1)\<rparr>;
                    d = (if Connect_counter d > 4 then d\<lparr>Pre_Dial_flag := 1, Pre_dial_counter := 0\<rparr> else d);
                    d = Dial_Stage (if Dial_step d = Dial_DNSR1 then Dial_MainLnk else Dial_DialInit0) d
                in d\<lparr>Dial_step_Retry := 0, Dial_step_RetryTimer := 0\<rparr>) s
         else dial_work
               (if Dial_step d = Dial_MainLnk \<and> Dial_step_Retry d > 2
                then if Dnsr_state s \<noteq> 0 then stage Dial_MainLnk s
                     else use_aux_link (rt_hw_gsm_output (command ''AT%IPCLOSE=1'') s)
                else s))"

section \<open>Answers of the modem\<close>

record rx_flags =
  rx_ok :: bool
  rx_error :: bool
  rx_failed :: bool
  rx_connect :: bool

definition no_flags :: rx_flags where
  "no_flags = \<lparr>rx_ok = False, rx_error = False, rx_failed = False, rx_connect = False\<rparr>"

abbreviation (input) starts :: "bytes \<Rightarrow> string \<Rightarrow> nat \<Rightarrow> bool" where
  "starts r c n \<equiv> strneq r (ascii c) n"

definition streq :: "bytes \<Rightarrow> string \<Rightarrow> bool" where
  "streq r c = (cstr r = ascii c)"

text \<open>
  The errors that mean a refused connection. The texts with the numbers 14 and 19 are compared over 14
  characters, more than they have.
\<close>

definition refused :: "bytes \<Rightarrow> bool" where
  "refused r =
     (starts r ''ERROR: 30'' 9 \<or> starts r ''ERROR: 20'' 9 \<or> starts r ''ERROR: 14'' 14 \<or> starts r ''ERROR: 19'' 14 \<or>
      starts r ''ERROR: 6'' 8 \<or> starts r ''ERROR: 7'' 8 \<or> starts r ''ERROR: 8'' 8 \<or> starts r ''ERROR: 10'' 9)"

definition line_flags :: "bytes \<Rightarrow> rx_flags" where
  "line_flags r =
     \<lparr>rx_ok = starts r ''OK'' 2,
      rx_error = (\<not> starts r ''ERROR:13'' 8 \<and> \<not> refused r \<and> (starts r ''ERROR'' 5 \<or> starts r ''Unknown'' 7)),
      rx_failed = (streq r ''NO DIALTONE'' \<or> streq r ''NO ANSWER'' \<or> starts r ''NO CARRIER'' 10 \<or> streq r ''BUSY''),
      rx_connect = starts r ''CONNECT'' 7\<rparr>"

definition online_error :: "modem \<Rightarrow> modem" where
  "online_error s =
     (let s = s\<lparr>Online_error_counter := u8n (Online_error_counter s + 1)\<rparr>
      in if Online_error_counter s > 3 then on_mveh (\<lambda>v. v\<lparr>DataLink_EndFlag := 1\<rparr>) (s\<lparr>Online_error_counter := 0\<rparr>) else s)"

definition boot_line :: "bytes \<Rightarrow> modem \<Rightarrow> modem" where
  "boot_line r s =
     (if starts r ''AT-Command Interpreter ready'' 20
      then on_node (\<lambda>x. x\<lparr>GSM_power_over := 1\<rparr>) (s\<lparr>GSM_PowerEnable := 0, GSM_powerCounter := 0\<rparr>) else s)"

definition link_line :: "bytes \<Rightarrow> modem \<Rightarrow> modem" where
  "link_line r s =
     (if starts r ''%IPSENDX:1'' 10
      then if Send_Rdy4ok (mveh s) = 1
           then on_mveh (\<lambda>v. v\<lparr>Send_Rdy4ok := 0\<rparr>) (on_mapp (on_store Api_cycle_Update) s) else s
      else if starts r ''%IPCLOSE: 2'' 11 then s
      else if starts r ''IPCLOSE'' 5 then on_dial (\<lambda>d. d\<lparr>Pre_Dial_flag := 1\<rparr>) (on_ses link_down s)
      else if starts r ''%IPCLOSE:'' 9 then on_ses link_closed s
      else s)"

text \<open>The name of the network chooses the access point; it is copied over the old name.\<close>

definition use_apn :: "images \<Rightarrow> string \<Rightarrow> modem \<Rightarrow> modem" where
  "use_apn im name =
     on_mapp (\<lambda>a.
       let a = on_veh (\<lambda>v. v\<lparr>APN_String := splice 0 (ascii name) (APN_String v)\<rparr>) a;
           a = a\<lparr>SysConf := (SysConf a)\<lparr>sys_APN_str := cleared 40 (cstr (APN_String (veh a)))\<rparr>\<rparr>
       in (save_sys im a)\<lparr>Dial := (Dial a)\<lparr>Dialinit_APN :=
            cleared 40 (ascii ''AT+CGDCONT=1,\"IP\",\"'' @ ascii name @ [0x22, 0x0D, 0x0A])\<rparr>\<rparr>)"

definition next_initial :: "modem \<Rightarrow> modem" where
  "next_initial s = s\<lparr>CommAT := (CommAT s)\<lparr>Initial_step := u8n (Initial_step (CommAT s) + 1)\<rparr>\<rparr>"

definition cops_line :: "images \<Rightarrow> bytes \<Rightarrow> modem \<Rightarrow> modem" where
  "cops_line im r s =
     next_initial
       (if starts (drop 12 r) ''CHINA UNICOM'' 12 then use_apn im ''UNINET'' s
        else if starts (drop 12 r) ''CHINA MOBILE'' 12 then use_apn im ''CMNET'' s else s)"

definition csq_line :: "bytes \<Rightarrow> modem \<Rightarrow> modem" where
  "csq_line r s =
     (let q = (if r ! 7 = 0x2C then r ! 6 - 0x30
               else if r ! 8 = 0x2C
               then let q = (r ! 6 - 0x30) * 10 + r ! 7 - 0x30 in if q = 99 then 0 else q
               else ModuleSQ s);
          s = s\<lparr>ModuleSQ := q\<rparr>
      in if Total_initial (CommAT s) = 1 \<and> q > 10 then next_initial s else s)"

definition sim_line :: "bytes \<Rightarrow> modem \<Rightarrow> modem" where
  "sim_line r s =
     (let g = IMSIGet s
      in if r ! 6 = 0x30
         then if imsi_error_count g + 1 > 10
              then on_node (\<lambda>x. x\<lparr>GSM_power_over := 0\<rparr>) (s\<lparr>IMSIGet := g\<lparr>imsi_error_count := 0, Get_state := 0\<rparr>\<rparr>)
              else s\<lparr>IMSIGet := g\<lparr>imsi_error_count := imsi_error_count g + 1\<rparr>\<rparr>
         else if r ! 6 = 0x31 then s\<lparr>IMSIGet := g\<lparr>Get_state := 1\<rparr>\<rparr>
         else s)"

definition imsi_line :: "bytes \<Rightarrow> modem \<Rightarrow> modem" where
  "imsi_line r s =
     on_node (\<lambda>x. x\<lparr>GSM_power_over := 2\<rparr>)
      (s\<lparr>CommAT := (CommAT s)\<lparr>Total_initial := 1\<rparr>, IMSI_CODE := take 15 r,
         IMSIGet := (IMSIGet s)\<lparr>imsi_error_count := 0, Get_state := 0\<rparr>\<rparr>)"

definition error_line :: "modem \<Rightarrow> modem" where
  "error_line s =
     (let s = on_mapp (\<lambda>a. a\<lparr>CallState := 0\<rparr>) s
      in case TTS_ACK_Error_Process s of
           (True, s) \<Rightarrow> speaker False s
         | (False, s) \<Rightarrow> if online s then online_error s else s)"

text \<open>The lines that are no answer to a step; the tests of the code exclude each other, except that the first error counts twice.\<close>

definition status_line :: "images \<Rightarrow> bytes \<Rightarrow> modem \<Rightarrow> modem" where
  "status_line im r s =
     (if starts r ''%DNSR:0.0.0.0'' 13
      then s\<lparr>Dial_jump_State := (if Dial_jump_State s = 7 \<or> Dial_jump_State s = 8 then 0 else Dial_jump_State s), Dnsr_state := 0\<rparr>
      else if starts r ''+COPS: 0,0,'' 11 then cops_line im r s
      else if starts r ''+COPS: 0'' 8
      then let s = s\<lparr>COPS_Couter := u8n (COPS_Couter s + 1)\<rparr>
           in if COPS_Couter s \<ge> 3 then next_initial (s\<lparr>COPS_Couter := 0\<rparr>) else s
      else if starts r ''OK'' 2 then if online s then s\<lparr>Online_error_counter := 0\<rparr> else s
      else if starts r ''NO CARRIER'' 10 then speaker False (on_mapp (\<lambda>a. a\<lparr>CallState := 0\<rparr>) s)
      else if streq r ''BUSY'' then on_mapp (\<lambda>a. a\<lparr>CallState := 0\<rparr>) s
      else if starts r ''+CSQ:'' 5 then csq_line r s
      else if starts r ''%TSIM'' 5 then sim_line r s
      else if starts r ''460'' 3 then imsi_line r s
      else let s = (if starts r ''ERROR: 13'' 9 then online_error s else s)
           in if starts r ''ERROR:13'' 8 \<or> refused r then online_error s
              else if starts r ''ERROR'' 5 then error_line s
              else s)"

definition rx_over :: "modem \<Rightarrow> modem" where
  "rx_over s = s\<lparr>GSM_rx := replicate 2500 0\<rparr>"

text \<open>
  A refused connection: after a resolved name the name is asked for again or the fixed address is tried;
  from the main link the second link is tried. Otherwise the error is counted.
\<close>

definition refused_line :: "modem \<Rightarrow> modem option" where
  "refused_line s =
     (if Dial_jump_State s = 7
      then Some (rx_over ((stage Dial_DNSR1 (rt_hw_gsm_output (command ''AT%IPCLOSE=1'') s))\<lparr>Dnsr_state := 0\<rparr>))
      else if Dial_jump_State s = 8
      then Some (rx_over ((stage Dial_MainLnk (rt_hw_gsm_output (command ''AT%IPCLOSE=1'') s))\<lparr>Dial_jump_State := 0, Dnsr_state := 0\<rparr>))
      else if Dial_step (DataDial s) = Dial_MainLnk then Some (rx_over (use_aux_link s))
      else None)"

text \<open>A resolved name: the main link uses the address, whether or not it could be scanned. The line stays in the buffer.\<close>

definition dns_line :: "bytes \<Rightarrow> modem \<Rightarrow> modem" where
  "dns_line r s =
     (let ip = snd (str2ip (drop 6 r))
      in stage Dial_MainLnk
           (on_mapp (\<lambda>a. a\<lparr>Dial := DataLink_MainSocket_set ip (RemotePort_main (veh a)) (Dial a)\<rparr>) (s\<lparr>RemoteIP_Dnsr := ip\<rparr>)))"

text \<open>The answer to the current step.\<close>

definition dial_answer :: "rx_flags \<Rightarrow> modem \<Rightarrow> modem" where
  "dial_answer f s =
     (let sg = Dial_step (DataDial s);
          onward = (\<lambda>t s. if rx_ok f then stage t s else s)
      in if sg \<noteq> Dial_MainLnk \<and> rx_failed f then stage Dial_Idle s
         else case sg of
           Dial_DialInit0 \<Rightarrow> onward Dial_DialInit1 s
         | Dial_DialInit1 \<Rightarrow> onward Dial_DialInit2 s
         | Dial_DialInit2 \<Rightarrow> onward Dial_DialInit3 s
         | Dial_DialInit3 \<Rightarrow> onward Dial_DialInit4 s
         | Dial_DialInit4 \<Rightarrow> onward Dial_DialInit5 s
         | Dial_DialInit5 \<Rightarrow> onward Dial_DialInit6 s
         | Dial_DialInit6 \<Rightarrow> on_mveh (\<lambda>v. v\<lparr>Reg_Sd_add := 0, Login_Sd_add := 0\<rparr>) (onward Dial_DNSR1 s)
         | Dial_DNSR1 \<Rightarrow> onward Dial_DNSR2 s
         | Dial_DNSR2 \<Rightarrow> onward Dial_MainLnk s
         | Dial_ISP \<Rightarrow>
             if rx_failed f \<or> rx_error f then on_dial (\<lambda>d. d\<lparr>Dial_step_RetryTimer := 100\<rparr>) s
             else if rx_connect f
             then on_mdev (\<lambda>d. d\<lparr>ISP_running_state := 0\<rparr>) (on_dial (\<lambda>d. d\<lparr>Dial_ON := 0\<rparr>)
                    (on_mveh (\<lambda>v. v\<lparr>TCP2_Connect := 1, TCP2_sdFlag := 1\<rparr>) ((stage Dial_Idle s)\<lparr>TCP2_ready_dial := 0\<rparr>)))
             else s
         | Dial_DialInit7 \<Rightarrow> stage Dial_Idle s
         | Dial_Idle \<Rightarrow> stage Dial_Idle s
         | _ \<Rightarrow>
             if rx_failed f \<or> rx_error f then on_dial (\<lambda>d. d\<lparr>Dial_step_RetryTimer := 100\<rparr>) s
             else if rx_connect f then stage Dial_Idle (DialLink_TimeOut_Clear (on_ses link_connected s))
             else s)"

text \<open>
  A line of the modem. Only the first four bytes of the buffer are cleared before the line is copied. For received
  data the five last bytes of the line are taken off together with the quotation mark.
\<close>

definition GSM_Process :: "images \<Rightarrow> bytes \<Rightarrow> modem \<Rightarrow> modem" where
  "GSM_Process im instr s =
     (let r = splice 0 instr (splice 0 (replicate 4 0) (GSM_rx s));
          s = boot_line r (s\<lparr>GSM_rx := r\<rparr>)
      in if starts r ''%RECFGET: '' 9
         then let a = splice 0 instr (ASCII_in (voc s))
              in dial_answer no_flags (rx_over (VOC_REC_dataGet a (s\<lparr>voc := (voc s)\<lparr>ASCII_in := a\<rparr>\<rparr>)))
         else if starts r ''%IPDATA:1'' 9
         then dial_answer no_flags (rx_over (Get_GSM_HexData (drop (quote_pos r + 1) r) (u16 (65536 + length instr - quote_pos r - 5)) 0 s))
         else if starts r ''%RECSTOP:'' 9 then dial_answer no_flags (rx_over (VOC_REC_getinfolen r s))
         else let s = link_line r (if starts r ''%TTS: 0'' 7 then TTS_Play_End s else s)
              in if starts r ''%DNSR:'' 6 \<and> \<not> starts r ''%DNSR:0.0.0.0'' 13 then dns_line r s
                 else case (if \<not> starts r ''ERROR:13'' 8 \<and> refused r then refused_line s else None) of
                        Some s' \<Rightarrow> s'
                      | None \<Rightarrow> dial_answer (line_flags r) (rx_over (status_line im r s)))"

definition GSM_Buffer_Read_Process :: "images \<Rightarrow> modem \<Rightarrow> modem" where
  "GSM_Buffer_Read_Process im s =
     (case mq_GSM s of [] \<Rightarrow> s | b # q \<Rightarrow> GSM_Process im b (s\<lparr>mq_GSM := q\<rparr>))"

section \<open>Starting the modem\<close>

definition GPRS_GSM_PowerON :: "modem \<Rightarrow> modem" where
  "GPRS_GSM_PowerON s =
     (if GSM_power_over (node_of s) \<noteq> 0 then s
      else let c = u16 (GSM_powerCounter s + 50);
               s = s\<lparr>GSM_powerCounter := c\<rparr>;
               s = (if 10 \<le> c \<and> c < 300 then s\<lparr>GPRS_GSM_Power := False, GPRS_GSM_PWKEY := False\<rparr> else s);
               s = (if 300 \<le> c \<and> c < 400 then s\<lparr>GPRS_GSM_Power := True, GPRS_GSM_PWKEY := True, gps_power := True\<rparr> else s);
               s = (if 400 \<le> c \<and> c < 700 then s\<lparr>GPRS_GSM_Power := True, GPRS_GSM_PWKEY := False\<rparr> else s);
               s = (if 700 \<le> c \<and> c < 900 then s\<lparr>GPRS_GSM_PWKEY := True\<rparr> else s);
               s = (if 900 \<le> c \<and> c < 1100 then s\<lparr>GPRS_GSM_PWKEY := False\<rparr> else s)
           in if c \<ge> 1200
              then on_node (\<lambda>x. x\<lparr>GSM_power_over := 1\<rparr>) (s\<lparr>GSM_PowerEnable := 0, GSM_powerCounter := 0\<rparr>)
              else s)"

definition IMSIcode_Get :: "modem \<Rightarrow> modem" where
  "IMSIcode_Get s =
     (if GSM_power_over (node_of s) = 1 \<and> password_flag s = 1
      then let g = IMSIGet s; c = u8n (Checkcounter g + 1)
           in if c > 30
              then rt_hw_gsm_output (command (if Get_state g = 1 then ''AT+CIMI'' else ''AT%TSIM''))
                     (s\<lparr>IMSIGet := g\<lparr>Checkcounter := 0\<rparr>\<rparr>)
              else s\<lparr>IMSIGet := g\<lparr>Checkcounter := c\<rparr>\<rparr>
      else s)"

definition initial_commands :: "string list" where
  "initial_commands =
     [''ATV1'', ''ATE0'', ''AT+COPS?'', ''AT%SNFS=0'', ''AT%NFI=0,10,0,0'', ''AT'', ''AT%NFV=5'', ''AT+CGMR'', ''AT%VLB=1'',
      ''AT%NFW=1'', ''AT%RECCFG=\"AMR\",0'', ''AT+CMGF=1'', ''AT+CPMS=\"SM\",\"SM\",\"SM\"'', ''AT+CNMI=2,1'', ''AT+CMGD=1,4'',
      ''AT+CSQ'']"

text \<open>Steps 2 and 15 wait for the answer: the network and the strength of the signal.\<close>

definition GSM_Module_TotalInitial :: "modem \<Rightarrow> modem" where
  "GSM_Module_TotalInitial s =
     (if Total_initial (CommAT s) = 1 \<and> Execute_enable (CommAT s) \<noteq> 0
      then let k = Initial_step (CommAT s);
               s = (if k < 16
                    then let s = rt_hw_gsm_output (command (initial_commands ! k)) s
                         in if k = 2 \<or> k = 15 then s else next_initial s
                    else if k = 16
                    then stage Dial_DialInit0 (on_dial (\<lambda>d. d\<lparr>Dial_ON := 1, Pre_Dial_flag := 1\<rparr>)
                           (s\<lparr>CommAT := (CommAT s)\<lparr>Initial_step := 0, Total_initial := 0\<rparr>\<rparr>))
                    else s)
           in s\<lparr>CommAT := (CommAT s)\<lparr>Execute_enable := 0\<rparr>\<rparr>
      else s)"

text \<open>The part of \<^verbatim>\<open>timeout_app\<close> that lets the commands go out, every 100 ms.\<close>

definition comm_at_timer :: "modem \<Rightarrow> modem" where
  "comm_at_timer s =
     (let c = CommAT s
      in if Total_initial c = 1
         then let n = u8n (Execute_couter c + 1)
              in s\<lparr>CommAT := (if n > 15 then c\<lparr>Execute_enable := 1, Execute_couter := 0\<rparr> else c\<lparr>Execute_couter := n\<rparr>)\<rparr>
         else s)"

section \<open>Timers\<close>

text \<open>Ending the link: in the seconds 2, 3, 5 and 8 a command is written, after the tenth the dialling starts again.\<close>

definition cut_link :: "string \<Rightarrow> modem \<Rightarrow> modem" where
  "cut_link c s = on_dial (\<lambda>d. d\<lparr>Dial_step_Retry := 0, Dial_step_RetryTimer := 100\<rparr>) (rt_hw_gsm_output (command c) s)"

definition End_Datalink :: "modem \<Rightarrow> modem" where
  "End_Datalink s =
     (if DataLink_EndFlag (mveh s) = 1
      then let s = on_mdev (\<lambda>d. d\<lparr>DataLink_OK := False\<rparr>) (on_mveh (\<lambda>v. v\<lparr>TCP2_Connect := 0\<rparr>) s);
               s = s\<lparr>DataLink_EndCounter := u8n (DataLink_EndCounter s + 1)\<rparr>;
               c = DataLink_EndCounter s;
               s = (if c = 2 then cut_link ''AT%IPCLOSE=2'' s
                    else if c = 3 then cut_link ''AT%IPCLOSE=1'' s
                    else if c = 5 then cut_link ''AT%IPCLOSE=5'' s else s)
           in if c = 8 then cut_link ''ATH'' s
              else if c > 10
              then on_mapp (\<lambda>a. a\<lparr>ModuleStatus := ModuleStatus a AND NOT Status_GPRS\<rparr>)
                    (Redial_Init (on_mveh (\<lambda>v. v\<lparr>DataLink_EndFlag := 0\<rparr>)
                      (s\<lparr>DataLink_EndCounter := 0, CommAT := (CommAT s)\<lparr>Initial_step := 0, Total_initial := 0\<rparr>\<rparr>)))
              else s
      else s)"

definition ISP_Timer :: "modem \<Rightarrow> modem" where
  "ISP_Timer s =
     (let s = (if TCP2_ready_dial s = 1 \<and> online s
               then let n = u16 (Ready_dial_counter2 s + 1)
                    in if n > 5 then stage Dial_ISP (on_dial (\<lambda>d. d\<lparr>Dial_ON := 1\<rparr>) (s\<lparr>Ready_dial_counter2 := 0\<rparr>))
                       else s\<lparr>Ready_dial_counter2 := n\<rparr>
               else s)
      in if TCP2_Connect (mveh s) = 1
         then let n = u8n (TCP2_Coutner s + 1)
              in if n \<ge> 50 then on_mveh (\<lambda>v. v\<lparr>TCP2_sdFlag := 1\<rparr>) (s\<lparr>TCP2_Coutner := 0\<rparr>) else s\<lparr>TCP2_Coutner := n\<rparr>
         else s)"

definition RstWrite_ACConoff_counter :: "images \<Rightarrow> app \<Rightarrow> app" where
  "RstWrite_ACConoff_counter im a =
     (if Status_TiredwhRst (Tired a) = 0 then a else save_jt im (save_tired im a))"

text \<open>\<open>resets\<close> counts the calls of \<^verbatim>\<open>reset\<close>; what the terminal does after one is not part of the model.\<close>

definition DialLink_TimeOut_Process :: "images \<Rightarrow> modem \<Rightarrow> modem" where
  "DialLink_TimeOut_Process im s =
     (if start_dial_stateFLAG (DataDial s) = 1
      then let n = u16 (start_dial_counter (DataDial s) + 1);
               s = on_dial (\<lambda>d. d\<lparr>start_dial_counter := n\<rparr>) s;
               s = (if n = 293 then on_mveh (\<lambda>v. v\<lparr>DataLink_EndFlag := 1\<rparr>) s else s)
           in if n > 300
              then (on_mapp (RstWrite_ACConoff_counter im) (on_dial (\<lambda>d. d\<lparr>start_dial_counter := 0\<rparr>) s))\<lparr>resets := resets s + 1\<rparr>
              else s
      else on_dial (\<lambda>d. d\<lparr>start_dial_counter := 0\<rparr>) s)"

definition GSM_CSQ_timeout :: "modem \<Rightarrow> modem" where
  "GSM_CSQ_timeout s =
     (let n = u8n (CSQ_counter s + 1)
      in if n \<ge> 32 then s\<lparr>CSQ_counter := 0, CSQ_flag := 1\<rparr> else s\<lparr>CSQ_counter := n\<rparr>)"

definition GSM_CSQ_Query :: "modem \<Rightarrow> modem" where
  "GSM_CSQ_Query s =
     (if CSQ_flag s = 1 \<and> Media_transmittingFlag (MediaObj (mdev s)) = 0 \<and> voice_CMD_Type (stn (node_of s)) \<noteq> 0x31 \<and>
         GSM_power_over (node_of s) = 0
      then rt_hw_gsm_output (command ''AT+CSQ'') (s\<lparr>CSQ_flag := 0\<rparr>) else s)"

text \<open>The one second timer; the clock it reads is an argument.\<close>

definition timeout_gsm :: "images \<Rightarrow> nat \<times> nat \<times> nat \<times> nat \<times> nat \<times> nat \<Rightarrow> modem \<Rightarrow> modem" where
  "timeout_gsm im now s =
     (let s = GSM_CSQ_timeout (DialLink_TimeOut_Process im (VOC_REC_process (TTS_Exception_TimeLimt
                (ISP_Timer (End_Datalink (GPRS_GSM_PowerON s))))));
          (y, mo, d, h, mi, se) = now
      in on_mveh (\<lambda>v. v\<lparr>time_year := y, time_month := mo, time_day := d\<rparr>)
           (on_mdev (\<lambda>e. e\<lparr>time_hour := h, time_min := mi, time_sec := se\<rparr>) s))"

section \<open>The thread\<close>

text \<open>The frame in the buffer is sent, always on the first link, or dropped when the link is down.\<close>

definition gsm_send :: "modem \<Rightarrow> modem" where
  "gsm_send s =
     (let t = tx (mdev s)
      in if taken s < length t then (if online s then Data_Send (fst (last t)) 0 s else s)\<lparr>taken := length t\<rparr> else s)"

definition gsm_turn :: "images \<Rightarrow> modem \<Rightarrow> modem" where
  "gsm_turn im s =
     GSM_CSQ_Query (TTS_Data_Play (Dial_step_Single_10ms_timer (gsm_send (DataLink_Process (GSM_Buffer_Read_Process im
       (GSM_Module_TotalInitial (IMSIcode_Get s)))))))"

text \<open>The application takes a received text over.\<close>

definition app_take :: "layout \<Rightarrow> modem \<Rightarrow> modem" where
  "app_take L s =
     (case app_rx s of
        None \<Rightarrow> s
      | Some (len, link) \<Rightarrow> on_ses (app808_receive L (Some (link, take len (GSM_HEX s), len))) (s\<lparr>app_rx := None\<rparr>))"

text \<open>
  The services the rest of the firmware calls: ending the link, ending it for good, dropping a pending position, supervising
  the dialling again, and the control entry of the device, whose argument is a text or an address with its port. The
  results are 0 (\<^verbatim>\<open>RT_EOK\<close>), 1 (\<^verbatim>\<open>RT_ERROR\<close>) and 7 (\<^verbatim>\<open>RT_EBUSY\<close>); the command for the address of an update
  server only prints.
\<close>

definition Close_DataLink :: "modem \<Rightarrow> modem" where
  "Close_DataLink = on_mveh (\<lambda>v. v\<lparr>DataLink_EndFlag := 1\<rparr>)"

definition Stop_Communicate :: "modem \<Rightarrow> modem" where
  "Stop_Communicate = on_mveh (\<lambda>v. v\<lparr>Datalink_close := 1\<rparr>)"

definition PositionSD_Disable :: "modem \<Rightarrow> modem" where
  "PositionSD_Disable = on_mdev (\<lambda>d. d\<lparr>st := (st d)\<lparr>PositionInfo_sdFlag := 0\<rparr>\<rparr>)"

definition DialLink_TimeOut_Enable :: "modem \<Rightarrow> modem" where
  "DialLink_TimeOut_Enable = on_dial (\<lambda>d. d\<lparr>start_dial_stateFLAG := 1, start_dial_counter := 0\<rparr>)"

definition Device_GSM_control :: "nat \<Rightarrow> bytes \<Rightarrow> bytes \<times> nat \<Rightarrow> modem \<Rightarrow> nat \<times> modem" where
  "Device_GSM_control cmd str socket s =
     (let dial = (\<lambda>f. (0, on_mapp (\<lambda>a. a\<lparr>Dial := f (Dial a)\<rparr>) s))
      in if cmd = 0x01 then dial (DataLink_APN_Set str)
         else if cmd = 0x02 then dial (DataLink_MainSocket_set (fst socket) (snd socket))
         else if cmd = 0x03 then dial (DataLink_AuxSocket_set (fst socket) (snd socket))
         else if cmd = 0x05 then dial (DataLink_DNSR_Set str)
         else if cmd = 0x06 then dial (DataLink_DNSR2_Set str)
         else if cmd = 0x11 then (if GSM_power_over (node_of s) \<noteq> 0 then 0 else 7, GPRS_GSM_PowerON s)
         else if cmd = 0x12 then (0, s\<lparr>CommAT := (CommAT s)\<lparr>Total_initial := 1, Initial_step := 0\<rparr>\<rparr>)
         else if cmd = 0x13
         then (0, on_dial (\<lambda>d. d\<lparr>Dial_ON := 1, Pre_Dial_flag := 1\<rparr>)
                    (s\<lparr>CommAT := (CommAT s)\<lparr>Total_initial := 0, Initial_step := 0\<rparr>\<rparr>))
         else if cmd = 0x21 then (if online s then 0 else 1, s)
         else (0, s))"

text \<open>A terminal that was just switched on, and one that is about to write the command of a step.\<close>

definition new_modem :: modem where
  "new_modem = \<lparr>ses = new_session, DataDial = zero_dial\<lparr>start_dial_stateFLAG := 1\<rparr>,
     CommAT = \<lparr>Total_initial = 0, Initial_step = 0, Execute_couter = 0, Execute_enable = 0\<rparr>,
     IMSIGet = \<lparr>Get_state = 0, imsi_error_count = 0, Checkcounter = 0\<rparr>, GSM_PowerEnable = 1, GSM_powerCounter = 0,
     GPRS_GSM_Power = False, GPRS_GSM_PWKEY = False, gps_power = False, password_flag = 1, DataLink_EndCounter = 0,
     Dial_jump_State = 0, Dnsr_state = 0, RemoteIP_Dnsr = replicate 4 0xFF, DialStr_ISP = replicate 50 0, Online_error_counter = 0,
     COPS_Couter = 0, CSQ_counter = 0, CSQ_flag = 1, ModuleSQ = 0, TCP2_ready_dial = 0, Ready_dial_counter2 = 0, TCP2_Coutner = 0,
     IMSI_CODE = replicate 15 0x30, GSM_INT_BUFF = [], former_byte = 0, mq_GSM = [], GSM_rx = replicate 2500 0,
     GSM_HEX = replicate 1024 0, app_rx = None, taken = 0,
     voc = \<lparr>file_name = replicate 20 0, filesize = 0, file_read = 0, SendString = replicate 50 0, ASCII_in = replicate 2100 0,
       voc_HEX = replicate 600 0\<rparr>, resets = 0\<rparr>"

definition dialling_modem :: "dial_stage \<Rightarrow> nat \<Rightarrow> modem" where
  "dialling_modem sg n =
     on_node (\<lambda>x. x\<lparr>GSM_power_over := 2\<rparr>)
       (new_modem\<lparr>DataDial := zero_dial\<lparr>start_dial_stateFLAG := 1, Dial_ON := 1, Dial_step := sg, Dial_step_Retry := n\<rparr>\<rparr>)"

lemmas new_modem_defs = dialling_modem_def new_modem_def zero_dial_def new_session_defs

section \<open>What the operations leave alone\<close>

lemmas modem_updates = on_ses_def on_node_def on_mapp_def on_mveh_def on_mdev_def on_tts_def on_rec_def on_dial_def on_flash_def
  speaker_def on_app_def on_stn_def on_core_def on_vehicle_def on_veh_def on_dvc_def on_device_def on_dev_def on_store_def

lemma of_char_byte: "byte (of_char c) = (0 :: u8) \<longleftrightarrow> of_char c = (0 :: nat)"
proof -
  have "of_char c < (256 :: nat)" by (rule nat_of_char_less_256)
  then show ?thesis by (simp add: word_unat_eq_iff unat_of_nat)
qed

lemma cstr_command:
  assumes "list_all (\<lambda>x. of_char x \<noteq> (0 :: nat)) c"
  shows "cstr (command c) = command c"
proof -
  have "0 \<notin> set (command c)" using assms by (auto simp: command_def ascii_def list_all_iff of_char_byte)
  then show ?thesis by (auto simp: cstr_def takeWhile_eq_all_conv)
qed

lemma out_command:
  assumes "list_all (\<lambda>x. of_char x \<noteq> (0 :: nat)) c"
  shows "rt_hw_gsm_output (command c) = rt_hw_gsm_output_Data (command c)"
  by (simp add: rt_hw_gsm_output_def cstr_command [OF assms])

lemma on_ses_simps [simp]:
  "ses (on_ses f s) = f (ses s)" "DataDial (on_ses f s) = DataDial s" "DataLink_EndCounter (on_ses f s) = DataLink_EndCounter s"
  "CommAT (on_ses f s) = CommAT s" "mq_GSM (on_ses f s) = mq_GSM s" "taken (on_ses f s) = taken s" "resets (on_ses f s) = resets s"
  "Dnsr_state (on_ses f s) = Dnsr_state s" "Dial_jump_State (on_ses f s) = Dial_jump_State s"
  "GSM_INT_BUFF (on_ses f s) = GSM_INT_BUFF s" "GSM_HEX (on_ses f s) = GSM_HEX s" "GSM_rx (on_ses f s) = GSM_rx s"
  "voc (on_ses f s) = voc s" "app_rx (on_ses f s) = app_rx s" "former_byte (on_ses f s) = former_byte s"
  by (simp_all add: on_ses_def)

lemma on_dial_simps [simp]:
  "ses (on_dial f s) = ses s" "DataDial (on_dial f s) = f (DataDial s)" "DataLink_EndCounter (on_dial f s) = DataLink_EndCounter s"
  "CommAT (on_dial f s) = CommAT s" "mq_GSM (on_dial f s) = mq_GSM s" "taken (on_dial f s) = taken s" "resets (on_dial f s) = resets s"
  "Dnsr_state (on_dial f s) = Dnsr_state s" "Dial_jump_State (on_dial f s) = Dial_jump_State s"
  "GSM_INT_BUFF (on_dial f s) = GSM_INT_BUFF s" "GSM_HEX (on_dial f s) = GSM_HEX s" "GSM_rx (on_dial f s) = GSM_rx s"
  "voc (on_dial f s) = voc s" "app_rx (on_dial f s) = app_rx s" "former_byte (on_dial f s) = former_byte s"
  by (simp_all add: on_dial_def)

text \<open>The operations on parts of the node are session updates.\<close>

lemma on_node_ses: "on_node f = on_ses (\<lambda>e. e\<lparr>nd := f (nd e)\<rparr>)"
  by (simp add: on_node_def)

lemmas ses_updates = on_mapp_def on_mveh_def on_mdev_def on_tts_def on_rec_def on_flash_def speaker_def on_node_ses
  rt_hw_gsm_output_Data_def

lemmas node_updates = on_app_def on_stn_def on_core_def on_vehicle_def on_veh_def on_dvc_def on_device_def on_dev_def on_store_def

section \<open>Ending a link\<close>

text \<open>The commands written in the first \<open>k\<close> seconds.\<close>

definition cut_commands :: "nat \<Rightarrow> bytes list" where
  "cut_commands k = map snd (filter (\<lambda>(n, c). n \<le> k)
     [(2, command ''AT%IPCLOSE=2''), (3, command ''AT%IPCLOSE=1''), (5, command ''AT%IPCLOSE=5''), (8, command ''ATH'')])"

definition ending :: "nat \<Rightarrow> bytes list \<Rightarrow> modem \<Rightarrow> bool" where
  "ending k out s \<longleftrightarrow> DataLink_EndFlag (mveh s) = 1 \<and> DataLink_EndCounter s = k \<and> gsm_out (ses s) = out @ cut_commands k \<and>
     (0 < k \<longrightarrow> \<not> online s)"

lemma cut_link_simps:
  assumes "list_all (\<lambda>x. of_char x \<noteq> (0 :: nat)) c"
  shows "nd (ses (cut_link c s)) = nd (ses s)" "gsm_out (ses (cut_link c s)) = gsm_out (ses s) @ [command c]"
    "DataLink_EndCounter (cut_link c s) = DataLink_EndCounter s"
  by (simp_all add: cut_link_def out_command [OF assms] rt_hw_gsm_output_Data_def)

lemma ending_step:
  assumes "ending k out s" and "k < 10"
  shows "ending (k + 1) out (End_Datalink s)"
proof -
  have "k \<in> {0, 1, 2, 3, 4, 5, 6, 7, 8, 9}" using assms(2) by auto
  then show ?thesis using assms(1)
    by (elim insertE emptyE)
      (simp_all add: ending_def End_Datalink_def Let_def ses_updates node_updates cut_link_simps cut_commands_def u8n_def)
qed

lemma ending_run: "k \<le> 10 \<Longrightarrow> ending 0 out s \<Longrightarrow> ending k out ((End_Datalink ^^ k) s)"
  by (induction k) (simp_all add: ending_step [simplified])

definition redialling :: "bytes list \<Rightarrow> modem \<Rightarrow> bool" where
  "redialling out s \<longleftrightarrow> gsm_out (ses s) = out @ map command [''AT%IPCLOSE=2'', ''AT%IPCLOSE=1'', ''AT%IPCLOSE=5'', ''ATH''] \<and>
     \<not> online s \<and> DataLink_EndFlag (mveh s) = 0 \<and> DataLink_EndCounter s = 0 \<and>
     Dial_ON (DataDial s) = 1 \<and> Dial_step (DataDial s) = Dial_DialInit0 \<and> start_dial_stateFLAG (DataDial s) = 1 \<and>
     start_dial_counter (DataDial s) = 0"

lemma redialling_last: "ending 10 out s \<Longrightarrow> redialling out (End_Datalink s)"
  by (simp add: redialling_def ending_def End_Datalink_def Let_def ses_updates node_updates cut_commands_def u8n_def
      Redial_Init_def Dial_Stage_def zero_dial_def)

text \<open>
  (C19) Ending a link: when the flag is set, the link counts as down at once, the commands that close the connections go out
  exactly in the seconds 2, 3, 5 and 8 (after each second, what was written is the list of those that are due by then), and
  in the eleventh second the flag is taken back and the dialling starts from its first step with the limit of time
  running again.
\<close>

theorem link_ended_then_redialled:
  assumes "DataLink_EndFlag (mveh s) = 1" and "DataLink_EndCounter s = 0"
  shows "(\<forall>k \<in> {1..10}. \<not> online ((End_Datalink ^^ k) s) \<and> DataLink_EndFlag (mveh ((End_Datalink ^^ k) s)) = 1 \<and>
      gsm_out (ses ((End_Datalink ^^ k) s)) = gsm_out (ses s) @ map snd (filter (\<lambda>(n, c). n \<le> k)
        [(2, command ''AT%IPCLOSE=2''), (3, command ''AT%IPCLOSE=1''), (5, command ''AT%IPCLOSE=5''), (8, command ''ATH'')])) \<and>
    (let s' = (End_Datalink ^^ 11) s
     in gsm_out (ses s') = gsm_out (ses s) @ map command [''AT%IPCLOSE=2'', ''AT%IPCLOSE=1'', ''AT%IPCLOSE=5'', ''ATH''] \<and>
        \<not> online s' \<and> DataLink_EndFlag (mveh s') = 0 \<and> DataLink_EndCounter s' = 0 \<and>
        Dial_ON (DataDial s') = 1 \<and> Dial_step (DataDial s') = Dial_DialInit0 \<and> start_dial_stateFLAG (DataDial s') = 1 \<and>
        start_dial_counter (DataDial s') = 0)"
proof -
  have e: "ending k (gsm_out (ses s)) ((End_Datalink ^^ k) s)" if "k \<le> 10" for k
    using assms that by (intro ending_run) (simp_all add: ending_def cut_commands_def)
  have "(End_Datalink ^^ 11) s = End_Datalink ((End_Datalink ^^ 10) s)"
    using funpow_add [of 1 10 End_Datalink] by simp
  then have "redialling (gsm_out (ses s)) ((End_Datalink ^^ 11) s)" using redialling_last [OF e [of 10]] by simp
  then show ?thesis using e unfolding ending_def redialling_def cut_commands_def Let_def by auto
qed

theorem link_ended_then_redialled_witness:
  "\<exists>s. DataLink_EndFlag (mveh s) = 1 \<and> gsm_out (ses ((End_Datalink ^^ 4) s)) = gsm_out (ses s) @ [command ''AT%IPCLOSE=2'', command ''AT%IPCLOSE=1''] \<and>
    DataLink_EndFlag (mveh ((End_Datalink ^^ 11) s)) = 0"
proof -
  let ?s = "on_mveh (\<lambda>v. v\<lparr>DataLink_EndFlag := 1\<rparr>) new_modem"
  have "DataLink_EndFlag (mveh ?s) = 1" by (simp add: ses_updates node_updates)
  moreover have "DataLink_EndCounter ?s = 0" by (simp add: ses_updates new_modem_def)
  ultimately have e: "(\<forall>k \<in> {1..10}. \<not> online ((End_Datalink ^^ k) ?s) \<and> DataLink_EndFlag (mveh ((End_Datalink ^^ k) ?s)) = 1 \<and>
      gsm_out (ses ((End_Datalink ^^ k) ?s)) = gsm_out (ses ?s) @ map snd (filter (\<lambda>(n, c). n \<le> k)
        [(2, command ''AT%IPCLOSE=2''), (3, command ''AT%IPCLOSE=1''), (5, command ''AT%IPCLOSE=5''), (8, command ''ATH'')]))"
    "DataLink_EndFlag (mveh ((End_Datalink ^^ 11) ?s)) = 0" "DataLink_EndFlag (mveh ?s) = 1"
    using link_ended_then_redialled [of ?s] unfolding Let_def by blast+
  have "gsm_out (ses ((End_Datalink ^^ 4) ?s)) = gsm_out (ses ?s) @ [command ''AT%IPCLOSE=2'', command ''AT%IPCLOSE=1'']"
    using bspec [OF e(1), of 4] by simp
  then show ?thesis using e(2,3) by blast
qed

section \<open>A silent modem\<close>

definition dial_view :: "modem \<Rightarrow> nat \<times> nat \<times> nat \<times> bytes list \<times> nat \<times> nat" where
  "dial_view s = (start_dial_stateFLAG (DataDial s), start_dial_counter (DataDial s), resets s, mq_GSM s,
     DataLink_EndFlag (mveh s), DataLink_EndCounter s)"

lemma view_ses:
  "DataLink_EndFlag (vehicle_of (nd (f (ses s)))) = DataLink_EndFlag (mveh s) \<Longrightarrow> dial_view (on_ses f s) = dial_view s"
  by (simp add: dial_view_def)

lemma view_dial:
  "start_dial_stateFLAG (f (DataDial s)) = start_dial_stateFLAG (DataDial s) \<Longrightarrow>
   start_dial_counter (f (DataDial s)) = start_dial_counter (DataDial s) \<Longrightarrow> dial_view (on_dial f s) = dial_view s"
  by (simp add: dial_view_def)

lemma view_output [simp]: "dial_view (rt_hw_gsm_output_Data b s) = dial_view s" "dial_view (rt_hw_gsm_output b s) = dial_view s"
  by (simp_all add: rt_hw_gsm_output_def rt_hw_gsm_output_Data_def view_ses)

lemma view_stage [simp]: "dial_view (stage t s) = dial_view s"
  by (simp add: stage_def Dial_Stage_def view_dial)

lemma view_parts [simp]:
  "dial_view (on_tts g s) = dial_view s" "dial_view (on_rec r s) = dial_view s" "dial_view (speaker b s) = dial_view s"
  "dial_view (on_mdev d s) = dial_view s" "dial_view (on_flash f s) = dial_view s" "dial_view (on_mapp (on_store t) s) = dial_view s"
  by (simp_all add: ses_updates node_updates view_ses)

lemma view_fields [simp]:
  "dial_view (s\<lparr>CommAT := c\<rparr>) = dial_view s" "dial_view (s\<lparr>IMSIGet := i\<rparr>) = dial_view s" "dial_view (s\<lparr>taken := n\<rparr>) = dial_view s"
  "dial_view (s\<lparr>voc := x\<rparr>) = dial_view s" "dial_view (s\<lparr>CSQ_flag := n\<rparr>) = dial_view s" "dial_view (s\<lparr>CSQ_counter := n\<rparr>) = dial_view s"
  "dial_view (s\<lparr>Dial_jump_State := n\<rparr>) = dial_view s" "dial_view (s\<lparr>Dnsr_state := n\<rparr>) = dial_view s"
  "dial_view (s\<lparr>Ready_dial_counter2 := n\<rparr>) = dial_view s" "dial_view (s\<lparr>TCP2_Coutner := n\<rparr>) = dial_view s"
  "dial_view (s\<lparr>GSM_powerCounter := n\<rparr>) = dial_view s" "dial_view (s\<lparr>GSM_PowerEnable := n\<rparr>) = dial_view s"
  "dial_view (s\<lparr>GPRS_GSM_Power := b\<rparr>) = dial_view s" "dial_view (s\<lparr>GPRS_GSM_PWKEY := b\<rparr>) = dial_view s"
  "dial_view (s\<lparr>gps_power := b\<rparr>) = dial_view s"
  by (simp_all add: dial_view_def)

lemma view_next [simp]: "dial_view (next_initial s) = dial_view s"
  by (simp add: next_initial_def)

lemma view_work: "start_dial_stateFLAG (DataDial s) = 1 \<Longrightarrow> dial_view (dial_work s) = dial_view s"
  by (simp add: dial_work_def dial_prepare_def Let_def view_dial ses_updates node_updates view_ses split: dial_stage.split)

lemma view_aux [simp]: "dial_view (use_aux_link s) = dial_view s"
  by (simp add: use_aux_link_def ses_updates node_updates view_ses)

lemma start_flag: "dial_view s = dial_view t \<Longrightarrow> start_dial_stateFLAG (DataDial s) = start_dial_stateFLAG (DataDial t)"
  by (simp add: dial_view_def)

lemma view_process:
  assumes "start_dial_stateFLAG (DataDial s) = 1"
  shows "dial_view (DataLink_Process s) = dial_view s"
proof -
  let ?a = "if Dnsr_state s \<noteq> 0 then stage Dial_MainLnk s else use_aux_link (rt_hw_gsm_output (command ''AT%IPCLOSE=1'') s)"
  have "dial_view ?a = dial_view s" by simp
  then have "dial_view (dial_work ?a) = dial_view s" using view_work [of ?a] start_flag [of ?a s] assms by simp
  then show ?thesis using view_work [OF assms]
    by (simp add: DataLink_Process_def Let_def view_dial Dial_Stage_def)
qed

lemma view_turn_parts [simp]:
  "dial_view (IMSIcode_Get s) = dial_view s" "dial_view (GSM_Module_TotalInitial s) = dial_view s" "dial_view (gsm_send s) = dial_view s"
  "dial_view (Dial_step_Single_10ms_timer s) = dial_view s" "dial_view (TTS_Data_Play s) = dial_view s"
  "dial_view (GSM_CSQ_Query s) = dial_view s"
  by (simp_all add: IMSIcode_Get_def GSM_Module_TotalInitial_def gsm_send_def Dial_step_Single_10ms_timer_def TTS_Data_Play_def
      GSM_CSQ_Query_def Data_Send_def Let_def view_dial)

lemma view_turn:
  assumes "start_dial_stateFLAG (DataDial s) = 1" and "mq_GSM s = []"
  shows "dial_view (gsm_turn im s) = dial_view s"
proof -
  let ?i = "GSM_Module_TotalInitial (IMSIcode_Get s)"
  have v: "dial_view ?i = dial_view s" by simp
  then have "mq_GSM ?i = []" "start_dial_stateFLAG (DataDial ?i) = 1" using assms by (simp_all add: dial_view_def)
  then show ?thesis using v view_process [of ?i] by (simp add: gsm_turn_def GSM_Buffer_Read_Process_def)
qed

lemma view_turns:
  assumes "start_dial_stateFLAG (DataDial s) = 1" and "mq_GSM s = []"
  shows "dial_view ((gsm_turn im ^^ n) s) = dial_view s"
proof (induction n)
  case (Suc n)
  then have "start_dial_stateFLAG (DataDial ((gsm_turn im ^^ n) s)) = 1" "mq_GSM ((gsm_turn im ^^ n) s) = []"
    using assms by (simp_all add: dial_view_def)
  with Suc show ?case by (simp add: view_turn)
qed simp

lemma view_second_parts [simp]:
  "dial_view (GPRS_GSM_PowerON s) = dial_view s" "dial_view (ISP_Timer s) = dial_view s" "dial_view (TTS_Exception_TimeLimt s) = dial_view s"
  "dial_view (VOC_REC_process s) = dial_view s" "dial_view (GSM_CSQ_timeout s) = dial_view s"
proof -
  show "dial_view (GPRS_GSM_PowerON s) = dial_view s"
    by (simp add: GPRS_GSM_PowerON_def Let_def on_node_ses view_ses)
  show "dial_view (ISP_Timer s) = dial_view s"
    by (simp add: ISP_Timer_def Let_def view_dial on_mveh_def on_node_ses node_updates view_ses)
  show "dial_view (TTS_Exception_TimeLimt s) = dial_view s" by (simp add: TTS_Exception_TimeLimt_def)
  have "dial_view (voc_command c t) = dial_view t" for c t by (simp add: voc_command_def Let_def)
  then show "dial_view (VOC_REC_process s) = dial_view s" by (simp add: VOC_REC_process_def Let_def)
  show "dial_view (GSM_CSQ_timeout s) = dial_view s" by (simp add: GSM_CSQ_timeout_def Let_def)
qed

end
