(* ===== verification/Link_gsm.thy ===== *)
theory Link_gsm
  imports Dial_gsm "HOL-Library.Sublist"
begin

text \<open>
  The modem at work (\<^verbatim>\<open>gsm/App_gsm.c\<close>): sequences of received bytes, seconds, turns of the modem thread and texts
  taken over by the application. Shown are the restart of a terminal that cannot connect, that a link is only
  taken as up when the modem says so, that dialling succeeds with a modem that answers, and the way of data through the modem.
\<close>

section \<open>A modem that stays silent\<close>

lemma view_end:
  assumes "dial_view s = (f, c, r, q, 1, e)" and "e < 10"
  shows "dial_view (End_Datalink s) = (f, c, r, q, 1, e + 1)"
  using assms
  by (auto simp: End_Datalink_def dial_view_def Let_def ses_updates node_updates cut_link_def rt_hw_gsm_output_def u8n_def)

lemma view_end_idle: "dial_view s = (f, c, r, q, 0, e) \<Longrightarrow> End_Datalink s = s"
  by (simp add: End_Datalink_def dial_view_def)

definition silent_view :: "nat \<Rightarrow> nat \<Rightarrow> nat \<times> nat \<times> nat \<times> bytes list \<times> nat \<times> nat" where
  "silent_view k r = (1, k, r, [], if k < 293 then 0 else 1, k - 293)"

lemma view_limit:
  assumes "dial_view s = (1, k, r, q, g, e)" and "k \<le> 300"
  shows "dial_view (DialLink_TimeOut_Process im s) =
    (if k = 300 then (1, 0, r + 1, q, g, e) else (1, k + 1, r, q, if k = 292 then 1 else g, e))"
  using assms
  by (auto simp: DialLink_TimeOut_Process_def RstWrite_ACConoff_counter_def save_jt_def save_tired_def dial_view_def Let_def
      ses_updates node_updates u16_def)

lemma view_second:
  assumes "dial_view s = silent_view k r" and "k \<le> 300"
  shows "dial_view (timeout_gsm im now s) = (if k = 300 then (1, 0, r + 1, [], 1, 8) else silent_view (k + 1) r)"
proof -
  let ?p = "GPRS_GSM_PowerON s"
  let ?e = "VOC_REC_process (TTS_Exception_TimeLimt (ISP_Timer (End_Datalink ?p)))"
  have "dial_view (End_Datalink ?p) = (1, k, r, [], if k < 293 then 0 else 1, if k < 293 then 0 else k - 292)"
  proof (cases "k < 293")
    case True
    then have v: "dial_view ?p = (1, k, r, [], 0, 0)" using assms(1) by (simp add: silent_view_def)
    with True show ?thesis by (simp add: view_end_idle [OF v])
  next
    case False
    then have v: "dial_view ?p = (1, k, r, [], 1, k - 293)" using assms(1) by (simp add: silent_view_def)
    with False show ?thesis using view_end [OF v] assms(2) by (simp add: Suc_diff_le)
  qed
  then have "dial_view ?e = (1, k, r, [], if k < 293 then 0 else 1, if k < 293 then 0 else k - 292)" by simp
  then have l: "dial_view (DialLink_TimeOut_Process im ?e) = (if k = 300 then (1, 0, r + 1, [], 1, 8) else silent_view (k + 1) r)"
    using assms(2) by (subst view_limit) (auto simp: silent_view_def)
  have "dial_view (timeout_gsm im now s) = dial_view (DialLink_TimeOut_Process im ?e)"
    by (simp add: timeout_gsm_def Let_def split_beta on_mveh_def on_node_ses node_updates view_ses)
  with l show ?thesis by simp
qed

text \<open>A second with the turns of the modem thread that follow it.\<close>

definition modem_second :: "images \<Rightarrow> (nat \<times> nat \<times> nat \<times> nat \<times> nat \<times> nat) \<times> nat \<Rightarrow> modem \<Rightarrow> modem" where
  "modem_second im x s = (gsm_turn im ^^ snd x) (timeout_gsm im (fst x) s)"

lemma silent_second:
  assumes "dial_view s = silent_view k r" and "k \<le> 300"
  shows "dial_view (modem_second im x s) = (if k = 300 then (1, 0, r + 1, [], 1, 8) else silent_view (k + 1) r)"
proof -
  let ?t = "timeout_gsm im (fst x) s"
  have v: "dial_view ?t = (if k = 300 then (1, 0, r + 1, [], 1, 8) else silent_view (k + 1) r)" by (rule view_second [OF assms])
  then have "start_dial_stateFLAG (DataDial ?t) = 1" "mq_GSM ?t = []"
    by (auto simp: silent_view_def dial_view_def split: if_splits)
  with v show ?thesis by (simp add: modem_second_def view_turns)
qed

lemma silent_seconds:
  assumes "dial_view s = silent_view k r" and "k + length xs \<le> 300"
  shows "dial_view (fold (modem_second im) xs s) = silent_view (k + length xs) r"
  using assms
proof (induction xs arbitrary: k s)
  case (Cons x xs)
  then have "dial_view (modem_second im x s) = silent_view (k + 1) r" by (simp add: silent_second)
  from Cons.IH [OF this] Cons.prems show ?case by simp
qed simp

text \<open>
  (C6) A terminal that cannot connect restarts: when the modem says nothing while the terminal is dialling, then with any number of
  turns of the modem thread in every second the system is reset in second 301 and not before; eight seconds earlier the link is
  ended.
\<close>

theorem silent_modem_restarts:
  assumes "start_dial_stateFLAG (DataDial s) = 1" and "start_dial_counter (DataDial s) = 0" and "mq_GSM s = []"
    and "DataLink_EndFlag (mveh s) = 0" and "DataLink_EndCounter s = 0" and "length xs = 301"
  shows "resets (fold (modem_second im) xs s) = resets s + 1 \<and>
    (\<forall>k \<le> 300. resets (fold (modem_second im) (take k xs) s) = resets s \<and>
       DataLink_EndFlag (mveh (fold (modem_second im) (take k xs) s)) = (if k < 293 then 0 else 1))"
proof -
  have i: "dial_view s = silent_view 0 (resets s)" using assms by (simp add: dial_view_def silent_view_def)
  have k: "dial_view (fold (modem_second im) (take k xs) s) = silent_view k (resets s)" if "k \<le> 300" for k
    using silent_seconds [OF i, of "take k xs"] that assms(6) by simp
  have "xs = take 300 xs @ [xs ! 300]"
    using take_Suc_conv_app_nth [of 300 xs] assms(6) by simp
  then have "fold (modem_second im) xs s = modem_second im (xs ! 300) (fold (modem_second im) (take 300 xs) s)"
    by (metis fold_append fold_simps comp_apply)
  then have "dial_view (fold (modem_second im) xs s) = (1, 0, resets s + 1, [], 1, 8)"
    using silent_second [OF k [of 300]] by simp
  then show ?thesis using k by (auto simp: dial_view_def silent_view_def)
qed

theorem silent_modem_restarts_witness:
  "resets (fold (modem_second no_images) (replicate 301 ((20, 1, 1, 12, 0, 0), 50)) new_modem) = 1"
proof -
  have "DataLink_EndFlag (mveh new_modem) = 0" by (simp add: new_modem_defs)
  moreover have "start_dial_stateFLAG (DataDial new_modem) = 1" "start_dial_counter (DataDial new_modem) = 0" "mq_GSM new_modem = []"
    "DataLink_EndCounter new_modem = 0" "resets new_modem = 0"
    by (simp_all add: new_modem_def zero_dial_def)
  ultimately show ?thesis
    using silent_modem_restarts [of new_modem "replicate 301 ((20, 1, 1, 12, 0, 0), 50)" no_images] by simp
qed

section \<open>Only the modem reports a link\<close>

lemma link_ses: "DataLink_OK (dvc (nd (f (ses s)))) = online s \<Longrightarrow> online (on_ses f s) = online s"
  by simp

lemma link_output [simp]: "online (rt_hw_gsm_output_Data b s) = online s" "online (rt_hw_gsm_output b s) = online s"
  by (simp_all add: rt_hw_gsm_output_def rt_hw_gsm_output_Data_def)

lemma link_parts [simp]:
  "online (stage t s) = online s" "online (on_tts g s) = online s" "online (on_rec r s) = online s" "online (speaker b s) = online s"
  "online (on_flash f s) = online s" "online (on_mapp (on_store u) s) = online s" "online (next_initial s) = online s"
  by (simp_all add: stage_def next_initial_def ses_updates node_updates)

lemma link_device: "DataLink_OK (f (mdev s)) = online s \<Longrightarrow> online (on_mdev f s) = online s"
  by (simp add: ses_updates node_updates)

lemma link_vehicle: "dev (f (mveh s)) = mdev s \<Longrightarrow> online (on_mveh f s) = online s"
  by (simp add: ses_updates node_updates)

lemma link_app: "veh (f (mapp s)) = mveh s \<Longrightarrow> online (on_mapp f s) = online s"
  by (simp add: ses_updates node_updates)

lemma link_aux [simp]: "online (use_aux_link s) = online s"
  by (simp add: use_aux_link_def link_app)

lemma link_process [simp]: "online (DataLink_Process s) = online s"
  by (simp add: DataLink_Process_def dial_work_def dial_prepare_def Let_def link_app split: dial_stage.split)

lemma link_turn_parts [simp]:
  "online (IMSIcode_Get s) = online s" "online (GSM_Module_TotalInitial s) = online s" "online (gsm_send s) = online s"
  "online (Dial_step_Single_10ms_timer s) = online s" "online (TTS_Data_Play s) = online s" "online (GSM_CSQ_Query s) = online s"
  by (simp_all add: IMSIcode_Get_def GSM_Module_TotalInitial_def gsm_send_def Dial_step_Single_10ms_timer_def TTS_Data_Play_def
      GSM_CSQ_Query_def Data_Send_def Let_def)

lemma link_sound [simp]: "DataLink_OK (snd (Sound_send_start d)) = DataLink_OK d" "DataLink_OK (snd (Save_MediaIndex t n c e d)) = DataLink_OK d"
  by (simp_all add: Sound_send_start_def Media_Start_Init_def Save_MediaIndex_def Let_def split_beta)

lemma link_voc_command [simp]: "online (voc_command c s) = online s"
  by (simp add: voc_command_def Let_def)

lemma link_recording [simp]: "online (VOC_REC_process s) = online s" "online (VOC_REC_getinfolen r s) = online s"
  by (simp_all add: VOC_REC_process_def VOC_REC_getinfolen_def Let_def link_device)

lemma link_data [simp]: "online (VOC_REC_dataGet r s) = online s"
  by (simp add: VOC_REC_dataGet_def Let_def split_beta link_device)

lemma link_error [simp]: "online (online_error s) = online s" "online (error_line s) = online s"
  by (simp_all add: online_error_def error_line_def TTS_ACK_Error_Process_def Let_def link_vehicle link_app)

lemma link_status [simp]: "online (status_line im r s) = online s"
proof -
  have "online (use_apn im n t) = online t" for n t
    by (simp add: use_apn_def ses_updates node_updates save_sys_def Let_def)
  then have "online (cops_line im r s) = online s" by (simp add: cops_line_def)
  moreover have "online (sim_line r s) = online s" "online (imsi_line r s) = online s" "online (csq_line r s) = online s"
    by (simp_all add: sim_line_def imsi_line_def csq_line_def on_node_ses Let_def)
  ultimately show ?thesis by (simp add: status_line_def Let_def link_app)
qed

lemma link_line_down: "online (link_line r s) \<Longrightarrow> online s"
  by (auto simp: link_line_def link_down_def link_closed_def on_mveh_def on_mapp_def on_node_ses on_sveh_def node_updates Let_def
      split: if_splits)

lemma link_answer: "online (dial_answer f s) \<Longrightarrow> online s \<or> rx_connect f"
  by (auto simp: dial_answer_def DialLink_TimeOut_Clear_def Let_def link_vehicle link_device split: dial_stage.splits if_splits)

lemma link_boot [simp]: "online (boot_line r s) = online s"
  by (simp add: boot_line_def on_node_ses)

lemma link_refused: "refused_line s = Some s' \<Longrightarrow> online s' = online s"
  by (auto simp: refused_line_def rx_over_def split: if_splits)

lemma link_dns [simp]: "online (dns_line r s) = online s"
  by (simp add: dns_line_def Let_def link_app)

lemma link_reported:
  assumes "online (GSM_Process im m s)" and "\<not> online s"
  shows "strneq (splice 0 m (splice 0 (replicate 4 0) (GSM_rx s))) (ascii ''CONNECT'') 7"
proof -
  define r where "r = splice 0 m (splice 0 (replicate 4 0) (GSM_rx s))"
  define b where "b = boot_line r (s\<lparr>GSM_rx := r\<rparr>)"
  define l where "l = link_line r (if strneq r (ascii ''%TTS: 0'') 7 then TTS_Play_End b else b)"
  have b: "\<not> online b" using assms(2) by (simp add: b_def)
  have "online (if strneq r (ascii ''%TTS: 0'') 7 then TTS_Play_End b else b) = online b" by (simp add: TTS_Play_End_def)
  then have l: "\<not> online l" using link_line_down [of r "if strneq r (ascii ''%TTS: 0'') 7 then TTS_Play_End b else b"] b
    unfolding l_def by blast
  have no: "\<not> online (dial_answer no_flags (rx_over t))" if "\<not> online t" for t
    using link_answer [of no_flags "rx_over t"] that by (auto simp: no_flags_def rx_over_def)
  have hex: "online (Get_GSM_HexData u n k t) = online t" for u n k t
    by (simp add: Get_GSM_HexData_def App_rxGsmData_SemRelease_def split_beta)
  have "online (dial_answer (line_flags r) (rx_over (status_line im r l)))"
    using assms(1) b l unfolding GSM_Process_def Let_def r_def [symmetric] b_def [symmetric] l_def [symmetric]
    by (auto simp: no hex split: if_splits option.splits dest: link_refused)
  then show ?thesis using link_answer l by (fastforce simp: rx_over_def line_flags_def r_def)
qed

text \<open>The text in the line buffer decides: a line ends with a line feed, so what is left of older lines does not matter.\<close>

lemma strneq_prefix:
  assumes "strneq r c n" and "length c = n" and "0 \<notin> set c"
  shows "\<exists>t. r = c @ t"
proof -
  have c: "cstr c = c" using assms(3) by (auto simp: cstr_def takeWhile_eq_all_conv)
  have p: "take n (cstr r @ [0]) = c" using assms(1,2) c by (simp add: strneq_def)
  have n: "n \<le> length (cstr r)"
  proof (rule ccontr)
    assume "\<not> n \<le> length (cstr r)"
    then have "cstr r @ [0] = c" using p by simp
    then have "0 \<in> set c" by (metis in_set_conv_decomp)
    with assms(3) show False ..
  qed
  then have "c = take n (cstr r)" using p by simp
  then have "r = c @ drop n (cstr r) @ dropWhile (\<lambda>b. b \<noteq> 0) r"
    unfolding cstr_def by (metis append.assoc append_take_drop_id takeWhile_dropWhile_id)
  then show ?thesis by blast
qed

lemma connect_in_line:
  assumes "strneq (splice 0 m z) (ascii ''CONNECT'') 7" and "m \<noteq> []" and "last m = 0x0A"
  shows "\<exists>v. m = ascii ''CONNECT'' @ v"
proof -
  let ?c = "ascii ''CONNECT''"
  have c: "length ?c = 7" "0 \<notin> set ?c" "0x0A \<notin> set ?c" by (simp_all add: ascii_def)
  obtain t where "m @ drop (length m) z = ?c @ t" using strneq_prefix [OF assms(1) c(1,2)] by (auto simp: splice_def)
  then obtain u where "m = ?c @ u \<or> m @ u = ?c" by (auto simp: append_eq_append_conv2)
  moreover have "m @ u \<noteq> ?c"
  proof
    assume "m @ u = ?c"
    moreover have "last m \<in> set m" using assms(2) by simp
    ultimately show False using assms(3) c(3) by (metis Un_iff set_append)
  qed
  ultimately show ?thesis by blast
qed

text \<open>
  The events of the modem: a byte arrives, the modem thread makes a turn, a second passes, the application takes over
  a received text.
\<close>

datatype modem_event =
  Byte u8
| Turn
| Tick "nat \<times> nat \<times> nat \<times> nat \<times> nat \<times> nat"
| Take

inductive modem_step :: "layout \<Rightarrow> modem \<Rightarrow> modem_event \<Rightarrow> modem \<Rightarrow> bool" for L where
  byte: "modem_step L s (Byte b) (GSM_RxHandler b s)"
| turn: "modem_step L s Turn (gsm_turn (conf_img L) s)"
| tick: "modem_step L s (Tick now) (timeout_gsm (conf_img L) now s)"
| take: "modem_step L s Take (app_take L s)"

inductive modem_run :: "layout \<Rightarrow> modem \<Rightarrow> modem_event list \<Rightarrow> modem \<Rightarrow> bool" for L where
  still: "modem_run L s [] s"
| further: "modem_run L s es s' \<Longrightarrow> modem_step L s' e s'' \<Longrightarrow> modem_run L s (es @ [e]) s''"

inductive_cases modem_stepE: "modem_step L s e s'"

definition received :: "modem_event list \<Rightarrow> bytes" where
  "received es = concat (map (\<lambda>e. case e of Byte b \<Rightarrow> [b] | _ \<Rightarrow> []) es)"

lemma received_snoc: "received (es @ [e]) = received es @ (case e of Byte b \<Rightarrow> [b] | _ \<Rightarrow> [])"
  by (simp add: received_def)

text \<open>What waits in the buffer and in the queue was received, and every message ends with a line feed.\<close>

definition queued :: "bytes \<Rightarrow> modem \<Rightarrow> bool" where
  "queued bs s \<longleftrightarrow> suffix (GSM_INT_BUFF s) bs \<and> (\<forall>m \<in> set (mq_GSM s). m \<noteq> [] \<and> last m = 0x0A \<and> sublist m bs)"

lemma queued_byte: "queued bs s \<Longrightarrow> queued (bs @ [b]) (GSM_RxHandler b s)"
  unfolding queued_def GSM_RxHandler_def Let_def
  by (auto simp: suffix_def sublist_append intro: sublist_appendI)

definition queue_view :: "modem \<Rightarrow> bytes \<times> bytes list" where
  "queue_view s = (GSM_INT_BUFF s, mq_GSM s)"

lemmas queue_defs = queue_view_def ses_updates stage_def rt_hw_gsm_output_def next_initial_def

lemma queue_turn_parts:
  "queue_view (IMSIcode_Get s) = queue_view s" "queue_view (GSM_Module_TotalInitial s) = queue_view s" "queue_view (gsm_send s) = queue_view s"
  "queue_view (Dial_step_Single_10ms_timer s) = queue_view s" "queue_view (TTS_Data_Play s) = queue_view s"
  "queue_view (GSM_CSQ_Query s) = queue_view s" "queue_view (DataLink_Process s) = queue_view s"
  by (simp_all add: IMSIcode_Get_def GSM_Module_TotalInitial_def gsm_send_def Dial_step_Single_10ms_timer_def TTS_Data_Play_def
      GSM_CSQ_Query_def DataLink_Process_def dial_work_def dial_prepare_def use_aux_link_def Data_Send_def Let_def queue_defs
      split: dial_stage.split)

lemma queue_second:
  "queue_view (timeout_gsm im now s) = queue_view s"
proof -
  have "queue_view (GPRS_GSM_PowerON s) = queue_view s" for s by (simp add: GPRS_GSM_PowerON_def Let_def queue_defs)
  moreover have "queue_view (End_Datalink s) = queue_view s" for s
    by (simp add: End_Datalink_def cut_link_def Redial_Init_def Let_def queue_defs)
  moreover have "queue_view (ISP_Timer s) = queue_view s" for s by (simp add: ISP_Timer_def Let_def queue_defs)
  moreover have "queue_view (TTS_Exception_TimeLimt s) = queue_view s" for s by (simp add: TTS_Exception_TimeLimt_def queue_defs)
  moreover have "queue_view (VOC_REC_process s) = queue_view s" for s
    by (simp add: VOC_REC_process_def voc_command_def Let_def queue_defs)
  moreover have "queue_view (DialLink_TimeOut_Process im s) = queue_view s" for s
    by (simp add: DialLink_TimeOut_Process_def Let_def queue_defs)
  moreover have "queue_view (GSM_CSQ_timeout s) = queue_view s" for s by (simp add: GSM_CSQ_timeout_def Let_def queue_defs)
  moreover have "queue_view (on_mveh f s) = queue_view s" "queue_view (on_mdev g s) = queue_view s" for f g s by (simp_all add: queue_defs)
  ultimately show ?thesis by (simp add: timeout_gsm_def Let_def split_beta)
qed

lemma queue_line: "queue_view (GSM_Process im m s) = queue_view s"
proof -
  have boot: "queue_view (boot_line r s) = queue_view s" for r s by (simp add: boot_line_def queue_defs)
  have data: "queue_view (VOC_REC_dataGet r s) = queue_view s" for r s
    by (simp add: VOC_REC_dataGet_def Let_def split_beta queue_defs)
  have rest: "queue_view (Get_GSM_HexData u n k s) = queue_view s" "queue_view (VOC_REC_getinfolen r s) = queue_view s"
    "queue_view (TTS_Play_End s) = queue_view s" "queue_view (link_line r s) = queue_view s" "queue_view (dns_line r s) = queue_view s"
    "queue_view (rx_over s) = queue_view s" "queue_view (s\<lparr>GSM_rx := r\<rparr>) = queue_view s" "queue_view (s\<lparr>voc := v\<rparr>) = queue_view s" for u n k r v s
    by (simp_all add: Get_GSM_HexData_def App_rxGsmData_SemRelease_def VOC_REC_getinfolen_def TTS_Play_End_def link_line_def
        dns_line_def rx_over_def split_beta Let_def queue_defs)
  have parts: "queue_view (on_mapp f s) = queue_view s" "queue_view (speaker b s) = queue_view s" "queue_view (next_initial s) = queue_view s"
    "queue_view (online_error s) = queue_view s" "queue_view (csq_line r s) = queue_view s" "queue_view (sim_line r s) = queue_view s"
    "queue_view (imsi_line r s) = queue_view s" "queue_view (s\<lparr>Dial_jump_State := n, Dnsr_state := k\<rparr>) = queue_view s"
    "queue_view (s\<lparr>COPS_Couter := n\<rparr>) = queue_view s" "queue_view (s\<lparr>Online_error_counter := n\<rparr>) = queue_view s" for f b r n k s
    by (simp_all add: online_error_def csq_line_def sim_line_def imsi_line_def Let_def queue_defs)
  have lines: "queue_view (cops_line im r s) = queue_view s" "queue_view (error_line s) = queue_view s" for r s
    by (simp_all add: cops_line_def use_apn_def error_line_def TTS_ACK_Error_Process_def Let_def parts) (simp_all add: queue_defs)
  have status: "queue_view (status_line im r s) = queue_view s" for r s
    unfolding status_line_def Let_def by (simp add: parts lines)
  have answer: "queue_view (dial_answer f s) = queue_view s" for f s
    by (simp add: dial_answer_def DialLink_TimeOut_Clear_def Let_def queue_defs split: dial_stage.split)
  have refused: "refused_line s = Some s' \<Longrightarrow> queue_view s' = queue_view s" for s s'
    by (auto simp: refused_line_def use_aux_link_def rx_over_def queue_defs split: if_splits)
  show ?thesis
    by (auto simp: GSM_Process_def Let_def boot data rest status answer split: option.split if_splits dest: refused)
qed

lemma queued_view: "queue_view s' = queue_view s \<Longrightarrow> queued bs s' = queued bs s"
  by (simp add: queue_view_def queued_def)

lemma queued_read:
  assumes "queued bs s"
  shows "queued bs (GSM_Buffer_Read_Process im s)"
proof (cases "mq_GSM s")
  case Nil
  with assms show ?thesis by (simp add: GSM_Buffer_Read_Process_def)
next
  case (Cons m q)
  then have "queued bs (s\<lparr>mq_GSM := q\<rparr>)" using assms by (simp add: queued_def)
  with Cons show ?thesis using queued_view [OF queue_line] by (simp add: GSM_Buffer_Read_Process_def)
qed

lemma queued_turn: "queued bs s \<Longrightarrow> queued bs (gsm_turn im s)"
  by (simp add: gsm_turn_def queued_view [OF queue_turn_parts(3)] queued_view [OF queue_turn_parts(4)] queued_view [OF queue_turn_parts(5)]
      queued_view [OF queue_turn_parts(6)] queued_view [OF queue_turn_parts(7)] queued_read queued_view [OF queue_turn_parts(1)]
      queued_view [OF queue_turn_parts(2)])

lemma turn_reported:
  assumes "queued bs s" and "online (gsm_turn im s)" and "\<not> online s"
  shows "sublist (ascii ''CONNECT'') bs"
proof -
  let ?i = "GSM_Module_TotalInitial (IMSIcode_Get s)"
  have i: "queued bs ?i" "\<not> online ?i"
    using assms by (simp_all add: queued_view [OF queue_turn_parts(1)] queued_view [OF queue_turn_parts(2)])
  have r: "online (GSM_Buffer_Read_Process im ?i)" using assms(2) by (simp add: gsm_turn_def)
  then obtain m q where q: "mq_GSM ?i = m # q" using i(2) by (cases "mq_GSM ?i") (auto simp: GSM_Buffer_Read_Process_def)
  then have "online (GSM_Process im m (?i\<lparr>mq_GSM := q\<rparr>))" using r by (simp add: GSM_Buffer_Read_Process_def)
  then have "strneq (splice 0 m (splice 0 (replicate 4 0) (GSM_rx (?i\<lparr>mq_GSM := q\<rparr>)))) (ascii ''CONNECT'') 7"
    using i(2) by (intro link_reported) simp_all
  moreover have m: "m \<noteq> []" "last m = 0x0A" "sublist m bs" using i(1) q by (simp_all add: queued_def)
  ultimately obtain v where "m = ascii ''CONNECT'' @ v" using connect_in_line by blast
  then show ?thesis using m(3) by (auto intro: sublist_order.order_trans [of _ m])
qed

lemma link_second: "online (timeout_gsm im now s) \<Longrightarrow> online s"
proof -
  have "online (GPRS_GSM_PowerON s) = online s" for s by (simp add: GPRS_GSM_PowerON_def on_node_ses Let_def)
  moreover have "online (End_Datalink s) \<Longrightarrow> online s" for s
    by (auto simp: End_Datalink_def cut_link_def Redial_Init_def Let_def ses_updates node_updates rt_hw_gsm_output_def split: if_splits)
  moreover have "online (ISP_Timer s) = online s" for s by (simp add: ISP_Timer_def Let_def link_vehicle)
  moreover have "online (TTS_Exception_TimeLimt s) = online s" for s by (simp add: TTS_Exception_TimeLimt_def)
  moreover have "online (DialLink_TimeOut_Process im s) = online s" for s
    by (simp add: DialLink_TimeOut_Process_def RstWrite_ACConoff_counter_def save_jt_def save_tired_def Let_def ses_updates node_updates)
  moreover have "online (GSM_CSQ_timeout s) = online s" for s by (simp add: GSM_CSQ_timeout_def Let_def)
  ultimately show "online (timeout_gsm im now s) \<Longrightarrow> online s"
    by (simp add: timeout_gsm_def Let_def split_beta link_vehicle link_device) blast
qed

lemma run_reported:
  assumes "modem_run L s es s'" and "queued [] s" and "\<not> online s"
  shows "queued (received es) s' \<and> (online s' \<longrightarrow> sublist (ascii ''CONNECT'') (received es))"
  using assms
proof (induction rule: modem_run.induct)
  case (still s)
  then show ?case by (simp add: received_def)
next
  case (further s es s' e s'')
  from further.hyps(2) show ?case
  proof cases
    case (byte b)
    have "online (GSM_RxHandler b s') = online s'" by (simp add: GSM_RxHandler_def Let_def)
    with byte further show ?thesis by (auto simp: received_snoc queued_byte sublist_append)
  next
    case turn
    with further show ?thesis using turn_reported [of "received es" s'] by (auto simp: received_snoc queued_turn)
  next
    case (tick now)
    with further show ?thesis using link_second queued_view [OF queue_second] by (auto simp: received_snoc)
  next
    case take
    have "queue_view (app_take L s') = queue_view s'" by (simp add: app_take_def queue_defs split: option.split prod.split)
    moreover have "online (app_take L s') = online s'"
      by (simp add: app_take_def app808_receive_def link_received split: option.split prod.split)
    ultimately show ?thesis using take further queued_view [of "app_take L s'" s'] by (simp add: received_snoc)
  qed
qed

text \<open>
  (C4) The link is up only when the modem says so: in every sequence of received bytes, turns of the modem thread, seconds and texts
  taken over by the application that leads from a state without link to one with a link, the modem sent the word CONNECT.
\<close>

theorem link_only_if_reported:
  assumes "modem_run L s es s'" and "mq_GSM s = []" and "GSM_INT_BUFF s = []" and "\<not> online s" and "online s'"
  shows "sublist (ascii ''CONNECT'') (received es)"
  using run_reported [OF assms(1) _ assms(4)] assms(2,3,5) by (simp add: queued_def)

section \<open>Data through the modem\<close>

lemma quote_pos_data:
  assumes "0x22 \<notin> set p" and "length p < 20"
  shows "quote_pos (p @ 0x22 # y) = length p"
proof -
  have "takeWhile (\<lambda>b. b \<noteq> 0x22) (p @ 0x22 # w) = p" for w using assms(1) by (induction p) auto
  then show ?thesis using assms(2) by (simp add: quote_pos_def take_Cons')
qed

lemma strneq_differs: "a \<noteq> b \<Longrightarrow> 0 < n \<Longrightarrow> \<not> strneq (a # x) (b # y) n"
  by (cases n) (auto simp: strneq_def cstr_def)

text \<open>A report of data: the head up to the quotation mark, the digits of the bytes and the end of the line.\<close>

definition data_line :: "bytes \<Rightarrow> bytes \<Rightarrow> bytes \<Rightarrow> bytes" where
  "data_line p f tail = ascii ''%IPDATA:1'' @ p @ [0x22] @ GSM_HextoAscii_Convert f @ tail"

lemma data_line_process:
  fixes p f tail s
  defines "n \<equiv> 2 * length f + length tail - 4"
  assumes "0x22 \<notin> set p" and "length p < 11" and "4 \<le> 2 * length f + length tail" and "length (data_line p f tail) < 1400"
    and "Dial_step (DataDial s) = Dial_Idle"
  shows "\<exists>z. ses (GSM_Process im (data_line p f tail) s) = ses s \<and>
    app_rx (GSM_Process im (data_line p f tail) s) = Some (snd (GSM_AsciitoHEX_Convert (GSM_HextoAscii_Convert f @ tail @ z) n 0 (GSM_HEX s)), 0) \<and>
    GSM_HEX (GSM_Process im (data_line p f tail) s) = fst (GSM_AsciitoHEX_Convert (GSM_HextoAscii_Convert f @ tail @ z) n 0 (GSM_HEX s))"
proof -
  define z where "z = drop (length (data_line p f tail)) (splice 0 (replicate 4 0) (GSM_rx s))"
  let ?q = "ascii ''%IPDATA:1'' @ p"
  let ?r = "splice 0 (data_line p f tail) (splice 0 (replicate 4 0) (GSM_rx s))"
  have r: "?r = ?q @ 0x22 # GSM_HextoAscii_Convert f @ tail @ z" by (simp add: splice_def z_def data_line_def)
  have q: "quote_pos ?r = 9 + length p"
    unfolding r using assms(2,3) by (subst quote_pos_data) (auto simp: ascii_def)
  have "?r = (?q @ [0x22]) @ GSM_HextoAscii_Convert f @ tail @ z" unfolding r by simp
  moreover have "length (?q @ [0x22]) = Suc (9 + length p)" by (simp add: ascii_def)
  ultimately have d: "drop (Suc (9 + length p)) ?r = GSM_HextoAscii_Convert f @ tail @ z" by (metis append_eq_conv_conj)
  have l: "length (data_line p f tail) = 10 + length p + 2 * length f + length tail" by (simp add: data_line_def ascii_def)
  have n: "u16 (65536 + length (data_line p f tail) - (9 + length p) - 5) = n"
  proof -
    define m where "m = 2 * length f + length tail"
    have "4 \<le> m" "m < 65540" using assms(4,5) l by (simp_all add: m_def)
    then have "(65532 + m) mod 65536 = m - 4" using mod_less [of "m - 4" 65536] mod_add_self2 [of "m - 4" 65536] by simp
    then show ?thesis unfolding l n_def by (simp add: u16_def m_def)
  qed
  have head: "?r = 0x25 # 0x49 # 0x50 # 0x44 # 0x41 # 0x54 # 0x41 # 0x3A # 0x31 # p @ 0x22 # GSM_HextoAscii_Convert f @ tail @ z"
    unfolding r by (simp add: ascii_def)
  have starts: "\<not> strneq ?r (ascii ''AT-Command Interpreter ready'') 20" "\<not> strneq ?r (ascii ''%RECFGET: '') 9"
    "strneq ?r (ascii ''%IPDATA:1'') 9"
    unfolding head by (simp_all add: strneq_def cstr_def ascii_def)
  have "GSM_Process im (data_line p f tail) s = stage Dial_Idle (rx_over (Get_GSM_HexData (GSM_HextoAscii_Convert f @ tail @ z) n 0
      (s\<lparr>GSM_rx := ?r\<rparr>)))"
    using starts assms(6) unfolding GSM_Process_def Let_def
    by (simp add: boot_line_def q d [simplified] n [simplified] dial_answer_def no_flags_def rx_over_def Get_GSM_HexData_def App_rxGsmData_SemRelease_def split_beta)
  then show ?thesis
    by (intro exI [of _ z]) (simp add: stage_def rx_over_def Get_GSM_HexData_def App_rxGsmData_SemRelease_def split_beta)
qed

lemma line_read:
  assumes "0x0A \<notin> set l" and "length l < 1397" and "GSM_INT_BUFF s = []" and "mq_GSM s = []"
  shows "GSM_Buffer_Read_Process im (fold GSM_RxHandler (l @ [0x0D, 0x0A]) s) = GSM_Process im (l @ [0x0D, 0x0A]) (s\<lparr>former_byte := 0x0A\<rparr>)"
proof -
  have "s\<lparr>former_byte := 0x0A, mq_GSM := []\<rparr> = s\<lparr>former_byte := 0x0A\<rparr>" using assms(4) by (cases s) simp
  then have "GSM_Process im m (s\<lparr>former_byte := 0x0A, mq_GSM := []\<rparr>) = GSM_Process im m (s\<lparr>former_byte := 0x0A\<rparr>)" for m
    by (simp only:)
  then show ?thesis using rx_handler_line [OF assms(1-3)] assms(4) by (simp add: GSM_Buffer_Read_Process_def)
qed

lemma splice_all: "length bs \<le> length buf \<Longrightarrow> take (length bs) (splice 0 bs buf) = bs"
  by (simp add: splice_def)

text \<open>A line whose digits are followed by two bytes before the line end.\<close>

lemma data_line_whole:
  assumes "set p \<inter> {0x0A, 0x22} = {}" and "length p < 11" and "a \<noteq> 0x0A" and "b \<noteq> 0x0A" and "0 < length f" and "length f \<le> 600"
    and "GSM_INT_BUFF s = []" and "mq_GSM s = []" and "length (GSM_HEX s) = 1024" and "Dial_step (DataDial s) = Dial_Idle"
  shows "ses (app_take L (GSM_Buffer_Read_Process im (fold GSM_RxHandler (data_line p f [a, b, 0x0D, 0x0A]) s))) =
    app808_receive L (Some (0, f, length f)) (ses s)"
proof -
  let ?l = "data_line p f [a, b]" and ?s = "s\<lparr>former_byte := 0x0A\<rparr>"
  have l: "data_line p f [a, b, 0x0D, 0x0A] = ?l @ [0x0D, 0x0A]" by (simp add: data_line_def)
  have "0x0A \<notin> set ?l" using assms(1,3,4) hex_digit_no [of "0x0A" f] by (auto simp: data_line_def ascii_def)
  moreover have "length ?l < 1397" using assms(2,6) by (simp add: data_line_def ascii_def)
  ultimately have read: "GSM_Buffer_Read_Process im (fold GSM_RxHandler (data_line p f [a, b, 0x0D, 0x0A]) s) =
      GSM_Process im (data_line p f [a, b, 0x0D, 0x0A]) ?s"
    unfolding l using assms(7,8) by (rule line_read)
  have h: "GSM_AsciitoHEX_Convert (GSM_HextoAscii_Convert f @ y) (2 * length f) 0 (GSM_HEX s) = (splice 0 f (GSM_HEX s), length f)" for y
    using assms(6,9) by (intro AsciitoHEX_digits) simp
  obtain z where "ses (GSM_Process im (data_line p f [a, b, 0x0D, 0x0A]) ?s) = ses s"
    "app_rx (GSM_Process im (data_line p f [a, b, 0x0D, 0x0A]) ?s) = Some (length f, 0)"
    "GSM_HEX (GSM_Process im (data_line p f [a, b, 0x0D, 0x0A]) ?s) = splice 0 f (GSM_HEX s)"
    using data_line_process [of p f "[a, b, 0x0D, 0x0A]" ?s im] assms h by (auto simp: data_line_def ascii_def)
  then show ?thesis using assms(6,9) unfolding read by (simp add: app_take_def splice_all)
qed

lemma digits_cut:
  assumes "f \<noteq> []"
  shows "take (2 * length f - 1) (GSM_HextoAscii_Convert f @ y) = GSM_HextoAscii_Convert (butlast f) @ [hex_digit (unat (last f) div 16)]"
proof -
  have "GSM_HextoAscii_Convert f = GSM_HextoAscii_Convert (butlast f @ [last f])" using assms by simp
  also have "\<dots> = GSM_HextoAscii_Convert (butlast f) @ [hex_digit (unat (last f) div 16), hex_digit (unat (last f) mod 16)]"
    unfolding GSM_HextoAscii_Convert_def by simp
  finally have e: "GSM_HextoAscii_Convert f =
      GSM_HextoAscii_Convert (butlast f) @ [hex_digit (unat (last f) div 16), hex_digit (unat (last f) mod 16)]" .
  have "2 * length f - 1 = length (GSM_HextoAscii_Convert (butlast f)) + 1" using assms by (cases f) auto
  then show ?thesis unfolding e by simp
qed

text \<open>A line whose digits are followed by the quotation mark and the line end, as in the example in the code.\<close>

lemma data_line_of_example_cut:
  assumes "set p \<inter> {0x0A, 0x22} = {}" and "length p < 11" and "0 < length f" and "length f \<le> 600"
    and "GSM_INT_BUFF s = []" and "mq_GSM s = []" and "length (GSM_HEX s) = 1024" and "Dial_step (DataDial s) = Dial_Idle"
  shows "ses (app_take L (GSM_Buffer_Read_Process im (fold GSM_RxHandler (data_line p f [0x22, 0x0D, 0x0A]) s))) =
    app808_receive L (Some (0, butlast f, length f - 1)) (ses s)"
proof -
  let ?l = "data_line p f [0x22]" and ?s = "s\<lparr>former_byte := 0x0A\<rparr>" and ?h = "push_bit 4 (HexValue (hex_digit (unat (last f) div 16)))"
  have l: "data_line p f [0x22, 0x0D, 0x0A] = ?l @ [0x0D, 0x0A]" by (simp add: data_line_def)
  have "0x0A \<notin> set ?l" using assms(1) hex_digit_no [of "0x0A" f] by (auto simp: data_line_def ascii_def)
  moreover have "length ?l < 1397" using assms(2,4) by (simp add: data_line_def ascii_def)
  ultimately have read: "GSM_Buffer_Read_Process im (fold GSM_RxHandler (data_line p f [0x22, 0x0D, 0x0A]) s) =
      GSM_Process im (data_line p f [0x22, 0x0D, 0x0A]) ?s"
    unfolding l using assms(5,6) by (rule line_read)
  have h: "GSM_AsciitoHEX_Convert (GSM_HextoAscii_Convert f @ y) (2 * length f - 1) 0 (GSM_HEX s) =
      ((splice 0 (butlast f) (GSM_HEX s))[length f - 1 := ?h], length f - 1)" for y
    using assms(3,4,7) digits_cut [of f y] to_hex_digits [of 0 "butlast f" "GSM_HEX s" "[hex_digit (unat (last f) div 16)]"]
    by (auto simp: GSM_AsciitoHEX_Convert_def)
  obtain z where "ses (GSM_Process im (data_line p f [0x22, 0x0D, 0x0A]) ?s) = ses s"
    "app_rx (GSM_Process im (data_line p f [0x22, 0x0D, 0x0A]) ?s) = Some (length f - 1, 0)"
    "GSM_HEX (GSM_Process im (data_line p f [0x22, 0x0D, 0x0A]) ?s) = (splice 0 (butlast f) (GSM_HEX s))[length f - 1 := ?h]"
    using data_line_process [of p f "[0x22, 0x0D, 0x0A]" ?s im] assms h by (auto simp: data_line_def ascii_def)
  moreover have "take (length f - 1) ((splice 0 (butlast f) (GSM_HEX s))[length f - 1 := ?h]) = butlast f"
    using assms(4,7) splice_all [of "butlast f" "GSM_HEX s"] by simp
  ultimately show ?thesis unfolding read by (simp add: app_take_def)
qed

text \<open>
  (C7) What the application gets of what the centre sends: the modem reports the bytes of the centre as digits in a line that
  arrives byte by byte, with one or two bytes, the first of them the quotation mark, between the last digit and the line
  end; the modem thread reads it and the application takes it over. With two such bytes the application processes exactly
  the bytes of the centre. With the quotation mark alone, the form of the example in \<^verbatim>\<open>Device_gsm.c\<close>, it gets them
  without the last one, because the length takes five bytes off the line where four follow the opening quotation mark.
\<close>

theorem data_received:
  assumes "set p \<inter> {0x0A, 0x22} = {}" and "length p < 11" and "x = [0x22] \<or> x = [0x22, b]" and "0x0A \<notin> set x"
    and "0 < length f" and "length f \<le> 600"
    and "GSM_INT_BUFF s = []" and "mq_GSM s = []" and "length (GSM_HEX s) = 1024" and "Dial_step (DataDial s) = Dial_Idle"
  shows "ses (app_take L (GSM_Buffer_Read_Process im (fold GSM_RxHandler (data_line p f (x @ [0x0D, 0x0A])) s))) =
    app808_receive L (Some (0, take (length f + length x - 2) f, length f + length x - 2)) (ses s)"
  using assms(3)
proof
  assume x: "x = [0x22]"
  have "ses (app_take L (GSM_Buffer_Read_Process im (fold GSM_RxHandler (data_line p f [0x22, 0x0D, 0x0A]) s))) =
      app808_receive L (Some (0, butlast f, length f - 1)) (ses s)"
    using assms(1,2,5-10) by (intro data_line_of_example_cut)
  then show ?thesis by (simp add: x butlast_conv_take)
next
  assume x: "x = [0x22, b]"
  have "ses (app_take L (GSM_Buffer_Read_Process im (fold GSM_RxHandler (data_line p f [0x22, b, 0x0D, 0x0A]) s))) =
      app808_receive L (Some (0, f, length f)) (ses s)"
    using assms(4) x by (intro data_line_whole [OF assms(1,2)] assms(5-10)) auto
  then show ?thesis by (simp add: x)
qed

text \<open>
  (C30) What the modem thread sends: the frame handed over last goes to the modem as digits that stand for exactly its bytes; frames handed over
  before it in the same turn are lost, and all go to the first link, whatever link they were meant for.
\<close>

theorem only_last_frame_sent:
  assumes "online s" and "tx (mdev s) = ts @ lost @ [(g, k)]" and "taken s = length ts"
  shows "\<exists>h. gsm_out (ses (gsm_send s)) = gsm_out (ses s) @ [ascii ''AT%IPSENDX=1,\"'' @ h @ [0x22, 0x0D, 0x0A]] \<and>
    GSM_AsciitoHEX_Convert h (length h) 0 (replicate (length g) 0) = (g, length g) \<and> gsm_send (gsm_send s) = gsm_send s"
proof (intro exI [of _ "GSM_HextoAscii_Convert g"] conjI)
  show "gsm_out (ses (gsm_send s)) = gsm_out (ses s) @ [ascii ''AT%IPSENDX=1,\"'' @ GSM_HextoAscii_Convert g @ [0x22, 0x0D, 0x0A]]"
    using assms by (simp add: gsm_send_def Let_def Data_Send_def rt_hw_gsm_output_Data_def)
  show "GSM_AsciitoHEX_Convert (GSM_HextoAscii_Convert g) (length (GSM_HextoAscii_Convert g)) 0 (replicate (length g) 0) = (g, length g)"
    using AsciitoHEX_digits [of 0 g "replicate (length g) 0" "[]"] by (simp add: splice_def)
  show "gsm_send (gsm_send s) = gsm_send s"
    using assms by (simp add: gsm_send_def Let_def Data_Send_def rt_hw_gsm_output_Data_def)
qed

text \<open>
  Failures that are not recognised: the texts are compared with the whole line, which ends with its line end, so that of the failure
  reports only NO CARRIER is; a busy, unanswered or dead line is not. The errors 14 and 19 are compared over more characters than the
  texts have and do not count as refused.
\<close>

theorem failures_not_recognised:
  assumes "0 \<notin> set l"
  shows "rx_failed (line_flags (l @ [0x0D, 0x0A] @ z)) = strneq (l @ [0x0D, 0x0A] @ z) (ascii ''NO CARRIER'') 10 \<and>
    \<not> rx_failed (line_flags (command ''BUSY'' @ z)) \<and> \<not> rx_failed (line_flags (command ''NO ANSWER'' @ z)) \<and>
    \<not> refused (command ''ERROR: 14'' @ z) \<and> \<not> refused (command ''ERROR: 19'' @ z)"
proof -
  have c: "cstr (l @ [0x0D, 0x0A] @ z) = l @ [0x0D, 0x0A] @ cstr z"
    using assms unfolding cstr_def by (induction l) auto
  have no: "\<not> streq (l @ [0x0D, 0x0A] @ z) t" if "0x0D \<notin> set (ascii t)" for t
  proof
    assume "streq (l @ [0x0D, 0x0A] @ z) t"
    then have "l @ [0x0D, 0x0A] @ cstr z = ascii t" unfolding streq_def c .
    then have "0x0D \<in> set (ascii t)" by (metis Un_iff list.set_intros(1) set_append)
    with that show False ..
  qed
  have "rx_failed (line_flags (l @ [0x0D, 0x0A] @ z)) = strneq (l @ [0x0D, 0x0A] @ z) (ascii ''NO CARRIER'') 10"
    using no [of "''NO DIALTONE''"] no [of "''NO ANSWER''"] no [of "''BUSY''"] by (simp add: line_flags_def ascii_def)
  moreover have "\<not> rx_failed (line_flags (command ''BUSY'' @ z))" "\<not> rx_failed (line_flags (command ''NO ANSWER'' @ z))"
    by (simp_all add: line_flags_def command_def ascii_def streq_def strneq_def cstr_def)
  moreover have "\<not> refused (command ''ERROR: 14'' @ z)" "\<not> refused (command ''ERROR: 19'' @ z)"
    by (simp_all add: refused_def command_def ascii_def strneq_def cstr_def)
  ultimately show ?thesis by simp
qed

lemma idle_modem:
  "GSM_INT_BUFF (dialling_modem sg n) = []" "mq_GSM (dialling_modem sg n) = []" "length (GSM_HEX (dialling_modem sg n)) = 1024"
  "Dial_step (DataDial (dialling_modem sg n)) = sg" "taken (dialling_modem sg n) = 0"
  by (simp_all add: dialling_modem_def new_modem_def on_node_ses)

theorem data_received_witness:
  "ses (app_take no_layout (GSM_Buffer_Read_Process no_images (fold GSM_RxHandler
     (data_line (ascii '',4,'') [0x7E, 0x7E] [0x22, 0x0D, 0x0D, 0x0A]) (dialling_modem Dial_Idle 0)))) =
   app808_receive no_layout (Some (0, [0x7E, 0x7E], 2)) (ses (dialling_modem Dial_Idle 0)) \<and>
   ses (app_take no_layout (GSM_Buffer_Read_Process no_images (fold GSM_RxHandler
     (data_line (ascii '',4,'') [0x7E, 0x7E] [0x22, 0x0D, 0x0A]) (dialling_modem Dial_Idle 0)))) =
   app808_receive no_layout (Some (0, [0x7E], 1)) (ses (dialling_modem Dial_Idle 0))"
proof -
  have p: "set (ascii '',4,'') \<inter> {0x0A, 0x22} = {}" "length (ascii '',4,'') < 11" by (simp_all add: ascii_def)
  note r = data_received [OF p _ _ _ _ idle_modem(1-3), of _ "0x0D" "[0x7E, 0x7E]" Dial_Idle 0 no_layout no_images]
  show ?thesis using r [of "[0x22, 0x0D]"] r [of "[0x22]"] by (simp add: idle_modem, simp add: numeral_2_eq_2)
qed

theorem only_last_frame_sent_witness:
  "\<exists>s h. tx (mdev s) = [([1], 0), ([2, 3], 1)] \<and> gsm_out (ses (gsm_send s)) = [ascii ''AT%IPSENDX=1,\"'' @ h @ [0x22, 0x0D, 0x0A]] \<and>
     GSM_AsciitoHEX_Convert h (length h) 0 [0, 0] = ([2, 3], 2)"
proof -
  let ?s = "on_mdev (\<lambda>d. d\<lparr>DataLink_OK := True, tx := [([1], 0), ([2, 3], 1)]\<rparr>) (dialling_modem Dial_Idle 0)"
  have d: "mdev ?s = (mdev (dialling_modem Dial_Idle 0))\<lparr>DataLink_OK := True, tx := [([1], 0), ([2, 3], 1)]\<rparr>"
    by (simp add: ses_updates node_updates)
  have "gsm_out (ses ?s) = []" "taken ?s = length []"
    by (simp_all add: on_mdev_def on_node_ses dialling_modem_def new_modem_def new_session_def)
  then show ?thesis using only_last_frame_sent [of ?s "[]" "[([1], 0)]" "[2, 3]" 1] d by (intro exI [of _ ?s]) auto
qed

theorem failures_not_recognised_witness:
  "\<not> rx_failed (line_flags (ascii ''BUSY'' @ [0x0D, 0x0A] @ [])) \<and> \<not> refused (command ''ERROR: 14'')"
  using failures_not_recognised [of "ascii ''BUSY''" "[]"] by (simp add: ascii_def strneq_def cstr_def)

section \<open>Dialling with a modem that answers\<close>

text \<open>
  A terminal that has nothing else to do: the card was found, the initial commands are over, no frame and no spoken text waits.
\<close>

definition calm :: "modem \<Rightarrow> bool" where
  "calm s \<longleftrightarrow> GSM_power_over (node_of s) = 2 \<and> Total_initial (CommAT s) = 0 \<and> taken s = length (tx (mdev s)) \<and>
     tts_Save (TTS_Var (stn (node_of s))) = 0 \<and> NeedtoPlay (TTS_Var (stn (node_of s))) = 0"

lemma on_tts_same [simp]: "on_tts (\<lambda>_. TTS_Var (stn (node_of s))) s = s"
  by (simp add: on_tts_def on_node_def on_ses_def on_stn_def)

lemma calm_start: "calm s \<Longrightarrow> GSM_Module_TotalInitial (IMSIcode_Get s) = s"
  by (simp add: calm_def IMSIcode_Get_def GSM_Module_TotalInitial_def)

lemma calm_end:
  assumes "calm s"
  shows "GSM_CSQ_Query (TTS_Data_Play s) = s" and "gsm_send s = s"
proof -
  have "tts_Save (TTS_Var (stn (node_of s))) = 0" "NeedtoPlay (TTS_Var (stn (node_of s))) \<noteq> 1" using assms by (simp_all add: calm_def)
  then have "TTS_Data_Play s = s" unfolding TTS_Data_Play_def Let_def by simp
  moreover have "GSM_CSQ_Query s = s" using assms unfolding GSM_CSQ_Query_def calm_def by simp
  ultimately show "GSM_CSQ_Query (TTS_Data_Play s) = s" by simp
  show "gsm_send s = s" using assms unfolding gsm_send_def calm_def Let_def by simp
qed

definition calm_view :: "modem \<Rightarrow> nat \<times> nat \<times> nat \<times> (bytes \<times> nat) list \<times> tts_state" where
  "calm_view s = (GSM_power_over (node_of s), Total_initial (CommAT s), taken s, tx (mdev s), TTS_Var (stn (node_of s)))"

lemma calm_eq: "calm_view s = calm_view t \<Longrightarrow> calm s = calm t"
  by (simp add: calm_view_def calm_def)

lemma calm_timer [simp]: "calm (Dial_step_Single_10ms_timer s) = calm s"
  by (rule calm_eq) (simp add: Dial_step_Single_10ms_timer_def calm_view_def)

text \<open>The state between the turns: a step of dialling waits for \<open>10 * k\<close> ticks; \<open>r\<close> commands were written for it.\<close>

definition dialling :: "dial_stage \<Rightarrow> nat \<Rightarrow> nat \<Rightarrow> modem \<Rightarrow> bool" where
  "dialling sg k r s \<longleftrightarrow> calm s \<and> Dial_ON (DataDial s) \<noteq> 0 \<and> Dial_step (DataDial s) = sg \<and> Dial_step_RetryTimer (DataDial s) = 10 * k \<and>
     Dial_step_Retry (DataDial s) = r \<and> mq_GSM s = [] \<and> GSM_INT_BUFF s = []"

lemma turn_waiting:
  assumes "dialling sg k r s" and "0 < k" and "sg \<noteq> Dial_Idle"
  shows "gsm_turn im s = Dial_step_Single_10ms_timer s" and "dialling sg (k - 1) r (gsm_turn im s)"
proof -
  have c: "calm s" and p: "DataLink_Process s = s" "GSM_Buffer_Read_Process im s = s"
    using assms by (simp_all add: dialling_def DataLink_Process_def GSM_Buffer_Read_Process_def)
  show t: "gsm_turn im s = Dial_step_Single_10ms_timer s"
    by (simp add: gsm_turn_def calm_start [OF c] p calm_end(2) [OF c] calm_end(1) c)
  show "dialling sg (k - 1) r (gsm_turn im s)"
    unfolding t using assms by (auto simp: dialling_def) (simp_all add: Dial_step_Single_10ms_timer_def)
qed

lemma turns_waiting:
  assumes "dialling sg k r s" and "sg \<noteq> Dial_Idle"
  shows "dialling sg 0 r ((gsm_turn im ^^ k) s) \<and> ses ((gsm_turn im ^^ k) s) = ses s \<and> Dnsr_state ((gsm_turn im ^^ k) s) = Dnsr_state s"
  using assms(1)
proof (induction k arbitrary: s)
  case (Suc k)
  have d: "dialling sg k r (gsm_turn im s)" using turn_waiting(2) [OF Suc.prems _ assms(2)] by simp
  have "ses (gsm_turn im s) = ses s" "Dnsr_state (gsm_turn im s) = Dnsr_state s"
    using turn_waiting(1) [OF Suc.prems _ assms(2)] by (simp_all add: Dial_step_Single_10ms_timer_def)
  with Suc.IH [OF d] show ?case by (simp add: funpow_swap1)
qed simp

text \<open>When the time has passed the command of the step is written.\<close>

lemma dial_time_mult: "\<exists>k. dial_time sg = 10 * Suc k"
proof -
  have "dial_time sg \<in> {100, 200, 300, 3000}" by (cases sg) simp_all
  then show ?thesis by (elim insertE emptyE) (presburger+)
qed

lemma turn_command:
  assumes "dialling sg 0 0 s" and "sg \<noteq> Dial_Idle" and "sg = Dial_MainLnk \<Longrightarrow> Dnsr_state s \<noteq> 0"
  shows "\<exists>k. dialling sg k 1 (gsm_turn im s)"
    and "ses (gsm_turn im s) = (ses s)\<lparr>gsm_out := gsm_out (ses s) @ [dial_command sg s]\<rparr>"
    and "Dnsr_state (gsm_turn im s) = (if sg = Dial_DNSR1 \<or> sg = Dial_DNSR2 then 1 else Dnsr_state s)"
proof -
  have c: "calm s" and r: "GSM_Buffer_Read_Process im s = s" using assms(1) by (simp_all add: dialling_def GSM_Buffer_Read_Process_def)
  have p: "DataLink_Process s = dial_work s" using assms(1,2) by (simp add: dialling_def DataLink_Process_def)
  have w: "ses (dial_work s) = (ses s)\<lparr>gsm_out := gsm_out (ses s) @ [dial_command sg s]\<rparr>"
    "mq_GSM (dial_work s) = mq_GSM s" "GSM_INT_BUFF (dial_work s) = GSM_INT_BUFF s" "CommAT (dial_work s) = CommAT s" "taken (dial_work s) = taken s"
    "Dial_ON (DataDial (dial_work s)) = Dial_ON (DataDial s)" "Dial_step (DataDial (dial_work s)) = sg"
    "Dial_step_RetryTimer (DataDial (dial_work s)) = dial_time sg" "Dial_step_Retry (DataDial (dial_work s)) = 1"
    "Dnsr_state (dial_work s) = (if sg = Dial_DNSR1 \<or> sg = Dial_DNSR2 then 1 else Dnsr_state s)"
    using assms by (cases sg; simp add: dialling_def dial_work_def dial_prepare_def Let_def rt_hw_gsm_output_Data_def u8n_def
        dial_command_def)+
  have cw: "calm (dial_work s)" using c w by (simp add: calm_def)
  have t: "gsm_turn im s = Dial_step_Single_10ms_timer (dial_work s)"
    by (simp add: gsm_turn_def calm_start [OF c] r p calm_end(2) [OF cw] calm_end(1) cw)
  obtain k where "dial_time sg = 10 * Suc k" using dial_time_mult by blast
  then have "dialling sg k 1 (gsm_turn im s)"
    unfolding t using assms(1,2) w cw by (auto simp: dialling_def) (simp_all add: Dial_step_Single_10ms_timer_def)
  then show "\<exists>k. dialling sg k 1 (gsm_turn im s)" by blast
  show "ses (gsm_turn im s) = (ses s)\<lparr>gsm_out := gsm_out (ses s) @ [dial_command sg s]\<rparr>"
    "Dnsr_state (gsm_turn im s) = (if sg = Dial_DNSR1 \<or> sg = Dial_DNSR2 then 1 else Dnsr_state s)"
    unfolding t using w by (simp_all add: Dial_step_Single_10ms_timer_def)
qed

text \<open>The lines OK and CONNECT, whatever is left in the buffer.\<close>

lemma ok_line:
  assumes "\<not> online s"
  shows "GSM_Process im (command ''OK'') s =
    dial_answer \<lparr>rx_ok = True, rx_error = False, rx_failed = False, rx_connect = False\<rparr> (rx_over s)"
proof -
  define r where "r = splice 0 (command ''OK'') (splice 0 (replicate 4 0) (GSM_rx s))"
  obtain z where r: "r = 0x4F # 0x4B # 0x0D # 0x0A # z" by (simp add: r_def splice_def command_def ascii_def)
  have "line_flags r = \<lparr>rx_ok = True, rx_error = False, rx_failed = False, rx_connect = False\<rparr>" "\<not> refused r"
    unfolding r by (simp_all add: line_flags_def refused_def streq_def strneq_def cstr_def ascii_def)
  moreover have "boot_line r t = t" "link_line r t = t" "status_line im r t = (if online t then t\<lparr>Online_error_counter := 0\<rparr> else t)" for t
    unfolding r by (simp_all add: boot_line_def link_line_def status_line_def strneq_def cstr_def ascii_def)
  moreover have "\<not> strneq r (ascii ''%RECFGET: '') 9" "\<not> strneq r (ascii ''%IPDATA:1'') 9" "\<not> strneq r (ascii ''%RECSTOP:'') 9"
    "\<not> strneq r (ascii ''%TTS: 0'') 7" "\<not> strneq r (ascii ''%DNSR:'') 6"
    unfolding r by (simp_all add: strneq_def cstr_def ascii_def)
  ultimately show ?thesis
    using assms unfolding GSM_Process_def Let_def r_def [symmetric] by (simp add: rx_over_def)
qed

lemma connect_line:
  "GSM_Process im (command ''CONNECT'') s =
    dial_answer \<lparr>rx_ok = False, rx_error = False, rx_failed = False, rx_connect = True\<rparr> (rx_over s)"
proof -
  define r where "r = splice 0 (command ''CONNECT'') (splice 0 (replicate 4 0) (GSM_rx s))"
  obtain z where r: "r = 0x43 # 0x4F # 0x4E # 0x4E # 0x45 # 0x43 # 0x54 # 0x0D # 0x0A # z" by (simp add: r_def splice_def command_def ascii_def)
  have "line_flags r = \<lparr>rx_ok = False, rx_error = False, rx_failed = False, rx_connect = True\<rparr>" "\<not> refused r"
    unfolding r by (simp_all add: line_flags_def refused_def streq_def strneq_def cstr_def ascii_def)
  moreover have "boot_line r t = t" "link_line r t = t" "status_line im r t = t" for t
    unfolding r by (simp_all add: boot_line_def link_line_def status_line_def refused_def streq_def strneq_def cstr_def ascii_def)
  moreover have "\<not> strneq r (ascii ''%RECFGET: '') 9" "\<not> strneq r (ascii ''%IPDATA:1'') 9" "\<not> strneq r (ascii ''%RECSTOP:'') 9"
    "\<not> strneq r (ascii ''%TTS: 0'') 7" "\<not> strneq r (ascii ''%DNSR:'') 6"
    unfolding r by (simp_all add: strneq_def cstr_def ascii_def)
  ultimately show ?thesis
    unfolding GSM_Process_def Let_def r_def [symmetric] by (simp add: rx_over_def)
qed

text \<open>The steps in their order when each is answered.\<close>

definition dial_stages :: "dial_stage list" where
  "dial_stages = [Dial_DialInit0, Dial_DialInit1, Dial_DialInit2, Dial_DialInit3, Dial_DialInit4, Dial_DialInit5, Dial_DialInit6,
     Dial_DNSR1, Dial_DNSR2, Dial_MainLnk]"

abbreviation (input) ok_flags :: rx_flags where
  "ok_flags \<equiv> \<lparr>rx_ok = True, rx_error = False, rx_failed = False, rx_connect = False\<rparr>"

lemma answer_next:
  assumes "n < 9" and "Dial_step (DataDial s) = dial_stages ! n"
  shows "DataDial (dial_answer ok_flags s) = Dial_Stage (dial_stages ! Suc n) (DataDial s)"
    and "gsm_out (ses (dial_answer ok_flags s)) = gsm_out (ses s)"
    and "Dial (mapp (dial_answer ok_flags s)) = Dial (mapp s)" and "mdev (dial_answer ok_flags s) = mdev s"
    and "Regsiter_Status (mveh (dial_answer ok_flags s)) = Regsiter_Status (mveh s)"
    and "calm_view (dial_answer ok_flags s) = calm_view s" and "queue_view (dial_answer ok_flags s) = queue_view s"
    and "Dnsr_state (dial_answer ok_flags s) = Dnsr_state s"
proof -
  have "n \<in> {0, 1, 2, 3, 4, 5, 6, 7, 8}" using assms(1) by auto
  then show "DataDial (dial_answer ok_flags s) = Dial_Stage (dial_stages ! Suc n) (DataDial s)"
    "gsm_out (ses (dial_answer ok_flags s)) = gsm_out (ses s)"
    "Dial (mapp (dial_answer ok_flags s)) = Dial (mapp s)" "mdev (dial_answer ok_flags s) = mdev s"
    "Regsiter_Status (mveh (dial_answer ok_flags s)) = Regsiter_Status (mveh s)"
    "calm_view (dial_answer ok_flags s) = calm_view s" "queue_view (dial_answer ok_flags s) = queue_view s"
    "Dnsr_state (dial_answer ok_flags s) = Dnsr_state s"
    using assms(2)
    by (elim insertE emptyE; simp add: dial_stages_def dial_answer_def Let_def stage_def ses_updates node_updates calm_view_def
        queue_view_def)+
qed

text \<open>A turn in which the modem's answer to the current step is read.\<close>

lemma plain_line:
  assumes "c = ''OK'' \<or> c = ''CONNECT''" and "dialling sg k r s"
  shows "fold GSM_RxHandler (command c) s = s\<lparr>mq_GSM := [command c], former_byte := 0x0A\<rparr>"
proof -
  have "0x0A \<notin> set (ascii c)" "length (ascii c) < 1397" using assms(1) by (auto simp: ascii_def)
  then show ?thesis using rx_handler_line [of "ascii c" s] assms(2) by (simp add: command_def dialling_def)
qed

lemma turn_line:
  assumes "c = ''OK'' \<or> c = ''CONNECT''" and "dialling sg k r s"
    and "u = GSM_Process im (command c) (s\<lparr>former_byte := 0x0A, mq_GSM := []\<rparr>)" and "calm u"
    and "Dial_step_RetryTimer (DataDial u) = 100"
  shows "gsm_turn im (fold GSM_RxHandler (command c) s) = Dial_step_Single_10ms_timer u"
proof -
  let ?f = "fold GSM_RxHandler (command c) s"
  have f: "?f = s\<lparr>mq_GSM := [command c], former_byte := 0x0A\<rparr>" using assms(1,2) by (rule plain_line)
  have "calm s" using assms(2) by (simp add: dialling_def)
  then have "calm ?f" unfolding f by (subst calm_eq [of _ s]) (simp_all add: calm_view_def)
  then have i: "GSM_Module_TotalInitial (IMSIcode_Get ?f) = ?f" by (rule calm_start)
  have r: "GSM_Buffer_Read_Process im ?f = u" unfolding f assms(3) by (simp add: GSM_Buffer_Read_Process_def)
  have p: "DataLink_Process u = u" using assms(5) by (simp add: DataLink_Process_def)
  show ?thesis unfolding gsm_turn_def i r p using calm_end(2) [OF assms(4)] calm_end(1) assms(4) by simp
qed

definition dial_round :: "images \<Rightarrow> modem \<Rightarrow> modem" where
  "dial_round im s = (gsm_turn im ^^ 9) (gsm_turn im (fold GSM_RxHandler (command ''OK'') (gsm_turn im s)))"

lemma round_next:
  assumes "n < 9" and "dialling (dial_stages ! n) 0 0 s" and "\<not> online s"
  shows "dialling (dial_stages ! Suc n) 0 0 (dial_round im s)"
    and "gsm_out (ses (dial_round im s)) = gsm_out (ses s) @ [dial_command (dial_stages ! n) s]"
    and "Dial (mapp (dial_round im s)) = Dial (mapp s)" and "mdev (dial_round im s) = mdev s"
    and "Regsiter_Status (mveh (dial_round im s)) = Regsiter_Status (mveh s)"
    and "Dnsr_state (dial_round im s) = (if n = 7 \<or> n = 8 then 1 else Dnsr_state s)"
proof -
  let ?sg = "dial_stages ! n" and ?t = "dial_stages ! Suc n"
  have st: "?sg \<noteq> Dial_Idle" "?sg \<noteq> Dial_MainLnk" "?t \<noteq> Dial_Idle" "(?sg = Dial_DNSR1 \<or> ?sg = Dial_DNSR2) = (n = 7 \<or> n = 8)"
    using assms(1) by (auto simp: dial_stages_def nth_Cons' split: if_splits)
  define a where "a = gsm_turn im s"
  obtain k where k: "dialling ?sg k 1 a" using turn_command(1) [OF assms(2) st(1)] st(2) unfolding a_def by blast
  have a: "ses a = (ses s)\<lparr>gsm_out := gsm_out (ses s) @ [dial_command ?sg s]\<rparr>"
    "Dnsr_state a = (if n = 7 \<or> n = 8 then 1 else Dnsr_state s)"
    using turn_command(2,3) [OF assms(2) st(1)] st(2,4) unfolding a_def by simp_all
  define b where "b = rx_over (a\<lparr>former_byte := 0x0A, mq_GSM := []\<rparr>)"
  define u where "u = dial_answer ok_flags b"
  have b: "ses b = ses a" "Dial_step (DataDial b) = ?sg" "Dial_ON (DataDial b) \<noteq> 0" "Dnsr_state b = Dnsr_state a"
    "calm_view b = calm_view a" "queue_view b = ([], [])"
    using k by (simp_all add: b_def rx_over_def dialling_def calm_view_def queue_view_def)
  note n = answer_next [OF assms(1) b(2), folded u_def]
  have "calm u" using k n(6) b(5) calm_eq [of u a] by (simp add: dialling_def)
  moreover have "u = GSM_Process im (command ''OK'') (a\<lparr>former_byte := 0x0A, mq_GSM := []\<rparr>)"
    unfolding u_def b_def using assms(3) a(1) by (intro ok_line [symmetric]) simp
  ultimately have c: "gsm_turn im (fold GSM_RxHandler (command ''OK'') a) = Dial_step_Single_10ms_timer u"
    using n(1) by (intro turn_line [OF _ k]) (simp_all add: Dial_Stage_def)
  have d: "dialling ?t 9 0 (Dial_step_Single_10ms_timer u)"
    using \<open>calm u\<close> n(1,7) b(3,6) st(3) by (auto simp: dialling_def) (simp_all add: Dial_step_Single_10ms_timer_def Dial_Stage_def queue_view_def)
  have r: "dial_round im s = (gsm_turn im ^^ 9) (Dial_step_Single_10ms_timer u)" by (simp only: dial_round_def a_def [symmetric] c)
  note w = turns_waiting [OF d st(3), of im, folded r]
  show "dialling ?t 0 0 (dial_round im s)" using w by simp
  have e: "ses (dial_round im s) = ses u" "Dnsr_state (dial_round im s) = Dnsr_state u"
    using w by (simp_all add: Dial_step_Single_10ms_timer_def)
  show "gsm_out (ses (dial_round im s)) = gsm_out (ses s) @ [dial_command ?sg s]" "Dial (mapp (dial_round im s)) = Dial (mapp s)"
    "mdev (dial_round im s) = mdev s" "Regsiter_Status (mveh (dial_round im s)) = Regsiter_Status (mveh s)"
    "Dnsr_state (dial_round im s) = (if n = 7 \<or> n = 8 then 1 else Dnsr_state s)"
    unfolding e using n b(1,4) a by simp_all
qed

lemma dial_command_same: "Dial (mapp s) = Dial (mapp t) \<Longrightarrow> n < 10 \<Longrightarrow> dial_command (dial_stages ! n) s = dial_command (dial_stages ! n) t"
  by (auto simp: dial_command_def dial_stages_def Let_def nth_Cons' split: if_splits)

lemma rounds:
  assumes "dialling Dial_DialInit0 0 0 s" and "\<not> online s" and "n \<le> 9" and "t = (dial_round im ^^ n) s"
  shows "dialling (dial_stages ! n) 0 0 t \<and> gsm_out (ses t) = gsm_out (ses s) @ map (\<lambda>sg. dial_command sg s) (take n dial_stages) \<and>
    Dial (mapp t) = Dial (mapp s) \<and> mdev t = mdev s \<and> Regsiter_Status (mveh t) = Regsiter_Status (mveh s) \<and>
    (n = 9 \<longrightarrow> Dnsr_state t = 1)"
  using assms(3,4)
proof (induction n arbitrary: t)
  case 0
  with assms show ?case by (simp add: dial_stages_def)
next
  case (Suc n)
  let ?t = "(dial_round im ^^ n) s"
  have i: "dialling (dial_stages ! n) 0 0 ?t" "gsm_out (ses ?t) = gsm_out (ses s) @ map (\<lambda>sg. dial_command sg s) (take n dial_stages)"
    "Dial (mapp ?t) = Dial (mapp s)" "mdev ?t = mdev s" "Regsiter_Status (mveh ?t) = Regsiter_Status (mveh s)"
    using Suc.IH [OF _ refl] Suc.prems(1) by simp_all
  have n: "n < 9" "\<not> online ?t" using Suc.prems(1) assms(2) i(4) by simp_all
  note r = round_next [OF n(1) i(1) n(2), of im]
  have "take (Suc n) dial_stages = take n dial_stages @ [dial_stages ! n]"
    using n(1) by (intro take_Suc_conv_app_nth) (simp add: dial_stages_def)
  moreover have "dial_command (dial_stages ! n) ?t = dial_command (dial_stages ! n) s" using dial_command_same [OF i(3)] n(1) by simp
  ultimately show ?case using Suc.prems(2) i r by auto
qed

lemma connected:
  assumes "dialling Dial_MainLnk k 1 s" and "t = gsm_turn im (fold GSM_RxHandler (command ''CONNECT'') s)"
  shows "online t \<and> Dial_step (DataDial t) = Dial_Idle \<and> start_dial_stateFLAG (DataDial t) = 0 \<and> gsm_out (ses t) = gsm_out (ses s) \<and>
    (Regsiter_Status (mveh s) = 1 \<longrightarrow> DEV_Login_Operate_enable (mdev t) = 1)"
proof -
  define b where "b = rx_over (s\<lparr>former_byte := 0x0A, mq_GSM := []\<rparr>)"
  define u where "u = stage Dial_Idle (DialLink_TimeOut_Clear (on_ses link_connected b))"
  have b: "Dial_step (DataDial b) = Dial_MainLnk" "ses b = ses s" "calm_view b = calm_view s"
    using assms(1) by (simp_all add: b_def rx_over_def dialling_def calm_view_def)
  have e: "u = GSM_Process im (command ''CONNECT'') (s\<lparr>former_byte := 0x0A, mq_GSM := []\<rparr>)"
    unfolding connect_line using b(1) by (simp add: u_def b_def dial_answer_def)
  have v: "calm_view u = calm_view b"
    by (simp add: u_def stage_def DialLink_TimeOut_Clear_def link_connected_def on_sveh_def node_updates calm_view_def)
  then have "calm u" using assms(1) b(3) calm_eq [of u s] by (simp add: dialling_def)
  moreover have "Dial_step_RetryTimer (DataDial u) = 100" by (simp add: u_def stage_def Dial_Stage_def)
  ultimately have t: "t = Dial_step_Single_10ms_timer u"
    unfolding assms(2) using turn_line [OF _ assms(1) e] by simp
  show ?thesis unfolding t u_def using b(2)
    by (simp add: Dial_step_Single_10ms_timer_def stage_def DialLink_TimeOut_Clear_def Dial_Stage_def link_connected_def on_sveh_def
        node_updates)
qed

text \<open>
  (C5) With a modem that answers the link comes up: from the first step, with OK to each command and CONNECT to the last, the
  terminal writes the commands of all steps in their order, the link is up, the limit of time for dialling is off, and
  a registered terminal is about to log in.
\<close>

theorem dial_connects:
  assumes "dialling Dial_DialInit0 0 0 s" and "\<not> online s"
    and "s' = gsm_turn im (fold GSM_RxHandler (command ''CONNECT'') (gsm_turn im ((dial_round im ^^ 9) s)))"
  shows "online s' \<and> Dial_step (DataDial s') = Dial_Idle \<and> start_dial_stateFLAG (DataDial s') = 0 \<and>
    gsm_out (ses s') = gsm_out (ses s) @ map (\<lambda>sg. dial_command sg s) dial_stages \<and>
    (Regsiter_Status (mveh s) = 1 \<longrightarrow> DEV_Login_Operate_enable (mdev s') = 1)"
proof -
  define t where "t = (dial_round im ^^ 9) s"
  have t: "dialling Dial_MainLnk 0 0 t" "gsm_out (ses t) = gsm_out (ses s) @ map (\<lambda>sg. dial_command sg s) (take 9 dial_stages)"
    "Dial (mapp t) = Dial (mapp s)" "Regsiter_Status (mveh t) = Regsiter_Status (mveh s)" "Dnsr_state t = 1"
    using rounds [OF assms(1,2) order.refl t_def] by (simp_all add: dial_stages_def)
  have c: "ses (gsm_turn im t) = (ses t)\<lparr>gsm_out := gsm_out (ses t) @ [dial_command Dial_MainLnk t]\<rparr>"
    using turn_command(2) [OF t(1)] t(5) by simp
  obtain k where "dialling Dial_MainLnk k 1 (gsm_turn im t)" using turn_command(1) [OF t(1)] t(5) by auto
  from connected [OF this assms(3) [folded t_def]]
  have s: "online s' \<and> Dial_step (DataDial s') = Dial_Idle \<and> start_dial_stateFLAG (DataDial s') = 0 \<and>
    gsm_out (ses s') = gsm_out (ses t) @ [dial_command Dial_MainLnk t] \<and>
    (Regsiter_Status (mveh t) = 1 \<longrightarrow> DEV_Login_Operate_enable (mdev s') = 1)" by (simp add: c)
  have "dial_command Dial_MainLnk t = dial_command Dial_MainLnk s" using dial_command_same [OF t(3), of 9] by (simp add: dial_stages_def)
  moreover have "dial_stages = take 9 dial_stages @ [Dial_MainLnk]" by (simp add: dial_stages_def)
  then have "map (\<lambda>sg. dial_command sg s) dial_stages = map (\<lambda>sg. dial_command sg s) (take 9 dial_stages) @ [dial_command Dial_MainLnk s]"
    by (metis list.simps(8,9) map_append)
  ultimately show ?thesis using s t(2,4) by simp
qed

lemma new_dialling:
  "dialling Dial_DialInit0 0 0 (dialling_modem Dial_DialInit0 0)" "dialling Dial_MainLnk 0 1 (dialling_modem Dial_MainLnk 1)"
  "\<not> online (dialling_modem sg n)"
  by (simp_all add: dialling_def calm_def on_node_ses new_modem_defs)

theorem dial_connects_witness:
  "online (gsm_turn no_images (fold GSM_RxHandler (command ''CONNECT'')
     (gsm_turn no_images ((dial_round no_images ^^ 9) (dialling_modem Dial_DialInit0 0)))))"
  using dial_connects [OF new_dialling(1) new_dialling(3) refl] by blast

lemma run_bytes: "modem_run L s (map Byte l) (fold GSM_RxHandler l s)"
proof (induction l rule: rev_induct)
  case Nil
  show ?case by (simp add: still)
next
  case (snoc b l)
  then show ?case by (auto intro: further byte)
qed

theorem link_only_if_reported_witness:
  "\<exists>es s'. modem_run no_layout (dialling_modem Dial_MainLnk 1) es s' \<and> online s' \<and> sublist (ascii ''CONNECT'') (received es)"
proof -
  let ?s = "dialling_modem Dial_MainLnk 1"
  let ?t = "gsm_turn (conf_img no_layout) (fold GSM_RxHandler (command ''CONNECT'') ?s)"
  have r: "modem_run no_layout ?s (map Byte (command ''CONNECT'') @ [Turn]) ?t" by (intro further [OF run_bytes] turn)
  have o: "online ?t" using connected [OF new_dialling(2) refl] by blast
  have "mq_GSM ?s = []" "GSM_INT_BUFF ?s = []" by (simp_all add: dialling_modem_def new_modem_def on_node_ses)
  with r o show ?thesis using link_only_if_reported [OF r _ _ new_dialling(3) o] by blast
qed

end
