(* ===== verification/Gps_Nmea.thy ===== *)
theory Gps_Nmea
  imports Command808
begin

text \<open>
  The position receiver (\<^verbatim>\<open>gps/gps.c\<close>, and the functions of \<^verbatim>\<open>protocol_808/protocol_808.c\<close> that evaluate
  the fields of a sentence): the interrupt that collects the sentences, the parser of the RMC, GGA and TXT sentences, the
  conversion of time, position, speed and direction, the mileage, the mean speed of each minute, the calibration of the speed
  sensor, and the reports that time and distance trigger.
\<close>

section \<open>The state\<close>

text \<open>
  The floating point members of \<^verbatim>\<open>GPS_RMC\<close> and \<^verbatim>\<open>HDOP_value\<close> are never read and left out. \<open>rtc_set\<close> is
  the time the clock was last set to, \<open>gps_on\<close> the power pin of the receiver, \<open>mq_gps\<close> the queue of the thread, and
  \<open>vuart_out\<close> what is handed to the serial port while the receiver is updated.
\<close>

record gps_rmc =
  utc_year :: nat
  utc_mon :: nat
  utc_day :: nat
  utc_hour :: nat
  utc_min :: nat
  utc_sec :: nat
  rmc_status :: u8
  rmc_latitude :: u8
  rmc_longtitude :: u8

record gps_gprs =
  temp_Date :: bytes
  temp_Time :: bytes
  temp_Latitude :: bytes
  temp_Longitude :: bytes

record avrg_mint_speed =
  spd_datetime :: bytes
  spd_datetime_Bak :: bytes
  avgrspd :: bytes
  spd_saveFlag :: nat

record gps_abnormal =
  current_datacou :: nat
  last_datacou :: nat
  no_updateTimer :: nat
  GPS_Rst_counter :: nat
  Reset_gps :: nat

record receiver =
  nod :: node
  GPRMC :: gps_rmc
  Temp_Gps_Gprs :: gps_gprs
  UDP_dataPacket_flag :: nat
  GPS_getfirst :: nat
  GPS_datetimeFirstGet :: nat
  Satelite_num :: u8
  CurrentTime :: "nat list"
  BakTime :: "nat list"
  delta_time_seconds :: nat
  Bak_timer_seconds :: nat
  Bak_delta_timer_seconds :: nat
  local_trig :: nat
  local_timer :: nat
  Gpstimer_abnormal_counter :: nat
  Speed_GetType :: nat
  DIST_TOTALMODE :: nat
  Current_SD_Distance :: nat
  DistanceAccumulate :: nat
  Delta_1s_Plus :: nat
  Speed_Rec :: nat
  Spd_adjust_counter :: nat
  Former_gpsSpd :: "nat list"
  Former_DeltaPlus :: "nat list"
  A_time :: bytes
  Posit :: "(bytes \<times> bytes) list"
  MintPosit_SaveFlag :: nat
  Avrgspd_Mint :: avrg_mint_speed
  avgspd_Mint_Wr :: nat
  PerMinSpdTotal :: nat
  AspdCounter :: nat
  OutGPS_Flag :: nat
  Antenna_Flag :: nat
  Gps_Exception :: gps_abnormal
  gps_on :: bool
  rtc_set :: "nat list"
  uart5_body :: bytes
  uart5_wr :: nat
  last_ch :: u8
  mq_gps :: "bytes list"
  flag_bd_upgrade_uart :: nat
  vuart_out :: "bytes list"

text \<open>
  What the operations take as given: the memory images of the configuration, the comparison of a position with the
  stored routes (\<^verbatim>\<open>RouteRail_Judge\<close> up to its result, which computes in floating point and reads beyond an array), which gives
  whether the position is off a route and the route read last, the height computed from the texts of the altitude and
  of the separation in floating point, and the uninitialised bytes of the local buffers.
\<close>

record gps_env =
  gps_img :: images
  off_route :: "bytes \<Rightarrow> bytes \<Rightarrow> station \<Rightarrow> bool \<times> route_state"
  height_of :: "bytes \<Rightarrow> bytes \<Rightarrow> nat"
  gps_junk :: bytes

definition on_nod :: "(node \<Rightarrow> node) \<Rightarrow> receiver \<Rightarrow> receiver" where
  "on_nod f r = r\<lparr>nod := f (nod r)\<rparr>"

definition on_rdev :: "(device \<Rightarrow> device) \<Rightarrow> receiver \<Rightarrow> receiver" where
  "on_rdev f = on_nod (on_dvc f)"

definition on_rapp :: "(app \<Rightarrow> app) \<Rightarrow> receiver \<Rightarrow> receiver" where
  "on_rapp f = on_nod (on_app f)"

definition on_rgps :: "(gps_info \<Rightarrow> gps_info) \<Rightarrow> receiver \<Rightarrow> receiver" where
  "on_rgps f = on_rdev (\<lambda>d. d\<lparr>gps := f (gps d)\<rparr>)"

abbreviation (input) rapp :: "receiver \<Rightarrow> app" where "rapp r \<equiv> app_of (nod r)"
abbreviation (input) rveh :: "receiver \<Rightarrow> vehicle" where "rveh r \<equiv> vehicle_of (nod r)"
abbreviation (input) rdev :: "receiver \<Rightarrow> device" where "rdev r \<equiv> dvc (nod r)"
abbreviation (input) rgps :: "receiver \<Rightarrow> gps_info" where "rgps r \<equiv> gps (rdev r)"

text \<open>A report of the position that is sent at once.\<close>

definition report_now :: "device \<Rightarrow> device" where
  "report_now d = (PositionSD_Enable d)\<lparr>st := (st (PositionSD_Enable d))\<lparr>Current_UDP_sd := 1\<rparr>\<rparr>"

section \<open>The fields of a sentence\<close>

text \<open>Digits. The callers test the bytes first, so that the difference is never negative.\<close>

definition isdig :: "u8 \<Rightarrow> bool" where
  "isdig b = (0x30 \<le> b \<and> b \<le> 0x39)"

definition dg :: "bytes \<Rightarrow> nat \<Rightarrow> nat" where
  "dg b i = unat (b ! i) - 0x30"

definition digits_at :: "nat list \<Rightarrow> bytes \<Rightarrow> bool" where
  "digits_at is b = list_all (\<lambda>i. isdig (b ! i)) is"

definition StatusReg_GPS_A :: "receiver \<Rightarrow> receiver" where
  "StatusReg_GPS_A r =
     (let r = (if GPS_getfirst r = 0 then on_nod (on_stn (\<lambda>z. z\<lparr>DwinLCD := (DwinLCD z)\<lparr>lcd_Type := 1\<rparr>\<rparr>)) r else r)
      in on_rapp (\<lambda>a. a\<lparr>ModuleStatus := ModuleStatus a OR 0x01\<rparr>)
           (on_rgps (\<lambda>g. g\<lparr>Car_Status := (Car_Status g)[3 := Car_Status g ! 3 OR 0x02]\<rparr>) (r\<lparr>GPS_getfirst := 1\<rparr>)))"

definition StatusReg_GPS_V :: "receiver \<Rightarrow> receiver" where
  "StatusReg_GPS_V = on_rapp (\<lambda>a. a\<lparr>ModuleStatus := ModuleStatus a AND 0xFE\<rparr>)"

definition Time_pro :: "bytes \<Rightarrow> nat \<Rightarrow> nat \<Rightarrow> nat \<Rightarrow> receiver \<Rightarrow> receiver" where
  "Time_pro tmpinfo hour mi sec r =
     r\<lparr>GPRMC := (GPRMC r)\<lparr>utc_hour := hour, utc_min := mi, utc_sec := sec\<rparr>, CurrentTime := [hour, mi, sec],
       Temp_Gps_Gprs := (Temp_Gps_Gprs r)\<lparr>temp_Time := [byte hour, byte (dg tmpinfo 2 * 10 + dg tmpinfo 3),
         byte (dg tmpinfo 4 * 10 + dg tmpinfo 5)]\<rparr>\<rparr>"

definition Status_pro :: "bytes \<Rightarrow> receiver \<Rightarrow> receiver" where
  "Status_pro tmpinfo r =
     (let r = r\<lparr>GPRMC := (GPRMC r)\<lparr>rmc_status := tmpinfo ! 0\<rparr>\<rparr>
      in if tmpinfo ! 0 = 0x56 \<or> tmpinfo ! 0 = 0x76 then StatusReg_GPS_V (r\<lparr>UDP_dataPacket_flag := 3\<rparr>)
         else if tmpinfo ! 0 = 0x41 \<or> tmpinfo ! 0 = 0x61 then StatusReg_GPS_A (r\<lparr>UDP_dataPacket_flag := 2\<rparr>)
         else r)"

text \<open>Degrees and minutes with four decimals, in millionths of a degree.\<close>

definition lat_value :: "bytes \<Rightarrow> nat" where
  "lat_value b = (dg b 0 * 10 + dg b 1) * 1000000 +
     (dg b 2 * 100000 + dg b 3 * 10000 + dg b 5 * 1000 + dg b 6 * 100 + dg b 7 * 10 + dg b 8) * 5 div 3"

definition long_value :: "bytes \<Rightarrow> nat" where
  "long_value b = (dg b 0 * 100 + dg b 1 * 10 + dg b 2) * 1000000 +
     (dg b 3 * 100000 + dg b 4 * 10000 + dg b 6 * 1000 + dg b 7 * 100 + dg b 8 * 10 + dg b 9) * 5 div 3"

definition no_position :: "receiver \<Rightarrow> receiver" where
  "no_position r = StatusReg_GPS_V (r\<lparr>GPS_getfirst := 0\<rparr>)"

definition Latitude_pro :: "bytes \<Rightarrow> receiver \<Rightarrow> receiver" where
  "Latitude_pro tmpinfo r =
     (if UDP_dataPacket_flag r \<noteq> 2 then r
      else if lat_value tmpinfo = 0 then no_position r
      else r\<lparr>Temp_Gps_Gprs := (Temp_Gps_Gprs r)\<lparr>temp_Latitude := be32 (lat_value tmpinfo)\<rparr>\<rparr>)"

definition Lat_NS_pro :: "bytes \<Rightarrow> receiver \<Rightarrow> receiver" where
  "Lat_NS_pro tmpinfo r = r\<lparr>GPRMC := (GPRMC r)\<lparr>rmc_latitude := tmpinfo ! 0\<rparr>\<rparr>"

definition Longitude_pro :: "bytes \<Rightarrow> receiver \<Rightarrow> receiver" where
  "Longitude_pro tmpinfo r =
     (if UDP_dataPacket_flag r \<noteq> 2 then r
      else if long_value tmpinfo = 0 then no_position r
      else r\<lparr>Temp_Gps_Gprs := (Temp_Gps_Gprs r)\<lparr>temp_Longitude := be32 (long_value tmpinfo)\<rparr>\<rparr>)"

definition Long_WE_pro :: "bytes \<Rightarrow> receiver \<Rightarrow> receiver" where
  "Long_WE_pro tmpinfo r = r\<lparr>GPRMC := (GPRMC r)\<lparr>rmc_longtitude := tmpinfo ! 0\<rparr>\<rparr>"

section \<open>Speed and distance\<close>

text \<open>
  The calibration of the speed sensor. The counter runs from 1 to 20, so that the first entry of the arrays
  stays empty; the write of entry 20 lies behind them and is left out.
\<close>

definition K_range :: "nat \<Rightarrow> bool" where
  "K_range v = (60 \<le> v \<and> v \<le> 68 \<or> 40 \<le> v \<and> v \<le> 48 \<or> 70 \<le> v \<and> v \<le> 78)"

definition K_AdjustUseGPS :: "images \<Rightarrow> nat \<Rightarrow> receiver \<Rightarrow> receiver" where
  "K_AdjustUseGPS im sp_DISP r =
     (if DF_K_adjustState (rapp r) \<noteq> 0 then r
      else let v = u8n (sp_DISP div 10); r = r\<lparr>Speed_Rec := v\<rparr>
           in if \<not> K_range v then r\<lparr>Spd_adjust_counter := 0\<rparr>
              else let n = u16 (Spd_adjust_counter r + 1); r = r\<lparr>Spd_adjust_counter := n\<rparr>
                   in if n > 20
                      then let plus = u32 (sum_list (Former_DeltaPlus r)); dist = u32 (u32 (sum_list (Former_gpsSpd r)) * 10) div 36
                           in if plus < 20 then r\<lparr>Spd_adjust_counter := 0\<rparr>
                              else (on_rapp (\<lambda>a. save_jt im (a\<lparr>veh := (veh a)\<lparr>Vech_Character_Value := u32 (1000 * plus) div dist\<rparr>,
                                      DF_K_adjustState := 1, ModuleStatus := ModuleStatus a OR 0x08\<rparr>)) r)\<lparr>Spd_adjust_counter := 0\<rparr>
                      else r\<lparr>Former_gpsSpd := (Former_gpsSpd r)[n := v], Former_DeltaPlus := (Former_DeltaPlus r)[n := Delta_1s_Plus r]\<rparr>)"

text \<open>
  The mileage in metres, from metres per hour, and the reports by distance with what is added to the
  accumulated distance.
\<close>

definition add_distance :: "nat \<Rightarrow> receiver \<Rightarrow> receiver" where
  "add_distance m =
     on_rapp (on_term (\<lambda>t. t\<lparr>Conf_Distance_m_u32 :=
       (let n = u32 (Conf_Distance_m_u32 t + m) in if n > 0xFFFFFF then 0 else n)\<rparr>))"

definition distance_report :: "nat \<Rightarrow> receiver \<Rightarrow> receiver" where
  "distance_report m r =
     (if DIST_TOTALMODE r \<noteq> 1 then r
      else let n = u32 (DistanceAccumulate r + m)
           in if n \<ge> Current_SD_Distance r then on_rdev report_now (r\<lparr>DistanceAccumulate := 0\<rparr>)
              else r\<lparr>DistanceAccumulate := n\<rparr>)"

text \<open>
  The speed in tenths of a knot, by the place of the point; \<open>None\<close> is the early return. The factor 185.6 is a double
  precision number; for every value below 10000 the product rounded down is that of the exact numbers.
\<close>

definition knots10 :: "bytes \<Rightarrow> nat \<Rightarrow> nat option" where
  "knots10 b k =
     (if k = 1 then if digits_at [0, 2] b then Some (dg b 0 * 10 + dg b 2) else None
      else if k = 2 then if digits_at [0, 1, 3] b then Some (dg b 0 * 100 + dg b 1 * 10 + dg b 3) else None
      else if k = 3 then if digits_at [0, 1, 2, 4] b then Some (dg b 0 * 1000 + dg b 1 * 100 + dg b 2 * 10 + dg b 4) else None
      else Some 0)"

definition speed_fixed :: "images \<Rightarrow> nat \<Rightarrow> receiver \<Rightarrow> receiver" where
  "speed_fixed im sp r =
     (let sp_DISP = sp div 100;
          r = (if 5 \<le> Satelite_num r then on_rgps (\<lambda>g. g\<lparr>Speed_gps := u16 sp_DISP\<rparr>) r else r);
          take_gps = on_rgps (\<lambda>g. g\<lparr>GPS_speed := Speed_gps g\<rparr>)
      in if Speed_GetType r \<noteq> 0
         then let r = K_AdjustUseGPS im sp_DISP r
              in if DF_K_adjustState (rapp r) = 0
                 then let r = take_gps r
                      in if sp \<ge> 5000 then distance_report (sp div 3600) (add_distance (sp div 3600) r) else r
                 else r
         else take_gps (if sp \<ge> 5000 then distance_report 0 (add_distance (sp div 3600) r) else r))"

definition Speed_pro :: "images \<Rightarrow> bytes \<Rightarrow> nat \<Rightarrow> receiver \<Rightarrow> receiver" where
  "Speed_pro im tmpinfo Point r =
     (if UDP_dataPacket_flag r = 2
      then case knots10 tmpinfo Point of
             None \<Rightarrow> r
           | Some k \<Rightarrow>
               let r = (if Point \<notin> {1, 2, 3} \<and> Speed_GetType r = 0 then on_rgps (\<lambda>g. g\<lparr>GPS_speed := 0\<rparr>) r else r);
                   sp = k * 1856 div 10
               in if sp > 220000 then r else speed_fixed im sp r
      else if UDP_dataPacket_flag r = 3
      then let r = (if Speed_GetType r = 0 then on_rgps (\<lambda>g. g\<lparr>GPS_speed := 0\<rparr>) r
                    else on_rgps (\<lambda>g. g\<lparr>GPS_speed := Speed_cacu g\<rparr>) (K_AdjustUseGPS im 0 r))
           in on_rgps (\<lambda>g. g\<lparr>Speed_gps := 0\<rparr>) r
      else r)"

definition degrees_of :: "bytes \<Rightarrow> nat \<Rightarrow> nat option" where
  "degrees_of b k =
     (if k = 1 then if digits_at [0, 2] b then Some (dg b 0) else None
      else if k = 2 then if digits_at [0, 1, 3] b then Some (dg b 0 * 10 + dg b 1) else None
      else if k = 3 then if digits_at [0, 1, 2, 4] b then Some (dg b 0 * 100 + dg b 1 * 10 + dg b 2) else None
      else Some 0)"

definition Direction_pro :: "bytes \<Rightarrow> nat \<Rightarrow> receiver \<Rightarrow> receiver" where
  "Direction_pro tmpinfo Point r =
     (if UDP_dataPacket_flag r = 2
      then case degrees_of tmpinfo Point of None \<Rightarrow> r | Some n \<Rightarrow> on_rgps (\<lambda>g. g\<lparr>GPS_direction := n\<rparr>) r
      else if UDP_dataPacket_flag r = 3 then on_rgps (\<lambda>g. g\<lparr>GPS_direction := 0\<rparr>) r
      else r)"

section \<open>Date and the mean speed of a minute\<close>

text \<open>The day after, when the addition of eight hours passes midnight.\<close>

definition date_modify :: "nat \<times> nat \<times> nat \<Rightarrow> nat \<times> nat \<times> nat" where
  "date_modify ymd =
     (let (year, mon, day) = ymd; day = day + 1
      in if mon = 2
         then if year mod 4 = 0 then if day = 30 then (year, mon + 1, 1) else (year, mon, day)
              else if day = 29 then (year, mon + 1, 1) else (year, mon, day)
         else if mon \<in> {4, 6, 9, 11} then if day = 31 then (year, mon + 1, 1) else (year, mon, day)
         else let (mon, day) = (if day = 32 then (mon + 1, 1) else (mon, day))
              in if mon = 13 then (year + 1, 1, day) else (year, mon, day))"

text \<open>
  The mean speed of each minute of an hour. The index is the minute of the sentence, which is not tested; a write behind
  the 60 entries is left out.
\<close>

definition first_minute :: "receiver \<Rightarrow> bool" where
  "first_minute r = (spd_saveFlag (Avrgspd_Mint r) = 0 \<and> take 3 (spd_datetime_Bak (Avrgspd_Mint r)) = [0, 0, 0])"

definition AvrgSpd_MintProcess :: "nat \<Rightarrow> nat \<Rightarrow> receiver \<Rightarrow> receiver" where
  "AvrgSpd_MintProcess mi sec r =
     (let now = Time2BCD (rveh r); m = Avrgspd_Mint r; w = unat (temp_Time (Temp_Gps_Gprs r) ! 1);
          r = (if first_minute r
               then r\<lparr>Avrgspd_Mint := m\<lparr>spd_datetime := now, spd_datetime_Bak := now\<rparr>, avgspd_Mint_Wr := w\<rparr>
               else if mi = 0 \<and> sec = 5
               then r\<lparr>Avrgspd_Mint := m\<lparr>spd_datetime := now, spd_datetime_Bak := take 4 (spd_datetime m) @ [0, 0], spd_saveFlag := 1\<rparr>\<rparr>
               else if mi = 0 \<and> sec = 8 then r\<lparr>avgspd_Mint_Wr := 0\<rparr>
               else r)
      in if sec = 0
         then let v = (if AspdCounter r \<noteq> 0 then byte (PerMinSpdTotal r div AspdCounter r) else 0)
              in r\<lparr>Avrgspd_Mint := (Avrgspd_Mint r)\<lparr>avgrspd := (avgrspd (Avrgspd_Mint r))[avgspd_Mint_Wr r := v]\<rparr>,
                   PerMinSpdTotal := 0, AspdCounter := 0\<rparr>
         else if UDP_dataPacket_flag r = 2
         then r\<lparr>avgspd_Mint_Wr := w, AspdCounter := u8n (AspdCounter r + 1),
                PerMinSpdTotal := u32 (PerMinSpdTotal r + GPS_speed (rgps r) div 10)\<rparr>
         else r)"

definition fixed_minute :: "nat \<Rightarrow> nat \<Rightarrow> receiver \<Rightarrow> receiver" where
  "fixed_minute mi sec r =
     (let g = rgps r;
          r = r\<lparr>A_time := Time2BCD (rveh r)\<rparr>;
          r = (if sec < 55
               then r\<lparr>Posit := (Posit r)[mi := (Latitude g, (Longitude g)[0 := Longitude g ! 0 OR 0x80])]\<rparr> else r)
      in if mi = 59 \<and> sec = 55 then r\<lparr>MintPosit_SaveFlag := 1\<rparr> else r)"

definition date_set :: "images \<Rightarrow> nat \<times> nat \<times> nat \<Rightarrow> nat \<Rightarrow> nat \<Rightarrow> nat \<Rightarrow> receiver \<Rightarrow> receiver" where
  "date_set im ymd hour mi sec r =
     (let (year, mon, day) = ymd;
          r = r\<lparr>GPRMC := (GPRMC r)\<lparr>utc_year := year, utc_mon := mon, utc_day := day\<rparr>\<rparr>;
          fixed = (rmc_status (GPRMC r) = 0x41);
          r = (if sec = 0 \<and> fixed then r\<lparr>rtc_set := [year, mon, day, hour, mi, sec]\<rparr> else r);
          r = (if fixed then fixed_minute mi sec r else r)
      in if hour = 0 \<and> mi = 0 \<and> sec = 8
         then on_rapp (\<lambda>a. save_jt im (on_veh (\<lambda>v. v\<lparr>Conf_DayStartDistance := Conf_Distance_m_u32 (terminal (dev v))\<rparr>) a)) r
         else r)"

definition date_digits :: "bytes \<Rightarrow> nat \<times> nat \<times> nat" where
  "date_digits b = (dg b 4 * 10 + dg b 5, dg b 2 * 10 + dg b 3, dg b 0 * 10 + dg b 1)"

definition Date_pro :: "images \<Rightarrow> bytes \<Rightarrow> bool \<Rightarrow> nat \<Rightarrow> nat \<Rightarrow> nat \<Rightarrow> receiver \<Rightarrow> receiver" where
  "Date_pro im tmpinfo fDateModify hour mi sec r =
     (let ymd = (if fDateModify then date_modify (date_digits tmpinfo) else date_digits tmpinfo);
          (year, mon, day) = ymd;
          r = date_set im ymd hour mi sec r;
          r = r\<lparr>Temp_Gps_Gprs := (Temp_Gps_Gprs r)\<lparr>temp_Date := [byte year, byte mon, byte day]\<rparr>\<rparr>;
          r = AvrgSpd_MintProcess mi sec r
      in if year \<noteq> 0 \<and> mon \<noteq> 0 \<and> day \<noteq> 0 then r\<lparr>GPS_datetimeFirstGet := 1\<rparr> else r)"

section \<open>Reports by time\<close>

definition seconds_of_day :: "nat list \<Rightarrow> nat" where
  "seconds_of_day t = t ! 0 * 3600 + t ! 1 * 60 + t ! 2"

text \<open>The result of the comparison with the routes: the alarm bit, and a report when it changes.\<close>

definition RouteRail_Judge :: "gps_env \<Rightarrow> bytes \<Rightarrow> bytes \<Rightarrow> receiver \<Rightarrow> receiver" where
  "RouteRail_Judge E LatiStr LongiStr r =
     (let (off, route) = off_route E LatiStr LongiStr (stn (nod r));
          r = on_nod (on_stn (\<lambda>z. z\<lparr>ROUTE_Obj := route\<rparr>)) r;
          w = Warn_Status (rgps r) ! 1;
          r = (if off = (w AND 0x80 = 0) then on_rdev report_now r else r)
      in on_rgps (\<lambda>g. g\<lparr>Warn_Status := (Warn_Status g)[1 := if off then w OR 0x80 else w AND 0x7F]\<rparr>) r)"

definition due :: "receiver \<Rightarrow> receiver" where
  "due r =
     (let r = (if GPS_getfirst r = 1 then r\<lparr>local_trig := 0, Gpstimer_abnormal_counter := 0, local_timer := 0\<rparr> else r)
      in (on_rdev PositionSD_Enable r)\<lparr>BakTime := CurrentTime r\<rparr>)"

definition seconds_between :: "nat \<Rightarrow> nat \<Rightarrow> nat" where
  "seconds_between former now = (if now > former then now - former else u32 (86400 + now + 4294967296 - former))"

definition elapsed :: "nat \<Rightarrow> receiver \<Rightarrow> receiver" where
  "elapsed tmp r =
     (let former = seconds_of_day (BakTime r); bak = Bak_timer_seconds r;
          r = (if tmp \<noteq> former then r\<lparr>delta_time_seconds := seconds_between former tmp\<rparr>
               else StatusReg_GPS_V (r\<lparr>UDP_dataPacket_flag := 3\<rparr>))
      in if tmp \<noteq> bak then r\<lparr>Bak_delta_timer_seconds := seconds_between bak tmp\<rparr> else r)"

definition due_now :: "receiver \<Rightarrow> bool" where
  "due_now r =
     (let delta = delta_time_seconds r; dur = Current_SD_Duration (rapp r)
      in if dur = 30 then delta \<noteq> 0 \<and> (CurrentTime r ! 2 = 50 \<or> CurrentTime r ! 2 = 20) else delta \<ge> dur)"

definition standing_clock :: "receiver \<Rightarrow> receiver" where
  "standing_clock r =
     (if Bak_delta_timer_seconds r = 0
      then let n = u32 (Gpstimer_abnormal_counter r + 1)
           in if n = 20 then r\<lparr>Gpstimer_abnormal_counter := 0, local_trig := 1, local_timer := 0\<rparr>
              else r\<lparr>Gpstimer_abnormal_counter := n\<rparr>
      else r)"

definition wake_up :: "nat \<Rightarrow> receiver \<Rightarrow> receiver" where
  "wake_up n r =
     (let dur = Current_SD_Duration (rapp r)
      in if SleepState (rveh r) = 1 \<and> dur > 5 \<and> n = dur - 5 then on_nod (on_vehicle (\<lambda>v. v\<lparr>SleepConfigFlag := 1\<rparr>)) r else r)"

definition duration_report :: "receiver \<Rightarrow> receiver" where
  "duration_report r =
     (let tmp = seconds_of_day (CurrentTime r);
          r = elapsed tmp r;
          r = wake_up (delta_time_seconds r) r;
          r = (if due_now r then due r else r)
      in (standing_clock r)\<lparr>Bak_timer_seconds := tmp\<rparr>)"

definition take_over :: "receiver \<Rightarrow> receiver" where
  "take_over r =
     (let t = Temp_Gps_Gprs r
      in if of_be32 (temp_Latitude t) \<noteq> 0 \<and> of_be32 (temp_Longitude t) \<noteq> 0
         then on_rgps (\<lambda>g. g\<lparr>gps_Date := temp_Date t, gps_Time := temp_Time t, Latitude := temp_Latitude t,
                Longitude := temp_Longitude t\<rparr>) r
         else r)"

definition GPS_Delta_DurPro :: "gps_env \<Rightarrow> receiver \<Rightarrow> receiver" where
  "GPS_Delta_DurPro E r =
     (let r = (if DUR_TOTALMODE (rapp r) = 1 then duration_report r else r);
          r = take_over r;
          t = Temp_Gps_Gprs r;
          sec = unat (temp_Time t ! 2);
          r = (if sec mod 2 = 0 then on_nod (on_stn (RectangleRail_Judge (temp_Latitude t) (temp_Longitude t))) r else r)
      in if sec mod 5 = 0 then RouteRail_Judge E (temp_Latitude t) (temp_Longitude t) r else r)"

text \<open>The reports by the local clock, once a second.\<close>

definition local_time :: "receiver \<Rightarrow> receiver" where
  "local_time r =
     (let v = rveh r; d = rdev r; dur = Current_SD_Duration (rapp r)
      in if local_trig r \<noteq> 1 \<and> GPS_getfirst r \<noteq> 2 then r
         else if dur = 30
         then let r = on_rgps (\<lambda>g. g\<lparr>gps_Date := [byte (time_year v), byte (time_month v), byte (time_day v)],
                        gps_Time := [byte (time_hour d), byte (time_min d), byte (time_sec d)]\<rparr>) r
              in if gps_Time (rgps r) ! 2 = 20 \<and> gps_Time (rgps r) ! 2 = 50 then on_rdev report_now r else r
         else let n = u32 (local_timer r + 1); r = r\<lparr>local_timer := n\<rparr>;
                  r = wake_up n r
              in if n \<ge> dur then on_rdev report_now (r\<lparr>local_timer := 0\<rparr>) else r)"

section \<open>Sentences\<close>

text \<open>
  \<^verbatim>\<open>Process_RMC\<close>. The buffer of 15 bytes is a list of 16, since the loop writes one byte behind it before it stops. The
  clock of the loop is hour, minute, second and whether the date moves on. A field gives \<open>None\<close> with the state when
  the function returns at once.
\<close>

type_synonym rmc_clock = "nat \<times> nat \<times> nat \<times> bool"

definition rmc_time :: "nat \<Rightarrow> bytes \<Rightarrow> rmc_clock \<Rightarrow> receiver \<Rightarrow> (bytes \<times> rmc_clock) option \<times> receiver" where
  "rmc_time iCount tmp clk r =
     (if iCount < 6 \<or> \<not> digits_at [0, 1, 2, 3, 4, 5] tmp
      then (None, StatusReg_GPS_V (r\<lparr>PerMinSpdTotal := 0, AspdCounter := 0\<rparr>))
      else let hour = dg tmp 0 * 10 + dg tmp 1 + 8; mi = dg tmp 2 * 10 + dg tmp 3; sec = dg tmp 4 * 10 + dg tmp 5
           in if hour > 23
              then let hour = hour - 24; tmp = tmp[0 := byte (hour div 10 + 48), 1 := byte (hour mod 10 + 48)]
                   in (Some (tmp, hour, mi, sec, True), Time_pro tmp hour mi sec r)
              else (Some (tmp, hour, mi, sec, snd (snd (snd clk))), Time_pro tmp hour mi sec r))"

definition dot_pos :: "nat \<Rightarrow> bytes \<Rightarrow> nat" where
  "dot_pos iCount tmp = length (takeWhile (\<lambda>b. b \<noteq> 0x2E) (take iCount tmp))"

definition rmc_field :: "gps_env \<Rightarrow> nat \<Rightarrow> nat \<Rightarrow> bytes \<Rightarrow> rmc_clock \<Rightarrow> receiver \<Rightarrow> (bytes \<times> rmc_clock) option \<times> receiver" where
  "rmc_field E n iCount tmp clk r =
     (let k = dot_pos iCount tmp; (hour, mi, sec, md) = clk; go = (\<lambda>r. (Some (tmp, clk), r))
      in if n = 2 then rmc_time iCount tmp clk r
         else if n = 3 then go (Status_pro tmp r)
         else if n = 4 then go (if digits_at [0, 1, 2, 3, 5, 6, 7, 8] tmp then Latitude_pro tmp r else r)
         else if n = 5 then go (Lat_NS_pro tmp r)
         else if n = 6 then go (if digits_at [0, 1, 2, 3, 4, 6, 7, 8, 9] tmp then Longitude_pro tmp r else r)
         else if n = 7 then go (Long_WE_pro tmp r)
         else if n = 8 then go (Speed_pro (gps_img E) tmp (if k \<ge> iCount then 0 else k) r)
         else if n = 9 then go (if iCount < 3 \<or> k \<ge> iCount then r else Direction_pro tmp k r)
         else if n = 10
         then if digits_at [0, 1, 2, 3, 4, 5] tmp then go (Date_pro (gps_img E) tmp md hour mi sec r) else (None, r)
         else go r)"

primrec rmc_loop :: "gps_env \<Rightarrow> bytes \<Rightarrow> nat \<Rightarrow> nat \<Rightarrow> bytes \<Rightarrow> rmc_clock \<Rightarrow> receiver \<Rightarrow> bool \<times> receiver" where
  "rmc_loop E [] n i tmp clk r = (True, r)"
| "rmc_loop E (b # p) n i tmp clk r =
     (if b = 0 then (True, r)
      else if b = 0x2C
      then if i = 0 then rmc_loop E p (u8n (n + 1)) 0 tmp clk r
           else (case rmc_field E (u8n (n + 1)) i tmp clk r of
                   (None, r) \<Rightarrow> (False, r)
                 | (Some (tmp, clk), r) \<Rightarrow> rmc_loop E p (u8n (n + 1)) 0 tmp clk r)
      else let tmp = tmp[i := b]; tmp = (if i + 1 < 15 then tmp[i + 1 := 0] else tmp)
           in if i + 1 > 15 then (True, r) else rmc_loop E p n (i + 1) tmp clk r)"

definition Process_RMC :: "gps_env \<Rightarrow> bytes \<Rightarrow> receiver \<Rightarrow> receiver" where
  "Process_RMC E packet r =
     (case rmc_loop E packet 0 0 (gps_junk E) (0, 0, 0, False) r of
        (True, r) \<Rightarrow> GPS_Delta_DurPro E r
      | (False, r) \<Rightarrow> r)"

text \<open>
  \<^verbatim>\<open>Process_TXT\<close> and \<^verbatim>\<open>Process_GGA\<close>. Their buffers of 12 bytes are lists of 14, since the loops write two bytes behind them.
\<close>

definition on_warn3 :: "(u8 \<Rightarrow> u8) \<Rightarrow> receiver \<Rightarrow> receiver" where
  "on_warn3 f = on_rgps (\<lambda>g. g\<lparr>Warn_Status := (Warn_Status g)[3 := f (Warn_Status g ! 3)]\<rparr>)"

definition antenna :: "bytes \<Rightarrow> receiver \<Rightarrow> receiver" where
  "antenna tmp r =
     (let text = (\<lambda>s. take (length s) (cstr tmp) = ascii s);
          r = (if text ''ANTENNA OPEN'' \<and> OutGPS_Flag r = 0
               then on_warn3 (\<lambda>w. (w OR 0x20) AND 0xBF)
                      (if Warn_Status (rgps r) ! 3 AND 0x20 = 0 then on_rdev report_now (r\<lparr>Antenna_Flag := 1\<rparr>) else r)
               else r)
      in if text ''ANTENNA SHORT'' then on_warn3 (\<lambda>w. w AND 0xDF OR 0x40) r
         else if text ''ANTENNA OK''
         then on_warn3 (\<lambda>w. w AND 0x9F)
                (if Warn_Status (rgps r) ! 3 AND 0x20 \<noteq> 0 then on_rdev report_now (r\<lparr>Antenna_Flag := 0\<rparr>) else r\<lparr>Antenna_Flag := 0\<rparr>)
         else r)"

primrec txt_loop :: "bytes \<Rightarrow> nat \<Rightarrow> nat \<Rightarrow> bytes \<Rightarrow> receiver \<Rightarrow> receiver" where
  "txt_loop [] n i tmp r = r"
| "txt_loop (b # p) n i tmp r =
     (if b = 0 then r
      else if b = 0x2C \<or> b = 0x2A
      then txt_loop p (u8n (n + 1)) 0 tmp (if i \<noteq> 0 \<and> u8n (n + 1) = 5 then antenna tmp r else r)
      else if i + 1 > 12 then r
      else txt_loop p n (i + 1) (tmp[i := b, i + 1 := 0]) r)"

definition Process_TXT :: "gps_env \<Rightarrow> bytes \<Rightarrow> receiver \<Rightarrow> receiver" where
  "Process_TXT E packet = txt_loop packet 0 0 (gps_junk E)"

definition satellites :: "bytes \<Rightarrow> receiver \<Rightarrow> receiver" where
  "satellites tmp r =
     (let n = (tmp ! 0 - 0x30) * 10 + (tmp ! 1 - 0x30)
      in on_rapp (on_term (\<lambda>t. t\<lparr>FJ_SignalValue := FJ_SignalValue t AND 0xF0 OR unat n\<rparr>)) (r\<lparr>Satelite_num := n\<rparr>))"

primrec gga_loop :: "gps_env \<Rightarrow> bytes \<Rightarrow> nat \<Rightarrow> nat \<Rightarrow> bytes \<Rightarrow> bytes \<Rightarrow> receiver \<Rightarrow> receiver" where
  "gga_loop E [] n i tmp h r = r"
| "gga_loop E (b # p) n i tmp h r =
     (if b = 0 then r
      else if b = 0x2C
      then let n = u8n (n + 1)
           in if i = 0 then gga_loop E p n 0 tmp h (if n = 8 then r\<lparr>Satelite_num := 0\<rparr> else r)
              else gga_loop E p n 0 tmp (if n = 10 then cstr tmp else h)
                     (if n = 8 then satellites tmp r
                      else if n = 12 then on_rgps (\<lambda>g. g\<lparr>GPS_Hight := height_of E h (cstr tmp)\<rparr>) r
                      else r)
      else if i + 1 > 12 then r
      else gga_loop E p n (i + 1) (tmp[i := b, i + 1 := 0]) h r)"

definition Process_GGA :: "gps_env \<Rightarrow> bytes \<Rightarrow> receiver \<Rightarrow> receiver" where
  "Process_GGA E packet = gga_loop E packet 0 0 (gps_junk E) []"

definition sentence_is :: "bytes \<Rightarrow> string list \<Rightarrow> bool" where
  "sentence_is b names = list_ex (\<lambda>s. take 7 b = ascii s) names"

definition rx_mode :: "nat \<Rightarrow> u8 \<Rightarrow> receiver \<Rightarrow> receiver" where
  "rx_mode m w r =
     on_rgps (\<lambda>g. g\<lparr>Car_Status := (Car_Status g)[1 := Car_Status g ! 1 AND 0xF3 OR w]\<rparr>)
       (on_nod (\<lambda>x. x\<lparr>Position_Moule_Status := m\<rparr>) r)"

definition GPS_Rx_Process :: "gps_env \<Rightarrow> bytes \<Rightarrow> receiver \<Rightarrow> receiver" where
  "GPS_Rx_Process E str r =
     (let rmc = (\<lambda>r. let r = Process_RMC E str r
                     in r\<lparr>Gps_Exception := (Gps_Exception r)\<lparr>current_datacou :=
                            u32 (current_datacou (Gps_Exception r) + length str)\<rparr>\<rparr>)
      in if sentence_is str [''$GNRMC,''] then rmc (rx_mode 3 0x0C r)
         else if sentence_is str [''$BDRMC,''] then rmc (rx_mode 1 0x08 r)
         else if sentence_is str [''$GPRMC,''] then rmc (rx_mode 2 0x04 r)
         else if sentence_is str [''$GPGSA,'', ''$BDGSA,'', ''$GNGSA,''] then r
         else if sentence_is str [''$GNTXT,'', ''$GPTXT,'', ''$BDTXT,''] then Process_TXT E str r
         else if sentence_is str [''$GPGGA,'', ''$GNGGA,'', ''$BDGGA,''] then Process_GGA E str r
         else r)"

section \<open>Interrupt and thread\<close>

text \<open>
  The interrupt. A message of the queue is the length in two bytes and the sentence. \<^verbatim>\<open>gps_init\<close> asks for messages of 124
  bytes, which \<^verbatim>\<open>rt_mq_init\<close> rounds up to the alignment, 128 bytes; with four bytes for its link the pool of 4096 bytes
  holds 31 of them. A message that does not fit is refused.
\<close>

definition mq_send :: "bytes \<Rightarrow> receiver \<Rightarrow> receiver" where
  "mq_send m r = (if length m + 2 \<le> 128 \<and> length (mq_gps r) < 31 then r\<lparr>mq_gps := mq_gps r @ [m]\<rparr> else r)"

definition UART5_IRQHandler :: "u8 \<Rightarrow> receiver \<Rightarrow> receiver" where
  "UART5_IRQHandler ch r =
     (if ch = 0x0A \<and> last_ch r = 0x0D
      then let body = (uart5_body r)[uart5_wr r := ch]; wr = uart5_wr r + 1; r = r\<lparr>uart5_body := body, uart5_wr := 0, last_ch := ch\<rparr>
           in if wr < 124 then mq_send (take wr body) r else r
      else let wr = (if ch = 0x24 \<or> uart5_body r ! 0 \<noteq> 0x24 then 0 else uart5_wr r);
               body = (uart5_body r)[wr := ch]; wr = (if wr + 1 = 256 then 0 else wr + 1)
           in r\<lparr>uart5_body := body[wr := 0], uart5_wr := wr, last_ch := ch\<rparr>)"

definition GPS_Abnormal_init :: "receiver \<Rightarrow> receiver" where
  "GPS_Abnormal_init r =
     r\<lparr>Gps_Exception := \<lparr>current_datacou = 0, last_datacou = 0, no_updateTimer = 0, GPS_Rst_counter = 0, Reset_gps = 0\<rparr>\<rparr>"

definition GPS_Abnormal_process :: "receiver \<Rightarrow> receiver" where
  "GPS_Abnormal_process r =
     (let x = Gps_Exception r; n = u16 (no_updateTimer x + 1)
      in if n < 100 then r\<lparr>Gps_Exception := x\<lparr>no_updateTimer := n\<rparr>\<rparr>
         else let x = x\<lparr>no_updateTimer := 0\<rparr>
              in if Reset_gps x = 1
                 then let c = u16 (GPS_Rst_counter x + 1)
                      in r\<lparr>gps_on := True, Gps_Exception := x\<lparr>Reset_gps := 0, GPS_Rst_counter := if c > 5 then 0 else c\<rparr>\<rparr>
                 else if u32 (current_datacou x + 4294967296 - last_datacou x) < 100
                 then on_rapp (\<lambda>a. a\<lparr>ModuleStatus := ModuleStatus a AND 0xFE\<rparr>)
                        (on_rgps (\<lambda>g. g\<lparr>Car_Status := (Car_Status g)[3 := Car_Status g ! 3 AND 0xFD]\<rparr>)
                          (r\<lparr>gps_on := False, Gps_Exception := x\<lparr>Reset_gps := 1\<rparr>, UDP_dataPacket_flag := 3, GPS_getfirst := 0\<rparr>))
                 else r\<lparr>Gps_Exception := x\<lparr>last_datacou := 0, current_datacou := 0\<rparr>\<rparr>)"

text \<open>
  The thread takes 124 bytes of a message, that are 122 bytes of the sentence. The rest of \<^verbatim>\<open>gps_rx\<close> is never written
  and stays zero: the last byte of a sentence of 123 bytes is read as zero.
\<close>

definition gps_received :: "bytes \<Rightarrow> bytes" where
  "gps_received m = take 122 m @ replicate (length m - 122) 0"

definition gps_turn :: "gps_env \<Rightarrow> receiver \<Rightarrow> receiver" where
  "gps_turn E r =
     (case mq_gps r of
        [] \<Rightarrow> r
      | m # q \<Rightarrow>
          let r = r\<lparr>mq_gps := q\<rparr>; m = gps_received m
          in if flag_bd_upgrade_uart r = 0 then GPS_Abnormal_process (GPS_Rx_Process E m r)
             else if m ! 0 = 0x40 then r\<lparr>vuart_out := vuart_out r @ [m]\<rparr> else r)"

lemma gps_received_short: "length m \<le> 122 \<Longrightarrow> gps_received m = m"
  by (simp add: gps_received_def)

lemma length_gps_received [simp]: "length (gps_received m) = length m"
  by (simp add: gps_received_def)
end
