(* ===== verification/Gps_Position.thy ===== *)
theory Gps_Position
  imports Gps_Nmea
begin

text \<open>
  From the bytes of the position receiver to the position of the terminal: a position sentence with a fix sets
  latitude, longitude, date and time, and the time is the local one.
\<close>

section \<open>The interrupt\<close>

lemma irq_char:
  assumes "c \<noteq> 0x0A" and "c \<noteq> 0x24" and "uart5_body r ! 0 = 0x24" and "uart5_wr r + 1 \<noteq> 256"
  shows "UART5_IRQHandler c r =
    r\<lparr>uart5_body := (uart5_body r)[uart5_wr r := c, Suc (uart5_wr r) := 0], uart5_wr := Suc (uart5_wr r), last_ch := c\<rparr>"
  using assms by (simp add: UART5_IRQHandler_def Let_def)

lemma irq_chars:
  assumes "s \<noteq> []" and "hd s = 0x24" and "0x24 \<notin> set (tl s)" and "0x0A \<notin> set s" and "length s < 256" and "length (uart5_body r) = 256"
  shows "\<exists>B. fold UART5_IRQHandler s r = r\<lparr>uart5_body := B, uart5_wr := length s, last_ch := last s\<rparr> \<and> length B = 256 \<and>
    take (length s) B = s"
  using assms(1-5)
proof (induction s rule: rev_nonempty_induct)
  case (single c)
  then show ?case using assms(6)
    by (intro exI [of _ "(uart5_body r)[0 := c, 1 := 0]"]) (simp add: UART5_IRQHandler_def Let_def take_Suc_conv_app_nth)
next
  case (snoc c s)
  have h: "hd s = 0x24" "0x24 \<notin> set (tl s)" "0x0A \<notin> set s" "length s < 256"
    using snoc(1,3-6) by (simp_all add: tl_append split: list.splits)
  obtain B where B: "fold UART5_IRQHandler s r = r\<lparr>uart5_body := B, uart5_wr := length s, last_ch := last s\<rparr>"
    "length B = 256" "take (length s) B = s" using snoc(2) [OF h] by auto
  have "B ! 0 = 0x24" using B(2,3) snoc(1,3) by (cases s; cases B) auto
  moreover have "take (Suc (length s)) (B[length s := c, Suc (length s) := 0]) = s @ [c]"
    using B(2,3) snoc(6) by (simp add: take_Suc_conv_app_nth)
  moreover have "c \<noteq> 0x24" "c \<noteq> 0x0A" "length s + 1 \<noteq> 256" using snoc(1,4-6) by (auto simp: tl_append split: list.splits)
  ultimately show ?case using B(1,2)
    by (intro exI [of _ "B[length s := c, Suc (length s) := 0]"]) (simp add: irq_char)
qed

lemma irq_end:
  assumes "last_ch r = 0x0D" and "uart5_wr r + 1 < 124"
  shows "UART5_IRQHandler 0x0A r = mq_send (take (Suc (uart5_wr r)) ((uart5_body r)[uart5_wr r := 0x0A]))
    (r\<lparr>uart5_body := (uart5_body r)[uart5_wr r := 0x0A], uart5_wr := 0, last_ch := 0x0A\<rparr>)"
  using assms by (simp add: UART5_IRQHandler_def Let_def)

lemma irq_sentence:
  assumes "s \<noteq> []" and "hd s = 0x24" and "0x24 \<notin> set (tl s)" and "0x0A \<notin> set s" and "length s \<le> 120"
    and "length (uart5_body r) = 256" and "length (mq_gps r) < 31"
  shows "\<exists>B. fold UART5_IRQHandler (s @ [0x0D, 0x0A]) r =
    r\<lparr>uart5_body := B, uart5_wr := 0, last_ch := 0x0A, mq_gps := mq_gps r @ [s @ [0x0D, 0x0A]]\<rparr> \<and> length B = 256"
proof -
  have t: "tl (s @ [0x0D]) = tl s @ [0x0D]" using assms(1) by (cases s) auto
  obtain B where B: "fold UART5_IRQHandler (s @ [0x0D]) r = r\<lparr>uart5_body := B, uart5_wr := length s + 1, last_ch := 0x0D\<rparr>"
    "length B = 256" "take (length s + 1) B = s @ [0x0D]"
    using irq_chars [of "s @ [0x0D]" r] assms t by auto
  have "fold UART5_IRQHandler (s @ [0x0D, 0x0A]) r = UART5_IRQHandler 0x0A (fold UART5_IRQHandler (s @ [0x0D]) r)" by simp
  also have "take (Suc (Suc (length s))) (B[Suc (length s) := 0x0A]) = s @ [0x0D, 0x0A]"
    using B(2,3) assms(5) by (simp add: take_Suc_conv_app_nth)
  then have "UART5_IRQHandler 0x0A (fold UART5_IRQHandler (s @ [0x0D]) r) =
    r\<lparr>uart5_body := B[length s + 1 := 0x0A], uart5_wr := 0, last_ch := 0x0A, mq_gps := mq_gps r @ [s @ [0x0D, 0x0A]]\<rparr>"
    using B(1) assms(5,7) by (simp add: irq_end mq_send_def)
  finally show ?thesis using B(2) by auto
qed

section \<open>A sentence as its fields\<close>

definition plain :: "bytes \<Rightarrow> bool" where
  "plain f = (0 \<notin> set f \<and> 0x2C \<notin> set f)"

definition field_buf :: "bytes \<Rightarrow> bytes \<Rightarrow> bytes" where
  "field_buf f tmp = f @ 0 # drop (length f + 1) tmp"

primrec rmc_fields :: "gps_env \<Rightarrow> bytes list \<Rightarrow> nat \<Rightarrow> bytes \<Rightarrow> rmc_clock \<Rightarrow> receiver \<Rightarrow> bool \<times> receiver" where
  "rmc_fields E [] n tmp clk r = (True, r)"
| "rmc_fields E (f # fs) n tmp clk r =
     (if f = [] then rmc_fields E fs (n + 1) tmp clk r
      else (case rmc_field E (n + 1) (length f) (field_buf f tmp) clk r of
              (None, r) \<Rightarrow> (False, r)
            | (Some (tmp, clk), r) \<Rightarrow> rmc_fields E fs (n + 1) tmp clk r))"

lemma rmc_chars:
  assumes "plain f" and "i + length f \<le> 14" and "length tmp = 16" and "f \<noteq> []"
  shows "rmc_loop E (f @ p) n i tmp clk r = rmc_loop E p n (i + length f) (take i tmp @ f @ 0 # drop (i + length f + 1) tmp) clk r"
  using assms
proof (induction f arbitrary: i tmp)
  case Nil
  then show ?case by simp
next
  case (Cons b f)
  have i: "i + 1 < 16" using Cons.prems(2) by simp
  have b: "b \<noteq> 0" "b \<noteq> 0x2C" using Cons.prems(1) by (auto simp: plain_def)
  let ?t = "tmp[i := b, Suc i := 0]"
  have s: "rmc_loop E ((b # f) @ p) n i tmp clk r = rmc_loop E (f @ p) n (Suc i) ?t clk r"
    using b Cons.prems(2) by (simp add: Let_def)
  have u: "take (Suc i) ?t = take i tmp @ [b]" using i Cons.prems(3) by (simp add: take_Suc_conv_app_nth)
  have d: "drop k ?t = drop k tmp" if "Suc i < k" for k using that by simp
  show ?case
  proof (cases "f = []")
    case True
    have "?t = take i tmp @ b # 0 # drop (i + 2) tmp"
      using u d [of "i + 2"] i Cons.prems(3) id_take_nth_drop [of "Suc i" ?t] by (simp add: numeral_2_eq_2)
    then show ?thesis unfolding s using True by simp
  next
    case False
    then have "rmc_loop E (f @ p) n (Suc i) ?t clk r =
      rmc_loop E p n (Suc i + length f) (take (Suc i) ?t @ f @ 0 # drop (Suc i + length f + 1) ?t) clk r"
      using Cons.prems by (intro Cons.IH) (auto simp: plain_def)
    then show ?thesis unfolding s u by (simp add: d)
  qed
qed

lemma length_field_buf: "length f \<le> 14 \<Longrightarrow> length tmp = 16 \<Longrightarrow> length (field_buf f tmp) = 16"
  by (simp add: field_buf_def)

lemma rmc_field_tmp:
  assumes "rmc_field E n i tmp clk r = (Some (tmp', clk'), r')"
  shows "length tmp' = length tmp"
  using assms by (auto simp: rmc_field_def rmc_time_def Let_def split: prod.splits if_splits)

lemma rmc_tail:
  assumes "plain z"
  shows "fst (rmc_loop E z n i tmp clk r) \<and> snd (rmc_loop E z n i tmp clk r) = r"
  using assms by (induction z arbitrary: i tmp) (auto simp: plain_def Let_def)

lemma rmc_loop_fields:
  assumes "\<forall>f \<in> set fs. plain f \<and> length f \<le> 14" and "plain z" and "length tmp = 16" and "n + length fs < 256"
  shows "rmc_loop E (concat (map (\<lambda>f. f @ [0x2C]) fs) @ z) n 0 tmp clk r = rmc_fields E fs n tmp clk r"
  using assms
proof (induction fs arbitrary: n tmp clk r)
  case Nil
  then show ?case using rmc_tail [of z E n 0 tmp clk r] by (simp add: prod_eq_iff)
next
  case (Cons f fs)
  let ?p = "concat (map (\<lambda>f. f @ [0x2C]) fs) @ z"
  have n: "u8n (n + 1) = n + 1" using Cons.prems(4) by (simp add: u8n_def)
  show ?case
  proof (cases "f = []")
    case True
    then show ?thesis using Cons n by simp
  next
    case False
    have "rmc_loop E (f @ 0x2C # ?p) n 0 tmp clk r = rmc_loop E (0x2C # ?p) n (length f) (field_buf f tmp) clk r"
      using rmc_chars [of f 0 tmp E "0x2C # ?p" n clk r] Cons.prems False by (simp add: field_buf_def)
    also have "\<dots> = rmc_fields E (f # fs) n tmp clk r"
    proof (cases "rmc_field E (n + 1) (length f) (field_buf f tmp) clk r")
      case (Pair o' r')
      show ?thesis
      proof (cases o')
        case None
        then show ?thesis using Pair False n by simp
      next
        case (Some tc)
        obtain t c where tc: "tc = (t, c)" by (cases tc)
        have "length t = 16" using rmc_field_tmp [of E "n + 1" "length f" "field_buf f tmp" clk r t c r'] Pair Some tc
          Cons.prems(1,3) by (simp add: length_field_buf)
        then show ?thesis using Pair Some tc False n Cons.IH [of t "n + 1"] Cons.prems by simp
      qed
    qed
    finally show ?thesis by simp
  qed
qed

section \<open>What the operations leave alone\<close>

lemmas rx_updates = on_nod_def on_rdev_def on_rapp_def on_rgps_def on_dvc_def on_app_def on_vehicle_def on_stn_def on_core_def
  on_device_def on_veh_def on_dev_def on_store_def on_term_def on_warn_def

definition place :: "gps_info \<Rightarrow> bytes \<times> bytes \<times> bytes \<times> bytes" where
  "place g = (Latitude g, Longitude g, gps_Date g, gps_Time g)"

definition fix_view :: "receiver \<Rightarrow> nat \<times> gps_gprs \<times> bytes \<times> bytes \<times> bytes \<times> bytes" where
  "fix_view r = (UDP_dataPacket_flag r, Temp_Gps_Gprs r, place (rgps r))"

lemma gps_save_jt [simp]: "gps (dev (veh (save_jt im a))) = gps (dev (veh a))"
  by (simp add: save_jt_def on_store_def on_device_def on_veh_def on_dev_def)

lemma place_simps [simp]:
  "place (g\<lparr>Warn_Status := w\<rparr>) = place g" "place (g\<lparr>Car_Status := w\<rparr>) = place g" "place (g\<lparr>Speed_gps := n\<rparr>) = place g"
  "place (g\<lparr>GPS_speed := n\<rparr>) = place g" "place (g\<lparr>GPS_direction := n\<rparr>) = place g" "place (g\<lparr>GPS_Hight := n\<rparr>) = place g"
  "place (g\<lparr>gps_Date := dt, gps_Time := tm, Latitude := la, Longitude := lo\<rparr>) = (la, lo, dt, tm)"
  by (simp_all add: place_def)

lemma fix_on_gps [simp]:
  "fix_view (on_rgps (\<lambda>g. g\<lparr>Warn_Status := w g\<rparr>) r) = fix_view r" "fix_view (on_rgps (\<lambda>g. g\<lparr>Car_Status := w g\<rparr>) r) = fix_view r"
  "fix_view (on_rgps (\<lambda>g. g\<lparr>Speed_gps := n g\<rparr>) r) = fix_view r" "fix_view (on_rgps (\<lambda>g. g\<lparr>GPS_speed := n g\<rparr>) r) = fix_view r"
  "fix_view (on_rgps (\<lambda>g. g\<lparr>GPS_direction := n g\<rparr>) r) = fix_view r" "fix_view (on_rgps (\<lambda>g. g\<lparr>GPS_Hight := n g\<rparr>) r) = fix_view r"
  by (simp_all add: fix_view_def rx_updates)

lemma fix_on_rapp:
  assumes "\<And>a. gps (dev (veh (f a))) = gps (dev (veh a))"
  shows "fix_view (on_rapp f r) = fix_view r"
  using assms by (simp add: fix_view_def on_rapp_def on_nod_def on_app_def on_stn_def on_core_def)

lemma fix_report [simp]:
  "fix_view (on_rdev report_now r) = fix_view r" "fix_view (on_rdev PositionSD_Enable r) = fix_view r"
  by (simp_all add: fix_view_def rx_updates report_now_def PositionSD_Enable_def)

lemma fix_fields [simp]:
  "fix_view (r\<lparr>Spd_adjust_counter := n\<rparr>) = fix_view r" "fix_view (r\<lparr>Speed_Rec := n\<rparr>) = fix_view r"
  "fix_view (r\<lparr>Former_gpsSpd := l\<rparr>) = fix_view r" "fix_view (r\<lparr>Former_DeltaPlus := l\<rparr>) = fix_view r"
  "fix_view (r\<lparr>DistanceAccumulate := n\<rparr>) = fix_view r" "fix_view (r\<lparr>A_time := b\<rparr>) = fix_view r" "fix_view (r\<lparr>Posit := p\<rparr>) = fix_view r"
  "fix_view (r\<lparr>MintPosit_SaveFlag := n\<rparr>) = fix_view r" "fix_view (r\<lparr>Avrgspd_Mint := m\<rparr>) = fix_view r"
  "fix_view (r\<lparr>avgspd_Mint_Wr := n\<rparr>) = fix_view r" "fix_view (r\<lparr>PerMinSpdTotal := n\<rparr>) = fix_view r"
  "fix_view (r\<lparr>AspdCounter := n\<rparr>) = fix_view r" "fix_view (r\<lparr>GPRMC := x\<rparr>) = fix_view r" "fix_view (r\<lparr>rtc_set := l\<rparr>) = fix_view r"
  "fix_view (r\<lparr>GPS_datetimeFirstGet := n\<rparr>) = fix_view r" "fix_view (r\<lparr>GPS_getfirst := n\<rparr>) = fix_view r"
  "fix_view (r\<lparr>CurrentTime := t\<rparr>) = fix_view r" "fix_view (r\<lparr>BakTime := t\<rparr>) = fix_view r"
  "fix_view (r\<lparr>local_trig := n\<rparr>) = fix_view r" "fix_view (r\<lparr>local_timer := n\<rparr>) = fix_view r"
  "fix_view (r\<lparr>Gpstimer_abnormal_counter := n\<rparr>) = fix_view r" "fix_view (r\<lparr>delta_time_seconds := n\<rparr>) = fix_view r"
  "fix_view (r\<lparr>Bak_timer_seconds := n\<rparr>) = fix_view r" "fix_view (r\<lparr>Bak_delta_timer_seconds := n\<rparr>) = fix_view r"
  "fix_view (r\<lparr>Satelite_num := u\<rparr>) = fix_view r" "fix_view (r\<lparr>Antenna_Flag := n\<rparr>) = fix_view r" "fix_view (r\<lparr>mq_gps := q\<rparr>) = fix_view r"
  "fix_view (r\<lparr>Gps_Exception := x'\<rparr>) = fix_view r" "fix_view (r\<lparr>gps_on := c\<rparr>) = fix_view r" "fix_view (r\<lparr>vuart_out := l'\<rparr>) = fix_view r"
  by (simp_all add: fix_view_def)

lemma fix_status [simp]:
  "fix_view (StatusReg_GPS_V r) = fix_view r" "fix_view (StatusReg_GPS_A r) = fix_view r" "fix_view (no_position r) = fix_view r"
proof -
  show v: "fix_view (StatusReg_GPS_V r) = fix_view r" for r by (simp add: StatusReg_GPS_V_def fix_on_rapp)
  show "fix_view (StatusReg_GPS_A r) = fix_view r"
    by (simp add: StatusReg_GPS_A_def fix_on_rapp Let_def) (simp add: fix_view_def rx_updates)
  show "fix_view (no_position r) = fix_view r" by (simp add: no_position_def v)
qed

lemma fix_speed [simp]:
  "fix_view (K_AdjustUseGPS im n r) = fix_view r" "fix_view (Speed_pro im b k r) = fix_view r" "fix_view (Direction_pro b k r) = fix_view r"
proof -
  show K: "fix_view (K_AdjustUseGPS im n r) = fix_view r" for n r
    by (simp add: K_AdjustUseGPS_def Let_def fix_on_rapp)
  have D: "fix_view (add_distance m r) = fix_view r" "fix_view (distance_report m r) = fix_view r" for m r
    by (simp_all add: add_distance_def distance_report_def Let_def fix_on_rapp on_term_def on_device_def on_veh_def on_dev_def)
  have "fix_view (speed_fixed im n r) = fix_view r" for n r by (simp add: speed_fixed_def Let_def K D)
  then show "fix_view (Speed_pro im b k r) = fix_view r"
    by (simp add: Speed_pro_def Let_def K split: option.split)
  show "fix_view (Direction_pro b k r) = fix_view r" by (simp add: Direction_pro_def split: option.split)
qed

lemma fix_minute [simp]:
  "fix_view (AvrgSpd_MintProcess mi sec r) = fix_view r" "fix_view (fixed_minute mi sec r) = fix_view r"
  by (simp_all add: AvrgSpd_MintProcess_def fixed_minute_def Let_def)

lemma temp_of_view: "fix_view r = fix_view s \<Longrightarrow> Temp_Gps_Gprs r = Temp_Gps_Gprs s \<and> UDP_dataPacket_flag r = UDP_dataPacket_flag s \<and> place (rgps r) = place (rgps s)"
  by (simp add: fix_view_def)

lemma fix_temp: "fix_view (r\<lparr>Temp_Gps_Gprs := t\<rparr>) = (fst (fix_view r), t, snd (snd (fix_view r)))"
  by (simp add: fix_view_def)

lemma fix_date_set [simp]: "fix_view (date_set im ymd hour mi sec r) = fix_view r"
  by (simp add: date_set_def Let_def fix_on_rapp on_veh_def split: prod.split)

lemma fix_date:
  assumes "(if md then date_modify (date_digits b) else date_digits b) = (y, m, d)"
  shows "fix_view (Date_pro im b md hour mi sec r) =
    (UDP_dataPacket_flag r, (Temp_Gps_Gprs r)\<lparr>temp_Date := [byte y, byte m, byte d]\<rparr>, place (rgps r))"
proof -
  define s where "s = date_set im (y, m, d) hour mi sec r"
  have v: "fix_view s = fix_view r" by (simp add: s_def)
  then have t: "Temp_Gps_Gprs s = Temp_Gps_Gprs r" using temp_of_view by blast
  define u where "u = s\<lparr>Temp_Gps_Gprs := (Temp_Gps_Gprs s)\<lparr>temp_Date := [byte y, byte m, byte d]\<rparr>\<rparr>"
  have "Date_pro im b md hour mi sec r = (let v = AvrgSpd_MintProcess mi sec u in
      if y \<noteq> 0 \<and> m \<noteq> 0 \<and> d \<noteq> 0 then v\<lparr>GPS_datetimeFirstGet := 1\<rparr> else v)"
    unfolding Date_pro_def assms by (simp only: Let_def s_def u_def prod.case)
  then have "fix_view (Date_pro im b md hour mi sec r) = fix_view u" by (simp add: Let_def)
  also have "\<dots> = (UDP_dataPacket_flag r, (Temp_Gps_Gprs r)\<lparr>temp_Date := [byte y, byte m, byte d]\<rparr>, place (rgps r))"
    unfolding u_def fix_temp v t by (simp add: fix_view_def)
  finally show ?thesis .
qed

lemma fix_rect [simp]: "fix_view (on_nod (on_stn (RectangleRail_Judge la lo)) r) = fix_view r"
proof -
  have "place (gps (device_of (rect_judge a o' is z))) = place (gps (device_of z))" for a o' "is" z
    by (induction a o' "is" z rule: rect_judge.induct)
      (auto simp: Let_def crossing_def on_core_def on_term_def on_warn_def on_device_def on_veh_def on_dev_def)
  then show ?thesis by (simp add: fix_view_def on_nod_def on_stn_def RectangleRail_Judge_def)
qed

lemma fix_route [simp]: "fix_view (RouteRail_Judge E la lo r) = fix_view r"
proof -
  have "fix_view (on_nod (on_stn (\<lambda>z. z\<lparr>ROUTE_Obj := x\<rparr>)) r) = fix_view r" for x by (simp add: fix_view_def rx_updates)
  then show ?thesis by (simp add: RouteRail_Judge_def Let_def split: prod.split)
qed

lemma fix_duration: "fix_view (duration_report r) = (if seconds_of_day (CurrentTime r) = seconds_of_day (BakTime r)
    then (3, snd (fix_view r)) else fix_view r)"
proof -
  have V: "fix_view (r\<lparr>UDP_dataPacket_flag := n\<rparr>) = (n, snd (fix_view r))" for n r by (simp add: fix_view_def)
  have N: "fix_view (on_nod (on_vehicle (\<lambda>v. v\<lparr>SleepConfigFlag := k\<rparr>)) r) = fix_view r" for k r by (simp add: fix_view_def rx_updates)
  have D: "fix_view (due r) = fix_view r" for r by (simp add: due_def Let_def)
  have W: "fix_view (wake_up n r) = fix_view r" for n r by (simp add: wake_up_def Let_def N)
  have S: "fix_view (standing_clock r) = fix_view r" for r by (simp add: standing_clock_def Let_def)
  have "fix_view (elapsed tmp r) = (if tmp = seconds_of_day (BakTime r) then (3, snd (fix_view r)) else fix_view r)" for tmp
    by (simp add: elapsed_def Let_def V)
  then show ?thesis by (simp add: duration_report_def Let_def D S W)
qed

definition taken_over :: "gps_gprs \<Rightarrow> bytes \<times> bytes \<times> bytes \<times> bytes \<Rightarrow> bytes \<times> bytes \<times> bytes \<times> bytes" where
  "taken_over t p =
     (if of_be32 (temp_Latitude t) \<noteq> 0 \<and> of_be32 (temp_Longitude t) \<noteq> 0
      then (temp_Latitude t, temp_Longitude t, temp_Date t, temp_Time t) else p)"

lemma place_delta:
  "place (rgps (GPS_Delta_DurPro E r)) = taken_over (Temp_Gps_Gprs r) (place (rgps r)) \<and>
   Temp_Gps_Gprs (GPS_Delta_DurPro E r) = Temp_Gps_Gprs r \<and>
   (UDP_dataPacket_flag r \<noteq> 2 \<longrightarrow> UDP_dataPacket_flag (GPS_Delta_DurPro E r) \<noteq> 2)"
proof -
  let ?d = "if DUR_TOTALMODE (rapp r) = 1 then duration_report r else r"
  have d: "Temp_Gps_Gprs ?d = Temp_Gps_Gprs r" "place (rgps ?d) = place (rgps r)" "UDP_dataPacket_flag r \<noteq> 2 \<longrightarrow> UDP_dataPacket_flag ?d \<noteq> 2"
    using fix_duration [of r] by (auto simp: fix_view_def split: if_splits)
  have "fix_view (take_over ?d) = (UDP_dataPacket_flag ?d, Temp_Gps_Gprs r, taken_over (Temp_Gps_Gprs r) (place (rgps r)))"
    using d(1,2) by (simp add: take_over_def taken_over_def fix_view_def rx_updates Let_def del: fix_fields)
  moreover have "fix_view (GPS_Delta_DurPro E r) = fix_view (take_over ?d)" by (simp add: GPS_Delta_DurPro_def Let_def)
  ultimately show ?thesis using d(3) by (auto simp: fix_view_def)
qed

section \<open>The calendar\<close>

definition month_days :: "nat \<Rightarrow> nat \<Rightarrow> nat" where
  "month_days y m = (if m = 2 then if y mod 4 = 0 then 29 else 28 else if m \<in> {4, 6, 9, 11} then 30 else 31)"

definition valid_date :: "nat \<times> nat \<times> nat \<Rightarrow> bool" where
  "valid_date ymd = (let (y, m, d) = ymd in 1 \<le> m \<and> m \<le> 12 \<and> 1 \<le> d \<and> d \<le> month_days y m)"

definition days_before :: "nat \<Rightarrow> nat \<Rightarrow> nat" where
  "days_before y m = sum_list (map (month_days y) [1..<m])"

definition day_number :: "nat \<times> nat \<times> nat \<Rightarrow> nat" where
  "day_number ymd = (let (y, m, d) = ymd in 365 * y + (y + 3) div 4 + days_before y m + d)"

definition seconds_since :: "nat \<times> nat \<times> nat \<Rightarrow> nat \<times> nat \<times> nat \<Rightarrow> nat" where
  "seconds_since ymd hms = (let (h, mi, s) = hms in day_number ymd * 86400 + h * 3600 + mi * 60 + s)"

lemma month_cases:
  fixes m :: nat
  assumes "1 \<le> m" and "m \<le> 12"
  shows "m \<in> {1, 2, 3, 4, 5, 6, 7, 8, 9, 10, 11, 12}"
  using assms unfolding insert_iff empty_iff by presburger

lemma leap_step: "(y + 4) div 4 = (y + 3) div 4 + (if y mod 4 = 0 then 1 else (0 :: nat))"
  by (simp; presburger)

lemma days_before_next: "1 \<le> m \<Longrightarrow> days_before y (m + 1) = days_before y m + month_days y m"
  by (simp add: days_before_def)

lemma days_before_year: "days_before y 12 = (if y mod 4 = 0 then 335 else 334)" "days_before y (Suc 0) = 0"
  by (simp_all add: days_before_def month_days_def upt_rec)

lemma date_modify_cases:
  assumes "valid_date (y, m, d)"
  shows "date_modify (y, m, d) =
    (if d < month_days y m then (y, m, d + 1) else if m = 12 then (y + 1, 1, 1) else (y, m + 1, 1))"
proof -
  have m: "m \<in> {1, 2, 3, 4, 5, 6, 7, 8, 9, 10, 11, 12}" and d: "1 \<le> d" "d \<le> month_days y m"
    using assms month_cases [of m] by (auto simp: valid_date_def)
  show ?thesis
  proof (cases "m = 2 \<or> m \<in> {4, 6, 9, 11}")
    case True
    then show ?thesis using d by (auto simp: date_modify_def month_days_def split: if_splits)
  next
    case False
    then have "month_days y m = 31" by (auto simp: month_days_def)
    then show ?thesis using d m False by (auto simp: date_modify_def)
  qed
qed

lemma date_modify_next:
  assumes "valid_date (y, m, d)"
  shows "day_number (date_modify (y, m, d)) = day_number (y, m, d) + 1"
proof -
  have m: "1 \<le> m" and d: "d < month_days y m \<or> d = month_days y m" using assms by (auto simp: valid_date_def)
  have "month_days y 12 = 31" by (simp add: month_days_def)
  then show ?thesis
    using d m leap_step [of y] days_before_next [of m y]
    by (auto simp: date_modify_cases [OF assms] day_number_def days_before_year)
qed

section \<open>From a sentence to the position\<close>






definition time_digits :: "bytes \<Rightarrow> nat \<times> nat \<times> nat" where
  "time_digits b = (dg b 0 * 10 + dg b 1, dg b 2 * 10 + dg b 3, dg b 4 * 10 + dg b 5)"

lemma field_buf_nth: "i < length f \<Longrightarrow> field_buf f tmp ! i = f ! i"
  by (simp add: field_buf_def nth_append)

lemma field_digits:
  "\<forall>i \<in> set is. i < length f \<Longrightarrow> digits_at is (field_buf f tmp) = digits_at is f"
  "i < length f \<Longrightarrow> dg (field_buf f tmp) i = dg f i"
  by (induction "is") (auto simp: digits_at_def dg_def field_buf_nth)

lemma nonempty: "numeral k \<le> length f \<Longrightarrow> f \<noteq> []"
  by auto

lemma rmc_fields_Some:
  assumes "f \<noteq> []" and "n + 1 = m" and "rmc_field E m (length f) (field_buf f tmp) clk r = (Some (t, c), r')"
  shows "rmc_fields E (f # fs) n tmp clk r = rmc_fields E fs m t c r'"
  using assms by simp

lemma quiet_field:
  assumes "n + 1 \<in> {1, 5, 7, 8, 9}" and "length f \<le> 14" and "length tmp = 16"
  obtains tmp' r' where "rmc_fields E (f # fs) n tmp clk r = rmc_fields E fs (n + 1) tmp' clk r'"
    and "fix_view r' = fix_view r" and "length tmp' = 16"
proof (cases "f = []")
  case True
  then show ?thesis using that [of tmp r] assms by simp
next
  case False
  obtain h mi s md where c: "clk = (h, mi, s, md)" by (cases clk)
  define r' where "r' = snd (rmc_field E (n + 1) (length f) (field_buf f tmp) clk r)"
  have "rmc_field E (n + 1) (length f) (field_buf f tmp) clk r = (Some (field_buf f tmp, clk), r') \<and> fix_view r' = fix_view r"
    using assms(1) by (auto simp: r'_def rmc_field_def c Let_def Lat_NS_pro_def Long_WE_pro_def)
  then show ?thesis using that [of "field_buf f tmp" r'] False assms by (simp add: length_field_buf)
qed

lemma rest_fields: "10 \<le> n \<Longrightarrow> rmc_fields E fs n tmp clk r = (True, r)"
proof (induction fs arbitrary: n tmp)
  case (Cons f fs)
  obtain h mi s md where "clk = (h, mi, s, md)" by (cases clk)
  then show ?case using Cons by (simp add: rmc_field_def Let_def)
qed simp

definition local_hour :: "nat \<Rightarrow> nat" where
  "local_hour h = (if h + 8 > 23 then h + 8 - 24 else h + 8)"

lemma time_field:
  assumes "6 \<le> length f" and "length f \<le> 14" and "length tmp = 16" and "digits_at [0, 1, 2, 3, 4, 5] f" and "time_digits f = (h, mi, s)"
  obtains tmp' r' where "rmc_fields E (f # fs) 1 tmp (0, 0, 0, False) r = rmc_fields E fs 2 tmp' (local_hour h, mi, s, h + 8 > 23) r'"
    and "fix_view r' = (UDP_dataPacket_flag r, (Temp_Gps_Gprs r)\<lparr>temp_Time := [byte (local_hour h), byte mi, byte s]\<rparr>, place (rgps r))"
    and "length tmp' = 16"
proof -
  let ?b = "field_buf f tmp"
  have g: "digits_at [0, 1, 2, 3, 4, 5] ?b" "dg ?b 0 = dg f 0" "dg ?b 1 = dg f 1" "dg ?b 2 = dg f 2" "dg ?b 3 = dg f 3"
    "dg ?b 4 = dg f 4" "dg ?b 5 = dg f 5"
    using assms(1,4) nonempty [OF assms(1)] by (simp_all add: field_digits)
  define b' where "b' = (if h + 8 > 23 then ?b[0 := byte ((h + 8 - 24) div 10 + 48), 1 := byte ((h + 8 - 24) mod 10 + 48)] else ?b)"
  define r' where "r' = Time_pro b' (local_hour h) mi s r"
  have t: "dg f 0 * 10 + dg f 1 = h" "dg f 2 * 10 + dg f 3 = mi" "dg f 4 * 10 + dg f 5 = s"
    using assms(5) by (simp_all add: time_digits_def)
  have "dg b' i = dg ?b i" if "2 \<le> i" for i using that by (simp add: b'_def dg_def)
  then have d: "dg b' 2 * 10 + dg b' 3 = mi" "dg b' 4 * 10 + dg b' 5 = s" using t g by simp_all
  have "rmc_field E 2 (length f) ?b (0, 0, 0, False) r = (Some (b', local_hour h, mi, s, h + 8 > 23), r')"
    using assms(1) by (simp add: rmc_field_def rmc_time_def Let_def g t b'_def r'_def local_hour_def del: One_nat_def)
  moreover have "fix_view r' = (UDP_dataPacket_flag r, (Temp_Gps_Gprs r)\<lparr>temp_Time := [byte (local_hour h), byte mi, byte s]\<rparr>, place (rgps r))"
    unfolding r'_def Time_pro_def d by (simp add: fix_view_def)
  moreover have "length b' = 16" using length_field_buf [of f tmp] assms(2,3) by (simp add: b'_def)
  ultimately show ?thesis using that [OF rmc_fields_Some [OF nonempty [OF assms(1)]]] by simp
qed

lemma status_field:
  assumes "length tmp = 16"
  obtains r' where "rmc_fields E ([0x41] # fs) 2 tmp clk r = rmc_fields E fs 3 (field_buf [0x41] tmp) clk r'"
    and "fix_view r' = (2, snd (fix_view r))"
proof -
  obtain h mi s md where c: "clk = (h, mi, s, md)" by (cases clk)
  define r' where "r' = Status_pro (field_buf [0x41] tmp) r"
  have "fix_view r' = (2, snd (fix_view r))"
    by (simp add: r'_def Status_pro_def field_buf_def) (simp add: fix_view_def)
  moreover have "rmc_field E 3 (length [0x41 :: u8]) (field_buf [0x41] tmp) clk r = (Some (field_buf [0x41] tmp, clk), r')"
    by (simp add: rmc_field_def c r'_def)
  ultimately show ?thesis using that [OF rmc_fields_Some] by simp
qed

lemma lat_field:
  assumes "9 \<le> length f" and "length f \<le> 14" and "length tmp = 16" and "digits_at [0, 1, 2, 3, 5, 6, 7, 8] f"
    and "lat_value f \<noteq> 0" and "UDP_dataPacket_flag r = 2"
  obtains r' where "rmc_fields E (f # fs) 3 tmp clk r = rmc_fields E fs 4 (field_buf f tmp) clk r'"
    and "fix_view r' = (2, (Temp_Gps_Gprs r)\<lparr>temp_Latitude := be32 (lat_value f)\<rparr>, place (rgps r))"
proof -
  obtain h mi s md where c: "clk = (h, mi, s, md)" by (cases clk)
  have g: "digits_at [0, 1, 2, 3, 5, 6, 7, 8] (field_buf f tmp)" "lat_value (field_buf f tmp) = lat_value f"
    using assms(1,4) nonempty [OF assms(1)] by (simp_all add: field_digits lat_value_def)
  define r' where "r' = Latitude_pro (field_buf f tmp) r"
  have "fix_view r' = (2, (Temp_Gps_Gprs r)\<lparr>temp_Latitude := be32 (lat_value f)\<rparr>, place (rgps r))"
    using assms(5,6) by (simp add: r'_def Latitude_pro_def g(2) fix_view_def)
  moreover have "rmc_field E 4 (length f) (field_buf f tmp) clk r = (Some (field_buf f tmp, clk), r')"
    using g(1) by (simp add: rmc_field_def c r'_def)
  ultimately show ?thesis using that [OF rmc_fields_Some [OF nonempty [OF assms(1)]]] by simp
qed

lemma long_field:
  assumes "10 \<le> length f" and "length f \<le> 14" and "length tmp = 16" and "digits_at [0, 1, 2, 3, 4, 6, 7, 8, 9] f"
    and "long_value f \<noteq> 0" and "UDP_dataPacket_flag r = 2"
  obtains r' where "rmc_fields E (f # fs) 5 tmp clk r = rmc_fields E fs 6 (field_buf f tmp) clk r'"
    and "fix_view r' = (2, (Temp_Gps_Gprs r)\<lparr>temp_Longitude := be32 (long_value f)\<rparr>, place (rgps r))"
proof -
  obtain h mi s md where c: "clk = (h, mi, s, md)" by (cases clk)
  have g: "digits_at [0, 1, 2, 3, 4, 6, 7, 8, 9] (field_buf f tmp)" "long_value (field_buf f tmp) = long_value f"
    using assms(1,4) nonempty [OF assms(1)] by (simp_all add: field_digits long_value_def)
  define r' where "r' = Longitude_pro (field_buf f tmp) r"
  have "fix_view r' = (2, (Temp_Gps_Gprs r)\<lparr>temp_Longitude := be32 (long_value f)\<rparr>, place (rgps r))"
    using assms(5,6) by (simp add: r'_def Longitude_pro_def g(2) fix_view_def)
  moreover have "rmc_field E 6 (length f) (field_buf f tmp) clk r = (Some (field_buf f tmp, clk), r')"
    using g(1) by (simp add: rmc_field_def c r'_def)
  ultimately show ?thesis using that [OF rmc_fields_Some [OF nonempty [OF assms(1)]]] by simp
qed

lemma date_field:
  assumes "6 \<le> length f" and "length f \<le> 14" and "length tmp = 16" and "digits_at [0, 1, 2, 3, 4, 5] f"
    and "(if md then date_modify (date_digits f) else date_digits f) = (y, m, d)"
  obtains r' where "rmc_fields E (f # fs) 9 tmp (h, mi, s, md) r = (True, r')"
    and "fix_view r' = (UDP_dataPacket_flag r, (Temp_Gps_Gprs r)\<lparr>temp_Date := [byte y, byte m, byte d]\<rparr>, place (rgps r))"
proof -
  have g: "digits_at [0, 1, 2, 3, 4, 5] (field_buf f tmp)" "date_digits (field_buf f tmp) = date_digits f"
    using assms(1,4) nonempty [OF assms(1)] by (simp_all add: field_digits date_digits_def)
  define r' where "r' = Date_pro (gps_img E) (field_buf f tmp) md h mi s r"
  have "rmc_field E 10 (length f) (field_buf f tmp) (h, mi, s, md) r = (Some (field_buf f tmp, h, mi, s, md), r')"
    using g(1) by (simp add: rmc_field_def r'_def)
  moreover have "fix_view r' = (UDP_dataPacket_flag r, (Temp_Gps_Gprs r)\<lparr>temp_Date := [byte y, byte m, byte d]\<rparr>, place (rgps r))"
    unfolding r'_def by (rule fix_date) (simp only: g(2) assms(5))
  ultimately show ?thesis using that [of r'] rmc_fields_Some [OF nonempty [OF assms(1)], of 9 10] by (simp add: rest_fields)
qed

text \<open>
  A sentence is given by its fields. The first is the name with the dollar sign, and the text after the last comma ends with the
  end of the line.
\<close>

definition sentence :: "bytes list \<Rightarrow> bytes \<Rightarrow> bytes" where
  "sentence fs z = concat (map (\<lambda>f. f @ [0x2C]) fs) @ z @ [0x0D, 0x0A]"

definition clean :: "bytes \<Rightarrow> bool" where
  "clean f = (set f \<inter> {0, 0x0A, 0x24, 0x2C} = {})"

text \<open>A position sentence: hour, status, latitude, longitude, speed, direction and date, with what may follow.\<close>

record rmc_fields_of =
  f_time :: bytes
  f_status :: bytes
  f_lat :: bytes
  f_ns :: bytes
  f_long :: bytes
  f_we :: bytes
  f_speed :: bytes
  f_dir :: bytes
  f_date :: bytes
  f_more :: "bytes list"

definition rmc_text :: "rmc_fields_of \<Rightarrow> bytes list" where
  "rmc_text m = [f_time m, f_status m, f_lat m, f_ns m, f_long m, f_we m, f_speed m, f_dir m, f_date m] @ f_more m"

definition rmc_names :: "bytes set" where
  "rmc_names = {ascii ''$GNRMC'', ascii ''$BDRMC'', ascii ''$GPRMC''}"

definition well_formed :: "rmc_fields_of \<Rightarrow> bytes \<Rightarrow> bool" where
  "well_formed m z =
     ((\<forall>f \<in> set (rmc_text m). clean f \<and> length f \<le> 14) \<and> clean z \<and> length (sentence (ascii ''$GNRMC'' # rmc_text m) z) \<le> 122 \<and>
      6 \<le> length (f_time m) \<and> digits_at [0, 1, 2, 3, 4, 5] (f_time m) \<and>
      9 \<le> length (f_lat m) \<and> digits_at [0, 1, 2, 3, 5, 6, 7, 8] (f_lat m) \<and>
      10 \<le> length (f_long m) \<and> digits_at [0, 1, 2, 3, 4, 6, 7, 8, 9] (f_long m) \<and>
      6 \<le> length (f_date m) \<and> digits_at [0, 1, 2, 3, 4, 5] (f_date m))"

definition receiving :: "gps_env \<Rightarrow> receiver \<Rightarrow> bool" where
  "receiving E r = (length (uart5_body r) = 256 \<and> mq_gps r = [] \<and> flag_bd_upgrade_uart r = 0 \<and> length (gps_junk E) = 16)"

definition hear :: "gps_env \<Rightarrow> bytes \<Rightarrow> receiver \<Rightarrow> receiver" where
  "hear E s r = gps_turn E (fold UART5_IRQHandler s r)"

lemma clean_plain: "clean f \<Longrightarrow> plain f"
  by (auto simp: clean_def plain_def)

lemma name_parts:
  assumes "name \<in> rmc_names"
  shows "length name = 6" "hd name = 0x24" "name \<noteq> []" "clean (tl name)" "plain name"
  using assms by (auto simp: rmc_names_def ascii_def clean_def plain_def)

lemma well_formed_parts:
  assumes "well_formed m z"
  shows "6 \<le> length (f_time m)" "digits_at [0, 1, 2, 3, 4, 5] (f_time m)"
    "9 \<le> length (f_lat m)" "digits_at [0, 1, 2, 3, 5, 6, 7, 8] (f_lat m)"
    "10 \<le> length (f_long m)" "digits_at [0, 1, 2, 3, 4, 6, 7, 8, 9] (f_long m)"
    "6 \<le> length (f_date m)" "digits_at [0, 1, 2, 3, 4, 5] (f_date m)"
    "length (f_time m) \<le> 14" "length (f_lat m) \<le> 14" "length (f_ns m) \<le> 14" "length (f_long m) \<le> 14" "length (f_we m) \<le> 14"
    "length (f_speed m) \<le> 14" "length (f_dir m) \<le> 14" "length (f_date m) \<le> 14"
proof -
  have len: "\<And>f. f \<in> set (rmc_text m) \<Longrightarrow> length f \<le> 14"
    using assms unfolding well_formed_def by blast
  show "length (f_time m) \<le> 14" "length (f_lat m) \<le> 14" "length (f_ns m) \<le> 14" "length (f_long m) \<le> 14" "length (f_we m) \<le> 14"
    "length (f_speed m) \<le> 14" "length (f_dir m) \<le> 14" "length (f_date m) \<le> 14"
    by (rule len, simp add: rmc_text_def)+
qed (use assms in \<open>unfold well_formed_def, blast\<close>)+

lemma rmc_first_fields:
  assumes "well_formed m z" and "f_status m = [0x41]" and "lat_value (f_lat m) \<noteq> 0"
    and "name \<in> rmc_names" and "length tmp = 16" and "time_digits (f_time m) = (h, mi, s)"
  obtains t r' where "rmc_fields E (name # rmc_text m) 0 tmp (0, 0, 0, False) r =
      rmc_fields E (drop 4 (rmc_text m)) 5 t (local_hour h, mi, s, h + 8 > 23) r'"
    and "fix_view r' = (2, (Temp_Gps_Gprs r)\<lparr>temp_Time := [byte (local_hour h), byte mi, byte s],
      temp_Latitude := be32 (lat_value (f_lat m))\<rparr>, place (rgps r))" and "length t = 16"
proof -
  let ?s = "(local_hour h, mi, s, h + 8 > 23)"
  note w = well_formed_parts [OF assms(1)]
  note n = name_parts [OF assms(4)]
  obtain t0 r0 where 0: "rmc_fields E (name # rmc_text m) 0 tmp (0, 0, 0, False) r = rmc_fields E (rmc_text m) 1 t0 (0, 0, 0, False) r0"
    "fix_view r0 = fix_view r" "length t0 = 16"
    using quiet_field [of 0 name tmp E "rmc_text m" "(0, 0, 0, False)" r] n(1) assms(5) by auto
  obtain t1 r1 where 1: "rmc_fields E (rmc_text m) 1 t0 (0, 0, 0, False) r0 = rmc_fields E (tl (rmc_text m)) 2 t1 ?s r1"
    "fix_view r1 = (UDP_dataPacket_flag r0, (Temp_Gps_Gprs r0)\<lparr>temp_Time := [byte (local_hour h), byte mi, byte s]\<rparr>, place (rgps r0))"
    "length t1 = 16"
    using time_field [OF w(1) w(9) 0(3) w(2) assms(6), of E "tl (rmc_text m)" r0] unfolding rmc_text_def by auto
  obtain r2 where 2: "rmc_fields E (tl (rmc_text m)) 2 t1 ?s r1 = rmc_fields E (drop 2 (rmc_text m)) 3 (field_buf [0x41] t1) ?s r2"
    "fix_view r2 = (2, snd (fix_view r1))"
    using status_field [OF 1(3), of E "drop 2 (rmc_text m)" ?s r1] assms(2) unfolding rmc_text_def by auto
  define t2 where "t2 = field_buf [0x41] t1"
  have t2: "length t2 = 16" using 1(3) by (simp add: t2_def length_field_buf)
  have u2: "UDP_dataPacket_flag r2 = 2" using 2(2) by (simp add: fix_view_def)
  obtain r3 where 3: "rmc_fields E (drop 2 (rmc_text m)) 3 t2 ?s r2 = rmc_fields E (drop 3 (rmc_text m)) 4 (field_buf (f_lat m) t2) ?s r3"
    "fix_view r3 = (2, (Temp_Gps_Gprs r2)\<lparr>temp_Latitude := be32 (lat_value (f_lat m))\<rparr>, place (rgps r2))"
    using lat_field [OF w(3) w(10) t2 w(4) assms(3) u2, of E "drop 3 (rmc_text m)" ?s] unfolding rmc_text_def by auto
  obtain t4 r4 where 4: "rmc_fields E (drop 3 (rmc_text m)) 4 (field_buf (f_lat m) t2) ?s r3 = rmc_fields E (drop 4 (rmc_text m)) 5 t4 ?s r4"
    "fix_view r4 = fix_view r3" "length t4 = 16"
    using quiet_field [of 4 "f_ns m" "field_buf (f_lat m) t2" E "drop 4 (rmc_text m)" ?s r3] w(10,11) t2
    unfolding rmc_text_def by (auto simp: length_field_buf)
  have "rmc_fields E (name # rmc_text m) 0 tmp (0, 0, 0, False) r = rmc_fields E (drop 4 (rmc_text m)) 5 t4 ?s r4"
    by (simp only: 0(1) 1(1) 2(1) t2_def [symmetric] 3(1) 4(1))
  moreover have "fix_view r4 = (2, (Temp_Gps_Gprs r)\<lparr>temp_Time := [byte (local_hour h), byte mi, byte s],
      temp_Latitude := be32 (lat_value (f_lat m))\<rparr>, place (rgps r))"
    using 0(2) 1(2) 2(2) 3(2) 4(2) by (simp add: fix_view_def)
  ultimately show ?thesis using 4(3) by (rule that)
qed

lemma rmc_position_fields:
  assumes "well_formed m z" and "f_status m = [0x41]" and "lat_value (f_lat m) \<noteq> 0" and "long_value (f_long m) \<noteq> 0"
    and "name \<in> rmc_names" and "length tmp = 16" and "time_digits (f_time m) = (h, mi, s)"
    and "(if h + 8 > 23 then date_modify (date_digits (f_date m)) else date_digits (f_date m)) = (y, mo, d)"
  obtains r' where "rmc_fields E (name # rmc_text m) 0 tmp (0, 0, 0, False) r = (True, r')"
    and "fix_view r' = (2, \<lparr>temp_Date = [byte y, byte mo, byte d], temp_Time = [byte (local_hour h), byte mi, byte s],
      temp_Latitude = be32 (lat_value (f_lat m)), temp_Longitude = be32 (long_value (f_long m))\<rparr>, place (rgps r))"
proof -
  let ?s = "(local_hour h, mi, s, h + 8 > 23)"
  note w = well_formed_parts [OF assms(1)]
  obtain t4 r4 where 4: "rmc_fields E (name # rmc_text m) 0 tmp (0, 0, 0, False) r = rmc_fields E (drop 4 (rmc_text m)) 5 t4 ?s r4"
    "fix_view r4 = (2, (Temp_Gps_Gprs r)\<lparr>temp_Time := [byte (local_hour h), byte mi, byte s],
      temp_Latitude := be32 (lat_value (f_lat m))\<rparr>, place (rgps r))" "length t4 = 16"
    using rmc_first_fields [OF assms(1,2,3,5,6,7)] .
  have u4: "UDP_dataPacket_flag r4 = 2" using 4(2) by (simp add: fix_view_def)
  obtain r5 where 5: "rmc_fields E (drop 4 (rmc_text m)) 5 t4 ?s r4 = rmc_fields E (drop 5 (rmc_text m)) 6 (field_buf (f_long m) t4) ?s r5"
    "fix_view r5 = (2, (Temp_Gps_Gprs r4)\<lparr>temp_Longitude := be32 (long_value (f_long m))\<rparr>, place (rgps r4))"
    using long_field [OF w(5) w(12) 4(3) w(6) assms(4) u4, of E "drop 5 (rmc_text m)" ?s] unfolding rmc_text_def by auto
  obtain t6 r6 where 6: "rmc_fields E (drop 5 (rmc_text m)) 6 (field_buf (f_long m) t4) ?s r5 = rmc_fields E (drop 6 (rmc_text m)) 7 t6 ?s r6"
    "fix_view r6 = fix_view r5" "length t6 = 16"
    using quiet_field [of 6 "f_we m" "field_buf (f_long m) t4" E "drop 6 (rmc_text m)" ?s r5] w(12,13) 4(3)
    unfolding rmc_text_def by (auto simp: length_field_buf)
  obtain t7 r7 where 7: "rmc_fields E (drop 6 (rmc_text m)) 7 t6 ?s r6 = rmc_fields E (drop 7 (rmc_text m)) 8 t7 ?s r7"
    "fix_view r7 = fix_view r6" "length t7 = 16"
    using quiet_field [of 7 "f_speed m" t6 E "drop 7 (rmc_text m)" ?s r6] w(14) 6(3) unfolding rmc_text_def by auto
  obtain t8 r8 where 8: "rmc_fields E (drop 7 (rmc_text m)) 8 t7 ?s r7 = rmc_fields E (drop 8 (rmc_text m)) 9 t8 ?s r8"
    "fix_view r8 = fix_view r7" "length t8 = 16"
    using quiet_field [of 8 "f_dir m" t7 E "drop 8 (rmc_text m)" ?s r7] w(15) 7(3) unfolding rmc_text_def by auto
  obtain r9 where 9: "rmc_fields E (drop 8 (rmc_text m)) 9 t8 ?s r8 = (True, r9)"
    "fix_view r9 = (UDP_dataPacket_flag r8, (Temp_Gps_Gprs r8)\<lparr>temp_Date := [byte y, byte mo, byte d]\<rparr>, place (rgps r8))"
    using date_field [OF w(7) w(16) 8(3) w(8) assms(8), of E "f_more m" "local_hour h" mi s r8] unfolding rmc_text_def by auto
  have "rmc_fields E (name # rmc_text m) 0 tmp (0, 0, 0, False) r = (True, r9)"
    by (simp only: 4(1) 5(1) 6(1) 7(1) 8(1) 9(1))
  moreover have "fix_view r9 = (2, \<lparr>temp_Date = [byte y, byte mo, byte d], temp_Time = [byte (local_hour h), byte mi, byte s],
      temp_Latitude = be32 (lat_value (f_lat m)), temp_Longitude = be32 (long_value (f_long m))\<rparr>, place (rgps r))"
    using 4(2) 5(2) 6(2) 7(2) 8(2) 9(2) by (simp add: fix_view_def)
  ultimately show ?thesis by (rule that)
qed

lemma length_sentence: "length (sentence fs z) = sum_list (map length fs) + length fs + length z + 2"
  by (induction fs) (simp_all add: sentence_def)

lemma clean_sentence:
  assumes "\<forall>f \<in> set fs. clean f" and "clean z"
  shows "set (concat (map (\<lambda>f. f @ [0x2C]) fs) @ z) \<inter> {0x0A, 0x24} = {}"
  using assms by (auto simp: clean_def)

lemma sentence_queued:
  assumes "well_formed m z" and "name \<in> rmc_names" and "receiving E r"
  obtains B where "hear E (sentence (name # rmc_text m) z) r =
    GPS_Abnormal_process (GPS_Rx_Process E (sentence (name # rmc_text m) z)
      (r\<lparr>uart5_body := B, uart5_wr := 0, last_ch := 0x0A, mq_gps := []\<rparr>))"
proof -
  note n = name_parts [OF assms(2)]
  let ?s = "concat (map (\<lambda>f. f @ [0x2C]) (name # rmc_text m)) @ z"
  have c: "clean f" if "f \<in> set (rmc_text m)" for f using assms(1) that unfolding well_formed_def by blast
  have z: "clean z" "length (sentence (ascii ''$GNRMC'' # rmc_text m) z) \<le> 122" using assms(1) unfolding well_formed_def by blast+
  have "?s \<noteq> []" "hd ?s = 0x24" using n(2,3) by simp_all
  moreover have "tl ?s = tl name @ [0x2C] @ concat (map (\<lambda>f. f @ [0x2C]) (rmc_text m)) @ z" using n(3) by simp
  then have "set (tl ?s) \<inter> {0x0A, 0x24} = {}" using clean_sentence [of "rmc_text m" z] c z(1) n(4) by (auto simp: clean_def)
  moreover from this have "0x0A \<notin> set ?s" using n(2,3) by (cases name) auto
  moreover have "length ?s \<le> 120"
    using z(2) n(1) length_sentence [of "name # rmc_text m" z] length_sentence [of "ascii ''$GNRMC'' # rmc_text m" z]
    by (simp add: sentence_def ascii_def)
  ultimately obtain B where B: "fold UART5_IRQHandler (?s @ [0x0D, 0x0A]) r =
      r\<lparr>uart5_body := B, uart5_wr := 0, last_ch := 0x0A, mq_gps := [?s @ [0x0D, 0x0A]]\<rparr>"
    using irq_sentence [of ?s r] assms(3) by (auto simp: receiving_def)
  have e: "?s @ [0x0D, 0x0A] = sentence (name # rmc_text m) z" by (simp add: sentence_def)
  have len: "length (sentence (name # rmc_text m) z) \<le> 122"
    using z(2) n(1) length_sentence [of "name # rmc_text m" z] length_sentence [of "ascii ''$GNRMC'' # rmc_text m" z]
    by (simp add: ascii_def)
  have F: "fold UART5_IRQHandler (sentence (name # rmc_text m) z) r =
      r\<lparr>uart5_body := B, uart5_wr := 0, last_ch := 0x0A, mq_gps := [sentence (name # rmc_text m) z]\<rparr>" using B by (simp only: e)
  show ?thesis
    by (rule that [of B]) (use assms(3) len in \<open>simp add: hear_def gps_turn_def F receiving_def gps_received_short\<close>)
qed

lemma rx_sentence:
  assumes "name \<in> rmc_names"
  obtains q where "fix_view q = fix_view r"
    and "GPS_Rx_Process E (sentence (name # fs) z) r =
      (let p = Process_RMC E (sentence (name # fs) z) q
       in p\<lparr>Gps_Exception := (Gps_Exception p)\<lparr>current_datacou :=
            u32 (current_datacou (Gps_Exception p) + length (sentence (name # fs) z))\<rparr>\<rparr>)"
proof -
  have t: "take 7 (sentence (name # fs) z) = name @ [0x2C]" using name_parts(1) [OF assms] by (simp add: sentence_def)
  have v: "fix_view (rx_mode k w r) = fix_view r" for k w
    unfolding rx_mode_def by (simp add: fix_view_def rx_updates)
  define p where "p k w = Process_RMC E (sentence (name # fs) z) (rx_mode k w r)" for k w
  have "\<exists>k w. GPS_Rx_Process E (sentence (name # fs) z) r = (p k w)\<lparr>Gps_Exception := (Gps_Exception (p k w))\<lparr>current_datacou :=
            u32 (current_datacou (Gps_Exception (p k w)) + length (sentence (name # fs) z))\<rparr>\<rparr>"
  proof -
    let ?S = "sentence (name # fs) z"
    have "sentence_is ?S [n] = (name @ [0x2C] = ascii n)" for n by (simp add: sentence_is_def t)
    moreover have "name = ascii ''$GNRMC'' \<or> name = ascii ''$BDRMC'' \<or> name = ascii ''$GPRMC''"
      using assms by (auto simp: rmc_names_def)
    ultimately have "sentence_is ?S [''$GNRMC,''] \<or> sentence_is ?S [''$BDRMC,''] \<or> sentence_is ?S [''$GPRMC,'']"
      by (auto simp: ascii_def)
    then consider (gn) "sentence_is ?S [''$GNRMC,'']" | (bd) "\<not> sentence_is ?S [''$GNRMC,'']" "sentence_is ?S [''$BDRMC,'']"
      | (gp) "\<not> sentence_is ?S [''$GNRMC,'']" "\<not> sentence_is ?S [''$BDRMC,'']" "sentence_is ?S [''$GPRMC,'']" by blast
    then show ?thesis
    proof cases
      case gn
      then show ?thesis by (intro exI [of _ 3] exI [of _ "0x0C"]) (simp only: GPS_Rx_Process_def p_def Let_def if_True)
    next
      case bd
      then show ?thesis by (intro exI [of _ 1] exI [of _ 8]) (simp only: GPS_Rx_Process_def p_def Let_def if_True if_False)
    next
      case gp
      then show ?thesis by (intro exI [of _ 2] exI [of _ 4]) (simp only: GPS_Rx_Process_def p_def Let_def if_True if_False)
    qed
  qed
  then show ?thesis using that v by (auto simp: p_def Let_def)
qed

lemma place_abnormal: "place (rgps (GPS_Abnormal_process r)) = place (rgps r)"
proof -
  have "fix_view (on_rapp (\<lambda>a. a\<lparr>ModuleStatus := n a\<rparr>) r) = fix_view r" for n r by (simp add: fix_on_rapp)
  then have m: "place (rgps (on_rapp (\<lambda>a. a\<lparr>ModuleStatus := n a\<rparr>) r)) = place (rgps r)" for n r by (simp add: fix_view_def)
  have "fix_view (on_rgps (\<lambda>g. g\<lparr>Car_Status := n g\<rparr>) r) = fix_view r" for n r by simp
  then have "place (rgps (on_rgps (\<lambda>g. g\<lparr>Car_Status := n g\<rparr>) r)) = place (rgps r)" for n r by (simp add: fix_view_def del: fix_on_gps)
  with m show ?thesis by (simp add: GPS_Abnormal_process_def Let_def)
qed

lemma digit_bound: "isdig b \<Longrightarrow> unat b - 48 \<le> 9"
  by (auto simp: isdig_def word_le_nat_alt)

lemma times_5_div_3: "e \<le> 999999 \<Longrightarrow> e * 5 div 3 \<le> (1666665 :: nat)"
  by presburger

lemma value_bounds:
  "digits_at [0, 1, 2, 3, 5, 6, 7, 8] b \<Longrightarrow> lat_value b < 4294967296"
  "digits_at [0, 1, 2, 3, 4, 6, 7, 8, 9] b \<Longrightarrow> long_value b < 4294967296"
proof -
  assume "digits_at [0, 1, 2, 3, 5, 6, 7, 8] b"
  then have "dg b 0 \<le> 9" "dg b 1 \<le> 9" "dg b 2 \<le> 9" "dg b 3 \<le> 9" "dg b 5 \<le> 9" "dg b 6 \<le> 9" "dg b 7 \<le> 9" "dg b 8 \<le> 9"
    by (simp_all add: digits_at_def dg_def digit_bound)
  then have "dg b 2 * 100000 + dg b 3 * 10000 + dg b 5 * 1000 + dg b 6 * 100 + dg b 7 * 10 + dg b 8 \<le> 999999" "dg b 0 * 10 + dg b 1 \<le> 99"
    by linarith+
  then show "lat_value b < 4294967296" unfolding lat_value_def using times_5_div_3 by fastforce
next
  assume "digits_at [0, 1, 2, 3, 4, 6, 7, 8, 9] b"
  then have "dg b 0 \<le> 9" "dg b 1 \<le> 9" "dg b 2 \<le> 9" "dg b 3 \<le> 9" "dg b 4 \<le> 9" "dg b 6 \<le> 9" "dg b 7 \<le> 9" "dg b 8 \<le> 9" "dg b 9 \<le> 9"
    by (simp_all add: digits_at_def dg_def digit_bound)
  then have "dg b 3 * 100000 + dg b 4 * 10000 + dg b 6 * 1000 + dg b 7 * 100 + dg b 8 * 10 + dg b 9 \<le> 999999"
    "dg b 0 * 100 + dg b 1 * 10 + dg b 2 \<le> 999" by linarith+
  then show "long_value b < 4294967296" unfolding long_value_def using times_5_div_3 by fastforce
qed

lemma heard_place:
  assumes "well_formed m z" and "receiving E r" and "name \<in> rmc_names" and "f_status m = [0x41]"
    and "lat_value (f_lat m) \<noteq> 0" and "long_value (f_long m) \<noteq> 0" and "time_digits (f_time m) = (h, mi, s)"
    and "(if h + 8 > 23 then date_modify (date_digits (f_date m)) else date_digits (f_date m)) = (y, mo, d)"
  shows "place (rgps (hear E (sentence (name # rmc_text m) z) r)) =
    (be32 (lat_value (f_lat m)), be32 (long_value (f_long m)), [byte y, byte mo, byte d], [byte (local_hour h), byte mi, byte s])"
proof -
  obtain B where B: "hear E (sentence (name # rmc_text m) z) r = GPS_Abnormal_process (GPS_Rx_Process E
      (sentence (name # rmc_text m) z) (r\<lparr>uart5_body := B, uart5_wr := 0, last_ch := 0x0A, mq_gps := []\<rparr>))"
    using sentence_queued [OF assms(1,3,2)] .
  obtain q where q: "GPS_Rx_Process E (sentence (name # rmc_text m) z) (r\<lparr>uart5_body := B, uart5_wr := 0, last_ch := 0x0A, mq_gps := []\<rparr>) =
      (let p = Process_RMC E (sentence (name # rmc_text m) z) q
       in p\<lparr>Gps_Exception := (Gps_Exception p)\<lparr>current_datacou :=
            u32 (current_datacou (Gps_Exception p) + length (sentence (name # rmc_text m) z))\<rparr>\<rparr>)"
    using rx_sentence [OF assms(3)] .
  have j: "length (gps_junk E) = 16" using assms(2) by (simp add: receiving_def)
  obtain r' where r': "rmc_fields E (name # rmc_text m) 0 (gps_junk E) (0, 0, 0, False) q = (True, r')"
    "fix_view r' = (2, \<lparr>temp_Date = [byte y, byte mo, byte d], temp_Time = [byte (local_hour h), byte mi, byte s],
      temp_Latitude = be32 (lat_value (f_lat m)), temp_Longitude = be32 (long_value (f_long m))\<rparr>, place (rgps q))"
    using rmc_position_fields [OF assms(1,4,5,6,3) j assms(7,8)] .
  have f: "\<forall>f \<in> set (name # rmc_text m). plain f \<and> length f \<le> 14"
    using assms(1) name_parts(1,5) [OF assms(3)] clean_plain by (auto simp: well_formed_def)
  have w: "clean z" "length (sentence (ascii ''$GNRMC'' # rmc_text m) z) \<le> 122"
    "digits_at [0, 1, 2, 3, 5, 6, 7, 8] (f_lat m)" "digits_at [0, 1, 2, 3, 4, 6, 7, 8, 9] (f_long m)"
    using assms(1) unfolding well_formed_def by blast+
  have "plain (z @ [0x0D, 0x0A])" using clean_plain [OF w(1)] by (simp add: plain_def)
  moreover have "length (name # rmc_text m) < 256" using w(2) by (simp add: length_sentence)
  ultimately have "rmc_loop E (sentence (name # rmc_text m) z) 0 0 (gps_junk E) (0, 0, 0, False) q = (True, r')"
    using rmc_loop_fields [OF f _ j, of "z @ [0x0D, 0x0A]" 0 E "(0, 0, 0, False)" q] r'(1) by (simp add: sentence_def)
  then have "Process_RMC E (sentence (name # rmc_text m) z) q = GPS_Delta_DurPro E r'" by (simp add: Process_RMC_def)
  then show ?thesis
    using B q r'(2) place_delta [of E r'] value_bounds(1) [OF w(3)] value_bounds(2) [OF w(4)] assms(5,6)
    by (simp add: place_abnormal taken_over_def fix_view_def of_be32_be32 [where r = "[]", simplified] Let_def)
qed

definition three :: "bytes \<Rightarrow> nat \<times> nat \<times> nat" where
  "three b = (unat (b ! 0), unat (b ! 1), unat (b ! 2))"


text \<open>
  (C9) The time of a position is the local time: eight hours after the time of the sentence, over the end of the
  day, the month, February of leap years and the year, counted in seconds by the calendar of the years 2000 to 2099.
\<close>

theorem time_is_local:
  assumes "well_formed m z" and "receiving E r" and "name \<in> rmc_names" and "f_status m = [0x41]"
    and "lat_value (f_lat m) \<noteq> 0" and "long_value (f_long m) \<noteq> 0"
    and "valid_date (date_digits (f_date m))" and "fst (time_digits (f_time m)) < 24"
    and "g = rgps (hear E (sentence (name # rmc_text m) z) r)"
  shows "seconds_since (three (gps_Date g)) (three (gps_Time g)) =
    seconds_since (date_digits (f_date m)) (time_digits (f_time m)) + 8 * 3600"
proof -
  obtain h mi s where t: "time_digits (f_time m) = (h, mi, s)" by (cases "time_digits (f_time m)")
  obtain y mo d where D: "date_digits (f_date m) = (y, mo, d)" by (cases "date_digits (f_date m)")
  obtain y' mo' d' where n: "(if h + 8 > 23 then date_modify (y, mo, d) else (y, mo, d)) = (y', mo', d')"
    by (metis prod_cases3)
  have p: "place g = (be32 (lat_value (f_lat m)), be32 (long_value (f_long m)), [byte y', byte mo', byte d'],
      [byte (local_hour h), byte mi, byte s])"
    unfolding assms(9) by (rule heard_place [OF assms(1-6) t n [folded D]])
  have w: "digits_at [0, 1, 2, 3, 4, 5] (f_time m)" "digits_at [0, 1, 2, 3, 4, 5] (f_date m)"
    using assms(1) unfolding well_formed_def by blast+
  then have "dg (f_time m) 2 \<le> 9" "dg (f_time m) 3 \<le> 9" "dg (f_time m) 4 \<le> 9" "dg (f_time m) 5 \<le> 9"
    "dg (f_date m) 4 \<le> 9" "dg (f_date m) 5 \<le> 9"
    by (simp_all add: digits_at_def dg_def digit_bound)
  moreover have "mi = dg (f_time m) 2 * 10 + dg (f_time m) 3" "s = dg (f_time m) 4 * 10 + dg (f_time m) 5"
    "y = dg (f_date m) 4 * 10 + dg (f_date m) 5" using t D by (simp_all add: time_digits_def date_digits_def)
  ultimately have b: "mi < 256" "s < 256" "y < 100" by linarith+
  have v: "valid_date (y, mo, d)" and h: "h < 24" using assms(7,8) D t by simp_all
  then have "y' \<le> 100" "mo' \<le> 12" "d' \<le> 31"
    using n date_modify_cases [OF v] b(3) by (auto simp: valid_date_def month_days_def split: if_splits)
  then have "three (gps_Date g) = (y', mo', d')" "three (gps_Time g) = (local_hour h, mi, s)"
    using p b h by (simp_all add: place_def three_def local_hour_def unat_byte)
  moreover have "day_number (y', mo', d') = day_number (y, mo, d) + (if h + 8 > 23 then 1 else 0)"
    using n date_modify_next [OF v] by (auto split: if_splits)
  ultimately show ?thesis using D t h by (auto simp: seconds_since_def local_hour_def)
qed

section \<open>Examples\<close>

definition new_receiver :: receiver where
  "new_receiver = \<lparr>nod = new_node,
     GPRMC = \<lparr>utc_year = 0, utc_mon = 0, utc_day = 0, utc_hour = 0, utc_min = 0, utc_sec = 0, rmc_status = 0,
       rmc_latitude = 0, rmc_longtitude = 0\<rparr>,
     Temp_Gps_Gprs = \<lparr>temp_Date = [0, 0, 0], temp_Time = [0, 0, 0], temp_Latitude = replicate 4 0, temp_Longitude = replicate 4 0\<rparr>,
     UDP_dataPacket_flag = 3, GPS_getfirst = 0, GPS_datetimeFirstGet = 0, Satelite_num = 0, CurrentTime = [0, 0, 0],
     BakTime = [0, 0, 0], delta_time_seconds = 0, Bak_timer_seconds = 0, Bak_delta_timer_seconds = 0, local_trig = 1,
     local_timer = 0, Gpstimer_abnormal_counter = 0, Speed_GetType = 0, DIST_TOTALMODE = 0, Current_SD_Distance = 100,
     DistanceAccumulate = 0, Delta_1s_Plus = 0, Speed_Rec = 0, Spd_adjust_counter = 0, Former_gpsSpd = replicate 20 0,
     Former_DeltaPlus = replicate 20 0, A_time = replicate 6 0, Posit = replicate 60 (replicate 4 0, replicate 4 0),
     MintPosit_SaveFlag = 0,
     Avrgspd_Mint = \<lparr>spd_datetime = replicate 6 0, spd_datetime_Bak = replicate 6 0, avgrspd = replicate 60 0, spd_saveFlag = 0\<rparr>,
     avgspd_Mint_Wr = 0, PerMinSpdTotal = 0, AspdCounter = 0, OutGPS_Flag = 0, Antenna_Flag = 0,
     Gps_Exception = \<lparr>current_datacou = 0, last_datacou = 0, no_updateTimer = 0, GPS_Rst_counter = 0, Reset_gps = 0\<rparr>,
     gps_on = True, rtc_set = [], uart5_body = replicate 256 0, uart5_wr = 0, last_ch = 0, mq_gps = [], flag_bd_upgrade_uart = 0,
     vuart_out = []\<rparr>"

definition plain_env :: gps_env where
  "plain_env = \<lparr>gps_img = conf_img no_layout, off_route = (\<lambda>la lo z. (False, ROUTE_Obj z)), height_of = (\<lambda>h s. 0),
     gps_junk = replicate 16 0\<rparr>"

definition example_rmc :: rmc_fields_of where
  "example_rmc = \<lparr>f_time = ascii ''235950.00'', f_status = ascii ''A'', f_lat = ascii ''3909.11361'', f_ns = ascii ''N'',
     f_long = ascii ''11712.50398'', f_we = ascii ''E'', f_speed = ascii ''0.192'', f_dir = ascii ''150.85'', f_date = ascii ''290212'',
     f_more = [[], []]\<rparr>"

lemma example_ok:
  "well_formed example_rmc (ascii ''A*64'')" "receiving plain_env new_receiver" "ascii ''$GPRMC'' \<in> rmc_names"
  "f_status example_rmc = [0x41]"
  by (code_simp, code_simp, simp add: rmc_names_def, code_simp)


theorem time_is_local_witness:
  "let g = rgps (hear plain_env (sentence (ascii ''$GPRMC'' # rmc_text example_rmc) (ascii ''A*64'')) new_receiver)
   in seconds_since (three (gps_Date g)) (three (gps_Time g)) = seconds_since (12, 3, 1) (7, 59, 50)"
proof -
  have "lat_value (f_lat example_rmc) \<noteq> 0" "long_value (f_long example_rmc) \<noteq> 0" "valid_date (date_digits (f_date example_rmc))"
    "fst (time_digits (f_time example_rmc)) < 24"
    by (simp_all add: example_rmc_def ascii_def lat_value_def long_value_def dg_def valid_date_def date_digits_def
      time_digits_def month_days_def)
  from time_is_local [OF example_ok this refl]
  have "seconds_since (three (gps_Date (rgps (hear plain_env (sentence (ascii ''$GPRMC'' # rmc_text example_rmc) (ascii ''A*64'')) new_receiver))))
      (three (gps_Time (rgps (hear plain_env (sentence (ascii ''$GPRMC'' # rmc_text example_rmc) (ascii ''A*64'')) new_receiver)))) =
    seconds_since (date_digits (f_date example_rmc)) (time_digits (f_time example_rmc)) + 8 * 3600" .
  also have "\<dots> = seconds_since (12, 3, 1) (7, 59, 50)"
    by (simp add: example_rmc_def ascii_def dg_def date_digits_def time_digits_def seconds_since_def day_number_def
      days_before_def month_days_def upt_rec)
  finally show ?thesis by (simp only: Let_def)
qed

end
