(* ===== verification/Gps_Reports.thy ===== *)
theory Gps_Reports
  imports Gps_Position
begin

text \<open>
  The receiver over time: runs of the interrupt, the thread and the local clock. The position changes only with a fix, reports by
  time come with the interval, reports by distance never, and some events are missed.
\<close>

section \<open>Runs of the receiver\<close>

text \<open>
  The bytes the interrupt receives, the turns of the thread and the seconds of the local clock, in any order. A run keeps the
  list of the sentences that the thread read.
\<close>

inductive gps_step :: "gps_env \<Rightarrow> receiver \<Rightarrow> bytes list \<Rightarrow> receiver \<Rightarrow> bool" for E where
  char: "gps_step E r [] (UART5_IRQHandler ch r)"
| turn: "gps_step E r (map gps_received (take 1 (mq_gps r))) (gps_turn E r)"
| second: "gps_step E r [] (local_time r)"

inductive gps_run :: "gps_env \<Rightarrow> receiver \<Rightarrow> bytes list \<Rightarrow> receiver \<Rightarrow> bool" for E where
  start: "gps_run E r [] r"
| further: "gps_run E r ms r' \<Longrightarrow> gps_step E r' m r'' \<Longrightarrow> gps_run E r (ms @ m) r''"

inductive_cases gps_stepE: "gps_step E r m r'"

text \<open>The status of a position sentence: the first byte after its second comma.\<close>

fun after_commas :: "nat \<Rightarrow> bytes \<Rightarrow> bytes" where
  "after_commas 0 p = p"
| "after_commas (Suc k) [] = []"
| "after_commas (Suc k) (b # p) = (if b = 0x2C then after_commas k p else after_commas (Suc k) p)"

definition starts_A :: "bytes \<Rightarrow> bool" where
  "starts_A p = (case p of [] \<Rightarrow> False | b # _ \<Rightarrow> b = 0x41 \<or> b = 0x61)"

definition starts_V :: "bytes \<Rightarrow> bool" where
  "starts_V p = (case p of [] \<Rightarrow> False | b # _ \<Rightarrow> b = 0x56 \<or> b = 0x76)"

definition position_sentence :: "bytes \<Rightarrow> bool" where
  "position_sentence m = sentence_is m [''$GNRMC,'', ''$BDRMC,'', ''$GPRMC,'']"

definition reports_fix :: "bytes \<Rightarrow> bool" where
  "reports_fix m = (position_sentence m \<and> starts_A (after_commas 2 m))"

definition reports_void :: "bytes \<Rightarrow> bool" where
  "reports_void m = (position_sentence m \<and> starts_V (after_commas 2 m))"

text \<open>The position of the terminal, and the one that the sentences fill in and the end of a sentence takes over.\<close>

definition fix_position :: "receiver \<Rightarrow> bytes \<times> bytes" where
  "fix_position r = (Latitude (rgps r), Longitude (rgps r))"

definition fix_pending :: "receiver \<Rightarrow> bytes \<times> bytes" where
  "fix_pending r = (temp_Latitude (Temp_Gps_Gprs r), temp_Longitude (Temp_Gps_Gprs r))"

section \<open>The position changes only with a fix\<close>

definition spot :: "nat \<times> gps_gprs \<times> bytes \<times> bytes \<times> bytes \<times> bytes \<Rightarrow> bytes \<times> bytes \<times> bytes \<times> bytes" where
  "spot v = (case v of (u, t, la, lo, dt, tm) \<Rightarrow> (temp_Latitude t, temp_Longitude t, la, lo))"

definition unfixed :: "bool \<Rightarrow> bytes \<times> bytes \<times> bytes \<times> bytes \<Rightarrow> receiver \<Rightarrow> bool" where
  "unfixed k p r = ((k \<or> fst (fix_view r) \<noteq> 2) \<and> spot (fix_view r) = p)"

lemma unfixed_any: "unfixed False p r \<Longrightarrow> unfixed k p r"
  by (simp add: unfixed_def)

lemma fix_udp: "fix_view (r\<lparr>UDP_dataPacket_flag := n\<rparr>) = (n, snd (fix_view r))"
  by (simp add: fix_view_def)

lemma spot_flag: "spot (n, snd v) = spot v"
  by (simp add: spot_def split: prod.split)

lemma unfixed_flag: "unfixed False p r \<Longrightarrow> UDP_dataPacket_flag r \<noteq> 2"
  by (simp add: unfixed_def fix_view_def)

lemma unfixed_status:
  "unfixed k p r \<Longrightarrow> b ! 0 \<notin> {0x41, 0x61} \<Longrightarrow> unfixed k p (Status_pro b r)"
  "unfixed k p r \<Longrightarrow> b ! 0 \<in> {0x56, 0x76} \<Longrightarrow> unfixed False p (Status_pro b r)"
  by (auto simp: Status_pro_def Let_def unfixed_def fix_udp spot_flag)

lemma unfixed_time: "unfixed k p r \<Longrightarrow> unfixed k p (snd (rmc_time i tmp clk r))"
proof -
  assume u: "unfixed k p r"
  have "fix_view (Time_pro b h mi s r) = (fst (fix_view r), (fst (snd (fix_view r)))\<lparr>temp_Time := [byte h, byte (dg b 2 * 10 + dg b 3),
      byte (dg b 4 * 10 + dg b 5)]\<rparr>, snd (snd (fix_view r)))" for b h mi s
    by (simp add: Time_pro_def fix_view_def)
  then have "unfixed k p (Time_pro b h mi s r)" for b h mi s
    using u by (simp add: unfixed_def spot_def split: prod.splits)
  moreover have "unfixed k p (StatusReg_GPS_V (r\<lparr>PerMinSpdTotal := 0, AspdCounter := 0\<rparr>))" using u by (simp add: unfixed_def)
  ultimately show ?thesis by (simp add: rmc_time_def Let_def)
qed

lemma unfixed_date: "unfixed k p r \<Longrightarrow> unfixed k p (Date_pro im b md h mi s r)"
proof -
  assume u: "unfixed k p r"
  obtain y m d where "(if md then date_modify (date_digits b) else date_digits b) = (y, m, d)" by (metis prod_cases3)
  then have "fix_view (Date_pro im b md h mi s r) = (fst (fix_view r), (fst (snd (fix_view r)))\<lparr>temp_Date := [byte y, byte m, byte d]\<rparr>,
      snd (snd (fix_view r)))"
    using fix_date [of md b y m d im h mi s r] by (simp add: fix_view_def)
  then show ?thesis using u by (simp add: unfixed_def spot_def split: prod.splits)
qed

lemma unfixed_field:
  assumes "unfixed False p r" and "n = 3 \<longrightarrow> tmp ! 0 \<notin> {0x41, 0x61}"
  shows "unfixed False p (snd (rmc_field E n i tmp clk r))"
proof -
  obtain h mi s md where c: "clk = (h, mi, s, md)" by (cases clk)
  note q = unfixed_flag [OF assms(1)]
  have "unfixed False p (Latitude_pro tmp r)" "unfixed False p (Longitude_pro tmp r)" "unfixed False p (Lat_NS_pro tmp r)"
    "unfixed False p (Long_WE_pro tmp r)"
    using assms(1) q by (simp_all add: Latitude_pro_def Longitude_pro_def Lat_NS_pro_def Long_WE_pro_def unfixed_def)
  moreover have "unfixed False p (Speed_pro im tmp k r)" "unfixed False p (Direction_pro tmp k r)" for im k
    using assms(1) by (simp_all add: unfixed_def)
  ultimately show ?thesis
    using assms unfixed_time unfixed_date unfixed_status(1) by (simp add: rmc_field_def c Let_def)
qed

text \<open>The fields up to the status leave everything alone, and a void status takes the fix back.\<close>

lemma unfixed_first_fields:
  assumes "unfixed k p r"
  shows "n \<le> 2 \<Longrightarrow> unfixed k p (snd (rmc_field E n i tmp clk r))"
    and "tmp ! 0 \<in> {0x56, 0x76} \<Longrightarrow> unfixed False p (snd (rmc_field E 3 i tmp clk r))"
proof -
  obtain h mi s md where c: "clk = (h, mi, s, md)" by (cases clk)
  show "n \<le> 2 \<Longrightarrow> unfixed k p (snd (rmc_field E n i tmp clk r))"
    using assms unfixed_time by (simp add: rmc_field_def c Let_def)
  show "tmp ! 0 \<in> {0x56, 0x76} \<Longrightarrow> unfixed False p (snd (rmc_field E 3 i tmp clk r))"
    using unfixed_status(2) [OF assms] by (simp add: rmc_field_def c Let_def)
qed

definition not_A :: "nat \<Rightarrow> nat \<Rightarrow> bytes \<Rightarrow> bytes \<Rightarrow> bool" where
  "not_A n i tmp p =
     (if n < 2 then \<not> starts_A (after_commas (2 - n) p)
      else if n = 2 then if i = 0 then \<not> starts_A p else tmp ! 0 \<notin> {0x41, 0x61}
      else True)"

lemma not_A_comma: "not_A n i tmp (0x2C # p) \<Longrightarrow> not_A (n + 1) 0 tmp' p"
  by (cases n rule: nat.exhaust; cases "n - 1" rule: nat.exhaust) (auto simp: not_A_def numeral_2_eq_2)

lemma not_A_char:
  assumes "not_A n i tmp (b # p)" and "b \<noteq> 0x2C" and "tmp \<noteq> []"
  shows "not_A n (i + 1) (tmp[i := b, i + 1 := 0]) p" "not_A n (i + 1) (tmp[i := b]) p"
proof -
  have "starts_A (after_commas (2 - n) (b # p)) = starts_A (after_commas (2 - n) p)" if "n < 2"
    using assms(2) that by (cases "2 - n") auto
  moreover have "starts_A (b # p) = (b \<in> {0x41, 0x61})" by (simp add: starts_A_def)
  ultimately show "not_A n (i + 1) (tmp[i := b, i + 1 := 0]) p" "not_A n (i + 1) (tmp[i := b]) p"
    using assms by (auto simp: not_A_def nth_list_update split: if_splits)
qed

lemma unfixed_loop:
  assumes "unfixed False p r" and "not_A n i tmp str" and "n + length str < 256" and "tmp \<noteq> []"
  shows "unfixed False p (snd (rmc_loop E str n i tmp clk r))"
  using assms
proof (induction str arbitrary: n i tmp clk r)
  case (Cons b str)
  have n: "u8n (n + 1) = n + 1" using Cons.prems(3) by (simp add: u8n_def)
  consider "b = 0" | "b = 0x2C" | "b \<noteq> 0" "b \<noteq> 0x2C" by blast
  then show ?case
  proof cases
    case 2
    show ?thesis
    proof (cases "i = 0")
      case True
      then show ?thesis using Cons.prems not_A_comma [of n i tmp str tmp] 2 n by (auto intro!: Cons.IH)
    next
      case False
      have "n + 1 = 3 \<longrightarrow> tmp ! 0 \<notin> {0x41, 0x61}" using Cons.prems(2) False 2 by (auto simp: not_A_def)
      from unfixed_field [OF Cons.prems(1) this, of E i clk]
      have u: "unfixed False p (snd (rmc_field E (n + 1) i tmp clk r))" .
      show ?thesis
      proof (cases "rmc_field E (n + 1) i tmp clk r")
        case (Pair o' r')
        show ?thesis
        proof (cases o')
          case None
          then show ?thesis using Pair u 2 n False by simp
        next
          case (Some tc)
          obtain t c where tc: "tc = (t, c)" by (cases tc)
          have "length t = length tmp" using Pair Some tc rmc_field_tmp by blast
          then have "t \<noteq> []" using Cons.prems(4) by auto
          then show ?thesis using Pair Some tc u 2 n False Cons.prems(2,3) not_A_comma [of n i tmp str t]
            by (auto intro!: Cons.IH)
        qed
      qed
    qed
  next
    case 3
    then show ?thesis using Cons.prems not_A_char [OF Cons.prems(2) 3(2) Cons.prems(4)] by (auto simp: Let_def intro!: Cons.IH)
  qed (use Cons.prems in simp)
qed simp

text \<open>A sentence with a void status, whatever the state before it.\<close>

definition is_V :: "nat \<Rightarrow> nat \<Rightarrow> bytes \<Rightarrow> bytes \<Rightarrow> bool" where
  "is_V n i tmp p =
     (if n < 2 then starts_V (after_commas (2 - n) p) else if i = 0 then starts_V p else tmp ! 0 \<in> {0x56, 0x76})"

lemma is_V_comma: "is_V n i tmp (0x2C # p) \<Longrightarrow> n < 2 \<Longrightarrow> is_V (n + 1) 0 tmp' p"
  by (cases n rule: nat.exhaust; cases "n - 1" rule: nat.exhaust) (auto simp: is_V_def numeral_2_eq_2)

lemma is_V_char:
  assumes "is_V n i tmp (b # p)" and "b \<noteq> 0x2C" and "tmp \<noteq> []"
  shows "is_V n (i + 1) (tmp[i := b, i + 1 := 0]) p" "is_V n (i + 1) (tmp[i := b]) p"
proof -
  have "starts_V (after_commas (2 - n) (b # p)) = starts_V (after_commas (2 - n) p)" if "n < 2"
    using assms(2) that by (cases "2 - n") auto
  moreover have "starts_V (b # p) = (b \<in> {0x56, 0x76})" by (simp add: starts_V_def)
  ultimately show "is_V n (i + 1) (tmp[i := b, i + 1 := 0]) p" "is_V n (i + 1) (tmp[i := b]) p"
    using assms by (auto simp: is_V_def nth_list_update split: if_splits)
qed

lemma void_loop:
  assumes "unfixed k p r" and "is_V n i tmp str" and "n \<le> 2" and "n + length str < 256" and "tmp \<noteq> []"
  shows "unfixed k p (snd (rmc_loop E str n i tmp clk r))"
  using assms
proof (induction str arbitrary: n i tmp clk r)
  case (Cons b str)
  have n: "u8n (n + 1) = n + 1" using Cons.prems(4) by (simp add: u8n_def)
  consider "b = 0" | "b = 0x2C" "i = 0" | "b = 0x2C" "0 < i" | "b \<noteq> 0" "b \<noteq> 0x2C" by blast
  then show ?case
  proof cases
    case 2
    have "n < 2" using Cons.prems(2,3) 2 by (auto simp: is_V_def starts_V_def split: if_splits)
    then show ?thesis using Cons.prems is_V_comma [of n i tmp str tmp] 2 n by (auto intro!: Cons.IH)
  next
    case 3
    obtain o' r' where f: "rmc_field E (n + 1) i tmp clk r = (o', r')" by (cases "rmc_field E (n + 1) i tmp clk r")
    have "n = 2 \<Longrightarrow> rmc_field E 3 i tmp clk r = (o', r')" using f by simp
    then have "n = 2 \<longrightarrow> unfixed False p r'"
      using unfixed_first_fields(2) [OF Cons.prems(1), of tmp E i clk] Cons.prems(2) 3 by (auto simp: is_V_def)
    moreover have "n < 2 \<longrightarrow> unfixed k p r'" using unfixed_first_fields(1) [OF Cons.prems(1), of "n + 1" E i tmp clk] f by simp
    ultimately have v: "n = 2 \<longrightarrow> unfixed False p r'" "n < 2 \<longrightarrow> unfixed k p r'" by blast+
    show ?thesis
    proof (cases o')
      case None
      then show ?thesis using f v Cons.prems(3) 3 n unfixed_any [of p r'] by (cases "n = 2") auto
    next
      case (Some tc)
      obtain t c where tc: "tc = (t, c)" by (cases tc)
      have "length t = length tmp" using f Some tc rmc_field_tmp by blast
      then have t: "t \<noteq> []" using Cons.prems(5) by auto
      show ?thesis
      proof (cases "n = 2")
        case True
        have "unfixed False p (snd (rmc_loop E str (n + 1) 0 t c r'))"
          using unfixed_loop [of p r' "n + 1" 0 t str] v True t Cons.prems(4) by (simp add: not_A_def)
        then show ?thesis using f Some tc 3 n unfixed_any by simp
      next
        case False
        then show ?thesis using f Some tc 3 n v t Cons.prems(2-4) is_V_comma [of n i tmp str t] by (auto intro!: Cons.IH)
      qed
    qed
  next
    case 4
    then show ?thesis using Cons.prems is_V_char [OF Cons.prems(2) 4(2) Cons.prems(5)] by (auto simp: Let_def intro!: Cons.IH)
  qed (use Cons.prems in simp)
qed simp

text \<open>
  Sentences that leave the position alone: with a fix (\<open>k\<close>) those whose status is void, without one all whose status does not
  begin with A. What they leave to be taken over is what was pending before.
\<close>

definition keeps :: "bool \<Rightarrow> bytes \<Rightarrow> bool" where
  "keeps k m = (if k then starts_V (after_commas 2 m) else \<not> starts_A (after_commas 2 m))"

definition held :: "bool \<Rightarrow> bytes \<times> bytes \<Rightarrow> bytes \<times> bytes \<Rightarrow> receiver \<Rightarrow> bool" where
  "held k t p r = (unfixed k (fst t, snd t, fst p, snd p) r \<or> unfixed k (fst t, snd t, fst t, snd t) r)"

lemma held_by: "held k t p r \<Longrightarrow> (\<And>q. unfixed k q r \<Longrightarrow> unfixed k q r') \<Longrightarrow> held k t p r'"
  unfolding held_def by blast

lemma unfixed_rmc_loop:
  assumes "unfixed k p r" and "keeps k m" and "length m < 256" and "length (gps_junk E) = 16"
  shows "unfixed k p (snd (rmc_loop E m 0 0 (gps_junk E) (0, 0, 0, False) r))"
proof -
  have j: "gps_junk E \<noteq> []" using assms(4) by auto
  show ?thesis
  proof (cases k)
    case True
    then show ?thesis using void_loop [OF assms(1), of 0 0 "gps_junk E" m] assms(2,3) j by (simp add: is_V_def keeps_def)
  next
    case False
    then show ?thesis using unfixed_loop [of p r 0 0 "gps_junk E" m] assms j by (simp add: not_A_def keeps_def)
  qed
qed

lemma held_rmc:
  assumes "held k t p r" and "keeps k m" and "length m < 256" and "length (gps_junk E) = 16"
  shows "held k t p (Process_RMC E m r)"
proof -
  obtain c r' where l: "rmc_loop E m 0 0 (gps_junk E) (0, 0, 0, False) r = (c, r')" by fastforce
  have h: "held k t p r'" using unfixed_rmc_loop [OF _ assms(2-4)] l by (intro held_by [OF assms(1)]) (metis snd_conv)
  have "held k t p (GPS_Delta_DurPro E r')"
    using h place_delta [of E r'] by (auto simp: held_def unfixed_def fix_view_def spot_def taken_over_def split: if_splits prod.splits)
  then show ?thesis using l h by (simp add: Process_RMC_def split: bool.split)
qed

lemma fix_texts [simp]:
  "fix_view (txt_loop b n i tmp r) = fix_view r" "fix_view (gga_loop E b n i tmp h r) = fix_view r"
proof -
  have a: "fix_view (antenna tmp r) = fix_view r" for tmp r by (simp add: antenna_def on_warn3_def Let_def)
  show "fix_view (txt_loop b n i tmp r) = fix_view r" by (induction b arbitrary: n i tmp r) (simp_all add: a)
  have s: "fix_view (satellites tmp r) = fix_view r" for tmp r
    by (simp add: satellites_def Let_def fix_on_rapp on_term_def on_device_def on_veh_def on_dev_def)
  show "fix_view (gga_loop E b n i tmp h r) = fix_view r" by (induction b arbitrary: n i tmp h r) (simp_all add: s Let_def)
qed

lemma held_rx:
  assumes "held k t p r" and "position_sentence m \<longrightarrow> keeps k m" and "length m < 256" and "length (gps_junk E) = 16"
  shows "held k t p (GPS_Rx_Process E m r)"
proof -
  have "fix_view (rx_mode j w r) = fix_view r" for j w
    unfolding rx_mode_def by (simp add: fix_view_def rx_updates)
  then have mo: "held k t p (rx_mode j w r)" for j w using assms(1) by (simp add: held_def unfixed_def)
  have rmc: "held k t p (let r = Process_RMC E m (rx_mode j w r) in r\<lparr>Gps_Exception := f r\<rparr>)"
    if "sentence_is m [''$GNRMC,''] \<or> sentence_is m [''$BDRMC,''] \<or> sentence_is m [''$GPRMC,'']" for j w f
    using held_rmc [OF mo _ assms(3,4)] assms(2) that by (auto simp: Let_def held_def unfixed_def position_sentence_def sentence_is_def)
  have "held k t p (Process_TXT E m r)" "held k t p (Process_GGA E m r)"
    using assms(1) by (simp_all add: Process_TXT_def Process_GGA_def held_def unfixed_def)
  then show ?thesis unfolding GPS_Rx_Process_def
    using assms(1) rmc by simp
qed

lemma unfixed_others:
  assumes "unfixed k p r"
  shows "unfixed k p (GPS_Abnormal_process r)" "unfixed k p (UART5_IRQHandler ch r)" "unfixed k p (local_time r)"
proof -
  have "fix_view (on_rapp (\<lambda>a. a\<lparr>ModuleStatus := n a\<rparr>) r) = fix_view r" for n r by (simp add: fix_on_rapp)
  then show "unfixed k p (GPS_Abnormal_process r)" using assms by (simp add: GPS_Abnormal_process_def Let_def unfixed_def fix_udp spot_flag)
  have "fix_view (UART5_IRQHandler ch r) = fix_view r" by (simp add: UART5_IRQHandler_def mq_send_def Let_def fix_view_def)
  then show "unfixed k p (UART5_IRQHandler ch r)" using assms by (simp add: unfixed_def)
  have "fix_view (on_nod (on_vehicle (\<lambda>v. v\<lparr>SleepConfigFlag := k\<rparr>)) r) = fix_view r" for k r by (simp add: fix_view_def rx_updates)
  then have W: "fix_view (wake_up n r) = fix_view r" for n r by (simp add: wake_up_def Let_def)
  have "fix_view (on_rgps (\<lambda>g. g\<lparr>gps_Date := b, gps_Time := c\<rparr>) r) =
      (fst (fix_view r), fst (snd (fix_view r)), Latitude (rgps r), Longitude (rgps r), b, c)" for b c
    by (simp add: fix_view_def rx_updates place_def)
  moreover have "spot (fix_view r) = (temp_Latitude (fst (snd (fix_view r))), temp_Longitude (fst (snd (fix_view r))), Latitude (rgps r), Longitude (rgps r))"
    by (simp add: spot_def fix_view_def place_def)
  ultimately have "unfixed k p (on_rgps (\<lambda>g. g\<lparr>gps_Date := b, gps_Time := c\<rparr>) r)" for b c
    using assms by (simp add: unfixed_def spot_def split: prod.splits)
  then show "unfixed k p (local_time r)" using assms W by (simp add: local_time_def Let_def unfixed_def)
qed

definition short_queue :: "receiver \<Rightarrow> bool" where
  "short_queue r = (\<forall>m \<in> set (mq_gps r). length m < 256)"

lemma short_queue_others:
  assumes "short_queue r"
  shows "short_queue (UART5_IRQHandler ch r)" "short_queue (local_time r)"
proof -
  show "short_queue (UART5_IRQHandler ch r)"
    using assms by (auto simp: UART5_IRQHandler_def mq_send_def Let_def short_queue_def)
  have "mq_gps (local_time r) = mq_gps r"
    by (simp add: local_time_def wake_up_def Let_def on_nod_def on_rgps_def on_rdev_def)
  then show "short_queue (local_time r)" using assms by (simp add: short_queue_def)
qed

lemma held_step:
  assumes "gps_step E r ms r'" and "held k t p r" and "\<forall>m \<in> set ms. position_sentence m \<longrightarrow> keeps k m" and "short_queue r"
    and "length (gps_junk E) = 16"
  shows "held k t p r'"
  using assms(1)
proof (cases rule: gps_step.cases)
  case turn
  show ?thesis
  proof (cases "mq_gps r")
    case Nil
    then show ?thesis using turn assms(2) by (simp add: gps_turn_def)
  next
    case (Cons m q)
    have u: "held k t p (r\<lparr>mq_gps := q\<rparr>)" using assms(2) by (simp add: held_def unfixed_def)
    have "position_sentence (gps_received m) \<longrightarrow> keeps k (gps_received m)" "length (gps_received m) < 256"
      using turn Cons assms(3,4) by (auto simp: short_queue_def)
    then have "held k t p (GPS_Rx_Process E (gps_received m) (r\<lparr>mq_gps := q\<rparr>))"
      using held_rx [OF u _ _ assms(5)] by blast
    then have "held k t p (GPS_Abnormal_process (GPS_Rx_Process E (gps_received m) (r\<lparr>mq_gps := q\<rparr>)))"
      by (rule held_by) (rule unfixed_others)
    then show ?thesis using turn Cons u by (simp add: gps_turn_def Let_def held_def unfixed_def)
  qed
qed (use held_by [OF assms(2)] unfixed_others in simp_all)

text \<open>The thread takes sentences only out of the queue.\<close>

lemma mq_device [simp]:
  "mq_gps (on_nod f r) = mq_gps r" "mq_gps (on_rapp g r) = mq_gps r" "mq_gps (on_rgps h r) = mq_gps r" "mq_gps (on_rdev k r) = mq_gps r"
  by (simp_all add: on_nod_def on_rapp_def on_rgps_def on_rdev_def)

lemma mq_status [simp]:
  "mq_gps (StatusReg_GPS_V r) = mq_gps r" "mq_gps (StatusReg_GPS_A r) = mq_gps r" "mq_gps (no_position r) = mq_gps r"
  "mq_gps (Status_pro b r) = mq_gps r" "mq_gps (Latitude_pro b r) = mq_gps r" "mq_gps (Longitude_pro b r) = mq_gps r"
  by (simp_all add: StatusReg_GPS_V_def StatusReg_GPS_A_def no_position_def Status_pro_def Latitude_pro_def Longitude_pro_def Let_def)

lemma mq_speed [simp]: "mq_gps (Speed_pro im b k r) = mq_gps r" "mq_gps (Direction_pro b k r) = mq_gps r"
proof -
  have K: "mq_gps (K_AdjustUseGPS im n r) = mq_gps r" for n r by (simp add: K_AdjustUseGPS_def Let_def)
  have D: "mq_gps (add_distance n r) = mq_gps r" "mq_gps (distance_report n r) = mq_gps r" for n r
    by (simp_all add: add_distance_def distance_report_def Let_def)
  have "mq_gps (speed_fixed im n r) = mq_gps r" for n r by (simp add: speed_fixed_def Let_def K D)
  then show "mq_gps (Speed_pro im b k r) = mq_gps r" by (simp add: Speed_pro_def Let_def K split: option.split)
  show "mq_gps (Direction_pro b k r) = mq_gps r" by (simp add: Direction_pro_def split: option.split)
qed

lemma mq_date [simp]: "mq_gps (Date_pro im b md h mi s r) = mq_gps r"
proof -
  have "mq_gps (date_set im ymd h mi s r) = mq_gps r" for ymd
    by (simp add: date_set_def fixed_minute_def Let_def split: prod.split)
  moreover have "mq_gps (AvrgSpd_MintProcess mi s r) = mq_gps r" for r by (simp add: AvrgSpd_MintProcess_def Let_def)
  ultimately show ?thesis by (simp add: Date_pro_def Let_def split: prod.split)
qed

lemma mq_field: "mq_gps (snd (rmc_field E n i tmp clk r)) = mq_gps r"
proof -
  obtain h mi s md where "clk = (h, mi, s, md)" by (cases clk)
  moreover have "mq_gps (snd (rmc_time i tmp clk r)) = mq_gps r" by (simp add: rmc_time_def Time_pro_def Let_def)
  moreover have "mq_gps (Lat_NS_pro tmp r) = mq_gps r" "mq_gps (Long_WE_pro tmp r) = mq_gps r"
    by (simp_all add: Lat_NS_pro_def Long_WE_pro_def)
  ultimately show ?thesis by (simp add: rmc_field_def Let_def)
qed

lemma mq_loop: "mq_gps (snd (rmc_loop E p n i tmp clk r)) = mq_gps r"
proof (induction p arbitrary: n i tmp clk r)
  case (Cons b p)
  show ?case
  proof (cases "rmc_field E (u8n (n + 1)) i tmp clk r")
    case (Pair o' r')
    then show ?thesis using Cons mq_field [of E "u8n (n + 1)" i tmp clk r] by (cases o') (simp_all add: Let_def split: prod.split)
  qed
qed simp

lemma mq_delta: "mq_gps (GPS_Delta_DurPro E r) = mq_gps r"
proof -
  have "mq_gps (elapsed n r) = mq_gps r" "mq_gps (wake_up n r) = mq_gps r" "mq_gps (due r) = mq_gps r"
    "mq_gps (standing_clock r) = mq_gps r" for n r
    by (simp_all add: elapsed_def wake_up_def due_def standing_clock_def Let_def)
  then have "mq_gps (duration_report r) = mq_gps r" by (simp add: duration_report_def Let_def)
  moreover have "mq_gps (take_over r) = mq_gps r" "mq_gps (RouteRail_Judge E la lo r) = mq_gps r" for la lo r
    by (simp_all add: take_over_def RouteRail_Judge_def Let_def split: prod.split)
  ultimately show ?thesis by (simp add: GPS_Delta_DurPro_def Let_def)
qed

lemma mq_rmc: "mq_gps (Process_RMC E m r) = mq_gps r"
proof (cases "rmc_loop E m 0 0 (gps_junk E) (0, 0, 0, False) r")
  case (Pair c r')
  then show ?thesis using mq_loop [of E m 0 0 "gps_junk E" "(0, 0, 0, False)" r] by (cases c) (simp_all add: Process_RMC_def mq_delta)
qed

lemma mq_texts: "mq_gps (txt_loop b n i tmp r) = mq_gps r" "mq_gps (gga_loop E b n i tmp h r) = mq_gps r"
proof -
  have a: "mq_gps (antenna tmp r) = mq_gps r" for tmp r by (simp add: antenna_def on_warn3_def Let_def)
  show "mq_gps (txt_loop b n i tmp r) = mq_gps r" by (induction b arbitrary: n i tmp r) (simp_all add: a)
  have s: "mq_gps (satellites tmp r) = mq_gps r" for tmp r by (simp add: satellites_def Let_def)
  show "mq_gps (gga_loop E b n i tmp h r) = mq_gps r" by (induction b arbitrary: n i tmp h r) (simp_all add: s Let_def)
qed

lemma mq_turn: "mq_gps (gps_turn E r) = drop 1 (mq_gps r)"
proof -
  have "mq_gps (GPS_Rx_Process E m r) = mq_gps r" for m r
    by (simp add: GPS_Rx_Process_def rx_mode_def mq_rmc Process_TXT_def Process_GGA_def mq_texts Let_def)
  moreover have "mq_gps (GPS_Abnormal_process r) = mq_gps r" for r by (simp add: GPS_Abnormal_process_def Let_def)
  ultimately show ?thesis by (simp add: gps_turn_def Let_def split: list.split)
qed

lemma short_queue_step:
  assumes "gps_step E r ms r'" and "short_queue r"
  shows "short_queue r'"
  using assms(1)
proof (cases rule: gps_step.cases)
  case turn
  then show ?thesis using assms(2) by (auto simp: short_queue_def mq_turn dest: in_set_dropD)
qed (use assms(2) short_queue_others in simp_all)

lemma held_through_run:
  assumes "gps_run E r ms r'" and "held k t p r" and "\<forall>m \<in> set ms. position_sentence m \<longrightarrow> keeps k m" and "short_queue r"
    and "length (gps_junk E) = 16"
  shows "held k t p r' \<and> short_queue r'"
  using assms
proof (induction rule: gps_run.induct)
  case (further r ms r' m r'')
  then have "held k t p r'" "short_queue r'" by auto
  then show ?case using held_step [OF further(2)] short_queue_step [OF further(2)] further.prems by auto
qed simp

text \<open>
  (C10) The position changes only with a fix: when, in a sequence of received bytes, turns of the thread and seconds of the local
  clock from any state, the position becomes one that was neither the position nor the one pending at the start, then the
  thread read a position sentence whose status begins with A, or the receiver had a fix at the start and the thread read a
  position sentence whose status is not void. Such a sentence without a status counts: after a fix the code takes its
  position over. A position stays pending when its sentence was given up because the date in it is no number.
\<close>

theorem position_only_from_fix:
  assumes "gps_run E r ms r'" and "\<forall>m \<in> set (mq_gps r). length m < 256" and "length (gps_junk E) = 16"
    and "fix_position r' \<noteq> fix_position r" and "fix_position r' \<noteq> fix_pending r"
  shows "(\<exists>m \<in> set ms. reports_fix m) \<or> UDP_dataPacket_flag r = 2 \<and> (\<exists>m \<in> set ms. position_sentence m \<and> \<not> reports_void m)"
proof (rule ccontr)
  let ?k = "UDP_dataPacket_flag r = 2"
  assume "\<not> ?thesis"
  then have n: "\<forall>m \<in> set ms. position_sentence m \<longrightarrow> keeps ?k m" by (auto simp: keeps_def reports_fix_def reports_void_def)
  have "held ?k (fix_pending r) (fix_position r) r"
    by (simp add: held_def unfixed_def spot_def fix_view_def place_def fix_pending_def fix_position_def)
  then have "held ?k (fix_pending r) (fix_position r) r'" using held_through_run [OF assms(1) _ n _ assms(3)] assms(2) by (simp add: short_queue_def)
  then show False using assms(4,5) by (auto simp: held_def unfixed_def spot_def fix_view_def place_def fix_pending_def fix_position_def)
qed

section \<open>Reports by time\<close>

definition clock :: "nat \<Rightarrow> nat list" where
  "clock t = [t div 3600 mod 24, t div 60 mod 60, t mod 60]"

text \<open>The end of a sentence with a given time, and one for each of the following seconds.\<close>

definition tick :: "gps_env \<Rightarrow> nat \<Rightarrow> receiver \<Rightarrow> receiver" where
  "tick E t r = GPS_Delta_DurPro E (r\<lparr>CurrentTime := clock t\<rparr>)"

primrec ticks :: "gps_env \<Rightarrow> nat \<Rightarrow> nat \<Rightarrow> receiver \<Rightarrow> receiver" where
  "ticks E t 0 r = r"
| "ticks E t (Suc k) r = tick E (t + Suc k) (ticks E t k r)"

lemma seconds_clock: "seconds_of_day (clock t) = t mod 86400"
  using mod_mult2_eq [of t 3600 24] mod_mult2_eq [of t 60 60] by (simp add: seconds_of_day_def clock_def)

lemma seconds_between_clock:
  assumes "0 < k" and "k < 86400"
  shows "seconds_between (t mod 86400) ((t + k) mod 86400) = k" "(t + k) mod 86400 \<noteq> t mod 86400"
proof -
  define m where "m = t mod 86400"
  have m: "m < 86400" by (simp add: m_def)
  have "(t + k) mod 86400 = (m + k) mod 86400" by (simp add: m_def mod_add_left_eq)
  also have "\<dots> = (if m + k < 86400 then m + k else m + k - 86400)"
    using le_mod_geq [of 86400 "m + k"] m assms(2) by simp
  finally have e: "(t + k) mod 86400 = (if m + k < 86400 then m + k else m + k - 86400)" .
  show "seconds_between (t mod 86400) ((t + k) mod 86400) = k"
    unfolding e m_def [symmetric] using assms m by (auto simp: seconds_between_def u32_def)
  show "(t + k) mod 86400 \<noteq> t mod 86400" unfolding e m_def [symmetric] using assms m by auto
qed

definition due_view :: "receiver \<Rightarrow> nat \<times> nat \<times> nat \<times> nat list \<times> u8" where
  "due_view r = (PositionInfo_sdFlag (st (rdev r)), DUR_TOTALMODE (rapp r), Current_SD_Duration (rapp r), BakTime r,
     Warn_Status (rgps r) ! 1 AND 0x80)"

lemma due_view_fields [simp]:
  "due_view (r\<lparr>delta_time_seconds := n\<rparr>) = due_view r" "due_view (r\<lparr>Bak_delta_timer_seconds := n\<rparr>) = due_view r"
  "due_view (r\<lparr>Bak_timer_seconds := n\<rparr>) = due_view r" "due_view (r\<lparr>Gpstimer_abnormal_counter := n\<rparr>) = due_view r"
  "due_view (r\<lparr>local_trig := n\<rparr>) = due_view r" "due_view (r\<lparr>local_timer := n\<rparr>) = due_view r" "due_view (r\<lparr>CurrentTime := c\<rparr>) = due_view r"
  by (simp_all add: due_view_def)

lemma alarm_bits: "(w OR 0x10) AND 0x80 = w AND (0x80 :: u8)" "(w AND 0x7F) AND 0x80 = (0 :: u8)"
  by (simp_all add: bit.conj_disj_distrib2 and.assoc)

lemma due_view_rect: "due_view (on_nod (on_stn (RectangleRail_Judge la lo)) r) = due_view r"
proof -
  define v where "v z = (PositionInfo_sdFlag (st (device_of z)), DUR_TOTALMODE (core z), Current_SD_Duration (core z),
      Warn_Status (gps (device_of z)) ! 1 AND (0x80 :: u8))" for z
  have n: "l[1 := l ! 1 OR 0x10] ! 1 AND 0x80 = l ! 1 AND (0x80 :: u8)" for l
    by (cases "1 < length l") (simp_all add: alarm_bits list_update_beyond not_less)
  have c: "v (crossing k i s z) = v z" for k i s z
    using n by (simp add: v_def crossing_def on_core_def on_term_def on_warn_def on_device_def on_veh_def on_dev_def)
  have "v (z\<lparr>Rail_Rectangle := x\<rparr>) = v z" for z x by (simp add: v_def)
  then have "v (rect_judge a b is z) = v z" for a b "is" z
    by (induction a b "is" z rule: rect_judge.induct) (auto simp: Let_def c)
  then show ?thesis by (simp add: due_view_def on_nod_def on_stn_def RectangleRail_Judge_def v_def)
qed

lemma due_view_route:
  assumes "\<not> fst (off_route E la lo (stn (nod r)))" and "Warn_Status (rgps r) ! 1 AND 0x80 = 0"
  shows "due_view (RouteRail_Judge E la lo r) = due_view r"
proof -
  have n: "l ! 1 AND (0x80 :: u8) = 0 \<Longrightarrow> l[1 := l ! 1 AND 0x7F] ! 1 AND 0x80 = 0" for l
    by (cases "1 < length l") (simp_all add: alarm_bits list_update_beyond not_less)
  obtain x where "off_route E la lo (stn (nod r)) = (False, x)" using assms(1) by (cases "off_route E la lo (stn (nod r))") auto
  then show ?thesis using assms(2) n [OF assms(2)] by (simp add: RouteRail_Judge_def Let_def due_view_def rx_updates)
qed

lemma due_view_parts:
  "due_view (wake_up n r) = due_view r" "due_view (standing_clock r) = due_view r" "due_view (take_over r) = due_view r"
proof -
  have "due_view (on_nod (on_vehicle (\<lambda>v. v\<lparr>SleepConfigFlag := k\<rparr>)) r) = due_view r" for k r by (simp add: due_view_def rx_updates)
  then show "due_view (wake_up n r) = due_view r" by (simp add: wake_up_def Let_def)
  show "due_view (standing_clock r) = due_view r" by (simp add: standing_clock_def Let_def)
  have "due_view (on_rgps (\<lambda>g. g\<lparr>gps_Date := a, gps_Time := b, Latitude := c, Longitude := d\<rparr>) r) = due_view r" for a b c d
    by (simp add: due_view_def rx_updates)
  then show "due_view (take_over r) = due_view r" by (simp add: take_over_def Let_def)
qed

lemma due_view_due:
  "due_view (due r) = (1, DUR_TOTALMODE (rapp r), Current_SD_Duration (rapp r), CurrentTime r, Warn_Status (rgps r) ! 1 AND 0x80)"
  by (simp add: due_def Let_def due_view_def rx_updates PositionSD_Enable_def)

lemma tick_view:
  assumes "due_view r = (f, 1, dur, clock t, 0)" and "0 < k" and "k < 86400" and "dur \<noteq> 30"
    and "\<And>la lo z. \<not> fst (off_route E la lo z)"
  shows "due_view (tick E (t + k) r) = (if dur \<le> k then (1, 1, dur, clock (t + k), 0) else (f, 1, dur, clock t, 0))"
proof -
  define r1 where "r1 = elapsed ((t + k) mod 86400) (r\<lparr>CurrentTime := clock (t + k)\<rparr>)"
  define r2 where "r2 = wake_up (delta_time_seconds r1) r1"
  note s = seconds_between_clock [OF assms(2,3), of t]
  have b: "BakTime r = clock t" "Current_SD_Duration (rapp r) = dur" "DUR_TOTALMODE (rapp r) = 1" using assms(1) by (simp_all add: due_view_def)
  have e: "due_view r1 = (f, 1, dur, clock t, 0)" "delta_time_seconds r1 = k" "CurrentTime r1 = clock (t + k)"
    using assms(1) s b by (cases "(t + k) mod 86400 = Bak_timer_seconds r"; simp add: r1_def elapsed_def seconds_clock Let_def)+
  have w: "due_view r2 = (f, 1, dur, clock t, 0)" "delta_time_seconds r2 = k" "CurrentTime r2 = clock (t + k)"
    using e by (simp_all add: r2_def due_view_parts) (simp_all add: wake_up_def on_nod_def Let_def)
  have "due_now r2 = (dur \<le> k)" using w assms(4) by (simp add: due_now_def due_view_def Let_def)
  moreover define r3 where "r3 = (if due_now r2 then due r2 else r2)"
  ultimately have d: "due_view r3 = (if dur \<le> k then (1, 1, dur, clock (t + k), 0) else (f, 1, dur, clock t, 0))"
    using w(1,3) by (simp add: due_view_due) (simp add: due_view_def)
  have "duration_report (r\<lparr>CurrentTime := clock (t + k)\<rparr>) = (standing_clock r3)\<lparr>Bak_timer_seconds := (t + k) mod 86400\<rparr>"
    by (simp add: duration_report_def seconds_clock r1_def r2_def r3_def Let_def)
  then have v: "due_view (take_over (duration_report (r\<lparr>CurrentTime := clock (t + k)\<rparr>))) = due_view r3"
    by (simp add: due_view_parts)
  have route: "due_view (RouteRail_Judge E la lo q) = due_view q" if "due_view q = due_view r3" for la lo q
    using that d assms(5) by (intro due_view_route) (auto simp: due_view_def split: if_splits)
  show ?thesis unfolding tick_def GPS_Delta_DurPro_def using b v route d by (simp add: Let_def due_view_rect)
qed

text \<open>
  (C14) The reports by time: with an interval of \<open>dur\<close> seconds other than 30 and a sentence in every second, counted from the last report, no report is
  requested before and one is in second \<open>dur\<close>, from which the next interval is counted, also over midnight.
\<close>

theorem report_every_duration:
  assumes "DUR_TOTALMODE (rapp r) = 1" and "Current_SD_Duration (rapp r) = dur" and "0 < dur" and "dur < 86400" and "dur \<noteq> 30"
    and "PositionInfo_sdFlag (st (rdev r)) = 0" and "BakTime r = clock t"
    and "\<And>la lo z. \<not> fst (off_route E la lo z)" and "Warn_Status (rgps r) ! 1 AND 0x80 = 0"
  shows "(\<forall>k < dur. PositionInfo_sdFlag (st (rdev (ticks E t k r))) = 0) \<and>
    PositionInfo_sdFlag (st (rdev (ticks E t dur r))) = 1 \<and> BakTime (ticks E t dur r) = clock (t + dur)"
proof -
  have start: "due_view r = (0, 1, dur, clock t, 0)" using assms(1,2,6,7,9) by (simp add: due_view_def)
  have v: "due_view (ticks E t k r) = (0, 1, dur, clock t, 0)" if "k < dur" for k
    using that
  proof (induction k)
    case (Suc k)
    then show ?case using tick_view [of "ticks E t k r" 0 dur t "Suc k" E] assms(4,5,8) by simp
  qed (use start in simp)
  obtain k where k: "dur = Suc k" using assms(3) by (cases dur) auto
  have "due_view (ticks E t dur r) = (1, 1, dur, clock (t + dur), 0)"
    using tick_view [OF v, of k dur E] k assms(4,5,8) by simp
  then show ?thesis using v by (simp add: due_view_def)
qed

section \<open>Reports by distance\<close>

definition report_view :: "receiver \<Rightarrow> nat \<times> nat \<times> nat \<times> nat \<times> nat" where
  "report_view r = (PositionInfo_sdFlag (st (rdev r)), Current_UDP_sd (st (rdev r)), DistanceAccumulate r, Speed_GetType r,
     Current_SD_Distance r)"

lemma report_view_simps [simp]:
  "report_view (on_rgps (\<lambda>g. g\<lparr>Speed_gps := n g\<rparr>) r) = report_view r" "report_view (on_rgps (\<lambda>g. g\<lparr>GPS_speed := n g\<rparr>) r) = report_view r"
  "report_view (add_distance m r) = report_view r"
  by (simp_all add: report_view_def rx_updates add_distance_def)

lemma report_view_distance:
  assumes "DistanceAccumulate r < Current_SD_Distance r" and "Current_SD_Distance r < 4294967296"
  shows "report_view (distance_report 0 r) = report_view r"
  using assms by (simp add: distance_report_def report_view_def u32_def)

lemma report_view_speed:
  assumes "Speed_GetType r = 0" and "DistanceAccumulate r < Current_SD_Distance r" and "Current_SD_Distance r < 4294967296"
  shows "report_view (Speed_pro im b k r) = report_view r"
proof -
  have f: "report_view q = report_view r \<Longrightarrow> report_view (speed_fixed im sp q) = report_view r" for sp q
  proof -
    assume q: "report_view q = report_view r"
    define q' where "q' = (if 5 \<le> Satelite_num q then on_rgps (\<lambda>g. g\<lparr>Speed_gps := u16 (sp div 100)\<rparr>) q else q)"
    have q': "report_view q' = report_view r" using q by (simp add: q'_def)
    then have "Speed_GetType q' = 0" using assms(1) by (simp add: report_view_def)
    moreover have "report_view (distance_report 0 (add_distance m q')) = report_view r" for m
      using report_view_distance [of "add_distance m q'"] report_view_simps(3) [of m q'] q' assms(2,3)
      by (simp add: report_view_def del: report_view_simps)
    ultimately show ?thesis using q' by (simp add: speed_fixed_def q'_def [symmetric] Let_def)
  qed
  show ?thesis using assms(1) f by (simp add: Speed_pro_def Let_def split: option.split)
qed

text \<open>
  (C31) Reports by distance never come: while the speed is taken from the position, the accumulated distance gets the variable that
  only the other branch sets, so that through any number of speed fields neither it nor the flags of a report change, although the mileage
  counts the way.
\<close>

theorem no_report_by_distance:
  assumes "Speed_GetType r = 0" and "DistanceAccumulate r < Current_SD_Distance r" and "Current_SD_Distance r < 4294967296"
    and "r' = fold (\<lambda>(b, k). Speed_pro im b k) sps r"
  shows "DistanceAccumulate r' = DistanceAccumulate r \<and> PositionInfo_sdFlag (st (rdev r')) = PositionInfo_sdFlag (st (rdev r)) \<and>
    Current_UDP_sd (st (rdev r')) = Current_UDP_sd (st (rdev r))"
proof -
  have "report_view (fold (\<lambda>(b, k). Speed_pro im b k) sps r) = report_view r"
    using assms(1-3)
  proof (induction sps arbitrary: r)
    case (Cons f sps)
    obtain b k where f: "f = (b, k)" by (cases f)
    have "report_view (Speed_pro im b k r) = report_view r" using report_view_speed Cons.prems by blast
    moreover from this have "report_view (fold (\<lambda>(b, k). Speed_pro im b k) sps (Speed_pro im b k r)) = report_view (Speed_pro im b k r)"
      using Cons.prems by (intro Cons.IH) (simp_all add: report_view_def)
    ultimately show ?case by (simp add: f)
  qed simp
  then show ?thesis unfolding assms(4) by (simp add: report_view_def)
qed

section \<open>Events that are missed\<close>

text \<open>
  A short circuit of the antenna: its text has 13 characters, and the parser gives up at the 13th. A report by the local
  clock with an interval of 30 seconds: the second would have to be 20 and 50.
\<close>

lemma antenna_short_missed:
  "GPS_Rx_Process E (ascii ''$GNTXT,01,01,01,ANTENNA SHORT*7D'' @ [0x0D, 0x0A]) r = r"
  by (simp add: GPS_Rx_Process_def sentence_is_def ascii_def Process_TXT_def u8n_def)

lemma local_report_missed:
  assumes "Current_SD_Duration (rapp r) = 30"
  shows "PositionInfo_sdFlag (st (rdev (local_time r))) = PositionInfo_sdFlag (st (rdev r))"
  using assms by (auto simp: local_time_def Let_def rx_updates)

section \<open>Examples\<close>

lemma run_chars: "gps_run E r [] (fold UART5_IRQHandler s r)"
proof (induction s rule: rev_induct)
  case Nil
  show ?case by (simp add: gps_run.start)
next
  case (snoc c s)
  from gps_run.further [OF snoc gps_step.char] show ?case by simp
qed

lemma run_hear: "gps_run E r (map gps_received (take 1 (mq_gps (fold UART5_IRQHandler s r)))) (hear E s r)"
  using gps_run.further [OF run_chars gps_step.turn] by (simp add: hear_def)

theorem position_only_from_fix_witness:
  "\<exists>ms r'. gps_run plain_env new_receiver ms r' \<and> (\<exists>m \<in> set ms. reports_fix m)"
proof -
  let ?s = "sentence (ascii ''$GPRMC'' # rmc_text example_rmc) (ascii ''A*64'')"
  let ?r = "hear plain_env ?s new_receiver"
  obtain y mo d where d: "(if 23 + 8 > (23 :: nat) then date_modify (date_digits (f_date example_rmc)) else date_digits (f_date example_rmc)) = (y, mo, d)"
    by (metis prod_cases3)
  have v: "lat_value (f_lat example_rmc) \<noteq> 0" "long_value (f_long example_rmc) \<noteq> 0" "lat_value (f_lat example_rmc) = 39151893"
    "time_digits (f_time example_rmc) = (23, 59, 50)"
    by (simp_all add: example_rmc_def ascii_def lat_value_def long_value_def dg_def time_digits_def)
  have "Latitude (rgps ?r) = be32 39151893" using heard_place [OF example_ok v(1,2,4) d] v(3) by (simp add: place_def)
  moreover have n: "Latitude (rgps new_receiver) = [0, 0, 0, 0]" "Longitude (rgps new_receiver) = [0, 0, 0, 0]"
    by (simp_all add: new_receiver_def new_node_def new_station_defs)
  ultimately have "Latitude (rgps ?r) \<noteq> Latitude (rgps new_receiver)" by (simp add: be32_def)
  moreover have "fix_position new_receiver = ([0, 0, 0, 0], [0, 0, 0, 0])" "fix_pending new_receiver = ([0, 0, 0, 0], [0, 0, 0, 0])"
    using n by (simp_all add: fix_position_def fix_pending_def new_receiver_def numeral_eq_Suc)
  ultimately have "fix_position ?r \<noteq> fix_position new_receiver" "fix_position ?r \<noteq> fix_pending new_receiver" using n by (auto simp: fix_position_def)
  moreover have "mq_gps new_receiver = []" "length (gps_junk plain_env) = 16" "UDP_dataPacket_flag new_receiver \<noteq> 2"
    by (simp_all add: new_receiver_def plain_env_def)
  ultimately have "\<exists>m \<in> set (map gps_received (take 1 (mq_gps (fold UART5_IRQHandler ?s new_receiver)))). reports_fix m"
    using position_only_from_fix [OF run_hear [of plain_env new_receiver ?s]] by auto
  then show ?thesis using run_hear [of plain_env new_receiver ?s] by blast
qed

definition counting_receiver :: "nat \<Rightarrow> receiver" where
  "counting_receiver n = on_rapp (\<lambda>a. a\<lparr>DUR_TOTALMODE := 1, Current_SD_Duration := n\<rparr>) (new_receiver\<lparr>BakTime := clock 86399\<rparr>)"

theorem report_every_duration_witness:
  "PositionInfo_sdFlag (st (rdev (ticks plain_env 86399 9 (counting_receiver 10)))) = 0 \<and>
   PositionInfo_sdFlag (st (rdev (ticks plain_env 86399 10 (counting_receiver 10)))) = 1 \<and>
   BakTime (ticks plain_env 86399 10 (counting_receiver 10)) = [0, 0, 9]"
proof -
  have c: "DUR_TOTALMODE (rapp (counting_receiver 10)) = 1" "Current_SD_Duration (rapp (counting_receiver 10)) = 10"
    "PositionInfo_sdFlag (st (rdev (counting_receiver 10))) = 0" "BakTime (counting_receiver 10) = clock 86399"
    "Warn_Status (rgps (counting_receiver 10)) ! 1 AND 0x80 = 0"
    by (simp_all add: counting_receiver_def rx_updates new_receiver_def new_node_def new_station_defs blank_store_def)
  have "\<not> fst (off_route plain_env la lo z)" for la lo z by (simp add: plain_env_def)
  from report_every_duration [OF c(1,2) _ _ _ c(3,4) this c(5)] show ?thesis by (simp add: clock_def)
qed

theorem no_report_by_distance_witness:
  "DistanceAccumulate (fold (\<lambda>(b, k). Speed_pro (conf_img no_layout) b k) (replicate 100 (ascii ''80.5'', 2))
     (new_receiver\<lparr>UDP_dataPacket_flag := 2, DIST_TOTALMODE := 1\<rparr>)) = 0"
  using no_report_by_distance [of "new_receiver\<lparr>UDP_dataPacket_flag := 2, DIST_TOTALMODE := 1\<rparr>" _ "conf_img no_layout"
      "replicate 100 (ascii ''80.5'', 2)", OF _ _ _ refl]
  by (simp add: new_receiver_def)

end
