(* ===== verification/Vehicle_Task.thy ===== *)
theory Vehicle_Task
  imports Link_gsm Gps_Reports
begin

text \<open>
  The periodic work of the terminal (\<^verbatim>\<open>protocol_808/app_808.c\<close>, \<^verbatim>\<open>protocol_808/Device_808.c\<close> and the saving functions of
  \<^verbatim>\<open>protocol_808/protocol_808.c\<close>): the input pins, the ignition and the sleep mode, the emergency button, the speed sensor, the
  daily restart, the records saved once a second, the 100 ms timer \<^verbatim>\<open>timeout_app\<close>, the whole turn of the application thread and
  what it does at its start. The threads of all theories before are put together as the step relation \<open>terminal_step\<close>.
\<close>

section \<open>The state\<close>

text \<open>The levels of the input pins; \<^const>\<open>True\<close> is high. The functions of \<^verbatim>\<open>Device_808.c\<close> report a low level.\<close>

record pins =
  acc_pin :: bool
  warn_pin :: bool
  brake_pin :: bool
  left_pin :: bool
  right_pin :: bool
  far_pin :: bool
  near_pin :: bool
  fog_pin :: bool
  door_pin :: bool

text \<open>
  The modem holds the node; the node inside the receiver is a copy that \<open>on_receiver\<close> refreshes. \<open>Sensor_buf\<close> has 101
  entries, the last one standing for what lies behind the array.
\<close>

record recorder =
  mdm :: modem
  rcvr :: receiver
  Vehicle_sensor :: u8
  Vehicle_RunStatus :: u8
  XinhaoStatus :: bytes
  OneSec_CounterApp :: nat
  WarnTimer :: nat
  fTimer3s_warncount :: nat
  SleepCounter :: nat
  total_plus :: nat
  Spd_senor_Null :: nat
  Doubt_SaveFlag :: nat
  sensor_writeOverFlag :: nat
  save_sensorCounter :: nat
  Sensor_buf :: "(u8 \<times> u8) list"
  ex_endTime :: bytes

abbreviation (input) tnode :: "recorder \<Rightarrow> node" where "tnode t \<equiv> node_of (mdm t)"
abbreviation (input) tapp :: "recorder \<Rightarrow> app" where "tapp t \<equiv> mapp (mdm t)"
abbreviation (input) tveh :: "recorder \<Rightarrow> vehicle" where "tveh t \<equiv> mveh (mdm t)"
abbreviation (input) tdev :: "recorder \<Rightarrow> device" where "tdev t \<equiv> mdev (mdm t)"

definition on_modem :: "(modem \<Rightarrow> modem) \<Rightarrow> recorder \<Rightarrow> recorder" where
  "on_modem f t = t\<lparr>mdm := f (mdm t)\<rparr>"

definition on_tapp :: "(app \<Rightarrow> app) \<Rightarrow> recorder \<Rightarrow> recorder" where
  "on_tapp f = on_modem (on_mapp f)"

definition on_tdev :: "(device \<Rightarrow> device) \<Rightarrow> recorder \<Rightarrow> recorder" where
  "on_tdev f = on_tapp (on_device f)"

definition on_receiver :: "(receiver \<Rightarrow> receiver) \<Rightarrow> recorder \<Rightarrow> recorder" where
  "on_receiver f t =
     (let r = f ((rcvr t)\<lparr>nod := tnode t\<rparr>)
      in on_modem (on_node (\<lambda>_. nod r)) (t\<lparr>rcvr := r\<rparr>))"

section \<open>Input pins\<close>

definition ACC_StatusGet :: "pins \<Rightarrow> bool" where "ACC_StatusGet p = (\<not> acc_pin p)"
definition WARN_StatusGet :: "pins \<Rightarrow> bool" where "WARN_StatusGet p = (\<not> warn_pin p)"
definition BreakLight_StatusGet :: "pins \<Rightarrow> bool" where "BreakLight_StatusGet p = (\<not> brake_pin p)"
definition LeftLight_StatusGet :: "pins \<Rightarrow> bool" where "LeftLight_StatusGet p = (\<not> left_pin p)"
definition RightLight_StatusGet :: "pins \<Rightarrow> bool" where "RightLight_StatusGet p = (\<not> right_pin p)"
definition FarLight_StatusGet :: "pins \<Rightarrow> bool" where "FarLight_StatusGet p = (\<not> far_pin p)"
definition NEARLight_StatusGet :: "pins \<Rightarrow> bool" where "NEARLight_StatusGet p = (\<not> near_pin p)"
definition FOGLight_StatusGet :: "pins \<Rightarrow> bool" where "FOGLight_StatusGet p = (\<not> fog_pin p)"
definition DoorLight_StatusGet :: "pins \<Rightarrow> bool" where "DoorLight_StatusGet p = (\<not> door_pin p)"

definition set_bits :: "bool \<Rightarrow> u8 \<Rightarrow> u8 \<Rightarrow> u8" where
  "set_bits b m w = (if b then w OR m else w AND NOT m)"

text \<open>The signals of one pin: the bits in the status byte, in \<^verbatim>\<open>FJ_IO_1\<close> and in the extended status.\<close>

definition pin_signal :: "bool \<Rightarrow> u8 \<Rightarrow> u8 \<Rightarrow> u8 \<Rightarrow> u8 \<times> terminal_info \<Rightarrow> u8 \<times> terminal_info" where
  "pin_signal b m fj ex st' =
     (set_bits b m (fst st'),
      (snd st')\<lparr>FJ_IO_1 := set_bits b fj (FJ_IO_1 (snd st')), Extent_IO_status := set_bits b ex (Extent_IO_status (snd st'))\<rparr>)"

definition Get_SensorStatus :: "pins \<Rightarrow> terminal_info \<Rightarrow> u8 \<times> terminal_info" where
  "Get_SensorStatus p io =
     (let s = pin_signal (BreakLight_StatusGet p) 0x80 0x80 0x10 (0, io);
          s = pin_signal (LeftLight_StatusGet p) 0x40 0x40 0x08 s;
          s = pin_signal (RightLight_StatusGet p) 0x20 0x20 0x04 s;
          s = pin_signal (FarLight_StatusGet p) 0x10 0x00 0x02 s;
          s = pin_signal (NEARLight_StatusGet p) 0x08 0x10 0x01 s;
          s = pin_signal (FOGLight_StatusGet p) 0x04 0x08 0x40 s
      in if DoorLight_StatusGet p
         then (fst s OR 0x02, (snd s)\<lparr>FJ_IO_2 := FJ_IO_2 (snd s) OR 0x01\<rparr>)
         else (fst s AND NOT 0x02, (snd s)\<lparr>FJ_IO_2 := FJ_IO_2 (snd s) OR 0x01\<rparr>))"

definition IO_statusCheck :: "pins \<Rightarrow> recorder \<Rightarrow> recorder" where
  "IO_statusCheck p t =
     (case Get_SensorStatus p (terminal (tdev t)) of
        (s, io) \<Rightarrow> (on_tapp (on_term (\<lambda>_. io)) t)\<lparr>Vehicle_sensor := s\<rparr>)"

section \<open>Ignition and sleep\<close>

definition StatusReg_WARN_Enable :: "device \<Rightarrow> device" where
  "StatusReg_WARN_Enable d = d\<lparr>gps := (gps d)\<lparr>Warn_Status := (Warn_Status (gps d))[3 := Warn_Status (gps d) ! 3 OR 0x01]\<rparr>\<rparr>"

definition StatusReg_ACC_ON :: "device \<Rightarrow> device" where
  "StatusReg_ACC_ON d = d\<lparr>gps := (gps d)\<lparr>Car_Status := (Car_Status (gps d))[3 := Car_Status (gps d) ! 3 OR 0x01]\<rparr>\<rparr>"

definition StatusReg_ACC_OFF :: "device \<Rightarrow> device" where
  "StatusReg_ACC_OFF d = d\<lparr>gps := (gps d)\<lparr>Car_Status := (Car_Status (gps d))[3 := Car_Status (gps d) ! 3 AND NOT 0x01]\<rparr>\<rparr>"

definition Sleep_Mode_ConfigEnter :: "recorder \<Rightarrow> recorder" where
  "Sleep_Mode_ConfigEnter t =
     (if SleepState (tveh t) = 0
      then let n = u8n (SleepCounter t + 1)
           in if n > 15
              then let t = on_tapp (\<lambda>a. let a = on_veh (\<lambda>v. v\<lparr>SleepState := 1\<rparr>) a
                             in if Lock_state (RT_LOCK a) \<noteq> 1 then a\<lparr>Current_SD_Duration := Sleep_Dur (DURATION a)\<rparr> else a)
                             (t\<lparr>SleepCounter := 0\<rparr>)
                   in if DataLink_OK (tdev t) then on_tdev PositionSD_Enable t else t
              else t\<lparr>SleepCounter := n\<rparr>
      else t)"

definition Sleep_Mode_ConfigExit :: "recorder \<Rightarrow> recorder" where
  "Sleep_Mode_ConfigExit t =
     (on_tapp (\<lambda>a. let a = (if Lock_state (RT_LOCK a) \<noteq> 1 then a\<lparr>Current_SD_Duration := Default_Dur (veh a)\<rparr> else a)
                in on_veh (\<lambda>v. v\<lparr>SleepState := 0\<rparr>) (a\<lparr>DURATION := (DURATION a)\<lparr>Heart_Dur := 300\<rparr>\<rparr>)) t)\<lparr>SleepCounter := 0\<rparr>"

definition ACC_status_Check :: "pins \<Rightarrow> recorder \<Rightarrow> recorder" where
  "ACC_status_Check p t =
     (if ACC_StatusGet p
      then Sleep_Mode_ConfigExit (on_tdev StatusReg_ACC_ON (t\<lparr>Vehicle_RunStatus := Vehicle_RunStatus t OR 0x01\<rparr>))
      else Sleep_Mode_ConfigEnter (on_tdev StatusReg_ACC_OFF (t\<lparr>Vehicle_RunStatus := Vehicle_RunStatus t AND NOT 0x01\<rparr>)))"

section \<open>Once a second\<close>

text \<open>The counter of the speed sensor, which is read and cleared, is an argument. The speed is the number of pulses.\<close>

definition SensorPlus_caculateSpeed :: "nat \<Rightarrow> recorder \<Rightarrow> recorder" where
  "SensorPlus_caculateSpeed tim2 t =
     (let plus = u16 tim2;
          t = t\<lparr>rcvr := (rcvr t)\<lparr>Delta_1s_Plus := plus\<rparr>, total_plus := u32 (total_plus t + plus)\<rparr>
      in on_tdev (\<lambda>d. d\<lparr>gps := (if Spd_senor_Null t = 0 then (gps d)\<lparr>Speed_cacu := plus\<rparr>
                                 else (gps d)\<lparr>Speed_cacu := 0, Speed_gps := 0\<rparr>)\<rparr>) t)"

definition raise_alarm :: "recorder \<Rightarrow> recorder" where
  "raise_alarm t =
     on_tdev (\<lambda>d. report_now (StatusReg_WARN_Enable d)) (on_tapp (\<lambda>a. a\<lparr>warn_flag := 1, Send_warn_times := 0\<rparr>) t)"

definition Emergence_Warn_Process :: "pins \<Rightarrow> recorder \<Rightarrow> recorder" where
  "Emergence_Warn_Process p t =
     (let d = tdev t
      in if WARN_StatusGet p
         then let t = (if cam_status (CameraState d) = other \<and> photo_sending (Photo_sdState d) = 0 \<and>
                          Taking (MultiTake d) = 0 \<and> Transfering (MultiTake d) = 0
                       then let w = u32 (WarnTimer t + 1) in t\<lparr>WarnTimer := if w \<ge> 4 then 0 else w\<rparr> else t);
                  n = u32 (fTimer3s_warncount t + 1);
                  t = t\<lparr>fTimer3s_warncount := n\<rparr>
              in if n = 4 \<and> warn_flag (tapp t) = 0 \<and> f_Exigent_warning (tapp t) = 0 then raise_alarm t else t
         else let t = t\<lparr>WarnTimer := 0, fTimer3s_warncount := 0\<rparr>
              in if camera_running (CameraState d) = 0
                 then on_tdev (\<lambda>d. d\<lparr>CameraState := (CameraState d)\<lparr>cam_status := other\<rparr>\<rparr>) t else t)"

text \<open>The calls of \<^verbatim>\<open>reset\<close>, after which the watchdog is not fed any more, are counted in the modem's \<open>resets\<close>.\<close>

abbreviation (input) Max_SystemCounter :: nat where "Max_SystemCounter \<equiv> 28800"

definition App808_tick_counter :: "recorder \<Rightarrow> recorder" where
  "App808_tick_counter t =
     (let n = u32 (Systerm_Reset_counter (tveh t) + 1);
          t = on_tapp (on_veh (\<lambda>v. v\<lparr>Systerm_Reset_counter := n\<rparr>)) t;
          t = (if n = Max_SystemCounter - 5 then on_tapp (on_veh (\<lambda>v. v\<lparr>DataLink_EndFlag := 1\<rparr>)) t else t)
      in if n > Max_SystemCounter
         then on_tapp (on_veh (\<lambda>v. v\<lparr>Systerm_Reset_counter := 0\<rparr>)) (on_modem (\<lambda>s. s\<lparr>resets := resets s + 1\<rparr>) t) else t)"

text \<open>A stored position that was sent and is not confirmed becomes free to be sent again in the sixth second.\<close>

definition resend_timer :: "store \<Rightarrow> store" where
  "resend_timer s =
     (if ReadCycle_status s = RdCycle_SdOver
      then let n = u8n (ReadCycle_timer s + 1)
           in if n > 5 then s\<lparr>ReadCycle_timer := 0, ReadCycle_status := RdCycle_Idle\<rparr> else s\<lparr>ReadCycle_timer := n\<rparr>
      else s)"

section \<open>Records saved once a second\<close>

definition dir_write :: "string \<Rightarrow> bytes \<Rightarrow> store \<Rightarrow> store" where
  "dir_write name b s = snd (Api_DFdirectory_Write \<lparr>Voice_PageCounter = 0, Voice_Reg = []\<rparr> name b (length b) s)"

definition save_record :: "string \<Rightarrow> bytes \<Rightarrow> recorder \<Rightarrow> recorder" where
  "save_record name b = on_tapp (on_store (dir_write name b))"

definition sealed :: "bytes \<Rightarrow> bytes" where
  "sealed b = b @ [xor_sum b]"

text \<open>The clock the function reads is an argument.\<close>

definition set_clock :: "nat \<times> nat \<times> nat \<times> nat \<times> nat \<times> nat \<Rightarrow> vehicle \<Rightarrow> vehicle" where
  "set_clock now v =
     (let (y, mo, d, h, mi, se) = now
      in on_dev (\<lambda>e. e\<lparr>time_hour := h, time_min := mi, time_sec := se\<rparr>) (v\<lparr>time_year := y, time_month := mo, time_day := d\<rparr>))"

definition Save_Status :: "nat \<times> nat \<times> nat \<times> nat \<times> nat \<times> nat \<Rightarrow> recorder \<Rightarrow> recorder" where
  "Save_Status now t =
     (let t = on_tapp (on_veh (set_clock now)) t;
          nxt = (\<lambda>c. if c + 1 > 100 then 0 else c + 1 :: nat);
          entry = (\<lambda>j. Sensor_buf t ! (nxt ^^ j) (save_sensorCounter t))
      in save_record doubt_data
           (sealed (Time2BCD (tveh t) @ concat (map (\<lambda>j. [fst (entry j), snd (entry j)]) [0..<100]))) t)"

definition mint_record :: "avrg_mint_speed \<Rightarrow> bytes" where
  "mint_record m = sealed (take 5 (spd_datetime_Bak m) @ take 60 (avgrspd m) @ [0, 0, 0, 0])"

definition Save_AvrgSpdPerMin :: "recorder \<Rightarrow> recorder" where
  "Save_AvrgSpdPerMin t =
     (let m = Avrgspd_Mint (rcvr t); t = save_record spdpermin (mint_record m) t
      in t\<lparr>rcvr := (rcvr t)\<lparr>Avrgspd_Mint := m\<lparr>avgrspd := replicate 60 0\<rparr>\<rparr>\<rparr>)"

definition Spd_Exp_Wr :: "recorder \<Rightarrow> recorder" where
  "Spd_Exp_Wr t =
     (let x = speed_Exd (tapp t)
      in on_tapp Spd_ExpInit (save_record spd_warn
           (sealed (take 18 (DriverCard_ID (tveh t)) @ take 6 (ex_startTime x) @ take 6 (ex_endTime t) @
             [byte (current_maxSpd x div 10)])) t))"

text \<open>The local array of 40 bytes is cleared with 70 bytes; what lies behind it is not modelled.\<close>

definition Save_TiredDrive_Record :: "recorder \<Rightarrow> recorder" where
  "Save_TiredDrive_Record t =
     (let t = on_tapp (\<lambda>a. a\<lparr>Tired := (Tired a)\<lparr>tired_end_time := Time2BCD (veh a)\<rparr>\<rparr>) t; x = Tired (tapp t);
          t = save_record tired_warn
                (sealed (take 18 (DriverCard_ID (tveh t)) @ take 6 (tired_start_time x) @ take 6 (tired_end_time x)) @ [0]) t
      in on_tapp (\<lambda>a. on_warn (\<lambda>w. w[3 := w ! 3 AND NOT 0x04]) (TIRED_Drive_Init (TIRED_Drive_Init a))) t)"

definition mileage_save :: "images \<Rightarrow> recorder \<Rightarrow> recorder" where
  "mileage_save im t =
     (if Vehicle_RunStatus t \<noteq> 0 \<and> Systerm_Reset_counter (tveh t) mod 256 = 255 then on_tapp (save_jt im) t else t)"

definition JT808_Related_Save_Process ::
  "images \<Rightarrow> nat \<times> nat \<times> nat \<times> nat \<times> nat \<times> nat \<Rightarrow> recorder \<Rightarrow> recorder" where
  "JT808_Related_Save_Process im now t =
     (if DF_LOCK (st (tdev t)) \<noteq> 0 then t
      else if voice_CMD_Type (stn (tnode t)) = 0x31 then mileage_save im t
      else if Doubt_SaveFlag t = 1 \<and> sensor_writeOverFlag t = 1 then (Save_Status now t)\<lparr>Doubt_SaveFlag := 0\<rparr>
      else if spd_saveFlag (Avrgspd_Mint (rcvr t)) = 1
      then let t = Save_AvrgSpdPerMin t
           in t\<lparr>rcvr := (rcvr t)\<lparr>Avrgspd_Mint := (Avrgspd_Mint (rcvr t))\<lparr>spd_saveFlag := 0\<rparr>\<rparr>\<rparr>
      else if Tireddrv_status (Tired (tapp t)) = 2 then Save_TiredDrive_Record t
      else if excd_status (speed_Exd (tapp t)) = 2 then Spd_Exp_Wr t
      else mileage_save im t)"

section \<open>The 100 ms timer\<close>

definition signal_text :: "u8 \<Rightarrow> bytes \<Rightarrow> bytes" where
  "signal_text v x = fold (\<lambda>i x. x[i + 10 := if v AND drop_bit (i - 1) 0x80 \<noteq> 0 then 0x31 else 0x30]) [1..<8] x"

definition app_second :: "images \<Rightarrow> pins \<Rightarrow> nat \<Rightarrow> nat \<times> nat \<times> nat \<times> nat \<times> nat \<times> nat \<Rightarrow> recorder \<Rightarrow> recorder" where
  "app_second im p tim2 now t =
     (let t = on_modem (on_ses link_second) t;
          t = Emergence_Warn_Process p (IO_statusCheck p (SensorPlus_caculateSpeed tim2 t));
          t = on_receiver local_time (on_tdev Meida_Trans_Exception t);
          t = on_tapp (on_store resend_timer) (App808_tick_counter t)
      in on_tdev media_second (JT808_Related_Save_Process im now t))"

definition timeout_app :: "images \<Rightarrow> pins \<Rightarrow> nat \<Rightarrow> nat \<times> nat \<times> nat \<times> nat \<times> nat \<times> nat \<Rightarrow> recorder \<Rightarrow> recorder" where
  "timeout_app im p tim2 now t =
     (let t = (if OneSec_CounterApp t mod 2 = 1 then t\<lparr>XinhaoStatus := signal_text (Vehicle_sensor t) (XinhaoStatus t)\<rparr> else t);
          n = u8n (OneSec_CounterApp t + 1);
          t = t\<lparr>OneSec_CounterApp := if n \<ge> 10 then 0 else n\<rparr>;
          t = (if n \<ge> 10 then app_second im p tim2 now t else t);
          t = (if OneSec_CounterApp t div 2 \<noteq> 0 then on_tdev Media_Timer_Service t else t);
          t = on_modem comm_at_timer t
      in if OneSec_CounterApp t mod 3 = 0 then on_tapp (on_store (\<lambda>s. snd (Api_CHK_ReadCycle_status s))) t else t)"

section \<open>The application thread\<close>

definition App808_turn :: "layout \<Rightarrow> bytes \<Rightarrow> pins \<Rightarrow> recorder \<Rightarrow> recorder" where
  "App808_turn L junk p t =
     (let t = on_modem (\<lambda>s. on_ses (app808_send L junk) (app_take L s)) t;
          t = ACC_status_Check p t
      in if GPS_getfirst (rcvr t) \<noteq> 0 \<or> GPS_datetimeFirstGet (rcvr t) \<noteq> 0 then on_tdev Save_GPS t else t)"

text \<open>
  The start: the position and the status of the last session are taken from the flash. The record that is read is the one at
  the read slot number, whatever the argument says.
\<close>

definition Get_recent_saveInfo :: "device \<Rightarrow> bool \<times> device" where
  "Get_recent_saveInfo d =
     (if cycle_write (st d) = 0 then (False, d)
      else case ReadCycleGPS (cycle_write (st d)) 31 (st d) of
             (True, b, s) \<Rightarrow>
               (True, d\<lparr>st := s\<lparr>cycle_read := cycle_read s - 1\<rparr>,
                  gps := (gps d)\<lparr>Car_Status := (Car_Status (gps d))[3 := b ! 8],
                           Latitude := splice 0 (take 4 (drop 8 b)) (Latitude (gps d)),
                           Longitude := splice 0 (take 4 (drop 12 b)) (Longitude (gps d))\<rparr>\<rparr>)
           | (False, b, s) \<Rightarrow> (False, d\<lparr>st := s\<rparr>))"

definition App808_start :: "recorder \<Rightarrow> recorder" where
  "App808_start t =
     on_tapp (on_veh (\<lambda>v.
       let v = on_dev (\<lambda>d. d\<lparr>terminal := (terminal d)\<lparr>SIM_code := DeviceID_Convert_SIMCODE (DeviceNumberID (terminal d))\<rparr>,
                 gps := (gps d)\<lparr>Car_Status := (Car_Status (gps d))[1 := Car_Status (gps d) ! 1 OR 0x0C]\<rparr>\<rparr>) v;
           v = on_dev (\<lambda>d. case Get_recent_saveInfo d of
                 (True, d) \<Rightarrow> d
               | (False, d) \<Rightarrow> d\<lparr>gps := (gps d)\<lparr>Car_Status := (Car_Status (gps d))[3 := 0]\<rparr>\<rparr>) v
       in v\<lparr>Login_Sd_add := 0, Reg_Sd_add := 0\<rparr>)) t"

section \<open>All threads\<close>

text \<open>
  The threads and interrupts together: the timer with the pins it sees, the application thread, the receiver, the modem. The
  camera and the multimedia messages are part of these.
\<close>

datatype terminal_event =
  Timer pins nat "nat \<times> nat \<times> nat \<times> nat \<times> nat \<times> nat"
| App bytes pins
| Gps_char u8
| Gps_thread
| Modem_event modem_event

inductive terminal_step :: "layout \<Rightarrow> gps_env \<Rightarrow> recorder \<Rightarrow> terminal_event \<Rightarrow> recorder \<Rightarrow> bool" for L E where
  timer: "terminal_step L E t (Timer p tim2 now) (timeout_app (conf_img L) p tim2 now t)"
| application: "terminal_step L E t (App junk p) (App808_turn L junk p t)"
| gps_char: "terminal_step L E t (Gps_char ch) (on_receiver (UART5_IRQHandler ch) t)"
| gps_thread: "terminal_step L E t Gps_thread (on_receiver (gps_turn E) t)"
| modem: "modem_step L (mdm t) e s \<Longrightarrow> terminal_step L E t (Modem_event e) (t\<lparr>mdm := s\<rparr>)"

inductive terminal_run :: "layout \<Rightarrow> gps_env \<Rightarrow> recorder \<Rightarrow> terminal_event list \<Rightarrow> recorder \<Rightarrow> bool" for L E where
  none: "terminal_run L E t [] t"
| more: "terminal_run L E t es t' \<Longrightarrow> terminal_step L E t' e t'' \<Longrightarrow> terminal_run L E t (es @ [e]) t''"

inductive_cases terminal_stepE: "terminal_step L E t e t'"

end
