(* ===== verification/Terminal_Task.thy ===== *)
theory Terminal_Task
  imports Vehicle_Task
begin

text \<open>
  Properties of the periodic work: the input signals, the sleep mode, the emergency button over every run of all threads,
  repeating a position that was not confirmed, the restart, the speeds of an hour, and what the start does to the queue of stored
  positions and to the status. Where a setting, a signal or a record gets lost, the theorem says so.
\<close>

section \<open>Parts of the state\<close>

lemma on_tapp_simps [simp]:
  "mdm (on_tapp f t) = on_mapp f (mdm t)" "rcvr (on_tapp f t) = rcvr t" "Vehicle_sensor (on_tapp f t) = Vehicle_sensor t"
  "Vehicle_RunStatus (on_tapp f t) = Vehicle_RunStatus t" "XinhaoStatus (on_tapp f t) = XinhaoStatus t"
  "OneSec_CounterApp (on_tapp f t) = OneSec_CounterApp t" "WarnTimer (on_tapp f t) = WarnTimer t"
  "fTimer3s_warncount (on_tapp f t) = fTimer3s_warncount t" "SleepCounter (on_tapp f t) = SleepCounter t"
  "total_plus (on_tapp f t) = total_plus t" "Spd_senor_Null (on_tapp f t) = Spd_senor_Null t"
  "Doubt_SaveFlag (on_tapp f t) = Doubt_SaveFlag t" "sensor_writeOverFlag (on_tapp f t) = sensor_writeOverFlag t"
  "save_sensorCounter (on_tapp f t) = save_sensorCounter t" "Sensor_buf (on_tapp f t) = Sensor_buf t"
  "ex_endTime (on_tapp f t) = ex_endTime t"
  by (simp_all add: on_tapp_def on_modem_def)

lemma mapp_on [simp]:
  "resets (on_mapp f s) = resets s" "stn (node_of (on_mapp f s)) = on_core f (stn (node_of s))"
  "core (on_core f z) = f (core z)" "voice_CMD_Type (on_core f z) = voice_CMD_Type z"
  by (simp_all add: ses_updates on_app_def on_stn_def on_core_def)

lemma app_parts [simp]:
  "dev (veh (on_device g a)) = g (dev (veh a))" "veh (on_veh h a) = h (veh a)"
  "st (dev (veh (on_store k a))) = k (st (dev (veh a)))" "terminal (dev (veh (on_term l a))) = l (terminal (dev (veh a)))"
  by (simp_all add: node_updates on_term_def)

lemma on_modem_simps [simp]: "mdm (on_modem f t) = f (mdm t)" "rcvr (on_modem f t) = rcvr t"
  by (simp_all add: on_modem_def)

text \<open>A terminal at rest, and pins without a signal.\<close>

definition new_recorder :: recorder where
  "new_recorder = \<lparr>mdm = new_modem, rcvr = new_receiver, Vehicle_sensor = 0, Vehicle_RunStatus = 0, XinhaoStatus = replicate 20 0,
     OneSec_CounterApp = 0, WarnTimer = 0, fTimer3s_warncount = 0, SleepCounter = 0, total_plus = 0, Spd_senor_Null = 0,
     Doubt_SaveFlag = 0, sensor_writeOverFlag = 0, save_sensorCounter = 0, Sensor_buf = replicate 101 (0, 0),
     ex_endTime = replicate 6 0\<rparr>"

definition quiet_pins :: pins where
  "quiet_pins = \<lparr>acc_pin = True, warn_pin = True, brake_pin = True, left_pin = True, right_pin = True, far_pin = True, near_pin = True,
     fog_pin = True, door_pin = True\<rparr>"

text \<open>A terminal at rest with the given status and slot numbers of the queue of stored positions.\<close>

definition waiting_recorder :: "nat \<Rightarrow> nat \<Rightarrow> nat \<Rightarrow> recorder" where
  "waiting_recorder c r w =
     on_tdev (\<lambda>d. d\<lparr>st := blank_store\<lparr>ReadCycle_status := c, cycle_read := r, cycle_write := w\<rparr>\<rparr>) new_recorder"

section \<open>Signals\<close>

lemma bit_set_bits:
  "i < 8 \<Longrightarrow> bit (set_bits b m w) i = (if bit m i then b else bit w i)"
  by (simp add: set_bits_def bit_simps)

lemma fst_pin_signal [simp]: "fst (pin_signal b m fj ex x) = set_bits b m (fst x)"
  by (simp add: pin_signal_def)

lemma snd_pin_signal [simp]:
  "FJ_IO_1 (snd (pin_signal b m fj ex x)) = set_bits b fj (FJ_IO_1 (snd x))"
  "Extent_IO_status (snd (pin_signal b m fj ex x)) = set_bits b ex (Extent_IO_status (snd x))"
  "FJ_IO_2 (snd (pin_signal b m fj ex x)) = FJ_IO_2 (snd x)"
  by (simp_all add: pin_signal_def)

text \<open>
  The input signals: after the check each bit of the status byte, of the signals in the position report and of the status in
  \<^verbatim>\<open>FJ_IO_1\<close> says whether its input is low; the bit of the door in \<^verbatim>\<open>FJ_IO_2\<close> is always set.
\<close>

theorem signals_reported:
  "let t' = IO_statusCheck p t; io = terminal (tdev t')
   in map (bit (Vehicle_sensor t')) [7, 6, 5, 4, 3, 2, 1, 0] =
        map Not [brake_pin p, left_pin p, right_pin p, far_pin p, near_pin p, fog_pin p, door_pin p, True] \<and>
      map (bit (Extent_IO_status io)) [4, 3, 2, 1, 0, 6] =
        map Not [brake_pin p, left_pin p, right_pin p, far_pin p, near_pin p, fog_pin p] \<and>
      map (bit (FJ_IO_1 io)) [7, 6, 5, 4, 3] = map Not [brake_pin p, left_pin p, right_pin p, near_pin p, fog_pin p] \<and>
      bit (FJ_IO_2 io) 0"
proof -
  note defs = BreakLight_StatusGet_def LeftLight_StatusGet_def RightLight_StatusGet_def FarLight_StatusGet_def
    NEARLight_StatusGet_def FOGLight_StatusGet_def DoorLight_StatusGet_def
  show ?thesis
    unfolding IO_statusCheck_def Get_SensorStatus_def Let_def
    by (cases "door_pin p") (simp_all add: defs bit_set_bits bit_simps)
qed

section \<open>Sleeping\<close>

definition sleep_view :: "recorder \<Rightarrow> nat \<times> nat \<times> nat \<times> bool \<times> nat" where
  "sleep_view t = (SleepState (tveh t), SleepCounter t, Current_SD_Duration (tapp t), Lock_state (RT_LOCK (tapp t)) = 1,
     Sleep_Dur (DURATION (tapp t)))"

lemma sleep_off:
  assumes "\<not> ACC_StatusGet p"
  shows "sleep_view (ACC_status_Check p t) =
    (case sleep_view t of (s, n, dur, lock, sd) \<Rightarrow>
       if s \<noteq> 0 then (s, n, dur, lock, sd)
       else if u8n (n + 1) > 15 then (1, 0, if lock then dur else sd, lock, sd)
       else (s, u8n (n + 1), dur, lock, sd))"
  using assms
  by (simp add: ACC_status_Check_def Sleep_Mode_ConfigEnter_def sleep_view_def Let_def on_tdev_def node_updates)

lemma sleep_turns:
  assumes "\<not> ACC_StatusGet p" and "sleep_view t = (0, 0, dur, lock, sd)"
  shows "sleep_view ((ACC_status_Check p ^^ n) t) =
    (if n < 16 then (0, n, dur, lock, sd) else (1, 0, if lock then dur else sd, lock, sd))"
proof (induction n)
  case (Suc n)
  then show ?case by (auto simp: sleep_off [OF assms(1)] u8n_def)
qed (use assms in simp)

text \<open>
  (C28) Sleeping: a terminal that is awake falls asleep in the sixteenth turn of the application thread in a row without the ignition,
  not before, and then reports with the interval for sleeping, unless the centre tracks it; the first turn with the ignition wakes it.
\<close>

theorem sleep_after_sixteen_turns:
  assumes "\<not> ACC_StatusGet p" and "ACC_StatusGet p'" and "SleepState (tveh t) = 0" and "SleepCounter t = 0"
    and "t' = (ACC_status_Check p ^^ n) t" and "t'' = ACC_status_Check p' t'"
  shows "SleepState (tveh t') = (if n < 16 then 0 else 1) \<and>
    Current_SD_Duration (tapp t') =
      (if n < 16 \<or> Lock_state (RT_LOCK (tapp t)) = 1 then Current_SD_Duration (tapp t) else Sleep_Dur (DURATION (tapp t))) \<and>
    SleepState (tveh t'') = 0 \<and> SleepCounter t'' = 0"
proof -
  have "sleep_view t' = (if n < 16 then (0, n, Current_SD_Duration (tapp t), Lock_state (RT_LOCK (tapp t)) = 1, Sleep_Dur (DURATION (tapp t)))
      else (1, 0, if Lock_state (RT_LOCK (tapp t)) = 1 then Current_SD_Duration (tapp t) else Sleep_Dur (DURATION (tapp t)),
            Lock_state (RT_LOCK (tapp t)) = 1, Sleep_Dur (DURATION (tapp t))))"
    unfolding assms(5) using assms(3,4) by (intro sleep_turns [OF assms(1)]) (simp add: sleep_view_def)
  moreover have "SleepState (tveh t'') = 0 \<and> SleepCounter t'' = 0"
    unfolding assms(6) using assms(2) by (simp add: ACC_status_Check_def Sleep_Mode_ConfigExit_def Let_def)
  ultimately show ?thesis by (simp add: sleep_view_def split: if_splits)
qed

theorem sleep_after_sixteen_turns_witness:
  "SleepState (tveh ((ACC_status_Check quiet_pins ^^ 16) new_recorder)) = 1 \<and>
   SleepState (tveh ((ACC_status_Check quiet_pins ^^ 15) new_recorder)) = 0"
proof -
  have "\<not> ACC_StatusGet quiet_pins" "ACC_StatusGet (quiet_pins\<lparr>acc_pin := False\<rparr>)" by (simp_all add: ACC_StatusGet_def quiet_pins_def)
  moreover have "SleepState (tveh new_recorder) = 0" "SleepCounter new_recorder = 0"
    by (simp_all add: new_recorder_def new_modem_def new_session_defs)
  ultimately show ?thesis
    using sleep_after_sixteen_turns [where t = new_recorder and n = 16, OF _ _ _ _ refl refl]
      sleep_after_sixteen_turns [where t = new_recorder and n = 15, OF _ _ _ _ refl refl] by simp
qed

section \<open>The emergency button\<close>

definition flags :: "app \<Rightarrow> nat \<times> nat" where
  "flags a = (warn_flag a, f_Exigent_warning a)"

lemma flags_parts [simp]:
  "flags (on_veh f a) = flags a" "flags (on_device g a) = flags a" "flags (on_store h a) = flags a" "flags (on_term k a) = flags a"
  "flags (on_warn w a) = flags a" "flags (save_jt im a) = flags a" "flags (Spd_ExpInit a) = flags a" "flags (TIRED_Drive_Init a) = flags a"
  by (simp_all add: flags_def on_veh_def on_device_def on_store_def on_term_def on_warn_def save_jt_def Spd_ExpInit_def TIRED_Drive_Init_def)

lemma flags_updates [simp]:
  "flags (a\<lparr>Tired := x\<rparr>) = flags a" "flags (a\<lparr>DURATION := y\<rparr>) = flags a"
  by (simp_all add: flags_def)

lemma flags_session [simp]: "flags (app_of (nd (link_second s))) = flags (app_of (nd s))"
proof -
  have "flags (app_of (nd (on_sveh f s))) = flags (app_of (nd s))" for f s
    by (simp add: on_sveh_def on_vehicle_def on_app_def on_stn_def)
  then show ?thesis by (simp add: link_second_def SendMode_ConterProcess_def Let_def)
qed

lemma receiver_parts [simp]:
  "core (stn (nod (on_rdev f r))) = on_device f (core (stn (nod r)))"
  "core (stn (nod (on_rgps g r))) = on_device (\<lambda>d. d\<lparr>gps := g (gps d)\<rparr>) (core (stn (nod r)))"
  "core (stn (nod (on_nod (on_vehicle h) r))) = on_veh h (core (stn (nod r)))"
  by (simp_all add: on_rdev_def on_rgps_def on_nod_def on_vehicle_def on_dvc_def on_app_def on_stn_def)

lemma flags_local_time [simp]: "flags (core (stn (nod (local_time r)))) = flags (core (stn (nod r)))"
  by (simp add: local_time_def wake_up_def Let_def)

lemma core_on_receiver [simp]:
  "core (stn (nd (ses (mdm (on_receiver f t))))) = core (stn (nod (f ((rcvr t)\<lparr>nod := tnode t\<rparr>))))"
  by (simp add: on_receiver_def Let_def on_node_ses)

lemma flags_second [simp]:
  "flags (tapp (SensorPlus_caculateSpeed n t)) = flags (tapp t)" "flags (tapp (IO_statusCheck p t)) = flags (tapp t)"
  "flags (tapp (App808_tick_counter t)) = flags (tapp t)"
  by (simp_all add: SensorPlus_caculateSpeed_def IO_statusCheck_def App808_tick_counter_def on_tdev_def Let_def split: prod.split)

lemma flags_save [simp]: "flags (tapp (JT808_Related_Save_Process im now t)) = flags (tapp t)"
  by (simp add: JT808_Related_Save_Process_def mileage_save_def Save_Status_def Save_AvrgSpdPerMin_def Save_TiredDrive_Record_def
      Spd_Exp_Wr_def save_record_def Let_def)

lemma flags_emergency:
  "flags (tapp (Emergence_Warn_Process p t)) =
    (if WARN_StatusGet p \<and> u32 (fTimer3s_warncount t + 1) = 4 \<and> flags (tapp t) = (0, 0) then (1, 0) else flags (tapp t))"
  by (simp add: Emergence_Warn_Process_def raise_alarm_def on_tdev_def Let_def flags_def on_device_def on_veh_def)

text \<open>The two counters of the timer. Nothing else changes them.\<close>

definition ticks_view :: "recorder \<Rightarrow> nat \<times> nat" where
  "ticks_view t = (OneSec_CounterApp t, fTimer3s_warncount t)"

lemma ticks_parts [simp]:
  "ticks_view (on_tapp f t) = ticks_view t" "ticks_view (on_modem g t) = ticks_view t" "ticks_view (on_receiver h t) = ticks_view t"
  "ticks_view (on_tdev k t) = ticks_view t" "ticks_view (t\<lparr>rcvr := r\<rparr>) = ticks_view t" "ticks_view (t\<lparr>mdm := s\<rparr>) = ticks_view t"
  by (simp_all add: ticks_view_def on_modem_def on_receiver_def on_tdev_def Let_def)

lemma ticks_second [simp]:
  "ticks_view (SensorPlus_caculateSpeed n t) = ticks_view t" "ticks_view (IO_statusCheck p t) = ticks_view t"
  "ticks_view (App808_tick_counter t) = ticks_view t" "ticks_view (JT808_Related_Save_Process im now t) = ticks_view t"
  "ticks_view (ACC_status_Check p t) = ticks_view t"
proof -
  have [simp]: "ticks_view (t\<lparr>Vehicle_sensor := x\<rparr>) = ticks_view t" "ticks_view (t\<lparr>total_plus := y\<rparr>) = ticks_view t"
    "ticks_view (t\<lparr>Doubt_SaveFlag := y\<rparr>) = ticks_view t" "ticks_view (t\<lparr>SleepCounter := y\<rparr>) = ticks_view t"
    "ticks_view (t\<lparr>Vehicle_RunStatus := z\<rparr>) = ticks_view t" "ticks_view (t\<lparr>rcvr := r, total_plus := y\<rparr>) = ticks_view t" for t x y z r
    by (simp_all add: ticks_view_def)
  show "ticks_view (SensorPlus_caculateSpeed n t) = ticks_view t" "ticks_view (IO_statusCheck p t) = ticks_view t"
    "ticks_view (App808_tick_counter t) = ticks_view t"
    by (simp_all add: SensorPlus_caculateSpeed_def IO_statusCheck_def App808_tick_counter_def Let_def split: prod.split)
  show "ticks_view (JT808_Related_Save_Process im now t) = ticks_view t"
    by (simp add: JT808_Related_Save_Process_def mileage_save_def Save_Status_def Save_AvrgSpdPerMin_def Save_TiredDrive_Record_def
        Spd_Exp_Wr_def save_record_def Let_def)
  show "ticks_view (ACC_status_Check p t) = ticks_view t"
    by (simp add: ACC_status_Check_def Sleep_Mode_ConfigEnter_def Sleep_Mode_ConfigExit_def Let_def)
qed

lemma ticks_emergency:
  "ticks_view (Emergence_Warn_Process p t) =
    (OneSec_CounterApp t, if WARN_StatusGet p then u32 (fTimer3s_warncount t + 1) else 0)"
  by (simp add: Emergence_Warn_Process_def raise_alarm_def on_tdev_def Let_def ticks_view_def)

lemma app_second_flags:
  "flags (tapp (app_second im p tim2 now t)) =
    (if WARN_StatusGet p \<and> u32 (fTimer3s_warncount t + 1) = 4 \<and> flags (tapp t) = (0, 0) then (1, 0) else flags (tapp t))"
proof -
  have f: "fTimer3s_warncount (IO_statusCheck p (SensorPlus_caculateSpeed tim2 u)) = fTimer3s_warncount u" for u
    using ticks_second(1,2) by (metis ticks_view_def prod.inject)
  have "flags (tapp (on_modem (on_ses link_second) t)) = flags (tapp t)" by (simp add: on_ses_def)
  moreover have "fTimer3s_warncount (on_modem (on_ses link_second) t) = fTimer3s_warncount t" by (simp add: on_modem_def)
  ultimately show ?thesis
    by (simp add: app_second_def Let_def on_tdev_def flags_emergency f)
qed

lemma app_second_ticks:
  "ticks_view (app_second im p tim2 now t) =
    (OneSec_CounterApp t, if WARN_StatusGet p then u32 (fTimer3s_warncount t + 1) else 0)"
proof -
  let ?u = "IO_statusCheck p (SensorPlus_caculateSpeed tim2 (on_modem (on_ses link_second) t))"
  have "ticks_view ?u = ticks_view t" by simp
  then have "OneSec_CounterApp ?u = OneSec_CounterApp t" "fTimer3s_warncount ?u = fTimer3s_warncount t"
    by (simp_all add: ticks_view_def del: ticks_second)
  then show ?thesis by (simp add: app_second_def Let_def ticks_emergency)
qed

lemma app_second_counters:
  "OneSec_CounterApp (app_second im p tim2 now t) = OneSec_CounterApp t"
  "fTimer3s_warncount (app_second im p tim2 now t) = (if WARN_StatusGet p then u32 (fTimer3s_warncount t + 1) else 0)"
  using app_second_ticks [of im p tim2 now t] by (simp_all add: ticks_view_def)

text \<open>One tick of the timer.\<close>

definition second_due :: "nat \<Rightarrow> bool" where "second_due c = (u8n (c + 1) \<ge> 10)"

lemma tick_end:
  assumes "ticks_view u = (c, n)"
  shows "ticks_view (let t = (if OneSec_CounterApp u div 2 \<noteq> 0 then on_tdev Media_Timer_Service u else u); t = on_modem comm_at_timer t
      in if OneSec_CounterApp t mod 3 = 0 then on_tapp (on_store (\<lambda>s. snd (Api_CHK_ReadCycle_status s))) t else t) = (c, n)"
    and "flags (tapp (let t = (if OneSec_CounterApp u div 2 \<noteq> 0 then on_tdev Media_Timer_Service u else u); t = on_modem comm_at_timer t
      in if OneSec_CounterApp t mod 3 = 0 then on_tapp (on_store (\<lambda>s. snd (Api_CHK_ReadCycle_status s))) t else t)) = flags (tapp u)"
proof -
  have "ses (comm_at_timer s) = ses s" for s by (simp add: comm_at_timer_def Let_def)
  then show "flags (tapp (let t = (if OneSec_CounterApp u div 2 \<noteq> 0 then on_tdev Media_Timer_Service u else u); t = on_modem comm_at_timer t
      in if OneSec_CounterApp t mod 3 = 0 then on_tapp (on_store (\<lambda>s. snd (Api_CHK_ReadCycle_status s))) t else t)) = flags (tapp u)"
    by (simp add: Let_def on_tdev_def)
qed (use assms in \<open>simp add: Let_def\<close>)

lemma timeout_app_ticks:
  "ticks_view (timeout_app im p tim2 now t) =
    (if second_due (OneSec_CounterApp t) then (0, if WARN_StatusGet p then u32 (fTimer3s_warncount t + 1) else 0)
     else (u8n (OneSec_CounterApp t + 1), fTimer3s_warncount t))"
  unfolding timeout_app_def Let_def
  by (subst tick_end(1) [unfolded Let_def]) (auto simp: second_due_def app_second_counters ticks_view_def)

lemma timeout_app_flags:
  "flags (tapp (timeout_app im p tim2 now t)) =
    (if second_due (OneSec_CounterApp t) \<and> WARN_StatusGet p \<and> u32 (fTimer3s_warncount t + 1) = 4 \<and> flags (tapp t) = (0, 0)
     then (1, 0) else flags (tapp t))"
  unfolding timeout_app_def Let_def
  by (subst tick_end(2) [unfolded Let_def, OF prod.collapse [symmetric]]) (auto simp: second_due_def app_second_flags)

text \<open>
  What the button did in a run: the position within the second, and for how many seconds up to now it was found pressed at each
  second.
\<close>

fun press_step :: "terminal_event \<Rightarrow> nat \<times> nat \<Rightarrow> nat \<times> nat" where
  "press_step (Timer p tim2 now) (c, k) = (if c = 9 then (0, if WARN_StatusGet p then k + 1 else 0) else (c + 1, k))"
| "press_step e ck = ck"

definition pressed_seconds :: "terminal_event list \<Rightarrow> nat \<times> nat" where
  "pressed_seconds es = fold press_step es (0, 0)"

lemma pressed_bound: "fst (pressed_seconds es) \<le> 9 \<and> snd (pressed_seconds es) \<le> length es"
proof (induction es rule: rev_induct)
  case (snoc e es)
  then show ?case by (cases e; cases "pressed_seconds es") (auto simp: pressed_seconds_def)
qed (simp add: pressed_seconds_def)

lemma pressed_counted:
  assumes "terminal_run L E t0 es t" and "ticks_view t0 = (0, 0)" and "length es < 2 ^ 32 - 1"
  shows "ticks_view t = pressed_seconds es"
  using assms
proof (induction rule: terminal_run.induct)
  case (more t es t' e t'')
  then have v: "ticks_view t' = pressed_seconds es" by simp
  have b: "fst (pressed_seconds es) \<le> 9" "snd (pressed_seconds es) + 1 < 4294967296"
    using pressed_bound [of es] more.prems by auto
  have s: "pressed_seconds (es @ [e]) = press_step e (ticks_view t')" by (simp add: pressed_seconds_def v)
  from more.hyps(2) show ?case unfolding s
  proof (cases rule: terminal_step.cases)
    case (timer p tim2 now)
    have "ticks_view t'' = press_step e (ticks_view t')"
      using b unfolding v [symmetric] timer timeout_app_ticks by (auto simp: second_due_def ticks_view_def u8n_def u32_def)
    then show "ticks_view t'' = press_step e (ticks_view t')" .
  qed (simp_all add: App808_turn_def Let_def)
qed (simp add: pressed_seconds_def)

text \<open>
  (C13) The emergency button, over every run of the timer, the application, the receiver and the modem: the timer raises the alarm exactly
  when the button was found pressed in four seconds in a row, for the first time since it was released, and no alarm is
  pending. A button held longer, or pressed for three seconds, raises nothing more, even after the centre confirmed the alarm.
\<close>

theorem alarm_after_four_seconds:
  assumes "terminal_run L E t0 es t" and "OneSec_CounterApp t0 = 0" and "fTimer3s_warncount t0 = 0" and "length es < 2 ^ 32 - 1"
    and "terminal_step L E t (Timer p tim2 now) t'"
  shows "warn_flag (tapp t') =
    (if pressed_seconds es = (9, 3) \<and> WARN_StatusGet p \<and> warn_flag (tapp t) = 0 \<and> f_Exigent_warning (tapp t) = 0
     then 1 else warn_flag (tapp t))"
proof -
  have v: "ticks_view t = pressed_seconds es" using assms(2-4) by (intro pressed_counted [OF assms(1)]) (simp_all add: ticks_view_def)
  have "fst (pressed_seconds es) \<le> 9" "snd (pressed_seconds es) + 1 < 4294967296" using pressed_bound [of es] assms(4) by auto
  moreover have "t' = timeout_app (conf_img L) p tim2 now t" using assms(5) by (auto elim: terminal_stepE)
  moreover have "warn_flag a = fst (flags a)" "f_Exigent_warning a = snd (flags a)" for a by (simp_all add: flags_def)
  ultimately show ?thesis
    using v by (auto simp: timeout_app_flags second_due_def ticks_view_def u8n_def u32_def prod_eq_iff)
qed

text \<open>The button pressed for four seconds.\<close>

lemma held_tick:
  assumes "WARN_StatusGet p" and "ticks_view t = (c, k)" and "flags (tapp t) = (0, 0)"
  shows "c < 9 \<Longrightarrow> ticks_view (timeout_app im p x now t) = (c + 1, k) \<and> flags (tapp (timeout_app im p x now t)) = (0, 0)"
    and "c = 9 \<Longrightarrow> k < 3 \<Longrightarrow> ticks_view (timeout_app im p x now t) = (0, k + 1) \<and> flags (tapp (timeout_app im p x now t)) = (0, 0)"
proof -
  have "OneSec_CounterApp t = c" "fTimer3s_warncount t = k" using assms(2) by (simp_all add: ticks_view_def)
  note t = timeout_app_ticks [of im p x now t, unfolded this] timeout_app_flags [of im p x now t, unfolded this]
  show "c < 9 \<Longrightarrow> ticks_view (timeout_app im p x now t) = (c + 1, k) \<and> flags (tapp (timeout_app im p x now t)) = (0, 0)"
    "c = 9 \<Longrightarrow> k < 3 \<Longrightarrow> ticks_view (timeout_app im p x now t) = (0, k + 1) \<and> flags (tapp (timeout_app im p x now t)) = (0, 0)"
    unfolding t using assms by (auto simp: second_due_def u8n_def u32_def)
qed

lemma held:
  assumes "WARN_StatusGet p" and "ticks_view t = (0, 0)" and "flags (tapp t) = (0, 0)" and "n < 40"
  shows "ticks_view ((timeout_app im p x now ^^ n) t) = (n mod 10, n div 10) \<and> flags (tapp ((timeout_app im p x now ^^ n) t)) = (0, 0)"
  using assms(4)
proof (induction n)
  case (Suc n)
  then have t: "ticks_view ((timeout_app im p x now ^^ n) t) = (n mod 10, n div 10)" "flags (tapp ((timeout_app im p x now ^^ n) t)) = (0, 0)"
    by simp_all
  have "10 * (n div 10) + n mod 10 = n" by simp
  then have q: "n div 10 < 3" if "n mod 10 = 9" using that Suc.prems by linarith
  have "n mod 10 < 9 \<and> Suc n mod 10 = n mod 10 + 1 \<and> Suc n div 10 = n div 10 \<or>
      n mod 10 = 9 \<and> Suc n mod 10 = 0 \<and> Suc n div 10 = n div 10 + 1 \<and> n div 10 < 3"
    using mod_less_divisor [of 10 n] q by (auto simp: mod_Suc div_Suc)
  then show ?case using held_tick [OF assms(1) t, of im x now] by auto
qed (use assms in simp)

lemma held_run: "terminal_run L E t (replicate n (Timer p x now)) ((timeout_app (conf_img L) p x now ^^ n) t)"
proof (induction n)
  case (Suc n)
  from more [OF this timer [of L E _ p x now]] show ?case by (simp add: replicate_append_same)
qed (simp add: none)

theorem alarm_after_four_seconds_witness:
  "warn_flag (tapp ((timeout_app (conf_img no_layout) (quiet_pins\<lparr>warn_pin := False\<rparr>) 0 (0, 0, 0, 0, 0, 0) ^^ 40) new_recorder)) = 1"
proof -
  let ?p = "quiet_pins\<lparr>warn_pin := False\<rparr>" and ?n = "(0, 0, 0, 0, 0, 0) :: nat \<times> nat \<times> nat \<times> nat \<times> nat \<times> nat"
  let ?t = "(timeout_app (conf_img no_layout) ?p 0 ?n ^^ 39) new_recorder"
  have p: "WARN_StatusGet ?p" by (simp add: WARN_StatusGet_def)
  have z: "ticks_view new_recorder = (0, 0)" "flags (tapp new_recorder) = (0, 0)"
    by (simp_all add: new_recorder_def ticks_view_def flags_def new_modem_def new_session_defs)
  have t: "flags (tapp ?t) = (0, 0)" using held [OF p z, of 39] by simp
  have e: "pressed_seconds (replicate 39 (Timer ?p 0 ?n)) = (9, 3)"
    using p by (simp add: pressed_seconds_def eval_nat_numeral)
  have z': "OneSec_CounterApp new_recorder = 0" "fTimer3s_warncount new_recorder = 0" by (simp_all add: new_recorder_def)
  have "length (replicate 39 (Timer ?p 0 ?n)) < 2 ^ 32 - 1" by simp
  note a = alarm_after_four_seconds [OF held_run z' this timer]
  have s: "(timeout_app (conf_img no_layout) ?p 0 ?n ^^ 40) new_recorder = timeout_app (conf_img no_layout) ?p 0 ?n ?t"
    by (simp only: funpow.simps(2) [of 39, simplified] o_apply)
  show ?thesis unfolding s
    by (subst a) (use t e p in \<open>simp add: flags_def\<close>)
qed

section \<open>Seconds\<close>

text \<open>What the once a second work counts: the restart, the calls of \<^verbatim>\<open>reset\<close>, and the confirmation of a stored position.\<close>

definition cyc_of :: "store \<Rightarrow> nat \<times> nat \<times> nat \<times> nat" where
  "cyc_of s = (ReadCycle_status s, ReadCycle_timer s, cycle_read s, cycle_write s)"

definition counted :: "app \<Rightarrow> nat \<times> nat \<times> nat \<times> nat \<times> nat" where
  "counted a = (Systerm_Reset_counter (veh a), cyc_of (st (dev (veh a))))"

lemma cyc_dir_write: "cyc_of (dir_write name b s) = cyc_of s"
proof -
  have r: "cyc_of (snd (DF_Write_RecordAdd w q ty s)) = cyc_of s" for w q ty s
    by (simp add: DF_Write_RecordAdd_def cyc_of_def split: option.split)
  have c: "cyc_of (snd (Common_WriteContent n b l ty s)) = cyc_of s" for n b l ty s
    by (simp add: Common_WriteContent_def Common_set_write_def cyc_of_def Let_def split: option.split)
  have d: "cyc_of (snd (Save_DrvRecoder n b l s)) = cyc_of s" "cyc_of (snd (Save_PerMinContent n b l s)) = cyc_of s" for n b l s
    by (simp_all add: Save_DrvRecoder_def Save_PerMinContent_def cyc_of_def Let_def)
  have u: "cyc_of (s\<lparr>AvrgSpdPerMin_write := n\<rparr>) = cyc_of s" "cyc_of (s\<lparr>ExpSpdRec_write := n\<rparr>) = cyc_of s"
    "cyc_of (s\<lparr>TiredDrv_write := n\<rparr>) = cyc_of s" "cyc_of (s\<lparr>Recorder_write := n\<rparr>) = cyc_of s" "cyc_of (s\<lparr>flash := f\<rparr>) = cyc_of s" for n s f
    by (simp_all add: cyc_of_def)
  show ?thesis by (simp add: dir_write_def Api_DFdirectory_Write_def Let_def r c d u)
qed

lemma cyc_parts [simp]:
  "cyc_of (s\<lparr>PositionInfo_sdFlag := n\<rparr>) = cyc_of s" "cyc_of (s\<lparr>Current_UDP_sd := n\<rparr>) = cyc_of s"
  by (simp_all add: cyc_of_def)

lemma cyc_media [simp]:
  "cyc_of (st (Meida_Trans_Exception d)) = cyc_of (st d)" "cyc_of (st (media_second d)) = cyc_of (st d)"
  "cyc_of (st (report_now d)) = cyc_of (st d)"
proof -
  have e: "st (Photo_send_end d) = st d" "st (Sound_send_end d) = st d" "st (Video_send_end d) = st d" "st (Media_Clear_State d) = st d" for d
    by (simp_all add: Photo_send_end_def Sound_send_end_def Video_send_end_def Media_Clear_State_def)
  show "cyc_of (st (Meida_Trans_Exception d)) = cyc_of (st d)"
    by (simp add: Meida_Trans_Exception_def Let_def e)
  have "cyc_of (st (Multimedia_0800H_ACK_process d)) = cyc_of (st d)" for d
    by (simp add: Multimedia_0800H_ACK_process_def PositionSD_Enable_def Let_def e)
  then show "cyc_of (st (media_second d)) = cyc_of (st d)" by (simp add: media_second_def Let_def e)
  show "cyc_of (st (report_now d)) = cyc_of (st d)" by (simp add: report_now_def PositionSD_Enable_def)
qed

lemma counted_parts [simp]:
  "counted (on_store f a) = (Systerm_Reset_counter (veh a), cyc_of (f (st (dev (veh a)))))"
  "counted (on_term k a) = counted a" "counted (on_warn w a) = counted a" "counted (save_jt im a) = counted a"
  "counted (Spd_ExpInit a) = counted a" "counted (TIRED_Drive_Init a) = counted a" "counted (a\<lparr>Tired := x\<rparr>) = counted a"
  "counted (a\<lparr>warn_flag := n, Send_warn_times := m\<rparr>) = counted a"
  by (simp_all add: counted_def node_updates on_term_def on_warn_def save_jt_def Spd_ExpInit_def TIRED_Drive_Init_def
      Api_Config_Recwrite_Large_def cyc_of_def)

lemma restart_on_store [simp]: "Systerm_Reset_counter (veh (on_store f a)) = Systerm_Reset_counter (veh a)"
  by (simp add: node_updates)

lemma counted_on_device: "cyc_of (st (f (dev (veh a)))) = cyc_of (st (dev (veh a))) \<Longrightarrow> counted (on_device f a) = counted a"
  by (simp add: counted_def node_updates)

lemma counted_on_veh:
  "st (dev (f (veh a))) = st (dev (veh a)) \<Longrightarrow> Systerm_Reset_counter (f (veh a)) = Systerm_Reset_counter (veh a) \<Longrightarrow>
    counted (on_veh f a) = counted a"
  by (simp add: counted_def node_updates)

lemma counted_link: "counted (app_of (nd (link_second s))) = counted (app_of (nd s))"
proof -
  have "app_of (nd (on_sveh f s)) = on_veh f (app_of (nd s))" for f s
    by (simp add: on_sveh_def on_vehicle_def on_app_def on_stn_def)
  moreover have "Systerm_Reset_counter (Device_RegisterTimer v) = Systerm_Reset_counter v"
    "Systerm_Reset_counter (Device_LoginTimer v) = Systerm_Reset_counter v" for v
    by (simp_all add: Device_RegisterTimer_def Device_LoginTimer_def Let_def)
  ultimately show ?thesis by (simp add: link_second_def SendMode_ConterProcess_def Let_def counted_on_veh)
qed

lemma counted_local_time: "counted (core (stn (nod (local_time r)))) = counted (core (stn (nod r)))"
  by (simp add: local_time_def wake_up_def Let_def counted_on_veh counted_on_device)

lemma counted_work:
  "counted (tapp (SensorPlus_caculateSpeed n t)) = counted (tapp t)" "counted (tapp (IO_statusCheck p t)) = counted (tapp t)"
  "counted (tapp (Emergence_Warn_Process p t)) = counted (tapp t)"
  by (simp_all add: SensorPlus_caculateSpeed_def IO_statusCheck_def Emergence_Warn_Process_def raise_alarm_def on_tdev_def
      StatusReg_WARN_Enable_def Let_def counted_on_device split: prod.split)

lemma counted_save: "counted (tapp (JT808_Related_Save_Process im now t)) = counted (tapp t)"
proof -
  have r: "counted (tapp (save_record name b t)) = counted (tapp t)" for name b t
    by (simp add: save_record_def cyc_dir_write counted_def)
  have "Systerm_Reset_counter (set_clock now v) = Systerm_Reset_counter v" "st (dev (set_clock now v)) = st (dev v)" for v
    by (simp_all add: set_clock_def on_dev_def split: prod.split)
  then show ?thesis
    by (simp add: JT808_Related_Save_Process_def mileage_save_def Save_Status_def Save_AvrgSpdPerMin_def Save_TiredDrive_Record_def
        Spd_Exp_Wr_def Let_def r counted_on_veh)
qed

lemma counted_tick:
  "counted (tapp (App808_tick_counter t)) =
    (let n = u32 (Systerm_Reset_counter (tveh t) + 1) in (if n > Max_SystemCounter then 0 else n, cyc_of (st (tdev t))))"
  "resets (mdm (App808_tick_counter t)) = resets (mdm t) + (if u32 (Systerm_Reset_counter (tveh t) + 1) > Max_SystemCounter then 1 else 0)"
  by (simp_all add: App808_tick_counter_def Let_def counted_def)

text \<open>A second as a whole.\<close>

lemma counted_before_tick:
  "counted (tapp (on_receiver local_time (on_tdev Meida_Trans_Exception (Emergence_Warn_Process p (IO_statusCheck p
     (SensorPlus_caculateSpeed tim2 (on_modem (on_ses link_second) t))))))) = counted (tapp t)"
  by (simp add: counted_local_time on_tdev_def counted_on_device counted_work counted_link on_ses_def)

lemma app_second_counted:
  "counted (tapp (app_second im p tim2 now t)) =
    (let n = u32 (Systerm_Reset_counter (tveh t) + 1)
     in (if n > Max_SystemCounter then 0 else n, cyc_of (resend_timer (st (tdev t)))))"
proof -
  let ?u = "Emergence_Warn_Process p (IO_statusCheck p (SensorPlus_caculateSpeed tim2 (on_modem (on_ses link_second) t)))"
  let ?v = "App808_tick_counter (on_receiver local_time (on_tdev Meida_Trans_Exception ?u))"
  note counted_before_tick [of p tim2 t]
  then have v: "counted (tapp ?v) =
      (let n = u32 (Systerm_Reset_counter (tveh t) + 1) in (if n > Max_SystemCounter then 0 else n, cyc_of (st (tdev t))))"
    by (simp add: counted_tick) (simp add: counted_def)
  have "cyc_of (resend_timer s) = (case cyc_of s of (a, b, c) \<Rightarrow>
      if a = RdCycle_SdOver then if u8n (b + 1) > 5 then (RdCycle_Idle, 0, c) else (a, u8n (b + 1), c) else (a, b, c))" for s
    by (simp add: resend_timer_def cyc_of_def Let_def)
  moreover have "counted (tapp (app_second im p tim2 now t)) = counted (on_store resend_timer (tapp ?v))"
    unfolding app_second_def Let_def by (simp add: on_tdev_def counted_on_device counted_save)
  ultimately show ?thesis using v by (simp add: counted_def Let_def)
qed

lemma app_second_resets:
  "resets (mdm (app_second im p tim2 now t)) =
    resets (mdm t) + (if u32 (Systerm_Reset_counter (tveh t) + 1) > Max_SystemCounter then 1 else 0)"
proof -
  have [simp]: "resets (mdm (on_receiver f t)) = resets (mdm t)" "resets (mdm (on_tdev g t)) = resets (mdm t)" for f g t
    by (simp_all add: on_receiver_def on_tdev_def Let_def on_node_ses)
  have "resets (mdm (SensorPlus_caculateSpeed n t)) = resets (mdm t)" "resets (mdm (IO_statusCheck p t)) = resets (mdm t)"
    "resets (mdm (Emergence_Warn_Process p t)) = resets (mdm t)" "resets (mdm (JT808_Related_Save_Process im now t)) = resets (mdm t)" for n p t
    by (simp_all add: SensorPlus_caculateSpeed_def IO_statusCheck_def Emergence_Warn_Process_def raise_alarm_def Let_def
        JT808_Related_Save_Process_def mileage_save_def Save_Status_def Save_AvrgSpdPerMin_def Save_TiredDrive_Record_def
        Spd_Exp_Wr_def save_record_def split: prod.split)
  moreover have "Systerm_Reset_counter (tveh u) = Systerm_Reset_counter (tveh w)" if "counted (tapp u) = counted (tapp w)" for u w
    using that by (simp add: counted_def)
  note this [OF counted_before_tick [of p tim2 t]]
  ultimately show ?thesis by (simp add: app_second_def Let_def counted_tick(2) del: core_on_receiver)
qed

type_synonym second_input = "pins \<times> nat \<times> (nat \<times> nat \<times> nat \<times> nat \<times> nat \<times> nat)"

definition seconds :: "images \<Rightarrow> second_input list \<Rightarrow> recorder \<Rightarrow> recorder" where
  "seconds im xs t = fold (\<lambda>(p, tim2, now). app_second im p tim2 now) xs t"

lemma seconds_simps [simp]:
  "seconds im [] t = t" "seconds im (xs @ [(p, tim2, now)]) t = app_second im p tim2 now (seconds im xs t)"
  by (simp_all add: seconds_def)

lemma cyc_second: "cyc_of (st (tdev (app_second im p tim2 now t))) = cyc_of (resend_timer (st (tdev t)))"
  using app_second_counted [of im p tim2 now t] by (simp add: counted_def Let_def)

lemma cyc_resend:
  "cyc_of (resend_timer s) = (case cyc_of s of (a, b, c) \<Rightarrow>
     if a = RdCycle_SdOver then if u8n (b + 1) > 5 then (RdCycle_Idle, 0, c) else (a, u8n (b + 1), c) else (a, b, c))"
  by (simp add: resend_timer_def cyc_of_def Let_def)

lemma unconfirmed_seconds:
  assumes "cyc_of (st (tdev t)) = (RdCycle_SdOver, 0, c)" and "length xs \<le> 6"
  shows "cyc_of (st (tdev (seconds im xs t))) = (if length xs = 6 then (RdCycle_Idle, 0, c) else (RdCycle_SdOver, length xs, c))"
  using assms(2)
proof (induction xs rule: rev_induct)
  case (snoc x xs)
  then show ?case by (cases x) (simp add: cyc_second cyc_resend u8n_def)
qed (use assms in simp)

text \<open>
  (C17) A stored position that was sent and is not confirmed is free to be sent again after six seconds of the timer, not earlier; it is
  still the oldest of the queue.
\<close>

theorem unconfirmed_sent_again:
  assumes "ReadCycle_status (st (tdev t)) = RdCycle_SdOver" and "ReadCycle_timer (st (tdev t)) = 0"
    and "cycle_read (st (tdev t)) \<noteq> cycle_write (st (tdev t))" and "length xs \<le> 6" and "s = st (tdev (seconds im xs t))"
  shows "cycle_read s = cycle_read (st (tdev t)) \<and> cycle_write s = cycle_write (st (tdev t)) \<and>
    ReadCycle_status (snd (Api_CHK_ReadCycle_status s)) = (if length xs = 6 then RdCycle_RdytoSD else RdCycle_SdOver)"
proof -
  have "cyc_of s = (if length xs = 6 then (RdCycle_Idle, 0, cycle_read (st (tdev t)), cycle_write (st (tdev t)))
      else (RdCycle_SdOver, length xs, cycle_read (st (tdev t)), cycle_write (st (tdev t))))"
    unfolding assms(5) using assms(1,2,4) by (intro unconfirmed_seconds) (simp_all add: cyc_of_def)
  then show ?thesis
    using assms(3) by (auto simp: cyc_of_def Api_CHK_ReadCycle_status_def CHK_ReadCycle_status_def split: if_splits)
qed

theorem unconfirmed_sent_again_witness:
  "ReadCycle_status (snd (Api_CHK_ReadCycle_status (st (tdev (seconds (conf_img no_layout)
     (replicate 6 (quiet_pins, 0, (0, 0, 0, 0, 0, 0))) (waiting_recorder RdCycle_SdOver 0 1)))))) = RdCycle_RdytoSD"
  using unconfirmed_sent_again [where t = "waiting_recorder RdCycle_SdOver 0 1" and im = "conf_img no_layout"
      and xs = "replicate 6 (quiet_pins, 0, (0, 0, 0, 0, 0, 0))", OF _ _ _ _ refl]
  by (simp add: waiting_recorder_def on_tdev_def blank_store_def)

section \<open>The restart\<close>

lemma restart_second:
  "Systerm_Reset_counter (tveh (app_second im p tim2 now t)) =
    (let n = u32 (Systerm_Reset_counter (tveh t) + 1) in if n > Max_SystemCounter then 0 else n)"
  using app_second_counted [of im p tim2 now t] by (simp add: counted_def Let_def)

lemma restart_seconds:
  assumes "Systerm_Reset_counter (tveh t) = 0" and "length xs \<le> 28801"
  shows "Systerm_Reset_counter (tveh (seconds im xs t)) = (if length xs = 28801 then 0 else length xs) \<and>
    resets (mdm (seconds im xs t)) = resets (mdm t) + (if length xs = 28801 then 1 else 0)"
  using assms(2)
proof (induction xs rule: rev_induct)
  case (snoc x xs)
  then show ?case by (cases x) (simp add: restart_second app_second_resets Let_def u32_def)
qed (use assms in simp)

lemma link_end_second:
  assumes "u32 (Systerm_Reset_counter (tveh t) + 1) = 28795"
  shows "DataLink_EndFlag (tveh (app_second im p tim2 now t)) = 1"
proof -
  have e [simp]: "DataLink_EndFlag (veh (on_device f a)) = DataLink_EndFlag (veh a)" "DataLink_EndFlag (veh (on_store g a)) = DataLink_EndFlag (veh a)"
    "DataLink_EndFlag (veh (on_warn w a)) = DataLink_EndFlag (veh a)" "DataLink_EndFlag (veh (save_jt im a)) = DataLink_EndFlag (veh a)"
    "DataLink_EndFlag (veh (Spd_ExpInit a)) = DataLink_EndFlag (veh a)" "DataLink_EndFlag (veh (TIRED_Drive_Init a)) = DataLink_EndFlag (veh a)"
    "DataLink_EndFlag (set_clock now v) = DataLink_EndFlag v" for f g w a v
    by (simp_all add: node_updates on_warn_def save_jt_def Spd_ExpInit_def TIRED_Drive_Init_def set_clock_def split: prod.split)
  have "DataLink_EndFlag (tveh (JT808_Related_Save_Process im now t)) = DataLink_EndFlag (tveh t)" for t
    by (simp add: JT808_Related_Save_Process_def mileage_save_def Save_Status_def Save_AvrgSpdPerMin_def Save_TiredDrive_Record_def
        Spd_Exp_Wr_def save_record_def Let_def)
  moreover have "DataLink_EndFlag (tveh (App808_tick_counter u)) = 1" if "u32 (Systerm_Reset_counter (tveh u) + 1) = 28795" for u
    using that by (simp add: App808_tick_counter_def Let_def)
  moreover have "Systerm_Reset_counter (tveh u) = Systerm_Reset_counter (tveh w)" if "counted (tapp u) = counted (tapp w)" for u w
    using that by (simp add: counted_def)
  note this [OF counted_before_tick [of p tim2 t]]
  ultimately show ?thesis using assms by (simp add: app_second_def Let_def on_tdev_def del: core_on_receiver)
qed

text \<open>
  (C27) The restart: counted from zero, the terminal calls its reset in second 28801, which is eight hours and not the day of the
  comment, and ends the link six seconds before.
\<close>

theorem daily_restart:
  assumes "Systerm_Reset_counter (tveh t) = 0" and "length xs \<le> 28801"
  shows "resets (mdm (seconds im xs t)) = resets (mdm t) + (if length xs = 28801 then 1 else 0) \<and>
    (length xs = 28795 \<longrightarrow> DataLink_EndFlag (tveh (seconds im xs t)) = 1)"
proof -
  have "DataLink_EndFlag (tveh (seconds im xs t)) = 1" if l: "length xs = 28795"
  proof -
    obtain ys p tim2 now where xs: "xs = ys @ [(p, tim2, now)]" using l by (cases xs rule: rev_cases) auto
    then have "Systerm_Reset_counter (tveh (seconds im ys t)) = 28794"
      using restart_seconds [OF assms(1), of ys im] l by simp
    then show ?thesis unfolding xs by (simp add: link_end_second u32_def)
  qed
  with restart_seconds [OF assms, of im] show ?thesis by blast
qed

theorem daily_restart_witness:
  "resets (mdm (seconds (conf_img no_layout) (replicate 28801 (quiet_pins, 0, (0, 0, 0, 0, 0, 0))) new_recorder)) = 1"
proof -
  have "Systerm_Reset_counter (tveh new_recorder) = 0" "resets (mdm new_recorder) = 0"
    by (simp_all add: new_recorder_def new_modem_def new_session_defs)
  then show ?thesis
    using daily_restart [of new_recorder "replicate 28801 (quiet_pins, 0, (0, 0, 0, 0, 0, 0))" "conf_img no_layout"]
    by (simp only: length_replicate) simp
qed

lemma remote_restart:
  assumes "Systerm_Reset_counter (tveh t) = 28800"
  shows "resets (mdm (app_second im p tim2 now t)) = resets (mdm t) + 1"
  using assms by (simp add: app_second_resets u32_def)

section \<open>The settings and the ignition\<close>

text \<open>
  (C33) The interval of the heartbeat that the centre sets with parameter 0001H does not survive the next turn of the application with the
  ignition on: whatever was set, the heartbeat is requested in second 301 and not before.
\<close>

theorem heartbeat_setting_lost:
  assumes "ACC_StatusGet p" and "w < 2 ^ 32"
    and "t1 = on_tapp (\<lambda>a. snd (CentreSet_subService_8103H im 0x0001 4 (be32 w) a)) t" and "t2 = ACC_status_Check p t1"
    and "s = (ses (mdm t2))\<lparr>Heart_SDCnter := 0\<rparr>"
  shows "Heart_Dur (DURATION (tapp t1)) = w \<and>
    Heart_SDFlag (sveh ((SendMode_ConterProcess ^^ 301) s)) = 1 \<and>
    (\<forall>k \<le> 300. Heart_SDFlag (sveh ((SendMode_ConterProcess ^^ k) s)) = Heart_SDFlag (tveh t2))"
proof -
  have w: "of_be32 (be32 w) = w" using of_be32_be32 [of w "[]"] assms(2) by simp
  have one: "Heart_Dur (DURATION (tapp t1)) = w"
    unfolding assms(3) by (simp add: CentreSet_subService_8103H_def set4_def w save_jt_def on_store_def on_device_def on_veh_def)
  have two: "Heart_Dur (DURATION (tapp t2)) = 300"
    unfolding assms(4) using assms(1)
    by (simp add: ACC_status_Check_def Sleep_Mode_ConfigExit_def Let_def on_veh_def)
  have s: "heart_dur s = 300" "Heart_SDCnter s = 0" "Heart_SDFlag (sveh s) = Heart_SDFlag (tveh t2)" using two by (simp_all add: assms(5))
  have k: "(SendMode_ConterProcess ^^ k) s = s\<lparr>Heart_SDCnter := k\<rparr>" if "k \<le> 300" for k
    using heart_ticks [OF s(2), of k] s(1) that by simp
  have "(SendMode_ConterProcess ^^ 301) s = SendMode_ConterProcess (s\<lparr>Heart_SDCnter := 300\<rparr>)"
    using k [of 300] by (simp only: funpow.simps(2) [of 300, simplified] o_apply)
  then have "Heart_SDFlag (sveh ((SendMode_ConterProcess ^^ 301) s)) = 1"
    using s(1) by (simp add: SendMode_ConterProcess_def u16_def Let_def on_sveh_def on_vehicle_def on_app_def on_stn_def)
  with one k s(3) show ?thesis by simp
qed

theorem heartbeat_setting_lost_witness:
  "\<exists>t. Heart_Dur (DURATION (tapp t)) = 60 \<and>
    Heart_SDFlag (sveh ((SendMode_ConterProcess ^^ 61)
      ((ses (mdm (ACC_status_Check (quiet_pins\<lparr>acc_pin := False\<rparr>) t)))\<lparr>Heart_SDCnter := 0\<rparr>))) =
    Heart_SDFlag (tveh (ACC_status_Check (quiet_pins\<lparr>acc_pin := False\<rparr>) t))"
proof -
  have "ACC_StatusGet (quiet_pins\<lparr>acc_pin := False\<rparr>)" by (simp add: ACC_StatusGet_def)
  from heartbeat_setting_lost [OF this _ refl refl refl, of 60 "conf_img no_layout" new_recorder] show ?thesis
    by (intro exI [of _ "on_tapp (\<lambda>a. snd (CentreSet_subService_8103H (conf_img no_layout) 0x0001 4 (be32 60) a)) new_recorder"])
       fastforce
qed

section \<open>The speeds of an hour\<close>

lemma AvrgSpd_page: "RecordAdd_Page TYPE_AvrgSpdAdd = Some 1248"
  by (simp add: RecordAdd_Page_def)

lemma permin_newest:
  assumes "AvrgSpdPerMin_write s < 2799" and "slot_ready AverageSpdStart_offset 7 70 Max_SPDSperMin (AvrgSpdPerMin_write s) (flash s)"
    and "length b \<le> 70" and "rec_valid b"
  shows "fst (snd (Api_DFdirectory_Read spdpermin (length b) 0 0 (dir_write spdpermin b s))) = Some b"
proof -
  let ?n = "AvrgSpdPerMin_write s"
  let ?f = "slot_write AverageSpdStart_offset 7 70 ?n b (flash s)"
  define s' where "s' = dir_write spdpermin b s"
  have n: "?n < Max_SPDSperMin" "ring_inc Max_SPDSperMin ?n = ?n + 1" using assms(1) by (simp_all add: ring_inc_def u32_def)
  have blank: "nor_read (slot_open AverageSpdStart_offset 7 70 ?n (flash s)) (slot_addr AverageSpdStart_offset 7 70 ?n) = 0xFF"
    using min_ring.open_blank [OF n(1) assms(2), of 0] by simp
  have s': "AvrgSpdPerMin_write s' = ?n + 1" "flash s' = RecordAdd_put 1248 (?n + 1) (?n + 1) ?f"
    using Save_PerMinContent_slot [OF n(1) assms(3), of b s] blank n(2)
    by (simp_all add: s'_def dir_write_def Api_DFdirectory_Write_def Let_def DF_Write_RecordAdd_def AvrgSpd_page)
  have pos: "0 < length b" using assms(4) by (simp add: rec_valid_def)
  have "slot_read AverageSpdStart_offset 7 70 (length b) ?n (flash s') = slot_read AverageSpdStart_offset 7 70 (length b) ?n ?f"
    unfolding s' using n(1) assms(3) by (intro min_ring.slot_read_cong nor_read_put_other) (simp_all add: log_page_def)
  then have "slot_read AverageSpdStart_offset 7 70 (length b) ?n (flash s') = b"
    using min_ring.slot_read_write_same [OF n(1) assms(2,3)] by simp
  then have "Read_PerMinContent ?n (length b) s' = (True, b, s')"
    using Read_PerMinContent_slot [OF n(1) pos assms(3), of s'] assms(4) by (simp add: Let_def)
  then show ?thesis
    using s' n(1) by (simp add: s'_def [symmetric] Api_DFdirectory_Read_def DFdirectory_read_addr_def u16_def)
qed

text \<open>
  (C24) The mean speeds of an hour: when they are due and the flash is not locked and no sound is recorded, the next second stores them, the
  newest record of the directory starts with their date and the sixty speeds, and the collection starts anew.
\<close>

theorem hour_of_speeds_stored:
  assumes "m = Avrgspd_Mint (rcvr t)" and "spd_saveFlag m = 1" and "length (spd_datetime_Bak m) = 6" and "length (avgrspd m) = 60"
    and "spd_datetime_Bak m ! 0 \<noteq> 0xFF" and "s = st (tdev t)" and "DF_LOCK s = 0" and "voice_CMD_Type (stn (tnode t)) \<noteq> 0x31"
    and "\<not> (Doubt_SaveFlag t = 1 \<and> sensor_writeOverFlag t = 1)" and "AvrgSpdPerMin_write s < 2799"
    and "slot_ready AverageSpdStart_offset 7 70 Max_SPDSperMin (AvrgSpdPerMin_write s) (flash s)"
    and "t' = JT808_Related_Save_Process im now t"
  shows "\<exists>b. fst (snd (Api_DFdirectory_Read spdpermin 70 0 0 (st (tdev t')))) = Some b \<and>
    take 65 b = take 5 (spd_datetime_Bak m) @ avgrspd m \<and>
    spd_saveFlag (Avrgspd_Mint (rcvr t')) = 0 \<and> avgrspd (Avrgspd_Mint (rcvr t')) = replicate 60 0"
proof -
  have l: "length (mint_record m) = 70" using assms(3,4) by (simp add: mint_record_def sealed_def)
  have "rec_valid (mint_record m)"
    using assms(3-5) by (simp add: mint_record_def sealed_def rec_valid_def nth_append)
  from permin_newest [OF assms(10,11) _ this] l
  have r: "fst (snd (Api_DFdirectory_Read spdpermin 70 0 0 (dir_write spdpermin (mint_record m) s))) = Some (mint_record m)" by simp
  have t': "st (tdev t') = dir_write spdpermin (mint_record m) s" "spd_saveFlag (Avrgspd_Mint (rcvr t')) = 0"
    "avgrspd (Avrgspd_Mint (rcvr t')) = replicate 60 0"
    using assms(1,2,6-9) unfolding assms(12)
    by (auto simp: JT808_Related_Save_Process_def Save_AvrgSpdPerMin_def save_record_def Let_def)
  moreover have "take 65 (mint_record m) = take 5 (spd_datetime_Bak m) @ avgrspd m"
    using assms(3,4) by (simp add: mint_record_def sealed_def)
  ultimately show ?thesis using r by auto
qed

theorem hour_of_speeds_stored_witness:
  "\<exists>t b. fst (snd (Api_DFdirectory_Read spdpermin 70 0 0 (st (tdev (JT808_Related_Save_Process (conf_img no_layout) (0, 0, 0, 0, 0, 0) t))))) = Some b \<and>
    take 65 b = [0x14, 0x03, 0x02, 0x08, 0x00] @ replicate 60 45"
proof -
  let ?m = "\<lparr>spd_datetime = replicate 6 0, spd_datetime_Bak = [0x14, 0x03, 0x02, 0x08, 0x00, 0x00], avgrspd = replicate 60 45, spd_saveFlag = 1\<rparr>"
  let ?t = "new_recorder\<lparr>rcvr := new_receiver\<lparr>Avrgspd_Mint := ?m\<rparr>\<rparr>"
  have "voice_CMD_Type (stn (tnode ?t)) = 0" "st (tdev ?t) = blank_store" "Doubt_SaveFlag ?t = 0" "Avrgspd_Mint (rcvr ?t) = ?m"
    by (simp_all add: new_recorder_def new_modem_def new_session_defs)
  moreover have "slot_ready AverageSpdStart_offset 7 70 Max_SPDSperMin 0 (flash blank_store)" by (simp add: slot_ready_first)
  ultimately show ?thesis
    using hour_of_speeds_stored [where t = ?t and m = ?m and im = "conf_img no_layout" and now = "(0, 0, 0, 0, 0, 0)",
        OF _ _ _ _ _ refl _ _ _ _ _ refl]
    by (fastforce simp: blank_store_def)
qed

section \<open>The start\<close>

text \<open>
  (C32) A start with no position waiting moves the read slot past the write slot, unless the write slot is the first of a sector: the terminal tries to read a record where none is, and
  afterwards takes the whole ring for positions that wait to be sent.
\<close>

theorem restart_overtakes_queue:
  assumes "cycle_fifo (st (tdev t)) []" and "cycle_write (st (tdev t)) mod 128 \<noteq> 0" and "length (Car_Status (gps (tdev t))) = 4"
    and "s = st (tdev (App808_start t))"
  shows "cycle_read s = ring_inc Max_CycleNum (cycle_write s) \<and> cycle_write s = cycle_write (st (tdev t)) \<and>
    ReadCycle_status (snd (Api_CHK_ReadCycle_status s)) = RdCycle_RdytoSD \<and>
    PositionInfo_sdFlag s = 1 \<and> Car_Status (gps (tdev (App808_start t))) ! 3 = 0"
proof -
  let ?d = "tdev t" and ?s = "st (tdev t)"
  define d1 where "d1 = ?d\<lparr>terminal := (terminal ?d)\<lparr>SIM_code := DeviceID_Convert_SIMCODE (DeviceNumberID (terminal ?d))\<rparr>,
     gps := (gps ?d)\<lparr>Car_Status := (Car_Status (gps ?d))[1 := Car_Status (gps ?d) ! 1 OR 0x0C]\<rparr>\<rparr>"
  have n: "cycle_read ?s = cycle_write ?s" "cycle_write ?s < Max_CycleNum" using assms(1) cycle_fifo_empty by (auto intro: cycle_write_less)
  have r: "slot_ready CycleStart_offset 16 32 Max_CycleNum (cycle_write ?s) (flash ?s)"
    using assms(1) unfolding cycle_fifo_def ring_queue_def by blast
  have "slot_read CycleStart_offset 16 32 31 (cycle_write ?s) (flash ?s) ! 0 = 0xFF"
    using cyc.open_blank [OF n(2) r, of 0] assms(2) by (simp add: slot_open_def slot_read_first)
  then have skip: "ReadCycleGPS w 31 ?s = (False, slot_read CycleStart_offset 16 32 31 (cycle_write ?s) (flash ?s), ReadCycle_skip ?s)" for w
    unfolding ReadCycleGPS_def Let_def using n by (simp add: cyc.DF_ReadFlash_slot)
  have "cycle_write ?s \<noteq> 0" using assms(2) by (intro notI) simp
  then have g: "Get_recent_saveInfo d1 = (False, d1\<lparr>st := ReadCycle_skip ?s\<rparr>)"
    by (simp add: Get_recent_saveInfo_def d1_def skip)
  have d: "tdev (App808_start t) = d1\<lparr>st := ReadCycle_skip ?s, gps := (gps d1)\<lparr>Car_Status := (Car_Status (gps d1))[3 := 0]\<rparr>\<rparr>"
    using g by (simp add: App808_start_def on_dev_def d1_def Let_def)
  have "ring_inc Max_CycleNum (cycle_write ?s) \<noteq> cycle_write ?s" using n(2) by (simp add: ring_inc_def u32_def)
  then show ?thesis
    using n assms(3) unfolding assms(4) d
    by (auto simp: ReadCycle_skip_def d1_def Api_CHK_ReadCycle_status_def CHK_ReadCycle_status_def)
qed

theorem restart_overtakes_queue_witness:
  "cycle_read (st (tdev (App808_start (waiting_recorder RdCycle_Idle 5 5)))) = 6"
proof -
  have "cycle_fifo (st (tdev (waiting_recorder RdCycle_Idle 5 5))) []"
    by (simp add: waiting_recorder_def on_tdev_def cycle_fifo_def ring_queue_def slot_ready_def nor_read_def blank_store_def)
  moreover have "length (Car_Status (gps (tdev (waiting_recorder RdCycle_Idle 5 5)))) = 4" "cycle_write (st (tdev (waiting_recorder RdCycle_Idle 5 5))) = 5"
    by (simp_all add: waiting_recorder_def on_tdev_def new_recorder_def new_modem_def new_session_defs)
  ultimately show ?thesis
    using restart_overtakes_queue [where t = "waiting_recorder RdCycle_Idle 5 5", OF _ _ _ refl] by (simp add: ring_inc_def u32_def)
qed

text \<open>
  (C29) A start with a position waiting restores latitude and longitude from the oldest record, but the status byte is the first byte of the
  latitude, and the read slot moves back by one, to a position that was delivered before.
\<close>

theorem status_from_latitude:
  assumes "cycle_fifo (st (tdev t)) (GPSsaveBuf g # q)" and "gps_ok g" and "gps_ok (gps (tdev t))" and "cycle_write (st (tdev t)) \<noteq> 0"
    and "d = tdev (App808_start t)"
  shows "Latitude (gps d) = Latitude g \<and> Longitude (gps d) = Longitude g \<and> Car_Status (gps d) ! 3 = Latitude g ! 0 \<and>
    cycle_read (st d) = cycle_read (st (tdev t)) - 1"
proof -
  let ?d = "tdev t" and ?s = "st (tdev t)" and ?b = "GPSsaveBuf g"
  define d1 where "d1 = ?d\<lparr>terminal := (terminal ?d)\<lparr>SIM_code := DeviceID_Convert_SIMCODE (DeviceNumberID (terminal ?d))\<rparr>,
     gps := (gps ?d)\<lparr>Car_Status := (Car_Status (gps ?d))[1 := Car_Status (gps ?d) ! 1 OR 0x0C]\<rparr>\<rparr>"
  have "ReadCycleGPS w 31 ?s = (True, ?b, ?s)" for w
  proof (rule ReadCycleGPS_slot)
    show "cycle_read ?s < Max_CycleNum" "cyc_read 31 (cycle_read ?s) (flash ?s) = ?b" "cycle_rec ?b"
      using assms(1) by (force simp: cycle_fifo_def ring_queue_def)+
  qed
  then have g: "Get_recent_saveInfo d1 = (True, d1\<lparr>st := ?s\<lparr>cycle_read := cycle_read ?s - 1\<rparr>,
      gps := (gps d1)\<lparr>Car_Status := (Car_Status (gps d1))[3 := ?b ! 8], Latitude := splice 0 (take 4 (drop 8 ?b)) (Latitude (gps d1)),
        Longitude := splice 0 (take 4 (drop 12 ?b)) (Longitude (gps d1))\<rparr>\<rparr>)"
    using assms(4) by (simp add: Get_recent_saveInfo_def d1_def)
  have d: "d = snd (Get_recent_saveInfo d1)"
    unfolding assms(5) using g by (simp add: App808_start_def on_dev_def d1_def Let_def)
  have "?b ! 8 = Latitude g ! 0" "take 4 (drop 8 ?b) = Latitude g" "take 4 (drop 12 ?b) = Longitude g"
    using assms(2) by (simp_all add: GPSsaveBuf_def gps_ok_def Let_def nth_append)
  then show ?thesis unfolding d g using assms(2,3) by (simp add: d1_def gps_ok_def splice_def)
qed

theorem status_from_latitude_witness:
  "\<exists>t. Car_Status (gps (tdev (App808_start t))) ! 3 = 0x02 \<and> Latitude (gps (tdev (App808_start t))) = [0x02, 0x60, 0xD3, 0x60]"
proof -
  let ?g = "(gps (tdev new_recorder))\<lparr>Latitude := [0x02, 0x60, 0xD3, 0x60]\<rparr>"
  let ?s = "snd (Api_cycle_write (GPSsaveBuf ?g) 31 blank_store)"
  let ?t = "on_tdev (\<lambda>d. d\<lparr>st := ?s\<rparr>) new_recorder"
  have g: "gps_ok ?g" "gps_ok (gps (tdev ?t))" by (simp_all add: gps_ok_def on_tdev_def new_recorder_def new_modem_def new_session_defs)
  have rec: "cycle_rec (GPSsaveBuf ?g)" by (rule cycle_rec_GPSsaveBuf [OF g(1)])
  have "cycle_fifo ?s [GPSsaveBuf ?g]" using Api_cycle_write_push(2) [OF cycle_fifo_blank rec] by simp
  moreover have "cycle_write ?s = 1"
    using Api_cycle_write_ready(3) [of blank_store "GPSsaveBuf ?g"] rec
    by (simp add: cycle_rec_def slot_ready_first blank_store_def ring_inc_def u32_def)
  ultimately show ?thesis
    using status_from_latitude [where t = ?t and g = ?g and q = "[]", OF _ g _ refl]
    by (intro exI [of _ ?t]) (simp add: on_tdev_def)
qed

end
