(* ===== verification/Spec2Isabelle.thy ===== *)
theory Spec2Isabelle
  imports Photo_Path Terminal_Task
begin

text \<open>
  \<^bold>\<open>Verification of a vehicle terminal.\<close> The program is the application of a GPS terminal with
  a driving recorder, in \<^verbatim>\<open>src/bsp/stm32f407vgt6_RecDrv/app_712\<close>. It runs as several threads on
  RT-Thread, stores records in a serial NOR flash, speaks protocol JT/T 808 with a centre over
  a GSM link and takes pictures with cameras on an RS-485 line. File names below are relative
  to that directory.

  \<^bold>\<open>Parts and theories.\<close> Each theory uses the ones before it.

  \<^item> \<^verbatim>\<open>Prelude\<close>: bytes as 8 bit words, counters as naturals with the wrap-around of
    \<^verbatim>\<open>u8\<close>, \<^verbatim>\<open>u16\<close> and \<^verbatim>\<open>u32\<close> written out, byte order, exclusive-or sums, writing a list into a
    buffer.
  \<^item> \<^verbatim>\<open>Nor_Flash\<close>: the flash as a function from addresses to bytes. Programming clears bits,
    erasing sets a sector to \<open>0xFF\<close> (\<^verbatim>\<open>dataflash/SST25/SST25VF.c\<close> at the level of completed
    commands). Locale \<^verbatim>\<open>nor_device\<close> states the laws of such a chip.
  \<^item> \<^verbatim>\<open>DF_Oper\<close> (\<^verbatim>\<open>dataflash/DF_Oper.c\<close>): pages of 512 bytes on the chip, with the sector
    backups of the read-modify-write functions.
  \<^item> \<^verbatim>\<open>Flash_State\<close>: the global variables of the storage as the record \<^verbatim>\<open>store\<close>.
  \<^item> \<^verbatim>\<open>DF_Function\<close> (\<^verbatim>\<open>dataflash/DF_Function.c\<close>): the logs that hold the read and write pointers
    of every record type. Locale \<^verbatim>\<open>pointer_store\<close>: what was put last is what is read; the
    refinement shows that the log with its sector rotation implements it.
  \<^item> \<^verbatim>\<open>Record_Area\<close>: locales \<^verbatim>\<open>slot_area\<close>, \<^verbatim>\<open>ring_area\<close> and \<^verbatim>\<open>record_ops\<close>, the geometry of record
    areas and the contract of save and read functions, proved once.
  \<^item> \<^verbatim>\<open>Flash_Oper\<close> (\<^verbatim>\<open>dataflash/Flash_Oper.c\<close>): saving and reading each kind of record;
    the locales of \<^verbatim>\<open>Record_Area\<close> are interpreted for every area.
  \<^item> \<^verbatim>\<open>Store_Api\<close> (\<^verbatim>\<open>protocol_808/Device_808.c\<close> from the file interface on): the \<^verbatim>\<open>Api_\<close>
    functions and the queue of stored positions as a step relation.
  \<^item> \<^verbatim>\<open>Frame808\<close> (\<^verbatim>\<open>protocol_808/protocol_808.c\<close>): escaping, unescaping and the check of received
    frames; locale \<^verbatim>\<open>framing\<close> for self-delimiting codes.
  \<^item> \<^verbatim>\<open>Device_State\<close>: the other global variables as the record \<^verbatim>\<open>device\<close>; the frames handed to
    the modem are the list \<^verbatim>\<open>tx\<close>, the bytes put on the RS-485 line the list \<^verbatim>\<open>out485\<close>.
  \<^item> \<^verbatim>\<open>Messages808\<close>: head, end and content of the messages.
  \<^item> \<^verbatim>\<open>Media\<close>: transmission of pictures, sounds and videos, with its timers and the answers of
    the centre; locale \<^verbatim>\<open>sd_channel\<close> for the three channels.
  \<^item> \<^verbatim>\<open>Camera\<close> (\<^verbatim>\<open>U4_485/App_485.c\<close>, \<^verbatim>\<open>U4_485/Device_485.c\<close>): taking and storing pictures.
  \<^item> \<^verbatim>\<open>Report808\<close>: the sending task \<^verbatim>\<open>Do_SendGPSReport_GPRS\<close> with all its branches, the answers to
    queries of the centre, the data of the driving recorder and the answers of the remote
    update; locale \<^verbatim>\<open>message_function\<close> for the functions that send one message.
  \<^item> \<^verbatim>\<open>Settings808\<close>: the commands that set and query parameters (8103H, 8105H, 8701H) with the
    configuration structures they write and the dial strings they build.
  \<^item> \<^verbatim>\<open>Records808\<close>: the commands that keep numbered records: texts, events, questions, broadcast
    items, telephone book, circles, rectangles, polygons and routes (8300H to 8304H, 8401H, 8600H to
    8607H), and the initialisation of these records in \<^verbatim>\<open>protocol_808/Sys_config.c\<close>.
  \<^item> \<^verbatim>\<open>Fences808\<close>: judging the position against the rectangles and circles.
  \<^item> \<^verbatim>\<open>Command808\<close>: the remaining commands and \<^verbatim>\<open>TCP_RX_Process\<close>, which checks a received text and
    dispatches it to the handlers of all theories before.
  \<^item> \<^verbatim>\<open>Session808\<close>: the timers of registration, login and heartbeat, the thread of
    \<^verbatim>\<open>protocol_808/app_808.c\<close> and the reports of the modem that change the link, as the step relation
    \<^verbatim>\<open>session_step\<close>; locale \<^verbatim>\<open>retry_timer\<close> for the two timers that repeat a request.
  \<^item> \<^verbatim>\<open>Modem_gsm\<close> (\<^verbatim>\<open>gsm/Device_gsm.c\<close>): the state of the modem thread, received lines, data as hexadecimal
    digits, spoken texts and sound recordings.
  \<^item> \<^verbatim>\<open>Dial_gsm\<close> (\<^verbatim>\<open>gsm/Device_gsm.c\<close>, \<^verbatim>\<open>gsm/App_gsm.c\<close>): power and card, the initial commands, the steps
    of dialling, every answer of the modem that \<^verbatim>\<open>GSM_Process\<close> knows, ending a link and dialling again, the one
    second timer and one turn of the thread.
  \<^item> \<^verbatim>\<open>Link_gsm\<close>: the link as a whole. The step relation \<^verbatim>\<open>modem_step\<close> has received bytes, turns, seconds and
    the application as its steps.
  \<^item> \<^verbatim>\<open>Gps_Nmea\<close> (\<^verbatim>\<open>gps/gps.c\<close> and the evaluation of the fields in \<^verbatim>\<open>protocol_808/protocol_808.c\<close>): the interrupt and
    the thread of the position receiver, the parsers of its sentences, position, local time, speed, mileage,
    the mean speed of each minute, the calibration of the speed sensor and the reports by time and distance.
  \<^item> \<^verbatim>\<open>Gps_Position\<close>: from the bytes of a sentence to the position. \<^verbatim>\<open>Gps_Reports\<close>: runs of the receiver (the step
    relation \<^verbatim>\<open>gps_step\<close>), what changes the position and when reports come.
  \<^item> \<^verbatim>\<open>Vehicle_Task\<close> (\<^verbatim>\<open>protocol_808/app_808.c\<close>, the inputs in \<^verbatim>\<open>protocol_808/Device_808.c\<close>): input pins, ignition and sleep,
    the emergency button, the records saved once a second, the 100 ms timer, the turn and the start of the application
    thread, and the step relation \<^verbatim>\<open>terminal_step\<close> of all threads together. \<^verbatim>\<open>Terminal_Task\<close>: its properties.
  \<^item> \<^verbatim>\<open>Photo_Path\<close> and this theory: the way of a picture from the command to the centre.

  \<^bold>\<open>What is shown.\<close> For the flash: what is written is read back, the pointer logs refine an
  abstract log, and the queue of stored positions delivers in order and survives a restart as long as at most 16257 positions
  wait (the code sets no limit, and with more the oldest are lost). For the messages: framing is
  inverted by the receiver, damage is detected, each branch of the sending task sends the message it
  should, and pictures arrive complete and in order. For the commands: each is answered under its own
  number, what the report of the parameters lists after each setting (not always what was set), and a login needs the centre's consent. For the
  modem: the link comes up when the modem answers and only when it reports a connection, a silent modem leads
  to a reset in 301 seconds, and received data reach the application, without their last byte if the line ends as in the
  example of the code. For the receiver: the
  position is that of the sentence to a millionth of a degree, its time is the local time, and without a fix only a
  sentence that reports one changes it. For the periodic work: the emergency alarm is raised exactly by a button held for four seconds, an unconfirmed
  position is sent again after six, the speeds of an hour reach the flash, the terminal falls asleep, wakes and restarts when it
  should. Where the code departs from what it means to do, the theorem states what it does.

  \<^bold>\<open>Parameters.\<close> The memory image of a structure that is saved as a block (its padding depends on the
  compiler) is a function the operations take, in the records \<^verbatim>\<open>images\<close> and \<^verbatim>\<open>layout\<close>; no
  hypothesis is made about it. Bytes of a buffer that the code sends without having set
  them are an argument \<^verbatim>\<open>junk\<close>. Copies that exceed their array are modelled as growing it, and
  \<^verbatim>\<open>Settings808\<close> states exactly when that happens; what lies behind the array is not modelled.

  \<^bold>\<open>Loops.\<close> Every loop of the code is a structural recursion or a fold over its index range; no fuel
  is used. Runs of the threads are lists of steps (\<^verbatim>\<open>session_run\<close>, \<^verbatim>\<open>modem_run\<close>, \<^verbatim>\<open>gps_run\<close>, \<^verbatim>\<open>terminal_run\<close>, \<^verbatim>\<open>cycle_run\<close>, \<^verbatim>\<open>media_reach\<close>), so
  their properties hold for every interleaving of the listed steps.

  \<^bold>\<open>Not modelled.\<close> The set-up of interrupts and serial ports, the update of the position receiver in
  \<^verbatim>\<open>gps/gps.c\<close>, the distance of the route fence and the height, which are computed with floating point numbers and are
  arguments (\<^verbatim>\<open>off_route\<close>, \<^verbatim>\<open>height_of\<close>), the defaults loaded at start, feeding the watchdog, functions that
  are never called (judging the speed limit, the power cut, the choice of the report mode), the display, printer, IC card, CAN, shake sensor and USB drivers, and RT-Thread itself.
\<close>

text \<open>
  (C1) From a command of the centre to the picture at the centre, through the components: the
  command starts the take, the packets of the camera arrive on the RS-485 line and are stored
  in the flash, the picture is announced, and after one round of the sending task per packet
  the frames handed to the modem are the announcement followed by frames whose data together
  are exactly the bytes the camera sent.
\<close>

theorem camera_to_centre:
  assumes "camera_free d" and "can_send d" and "unat (rx ! 13) = c" and "c \<in> {1, 2, 3}"
    and "\<forall>p \<in> set ps. length p = 512 \<and> \<not> end_mark p" and "q \<noteq> []" and "length q \<le> 512" and "end_mark q"
    and "Pic_page c + 1 + length ps < pic_limit c"
    and "stored = line_packet x y z q (fold (line_packet x y z) ps (thread_485_turn (TCP_RX_8801 rx d)))"
    and "begun = media_second (media_second (snd (send_media_info stored)))"
    and "d' = (media_round ^^ packets (length (concat ps @ q))) begun"
  shows "waiting d' \<and> (\<exists>g fs. tx d' = tx d @ (g, 0) # map (\<lambda>f. (f, 0)) fs \<and>
    concat (map (\<lambda>f. snd (the (media_rx f))) fs) = concat ps @ q)"
proof -
  let ?p = "concat ps @ q"
  have env: "env stored = env d" unfolding assms(10) by (rule env_take)
  then have "can_send stored" "tx stored = tx d" using assms(2) can_send_env [of stored d] by (simp_all add: env_def)
  moreover have "announced c ?p stored"
    unfolding assms(10) using packets_announced [OF take_command(1) [OF assms(1,3)] assms(4-8)] assms(9) by simp
  moreover have "length ?p \<le> 65536"
  proof -
    have "length (concat ps) = length ps * 512" using assms(5) by (induction ps) auto
    then show ?thesis using assms(4,7,9) by (auto simp: Pic_page_def pic_limit_def)
  qed
  ultimately have s: "in_sequence 0 begun" "can_send begun" "stored_picture (Camera_Number begun) (st begun) = ?p"
    "PicFileSize (st begun) = length ?p" "\<exists>g. tx begun = tx d @ [(g, 0)]"
    using announced_sending [OF _ _ _ _ _ assms(11), of c ?p] assms(4,6) by auto
  have "d' = (media_round ^^ packets (PicFileSize (st begun))) begun" using s(4) assms(12) by simp
  from picture_transmitted [OF s(1) _ _ _ this] s show ?thesis
    by (fastforce simp: can_send_def)
qed

theorem camera_to_centre_witness:
  "\<exists>d. waiting d \<and> (\<exists>g fs. tx d = (g, 0) # map (\<lambda>f. (f, 0)) fs \<and>
    concat (map (\<lambda>f. snd (the (media_rx f))) fs) = [1, 2, 3])"
proof -
  let ?d = "(Init_Camera (idle_device blank_store))\<lparr>DataLink_OK := True, DEV_Login_Operate_enable := 2\<rparr>"
  have "camera_free ?d"
    by (simp add: camera_free_def Init_Camera_def Camera_Take_Enable_def idle_device_def idle_media_sd_def rx_idle_def)
  moreover have "can_send ?d" "tx ?d = []"
    by (simp_all add: can_send_def Init_Camera_def idle_device_def idle_media_sd_def no_other_media_def current_position_def)
  ultimately show ?thesis
    using camera_to_centre [where d = ?d and rx = "replicate 13 0 @ [1]" and c = 1 and ps = "[]" and q = "[1, 2, 3]"
        and x = 0 and y = 0 and z = 0, OF _ _ _ _ _ _ _ _ _ refl refl refl]
    by (auto simp: nth_append end_mark_def Pic_page_def pic_limit_def)
qed

end
